(* ===== verification/Conformance_Prelude.thy ===== *)
theory Conformance_Prelude
  imports Main "HOL-Library.Char_ord" "HOL-Library.List_Lexorder" "HOL-Library.Product_Lexorder"
begin

text \<open>
  Shared vocabulary of the development: the exceptions the harness raises as values, the result
  type of fallible code with its sequencing combinators, the boundary checks on tokens and
  integers that several modules repeat, and generic lemmas on lists.

  Python's \<open>type(x) is T\<close> checks have no counterpart: a HOL argument has its type. Every other
  guard of the code, with its exception class and message, is a branch of the model.
  A Python \<open>str\<close> that the code restricts to ASCII is a \<open>string\<close>; where the code
  handles arbitrary Unicode text, it is a list of code points (see the generator).
\<close>

named_theorems result_simps \<open>decomposition of successful results\<close>

section \<open>Exceptions as values\<close>

text \<open>One constructor per exception class the modelled modules raise, with its message. The
  queue's error and the destination policy's carry their stable codes, as the classes do.\<close>

datatype ScheduleQueueErrorCode = CAPACITY_EXCEEDED | DUPLICATE_CONFLICT | INVALID_ITEM

text \<open>The three class methods of \<open>SignerError\<close>: a configuration error with its diagnostic code and
  message, an adapter that is not registered, and a failed signing operation.\<close>

datatype SignerFailure = Configuration string string | Unsupported | Signing

datatype exn =
    TypeError string
  | ValueError string
  | UnicodeEncodeError
  | OverflowError string
  | RuntimeError string
  | ScheduleQueueError ScheduleQueueErrorCode string
  | BarrierInputError string
  | RetryPolicyError string
  | IdentifierCollisionError string
  | ProjectionIntegrityError string
  | ResumePolicyIntegrityError string
  | ResumePolicyInputError string
  | ResumePolicyResourceLimitError string
  | SignerError SignerFailure
  | SecretResolutionError string
  | DestinationPolicyError string string
  | RecoveryIntegrityError string
  | RecoveryResourceLimitError string
  | RecoveryOwnerEpochError string
  | IllegalTransitionError string
  | StaleOwnerEpochError string
  | CrossRunReferenceError string
  | IdempotencyConflictError string
  | ObserverJsonResourceLimitError string
  | ObserverProtocolError string
  | ValidationError string

type_synonym 'a result = "exn + 'a"

text \<open>The classes that \<open>except (TypeError, ValueError)\<close> catches: the two classes and the
  subclasses of \<open>ValueError\<close>.\<close>

fun is_type_or_value_error :: "exn \<Rightarrow> bool" where
  "is_type_or_value_error (TypeError _) = True"
| "is_type_or_value_error (ValueError _) = True"
| "is_type_or_value_error UnicodeEncodeError = True"
| "is_type_or_value_error (BarrierInputError _) = True"
| "is_type_or_value_error (RetryPolicyError _) = True"
| "is_type_or_value_error (IdentifierCollisionError _) = True"
| "is_type_or_value_error (DestinationPolicyError _ _) = True"
| "is_type_or_value_error (ObserverJsonResourceLimitError _) = True"
| "is_type_or_value_error (ObserverProtocolError _) = True"
| "is_type_or_value_error (ValidationError _) = True"
| "is_type_or_value_error _ = False"

section \<open>Sequencing fallible code\<close>

definition and_then :: "'a result \<Rightarrow> ('a \<Rightarrow> 'b result) \<Rightarrow> 'b result" where
  "and_then m f = (case m of Inl e \<Rightarrow> Inl e | Inr x \<Rightarrow> f x)"

text \<open>\<open>raise_unless b e\<close> is the Python statement \<open>if not b: raise e\<close>.\<close>

definition raise_unless :: "bool \<Rightarrow> exn \<Rightarrow> unit result" where
  "raise_unless b e = (if b then Inr () else Inl e)"

fun for_each :: "('a \<Rightarrow> 'b result) \<Rightarrow> 'a list \<Rightarrow> 'b list result" where
  "for_each f [] = Inr []"
| "for_each f (x # xs) = and_then (f x) (\<lambda>y. and_then (for_each f xs) (\<lambda>ys. Inr (y # ys)))"

definition returns :: "'a result \<Rightarrow> bool" where
  "returns m = (case m of Inl _ \<Rightarrow> False | Inr _ \<Rightarrow> True)"

section \<open>Boundary checks\<close>

text \<open>The regular expression \<open>[A-Za-z0-9_.:-]+\<close>, as \<open>fullmatch\<close> uses it.\<close>

definition in_char_range :: "char \<Rightarrow> char \<Rightarrow> char \<Rightarrow> bool" where
  "in_char_range lo hi c = (lo \<le> c \<and> c \<le> hi)"

definition token_char :: "char \<Rightarrow> bool" where
  "token_char c = (in_char_range CHR ''A'' CHR ''Z'' c \<or> in_char_range CHR ''a'' CHR ''z'' c \<or>
     in_char_range CHR ''0'' CHR ''9'' c \<or> c \<in> set ''_.:-'')"

definition bounded_token :: "nat \<Rightarrow> string \<Rightarrow> bool" where
  "bounded_token maximum s = (1 \<le> length s \<and> length s \<le> maximum \<and> list_all token_char s)"

text \<open>The regular expression \<open>[a-z][a-z0-9_]*\<close>.\<close>

definition lower_identifier :: "nat \<Rightarrow> string \<Rightarrow> bool" where
  "lower_identifier maximum s = (case s of [] \<Rightarrow> False
     | c # cs \<Rightarrow> length s \<le> maximum \<and> in_char_range CHR ''a'' CHR ''z'' c \<and>
         list_all (\<lambda>d. in_char_range CHR ''a'' CHR ''z'' d \<or> in_char_range CHR ''0'' CHR ''9'' d \<or>
           d = CHR ''_'') cs)"

definition lower_hex_char :: "char \<Rightarrow> bool" where
  "lower_hex_char c = (in_char_range CHR ''0'' CHR ''9'' c \<or> in_char_range CHR ''a'' CHR ''f'' c)"

definition SIGNED_INT64_MIN :: int where "SIGNED_INT64_MIN = - (2 ^ 63)"

definition SIGNED_INT64_MAX :: int where "SIGNED_INT64_MAX = 2 ^ 63 - 1"

definition MAX_SAFE_INTEGER :: int where "MAX_SAFE_INTEGER = 9007199254740991"

section \<open>Python's \<open>str(int)\<close>\<close>

definition digit_char :: "nat \<Rightarrow> char" where
  "digit_char d = ''0123456789'' ! d"

fun nat_str :: "nat \<Rightarrow> string" where
  "nat_str n = (if n < 10 then [digit_char n] else nat_str (n div 10) @ [digit_char (n mod 10)])"

declare nat_str.simps [simp del]

definition int_str :: "int \<Rightarrow> string" where
  "int_str i = (if i < 0 then CHR ''-'' # nat_str (nat (- i)) else nat_str (nat i))"

section \<open>Lemmas on results\<close>

lemma and_then_Inl [simp]: "and_then (Inl e) f = Inl e"
  by (simp add: and_then_def)

lemma and_then_Inr [simp]: "and_then (Inr x) f = f x"
  by (simp add: and_then_def)

lemma and_then_eq_Inr [result_simps]:
  "and_then m f = Inr y \<longleftrightarrow> (\<exists>x. m = Inr x \<and> f x = Inr y)"
  by (cases m) auto

lemma and_then_eq_Inl [result_simps]:
  "and_then m f = Inl e \<longleftrightarrow> m = Inl e \<or> (\<exists>x. m = Inr x \<and> f x = Inl e)"
  by (cases m) auto

lemma raise_unless_eq_Inr [simp]: "raise_unless b e = Inr u \<longleftrightarrow> b"
  by (simp add: raise_unless_def)

lemma raise_unless_eq_Inl [simp]: "raise_unless b e = Inl e' \<longleftrightarrow> \<not> b \<and> e' = e"
  by (auto simp: raise_unless_def)

lemma raise_unless_True [simp]: "raise_unless True e = Inr ()"
  by (simp add: raise_unless_def)

lemma raise_unless_False [simp]: "raise_unless False e = Inl e"
  by (simp add: raise_unless_def)

lemma and_then_assoc: "and_then (and_then m f) g = and_then m (\<lambda>x. and_then (f x) g)"
  by (cases m) auto

lemma returns_simps [simp]: "returns (Inr x)" "\<not> returns (Inl e)"
  by (simp_all add: returns_def)

lemma returns_iff: "returns m \<longleftrightarrow> (\<exists>x. m = Inr x)"
  by (cases m) auto

lemma for_each_eq_Inr:
  "for_each f xs = Inr ys \<longleftrightarrow> list_all2 (\<lambda>x y. f x = Inr y) xs ys"
  by (induction xs arbitrary: ys) (auto simp: result_simps list_all2_Cons1)

lemma for_each_length: "for_each f xs = Inr ys \<Longrightarrow> length ys = length xs"
  by (auto simp: for_each_eq_Inr dest: list_all2_lengthD)

lemma for_each_id:
  assumes "\<And>x y. f x = Inr y \<Longrightarrow> y = x" and "for_each f xs = Inr ys"
  shows "ys = xs"
  using assms(2) by (induction xs arbitrary: ys) (auto simp: result_simps dest: assms(1))

lemma for_each_unit_ok:
  "returns (for_each f xs) \<longleftrightarrow> (\<forall>x \<in> set xs. returns (f x))"
  by (induction xs) (auto simp: returns_iff result_simps)

section \<open>Lemmas on lists\<close>

lemma sorted_key_unique:
  assumes "map f xs = map f ys" "inj_on f (set xs \<union> set ys)"
  shows "xs = ys"
  using assms by (metis map_inj_on)

lemma sort_key_perm_eq:
  assumes "distinct xs" "distinct ys" "set xs = set ys" "inj_on f (set xs)"
  shows "sort_key f xs = sort_key f ys"
proof (rule sorted_key_unique)
  have "map f (sort_key f xs) = sorted_list_of_set (f ` set xs)"
    using assms by (intro sorted_distinct_set_unique) (auto simp: distinct_map)
  moreover have "map f (sort_key f ys) = sorted_list_of_set (f ` set ys)"
    using assms by (intro sorted_distinct_set_unique) (auto simp: distinct_map)
  ultimately show "map f (sort_key f xs) = map f (sort_key f ys)"
    using assms(3) by simp
  show "inj_on f (set (sort_key f xs) \<union> set (sort_key f ys))"
    using assms(3,4) by simp
qed

lemma lex_fst_le: "p \<le> q \<Longrightarrow> fst p \<le> fst q"
  for p q :: "'a::linorder \<times> 'b::linorder"
  by (auto simp: less_eq_prod_def)

lemma image_Collect_cong:
  "(\<And>p. p \<in> A \<Longrightarrow> P p \<longleftrightarrow> Q (f p)) \<Longrightarrow> f ` {p \<in> A. P p} = {x \<in> f ` A. Q x}"
  by auto

lemma distinct_length_set: "length (remdups xs) = length xs \<longleftrightarrow> distinct xs"
  by (metis distinct_remdups distinct_remdups_id length_remdups_eq remdups_id_iff_distinct)

end
