(* ===== verification/Clocks.thy ===== *)
theory Clocks
  imports Conformance_Prelude Complex_Main
begin

text \<open>
  The clock domains of \<open>scheduler/clocks.py\<close>: signed 64-bit logical nanoseconds, the exact
  rational conversion from logical to physical waits (\<open>ClockPolicy\<close>), and the runtime clock,
  whose state is its origin and the last monotonic reading. The injected clock functions are
  inputs: each operation that reads a clock takes the value read. Python's \<open>Fraction\<close> is
  \<open>rat\<close>. The float conversion and the sleeping itself (\<open>_seconds\<close>, \<open>anyio.sleep\<close>) are
  outside the model.
\<close>

section \<open>Integer domains\<close>

definition signed_int64 :: "int \<Rightarrow> string \<Rightarrow> int result" where
  "signed_int64 v field_name =
     and_then (raise_unless (SIGNED_INT64_MIN \<le> v \<and> v \<le> SIGNED_INT64_MAX)
         (ValueError (field_name @ '' must fit signed 64-bit nanoseconds'')))
       (\<lambda>_. Inr v)"

definition nonnegative_int64 :: "int \<Rightarrow> string \<Rightarrow> int result" where
  "nonnegative_int64 v field_name =
     and_then (signed_int64 v field_name) (\<lambda>i.
       and_then (raise_unless (0 \<le> i) (ValueError (field_name @ '' cannot be negative'')))
         (\<lambda>_. Inr i))"

definition positive_integer :: "int \<Rightarrow> string \<Rightarrow> int \<Rightarrow> int result" where
  "positive_integer v field_name maximum =
     and_then (raise_unless (1 \<le> v \<and> v \<le> maximum)
         (ValueError (field_name @ '' must be between 1 and '' @ int_str maximum)))
       (\<lambda>_. Inr v)"

definition validate_logical_nanoseconds :: "int \<Rightarrow> int result" where
  "validate_logical_nanoseconds v = signed_int64 v ''logical nanoseconds''"

definition add_logical_nanoseconds :: "int \<Rightarrow> int \<Rightarrow> int result" where
  "add_logical_nanoseconds left right =
     and_then (validate_logical_nanoseconds left) (\<lambda>first.
     and_then (validate_logical_nanoseconds right) (\<lambda>second.
       let total = first + second
       in if \<not> (SIGNED_INT64_MIN \<le> total \<and> total \<le> SIGNED_INT64_MAX)
          then Inl (OverflowError ''logical nanosecond addition exceeds signed 64-bit range'')
          else Inr total))"

section \<open>Clock policy\<close>

datatype ClockMode = REAL | SCALED

record ClockPolicy =
  policy_mode :: ClockMode
  scale_numerator :: int
  scale_denominator :: int
  minimum_physical_wait_ns :: int

definition MINIMUM_SCALE :: rat where "MINIMUM_SCALE = 1 / 1000"

definition MAXIMUM_SCALE :: rat where "MAXIMUM_SCALE = 100"

definition MAX_SCALE_COMPONENT :: int where "MAX_SCALE_COMPONENT = 10 ^ 32"

text \<open>Construction with its \<open>__post_init__\<close>: the scale is reduced to lowest terms, and real mode
  forgets a configured minimum wait.\<close>

definition ClockPolicy_init :: "ClockMode \<Rightarrow> int \<Rightarrow> int \<Rightarrow> int \<Rightarrow> ClockPolicy result" where
  "ClockPolicy_init md num den min_wait =
     and_then (positive_integer num ''scale_numerator'' MAX_SCALE_COMPONENT) (\<lambda>numerator.
     and_then (positive_integer den ''scale_denominator'' MAX_SCALE_COMPONENT) (\<lambda>denominator.
     and_then (nonnegative_int64 min_wait ''minimum_physical_wait_ns'') (\<lambda>minimum_wait.
       let scale = Fract numerator denominator in
       and_then (raise_unless (\<not> (md = REAL \<and> scale \<noteq> 1))
         (ValueError ''real clock mode requires an exact scale of one'')) (\<lambda>_.
       and_then (raise_unless (\<not> (md = SCALED \<and> \<not> (MINIMUM_SCALE \<le> scale \<and> scale \<le> MAXIMUM_SCALE)))
         (ValueError ''scaled clock mode requires a scale between 0.001 and 100'')) (\<lambda>_.
       Inr \<lparr>policy_mode = md,
            scale_numerator = fst (quotient_of scale),
            scale_denominator = snd (quotient_of scale),
            minimum_physical_wait_ns = (if md = REAL then 0 else minimum_wait)\<rparr>)))))"

datatype ClockConfig =
    RealClockConfig (config_minimum: "int option")
  | ScaledClockConfig (config_scale: rat) (config_minimum: "int option")

definition configured_minimum_wait :: "ClockConfig \<Rightarrow> int" where
  "configured_minimum_wait config =
     (case config_minimum config of None \<Rightarrow> 0 | Some ns \<Rightarrow> ns)"

definition ClockPolicy_from_config :: "ClockConfig \<Rightarrow> ClockPolicy result" where
  "ClockPolicy_from_config config = (case config of
       RealClockConfig _ \<Rightarrow> ClockPolicy_init REAL 1 1 (configured_minimum_wait config)
     | ScaledClockConfig scale _ \<Rightarrow>
         ClockPolicy_init SCALED (fst (quotient_of scale)) (snd (quotient_of scale))
           (configured_minimum_wait config))"

definition policy_scale :: "ClockPolicy \<Rightarrow> rat" where
  "policy_scale p = Fract (scale_numerator p) (scale_denominator p)"

definition ceil_fraction :: "int \<Rightarrow> int \<Rightarrow> int \<Rightarrow> int" where
  "ceil_fraction v numerator denominator = (v * numerator + denominator - 1) div denominator"

definition physical_wait_ns :: "ClockPolicy \<Rightarrow> int \<Rightarrow> int result" where
  "physical_wait_ns p logical_wait_ns =
     and_then (validate_logical_nanoseconds logical_wait_ns) (\<lambda>logical.
     and_then (raise_unless (0 \<le> logical) (ValueError ''logical wait cannot be negative'')) (\<lambda>_.
       if logical = 0 then Inr 0
       else let scaled = ceil_fraction logical (scale_numerator p) (scale_denominator p);
                physical = (if policy_mode p = SCALED
                            then max scaled (minimum_physical_wait_ns p) else scaled)
            in nonnegative_int64 physical ''physical wait''))"

definition physical_timeout_ns :: "ClockPolicy \<Rightarrow> int \<Rightarrow> int result" where
  "physical_timeout_ns p timeout_ns = nonnegative_int64 timeout_ns ''physical timeout''"

section \<open>Wall time and transition timestamps\<close>

text \<open>A \<open>datetime\<close>: the instant it denotes and its \<open>utcoffset()\<close> in seconds, \<open>None\<close> for a naive
  value. Converting a zero-offset value to UTC keeps it.\<close>

record datetime =
  instant :: int
  utcoffset :: "int option"

definition validate_utc_wall_time :: "datetime \<Rightarrow> datetime result" where
  "validate_utc_wall_time v = (case utcoffset v of
       None \<Rightarrow> Inl (ValueError ''wall time must be timezone-aware UTC'')
     | Some offset \<Rightarrow> if offset \<noteq> 0 then Inl (ValueError ''wall time must use UTC'')
         else Inr (v\<lparr>utcoffset := Some 0\<rparr>))"

record TransitionTimestamp =
  wall_time :: datetime
  monotonic_elapsed :: "int option"

definition TransitionTimestamp_init :: "datetime \<Rightarrow> int option \<Rightarrow> TransitionTimestamp result" where
  "TransitionTimestamp_init wall elapsed =
     and_then (validate_utc_wall_time wall) (\<lambda>w.
     and_then (case elapsed of None \<Rightarrow> Inr 0
                 | Some e \<Rightarrow> nonnegative_int64 e ''monotonic_elapsed_ns'') (\<lambda>_.
       Inr \<lparr>wall_time = w, monotonic_elapsed = elapsed\<rparr>))"

definition historical :: "datetime \<Rightarrow> TransitionTimestamp result" where
  "historical wall = TransitionTimestamp_init wall None"

definition is_live :: "TransitionTimestamp \<Rightarrow> bool" where
  "is_live t = (monotonic_elapsed t \<noteq> None)"

section \<open>The runtime clock\<close>

record RuntimeClock =
  clock_policy :: ClockPolicy
  origin_monotonic_ns :: int
  last_monotonic_ns :: int

definition RuntimeClock_init :: "ClockPolicy \<Rightarrow> int \<Rightarrow> RuntimeClock result" where
  "RuntimeClock_init p reading =
     and_then (nonnegative_int64 reading ''monotonic clock value'') (\<lambda>origin.
       Inr \<lparr>clock_policy = p, origin_monotonic_ns = origin, last_monotonic_ns = origin\<rparr>)"

definition monotonic_now_ns :: "RuntimeClock \<Rightarrow> int \<Rightarrow> (int \<times> RuntimeClock) result" where
  "monotonic_now_ns c reading =
     and_then (nonnegative_int64 reading ''monotonic clock value'') (\<lambda>current.
     and_then (raise_unless (last_monotonic_ns c \<le> current)
         (ValueError ''monotonic clock moved backwards'')) (\<lambda>_.
       Inr (current, c\<lparr>last_monotonic_ns := current\<rparr>)))"

definition monotonic_elapsed_ns :: "RuntimeClock \<Rightarrow> int \<Rightarrow> (int \<times> RuntimeClock) result" where
  "monotonic_elapsed_ns c reading =
     and_then (monotonic_now_ns c reading) (\<lambda>(now, c').
     and_then (nonnegative_int64 (now - origin_monotonic_ns c') ''monotonic elapsed time'')
       (\<lambda>elapsed. Inr (elapsed, c')))"

definition transition_timestamp ::
    "RuntimeClock \<Rightarrow> datetime \<Rightarrow> int \<Rightarrow> (TransitionTimestamp \<times> RuntimeClock) result" where
  "transition_timestamp c wall reading =
     and_then (validate_utc_wall_time wall) (\<lambda>w.
     and_then (monotonic_elapsed_ns c reading) (\<lambda>(elapsed, c').
     and_then (TransitionTimestamp_init w (Some elapsed)) (\<lambda>ts. Inr (ts, c'))))"

record MonotonicDeadline =
  deadline_ns :: int

definition MonotonicDeadline_init :: "int \<Rightarrow> MonotonicDeadline result" where
  "MonotonicDeadline_init ns =
     and_then (nonnegative_int64 ns ''monotonic deadline'') (\<lambda>_. Inr \<lparr>deadline_ns = ns\<rparr>)"

definition remaining_ns ::
    "MonotonicDeadline \<Rightarrow> RuntimeClock \<Rightarrow> int \<Rightarrow> (int \<times> RuntimeClock) result" where
  "remaining_ns d c reading =
     and_then (monotonic_now_ns c reading) (\<lambda>(now, c'). Inr (max 0 (deadline_ns d - now), c'))"

definition expired ::
    "MonotonicDeadline \<Rightarrow> RuntimeClock \<Rightarrow> int \<Rightarrow> (bool \<times> RuntimeClock) result" where
  "expired d c reading =
     and_then (monotonic_now_ns c reading) (\<lambda>(now, c'). Inr (deadline_ns d \<le> now, c'))"

definition deadline_after ::
    "RuntimeClock \<Rightarrow> int \<Rightarrow> int \<Rightarrow> (MonotonicDeadline \<times> RuntimeClock) result" where
  "deadline_after c timeout_ns reading =
     and_then (physical_timeout_ns (clock_policy c) timeout_ns) (\<lambda>timeout.
     and_then (monotonic_now_ns c reading) (\<lambda>(now, c').
       if timeout > SIGNED_INT64_MAX - now
       then Inl (OverflowError ''monotonic deadline exceeds signed 64-bit nanoseconds'')
       else and_then (MonotonicDeadline_init (now + timeout)) (\<lambda>d. Inr (d, c'))))"

definition elapsed_since :: "RuntimeClock \<Rightarrow> int \<Rightarrow> int \<Rightarrow> (int \<times> RuntimeClock) result" where
  "elapsed_since c started_ns reading =
     and_then (nonnegative_int64 started_ns ''monotonic start'') (\<lambda>started.
     and_then (monotonic_now_ns c reading) (\<lambda>(current, c').
     and_then (raise_unless (started \<le> current)
         (ValueError ''monotonic start is later than the current clock value'')) (\<lambda>_.
       Inr (current - started, c'))))"

text \<open>Successive readings of one clock, as a run of the process makes them.\<close>

fun read_clock :: "RuntimeClock \<Rightarrow> int list \<Rightarrow> (int list \<times> RuntimeClock) result" where
  "read_clock c [] = Inr ([], c)"
| "read_clock c (r # rs) =
     and_then (monotonic_now_ns c r) (\<lambda>(now, c').
     and_then (read_clock c' rs) (\<lambda>(nows, c''). Inr (now # nows, c'')))"

section \<open>Lemmas\<close>

lemma signed_int64_eq_Inr [simp]:
  "signed_int64 v n = Inr x \<longleftrightarrow> x = v \<and> SIGNED_INT64_MIN \<le> v \<and> v \<le> SIGNED_INT64_MAX"
  by (auto simp: signed_int64_def result_simps)

lemma nonnegative_int64_eq_Inr [simp]:
  "nonnegative_int64 v n = Inr x \<longleftrightarrow> x = v \<and> 0 \<le> v \<and> v \<le> SIGNED_INT64_MAX"
  by (auto simp: nonnegative_int64_def result_simps SIGNED_INT64_MIN_def)

lemma positive_integer_eq_Inr [simp]:
  "positive_integer v n m = Inr x \<longleftrightarrow> x = v \<and> 1 \<le> v \<and> v \<le> m"
  by (auto simp: positive_integer_def result_simps)

lemma validate_logical_eq_Inr [simp]:
  "validate_logical_nanoseconds v = Inr x \<longleftrightarrow>
     x = v \<and> SIGNED_INT64_MIN \<le> v \<and> v \<le> SIGNED_INT64_MAX"
  by (simp add: validate_logical_nanoseconds_def)

lemma monotonic_now_eq_Inr:
  "monotonic_now_ns c r = Inr (now, c') \<longleftrightarrow>
     now = r \<and> c' = c\<lparr>last_monotonic_ns := r\<rparr> \<and> 0 \<le> r \<and> r \<le> SIGNED_INT64_MAX \<and>
     last_monotonic_ns c \<le> r"
  by (auto simp: monotonic_now_ns_def result_simps)

text \<open>The invariant construction establishes: a positive scale in lowest terms, within the mode's
  range, and a minimum wait that is 64-bit and absent in real mode.\<close>

definition valid_policy :: "ClockPolicy \<Rightarrow> bool" where
  "valid_policy p \<longleftrightarrow>
     0 < scale_numerator p \<and> 0 < scale_denominator p \<and>
     coprime (scale_numerator p) (scale_denominator p) \<and>
     0 \<le> minimum_physical_wait_ns p \<and> minimum_physical_wait_ns p \<le> SIGNED_INT64_MAX \<and>
     (case policy_mode p of REAL \<Rightarrow> policy_scale p = 1 \<and> minimum_physical_wait_ns p = 0
      | SCALED \<Rightarrow> MINIMUM_SCALE \<le> policy_scale p \<and> policy_scale p \<le> MAXIMUM_SCALE)"

lemma quotient_of_positive:
  assumes "0 < r" "quotient_of r = (a, b)"
  shows "0 < a" "0 < b" "coprime a b" "r = Fract a b"
proof -
  show b: "0 < b" using assms(2) by (rule quotient_of_denom_pos)
  show "coprime a b" using assms(2) by (rule quotient_of_coprime)
  have r: "r = of_int a / of_int b" using assms(2) by (rule quotient_of_div)
  then show "r = Fract a b" by (simp add: Fract_of_int_quotient)
  from r assms(1) b show "0 < a" by (simp add: zero_less_divide_iff)
qed

lemma ClockPolicy_init_valid:
  assumes "ClockPolicy_init md num den mw = Inr p"
  shows "valid_policy p" "policy_scale p = Fract num den" "policy_mode p = md"
proof -
  obtain a b where q: "quotient_of (Fract num den) = (a, b)" by fastforce
  have "0 < Fract num den"
    using assms by (auto simp: ClockPolicy_init_def result_simps zero_less_Fract_iff)
  note ab = quotient_of_positive[OF this q]
  show "policy_scale p = Fract num den" "policy_mode p = md"
    using assms ab(4) q by (auto simp: ClockPolicy_init_def result_simps policy_scale_def Let_def)
  then show "valid_policy p"
    using assms ab q
    by (auto simp: ClockPolicy_init_def result_simps valid_policy_def Let_def
        split: ClockMode.splits)
qed

lemma policy_from_config_valid:
  assumes "ClockPolicy_from_config cfg = Inr p"
  shows "valid_policy p"
  using assms
  by (auto simp: ClockPolicy_from_config_def dest: ClockPolicy_init_valid(1) split: ClockConfig.splits)

text \<open>The integer division of the code is the exact rational ceiling.\<close>

lemma ceil_div_int:
  fixes x d :: int
  assumes "0 < d"
  shows "(x + d - 1) div d = - (- x div d)"
proof -
  define m where "m = x mod d"
  have m: "0 \<le> m" "m < d" using assms by (simp_all add: m_def)
  have "x + d - 1 = (m + d - 1) + d * (x div d)"
    by (simp add: m_def minus_mod_eq_mult_div [symmetric])
  then have "(x + d - 1) div d = ((m + d - 1) + d * (x div d)) div d" by (rule arg_cong)
  also have "\<dots> = (m + d - 1) div d + x div d"
    using assms by (simp only: div_mult_self2)
  also have "(m + d - 1) div d = (if m = 0 then 0 else 1)"
  proof (cases "m = 0")
    case False
    then have "(m + d - 1) div d = ((m - 1) + d) div d" by (simp add: algebra_simps)
    also have "\<dots> = 1" using m False by simp
    finally show ?thesis using False by simp
  qed (use assms in simp)
  finally show ?thesis using assms by (simp add: zdiv_zminus1_eq_if m_def)
qed

lemma ceil_fraction_ceiling:
  assumes "0 < d"
  shows "ceil_fraction v n d = \<lceil>of_int v * Fract n d\<rceil>"
proof -
  have "of_int v * Fract n d = (of_int (v * n) / of_int d :: rat)"
    using assms by (simp add: Fract_of_int_quotient)
  moreover have "\<lceil>of_int (v * n) / of_int d :: rat\<rceil> = - (- (v * n) div d)"
    by (metis ceiling_divide_eq_div)
  ultimately show ?thesis using ceil_div_int[OF assms] by (simp add: ceil_fraction_def)
qed

lemma physical_wait_eq_Inr:
  "physical_wait_ns p w = Inr r \<longleftrightarrow>
     0 \<le> w \<and> w \<le> SIGNED_INT64_MAX \<and> 0 \<le> r \<and> r \<le> SIGNED_INT64_MAX \<and>
     r = (if w = 0 then 0
          else let scaled = ceil_fraction w (scale_numerator p) (scale_denominator p)
               in if policy_mode p = SCALED then max scaled (minimum_physical_wait_ns p) else scaled)"
  by (auto simp: physical_wait_ns_def result_simps Let_def SIGNED_INT64_MIN_def SIGNED_INT64_MAX_def)

lemma ceil_fraction_pos: "0 < v \<Longrightarrow> 0 < n \<Longrightarrow> 0 < d \<Longrightarrow> 0 < ceil_fraction v n d"
  by (simp add: ceil_fraction_ceiling zero_less_Fract_iff)

lemma deadline_after_eq_Inr:
  "deadline_after c t r = Inr (d, c') \<longleftrightarrow>
     0 \<le> t \<and> t \<le> SIGNED_INT64_MAX - r \<and> 0 \<le> r \<and> r \<le> SIGNED_INT64_MAX \<and>
     last_monotonic_ns c \<le> r \<and> d = \<lparr>deadline_ns = r + t\<rparr> \<and> c' = c\<lparr>last_monotonic_ns := r\<rparr>"
  by (auto simp: deadline_after_def physical_timeout_ns_def MonotonicDeadline_init_def
      result_simps monotonic_now_eq_Inr split: if_splits)

lemma read_clock_eq_Inr:
  "read_clock c rs = Inr (nows, c') \<longleftrightarrow>
     nows = rs \<and> c' = c\<lparr>last_monotonic_ns := last (last_monotonic_ns c # rs)\<rparr> \<and>
     sorted (last_monotonic_ns c # rs) \<and> (\<forall>r \<in> set rs. 0 \<le> r \<and> r \<le> SIGNED_INT64_MAX)"
proof (induction rs arbitrary: c nows)
  case (Cons r rs)
  show ?case
    by (auto simp: result_simps monotonic_now_eq_Inr Cons.IH split: prod.splits)
qed auto

section \<open>Properties\<close>

text \<open>Logical waits map to physical waits by the exact rational scale: under any policy the
  configuration can build, a wait of zero stays zero, and a positive logical wait becomes the least
  integer that is at least \<open>w * scale\<close>, raised to the configured minimum in scaled mode and exactly
  \<open>w\<close> in real mode; it is positive and fits signed 64 bits, so no wait vanishes or wraps.\<close>

lemma physical_wait_exact:
  assumes "ClockPolicy_from_config cfg = Inr p" and "physical_wait_ns p w = Inr r"
  shows "0 \<le> r \<and> r \<le> SIGNED_INT64_MAX \<and>
    (w = 0 \<longrightarrow> r = 0) \<and>
    (w \<noteq> 0 \<longrightarrow> 0 < r \<and>
       r = (case policy_mode p of REAL \<Rightarrow> w
            | SCALED \<Rightarrow> max \<lceil>of_int w * policy_scale p\<rceil> (minimum_physical_wait_ns p)))"
proof -
  have v: "valid_policy p" using assms(1) by (rule policy_from_config_valid)
  then have ceil: "ceil_fraction w (scale_numerator p) (scale_denominator p)
      = \<lceil>of_int w * policy_scale p\<rceil>"
    by (simp add: ceil_fraction_ceiling policy_scale_def valid_policy_def)
  have pos: "0 < ceil_fraction w (scale_numerator p) (scale_denominator p)" if "0 < w"
    using v that by (simp add: ceil_fraction_pos valid_policy_def)
  show ?thesis
  proof (cases "w = 0")
    case True
    with assms(2) show ?thesis by (simp add: physical_wait_eq_Inr)
  next
    case False
    with v assms(2) ceil pos show ?thesis
      by (auto simp: physical_wait_eq_Inr valid_policy_def Let_def simp del: zero_less_ceiling
          split: ClockMode.splits)
  qed
qed

lemma physical_wait_exact_witness:
  "\<exists>p. ClockPolicy_from_config (ScaledClockConfig (1 / 3) (Some 2)) = Inr p \<and>
     physical_wait_ns p 10 = Inr 4 \<and> (4::int) = max \<lceil>10 * policy_scale p\<rceil> 2"
proof -
  let ?p = "\<lparr>policy_mode = SCALED, scale_numerator = 1, scale_denominator = 3,
    minimum_physical_wait_ns = 2\<rparr>"
  have third: "(1 / 3 :: rat) = Fract 1 3" by (simp add: Fract_of_int_quotient)
  have "quotient_of (Fract 1 3) = (1, 3)" by (simp add: quotient_of_Fract normalize_def)
  moreover have "MINIMUM_SCALE \<le> Fract 1 3" "Fract 1 3 \<le> MAXIMUM_SCALE"
    by (simp_all add: MINIMUM_SCALE_def MAXIMUM_SCALE_def flip: third)
  ultimately have p: "ClockPolicy_from_config (ScaledClockConfig (1 / 3) (Some 2)) = Inr ?p"
    by (simp add: third ClockPolicy_from_config_def ClockPolicy_init_def configured_minimum_wait_def
        result_simps Let_def MAX_SCALE_COMPONENT_def SIGNED_INT64_MAX_def)
  have w: "physical_wait_ns ?p 10 = Inr 4"
    by (simp add: physical_wait_eq_Inr ceil_fraction_def SIGNED_INT64_MAX_def)
  from physical_wait_exact[OF p w] have "(4::int) = max \<lceil>10 * policy_scale ?p\<rceil> 2" by simp
  with p w show ?thesis by blast
qed

text \<open>The runtime clock only ever reports a nondecreasing sequence: reading it repeatedly
  succeeds exactly when every raw reading is a nonnegative signed 64-bit value and no reading is
  below the ones before it; then it returns the readings unchanged and remembers the last.\<close>

lemma clock_readings_monotonic:
  "read_clock c rs = Inr (nows, c') \<longleftrightarrow>
     nows = rs \<and> sorted (last_monotonic_ns c # rs) \<and>
     list_all (\<lambda>r. 0 \<le> r \<and> r \<le> SIGNED_INT64_MAX) rs \<and>
     c' = c\<lparr>last_monotonic_ns := last (last_monotonic_ns c # rs)\<rparr>"
  by (auto simp: read_clock_eq_Inr list_all_iff)

text \<open>A deadline is exact: one created by \<open>deadline_after\<close> at reading \<open>t0\<close> with a timeout of
  \<open>t\<close> nanoseconds fits 64 bits, and at any later reading it is reported expired exactly when
  \<open>t\<close> nanoseconds have passed, which is exactly when nothing remains.\<close>

lemma deadline_exact:
  assumes "deadline_after c t t0 = Inr (d, c')" and "t0 \<le> now" and "now \<le> SIGNED_INT64_MAX"
  shows "deadline_ns d = t0 + t \<and> deadline_ns d \<le> SIGNED_INT64_MAX \<and>
    (\<exists>c''. expired d c' now = Inr (now - t0 \<ge> t, c'') \<and>
           remaining_ns d c' now = Inr (max 0 (t - (now - t0)), c'') \<and>
           last_monotonic_ns c'' = now)"
  using assms
  by (auto simp: deadline_after_eq_Inr expired_def remaining_ns_def monotonic_now_eq_Inr
      result_simps algebra_simps)

lemma deadline_exact_witness:
  "\<exists>c d c'. RuntimeClock_init \<lparr>policy_mode = REAL, scale_numerator = 1, scale_denominator = 1,
       minimum_physical_wait_ns = 0\<rparr> 5 = Inr c \<and>
     deadline_after c 10 7 = Inr (d, c') \<and> (\<exists>c''. expired d c' 17 = Inr (True, c''))"
proof -
  let ?p = "\<lparr>policy_mode = REAL, scale_numerator = 1, scale_denominator = 1,
    minimum_physical_wait_ns = 0\<rparr>"
  let ?c = "\<lparr>clock_policy = ?p, origin_monotonic_ns = 5, last_monotonic_ns = 5\<rparr>"
  have c: "RuntimeClock_init ?p 5 = Inr ?c"
    by (simp add: RuntimeClock_init_def result_simps SIGNED_INT64_MAX_def)
  have d: "deadline_after ?c 10 7 = Inr (\<lparr>deadline_ns = 17\<rparr>, ?c\<lparr>last_monotonic_ns := 7\<rparr>)"
    by (simp add: deadline_after_eq_Inr SIGNED_INT64_MAX_def)
  from deadline_exact[OF d, of 17]
  have "\<exists>c''. expired \<lparr>deadline_ns = 17\<rparr> (?c\<lparr>last_monotonic_ns := 7\<rparr>) 17 = Inr (True, c'')"
    by (auto simp: SIGNED_INT64_MAX_def)
  with c d show ?thesis by blast
qed

end
