(* ===== verification/Heapq.thy ===== *)
theory Heapq
  imports Conformance_Prelude "HOL-Library.Multiset"
begin

text \<open>
  The interface a client of a minimum priority queue relies on, as the locale \<open>min_queue\<close>, and
  the binary heap of Python's standard module \<open>heapq\<close>, which the schedule queue keeps its
  order keys in: \<open>heappush\<close> and \<open>heappop\<close> on a list, with their sift loops written as the
  module writes them (\<open>startpos\<close> is 0 in both). The heap is an interpretation of the interface.
\<close>

section \<open>The interface\<close>

locale min_queue =
  fixes push :: "'a::linorder \<Rightarrow> 'q \<Rightarrow> 'q"
    and pop :: "'q \<Rightarrow> 'q"
    and top :: "'q \<Rightarrow> 'a option"
    and items :: "'q \<Rightarrow> 'a multiset"
    and invar :: "'q \<Rightarrow> bool"
  assumes items_push: "invar q \<Longrightarrow> items (push x q) = add_mset x (items q)"
    and top_None: "invar q \<Longrightarrow> top q = None \<longleftrightarrow> items q = {#}"
    and top_in: "invar q \<Longrightarrow> top q = Some x \<Longrightarrow> x \<in># items q"
    and top_le: "invar q \<Longrightarrow> top q = Some x \<Longrightarrow> y \<in># items q \<Longrightarrow> x \<le> y"
    and items_pop: "invar q \<Longrightarrow> top q = Some x \<Longrightarrow> items (pop q) = items q - {#x#}"
    and invar_push: "invar q \<Longrightarrow> invar (push x q)"
    and invar_pop: "invar q \<Longrightarrow> top q = Some x \<Longrightarrow> invar (pop q)"
begin

lemma top_is_Min:
  assumes "invar q" "top q = Some x"
  shows "x = Min_mset (items q)"
  using assms top_in top_le by (metis Min_eqI finite_set_mset)

lemma top_of_min:
  assumes "invar q" "m \<in># items q" "\<And>y. y \<in># items q \<Longrightarrow> m \<le> y"
  shows "top q = Some m"
proof -
  from assms(1,2) have "top q \<noteq> None"
    using top_None by auto
  then obtain x where x: "top q = Some x" by auto
  with assms have "x \<le> m" "m \<le> x"
    using top_le top_in by auto
  with x show ?thesis by simp
qed

lemma pop_keeps_larger:
  assumes "invar q" "top q = Some x" "y \<noteq> x"
  shows "y \<in># items (pop q) \<longleftrightarrow> y \<in># items q"
  using assms items_pop by (simp add: in_diff_count not_in_iff)

lemma size_pop:
  assumes "invar q" "top q = Some x"
  shows "size (items (pop q)) < size (items q)"
proof -
  have "items (pop q) = items q - {#x#}" "x \<in># items q"
    using assms items_pop top_in by auto
  then show ?thesis
    by (metis insert_DiffM lessI size_add_mset)
qed

end

section \<open>The binary heap of the standard library\<close>

definition parent :: "nat \<Rightarrow> nat" where
  "parent i = (i - 1) div 2"

function siftdown :: "'a::linorder list \<Rightarrow> nat \<Rightarrow> 'a \<Rightarrow> 'a list" where
  "siftdown heap pos newitem =
     (if pos > 0 \<and> newitem < heap ! parent pos
      then siftdown (heap[pos := heap ! parent pos]) (parent pos) newitem
      else heap[pos := newitem])"
  by pat_completeness auto
termination
  by (relation "measure (\<lambda>(heap, pos, newitem). pos)") (auto simp: parent_def)

definition smaller_child :: "'a::linorder list \<Rightarrow> nat \<Rightarrow> nat" where
  "smaller_child heap pos =
     (let childpos = 2 * pos + 1; rightpos = childpos + 1
      in if rightpos < length heap \<and> \<not> heap ! childpos < heap ! rightpos
         then rightpos else childpos)"

function siftup_hole :: "'a::linorder list \<Rightarrow> nat \<Rightarrow> 'a list \<times> nat" where
  "siftup_hole heap pos =
     (if 2 * pos + 1 < length heap
      then siftup_hole (heap[pos := heap ! smaller_child heap pos]) (smaller_child heap pos)
      else (heap, pos))"
  by pat_completeness auto
termination
  by (relation "measure (\<lambda>(heap, pos). length heap - pos)") (auto simp: smaller_child_def Let_def)

declare siftdown.simps [simp del] siftup_hole.simps [simp del]

definition siftup :: "'a::linorder list \<Rightarrow> 'a list" where
  "siftup heap = (case siftup_hole heap 0 of (h, pos) \<Rightarrow> siftdown h pos (heap ! 0))"

definition heappush :: "'a::linorder \<Rightarrow> 'a list \<Rightarrow> 'a list" where
  "heappush item heap = siftdown (heap @ [item]) (length heap) item"

text \<open>The list \<open>heappop\<close> leaves behind; the element it returns is the former \<open>heap[0]\<close>. The
  empty list is left alone here: the one caller tests for it before it pops.\<close>

definition heappop :: "'a::linorder list \<Rightarrow> 'a list" where
  "heappop heap = (if length heap \<le> 1 then [] else siftup ((butlast heap)[0 := last heap]))"

definition heap_top :: "'a list \<Rightarrow> 'a option" where
  "heap_top heap = (case heap of [] \<Rightarrow> None | x # _ \<Rightarrow> Some x)"

definition is_heap :: "'a::linorder list \<Rightarrow> bool" where
  "is_heap heap = (\<forall>i < length heap. 0 < i \<longrightarrow> heap ! parent i \<le> heap ! i)"

text \<open>The sift loops' invariant: every edge that does not touch the hole is in order, and the
  hole's children are at least its parent.\<close>

definition hole_heap :: "'a::linorder list \<Rightarrow> nat \<Rightarrow> bool" where
  "hole_heap h pos =
     ((\<forall>i < length h. 0 < i \<and> i \<noteq> pos \<and> parent i \<noteq> pos \<longrightarrow> h ! parent i \<le> h ! i) \<and>
      (\<forall>i < length h. 0 < i \<and> parent i = pos \<and> 0 < pos \<longrightarrow> h ! parent pos \<le> h ! i))"

section \<open>Correctness of the sift loops\<close>

lemma is_heap_Nil [simp]: "is_heap []"
  by (simp add: is_heap_def)

lemma parent_less: "0 < i \<Longrightarrow> parent i < i"
  by (simp add: parent_def)

lemma parent_le: "parent i \<le> i"
  by (simp add: parent_def)

lemma parent_child: "0 < i \<Longrightarrow> parent i = p \<longleftrightarrow> i = 2 * p + 1 \<or> i = 2 * p + 2"
  by (auto simp: parent_def)

lemma smaller_child_cases:
  assumes "2 * pos + 1 < length h"
  shows "smaller_child h pos < length h" "0 < smaller_child h pos"
    "parent (smaller_child h pos) = pos" "pos < smaller_child h pos"
    "\<And>i. i < length h \<Longrightarrow> 0 < i \<Longrightarrow> parent i = pos \<Longrightarrow> h ! smaller_child h pos \<le> h ! i"
proof -
  show "smaller_child h pos < length h" "0 < smaller_child h pos"
    "parent (smaller_child h pos) = pos" "pos < smaller_child h pos"
    using assms by (auto simp: smaller_child_def Let_def parent_def)
  show "h ! smaller_child h pos \<le> h ! i" if "i < length h" "0 < i" "parent i = pos" for i
    using that parent_child[of i pos] by (auto simp: smaller_child_def Let_def)
qed

lemma hole_heap_up:
  assumes "hole_heap h pos" "0 < pos" "pos < length h"
  shows "hole_heap (h[pos := h ! parent pos]) (parent pos)"
proof -
  let ?h = "h[pos := h ! parent pos]"
  have edge: "h ! parent i \<le> h ! i" if "i < length h" "0 < i" "i \<noteq> pos" "parent i \<noteq> pos" for i
    using assms(1) that by (simp add: hole_heap_def)
  have child: "h ! parent pos \<le> h ! i" if "i < length h" "0 < i" "parent i = pos" for i
    using assms(1,2) that by (simp add: hole_heap_def)
  have lt: "parent pos < pos" "parent (parent pos) < pos"
    using assms(2) parent_less[of pos] parent_le[of "parent pos"] by linarith+
  then have pp: "parent (parent pos) \<noteq> pos" by simp
  have up: "h ! parent (parent pos) \<le> h ! parent pos" if "0 < parent pos"
    using that lt assms(3) by (intro edge) auto
  have "?h ! parent i \<le> ?h ! i"
    if "i < length h" "0 < i" "i \<noteq> parent pos" "parent i \<noteq> parent pos" for i
  proof -
    have "i \<noteq> pos" using that by auto
    with that edge[of i] child[of i] assms(3) show ?thesis by (cases "parent i = pos") auto
  qed
  moreover have "?h ! parent (parent pos) \<le> ?h ! i"
    if "i < length h" "0 < i" "parent i = parent pos" "0 < parent pos" for i
  proof (cases "i = pos")
    case True
    then show ?thesis using up that pp assms(3) by (simp add: nth_list_update)
  next
    case False
    moreover have "parent i \<noteq> pos" using that assms(2) parent_less[of pos] by simp
    ultimately have "h ! parent pos \<le> h ! i" using edge[of i] that by simp
    with up that False pp show ?thesis by (auto simp: nth_list_update intro: order_trans)
  qed
  ultimately show ?thesis by (simp add: hole_heap_def)
qed

lemma hole_heap_down:
  assumes "hole_heap h pos" "2 * pos + 1 < length h"
  shows "hole_heap (h[pos := h ! smaller_child h pos]) (smaller_child h pos)"
proof -
  let ?c = "smaller_child h pos"
  let ?h = "h[pos := h ! ?c]"
  note c = smaller_child_cases[OF assms(2)]
  have edge: "h ! parent i \<le> h ! i" if "i < length h" "0 < i" "i \<noteq> pos" "parent i \<noteq> pos" for i
    using assms(1) that by (simp add: hole_heap_def)
  have gp: "h ! parent pos \<le> h ! ?c" if "0 < pos"
    using assms(1) that c(1-3) by (simp add: hole_heap_def)
  have pos: "pos < length h" using assms(2) by simp
  have "?h ! parent i \<le> ?h ! i" if i: "i < length h" "0 < i" "i \<noteq> ?c" "parent i \<noteq> ?c" for i
  proof (cases "i = pos")
    case True
    then show ?thesis using gp i parent_less[of i] by (auto simp: nth_list_update)
  next
    case False
    then show ?thesis using edge[of i] c(5)[of i] i pos by (auto simp: nth_list_update)
  qed
  moreover have "?h ! parent ?c \<le> ?h ! i" if "i < length h" "0 < i" "parent i = ?c" for i
  proof -
    have "i \<noteq> pos" using that c(4) parent_le[of i] by auto
    then show ?thesis using edge[of i] that c pos by (simp add: nth_list_update)
  qed
  ultimately show ?thesis using c by (simp add: hole_heap_def)
qed

lemma siftdown_heap:
  assumes "hole_heap h pos" "pos < length h"
    "\<And>i. i < length h \<Longrightarrow> 0 < i \<Longrightarrow> parent i = pos \<Longrightarrow> x \<le> h ! i"
  shows "is_heap (siftdown h pos x)"
  using assms
proof (induction h pos x rule: siftdown.induct)
  case (1 h pos x)
  show ?case
  proof (cases "pos > 0 \<and> x < h ! parent pos")
    case True
    let ?h = "h[pos := h ! parent pos]"
    have "hole_heap ?h (parent pos)" using "1.prems" True by (intro hole_heap_up) auto
    moreover have "x \<le> ?h ! i" if i: "i < length ?h" "0 < i" "parent i = parent pos" for i
    proof (cases "i = pos")
      case False
      then have "h ! parent pos \<le> h ! i"
        using "1.prems"(1) i True parent_less[of pos] by (auto simp: hole_heap_def)
      with True have "x \<le> h ! i" by (meson less_imp_le order_trans)
      with False show ?thesis by simp
    qed (use True "1.prems" in \<open>simp add: nth_list_update less_imp_le\<close>)
    moreover have "parent pos < length ?h" using "1.prems"(2) parent_le[of pos] by simp
    ultimately have "is_heap (siftdown ?h (parent pos) x)" using "1.IH" True by blast
    with True show ?thesis by (simp add: siftdown.simps[of h pos x])
  next
    case False
    have "h[pos := x] ! parent i \<le> h[pos := x] ! i" if "i < length h" "0 < i" for i
      using "1.prems" False that parent_less[of i]
      by (auto simp: hole_heap_def nth_list_update not_less)
    with False show ?thesis by (auto simp: siftdown.simps[of h pos x] is_heap_def)
  qed
qed

lemma siftdown_mset: "pos < length h \<Longrightarrow> mset (siftdown h pos x) = mset (h[pos := x])"
proof (induction h pos x rule: siftdown.induct)
  case (1 h pos x)
  show ?case
  proof (cases "pos > 0 \<and> x < h ! parent pos")
    case True
    let ?p = "parent pos"
    let ?ys = "h[pos := x]"
    have lt: "?p < pos" using True by (simp add: parent_less)
    then have lt': "?p < length h" using "1.prems" by simp
    have "mset (siftdown (h[pos := h ! ?p]) ?p x) = mset (h[pos := h ! ?p, ?p := x])"
      using "1.IH" True lt' by simp
    also have "h[pos := h ! ?p, ?p := x] = ?ys[pos := ?ys ! ?p, ?p := ?ys ! pos]"
      using lt lt' "1.prems" by simp
    also have "mset (?ys[pos := ?ys ! ?p, ?p := ?ys ! pos]) = mset ?ys"
      using lt' "1.prems" by (intro mset_swap) auto
    finally show ?thesis using True by (simp add: siftdown.simps[of h pos x])
  next
    case False
    then have "siftdown h pos x = h[pos := x]" by (subst siftdown.simps) (simp only: if_False)
    then show ?thesis by simp
  qed
qed

lemma siftup_hole_correct:
  assumes "hole_heap h pos" "pos < length h" "siftup_hole h pos = (h', pos')"
  shows "hole_heap h' pos'" "pos' < length h'" "length h' = length h"
    "\<not> 2 * pos' + 1 < length h'" "mset (h'[pos' := x]) = mset (h[pos := x])"
proof -
  have "hole_heap h' pos' \<and> pos' < length h' \<and> length h' = length h \<and>
      \<not> 2 * pos' + 1 < length h' \<and> mset (h'[pos' := x]) = mset (h[pos := x])"
    using assms
  proof (induction h pos rule: siftup_hole.induct)
    case (1 h pos)
    show ?case
    proof (cases "2 * pos + 1 < length h")
      case True
      let ?c = "smaller_child h pos"
      let ?h = "h[pos := h ! ?c]"
      let ?ys = "h[pos := x]"
      note c = smaller_child_cases[OF True]
      have "siftup_hole ?h ?c = (h', pos')"
        using "1.prems"(3) True by (simp add: siftup_hole.simps[of h pos])
      with "1.IH"[OF True] hole_heap_down[OF "1.prems"(1) True] c(1)
      have IH: "hole_heap h' pos' \<and> pos' < length h' \<and> length h' = length ?h \<and>
          \<not> 2 * pos' + 1 < length h' \<and> mset (h'[pos' := x]) = mset (?h[?c := x])" by simp
      have "?h[?c := x] = ?ys[pos := ?ys ! ?c, ?c := ?ys ! pos]"
        using c(1,4) "1.prems"(2) by simp
      moreover have "mset (?ys[pos := ?ys ! ?c, ?c := ?ys ! pos]) = mset ?ys"
        using c(1) "1.prems"(2) by (intro mset_swap) auto
      ultimately show ?thesis using IH by simp
    next
      case False
      then have "h' = h" "pos' = pos"
        using "1.prems"(3) by (simp_all add: siftup_hole.simps[of h pos])
      with False "1.prems" show ?thesis by simp
    qed
  qed
  then show "hole_heap h' pos'" "pos' < length h'" "length h' = length h"
    "\<not> 2 * pos' + 1 < length h'" "mset (h'[pos' := x]) = mset (h[pos := x])" by auto
qed

lemma siftdown_length [simp]: "length (siftdown h pos x) = length h"
proof (induction h pos x rule: siftdown.induct)
  case (1 h pos x)
  then show ?case by (subst siftdown.simps) (simp del: siftdown.simps)
qed

lemma siftup_hole_length [simp]: "length (fst (siftup_hole h pos)) = length h"
proof (induction h pos rule: siftup_hole.induct)
  case (1 h pos)
  then show ?case by (subst siftup_hole.simps) simp
qed

lemma heappop_length [simp]: "length (heappop h) = length h - 1"
proof -
  have "length (siftup h) = length h" for h :: "'a list"
    using siftup_hole_length[of h 0] by (simp add: siftup_def case_prod_unfold)
  then show ?thesis by (simp add: heappop_def)
qed

section \<open>Correctness of push and pop\<close>

lemma is_heap_min:
  assumes "is_heap h" "i < length h"
  shows "h ! 0 \<le> h ! i"
  using assms(2)
proof (induction i rule: less_induct)
  case (less i)
  show ?case
  proof (cases "i = 0")
    case False
    then have "h ! 0 \<le> h ! parent i" using less parent_less[of i] by auto
    also have "h ! parent i \<le> h ! i" using assms(1) less.prems False by (simp add: is_heap_def)
    finally show ?thesis .
  qed simp
qed

lemma heappush_heap: "is_heap h \<Longrightarrow> is_heap (heappush x h)"
  unfolding heappush_def
proof (rule siftdown_heap)
  assume h: "is_heap h"
  have "(h @ [x]) ! parent i \<le> (h @ [x]) ! i" if "i < length h" "0 < i" for i
  proof -
    have "parent i < length h" using that parent_le[of i] by linarith
    with h that show ?thesis by (simp add: is_heap_def nth_append)
  qed
  moreover have "parent i \<noteq> length h" if "i < Suc (length h)" "0 < i" for i
    using that parent_less[of i] by simp
  ultimately show "hole_heap (h @ [x]) (length h)"
    by (auto simp: hole_heap_def less_Suc_eq)
  show "x \<le> (h @ [x]) ! i" if "i < length (h @ [x])" "0 < i" "parent i = length h" for i
    using that parent_less[of i] by simp
qed simp

lemma heappush_mset: "mset (heappush x h) = add_mset x (mset h)"
  by (simp add: heappush_def siftdown_mset)

lemma siftup_correct:
  assumes "hole_heap h 0" "h \<noteq> []"
  shows "is_heap (siftup h)" "mset (siftup h) = mset h"
proof -
  obtain h' pos' where eq: "siftup_hole h 0 = (h', pos')" by fastforce
  have len: "0 < length h" using assms(2) by simp
  note c = siftup_hole_correct[OF assms(1) len eq]
  show "is_heap (siftup h)"
    unfolding siftup_def eq prod.case
    using c(1,2,4) by (intro siftdown_heap) (auto simp: parent_child)
  show "mset (siftup h) = mset h"
    using c(5)[of "h ! 0"] c(2) by (simp add: siftup_def eq siftdown_mset)
qed

lemma replaced_root_hole:
  assumes "is_heap h" "2 \<le> length h"
  shows "hole_heap ((butlast h)[0 := last h]) 0"
proof -
  have "parent i < length h - 1" if "i < length h - 1" for i
    using that by (meson le_less_trans parent_le)
  then show ?thesis
    using assms by (auto simp: hole_heap_def is_heap_def nth_butlast nth_list_update)
qed

lemma replaced_root_nonempty: "2 \<le> length h \<Longrightarrow> (butlast h)[0 := last h] \<noteq> []"
  by (simp flip: length_greater_0_conv)

lemma heappop_heap:
  assumes "is_heap h"
  shows "is_heap (heappop h)"
proof (cases "length h \<le> 1")
  case True
  then show ?thesis by (simp add: heappop_def is_heap_def)
next
  case False
  then have "2 \<le> length h" by simp
  with assms have "is_heap (siftup ((butlast h)[0 := last h]))"
    by (intro siftup_correct replaced_root_hole replaced_root_nonempty)
  with False show ?thesis by (simp add: heappop_def)
qed

lemma heappop_mset:
  assumes "is_heap h" "h = x # xs"
  shows "mset (heappop h) = mset h - {#x#}"
proof (cases "xs = []")
  case False
  let ?b = "(butlast h)[0 := last h]"
  have "2 \<le> length h" using assms(2) False by (cases xs) auto
  with assms(1) have "mset (siftup ?b) = mset ?b"
    by (intro siftup_correct replaced_root_hole replaced_root_nonempty)
  then have "mset (heappop h) = mset ?b"
    using \<open>2 \<le> length h\<close> by (simp add: heappop_def)
  also have "?b = last xs # butlast xs" using assms(2) False by simp
  also have "mset (last xs # butlast xs) = mset (butlast xs @ [last xs])" by simp
  also have "\<dots> = mset xs" using False by simp
  finally show ?thesis using assms(2) by simp
qed (use assms in \<open>simp add: heappop_def\<close>)

interpretation heapq: min_queue heappush heappop heap_top mset is_heap
proof (unfold_locales, goal_cases)
  case (1 q x)
  then show ?case by (simp add: heappush_mset)
next
  case (2 q)
  then show ?case by (cases q) (auto simp: heap_top_def)
next
  case (3 q x)
  then show ?case by (cases q) (auto simp: heap_top_def)
next
  case (4 q x y)
  then have "x = q ! 0" by (cases q) (auto simp: heap_top_def)
  with 4 show ?case by (metis in_set_conv_nth is_heap_min set_mset_mset)
next
  case (5 q x)
  then show ?case by (cases q) (auto simp: heap_top_def heappop_mset)
next
  case (6 q x)
  then show ?case by (rule heappush_heap)
next
  case (7 q x)
  then show ?case by (intro heappop_heap)
qed

end
