(* ===== verification/Schedule_Queue.thy ===== *)
theory Schedule_Queue
  imports Clocks Heapq "HOL-Library.AList"
begin

text \<open>
  The bounded priority queue of \<open>scheduler/queue.py\<close>: schedule items with their stable order key,
  the pending dictionary (an association list in insertion order, Python's \<open>dict\<close>), the heap of
  order keys with lazy deletion, and the operations of \<open>PersistentPriorityQueue\<close>. An operation
  that changes the queue returns the new one with its result. The queue's contract with its
  clients (the scheduling engine and the recovery policy) is the locale \<open>pending_projection\<close>.
\<close>

section \<open>Schedule items\<close>

definition MAX_SCHEDULE_ITEMS :: int where "MAX_SCHEDULE_ITEMS = 100000"

definition MAX_ORDINAL :: int where "MAX_ORDINAL = 9007199254740991"

record ScheduleItem =
  schedule_entry_id :: string
  entity_id :: string
  logical_due_ns :: int
  scenario_ordinal :: int
  step_ordinal :: int
  delivery_ordinal :: int
  attempt_ordinal :: int
  deterministic_tie_key :: string

type_synonym order_key = "int \<times> int \<times> int \<times> int \<times> int \<times> string \<times> string"

definition queue_token :: "string \<Rightarrow> string \<Rightarrow> nat \<Rightarrow> string result" where
  "queue_token v name maximum =
     and_then (raise_unless (bounded_token maximum v)
         (ScheduleQueueError INVALID_ITEM (name @ '' must be a bounded ASCII token'')))
       (\<lambda>_. Inr v)"

definition queue_ordinal :: "int \<times> string \<Rightarrow> unit result" where
  "queue_ordinal = (\<lambda>(v, name). raise_unless (0 \<le> v \<and> v \<le> MAX_ORDINAL)
     (ScheduleQueueError INVALID_ITEM (name @ '' must be a nonnegative safe integer'')))"

definition ScheduleItem_post_init :: "ScheduleItem \<Rightarrow> ScheduleItem result" where
  "ScheduleItem_post_init item =
     and_then (queue_token (schedule_entry_id item) ''schedule entry ID'' 96) (\<lambda>_.
     and_then (queue_token (entity_id item) ''scheduled entity ID'' 96) (\<lambda>_.
     and_then (validate_logical_nanoseconds (logical_due_ns item)) (\<lambda>_.
     and_then (for_each queue_ordinal
         [(scenario_ordinal item, ''scenario ordinal''), (step_ordinal item, ''step ordinal''),
          (delivery_ordinal item, ''delivery ordinal''), (attempt_ordinal item, ''attempt ordinal'')]) (\<lambda>_.
     and_then (queue_token (deterministic_tie_key item) ''deterministic tie key'' 256) (\<lambda>_.
       Inr item)))))"

definition order_key :: "ScheduleItem \<Rightarrow> order_key" where
  "order_key item =
     (logical_due_ns item, scenario_ordinal item, step_ordinal item, delivery_ordinal item,
      attempt_ordinal item, deterministic_tie_key item, schedule_entry_id item)"

section \<open>The queue\<close>

record PersistentPriorityQueue =
  maximum_items :: int
  q_entries :: "(string \<times> ScheduleItem) list"
  q_heap :: "(order_key \<times> string) list"

definition PersistentPriorityQueue_init :: "int \<Rightarrow> PersistentPriorityQueue result" where
  "PersistentPriorityQueue_init maximum =
     and_then (raise_unless (1 \<le> maximum \<and> maximum \<le> MAX_SCHEDULE_ITEMS)
         (ValueError ''maximum_items must be between 1 and 100000''))
       (\<lambda>_. Inr \<lparr>maximum_items = maximum, q_entries = [], q_heap = []\<rparr>)"

definition validate_add :: "PersistentPriorityQueue \<Rightarrow> ScheduleItem \<Rightarrow> bool result" where
  "validate_add q item = (case map_of (q_entries q) (schedule_entry_id item) of
       Some existing \<Rightarrow>
         if existing \<noteq> item
         then Inl (ScheduleQueueError DUPLICATE_CONFLICT
                ''schedule entry identity was reused with different semantics'')
         else Inr False
     | None \<Rightarrow>
         if int (length (q_entries q)) \<ge> maximum_items q
         then Inl (ScheduleQueueError CAPACITY_EXCEEDED
                ''persistent schedule exceeded its configured item bound'')
         else Inr True)"

definition queue_add ::
    "PersistentPriorityQueue \<Rightarrow> ScheduleItem \<Rightarrow> (bool \<times> PersistentPriorityQueue) result" where
  "queue_add q item =
     and_then (validate_add q item) (\<lambda>should_add.
       if \<not> should_add then Inr (False, q)
       else Inr (True, q\<lparr>q_entries := AList.update (schedule_entry_id item) item (q_entries q),
                         q_heap := heappush (order_key item, schedule_entry_id item) (q_heap q)\<rparr>))"

fun reconstruct_from ::
    "ScheduleItem list \<Rightarrow> string set \<Rightarrow> PersistentPriorityQueue \<Rightarrow> PersistentPriorityQueue result"
where
  "reconstruct_from [] consumed q = Inr q"
| "reconstruct_from (entry # entries) consumed q =
     (if schedule_entry_id entry \<notin> consumed
      then and_then (queue_add q entry) (\<lambda>(_, q'). reconstruct_from entries consumed q')
      else reconstruct_from entries consumed q)"

definition reconstruct ::
    "ScheduleItem list \<Rightarrow> string set \<Rightarrow> int \<Rightarrow> PersistentPriorityQueue result" where
  "reconstruct entries consumed maximum =
     and_then (PersistentPriorityQueue_init maximum) (reconstruct_from entries consumed)"

function discard_stale :: "(string \<times> ScheduleItem) list \<Rightarrow> (order_key \<times> string) list \<Rightarrow>
    (order_key \<times> string) list" where
  "discard_stale entries heap = (case heap_top heap of
       None \<Rightarrow> heap
     | Some (key, entry_id) \<Rightarrow>
         if map_of entries entry_id = None then discard_stale entries (heappop heap) else heap)"
  by pat_completeness auto
termination
  by (relation "measure (\<lambda>(entries, heap). length heap)")
    (auto simp: heap_top_def split: list.splits)

declare discard_stale.simps [simp del]

definition peek :: "PersistentPriorityQueue \<Rightarrow> ScheduleItem option \<times> PersistentPriorityQueue" where
  "peek q = (let heap = discard_stale (q_entries q) (q_heap q); q' = q\<lparr>q_heap := heap\<rparr>
     in case heap_top heap of
          None \<Rightarrow> (None, q')
        | Some (key, entry_id) \<Rightarrow> (map_of (q_entries q) entry_id, q'))"

definition queue_snapshot :: "PersistentPriorityQueue \<Rightarrow> ScheduleItem list" where
  "queue_snapshot q = sort_key order_key (map snd (q_entries q))"

definition due :: "PersistentPriorityQueue \<Rightarrow> int \<Rightarrow> int \<Rightarrow> ScheduleItem list result" where
  "due q logical_now_ns limit =
     and_then (validate_logical_nanoseconds logical_now_ns) (\<lambda>now.
     and_then (raise_unless (1 \<le> limit \<and> limit \<le> maximum_items q)
         (ValueError ''due limit must be within the configured item bound'')) (\<lambda>_.
       Inr (take (nat limit)
         [item \<leftarrow> sort_key order_key (map snd (q_entries q)). logical_due_ns item \<le> now])))"

definition mark_consumed ::
    "PersistentPriorityQueue \<Rightarrow> string \<Rightarrow> (ScheduleItem option \<times> PersistentPriorityQueue) result" where
  "mark_consumed q entry_id =
     and_then (queue_token entry_id ''schedule entry ID'' 96) (\<lambda>_.
       Inr (map_of (q_entries q) entry_id, q\<lparr>q_entries := AList.delete entry_id (q_entries q)\<rparr>))"

definition queue_len :: "PersistentPriorityQueue \<Rightarrow> nat" where
  "queue_len q = length (q_entries q)"

section \<open>Operation sequences and the invariant\<close>

datatype queue_op = Add ScheduleItem | Consume string | Peek

definition queue_step ::
    "PersistentPriorityQueue \<Rightarrow> queue_op \<Rightarrow> PersistentPriorityQueue result" where
  "queue_step q op = (case op of
       Add item \<Rightarrow> and_then (queue_add q item) (\<lambda>(_, q'). Inr q')
     | Consume entry_id \<Rightarrow> and_then (mark_consumed q entry_id) (\<lambda>(_, q'). Inr q')
     | Peek \<Rightarrow> Inr (snd (peek q)))"

fun queue_run ::
    "PersistentPriorityQueue \<Rightarrow> queue_op list \<Rightarrow> PersistentPriorityQueue result" where
  "queue_run q [] = Inr q"
| "queue_run q (op # ops) = and_then (queue_step q op) (\<lambda>q'. queue_run q' ops)"

definition added :: "queue_op list \<Rightarrow> ScheduleItem set" where
  "added ops = {item. Add item \<in> set ops}"

definition queue_inv :: "PersistentPriorityQueue \<Rightarrow> bool" where
  "queue_inv q \<longleftrightarrow>
     distinct (map fst (q_entries q)) \<and>
     (\<forall>p \<in> set (q_entries q). fst p = schedule_entry_id (snd p)) \<and>
     int (length (q_entries q)) \<le> maximum_items q \<and>
     1 \<le> maximum_items q \<and> maximum_items q \<le> MAX_SCHEDULE_ITEMS \<and>
     is_heap (q_heap q) \<and>
     (\<forall>p \<in> set (q_entries q). (order_key (snd p), fst p) \<in> set (q_heap q))"

text \<open>No heap entry of a pending identity is stale, relative to the items \<open>A\<close> ever added.\<close>

definition heap_from :: "ScheduleItem set \<Rightarrow> PersistentPriorityQueue \<Rightarrow> bool" where
  "heap_from A q \<longleftrightarrow>
     (\<forall>(key, k) \<in> set (q_heap q). \<exists>item \<in> A. key = order_key item \<and> k = schedule_entry_id item) \<and>
     snd ` set (q_entries q) \<subseteq> A"

definition pending_items :: "PersistentPriorityQueue \<Rightarrow> ScheduleItem set" where
  "pending_items q = snd ` set (q_entries q)"

text \<open>The abstract meaning of an operation sequence: the set of pending items.\<close>

fun pending_spec :: "ScheduleItem set \<Rightarrow> queue_op list \<Rightarrow> ScheduleItem set" where
  "pending_spec P [] = P"
| "pending_spec P (Add item # ops) = pending_spec (insert item P) ops"
| "pending_spec P (Consume k # ops) = pending_spec {x \<in> P. schedule_entry_id x \<noteq> k} ops"
| "pending_spec P (Peek # ops) = pending_spec P ops"

section \<open>The contract of the pending projection\<close>

text \<open>What the engine and the recovery policy rely on: insertion and consumption act on the set
  of pending items, and the ordered view lists exactly that set.\<close>

locale pending_projection =
  fixes check_add :: "'q \<Rightarrow> ScheduleItem \<Rightarrow> bool result"
    and insert_item :: "'q \<Rightarrow> ScheduleItem \<Rightarrow> (bool \<times> 'q) result"
    and remove_item :: "'q \<Rightarrow> string \<Rightarrow> (ScheduleItem option \<times> 'q) result"
    and ordered :: "'q \<Rightarrow> ScheduleItem list"
    and pending :: "'q \<Rightarrow> ScheduleItem set"
    and invar :: "'q \<Rightarrow> bool"
  assumes check_add_iff: "invar q \<Longrightarrow> check_add q x = Inr b \<Longrightarrow> b \<longleftrightarrow> x \<notin> pending q"
    and insert_check: "insert_item q x = Inl e \<longleftrightarrow> check_add q x = Inl e"
    and insert_ok: "invar q \<Longrightarrow> insert_item q x = Inr (b, q') \<Longrightarrow>
       check_add q x = Inr b \<and> invar q' \<and> pending q' = insert x (pending q)"
    and remove_ok: "invar q \<Longrightarrow> remove_item q k = Inr (r, q') \<Longrightarrow>
       invar q' \<and> pending q' = {x \<in> pending q. schedule_entry_id x \<noteq> k}"
    and ordered_set: "invar q \<Longrightarrow> set (ordered q) = pending q"
    and ordered_sorted: "invar q \<Longrightarrow> sorted (map order_key (ordered q))"
    and ordered_distinct: "invar q \<Longrightarrow> distinct (map schedule_entry_id (ordered q))"
begin

lemma pending_unique:
  assumes "invar q" "x \<in> pending q" "y \<in> pending q" "schedule_entry_id x = schedule_entry_id y"
  shows "x = y"
  using assms ordered_set ordered_distinct by (metis distinct_map inj_onD)

lemma ordered_determined:
  assumes "invar q" "invar q'" "pending q = pending q'"
  shows "ordered q = ordered q'"
proof -
  have inj: "inj_on order_key (pending q)"
    by (auto simp: inj_on_def order_key_def)
      (metis assms(1) pending_unique)
  have "distinct (ordered q)" "distinct (ordered q')"
    using assms ordered_distinct by (simp_all add: distinct_map)
  then have "sort_key order_key (ordered q) = sort_key order_key (ordered q')"
    using assms inj ordered_set by (intro sort_key_perm_eq) simp_all
  moreover have "sort_key order_key (ordered q) = ordered q"
    "sort_key order_key (ordered q') = ordered q'"
    using assms ordered_sorted by (simp_all add: sort_key_id_if_sorted)
  ultimately show ?thesis by simp
qed

lemma insert_then_ordered:
  assumes "invar q" "insert_item q x = Inr (b, q')"
  shows "x \<in> set (ordered q')"
  using assms insert_ok ordered_set by auto

lemma removed_not_ordered:
  assumes "invar q" "remove_item q k = Inr (r, q')"
  shows "k \<notin> schedule_entry_id ` set (ordered q')"
  using assms remove_ok ordered_set by auto

end

section \<open>Invariant preservation\<close>

lemma queue_token_eq_Inr [simp]: "queue_token v n m = Inr x \<longleftrightarrow> x = v \<and> bounded_token m v"
  by (auto simp: queue_token_def result_simps)

lemma queue_invD:
  assumes "queue_inv q"
  shows "distinct (map fst (q_entries q))"
    and "\<forall>p \<in> set (q_entries q). fst p = schedule_entry_id (snd p)"
    and "int (length (q_entries q)) \<le> maximum_items q"
    and "1 \<le> maximum_items q \<and> maximum_items q \<le> MAX_SCHEDULE_ITEMS"
    and "is_heap (q_heap q)"
    and "\<forall>p \<in> set (q_entries q). (order_key (snd p), fst p) \<in> set (q_heap q)"
  using assms unfolding queue_inv_def by blast+

lemma queue_init_inv: "PersistentPriorityQueue_init m = Inr q \<Longrightarrow> queue_inv q"
  by (clarsimp simp: PersistentPriorityQueue_init_def result_simps queue_inv_def)

lemma map_of_entries:
  assumes "queue_inv q"
  shows "map_of (q_entries q) k = Some x \<longleftrightarrow> x \<in> pending_items q \<and> schedule_entry_id x = k"
proof -
  have keyed: "a = schedule_entry_id b" if "(a, b) \<in> set (q_entries q)" for a b
    using assms that by (force simp: queue_inv_def)
  have "map_of (q_entries q) k = Some x \<longleftrightarrow> (k, x) \<in> set (q_entries q)"
    using assms by (simp add: queue_inv_def)
  also have "\<dots> \<longleftrightarrow> x \<in> pending_items q \<and> schedule_entry_id x = k"
  proof
    assume "(k, x) \<in> set (q_entries q)"
    from keyed[OF this] imageI[OF this, of snd] show "x \<in> pending_items q \<and> schedule_entry_id x = k"
      by (simp add: pending_items_def)
  next
    assume a: "x \<in> pending_items q \<and> schedule_entry_id x = k"
    then obtain p where "p \<in> set (q_entries q)" "x = snd p"
      unfolding pending_items_def by blast
    then have "(fst p, x) \<in> set (q_entries q)" by simp
    with keyed[OF this] a show "(k, x) \<in> set (q_entries q)" by simp
  qed
  finally show ?thesis .
qed

lemma validate_add_eq_Inr:
  assumes "queue_inv q"
  shows "validate_add q x = Inr b \<longleftrightarrow>
    (b \<longleftrightarrow> x \<notin> pending_items q) \<and>
    (\<forall>y \<in> pending_items q. schedule_entry_id y = schedule_entry_id x \<longrightarrow> y = x) \<and>
    (b \<longrightarrow> int (queue_len q) < maximum_items q)"
proof (cases "map_of (q_entries q) (schedule_entry_id x)")
  case None
  then have none: "schedule_entry_id y \<noteq> schedule_entry_id x" if "y \<in> pending_items q" for y
    using that map_of_entries[OF assms, of "schedule_entry_id x" y] by auto
  then have "x \<notin> pending_items q" by blast
  moreover have "validate_add q x = Inr b \<longleftrightarrow> b \<and> int (queue_len q) < maximum_items q"
    using None by (simp add: validate_add_def queue_len_def)
  ultimately show ?thesis using none by blast
next
  case (Some y)
  then have y: "y \<in> pending_items q" "schedule_entry_id y = schedule_entry_id x"
    using map_of_entries[OF assms, of "schedule_entry_id x" y] by simp_all
  have only: "z = y" if "z \<in> pending_items q" "schedule_entry_id z = schedule_entry_id x" for z
    using that Some map_of_entries[OF assms, of "schedule_entry_id x" z] by simp
  have "validate_add q x = Inr b \<longleftrightarrow> \<not> b \<and> y = x"
    using Some by (simp add: validate_add_def)
  then show ?thesis using y only by blast
qed

lemma queue_add_eq_Inr:
  "queue_add q x = Inr (b, q') \<longleftrightarrow>
     validate_add q x = Inr b \<and>
     q' = (if b then q\<lparr>q_entries := AList.update (schedule_entry_id x) x (q_entries q),
                       q_heap := heappush (order_key x, schedule_entry_id x) (q_heap q)\<rparr> else q)"
  by (auto simp: queue_add_def result_simps split: if_splits)

lemma validate_add_new:
  assumes "validate_add q x = Inr True"
  shows "schedule_entry_id x \<notin> fst ` set (q_entries q)" "int (length (q_entries q)) < maximum_items q"
  using assms by (auto simp: validate_add_def map_of_eq_None_iff split: option.splits if_splits)

lemma update_new: "k \<notin> fst ` set al \<Longrightarrow> AList.update k v al = al @ [(k, v)]"
  by (induction al) auto

lemma set_heappush [simp]: "set (heappush x h) = insert x (set h)"
  using heappush_mset[of x h] by (metis set_mset_add_mset_insert set_mset_mset)

lemma queue_add_inv:
  assumes "queue_inv q" "queue_add q x = Inr (b, q')"
  shows "queue_inv q'"
proof (cases b)
  case True
  with assms(2) have v: "validate_add q x = Inr True"
      and q': "q' = q\<lparr>q_entries := AList.update (schedule_entry_id x) x (q_entries q),
                       q_heap := heappush (order_key x, schedule_entry_id x) (q_heap q)\<rparr>"
    by (simp_all add: queue_add_eq_Inr)
  note new = validate_add_new[OF v]
  have "q_entries q' = q_entries q @ [(schedule_entry_id x, x)]"
    using new(1) by (simp add: q' update_new)
  moreover have "q_heap q' = heappush (order_key x, schedule_entry_id x) (q_heap q)"
    "maximum_items q' = maximum_items q" by (simp_all add: q')
  moreover have "\<forall>p \<in> set (q_entries q). (order_key (snd p), fst p) \<in> set (q_heap q')"
    using queue_invD(6)[OF assms(1)] by (simp add: q')
  ultimately show ?thesis
    unfolding queue_inv_def using queue_invD(1-5)[OF assms(1)] new by (simp add: heappush_heap)
qed (use assms in \<open>simp add: queue_add_eq_Inr\<close>)

lemma queue_add_pending:
  assumes "queue_inv q" "queue_add q x = Inr (b, q')"
  shows "pending_items q' = insert x (pending_items q)"
proof (cases b)
  case True
  with assms(2) have "validate_add q x = Inr True" by (simp add: queue_add_eq_Inr)
  from validate_add_new[OF this] True assms(2) show ?thesis
    by (simp add: queue_add_eq_Inr pending_items_def update_new)
next
  case False
  with assms show ?thesis by (auto simp: queue_add_eq_Inr validate_add_eq_Inr)
qed

lemma mark_consumed_eq_Inr:
  "mark_consumed q k = Inr (r, q') \<longleftrightarrow>
     bounded_token 96 k \<and> r = map_of (q_entries q) k \<and>
     q' = q\<lparr>q_entries := AList.delete k (q_entries q)\<rparr>"
  by (auto simp: mark_consumed_def result_simps)

lemma set_delete: "set (AList.delete k al) = {p \<in> set al. fst p \<noteq> k}"
  by (auto simp: AList.delete_eq)

lemma length_delete: "length (AList.delete k al) \<le> length al"
  by (rule length_delete_le)

lemma mark_consumed_inv:
  assumes "queue_inv q" "mark_consumed q k = Inr (r, q')"
  shows "queue_inv q'" "pending_items q' = {x \<in> pending_items q. schedule_entry_id x \<noteq> k}"
proof -
  have q': "q' = q\<lparr>q_entries := AList.delete k (q_entries q)\<rparr>"
    using assms(2) by (simp add: mark_consumed_eq_Inr)
  have "int (length (AList.delete k (q_entries q))) \<le> maximum_items q"
    using assms(1) length_delete[of k "q_entries q"] by (simp add: queue_inv_def)
  moreover have "set (AList.delete k (q_entries q)) \<subseteq> set (q_entries q)"
    by (auto simp: set_delete)
  moreover have "distinct (map fst (AList.delete k (q_entries q)))"
    using queue_invD(1)[OF assms(1)] by (rule distinct_delete)
  ultimately have "distinct (map fst (q_entries q'))" "set (q_entries q') \<subseteq> set (q_entries q)"
    "int (length (q_entries q')) \<le> maximum_items q'" "maximum_items q' = maximum_items q"
    "q_heap q' = q_heap q" by (simp_all add: q')
  then show "queue_inv q'"
    using queue_invD(2,4,5,6)[OF assms(1)] unfolding queue_inv_def by (simp only:) blast
  show "pending_items q' = {x \<in> pending_items q. schedule_entry_id x \<noteq> k}"
  proof -
    have "fst p = schedule_entry_id (snd p)" if "p \<in> set (q_entries q)" for p
      using assms(1) that by (simp add: queue_inv_def)
    then have "snd ` {p \<in> set (q_entries q). fst p \<noteq> k}
        = {x \<in> snd ` set (q_entries q). schedule_entry_id x \<noteq> k}"
      by (intro image_Collect_cong) simp
    then show ?thesis by (simp add: pending_items_def q' set_delete)
  qed
qed

lemma discard_stale_spec:
  assumes "is_heap heap"
  shows "is_heap (discard_stale entries heap) \<and>
    set (discard_stale entries heap) \<subseteq> set heap \<and>
    {p \<in> set heap. map_of entries (snd p) \<noteq> None} \<subseteq> set (discard_stale entries heap) \<and>
    (\<forall>p. heap_top (discard_stale entries heap) = Some p \<longrightarrow> map_of entries (snd p) \<noteq> None)"
  using assms
proof (induction entries heap rule: discard_stale.induct)
  case (1 entries heap)
  show ?case
  proof (cases "\<exists>p. heap_top heap = Some p \<and> map_of entries (snd p) = None")
    case True
    then obtain p where p: "heap_top heap = Some p" "map_of entries (snd p) = None" by blast
    then have eq: "discard_stale entries heap = discard_stale entries (heappop heap)"
      by (cases p) (subst discard_stale.simps, simp)
    have heap': "is_heap (heappop heap)" using "1.prems" by (rule heappop_heap)
    have ms: "mset (heappop heap) = mset heap - {#p#}"
      using heapq.items_pop "1.prems" p(1) by blast
    then have sub: "set (heappop heap) \<subseteq> set heap"
      by (metis in_diffD set_mset_mset subsetI)
    have keep: "{a \<in> set heap. map_of entries (snd a) \<noteq> None} \<subseteq> set (heappop heap)"
    proof
      fix a assume a: "a \<in> {a \<in> set heap. map_of entries (snd a) \<noteq> None}"
      with p(2) have "a \<noteq> p" by blast
      with a heapq.pop_keeps_larger[OF "1.prems" p(1)] show "a \<in> set (heappop heap)" by simp
    qed
    obtain key k where k: "(key, k) = p" by (metis prod.exhaust)
    have "map_of entries k = None" using p(2) k by (metis snd_conv)
    from "1.IH"[OF p(1) k this heap']
    have "is_heap (discard_stale entries (heappop heap)) \<and>
      set (discard_stale entries (heappop heap)) \<subseteq> set (heappop heap) \<and>
      {a \<in> set (heappop heap). map_of entries (snd a) \<noteq> None}
        \<subseteq> set (discard_stale entries (heappop heap)) \<and>
      (\<forall>a. heap_top (discard_stale entries (heappop heap)) = Some a \<longrightarrow>
        map_of entries (snd a) \<noteq> None)" .
    then show ?thesis unfolding eq using sub keep by blast
  next
    case False
    then have "discard_stale entries heap = heap"
      by (subst discard_stale.simps) (auto split: option.splits)
    with False "1.prems" show ?thesis by auto
  qed
qed

lemma peek_inv:
  assumes "queue_inv q"
  shows "queue_inv (snd (peek q))" "q_entries (snd (peek q)) = q_entries q"
proof -
  let ?h = "discard_stale (q_entries q) (q_heap q)"
  have snd_peek: "snd (peek q) = q\<lparr>q_heap := ?h\<rparr>"
    by (auto simp: peek_def Let_def split: option.splits)
  then show "q_entries (snd (peek q)) = q_entries q" by simp
  have h: "is_heap (q_heap q)" using assms by (simp add: queue_inv_def)
  have "(order_key x, k) \<in> set ?h" if "(k, x) \<in> set (q_entries q)" for k x
  proof -
    have "(order_key x, k) \<in> set (q_heap q)" "map_of (q_entries q) k \<noteq> None"
      using assms that by (auto simp: queue_inv_def map_of_eq_None_iff)
    with discard_stale_spec[OF h] show ?thesis by fastforce
  qed
  with assms discard_stale_spec[OF h] show "queue_inv (snd (peek q))"
    by (auto simp: snd_peek queue_inv_def)
qed

lemma snapshot_set [simp]: "set (queue_snapshot q) = pending_items q"
  by (simp add: queue_snapshot_def pending_items_def)

lemma snapshot_sorted [simp]: "sorted (map order_key (queue_snapshot q))"
  by (simp add: queue_snapshot_def)

lemma snapshot_distinct:
  assumes "queue_inv q"
  shows "distinct (map schedule_entry_id (queue_snapshot q))"
proof -
  have "map schedule_entry_id (map snd (q_entries q)) = map fst (q_entries q)"
    using assms by (auto simp: queue_inv_def)
  then have "distinct (map schedule_entry_id (map snd (q_entries q)))"
    using assms by (simp only: queue_inv_def)
  then have "distinct (map snd (q_entries q)) \<and> inj_on schedule_entry_id (set (map snd (q_entries q)))"
    by (simp only: distinct_map)
  then show ?thesis
    by (simp only: queue_snapshot_def distinct_map distinct_sort set_sort)
qed

interpretation pq: pending_projection validate_add queue_add mark_consumed queue_snapshot
  pending_items queue_inv
proof (unfold_locales, goal_cases)
  case (1 q x b)
  then show ?case by (simp add: validate_add_eq_Inr)
next
  case (2 q x e)
  then show ?case by (auto simp: queue_add_def result_simps split: if_splits)
next
  case (3 q x b q')
  then show ?case using queue_add_inv queue_add_pending by (auto simp: queue_add_eq_Inr)
next
  case (4 q k r q')
  then show ?case using mark_consumed_inv by blast
next
  case (7 q)
  then show ?case by (rule snapshot_distinct)
qed auto

section \<open>Runs of operations\<close>

lemma queue_step_Add: "queue_step q (Add x) = Inr q' \<longleftrightarrow> (\<exists>b. queue_add q x = Inr (b, q'))"
  by (cases "queue_add q x") (simp_all add: queue_step_def case_prod_unfold prod_eq_iff)

lemma queue_step_Consume:
  "queue_step q (Consume k) = Inr q' \<longleftrightarrow> (\<exists>r. mark_consumed q k = Inr (r, q'))"
  by (cases "mark_consumed q k") (simp_all add: queue_step_def case_prod_unfold prod_eq_iff)

lemma queue_step_Peek: "queue_step q Peek = Inr q' \<longleftrightarrow> q' = snd (peek q)"
  by (simp add: queue_step_def eq_commute)

lemmas queue_step_iff = queue_step_Add queue_step_Consume queue_step_Peek

lemma snd_peek: "snd (peek q) = q\<lparr>q_heap := discard_stale (q_entries q) (q_heap q)\<rparr>"
  by (simp add: peek_def Let_def split: option.split)

lemma queue_step_inv:
  assumes "queue_inv q" "queue_step q op = Inr q'"
  shows "queue_inv q'"
  using assms(2) queue_add_inv[OF assms(1)] mark_consumed_inv(1)[OF assms(1)] peek_inv(1)[OF assms(1)]
  by (cases op) (auto simp only: queue_step_iff)

lemma queue_step_maximum:
  assumes "queue_step q op = Inr q'"
  shows "maximum_items q' = maximum_items q"
proof (cases op)
  case (Add x)
  with assms show ?thesis by (clarsimp simp: queue_step_iff queue_add_eq_Inr)
next
  case (Consume k)
  with assms show ?thesis by (clarsimp simp: queue_step_iff mark_consumed_eq_Inr)
next
  case Peek
  with assms show ?thesis by (simp add: queue_step_iff snd_peek)
qed

lemma queue_run_inv: "queue_inv q \<Longrightarrow> queue_run q ops = Inr q' \<Longrightarrow> queue_inv q'"
  by (induction ops arbitrary: q) (auto simp: result_simps dest: queue_step_inv)

lemma queue_run_maximum: "queue_run q ops = Inr q' \<Longrightarrow> maximum_items q' = maximum_items q"
  by (induction ops arbitrary: q) (auto simp: result_simps dest: queue_step_maximum)

lemma peek_pending [simp]: "queue_inv q \<Longrightarrow> pending_items (snd (peek q)) = pending_items q"
  by (simp add: pending_items_def peek_inv(2))

lemma queue_run_pending:
  "queue_inv q \<Longrightarrow> queue_run q ops = Inr q' \<Longrightarrow> pending_items q' = pending_spec (pending_items q) ops"
proof (induction ops arbitrary: q)
  case (Cons op ops)
  from Cons.prems obtain q1 where q1: "queue_step q op = Inr q1" "queue_run q1 ops = Inr q'"
    by (auto simp: result_simps)
  have "pending_items q' = pending_spec (pending_items q1) ops"
    using Cons.IH[OF queue_step_inv[OF Cons.prems(1) q1(1)] q1(2)] .
  moreover have "pending_spec (pending_items q1) ops = pending_spec (pending_items q) (op # ops)"
  proof (cases op)
    case (Add x)
    with q1(1) obtain b where "queue_add q x = Inr (b, q1)" by (auto simp only: queue_step_iff)
    with Add Cons.prems(1) show ?thesis by (simp add: queue_add_pending)
  next
    case (Consume k)
    with q1(1) obtain r where "mark_consumed q k = Inr (r, q1)" by (auto simp only: queue_step_iff)
    with Consume Cons.prems(1) show ?thesis by (simp add: mark_consumed_inv(2))
  next
    case Peek
    with q1(1) Cons.prems(1) show ?thesis by (simp add: queue_step_iff)
  qed
  ultimately show ?case by simp
qed simp

lemma init_pending: "PersistentPriorityQueue_init m = Inr q \<Longrightarrow> pending_items q = {}"
  by (clarsimp simp: PersistentPriorityQueue_init_def result_simps pending_items_def)

lemma init_maximum: "PersistentPriorityQueue_init m = Inr q \<Longrightarrow> maximum_items q = m"
  by (clarsimp simp: PersistentPriorityQueue_init_def result_simps)

section \<open>The heap view agrees with the ordered view\<close>

lemma heap_from_add:
  assumes "heap_from A q" "queue_add q x = Inr (b, q')" "x \<in> A"
  shows "heap_from A q'"
proof (cases b)
  case True
  with assms(2) have v: "validate_add q x = Inr True" by (simp add: queue_add_eq_Inr)
  from validate_add_new(1)[OF v] True assms show ?thesis
    by (auto simp: heap_from_def queue_add_eq_Inr update_new)
qed (use assms in \<open>simp add: queue_add_eq_Inr\<close>)

lemma heap_from_step:
  assumes "queue_inv q" "heap_from A q" "queue_step q op = Inr q'" "added [op] \<subseteq> A"
  shows "heap_from A q'"
proof (cases op)
  case (Add x)
  with assms(4) have "x \<in> A" by (simp add: added_def)
  with Add assms(3) heap_from_add[OF assms(2)] show ?thesis by (auto simp only: queue_step_iff)
next
  case (Consume k)
  with assms(3) have "q_heap q' = q_heap q" "set (q_entries q') \<subseteq> set (q_entries q)"
    by (auto simp: queue_step_iff mark_consumed_eq_Inr set_delete)
  with assms(2) show ?thesis unfolding heap_from_def by (simp only:) blast
next
  case Peek
  have "is_heap (q_heap q)" using assms(1) by (rule queue_invD(5))
  from discard_stale_spec[OF this, of "q_entries q"]
  have "set (q_heap q') \<subseteq> set (q_heap q)" "q_entries q' = q_entries q"
    using Peek assms(3) by (simp_all add: queue_step_iff snd_peek)
  with assms(2) show ?thesis unfolding heap_from_def by (simp only:) blast
qed

lemma heap_from_run:
  assumes "queue_inv q" "heap_from A q" "queue_run q ops = Inr q'" "added ops \<subseteq> A"
  shows "heap_from A q'"
  using assms
proof (induction ops arbitrary: q)
  case (Cons op ops)
  then obtain q1 where q1: "queue_step q op = Inr q1" "queue_run q1 ops = Inr q'"
    by (auto simp: result_simps)
  have "added [op] \<subseteq> A" "added ops \<subseteq> A" using Cons.prems(4) by (auto simp: added_def)
  with Cons.IH[OF queue_step_inv[OF Cons.prems(1) q1(1)] heap_from_step[OF Cons.prems(1,2) q1(1)] q1(2)]
  show ?case by blast
qed simp

lemma snapshot_head_min:
  assumes "queue_inv q" "y \<in> pending_items q" "\<And>z. z \<in> pending_items q \<Longrightarrow> order_key y \<le> order_key z"
  shows "\<exists>xs. queue_snapshot q = y # xs"
proof (cases "queue_snapshot q")
  case Nil
  with assms(2) snapshot_set[of q] show ?thesis by simp
next
  case (Cons x xs)
  have "order_key x \<le> order_key y"
    using snapshot_sorted[of q] assms(2) snapshot_set[of q] unfolding Cons by auto
  moreover have x: "x \<in> pending_items q" using snapshot_set[of q] unfolding Cons by auto
  ultimately have "order_key x = order_key y" using assms(3) by (simp add: order_antisym)
  then have "schedule_entry_id x = schedule_entry_id y" by (simp add: order_key_def)
  then have "x = y" using pq.pending_unique[OF assms(1) x assms(2)] by simp
  with Cons show ?thesis by simp
qed

lemma peek_head:
  assumes inv: "queue_inv q" and from_A: "heap_from A q" and inj: "inj_on schedule_entry_id A"
  shows "fst (peek q) = (case queue_snapshot q of [] \<Rightarrow> None | x # _ \<Rightarrow> Some x)"
proof -
  let ?h = "discard_stale (q_entries q) (q_heap q)"
  have spec: "is_heap ?h" "set ?h \<subseteq> set (q_heap q)"
    "{p \<in> set (q_heap q). map_of (q_entries q) (snd p) \<noteq> None} \<subseteq> set ?h"
    "\<And>p. heap_top ?h = Some p \<Longrightarrow> map_of (q_entries q) (snd p) \<noteq> None"
    using discard_stale_spec[OF queue_invD(5)[OF inv], of "q_entries q"] by blast+
  have live: "(order_key x, schedule_entry_id x) \<in> set ?h" if x: "x \<in> pending_items q" for x
  proof -
    have m: "map_of (q_entries q) (schedule_entry_id x) = Some x"
      using map_of_entries[OF inv] x by blast
    then have "(schedule_entry_id x, x) \<in> set (q_entries q)" by (rule map_of_SomeD)
    then have "(order_key x, schedule_entry_id x) \<in> set (q_heap q)"
      using queue_invD(6)[OF inv] by (metis fst_conv snd_conv)
    then have "(order_key x, schedule_entry_id x)
        \<in> {p \<in> set (q_heap q). map_of (q_entries q) (snd p) \<noteq> None}" using m by simp
    then show ?thesis by (rule subsetD[OF spec(3)])
  qed
  show ?thesis
  proof (cases "heap_top ?h")
    case None
    then have "set ?h = {}" using heapq.top_None[OF spec(1)] by simp
    have "pending_items q = {}"
    proof (rule equals0I)
      fix x assume "x \<in> pending_items q"
      from live[OF this] \<open>set ?h = {}\<close> show False by simp
    qed
    then have "queue_snapshot q = []" by (simp only: set_empty [symmetric] snapshot_set)
    with None show ?thesis by (simp add: peek_def Let_def)
  next
    case (Some p)
    obtain key k where p: "p = (key, k)" by fastforce
    from spec(4)[OF Some] obtain y where y: "map_of (q_entries q) k = Some y"
      unfolding p snd_conv by blast
    then have yp: "y \<in> pending_items q" "schedule_entry_id y = k"
      using map_of_entries[OF inv] by blast+
    have "p \<in> set (q_heap q)"
      using heapq.top_in[OF spec(1) Some] spec(2) by auto
    with from_A p obtain item where "item \<in> A" "key = order_key item" "k = schedule_entry_id item"
      unfolding heap_from_def by blast
    moreover have "y \<in> A" using from_A yp(1) unfolding heap_from_def pending_items_def by blast
    ultimately have key: "key = order_key y" using inj yp(2) by (metis inj_onD)
    have "order_key y \<le> order_key z" if "z \<in> pending_items q" for z
    proof -
      have "p \<le> (order_key z, schedule_entry_id z)"
        using heapq.top_le[OF spec(1) Some] live[OF that] by simp
      then show ?thesis unfolding p key by (metis fst_conv lex_fst_le)
    qed
    with snapshot_head_min[OF inv yp(1)] obtain xs where "queue_snapshot q = y # xs" by blast
    with Some p y show ?thesis by (simp add: peek_def Let_def)
  qed
qed

lemma filter_due_takeWhile:
  "sorted (map order_key xs) \<Longrightarrow>
     [x \<leftarrow> xs. logical_due_ns x \<le> now] = takeWhile (\<lambda>x. logical_due_ns x \<le> now) xs"
proof (induction xs)
  case (Cons x xs)
  show ?case
  proof (cases "logical_due_ns x \<le> now")
    case False
    have "logical_due_ns x \<le> logical_due_ns y" if "y \<in> set xs" for y
    proof -
      have "order_key x \<le> order_key y" using Cons.prems that by simp
      then show ?thesis unfolding order_key_def by (metis fst_conv lex_fst_le)
    qed
    with False have "\<forall>y \<in> set xs. \<not> logical_due_ns y \<le> now" by fastforce
    with False show ?thesis by (simp add: filter_False)
  qed (use Cons in simp)
qed simp

section \<open>Rebuilding the queue from persisted rows\<close>

lemma reconstruct_from_ok:
  assumes "reconstruct_from entries consumed q = Inr q'" "queue_inv q"
  shows "queue_inv q'" "maximum_items q' = maximum_items q"
    "pending_items q' = pending_items q \<union> {x \<in> set entries. schedule_entry_id x \<notin> consumed}"
proof -
  have "queue_inv q' \<and> maximum_items q' = maximum_items q \<and>
    pending_items q' = pending_items q \<union> {x \<in> set entries. schedule_entry_id x \<notin> consumed}"
    using assms
  proof (induction entries arbitrary: q)
    case (Cons x xs)
    show ?case
    proof (cases "schedule_entry_id x \<in> consumed")
      case False
      with Cons.prems(1) obtain b q1 where q1: "queue_add q x = Inr (b, q1)"
          "reconstruct_from xs consumed q1 = Inr q'"
        by (simp add: and_then_eq_Inr case_prod_unfold) (metis prod.collapse)
      have "maximum_items q1 = maximum_items q" using q1(1) by (auto simp: queue_add_eq_Inr)
      with Cons.IH[OF q1(2) queue_add_inv[OF Cons.prems(2) q1(1)]] False
        queue_add_pending[OF Cons.prems(2) q1(1)]
      show ?thesis by auto
    qed (use Cons in auto)
  qed simp
  then show "queue_inv q'" "maximum_items q' = maximum_items q"
    "pending_items q' = pending_items q \<union> {x \<in> set entries. schedule_entry_id x \<notin> consumed}"
    by blast+
qed

lemma pending_card:
  assumes "queue_inv q"
  shows "card (pending_items q) = queue_len q"
proof -
  have "card (pending_items q) = length (queue_snapshot q)"
    using snapshot_distinct[OF assms] snapshot_set[of q]
    by (metis distinct_card distinct_map)
  then show ?thesis by (simp add: queue_snapshot_def queue_len_def)
qed

lemma reconstruct_from_returns:
  assumes "queue_inv q"
    and "inj_on schedule_entry_id (pending_items q \<union> {x \<in> set entries. schedule_entry_id x \<notin> consumed})"
    and "int (card (pending_items q \<union> {x \<in> set entries. schedule_entry_id x \<notin> consumed}))
           \<le> maximum_items q"
  shows "\<exists>q'. reconstruct_from entries consumed q = Inr q'"
  using assms
proof (induction entries arbitrary: q)
  case (Cons x xs)
  let ?all = "\<lambda>xs. {y \<in> set xs. schedule_entry_id y \<notin> consumed}"
  show ?case
  proof (cases "schedule_entry_id x \<in> consumed")
    case True
    then have "?all (x # xs) = ?all xs" by auto
    with Cons True show ?thesis by simp
  next
    case False
    then have all: "?all (x # xs) = insert x (?all xs)" by auto
    have uniq: "y = x" if "y \<in> pending_items q" "schedule_entry_id y = schedule_entry_id x" for y
      using that False by (intro inj_onD[OF Cons.prems(2)]) (simp_all add: all)
    have room: "int (queue_len q) < maximum_items q" if "x \<notin> pending_items q"
    proof -
      have "Suc (card (pending_items q)) = card (insert x (pending_items q))"
        using that by (simp add: pending_items_def)
      also have "\<dots> \<le> card (pending_items q \<union> ?all (x # xs))"
        unfolding all by (intro card_mono) (auto simp: pending_items_def)
      finally show ?thesis using Cons.prems(3) pending_card[OF Cons.prems(1)] by simp
    qed
    have "validate_add q x = Inr (x \<notin> pending_items q)"
      using uniq room by (subst validate_add_eq_Inr[OF Cons.prems(1)]) blast
    then obtain q1 where q1: "queue_add q x = Inr (x \<notin> pending_items q, q1)"
      by (simp add: queue_add_eq_Inr)
    have p1: "pending_items q1 = insert x (pending_items q)"
      using queue_add_pending[OF Cons.prems(1) q1] .
    have "maximum_items q1 = maximum_items q" using q1 by (auto simp: queue_add_eq_Inr)
    with Cons.IH[OF queue_add_inv[OF Cons.prems(1) q1]] Cons.prems(2,3) p1
    obtain q' where "reconstruct_from xs consumed q1 = Inr q'" unfolding all by auto
    with False q1 show ?thesis by simp
  qed
qed simp

lemma reconstruct_eq_Inr:
  assumes "reconstruct entries consumed m = Inr q"
  shows "queue_inv q" "maximum_items q = m"
    "pending_items q = {x \<in> set entries. schedule_entry_id x \<notin> consumed}"
proof -
  obtain q0 where q0: "PersistentPriorityQueue_init m = Inr q0"
      "reconstruct_from entries consumed q0 = Inr q"
    using assms by (auto simp: reconstruct_def result_simps)
  note r = reconstruct_from_ok[OF q0(2) queue_init_inv[OF q0(1)]]
  show "queue_inv q" by (rule r)
  show "maximum_items q = m" using r(2) init_maximum[OF q0(1)] by simp
  show "pending_items q = {x \<in> set entries. schedule_entry_id x \<notin> consumed}"
    using r(3) init_pending[OF q0(1)] by simp
qed

section \<open>Properties\<close>

text \<open>C8. The queue refines a set: after any successful sequence of insertions, consumptions and
  peeks on a fresh queue, the canonical snapshot lists exactly the items the sequence leaves
  pending, each identity once, in the order of the stable key, and never more than the configured
  maximum.\<close>

theorem queue_refines_set:
  assumes "PersistentPriorityQueue_init m = Inr q0" and "queue_run q0 ops = Inr q"
  shows "set (queue_snapshot q) = pending_spec {} ops \<and>
    sorted (map order_key (queue_snapshot q)) \<and>
    distinct (map schedule_entry_id (queue_snapshot q)) \<and>
    int (length (queue_snapshot q)) \<le> m"
proof -
  have inv0: "queue_inv q0" using assms(1) by (rule queue_init_inv)
  have inv: "queue_inv q" using inv0 assms(2) by (rule queue_run_inv)
  have "pending_items q = pending_spec {} ops"
    using queue_run_pending[OF inv0 assms(2)] init_pending[OF assms(1)] by simp
  moreover have "int (length (queue_snapshot q)) \<le> m"
    using queue_invD(3)[OF inv] queue_run_maximum[OF assms(2)] init_maximum[OF assms(1)]
    by (simp add: queue_snapshot_def)
  ultimately show ?thesis using snapshot_distinct[OF inv] by simp
qed

text \<open>The heap with lazy deletion agrees with the sorted view: as long as no identity is ever
  added with two different meanings, \<open>peek\<close> returns the first item of the snapshot, or nothing
  when nothing is pending.\<close>

lemma peek_is_snapshot_head:
  assumes "PersistentPriorityQueue_init m = Inr q0" and "queue_run q0 ops = Inr q"
    and "inj_on schedule_entry_id (added ops)"
  shows "fst (peek q) = (case queue_snapshot q of [] \<Rightarrow> None | x # _ \<Rightarrow> Some x)"
proof -
  have inv0: "queue_inv q0" using assms(1) by (rule queue_init_inv)
  have "heap_from (added ops) q0"
    using assms(1) by (clarsimp simp: PersistentPriorityQueue_init_def result_simps heap_from_def)
  then have "heap_from (added ops) q"
    using heap_from_run[OF inv0 _ assms(2)] by blast
  with queue_run_inv[OF inv0 assms(2)] assms(3) show ?thesis by (intro peek_head)
qed

text \<open>Rebuilding the queue from persisted rows returns a queue exactly when the unconsumed rows
  give each identity one meaning and fit the bound, and the result lists exactly the unconsumed
  rows in the order of the stable key, whatever the order the rows come in.\<close>

lemma reconstruct_exact:
  assumes "1 \<le> m" and "m \<le> MAX_SCHEDULE_ITEMS"
  shows "(returns (reconstruct entries consumed m) \<longleftrightarrow>
      inj_on schedule_entry_id {x \<in> set entries. schedule_entry_id x \<notin> consumed} \<and>
      int (card {x \<in> set entries. schedule_entry_id x \<notin> consumed}) \<le> m) \<and>
    (\<forall>q. reconstruct entries consumed m = Inr q \<longrightarrow>
      set (queue_snapshot q) = {x \<in> set entries. schedule_entry_id x \<notin> consumed} \<and>
      sorted (map order_key (queue_snapshot q)) \<and>
      (\<forall>entries' q'. set entries' = set entries \<and> reconstruct entries' consumed m = Inr q' \<longrightarrow>
         queue_snapshot q' = queue_snapshot q))"
proof -
  let ?P = "{x \<in> set entries. schedule_entry_id x \<notin> consumed}"
  obtain q0 where q0: "PersistentPriorityQueue_init m = Inr q0"
    using assms by (simp add: PersistentPriorityQueue_init_def)
  have "returns (reconstruct entries consumed m)" if "inj_on schedule_entry_id ?P" "int (card ?P) \<le> m"
    using reconstruct_from_returns[OF queue_init_inv[OF q0], of entries consumed] that
      init_pending[OF q0] init_maximum[OF q0] q0
    by (auto simp: reconstruct_def returns_iff)
  moreover have only: "inj_on schedule_entry_id ?P \<and> int (card ?P) \<le> m"
    if "reconstruct entries consumed m = Inr q" for q
  proof -
    note r = reconstruct_eq_Inr[OF that]
    have "inj_on schedule_entry_id ?P"
      using snapshot_distinct[OF r(1)] snapshot_set[of q] r(3) by (simp add: distinct_map)
    moreover have "int (card ?P) \<le> m"
      using pending_card[OF r(1)] queue_invD(3)[OF r(1)] r(2,3) by (simp add: queue_len_def)
    ultimately show ?thesis by blast
  qed
  moreover have "queue_snapshot q' = queue_snapshot q"
    if "reconstruct entries consumed m = Inr q" "set entries' = set entries"
      "reconstruct entries' consumed m = Inr q'" for q q' entries'
    using reconstruct_eq_Inr[OF that(1)] reconstruct_eq_Inr[OF that(3)] that(2)
    by (intro pq.ordered_determined) simp_all
  moreover have "set (queue_snapshot q) = ?P" if "reconstruct entries consumed m = Inr q" for q
    using reconstruct_eq_Inr(3)[OF that] by simp
  ultimately show ?thesis using snapshot_sorted unfolding returns_iff by blast
qed

text \<open>The due view is a prefix of the stable order: \<open>due\<close> returns the items that lead the
  snapshot while their logical due time has come, cut at the limit, and leaves the queue alone; it
  refuses a limit outside the queue's bound and a time outside signed 64 bits.\<close>

lemma due_is_snapshot_prefix:
  "due q now limit = Inr xs \<longleftrightarrow>
     SIGNED_INT64_MIN \<le> now \<and> now \<le> SIGNED_INT64_MAX \<and> 1 \<le> limit \<and> limit \<le> maximum_items q \<and>
     xs = take (nat limit) (takeWhile (\<lambda>x. logical_due_ns x \<le> now) (queue_snapshot q))"
  using filter_due_takeWhile[OF snapshot_sorted[of q], of now]
  by (auto simp: due_def result_simps queue_snapshot_def)

text \<open>Concrete items for the witnesses: the same identity with an early and a late due time, and
  another item due between them.\<close>

definition item_early :: ScheduleItem where
  "item_early = \<lparr>schedule_entry_id = ''a'', entity_id = ''e'', logical_due_ns = 1, scenario_ordinal = 0,
     step_ordinal = 0, delivery_ordinal = 0, attempt_ordinal = 1, deterministic_tie_key = ''k''\<rparr>"

definition item_late :: ScheduleItem where
  "item_late = item_early\<lparr>logical_due_ns := 100\<rparr>"

definition item_between :: ScheduleItem where
  "item_between = item_early\<lparr>schedule_entry_id := ''b'', logical_due_ns := 50\<rparr>"

text \<open>Where an identity is reused with a different due time after its consumption, the heap still
  holds its old key, and \<open>peek\<close> returns the item that is due last while another pending item is due
  first: it then differs from the snapshot and from \<open>due\<close>.\<close>

lemma peek_after_reuse_differs:
  "\<exists>q0 q. PersistentPriorityQueue_init 10 = Inr q0 \<and>
     queue_run q0 [Add item_early, Consume ''a'', Add item_late, Add item_between] = Inr q \<and>
     fst (peek q) = Some item_late \<and> queue_snapshot q = [item_between, item_late]"
proof -
  let ?q0 = "projr (PersistentPriorityQueue_init 10)"
  let ?run = "queue_run ?q0 [Add item_early, Consume ''a'', Add item_late, Add item_between]"
  have "\<not> isl (PersistentPriorityQueue_init 10)" by code_simp
  moreover have "\<not> isl ?run" by code_simp
  moreover have "fst (peek (projr ?run)) = Some item_late" by code_simp
  moreover have "queue_snapshot (projr ?run) = [item_between, item_late]" by code_simp
  ultimately show ?thesis by (metis sum.collapse(2))
qed

theorem queue_refines_set_witness:
  "\<exists>q0 q. PersistentPriorityQueue_init 10 = Inr q0 \<and> queue_run q0 [Add item_late, Add item_between] = Inr q \<and>
     set (queue_snapshot q) = {item_late, item_between}"
proof -
  let ?q0 = "projr (PersistentPriorityQueue_init 10)"
  let ?run = "queue_run ?q0 [Add item_late, Add item_between]"
  have "\<not> isl (PersistentPriorityQueue_init 10)" "\<not> isl ?run" by code_simp+
  then have r: "PersistentPriorityQueue_init 10 = Inr ?q0" "?run = Inr (projr ?run)"
    by (metis sum.collapse(2))+
  from queue_refines_set[OF r] have "set (queue_snapshot (projr ?run)) = {item_late, item_between}"
    by (simp add: insert_commute)
  with r show ?thesis by blast
qed

lemma peek_is_snapshot_head_witness:
  "\<exists>q0 q. PersistentPriorityQueue_init 10 = Inr q0 \<and> queue_run q0 [Add item_late, Add item_between] = Inr q \<and>
     fst (peek q) = Some item_between"
proof -
  let ?q0 = "projr (PersistentPriorityQueue_init 10)"
  let ?ops = "[Add item_late, Add item_between]"
  let ?run = "queue_run ?q0 ?ops"
  have "\<not> isl (PersistentPriorityQueue_init 10)" "\<not> isl ?run" by code_simp+
  then have r: "PersistentPriorityQueue_init 10 = Inr ?q0" "?run = Inr (projr ?run)"
    by (metis sum.collapse(2))+
  have "schedule_entry_id item_late \<noteq> schedule_entry_id item_between" by code_simp
  then have inj: "inj_on schedule_entry_id (added ?ops)"
    by (auto simp only: inj_on_def added_def list.set queue_op.inject insert_iff empty_iff mem_Collect_eq)
  have "queue_snapshot (projr ?run) = [item_between, item_late]" by code_simp
  with peek_is_snapshot_head[OF r inj] have "fst (peek (projr ?run)) = Some item_between" by simp
  with r show ?thesis by blast
qed

lemma reconstruct_exact_witness:
  "(1::int) \<le> 10 \<and> 10 \<le> MAX_SCHEDULE_ITEMS \<and>
   \<not> returns (reconstruct [item_early, item_late] {} 10) \<and>
   returns (reconstruct [item_early, item_late, item_between] {''a''} 10)"
proof -
  have m: "(1::int) \<le> 10" "(10::int) \<le> MAX_SCHEDULE_ITEMS" by (simp_all add: MAX_SCHEDULE_ITEMS_def)
  have "schedule_entry_id item_early = schedule_entry_id item_late" "item_early \<noteq> item_late"
    by code_simp+
  then have "\<not> inj_on schedule_entry_id {x \<in> set [item_early, item_late]. schedule_entry_id x \<notin> {}}"
    by (simp only: inj_on_def list.set) blast
  with reconstruct_exact[OF m, of "[item_early, item_late]" "{}"]
  have no: "\<not> returns (reconstruct [item_early, item_late] {} 10)" by blast
  have "{x \<in> set [item_early, item_late, item_between]. schedule_entry_id x \<notin> {''a''}} = {item_between}"
    by (auto simp: item_early_def item_late_def item_between_def)
  with reconstruct_exact[OF m, of "[item_early, item_late, item_between]" "{''a''}"]
  have "returns (reconstruct [item_early, item_late, item_between] {''a''} 10)" by simp
  with m no show ?thesis by blast
qed

end
