(* ===== verification/Schedule_Engine.thy ===== *)
theory Schedule_Engine
  imports Schedule_Queue
begin

text \<open>
  The journal-first leasing engine of \<open>scheduler/engine.py\<close>. \<open>PersistentScheduler\<close> is the record of
  the queue, the clock and the owner epoch; the journal behind the protocol \<open>ScheduleJournal\<close> is a
  parameter: a state \<open>'j\<close> with the operations \<open>persist\<close> and \<open>consume\<close>, each of which returns its
  outcome (an exception or a boolean) and the journal after it. What the protocol documents of
  them is the predicate \<open>journal_contract\<close>.

  Both methods are coroutines with one suspension point, the awaited journal call. Each is
  therefore split at that point, the sequential operation is the composition, and the inductive
  relation \<open>engine_step\<close> interleaves the pieces of any number of concurrent calls, with failing and
  cancelled calls and with a restart that rebuilds the queue from the journal.
\<close>

section \<open>The scheduler and its coroutines\<close>

record WorkLease =
  lease_item :: ScheduleItem
  lease_owner_epoch :: int
  leased_at :: TransitionTimestamp

record PersistentScheduler =
  ps_queue :: PersistentPriorityQueue
  ps_clock :: RuntimeClock
  ps_owner_epoch :: int

type_synonym 'j persist_op = "'j \<Rightarrow> ScheduleItem \<Rightarrow> bool result \<times> 'j"
type_synonym 'j consume_op =
  "'j \<Rightarrow> ScheduleItem \<Rightarrow> int \<Rightarrow> TransitionTimestamp \<Rightarrow> bool result \<times> 'j"

definition PersistentScheduler_init ::
    "PersistentPriorityQueue \<Rightarrow> RuntimeClock \<Rightarrow> int \<Rightarrow> PersistentScheduler result" where
  "PersistentScheduler_init queue clock owner_epoch =
     and_then (raise_unless (0 \<le> owner_epoch \<and> owner_epoch \<le> 2 ^ 63 - 1)
         (ValueError ''owner_epoch must be a nonnegative signed-int64 integer'')) (\<lambda>_.
       Inr \<lparr>ps_queue = queue, ps_clock = clock, ps_owner_epoch = owner_epoch\<rparr>)"

text \<open>\<open>schedule\<close> after the awaited \<open>persist\<close>: add the item and compare the three answers.\<close>

definition schedule_finish ::
    "PersistentPriorityQueue \<Rightarrow> ScheduleItem \<Rightarrow> bool \<Rightarrow> bool \<Rightarrow> bool result \<times> PersistentPriorityQueue"
where
  "schedule_finish q item should_add committed = (case queue_add q item of
       Inl e \<Rightarrow> (Inl e, q)
     | Inr (was_added, q') \<Rightarrow>
         (if was_added \<noteq> should_add \<or> committed \<noteq> was_added
          then if \<not> committed \<and> \<not> was_added then Inr False
               else Inl (RuntimeError ''journal and scheduler pending projections disagree'')
          else Inr was_added, q'))"

definition schedule ::
    "'j persist_op \<Rightarrow> PersistentScheduler \<Rightarrow> 'j \<Rightarrow> ScheduleItem \<Rightarrow>
      bool result \<times> PersistentScheduler \<times> 'j" where
  "schedule persist s j item = (case validate_add (ps_queue s) item of
       Inl e \<Rightarrow> (Inl e, s, j)
     | Inr should_add \<Rightarrow> (case persist j item of
           (Inl e, j') \<Rightarrow> (Inl e, s, j')
         | (Inr committed, j') \<Rightarrow>
             (case schedule_finish (ps_queue s) item should_add committed of
                (r, q') \<Rightarrow> (r, s\<lparr>ps_queue := q'\<rparr>, j'))))"

text \<open>\<open>lease_due\<close> before its loop: the arguments are checked and the due items are read.\<close>

definition lease_candidates ::
    "PersistentScheduler \<Rightarrow> int \<Rightarrow> int \<Rightarrow> ScheduleItem list result" where
  "lease_candidates s logical_now_ns limit =
     and_then (validate_logical_nanoseconds logical_now_ns) (\<lambda>logical_now.
     and_then (raise_unless (limit = 1)
         (ValueError ''lease_due commits exactly one physical work lease'')) (\<lambda>_.
       due (ps_queue s) logical_now limit))"

text \<open>The loop body after the awaited \<open>consume\<close>: the item leaves the projection, and becomes a
  lease when this call consumed it.\<close>

definition lease_finish ::
    "PersistentPriorityQueue \<Rightarrow> int \<Rightarrow> ScheduleItem \<Rightarrow> TransitionTimestamp \<Rightarrow> bool \<Rightarrow>
      WorkLease list result \<times> PersistentPriorityQueue" where
  "lease_finish q owner item timestamp consumed = (case mark_consumed q (schedule_entry_id item) of
       Inl e \<Rightarrow> (Inl e, q)
     | Inr (_, q') \<Rightarrow>
         (Inr (if consumed then [\<lparr>lease_item = item, lease_owner_epoch = owner, leased_at = timestamp\<rparr>]
               else []), q'))"

text \<open>\<open>wall i\<close> and \<open>reading i\<close> are what the clock's callables return in iteration \<open>i\<close>.\<close>

fun lease_loop ::
    "'j consume_op \<Rightarrow> (nat \<Rightarrow> datetime) \<Rightarrow> (nat \<Rightarrow> int) \<Rightarrow> nat \<Rightarrow> PersistentScheduler \<Rightarrow> 'j \<Rightarrow>
      ScheduleItem list \<Rightarrow> WorkLease list \<Rightarrow> WorkLease list result \<times> PersistentScheduler \<times> 'j" where
  "lease_loop consume wall reading i s j [] leases = (Inr leases, s, j)"
| "lease_loop consume wall reading i s j (item # items) leases =
     (case transition_timestamp (ps_clock s) (wall i) (reading i) of
        Inl e \<Rightarrow> (Inl e, s, j)
      | Inr (timestamp, clock) \<Rightarrow>
         (case consume j item (ps_owner_epoch s) timestamp of
            (Inl e, j') \<Rightarrow> (Inl e, s\<lparr>ps_clock := clock\<rparr>, j')
          | (Inr consumed, j') \<Rightarrow>
             (case lease_finish (ps_queue s) (ps_owner_epoch s) item timestamp consumed of
                (Inl e, q') \<Rightarrow> (Inl e, s\<lparr>ps_clock := clock, ps_queue := q'\<rparr>, j')
              | (Inr new, q') \<Rightarrow>
                  lease_loop consume wall reading (Suc i) (s\<lparr>ps_clock := clock, ps_queue := q'\<rparr>) j'
                    items (leases @ new))))"

definition lease_due ::
    "'j consume_op \<Rightarrow> (nat \<Rightarrow> datetime) \<Rightarrow> (nat \<Rightarrow> int) \<Rightarrow> PersistentScheduler \<Rightarrow> 'j \<Rightarrow> int \<Rightarrow> int \<Rightarrow>
      WorkLease list result \<times> PersistentScheduler \<times> 'j" where
  "lease_due consume wall reading s j logical_now_ns limit =
     (case lease_candidates s logical_now_ns limit of
        Inl e \<Rightarrow> (Inl e, s, j)
      | Inr items \<Rightarrow> lease_loop consume wall reading 0 s j items [])"

definition scheduler_pending :: "PersistentScheduler \<Rightarrow> ScheduleItem list" where
  "scheduler_pending s = queue_snapshot (ps_queue s)"

section \<open>What the journal promises\<close>

text \<open>\<open>persisted j\<close> are the items stored in the journal and \<open>consumed j\<close> the identities claimed
  there. \<open>persist\<close> commits one item and answers \<open>True\<close> only for a new one; \<open>consume\<close> commits one claim
  and answers \<open>True\<close> only for the first. A call that raises may have committed or not. Nothing is
  ever removed.\<close>

definition journal_contract ::
    "'j persist_op \<Rightarrow> 'j consume_op \<Rightarrow> ('j \<Rightarrow> ScheduleItem set) \<Rightarrow> ('j \<Rightarrow> string set) \<Rightarrow> bool" where
  "journal_contract persist consume persisted consumed \<longleftrightarrow>
     (\<forall>j x. persisted j \<subseteq> persisted (snd (persist j x)) \<and> consumed j \<subseteq> consumed (snd (persist j x))) \<and>
     (\<forall>j x b j'. persist j x = (Inr b, j') \<longrightarrow> x \<in> persisted j' \<and> (b \<longleftrightarrow> x \<notin> persisted j)) \<and>
     (\<forall>j x e t. persisted j \<subseteq> persisted (snd (consume j x e t)) \<and>
        consumed j \<subseteq> consumed (snd (consume j x e t))) \<and>
     (\<forall>j x e t b j'. consume j x e t = (Inr b, j') \<longrightarrow>
        schedule_entry_id x \<in> consumed j' \<and> (b \<longleftrightarrow> schedule_entry_id x \<notin> consumed j))"

section \<open>Concurrent calls\<close>

text \<open>A suspended call: before its journal operation commits, and between the commit and the
  moment the call resumes with the answer.\<close>

datatype task =
    Persisting ScheduleItem bool
  | Adding ScheduleItem bool bool
  | Consuming ScheduleItem TransitionTimestamp
  | Marking ScheduleItem TransitionTimestamp bool

record 'j engine =
  eng_scheduler :: PersistentScheduler
  eng_journal :: 'j
  eng_tasks :: "task list"
  eng_leases :: "WorkLease list"

inductive engine_step ::
    "'j persist_op \<Rightarrow> 'j consume_op \<Rightarrow> ('j \<Rightarrow> ScheduleItem set) \<Rightarrow> ('j \<Rightarrow> string set) \<Rightarrow>
      'j engine \<Rightarrow> 'j engine \<Rightarrow> bool"
  for persist :: "'j persist_op" and consume :: "'j consume_op"
    and persisted :: "'j \<Rightarrow> ScheduleItem set" and consumed :: "'j \<Rightarrow> string set" where
  call_schedule:
    "validate_add (ps_queue (eng_scheduler w)) item = Inr b \<Longrightarrow>
     engine_step persist consume persisted consumed w (w\<lparr>eng_tasks := Persisting item b # eng_tasks w\<rparr>)"
| commit_persist:
    "eng_tasks w = xs @ Persisting item b # ys \<Longrightarrow> persist (eng_journal w) item = (Inr c, j') \<Longrightarrow>
     engine_step persist consume persisted consumed w
       (w\<lparr>eng_journal := j', eng_tasks := xs @ Adding item b c # ys\<rparr>)"
| fail_persist:
    "eng_tasks w = xs @ Persisting item b # ys \<Longrightarrow> persist (eng_journal w) item = (Inl e, j') \<Longrightarrow>
     engine_step persist consume persisted consumed w (w\<lparr>eng_journal := j', eng_tasks := xs @ ys\<rparr>)"
| resume_schedule:
    "eng_tasks w = xs @ Adding item b c # ys \<Longrightarrow>
     schedule_finish (ps_queue (eng_scheduler w)) item b c = (r, q') \<Longrightarrow>
     engine_step persist consume persisted consumed w
       (w\<lparr>eng_scheduler := (eng_scheduler w)\<lparr>ps_queue := q'\<rparr>, eng_tasks := xs @ ys\<rparr>)"
| call_lease:
    "lease_candidates (eng_scheduler w) now limit = Inr (item # items) \<Longrightarrow>
     transition_timestamp (ps_clock (eng_scheduler w)) wall reading = Inr (timestamp, clock) \<Longrightarrow>
     engine_step persist consume persisted consumed w
       (w\<lparr>eng_scheduler := (eng_scheduler w)\<lparr>ps_clock := clock\<rparr>,
          eng_tasks := Consuming item timestamp # eng_tasks w\<rparr>)"
| commit_consume:
    "eng_tasks w = xs @ Consuming item timestamp # ys \<Longrightarrow>
     consume (eng_journal w) item (ps_owner_epoch (eng_scheduler w)) timestamp = (Inr c, j') \<Longrightarrow>
     engine_step persist consume persisted consumed w
       (w\<lparr>eng_journal := j', eng_tasks := xs @ Marking item timestamp c # ys\<rparr>)"
| fail_consume:
    "eng_tasks w = xs @ Consuming item timestamp # ys \<Longrightarrow>
     consume (eng_journal w) item (ps_owner_epoch (eng_scheduler w)) timestamp = (Inl e, j') \<Longrightarrow>
     engine_step persist consume persisted consumed w (w\<lparr>eng_journal := j', eng_tasks := xs @ ys\<rparr>)"
| resume_lease:
    "eng_tasks w = xs @ Marking item timestamp c # ys \<Longrightarrow>
     lease_finish (ps_queue (eng_scheduler w)) (ps_owner_epoch (eng_scheduler w)) item timestamp c
       = (r, q') \<Longrightarrow>
     engine_step persist consume persisted consumed w
       (w\<lparr>eng_scheduler := (eng_scheduler w)\<lparr>ps_queue := q'\<rparr>, eng_tasks := xs @ ys,
          eng_leases := eng_leases w @ (case r of Inl _ \<Rightarrow> [] | Inr new \<Rightarrow> new)\<rparr>)"
| cancel_call:
    "eng_tasks w = xs @ t # ys \<Longrightarrow>
     engine_step persist consume persisted consumed w (w\<lparr>eng_tasks := xs @ ys\<rparr>)"
| restart:
    "set rows \<subseteq> persisted (eng_journal w) \<Longrightarrow>
     reconstruct rows (consumed (eng_journal w)) maximum = Inr q' \<Longrightarrow>
     PersistentScheduler_init q' clock owner = Inr s' \<Longrightarrow>
     engine_step persist consume persisted consumed w (w\<lparr>eng_scheduler := s', eng_tasks := []\<rparr>)"

definition engine_start :: "('j \<Rightarrow> ScheduleItem set) \<Rightarrow> 'j engine \<Rightarrow> bool" where
  "engine_start persisted w \<longleftrightarrow>
     queue_inv (ps_queue (eng_scheduler w)) \<and>
     pending_items (ps_queue (eng_scheduler w)) \<subseteq> persisted (eng_journal w) \<and>
     eng_tasks w = [] \<and> eng_leases w = []"

text \<open>The items whose claim is committed but whose call has not resumed.\<close>

definition claimed_items :: "task list \<Rightarrow> ScheduleItem list" where
  "claimed_items ts = concat (map (\<lambda>t. case t of Marking item _ c \<Rightarrow> if c then [item] else [] | _ \<Rightarrow> []) ts)"

definition journaled_items :: "task list \<Rightarrow> ScheduleItem set" where
  "journaled_items ts = (\<Union>t \<in> set ts. case t of Persisting _ _ \<Rightarrow> {} | Adding item _ _ \<Rightarrow> {item}
     | Consuming item _ \<Rightarrow> {item} | Marking item _ _ \<Rightarrow> {item})"

text \<open>Every identity claimed so far, by a suspended call or by a lease.\<close>

definition claim_ids :: "'j engine \<Rightarrow> string list" where
  "claim_ids w = map schedule_entry_id (claimed_items (eng_tasks w) @ map lease_item (eng_leases w))"

definition engine_inv ::
    "('j \<Rightarrow> ScheduleItem set) \<Rightarrow> ('j \<Rightarrow> string set) \<Rightarrow> 'j engine \<Rightarrow> bool" where
  "engine_inv persisted consumed w \<longleftrightarrow>
     queue_inv (ps_queue (eng_scheduler w)) \<and>
     pending_items (ps_queue (eng_scheduler w)) \<subseteq> persisted (eng_journal w) \<and>
     journaled_items (eng_tasks w) \<subseteq> persisted (eng_journal w) \<and>
     lease_item ` set (eng_leases w) \<subseteq> persisted (eng_journal w) \<and>
     distinct (claim_ids w) \<and> set (claim_ids w) \<subseteq> consumed (eng_journal w)"

section \<open>Lemmas\<close>

lemma claimed_items_simps [simp]:
  "claimed_items [] = []" "claimed_items (xs @ ys) = claimed_items xs @ claimed_items ys"
  "claimed_items (Persisting x b # ts) = claimed_items ts"
  "claimed_items (Adding x b c # ts) = claimed_items ts"
  "claimed_items (Consuming x t # ts) = claimed_items ts"
  "claimed_items (Marking x t c # ts) = (if c then [x] else []) @ claimed_items ts"
  by (simp_all add: claimed_items_def)

lemma journaled_items_simps [simp]:
  "journaled_items [] = {}" "journaled_items (xs @ ys) = journaled_items xs \<union> journaled_items ys"
  "journaled_items (Persisting x b # ts) = journaled_items ts"
  "journaled_items (Adding x b c # ts) = insert x (journaled_items ts)"
  "journaled_items (Consuming x t # ts) = insert x (journaled_items ts)"
  "journaled_items (Marking x t c # ts) = insert x (journaled_items ts)"
  by (auto simp: journaled_items_def)

lemma contract_persist:
  assumes "journal_contract persist consume persisted consumed" "persist j x = (r, j')"
  shows "persisted j \<subseteq> persisted j'" "consumed j \<subseteq> consumed j'"
    "r = Inr b \<Longrightarrow> x \<in> persisted j' \<and> (b \<longleftrightarrow> x \<notin> persisted j)"
  using assms unfolding journal_contract_def by (metis snd_conv)+

lemma contract_consume:
  assumes "journal_contract persist consume persisted consumed" "consume j x e t = (r, j')"
  shows "persisted j \<subseteq> persisted j'" "consumed j \<subseteq> consumed j'"
    "r = Inr b \<Longrightarrow> schedule_entry_id x \<in> consumed j' \<and> (b \<longleftrightarrow> schedule_entry_id x \<notin> consumed j)"
  using assms unfolding journal_contract_def by (metis snd_conv)+

lemma schedule_finish_queue:
  assumes "queue_inv q" "schedule_finish q item b c = (r, q')"
  shows "queue_inv q' \<and> pending_items q' \<subseteq> insert item (pending_items q)"
proof (cases "queue_add q item")
  case (Inl e)
  then have "q' = q" using assms(2) by (simp add: schedule_finish_def)
  then show ?thesis using assms(1) by blast
next
  case (Inr p)
  obtain a q'' where p: "p = (a, q'')" by (cases p)
  with Inr assms(2) have "q' = q''" by (simp add: schedule_finish_def)
  with Inr p pq.insert_ok[OF assms(1), of item a q''] show ?thesis by simp
qed

lemma lease_finish_queue:
  assumes "queue_inv q" "lease_finish q owner item t c = (r, q')"
  shows "queue_inv q' \<and> pending_items q' \<subseteq> pending_items q"
    and "map lease_item (case r of Inl _ \<Rightarrow> [] | Inr new \<Rightarrow> new) \<in> {[], if c then [item] else []}"
proof -
  show "queue_inv q' \<and> pending_items q' \<subseteq> pending_items q"
  proof (cases "mark_consumed q (schedule_entry_id item)")
    case (Inl e)
    then have "q' = q" using assms(2) by (simp add: lease_finish_def)
    then show ?thesis using assms(1) by blast
  next
    case (Inr p)
    obtain a q'' where p: "p = (a, q'')" by (cases p)
    with Inr assms(2) have "q' = q''" by (simp add: lease_finish_def)
    with Inr p pq.remove_ok[OF assms(1), of "schedule_entry_id item" a q''] show ?thesis by blast
  qed
  show "map lease_item (case r of Inl _ \<Rightarrow> [] | Inr new \<Rightarrow> new) \<in> {[], if c then [item] else []}"
    using assms(2) by (auto simp: lease_finish_def split: sum.splits prod.splits)
qed

lemma lease_candidates_eq_Inr:
  "lease_candidates s now limit = Inr xs \<longleftrightarrow>
     SIGNED_INT64_MIN \<le> now \<and> now \<le> SIGNED_INT64_MAX \<and> limit = 1 \<and> due (ps_queue s) now 1 = Inr xs"
  by (auto simp: lease_candidates_def result_simps)

lemma due_pending: "due q now limit = Inr xs \<Longrightarrow> set xs \<subseteq> pending_items q"
  by (auto simp: due_def result_simps pending_items_def dest: in_set_takeD)

lemma due_one: "due q now 1 = Inr xs \<Longrightarrow> length xs \<le> 1"
  by (auto simp: due_def result_simps)

lemma reconstruct_pending:
  assumes "reconstruct rows consumed maximum = Inr q"
  shows "queue_inv q" "pending_items q \<subseteq> set rows"
    "schedule_entry_id ` pending_items q \<inter> consumed = {}"
  using reconstruct_eq_Inr[OF assms] by auto

lemma distinct_claim:
  "distinct (xs @ ys) \<Longrightarrow> set (xs @ ys) \<subseteq> C \<Longrightarrow> C \<subseteq> C' \<Longrightarrow> k \<notin> C \<Longrightarrow> k \<in> C' \<Longrightarrow>
   distinct (xs @ k # ys) \<and> set (xs @ k # ys) \<subseteq> C'"
  by auto

lemma subset_step: "X \<subseteq> Y \<union> N \<Longrightarrow> Y \<subseteq> P \<Longrightarrow> P \<subseteq> P' \<Longrightarrow> N \<subseteq> P' \<Longrightarrow> X \<subseteq> P'"
  by blast

lemma engine_inv_change:
  assumes "engine_inv P C w"
    and "P (eng_journal w) \<subseteq> P (eng_journal w')" "C (eng_journal w) \<subseteq> C (eng_journal w')"
    and "queue_inv (ps_queue (eng_scheduler w'))"
    and "pending_items (ps_queue (eng_scheduler w')) \<subseteq> pending_items (ps_queue (eng_scheduler w)) \<union> N"
    and "lease_item ` set (eng_leases w') \<subseteq> lease_item ` set (eng_leases w) \<union> N"
    and "journaled_items (eng_tasks w') \<subseteq> journaled_items (eng_tasks w) \<union> N"
    and "N \<subseteq> P (eng_journal w')"
    and "distinct (claim_ids w) \<Longrightarrow> set (claim_ids w) \<subseteq> C (eng_journal w) \<Longrightarrow>
      distinct (claim_ids w') \<and> set (claim_ids w') \<subseteq> C (eng_journal w')"
  shows "engine_inv P C w'"
proof -
  have i: "pending_items (ps_queue (eng_scheduler w)) \<subseteq> P (eng_journal w)"
    "journaled_items (eng_tasks w) \<subseteq> P (eng_journal w)"
    "lease_item ` set (eng_leases w) \<subseteq> P (eng_journal w)"
    "distinct (claim_ids w)" "set (claim_ids w) \<subseteq> C (eng_journal w)"
    using assms(1) by (simp_all only: engine_inv_def)
  show ?thesis unfolding engine_inv_def
    using subset_step[OF assms(5) i(1) assms(2,8)] subset_step[OF assms(6) i(3) assms(2,8)]
      subset_step[OF assms(7) i(2) assms(2,8)] assms(4) assms(9)[OF i(4,5)] by (simp only: simp_thms)
qed

lemma engine_step_inv:
  assumes "journal_contract persist consume persisted consumed"
    and inv: "engine_inv persisted consumed w"
    and "engine_step persist consume persisted consumed w w'"
  shows "engine_inv persisted consumed w'"
proof -
  have q: "queue_inv (ps_queue (eng_scheduler w))" using inv by (simp add: engine_inv_def)
  note [simp] = claim_ids_def
  from assms(3) show ?thesis
  proof cases
    case (call_schedule item b)
    show ?thesis by (rule engine_inv_change[OF inv, where N = "{}"]) (use q in \<open>simp_all add: call_schedule(1)\<close>)
  next
    case (commit_persist xs item b ys c j')
    note j = contract_persist[OF assms(1) commit_persist(3)]
    show ?thesis
      by (rule engine_inv_change[OF inv, where N = "{item}"])
        (use q j(1,2) j(3)[OF refl] in \<open>auto simp: commit_persist(1,2)\<close>)
  next
    case (fail_persist xs item b ys e j')
    note j = contract_persist[OF assms(1) fail_persist(3)]
    show ?thesis
      by (rule engine_inv_change[OF inv, where N = "{}"])
        (use q j(1,2) in \<open>auto simp: fail_persist(1,2)\<close>)
  next
    case (resume_schedule xs item b c ys r q')
    have "item \<in> persisted (eng_journal w)" using inv by (simp add: engine_inv_def resume_schedule(2))
    then show ?thesis
      by (intro engine_inv_change[OF inv, where N = "{item}"])
        (use schedule_finish_queue[OF q resume_schedule(3)] in \<open>auto simp: resume_schedule(1,2)\<close>)
  next
    case (call_lease now limit item items wall reading timestamp clock)
    have "item \<in> pending_items (ps_queue (eng_scheduler w))"
      using call_lease(2) due_pending[of "ps_queue (eng_scheduler w)" now 1 "item # items"]
      by (simp add: lease_candidates_eq_Inr)
    then have "item \<in> persisted (eng_journal w)" using inv unfolding engine_inv_def by blast
    then show ?thesis
      by (intro engine_inv_change[OF inv, where N = "{item}"]) (use q in \<open>auto simp: call_lease(1)\<close>)
  next
    case (commit_consume xs item timestamp ys c j')
    note j = contract_consume[OF assms(1) commit_consume(3)]
    let ?rest = "map schedule_entry_id (claimed_items ys @ map lease_item (eng_leases w))"
    show ?thesis
    proof (rule engine_inv_change[OF inv, where N = "{}"], goal_cases)
      case 8
      then show ?case
        using distinct_claim[of "map schedule_entry_id (claimed_items xs)" ?rest
            "consumed (eng_journal w)" "consumed j'" "schedule_entry_id item"] j(2) j(3)[OF refl]
        by (cases c) (auto simp: commit_consume(1,2))
    qed (use q j(1,2) in \<open>auto simp: commit_consume(1,2)\<close>)
  next
    case (fail_consume xs item timestamp ys e j')
    note j = contract_consume[OF assms(1) fail_consume(3)]
    show ?thesis
      by (rule engine_inv_change[OF inv, where N = "{}"])
        (use q j(1,2) in \<open>auto simp: fail_consume(1,2)\<close>)
  next
    case (resume_lease xs item timestamp c ys r q')
    note f = lease_finish_queue[OF q resume_lease(3)]
    let ?new = "map lease_item (case r of Inl _ \<Rightarrow> [] | Inr new \<Rightarrow> new)"
    have leases: "map lease_item (eng_leases w') = map lease_item (eng_leases w) @ ?new"
      "lease_item ` set (eng_leases w') = lease_item ` set (eng_leases w) \<union> set ?new"
      using resume_lease(1) by auto
    have item: "set ?new \<subseteq> {item}" "item \<in> persisted (eng_journal w)"
      using f(2) inv by (auto simp: engine_inv_def resume_lease(2) split: if_splits)
    show ?thesis
    proof (rule engine_inv_change[OF inv, where N = "{item}"], goal_cases)
      case 8
      consider "?new = []" | "c" "?new = [item]" using f(2) by (auto split: if_splits)
      then show ?case
      proof cases
        case 1
        with 8 show ?thesis unfolding claim_ids_def leases(1) by (auto simp: resume_lease(1,2))
      next
        case 2
        with 8 show ?thesis unfolding claim_ids_def leases(1) 2(2) by (auto simp: resume_lease(1,2))
      qed
    next
      case 5
      then show ?case using item(1) unfolding leases(2) by blast
    qed (use f(1) item(2) in \<open>auto simp: resume_lease(1,2)\<close>)
  next
    case (cancel_call xs t ys)
    show ?thesis
      by (rule engine_inv_change[OF inv, where N = "{}"])
        (use q in \<open>cases t; auto simp: cancel_call split: if_splits\<close>)+
  next
    case (restart rows maximum q' clock owner s')
    note q' = reconstruct_pending[OF restart(3)]
    have "ps_queue s' = q'" using restart(4) by (auto simp: PersistentScheduler_init_def result_simps)
    then show ?thesis
      by (intro engine_inv_change[OF inv, where N = "set rows"])
        (use q' restart(2) in \<open>auto simp: restart(1)\<close>)
  qed
qed

lemma engine_start_inv: "engine_start persisted w \<Longrightarrow> engine_inv persisted consumed w"
  by (simp add: engine_start_def engine_inv_def claim_ids_def)

lemma engine_run_inv:
  assumes "(engine_step persist consume persisted consumed)\<^sup>*\<^sup>* w w'"
    and "journal_contract persist consume persisted consumed"
    and "engine_inv persisted consumed w"
  shows "engine_inv persisted consumed w'"
  using assms by (induction rule: rtranclp_induct) (blast intro: engine_step_inv)+

lemma entries_keyed:
  assumes "queue_inv q"
  shows "map snd (AList.delete k (q_entries q)) = [x \<leftarrow> map snd (q_entries q). schedule_entry_id x \<noteq> k]"
proof -
  have "[p \<leftarrow> q_entries q. k \<noteq> fst p] = [p \<leftarrow> q_entries q. schedule_entry_id (snd p) \<noteq> k]"
    using queue_invD(2)[OF assms] by (intro filter_cong) auto
  then show ?thesis by (simp add: AList.delete_eq filter_map comp_def case_prod_unfold)
qed

lemma snapshot_mark_consumed:
  assumes "queue_inv q" "mark_consumed q k = Inr (r, q')"
  shows "queue_snapshot q' = [x \<leftarrow> queue_snapshot q. schedule_entry_id x \<noteq> k]"
  using assms by (simp add: mark_consumed_eq_Inr queue_snapshot_def entries_keyed filter_sort)

section \<open>Properties\<close>

text \<open>C7. At most once, in every interleaving: whatever calls of \<open>schedule\<close> and \<open>lease_due\<close> run
  concurrently, fail or are cancelled, and however often the process restarts from the journal,
  no schedule identity is ever leased twice, every leased identity is consumed in the journal, and
  both what is leased and what is runnable was persisted before.\<close>

theorem leases_at_most_once:
  assumes "journal_contract persist consume persisted consumed"
    and "engine_start persisted w"
    and "(engine_step persist consume persisted consumed)\<^sup>*\<^sup>* w w'"
  shows "distinct (map (schedule_entry_id \<circ> lease_item) (eng_leases w')) \<and>
    schedule_entry_id ` lease_item ` set (eng_leases w') \<subseteq> consumed (eng_journal w') \<and>
    lease_item ` set (eng_leases w') \<subseteq> persisted (eng_journal w') \<and>
    set (scheduler_pending (eng_scheduler w')) \<subseteq> persisted (eng_journal w')"
  using engine_run_inv[OF assms(3,1) engine_start_inv[OF assms(2)]]
  by (auto simp: engine_inv_def scheduler_pending_def claim_ids_def comp_def)

text \<open>Persist before visible: when the arguments pass the queue's check and the journal commits,
  \<open>schedule\<close> makes the item pending and leaves it persisted; it answers \<open>False\<close> for an item that is
  already pending, \<open>True\<close> for one the journal did not know, and reports a disagreement of the
  projections exactly for an item the journal holds but the queue does not. When the queue's check
  fails, neither side changes; when the journal raises, the queue is as before.\<close>

lemma schedule_persists_first:
  assumes "journal_contract persist consume persisted consumed"
    and "queue_inv (ps_queue s)" and "pending_items (ps_queue s) \<subseteq> persisted j"
    and "schedule persist s j item = (r, s', j')"
  shows "case validate_add (ps_queue s) item of
      Inl e \<Rightarrow> r = Inl e \<and> s' = s \<and> j' = j
    | Inr b \<Rightarrow> (case persist j item of
        (Inl e, k) \<Rightarrow> r = Inl e \<and> s' = s \<and> j' = k
      | (Inr c, k) \<Rightarrow> j' = k \<and> item \<in> persisted j' \<and>
          set (scheduler_pending s') = insert item (set (scheduler_pending s)) \<and>
          r = (if item \<in> set (scheduler_pending s) then Inr False
               else if item \<in> persisted j
               then Inl (RuntimeError ''journal and scheduler pending projections disagree'')
               else Inr True))"
proof (cases "validate_add (ps_queue s) item")
  case (Inl e)
  then have "r = Inl e" "s' = s" "j' = j" using assms(4) by (simp_all add: schedule_def)
  with Inl show ?thesis by simp
next
  case (Inr b)
  show ?thesis
  proof (cases "persist j item")
    case (Pair p k)
    show ?thesis
    proof (cases p)
      case (Inl e)
      then have "r = Inl e" "s' = s" "j' = k" using assms(4) Pair
          \<open>validate_add (ps_queue s) item = Inr b\<close> by (simp_all add: schedule_def)
      with Inl Pair \<open>validate_add (ps_queue s) item = Inr b\<close> show ?thesis by simp
    next
      case p: (Inr c)
      obtain q' where add: "queue_add (ps_queue s) item = Inr (b, q')"
        using Inr by (simp add: queue_add_eq_Inr)
      note ok = pq.insert_ok[OF assms(2) add]
      have b: "b \<longleftrightarrow> item \<notin> pending_items (ps_queue s)"
        using pq.check_add_iff[OF assms(2) Inr] .
      have c: "item \<in> persisted k" "c \<longleftrightarrow> item \<notin> persisted j"
        using contract_persist(3)[OF assms(1) Pair, of c] p by simp_all
      have "s' = s\<lparr>ps_queue := q'\<rparr>" "j' = k"
        "r = (if c \<noteq> b then if \<not> c \<and> \<not> b then Inr False else Inl (RuntimeError
           ''journal and scheduler pending projections disagree'') else Inr b)"
        using assms(4) Inr Pair p add by (simp_all add: schedule_def schedule_finish_def)
      then show ?thesis using Inr Pair p ok b c assms(3) by (auto simp: scheduler_pending_def)
    qed
  qed
qed

text \<open>\<open>lease_due\<close> serves work in stable order: it claims the first due item of the canonical
  pending order and no other, returns exactly one lease for it when this call consumed it and none
  when it was consumed before, and in both cases only that item leaves the projection. With nothing
  due, or when the claim fails, no item leaves.\<close>

lemma lease_due_serves_head:
  assumes "queue_inv (ps_queue s)"
    and "SIGNED_INT64_MIN \<le> now" and "now \<le> SIGNED_INT64_MAX"
    and "list_all (\<lambda>x. bounded_token 96 (schedule_entry_id x)) (scheduler_pending s)"
    and "transition_timestamp (ps_clock s) (wall 0) (reading 0) = Inr (ts, clock)"
    and "lease_due consume wall reading s j now 1 = (r, s', j')"
  shows "case [x \<leftarrow> scheduler_pending s. logical_due_ns x \<le> now] of
      [] \<Rightarrow> r = Inr [] \<and> s' = s \<and> j' = j
    | item # _ \<Rightarrow> (case consume j item (ps_owner_epoch s) ts of
        (Inl e, k) \<Rightarrow> r = Inl e \<and> j' = k \<and> scheduler_pending s' = scheduler_pending s
      | (Inr c, k) \<Rightarrow> j' = k \<and>
          r = Inr (if c then [\<lparr>lease_item = item, lease_owner_epoch = ps_owner_epoch s, leased_at = ts\<rparr>]
                   else []) \<and>
          scheduler_pending s' = removeAll item (scheduler_pending s))"
proof -
  let ?due = "[x \<leftarrow> scheduler_pending s. logical_due_ns x \<le> now]"
  have cand: "lease_candidates s now 1 = Inr (take 1 ?due)"
    using assms(2,3) queue_invD(4)[OF assms(1)]
    by (simp add: lease_candidates_def due_def scheduler_pending_def queue_snapshot_def
        validate_logical_nanoseconds_def signed_int64_def)
  show ?thesis
  proof (cases ?due)
    case Nil
    then have "r = Inr []" "s' = s" "j' = j" using assms(6) cand by (simp_all add: lease_due_def)
    with Nil show ?thesis by simp
  next
    case (Cons item items)
    then have "item \<in> set ?due" by simp
    then have pend: "item \<in> set (scheduler_pending s)" by simp
    show ?thesis
    proof (cases "consume j item (ps_owner_epoch s) ts")
      case (Pair p k)
      show ?thesis
      proof (cases p)
        case (Inl e)
        then have "r = Inl e" "s' = s\<lparr>ps_clock := clock\<rparr>" "j' = k"
          using assms(5,6) cand Cons Pair by (simp_all add: lease_due_def)
        with Inl Cons Pair show ?thesis by (simp add: scheduler_pending_def)
      next
        case (Inr c)
        obtain m q' where mark: "mark_consumed (ps_queue s) (schedule_entry_id item) = Inr (m, q')"
          using assms(4) pend by (simp add: mark_consumed_eq_Inr list_all_iff)
        have "queue_snapshot q' = [x \<leftarrow> scheduler_pending s. schedule_entry_id x \<noteq> schedule_entry_id item]"
          using snapshot_mark_consumed[OF assms(1) mark] by (simp add: scheduler_pending_def)
        also have "\<dots> = removeAll item (scheduler_pending s)"
          unfolding removeAll_filter_not_eq using pend pq.pending_unique[OF assms(1)]
          by (intro filter_cong) (auto simp: scheduler_pending_def)
        finally have snap: "queue_snapshot q' = removeAll item (scheduler_pending s)" .
        have "r = Inr (if c then [\<lparr>lease_item = item, lease_owner_epoch = ps_owner_epoch s,
            leased_at = ts\<rparr>] else [])" "s' = s\<lparr>ps_clock := clock, ps_queue := q'\<rparr>" "j' = k"
          using assms(5,6) cand Cons Pair Inr mark by (auto simp: lease_due_def lease_finish_def)
        with Inr Cons Pair snap show ?thesis by (simp add: scheduler_pending_def)
      qed
    qed
  qed
qed

section \<open>A concrete journal and scheduler\<close>

text \<open>A journal that keeps its rows and claimed identities in memory, and a scheduler rebuilt from
  two of its rows.\<close>

type_synonym memory_journal = "ScheduleItem list \<times> string list"

definition memory_persist :: "memory_journal persist_op" where
  "memory_persist j x = (if x \<in> set (fst j) then (Inr False, j) else (Inr True, (fst j @ [x], snd j)))"

definition memory_consume :: "memory_journal consume_op" where
  "memory_consume j x owner timestamp =
     (Inr (schedule_entry_id x \<notin> set (snd j)), (fst j, schedule_entry_id x # snd j))"

definition memory_rows :: "memory_journal \<Rightarrow> ScheduleItem set" where
  "memory_rows j = set (fst j)"

definition memory_claims :: "memory_journal \<Rightarrow> string set" where
  "memory_claims j = set (snd j)"

lemmas memory_defs = memory_persist_def memory_consume_def memory_rows_def memory_claims_def

lemma memory_contract: "journal_contract memory_persist memory_consume memory_rows memory_claims"
  unfolding journal_contract_def by (intro conjI allI impI) (auto simp: memory_defs split: if_splits)

definition example_queue :: PersistentPriorityQueue where
  "example_queue = projr (reconstruct [item_early, item_between] {} 10)"

definition example_time :: datetime where
  "example_time = \<lparr>instant = 0, utcoffset = Some 0\<rparr>"

definition example_clock :: RuntimeClock where
  "example_clock = \<lparr>clock_policy = \<lparr>policy_mode = REAL, scale_numerator = 1, scale_denominator = 1,
     minimum_physical_wait_ns = 0\<rparr>, origin_monotonic_ns = 0, last_monotonic_ns = 0\<rparr>"

definition example_stamp :: TransitionTimestamp where
  "example_stamp = \<lparr>wall_time = example_time, monotonic_elapsed = Some 5\<rparr>"

definition example_scheduler :: PersistentScheduler where
  "example_scheduler = \<lparr>ps_queue = example_queue, ps_clock = example_clock, ps_owner_epoch = 1\<rparr>"

definition example_journal :: memory_journal where
  "example_journal = ([item_early, item_between], [])"

lemma example_reconstruct: "reconstruct [item_early, item_between] {} 10 = Inr example_queue"
proof -
  have "\<not> isl (reconstruct [item_early, item_between] {} 10)" by code_simp
  then show ?thesis unfolding example_queue_def by (metis sum.collapse(2))
qed

lemma example_queue_inv: "queue_inv (ps_queue example_scheduler)"
  using reconstruct_eq_Inr(1)[OF example_reconstruct] by (simp add: example_scheduler_def)

lemma example_queue_pending: "pending_items (ps_queue example_scheduler) = {item_early, item_between}"
  using reconstruct_eq_Inr(3)[OF example_reconstruct] by (auto simp: example_scheduler_def)

lemma example_pending: "scheduler_pending example_scheduler = [item_early, item_between]"
  by code_simp

lemma example_rows: "pending_items (ps_queue example_scheduler) \<subseteq> memory_rows example_journal"
  by (simp add: example_queue_pending memory_rows_def example_journal_def)

lemma example_timestamp:
  "transition_timestamp example_clock example_time 5
     = Inr (example_stamp, example_clock\<lparr>last_monotonic_ns := 5\<rparr>)"
  by code_simp

text \<open>One lease of the early item, step by step.\<close>

definition example_engine :: "memory_journal engine" where
  "example_engine = \<lparr>eng_scheduler = example_scheduler, eng_journal = example_journal,
     eng_tasks = [], eng_leases = []\<rparr>"

lemma example_run:
  "\<exists>w. (engine_step memory_persist memory_consume memory_rows memory_claims)\<^sup>*\<^sup>* example_engine w \<and>
     map lease_item (eng_leases w) = [item_early]"
proof -
  let ?step = "engine_step memory_persist memory_consume memory_rows memory_claims"
  let ?s = "example_scheduler\<lparr>ps_clock := example_clock\<lparr>last_monotonic_ns := 5\<rparr>\<rparr>"
  let ?w1 = "example_engine\<lparr>eng_scheduler := ?s, eng_tasks := [Consuming item_early example_stamp]\<rparr>"
  let ?w2 = "?w1\<lparr>eng_journal := (fst example_journal, [''a'']),
    eng_tasks := [Marking item_early example_stamp True]\<rparr>"
  have cand: "lease_candidates example_scheduler 1 1 = Inr [item_early]" by code_simp
  have s1: "?step example_engine ?w1"
    using engine_step.call_lease[of example_engine 1 1 item_early "[]" example_time 5 example_stamp]
      example_timestamp cand by (simp add: example_engine_def example_scheduler_def)
  have s2: "?step ?w1 ?w2"
    using engine_step.commit_consume[of ?w1 "[]" item_early example_stamp "[]" memory_consume True]
    by (simp add: memory_consume_def example_engine_def example_journal_def item_early_def)
  have "bounded_token 96 (schedule_entry_id item_early)" by code_simp
  then obtain q' where fin: "lease_finish (ps_queue ?s) 1 item_early example_stamp True =
      (Inr [\<lparr>lease_item = item_early, lease_owner_epoch = 1, leased_at = example_stamp\<rparr>], q')"
    by (simp add: lease_finish_def mark_consumed_def queue_token_def)
  let ?l = "\<lparr>lease_item = item_early, lease_owner_epoch = 1, leased_at = example_stamp\<rparr>"
  let ?w3 = "?w2\<lparr>eng_scheduler := ?s\<lparr>ps_queue := q'\<rparr>, eng_tasks := [], eng_leases := [?l]\<rparr>"
  have s3: "?step ?w2 ?w3"
    using engine_step.resume_lease[of ?w2 "[]" item_early example_stamp True "[]" "Inr [?l]" q']
      fin by (simp add: example_engine_def example_scheduler_def)
  have "?step\<^sup>*\<^sup>* example_engine ?w3"
    by (rule rtranclp_trans[OF rtranclp_trans[OF r_into_rtranclp[of ?step, OF s1]
        r_into_rtranclp[of ?step, OF s2]] r_into_rtranclp[of ?step, OF s3]])
  then show ?thesis by (rule exI[of _ ?w3, OF conjI]) simp
qed

theorem leases_at_most_once_witness:
  "\<exists>w. (engine_step memory_persist memory_consume memory_rows memory_claims)\<^sup>*\<^sup>* example_engine w \<and>
     map lease_item (eng_leases w) = [item_early] \<and>
     schedule_entry_id ` lease_item ` set (eng_leases w) \<subseteq> memory_claims (eng_journal w)"
proof -
  have "engine_start memory_rows example_engine"
    using example_queue_inv example_rows by (simp add: engine_start_def example_engine_def)
  with leases_at_most_once[OF memory_contract] example_run show ?thesis by meson
qed

lemma schedule_persists_first_witness:
  "fst (schedule memory_persist example_scheduler ([item_early, item_between], []) item_early) = Inr False"
proof -
  have v: "validate_add (ps_queue example_scheduler) item_early = Inr False" by code_simp
  obtain r s' j' where r: "schedule memory_persist example_scheduler example_journal item_early = (r, s', j')"
    by (metis prod_cases3)
  from schedule_persists_first[OF memory_contract example_queue_inv example_rows r] v
  show ?thesis using r by (simp add: memory_persist_def example_journal_def example_pending)
qed

lemma lease_due_serves_head_witness:
  "fst (lease_due memory_consume (\<lambda>_. example_time) (\<lambda>_. 5) example_scheduler example_journal 60 1) =
     Inr [\<lparr>lease_item = item_early, lease_owner_epoch = 1, leased_at = example_stamp\<rparr>]"
proof -
  let ?run = "lease_due memory_consume (\<lambda>_. example_time) (\<lambda>_. 5) example_scheduler example_journal 60 1"
  obtain r s' j' where r: "?run = (r, s', j')" by (metis prod_cases3)
  have tok: "list_all (\<lambda>x. bounded_token 96 (schedule_entry_id x)) (scheduler_pending example_scheduler)"
    unfolding example_pending by code_simp
  have clock: "ps_clock example_scheduler = example_clock" "ps_owner_epoch example_scheduler = 1"
    by (simp_all add: example_scheduler_def)
  have due: "logical_due_ns item_early \<le> 60" by code_simp
  from lease_due_serves_head[OF example_queue_inv _ _ tok _ r] example_timestamp due show ?thesis
    using r by (simp add: clock example_pending memory_consume_def example_journal_def
        SIGNED_INT64_MIN_def SIGNED_INT64_MAX_def)
qed

end
