(* ===== verification/Byte_Text.thy ===== *)
theory Byte_Text
  imports Conformance_Prelude "HOL-Library.Word"
begin

text \<open>
  Python's \<open>bytes\<close>, its big-endian integer conversions and its UTF-8 encoder, which the generator
  and the identifiers rely on. A byte is an \<open>8 word\<close>. Unicode text is a list of code points; ASCII
  literals of the code are injected with \<open>text_of\<close>. A Python string holds code points below
  0x110000, and its UTF-8 encoder refuses the surrogates.
\<close>

type_synonym byte = "8 word"
type_synonym bytes = "byte list"
type_synonym ustring = "nat list"

section \<open>Integers as big-endian bytes\<close>

definition from_bytes :: "bytes \<Rightarrow> nat" where
  "from_bytes bs = foldl (\<lambda>acc b. acc * 256 + unat b) 0 bs"

fun to_bytes :: "nat \<Rightarrow> nat \<Rightarrow> bytes" where
  "to_bytes 0 n = []"
| "to_bytes (Suc k) n = to_bytes k (n div 256) @ [word_of_nat (n mod 256)]"

lemma unat_byte [simp]: "n < 256 \<Longrightarrow> unat (word_of_nat n :: byte) = n"
  by (simp add: unat_of_nat take_bit_eq_mod)

lemma byte_bound [simp]: "unat (b :: byte) < 256"
proof -
  have "unat b < 2 ^ LENGTH(8)" by (rule unsigned_less)
  then show ?thesis by simp
qed

lemma length_to_bytes [simp]: "length (to_bytes k n) = k"
  by (induction k n rule: to_bytes.induct) auto

lemma from_bytes_Nil [simp]: "from_bytes [] = 0"
  by (simp add: from_bytes_def)

lemma from_bytes_snoc [simp]: "from_bytes (bs @ [b]) = from_bytes bs * 256 + unat b"
  by (simp add: from_bytes_def)

lemma from_to_bytes: "n < 256 ^ k \<Longrightarrow> from_bytes (to_bytes k n) = n"
  by (induction k n rule: to_bytes.induct)
    (auto simp: less_mult_imp_div_less mult.commute)

lemma to_bytes_inj: "to_bytes k m = to_bytes k n \<Longrightarrow> m < 256 ^ k \<Longrightarrow> n < 256 ^ k \<Longrightarrow> m = n"
  by (metis from_to_bytes)

lemma from_bytes_bound: "from_bytes bs < 256 ^ length bs"
proof (induction bs rule: rev_induct)
  case (snoc b bs)
  then have "from_bytes bs * 256 + 256 \<le> 256 ^ length bs * 256" by simp
  moreover have "unat b < 256" by simp
  ultimately show ?case by (simp del: byte_bound)
qed simp

lemma to_from_bytes: "to_bytes (length bs) (from_bytes bs) = bs"
  by (induction bs rule: rev_induct) auto

section \<open>UTF-8\<close>

definition scalar_value :: "nat \<Rightarrow> bool" where
  "scalar_value c = (c < 0xD800 \<or> (0xE000 \<le> c \<and> c < 0x110000))"

definition utf8_char :: "nat \<Rightarrow> nat list" where
  "utf8_char c =
     (if c < 0x80 then [c]
      else if c < 0x800 then [0xC0 + c div 0x40, 0x80 + c mod 0x40]
      else if c < 0x10000 then [0xE0 + c div 0x1000, 0x80 + c div 0x40 mod 0x40, 0x80 + c mod 0x40]
      else [0xF0 + c div 0x40000, 0x80 + c div 0x1000 mod 0x40, 0x80 + c div 0x40 mod 0x40,
            0x80 + c mod 0x40])"

definition utf8_encode :: "ustring \<Rightarrow> bytes result" where
  "utf8_encode s =
     (if list_all scalar_value s then Inr (map word_of_nat (concat (map utf8_char s)))
      else Inl UnicodeEncodeError)"

definition text_of :: "string \<Rightarrow> ustring" where
  "text_of s = map of_char s"

lemma text_of_inj: "text_of s = text_of t \<longleftrightarrow> s = t"
  unfolding text_of_def by (rule inj_map_eq_map) (rule injI, simp)

lemma utf8_char_bytes: "scalar_value c \<Longrightarrow> list_all (\<lambda>b. b < 256) (utf8_char c)"
  by (auto simp: scalar_value_def utf8_char_def less_mult_imp_div_less)

lemma utf8_char_nonempty [simp]: "utf8_char c \<noteq> []"
  by (simp add: utf8_char_def)

text \<open>A reader of one code point, inverse to the encoder on scalar values.\<close>

definition utf8_read :: "nat list \<Rightarrow> nat \<times> nat list" where
  "utf8_read bs =
     (if hd bs < 0x80 then (hd bs, drop 1 bs)
      else if hd bs < 0xE0 then ((hd bs - 0xC0) * 0x40 + (bs ! 1 - 0x80), drop 2 bs)
      else if hd bs < 0xF0
      then ((hd bs - 0xE0) * 0x1000 + (bs ! 1 - 0x80) * 0x40 + (bs ! 2 - 0x80), drop 3 bs)
      else ((hd bs - 0xF0) * 0x40000 + (bs ! 1 - 0x80) * 0x1000 + (bs ! 2 - 0x80) * 0x40
             + (bs ! 3 - 0x80), drop 4 bs))"

lemma split_mod: "c div (k * m) * (k * m) + (c div k mod m * k + c mod k) = c" for c k m :: nat
  using mod_mult2_eq[of c k m] div_mult_mod_eq[of c "k * m"] by (simp add: mult.commute)

lemma split_64: "c div 0x1000 * 0x1000 + c div 0x40 mod 0x40 * 0x40 + c mod 0x40 = c" for c :: nat
  using split_mod[of c "0x40" "0x40"] by (simp only: add.assoc mult_numeral_1 numeral_times_numeral num_double)
    (simp add: mult.commute)

lemma split_64_64:
  "c div 0x40000 * 0x40000 + c div 0x1000 mod 0x40 * 0x1000 + c div 0x40 mod 0x40 * 0x40
     + c mod 0x40 = c" for c :: nat
proof -
  have "(0x1000::nat) * 0x40 = 0x40000" by simp
  then have "c div 0x40000 * 0x40000 + (c div 0x1000 mod 0x40 * 0x1000 + c mod 0x1000) = c"
    using split_mod[of c "0x1000" "0x40"] by (simp only:)
  moreover have "c mod 0x1000 = c div 0x40 mod 0x40 * 0x40 + c mod 0x40"
    using mod_mult2_eq[of c "0x40" "0x40"] by (simp add: mult.commute)
  ultimately show ?thesis by (simp only: add.assoc)
qed

lemma utf8_read_char: "scalar_value c \<Longrightarrow> utf8_read (utf8_char c @ rest) = (c, rest)"
proof -
  assume c: "scalar_value c"
  have lead: "c < 0x800 \<Longrightarrow> c div 0x40 < 0x20" "c < 0x10000 \<Longrightarrow> c div 0x1000 < 0x10"
    by (simp_all add: less_mult_imp_div_less)
  consider "c < 0x80" | "0x80 \<le> c" "c < 0x800" | "0x800 \<le> c" "c < 0x10000" | "0x10000 \<le> c"
    by linarith
  then show ?thesis
  proof cases
    case 2
    then show ?thesis using lead(1) by (simp add: utf8_read_def utf8_char_def)
  next
    case 3
    then show ?thesis using lead(2) split_64[of c]
      by (simp add: utf8_read_def utf8_char_def)
  next
    case 4
    then show ?thesis using split_64_64[of c]
      by (simp add: utf8_read_def utf8_char_def)
  qed (simp add: utf8_read_def utf8_char_def)
qed

lemma utf8_char_cancel:
  "scalar_value c \<Longrightarrow> scalar_value d \<Longrightarrow> utf8_char c @ r = utf8_char d @ s \<Longrightarrow> c = d \<and> r = s"
  by (metis utf8_read_char prod.inject)

lemma utf8_concat_inj:
  "list_all scalar_value s \<Longrightarrow> list_all scalar_value t \<Longrightarrow>
   concat (map utf8_char s) = concat (map utf8_char t) \<Longrightarrow> s = t"
proof (induction s arbitrary: t)
  case Nil
  then show ?case by (cases t) simp_all
next
  case (Cons c s)
  have "concat (map utf8_char t) \<noteq> []" using Cons.prems(3)[symmetric] by simp
  then obtain d t' where t: "t = d # t'" by (cases t) simp_all
  have ok: "scalar_value c" "scalar_value d" "list_all scalar_value s" "list_all scalar_value t'"
    using Cons.prems(1,2) t by simp_all
  have "utf8_char c @ concat (map utf8_char s) = utf8_char d @ concat (map utf8_char t')"
    using Cons.prems(3) t by simp
  from utf8_char_cancel[OF ok(1,2) this] Cons.IH[OF ok(3,4)] show ?case unfolding t by blast
qed

lemma bytes_map_inj:
  assumes "list_all (\<lambda>b. b < 256) xs" "list_all (\<lambda>b. b < 256) ys"
    and "(map word_of_nat xs :: bytes) = map word_of_nat ys"
  shows "xs = ys"
proof (rule map_inj_on[OF assms(3)])
  show "inj_on (word_of_nat :: nat \<Rightarrow> byte) (set xs \<union> set ys)"
    using assms(1,2) by (intro inj_onI) (metis Un_iff list_all_iff unat_byte)
qed

lemma list_all_concat_map:
  "list_all P (concat (map f xs)) \<longleftrightarrow> list_all (\<lambda>x. list_all P (f x)) xs"
  by (induction xs) auto

lemma utf8_encode_inj:
  assumes "utf8_encode s = Inr b" "utf8_encode t = Inr b"
  shows "s = t"
proof -
  have st: "list_all scalar_value s" "list_all scalar_value t"
    and eq: "(map word_of_nat (concat (map utf8_char s)) :: bytes) = map word_of_nat (concat (map utf8_char t))"
    using assms by (auto simp: utf8_encode_def split: if_splits)
  have "concat (map utf8_char s) = concat (map utf8_char t)"
    by (rule bytes_map_inj[OF _ _ eq])
      (use st utf8_char_bytes in \<open>auto simp: list_all_concat_map list_all_iff\<close>)
  with st show ?thesis by (rule utf8_concat_inj)
qed

end
