(* ===== verification/Sha256.thy ===== *)
theory Sha256
  imports Byte_Text
begin

unbundle bit_operations_syntax

text \<open>
  SHA-256 (FIPS 180-4) and HMAC (RFC 2104), the two functions of the Python standard library that
  the deterministic generator and the hashing helpers call (\<open>hashlib.sha256\<close>, \<open>hmac.digest\<close>).
  They are defined on 32-bit words and are executable; that a digest has 32 bytes is a theorem and
  not an assumption of the theories that use it.
\<close>

type_synonym word32 = "32 word"
type_synonym sha_state = "word32 list"

text \<open>The round constants and the initial state, in decimal.\<close>

definition sha_K :: "word32 list" where
  "sha_K =
    [1116352408, 1899447441, 3049323471, 3921009573, 961987163, 1508970993, 2453635748,
     2870763221, 3624381080, 310598401, 607225278, 1426881987, 1925078388, 2162078206,
     2614888103, 3248222580, 3835390401, 4022224774, 264347078, 604807628, 770255983,
     1249150122, 1555081692, 1996064986, 2554220882, 2821834349, 2952996808, 3210313671,
     3336571891, 3584528711, 113926993, 338241895, 666307205, 773529912, 1294757372,
     1396182291, 1695183700, 1986661051, 2177026350, 2456956037, 2730485921, 2820302411,
     3259730800, 3345764771, 3516065817, 3600352804, 4094571909, 275423344, 430227734,
     506948616, 659060556, 883997877, 958139571, 1322822218, 1537002063, 1747873779,
     1955562222, 2024104815, 2227730452, 2361852424, 2428436474, 2756734187, 3204031479,
     3329325298]"

definition sha_H0 :: sha_state where
  "sha_H0 = [1779033703, 3144134277, 1013904242, 2773480762, 1359893119, 2600822924, 528734635,
     1541459225]"

definition sha_pad :: "bytes \<Rightarrow> bytes" where
  "sha_pad m = m @ [0x80] @ replicate ((119 - length m mod 64) mod 64) 0 @ to_bytes 8 (8 * length m)"

definition word_at :: "bytes \<Rightarrow> nat \<Rightarrow> word32" where
  "word_at block i = foldl (\<lambda>acc b. push_bit 8 acc OR ucast b) 0 (take 4 (drop (4 * i) block))"

definition rotr :: "nat \<Rightarrow> word32 \<Rightarrow> word32" where
  "rotr n x = drop_bit n x OR push_bit (32 - n) x"

definition small_sigma0 :: "word32 \<Rightarrow> word32" where
  "small_sigma0 x = rotr 7 x XOR rotr 18 x XOR drop_bit 3 x"

definition small_sigma1 :: "word32 \<Rightarrow> word32" where
  "small_sigma1 x = rotr 17 x XOR rotr 19 x XOR drop_bit 10 x"

definition big_sigma0 :: "word32 \<Rightarrow> word32" where
  "big_sigma0 x = rotr 2 x XOR rotr 13 x XOR rotr 22 x"

definition big_sigma1 :: "word32 \<Rightarrow> word32" where
  "big_sigma1 x = rotr 6 x XOR rotr 11 x XOR rotr 25 x"

definition extend_schedule :: "word32 list \<Rightarrow> word32 list" where
  "extend_schedule w = (let i = length w in
     w @ [w ! (i - 16) + small_sigma0 (w ! (i - 15)) + w ! (i - 7) + small_sigma1 (w ! (i - 2))])"

definition message_schedule :: "bytes \<Rightarrow> word32 list" where
  "message_schedule block = (extend_schedule ^^ 48) (map (word_at block) [0..<16])"

definition sha_round :: "sha_state \<Rightarrow> word32 \<times> word32 \<Rightarrow> sha_state" where
  "sha_round st kw = (case st of
      [a, b, c, d, e, f, g, h] \<Rightarrow>
        let t1 = h + big_sigma1 e + ((e AND f) XOR (NOT e AND g)) + fst kw + snd kw;
            t2 = big_sigma0 a + ((a AND b) XOR (a AND c) XOR (b AND c))
        in [t1 + t2, a, b, c, d + t1, e, f, g]
    | _ \<Rightarrow> st)"

definition sha_block :: "sha_state \<Rightarrow> bytes \<Rightarrow> sha_state" where
  "sha_block st block =
     map2 (+) st (foldl sha_round st (zip sha_K (message_schedule block)))"

fun sha_blocks :: "nat \<Rightarrow> sha_state \<Rightarrow> bytes \<Rightarrow> sha_state" where
  "sha_blocks 0 st bs = st"
| "sha_blocks (Suc n) st bs = sha_blocks n (sha_block st (take 64 bs)) (drop 64 bs)"

definition word_bytes :: "word32 \<Rightarrow> bytes" where
  "word_bytes w = map (\<lambda>n. ucast (drop_bit n w)) [24, 16, 8, 0]"

definition sha256 :: "bytes \<Rightarrow> bytes" where
  "sha256 m = (let p = sha_pad m in
     concat (map word_bytes (sha_blocks (length p div 64) sha_H0 p)))"

definition hmac_key :: "bytes \<Rightarrow> bytes" where
  "hmac_key k = (let k' = (if length k > 64 then sha256 k else k) in k' @ replicate (64 - length k') 0)"

definition hmac_sha256 :: "bytes \<Rightarrow> bytes \<Rightarrow> bytes" where
  "hmac_sha256 k m =
     sha256 (map (\<lambda>b. b XOR 0x5C) (hmac_key k) @ sha256 (map (\<lambda>b. b XOR 0x36) (hmac_key k) @ m))"

definition hex_char :: "nat \<Rightarrow> char" where
  "hex_char d = ''0123456789abcdef'' ! d"

text \<open>\<open>hexdigest()\<close>: two lowercase hexadecimal characters per byte.\<close>

definition hexdigest :: "bytes \<Rightarrow> string" where
  "hexdigest bs = concat (map (\<lambda>b. [hex_char (unat b div 16), hex_char (unat b mod 16)]) bs)"

section \<open>Lengths\<close>

lemma sha_round_length: "length st = 8 \<Longrightarrow> length (sha_round st kw) = 8"
  by (auto simp: sha_round_def Let_def numeral_eq_Suc length_Suc_conv)

lemma foldl_round_length: "length st = 8 \<Longrightarrow> length (foldl sha_round st kws) = 8"
  by (induction kws arbitrary: st) (simp_all add: sha_round_length)

lemma sha_block_length: "length st = 8 \<Longrightarrow> length (sha_block st b) = 8"
  by (simp add: sha_block_def foldl_round_length)

lemma sha_blocks_length: "length st = 8 \<Longrightarrow> length (sha_blocks n st bs) = 8"
  by (induction n st bs rule: sha_blocks.induct) (simp_all add: sha_block_length)

lemma length_concat_const: "(\<And>x. length (f x) = k) \<Longrightarrow> length (concat (map f xs)) = length xs * k"
  by (induction xs) simp_all

lemma sha256_length [simp]: "length (sha256 m) = 32"
proof -
  have "length sha_H0 = 8" by (simp add: sha_H0_def)
  then show ?thesis
    by (simp add: sha256_def Let_def length_concat_const[where k = 4] word_bytes_def sha_blocks_length)
qed

lemma hmac_sha256_length [simp]: "length (hmac_sha256 k m) = 32"
  by (simp add: hmac_sha256_def)

lemma hexdigest_length [simp]: "length (hexdigest bs) = 2 * length bs"
  by (simp add: hexdigest_def length_concat_const[where k = 2])

lemma sha_pad_blocks: "length (sha_pad m) mod 64 = 0"
proof -
  define r where "r = length m mod 64"
  have "(r + 9 + (119 - r) mod 64) mod 64 = 0"
  proof (cases "r < 56")
    case True
    then have "(119 - r) mod 64 = 55 - r" by (simp add: le_mod_geq)
    with True show ?thesis by simp
  next
    case False
    moreover have "r < 64" by (simp add: r_def)
    ultimately have "(119 - r) mod 64 = 119 - r" by simp
    with \<open>r < 64\<close> show ?thesis by simp
  qed
  moreover have "length (sha_pad m) = length m + (9 + (119 - r) mod 64)"
    by (simp add: sha_pad_def r_def)
  ultimately show ?thesis by (metis add.assoc mod_add_left_eq r_def)
qed

end
