(* ===== verification/Generator.thy ===== *)
theory Generator
  imports Sha256
begin

text \<open>
  The deterministic generator of \<open>determinism/generator.py\<close>: length-prefixed contexts, the
  HMAC-SHA256 counter stream \<open>_block\<close>, byte draws, rejection sampling of bounded integers and the
  draws built on it. A generator is its 32-byte normalized seed. Python's unbounded integers are
  \<open>int\<close>, or \<open>nat\<close> after the code has checked that they are nonnegative. The rejection loop has no
  bound of its own: it ends because the 64-bit block counter does, which is its termination proof.
\<close>

definition MESSAGE_DOMAIN_SEPARATOR :: bytes where
  "MESSAGE_DOMAIN_SEPARATOR = map of_char ''wrch-prng-v1'' @ [0]"

definition SEED_FINGERPRINT_DOMAIN_SEPARATOR :: bytes where
  "SEED_FINGERPRINT_DOMAIN_SEPARATOR = map of_char ''seed-fingerprint-v1'' @ [0]"

definition UUID_ENTROPY_CONTEXT_ROOT :: ustring where
  "UUID_ENTROPY_CONTEXT_ROOT = text_of ''uuid-entropy-v1''"

definition ULID_ENTROPY_CONTEXT_ROOT :: ustring where
  "ULID_ENTROPY_CONTEXT_ROOT = text_of ''ulid-entropy-v1''"

definition CHOICE_CONTEXT_ROOT :: ustring where
  "CHOICE_CONTEXT_ROOT = text_of ''choice-index-v1''"

definition INITIAL_COUNTER :: nat where "INITIAL_COUNTER = 0"
definition DIGEST_SIZE :: nat where "DIGEST_SIZE = 32"
definition INT64_MAX :: int where "INT64_MAX = 2 ^ 63 - 1"
definition UINT32_MAX :: nat where "UINT32_MAX = 2 ^ 32 - 1"
definition UINT64_MAX :: nat where "UINT64_MAX = 2 ^ 64 - 1"

section \<open>Seeds\<close>

record ContextGenerator =
  normalized_seed_hash :: bytes

definition normalize_text_seed :: "ustring \<Rightarrow> bytes result" where
  "normalize_text_seed seed = and_then (utf8_encode seed) (\<lambda>b. Inr (sha256 b))"

definition validate_normalized_seed_hash :: "bytes \<Rightarrow> bytes result" where
  "validate_normalized_seed_hash h =
     and_then (raise_unless (length h = DIGEST_SIZE)
         (ValueError ''normalized seed hash must be exactly 32 bytes'')) (\<lambda>_. Inr h)"

definition seed_fingerprint :: "bytes \<Rightarrow> string result" where
  "seed_fingerprint h =
     and_then (validate_normalized_seed_hash h) (\<lambda>normalized.
       Inr (hexdigest (sha256 (SEED_FINGERPRINT_DOMAIN_SEPARATOR @ normalized))))"

definition ContextGenerator_init :: "bytes \<Rightarrow> ContextGenerator result" where
  "ContextGenerator_init h =
     and_then (validate_normalized_seed_hash h) (\<lambda>_. Inr \<lparr>normalized_seed_hash = h\<rparr>)"

definition from_text_seed :: "ustring \<Rightarrow> ContextGenerator result" where
  "from_text_seed seed = and_then (normalize_text_seed seed) ContextGenerator_init"

definition from_normalized_seed_hash :: "bytes \<Rightarrow> ContextGenerator result" where
  "from_normalized_seed_hash h = and_then (validate_normalized_seed_hash h) ContextGenerator_init"

section \<open>Contexts\<close>

definition validate_context :: "ustring list \<Rightarrow> ustring list result" where
  "validate_context context =
     and_then (raise_unless (context \<noteq> []) (ValueError ''context path must not be empty'')) (\<lambda>_.
     for_each (\<lambda>component.
       and_then (raise_unless (component \<noteq> []) (ValueError ''context components must not be empty''))
         (\<lambda>_. Inr component)) context)"

definition encode_component :: "ustring \<Rightarrow> bytes result" where
  "encode_component component =
     and_then (utf8_encode component) (\<lambda>component_bytes.
     and_then (raise_unless (length component_bytes \<le> UINT32_MAX)
         (ValueError ''context component exceeds uint32 byte length'')) (\<lambda>_.
       Inr (to_bytes 4 (length component_bytes) @ component_bytes)))"

definition encode_context :: "ustring list \<Rightarrow> bytes result" where
  "encode_context context =
     and_then (validate_context context) (\<lambda>components.
     and_then (for_each encode_component components) (\<lambda>parts. Inr (concat parts)))"

section \<open>The block stream\<close>

definition block_message :: "bytes \<Rightarrow> nat \<Rightarrow> bytes" where
  "block_message encoded_context counter =
     MESSAGE_DOMAIN_SEPARATOR @ encoded_context @ to_bytes 8 counter"

definition gen_block :: "ContextGenerator \<Rightarrow> bytes \<Rightarrow> nat \<Rightarrow> bytes result" where
  "gen_block g encoded_context counter =
     (if counter < INITIAL_COUNTER \<or> counter > UINT64_MAX
      then Inl (OverflowError ''counter exceeds uint64'')
      else Inr (hmac_sha256 (normalized_seed_hash g) (block_message encoded_context counter)))"

definition blocks :: "ContextGenerator \<Rightarrow> bytes \<Rightarrow> nat \<Rightarrow> nat \<Rightarrow> bytes result" where
  "blocks g encoded_context first_counter block_count =
     and_then (for_each (gen_block g encoded_context) [first_counter..<first_counter + block_count])
       (\<lambda>bs. Inr (concat bs))"

definition nonnegative_integer :: "int \<Rightarrow> string \<Rightarrow> nat result" where
  "nonnegative_integer v name =
     and_then (raise_unless (0 \<le> v) (ValueError (name @ '' must be nonnegative''))) (\<lambda>_. Inr (nat v))"

definition draw_bytes :: "ContextGenerator \<Rightarrow> ustring list \<Rightarrow> int \<Rightarrow> bytes result" where
  "draw_bytes g context len =
     and_then (nonnegative_integer len ''length'') (\<lambda>requested_length.
     and_then (encode_context context) (\<lambda>encoded_context.
       let block_count = (requested_length + DIGEST_SIZE - 1) div DIGEST_SIZE
       in if block_count > UINT64_MAX - INITIAL_COUNTER + 1
          then Inl (OverflowError ''requested length exceeds the uint64 counter space'')
          else if requested_length = 0 then Inr []
          else and_then (blocks g encoded_context INITIAL_COUNTER block_count)
                 (\<lambda>output. Inr (take requested_length output))))"

definition stream_slice :: "ContextGenerator \<Rightarrow> bytes \<Rightarrow> nat \<Rightarrow> nat \<Rightarrow> bytes result" where
  "stream_slice g encoded_context offset len =
     (let first_block = offset div DIGEST_SIZE;
          last_offset = offset + len;
          block_count = (last_offset + DIGEST_SIZE - 1) div DIGEST_SIZE - first_block;
          first_counter = INITIAL_COUNTER + first_block
      in if first_counter > UINT64_MAX \<or> block_count > UINT64_MAX - first_counter + 1
         then Inl (OverflowError ''rejection sampling exhausted the uint64 counter space'')
         else and_then (blocks g encoded_context first_counter block_count) (\<lambda>stream.
                Inr (take len (drop (offset mod DIGEST_SIZE) stream))))"

section \<open>Bounded integers\<close>

text \<open>\<open>int.bit_length\<close> of a nonnegative integer.\<close>

fun bit_length :: "nat \<Rightarrow> nat" where
  "bit_length n = (if n = 0 then 0 else Suc (bit_length (n div 2)))"

declare bit_length.simps [simp del]

definition sample_width :: "nat \<Rightarrow> nat" where
  "sample_width span = max 1 ((bit_length (span - 1) + 7) div 8)"

definition rejection_limit :: "nat \<Rightarrow> nat" where
  "rejection_limit span =
     (let sample_space = 2 ^ (sample_width span * 8) in sample_space - sample_space mod span)"

lemma stream_slice_offset: "stream_slice g e offset len = Inr bs \<Longrightarrow> offset < 32 * 2 ^ 64"
proof -
  assume "stream_slice g e offset len = Inr bs"
  then have "offset div 32 \<le> UINT64_MAX"
    by (simp add: stream_slice_def Let_def DIGEST_SIZE_def INITIAL_COUNTER_def split: if_splits)
  then have "offset div 32 < 2 ^ 64" by (simp add: UINT64_MAX_def)
  then show "offset < 32 * 2 ^ 64" by (simp add: div_less_iff_less_mult)
qed

lemma sample_width_pos: "1 \<le> sample_width span"
  by (simp add: sample_width_def)

text \<open>The rejection loop, from \<open>offset\<close>. A step past the counter space raises, so that the loop
  ends after at most \<open>32 * 2 ^ 64\<close> bytes.\<close>

function sample_loop :: "ContextGenerator \<Rightarrow> bytes \<Rightarrow> nat \<Rightarrow> nat \<Rightarrow> nat result" where
  "sample_loop g encoded_context span offset =
     (let width = sample_width span in
      case stream_slice g encoded_context offset width of
        Inl e \<Rightarrow> Inl e
      | Inr sample \<Rightarrow>
          let candidate = from_bytes sample
          in if candidate < rejection_limit span then Inr candidate
             else sample_loop g encoded_context span (offset + width))"
  by pat_completeness auto

termination
proof (relation "measure (\<lambda>(g, e, span, offset). 32 * 2 ^ 64 - offset)", goal_cases)
  case 1
  then show ?case by simp
next
  case (2 g e span offset width sample candidate)
  then have "offset < 32 * 2 ^ 64" by (metis stream_slice_offset)
  moreover have "1 \<le> width" using 2(1) sample_width_pos by simp
  ultimately show ?case by simp
qed

declare sample_loop.simps [simp del]

definition bounded_int :: "ContextGenerator \<Rightarrow> ustring list \<Rightarrow> int \<Rightarrow> int \<Rightarrow> int result" where
  "bounded_int g context lower upper =
     and_then (raise_unless (lower < upper) (ValueError ''bounded range must satisfy lower < upper'')) (\<lambda>_.
     and_then (encode_context context) (\<lambda>encoded_context.
       let span = nat (upper - lower) in
       and_then (sample_loop g encoded_context span 0) (\<lambda>candidate.
         Inr (lower + int (candidate mod span)))))"

definition choice_index :: "ContextGenerator \<Rightarrow> ustring list \<Rightarrow> int \<Rightarrow> int result" where
  "choice_index g context option_count =
     and_then (nonnegative_integer option_count ''option_count'') (\<lambda>count.
     and_then (raise_unless (count \<noteq> 0) (ValueError ''option_count must be greater than zero'')) (\<lambda>_.
     and_then (validate_context context) (\<lambda>components.
       bounded_int g (CHOICE_CONTEXT_ROOT # components) 0 (int count))))"

definition gen_choice :: "ContextGenerator \<Rightarrow> ustring list \<Rightarrow> 'a list \<Rightarrow> 'a result" where
  "gen_choice g context options =
     and_then (raise_unless (options \<noteq> []) (ValueError ''options must not be empty'')) (\<lambda>_.
     and_then (choice_index g context (int (length options))) (\<lambda>i. Inr (options ! nat i)))"

definition uuid_entropy :: "ContextGenerator \<Rightarrow> ustring list \<Rightarrow> bytes result" where
  "uuid_entropy g context =
     and_then (validate_context context) (\<lambda>components.
       draw_bytes g (UUID_ENTROPY_CONTEXT_ROOT # components) 16)"

definition ulid_entropy :: "ContextGenerator \<Rightarrow> ustring list \<Rightarrow> bytes result" where
  "ulid_entropy g context =
     and_then (validate_context context) (\<lambda>components.
       draw_bytes g (ULID_ENTROPY_CONTEXT_ROOT # components) 10)"

definition nonempty_text :: "ustring \<Rightarrow> string \<Rightarrow> ustring result" where
  "nonempty_text v name =
     and_then (raise_unless (v \<noteq> []) (ValueError (name @ '' must not be empty''))) (\<lambda>_. Inr v)"

definition signed_retry_jitter ::
    "ContextGenerator \<Rightarrow> ustring \<Rightarrow> ustring \<Rightarrow> int \<Rightarrow> ustring \<Rightarrow> int \<Rightarrow> int result" where
  "signed_retry_jitter g scenario_id planned_delivery_id attempt_ordinal jitter_policy_version
       magnitude_bound =
     and_then (nonempty_text scenario_id ''scenario_id'') (\<lambda>scenario.
     and_then (nonempty_text planned_delivery_id ''planned_delivery_id'') (\<lambda>delivery.
     and_then (nonempty_text jitter_policy_version ''jitter_policy_version'') (\<lambda>policy.
     and_then (nonnegative_integer attempt_ordinal ''attempt_ordinal'') (\<lambda>ordinal.
     and_then (raise_unless (ordinal \<le> UINT64_MAX) (OverflowError ''attempt_ordinal exceeds uint64'')) (\<lambda>_.
     and_then (nonnegative_integer magnitude_bound ''magnitude_bound'') (\<lambda>bound.
     and_then (raise_unless (int bound \<le> INT64_MAX)
         (OverflowError ''magnitude_bound exceeds signed int64 nanoseconds'')) (\<lambda>_.
       bounded_int g [text_of ''retry-jitter'', scenario, delivery, text_of (nat_str ordinal), policy]
         (- int bound) (int bound + 1))))))))"

section \<open>Contexts are encoded injectively\<close>

lemma validate_context_eq_Inr:
  "validate_context c = Inr d \<longleftrightarrow> c \<noteq> [] \<and> [] \<notin> set c \<and> d = c"
proof -
  have "for_each (\<lambda>x. and_then (raise_unless (x \<noteq> []) e) (\<lambda>_. Inr x)) c = Inr d
      \<longleftrightarrow> [] \<notin> set c \<and> d = c" for e
    by (induction c arbitrary: d) (auto simp: result_simps)
  then show ?thesis by (auto simp: validate_context_def result_simps)
qed

lemma encode_component_eq_Inr:
  "encode_component c = Inr p \<longleftrightarrow>
     (\<exists>b. utf8_encode c = Inr b \<and> length b \<le> UINT32_MAX \<and> p = to_bytes 4 (length b) @ b)"
  by (auto simp: encode_component_def result_simps)

lemma encode_component_cancel:
  assumes "encode_component c = Inr p" "encode_component d = Inr p'" "p @ r = p' @ r'"
  shows "c = d \<and> r = r'"
proof -
  obtain b where b: "utf8_encode c = Inr b" "length b \<le> UINT32_MAX" "p = to_bytes 4 (length b) @ b"
    using assms(1) by (auto simp: encode_component_eq_Inr)
  obtain b' where b': "utf8_encode d = Inr b'" "length b' \<le> UINT32_MAX" "p' = to_bytes 4 (length b') @ b'"
    using assms(2) by (auto simp: encode_component_eq_Inr)
  have "to_bytes 4 (length b) @ (b @ r) = to_bytes 4 (length b') @ (b' @ r')"
    using assms(3) b(3) b'(3) by simp
  then have eq: "to_bytes 4 (length b) = to_bytes 4 (length b')" and br: "b @ r = b' @ r'"
    using append_eq_append_conv[of "to_bytes 4 (length b)" "to_bytes 4 (length b')" "b @ r" "b' @ r'"]
    by (simp_all only: length_to_bytes simp_thms)
  have "length b < 256 ^ 4" "length b' < 256 ^ 4" using b(2) b'(2) by (simp_all add: UINT32_MAX_def)
  with eq have "length b = length b'" by (rule to_bytes_inj)
  with br have "b = b'" "r = r'" by simp_all
  with b(1) b'(1) show ?thesis using utf8_encode_inj by blast
qed

lemma encode_component_nonempty: "encode_component c = Inr p \<Longrightarrow> p \<noteq> []"
proof -
  assume "encode_component c = Inr p"
  then have "4 \<le> length p" by (clarsimp simp: encode_component_eq_Inr)
  then show "p \<noteq> []" by auto
qed

lemma encode_parts_inj:
  assumes "list_all2 (\<lambda>c p. encode_component c = Inr p) cs ps"
    and "list_all2 (\<lambda>c p. encode_component c = Inr p) ds qs" and "concat ps = concat qs"
  shows "cs = ds"
  using assms
proof (induction cs ps arbitrary: ds qs rule: list_all2_induct)
  case Nil
  show ?case
  proof (cases ds)
    case (Cons d ds')
    with Nil(1) obtain q qs' where "qs = q # qs'" "encode_component d = Inr q"
      by (auto simp: list_all2_Cons1)
    then have "concat qs \<noteq> []" using encode_component_nonempty by simp
    with Nil(2) show ?thesis by simp
  qed simp
next
  case (Cons c cs p ps)
  have "p \<noteq> []" using Cons(1) by (rule encode_component_nonempty)
  with Cons.prems obtain d ds' q qs' where ds: "ds = d # ds'" "qs = q # qs'"
    by (cases ds) (auto simp: list_all2_Cons1)
  have "p @ concat ps = q @ concat qs'" using Cons.prems(2) ds by simp
  from encode_component_cancel[OF Cons(1) _ this, of d] Cons.prems(1) ds
  have "c = d" "concat ps = concat qs'" by simp_all
  with Cons.IH[of ds' qs'] Cons.prems(1) ds show ?case by simp
qed

lemma encode_context_eq_Inr:
  "encode_context c = Inr e \<longleftrightarrow> c \<noteq> [] \<and> [] \<notin> set c \<and>
     (\<exists>ps. list_all2 (\<lambda>c p. encode_component c = Inr p) c ps \<and> e = concat ps)"
  by (auto simp: encode_context_def result_simps validate_context_eq_Inr for_each_eq_Inr)

lemma encode_context_inj: "encode_context c = Inr e \<Longrightarrow> encode_context d = Inr e \<Longrightarrow> c = d"
  by (auto simp: encode_context_eq_Inr dest: encode_parts_inj)

section \<open>Draws are slices of one stream per context\<close>

definition stream_block :: "ContextGenerator \<Rightarrow> bytes \<Rightarrow> nat \<Rightarrow> bytes" where
  "stream_block g e i = hmac_sha256 (normalized_seed_hash g) (block_message e i)"

definition keystream :: "ContextGenerator \<Rightarrow> bytes \<Rightarrow> nat \<Rightarrow> bytes" where
  "keystream g e n = concat (map (stream_block g e) [0..<n])"

lemma keystream_length [simp]: "length (keystream g e n) = 32 * n"
  by (simp add: keystream_def stream_block_def length_concat_const[where k = 32])

lemma keystream_split:
  "m \<le> n \<Longrightarrow> keystream g e n = keystream g e m @ concat (map (stream_block g e) [m..<n])"
  unfolding keystream_def by (metis concat_append le_add_diff_inverse map_append upt_add_eq_append zero_le)

lemma keystream_take:
  "k \<le> 32 * m \<Longrightarrow> m \<le> n \<Longrightarrow> take k (keystream g e n) = take k (keystream g e m)"
  by (simp add: keystream_split[of m n])

lemma blocks_eq:
  "first + count \<le> 2 ^ 64 \<Longrightarrow>
   blocks g e first count = Inr (concat (map (stream_block g e) [first..<first + count]))"
proof -
  assume b: "first + count \<le> 2 ^ 64"
  have "for_each (gen_block g e) is = Inr (map (stream_block g e) is)"
    if "\<forall>i \<in> set is. i \<le> UINT64_MAX" for "is"
    using that by (induction "is") (auto simp: gen_block_def stream_block_def INITIAL_COUNTER_def)
  moreover have "\<forall>i \<in> set [first..<first + count]. i \<le> UINT64_MAX"
    using b by (auto simp: UINT64_MAX_def)
  ultimately show ?thesis by (simp add: blocks_def)
qed

lemma nonnegative_integer_eq_Inr [simp]:
  "nonnegative_integer v name = Inr n \<longleftrightarrow> 0 \<le> v \<and> n = nat v"
  by (auto simp: nonnegative_integer_def result_simps)

definition blocks_for :: "nat \<Rightarrow> nat" where
  "blocks_for n = (n + DIGEST_SIZE - 1) div DIGEST_SIZE"

lemma blocks_for_bound: "n \<le> 32 * blocks_for n"
proof -
  have "n + 31 = (n + 31) div 32 * 32 + (n + 31) mod 32" by (rule div_mult_mod_eq[symmetric])
  moreover have "(n + 31) mod 32 < 32" by simp
  ultimately have "n \<le> 32 * ((n + 31) div 32)" by linarith
  moreover have "n + 32 - 1 = n + 31" by simp
  ultimately show ?thesis unfolding blocks_for_def DIGEST_SIZE_def by (simp only:)
qed

lemma blocks_for_mono: "m \<le> n \<Longrightarrow> blocks_for m \<le> blocks_for n"
  unfolding blocks_for_def by (intro div_le_mono) simp

lemma blocks_for_first: "m \<le> n \<Longrightarrow> m div 32 \<le> blocks_for n"
  unfolding blocks_for_def DIGEST_SIZE_def by (intro div_le_mono) simp

lemma counter_space: "UINT64_MAX - INITIAL_COUNTER + 1 = 2 ^ 64" "INITIAL_COUNTER + n = n"
  by (simp_all add: UINT64_MAX_def INITIAL_COUNTER_def)

lemma draw_bytes_eq_Inr:
  "draw_bytes g c len = Inr out \<longleftrightarrow>
     0 \<le> len \<and> blocks_for (nat len) \<le> 2 ^ 64 \<and>
     (\<exists>e. encode_context c = Inr e \<and> out = take (nat len) (keystream g e (blocks_for (nat len))))"
proof -
  have "blocks g e INITIAL_COUNTER n = Inr (keystream g e n)" if "n \<le> 2 ^ 64" for e n
    using blocks_eq[of INITIAL_COUNTER n g e] that by (simp add: INITIAL_COUNTER_def keystream_def)
  then show ?thesis
    unfolding draw_bytes_def Let_def blocks_for_def[symmetric] counter_space
    by (auto simp: result_simps not_less split: if_splits)
qed

lemma draw_bytes_length: "draw_bytes g c n = Inr out \<Longrightarrow> int (length out) = n"
  using blocks_for_bound[of "nat n"] by (auto simp: draw_bytes_eq_Inr)

lemma counter_room: "\<not> (m - 1 < f \<or> m - 1 - f + 1 < l - f) \<Longrightarrow> f \<le> l \<Longrightarrow> 0 < m \<Longrightarrow> l \<le> m"
  for f l m :: nat
  by linarith

lemma stream_slice_eq_Inr:
  assumes "stream_slice g e offset len = Inr bs"
  shows "blocks_for (offset + len) \<le> 2 ^ 64"
    and "blocks_for (offset + len) \<le> n \<Longrightarrow> bs = take len (drop offset (keystream g e n))"
proof -
  let ?f = "offset div 32" and ?l = "blocks_for (offset + len)"
  have le: "?f \<le> ?l" by (rule blocks_for_first) simp
  have bound: "\<not> (?f > UINT64_MAX \<or> ?l - ?f > UINT64_MAX - ?f + 1)"
    and bs: "and_then (blocks g e ?f (?l - ?f)) (\<lambda>stream. Inr (take len (drop (offset mod 32) stream))) = Inr bs"
    using assms unfolding stream_slice_def Let_def blocks_for_def[symmetric] counter_space
    by (auto simp: DIGEST_SIZE_def split: if_splits)
  show l: "?l \<le> 2 ^ 64" using counter_room[OF bound[unfolded UINT64_MAX_def] le] by simp
  have bs': "bs = take len (drop (offset mod 32) (concat (map (stream_block g e) [?f..<?l])))"
    using bs blocks_eq[of ?f "?l - ?f" g e] l le by simp
  assume n: "?l \<le> n"
  have "drop (32 * ?f) (keystream g e ?l) = concat (map (stream_block g e) [?f..<?l])"
    using keystream_split[OF le, of g e] by simp
  moreover have "drop offset (keystream g e ?l) = drop (offset mod 32) (drop (32 * ?f) (keystream g e ?l))"
    by (simp add: add.commute)
  ultimately have "bs = take len (drop offset (keystream g e ?l))" using bs' by simp
  also have "\<dots> = drop offset (take (offset + len) (keystream g e ?l))" by (simp add: drop_take)
  also have "\<dots> = drop offset (take (offset + len) (keystream g e n))"
    using keystream_take[OF blocks_for_bound n, of g e] by simp
  finally show "bs = take len (drop offset (keystream g e n))" by (simp add: drop_take)
qed

section \<open>Rejection sampling\<close>

lemma bit_length_bound: "n < 2 ^ bit_length n"
proof (induction n rule: bit_length.induct)
  case (1 n)
  show ?case
  proof (cases "n = 0")
    case False
    with 1 have "n div 2 < 2 ^ bit_length (n div 2)" by blast
    then have "n < 2 * 2 ^ bit_length (n div 2)" by linarith
    then show ?thesis using False by (subst bit_length.simps) simp
  qed (simp add: bit_length.simps)
qed

lemma span_fits: "span \<le> 2 ^ (sample_width span * 8)"
proof (cases "span = 0")
  case False
  have "bit_length (span - 1) \<le> (bit_length (span - 1) + 7) div 8 * 8" by linarith
  also have "\<dots> \<le> sample_width span * 8" by (simp add: sample_width_def)
  finally have "(2::nat) ^ bit_length (span - 1) \<le> 2 ^ (sample_width span * 8)"
    by (rule power_increasing) simp
  with bit_length_bound[of "span - 1"] False show ?thesis by linarith
qed simp

lemma rejection_limit_eq:
  "rejection_limit span = 2 ^ (sample_width span * 8) div span * span"
  by (simp add: rejection_limit_def Let_def minus_mod_eq_div_mult)

lemma residue_class_card:
  assumes "r < span"
  shows "card {c. c < q * span \<and> c mod span = r} = q"
proof -
  have "{c. c < q * span \<and> c mod span = r} = (\<lambda>i. i * span + r) ` {..<q}"
  proof (intro equalityI subsetI)
    fix c assume "c \<in> {c. c < q * span \<and> c mod span = r}"
    then have "c div span < q" "c = c div span * span + r"
      using assms by (auto simp: less_mult_imp_div_less)
    then show "c \<in> (\<lambda>i. i * span + r) ` {..<q}" by blast
  next
    fix c assume "c \<in> (\<lambda>i. i * span + r) ` {..<q}"
    then obtain i where i: "i < q" "c = i * span + r" by auto
    have "i * span + r < Suc i * span" using assms by simp
    also have "\<dots> \<le> q * span" using i(1) by (intro mult_right_mono) simp_all
    finally show "c \<in> {c. c < q * span \<and> c mod span = r}" using i assms by simp
  qed
  moreover have "inj_on (\<lambda>i. i * span + r) {..<q}" using assms by (auto simp: inj_on_def)
  ultimately show ?thesis by (simp add: card_image)
qed

text \<open>The \<open>i\<close>-th sample of \<open>w\<close> bytes of a context's whole stream, and the samples of \<open>w\<close> bytes that stand for
  the remainder \<open>r\<close>: they lie in the largest multiple of the span that fits.\<close>

definition stream_sample :: "ContextGenerator \<Rightarrow> bytes \<Rightarrow> nat \<Rightarrow> nat \<Rightarrow> nat" where
  "stream_sample g e w i = from_bytes (take w (drop (i * w) (keystream g e (2 ^ 64))))"

definition fair_samples :: "nat \<Rightarrow> nat \<Rightarrow> nat \<Rightarrow> nat set" where
  "fair_samples w span r = {x. x < 256 ^ w div span * span \<and> x mod span = r}"

lemma stream_slice_exact:
  assumes "0 < len"
  shows "stream_slice g e offset len = Inr bs \<longleftrightarrow>
    offset + len \<le> 32 * 2 ^ 64 \<and> bs = take len (drop offset (keystream g e (2 ^ 64)))"
proof
  assume s: "stream_slice g e offset len = Inr bs"
  have "offset + len \<le> 32 * blocks_for (offset + len)" by (rule blocks_for_bound)
  also have "\<dots> \<le> 32 * 2 ^ 64" using stream_slice_eq_Inr(1)[OF s] by (rule mult_le_mono2)
  finally show "offset + len \<le> 32 * 2 ^ 64 \<and> bs = take len (drop offset (keystream g e (2 ^ 64)))"
    using stream_slice_eq_Inr(2)[OF s stream_slice_eq_Inr(1)[OF s]] by simp
next
  assume room: "offset + len \<le> 32 * 2 ^ 64 \<and> bs = take len (drop offset (keystream g e (2 ^ 64)))"
  let ?f = "offset div 32" and ?l = "blocks_for (offset + len)"
  have "(offset + len + 31) div 32 < 2 ^ 64 + 1" using room by (intro less_mult_imp_div_less) simp
  then have l: "?l \<le> 2 ^ 64" by (simp add: blocks_for_def DIGEST_SIZE_def)
  have f: "?f < 2 ^ 64" using room assms by (simp add: div_less_iff_less_mult)
  have le: "?f \<le> ?l" by (rule blocks_for_first) simp
  have "\<not> (?f > UINT64_MAX \<or> ?l - ?f > UINT64_MAX - ?f + 1)" using l f by (simp add: UINT64_MAX_def)
  then have "\<exists>b. stream_slice g e offset len = Inr b"
    unfolding stream_slice_def Let_def blocks_for_def[symmetric] counter_space
    using blocks_eq[of ?f "?l - ?f" g e] l le by (simp add: DIGEST_SIZE_def)
  then show "stream_slice g e offset len = Inr bs"
    using stream_slice_eq_Inr(2)[OF _ l] room by auto
qed

lemma sample_loop_exact:
  "sample_loop g e span (i * sample_width span) = Inr x \<longleftrightarrow>
     (\<exists>k \<ge> i. k * sample_width span + sample_width span \<le> 32 * 2 ^ 64 \<and> x = stream_sample g e (sample_width span) k \<and>
       x < rejection_limit span \<and> (\<forall>j. i \<le> j \<and> j < k \<longrightarrow> rejection_limit span \<le> stream_sample g e (sample_width span) j))"
proof (induction "32 * 2 ^ 64 - i * sample_width span" arbitrary: i rule: less_induct)
  case (less i)
  define w where "w = sample_width span"
  have w: "1 \<le> w" using sample_width_pos[of span] by (simp add: w_def)
  note slice = stream_slice_exact[of w g e "i * w"]
  have later: "i * w \<le> k * w" if "i \<le> k" for k using that by (rule mult_le_mono1)
  show ?case
  proof (cases "i * w + w \<le> 32 * 2 ^ 64")
    case False
    then have "stream_slice g e (i * w) w \<noteq> Inr bs" for bs using slice w by simp
    then have "sample_loop g e span (i * w) \<noteq> Inr x"
      by (subst sample_loop.simps) (auto simp: Let_def w_def split: sum.splits)
    moreover have "\<not> k * w + w \<le> 32 * 2 ^ 64" if "i \<le> k" for k using False later[OF that] by linarith
    ultimately show ?thesis unfolding w_def by blast
  next
    case True
    then have read: "stream_slice g e (i * w) w = Inr (take w (drop (i * w) (keystream g e (2 ^ 64))))" using slice w by simp
    show ?thesis
    proof (cases "stream_sample g e w i < rejection_limit span")
      case hit: True
      have "sample_loop g e span (i * w) = Inr (stream_sample g e w i)"
        using read hit by (subst sample_loop.simps) (simp add: Let_def w_def stream_sample_def)
      then show ?thesis using True hit unfolding w_def by (auto simp: not_less dest: le_neq_implies_less)
    next
      case miss: False
      have "sample_loop g e span (i * w) = sample_loop g e span (Suc i * w)"
        using read miss by (subst sample_loop.simps) (simp add: Let_def w_def stream_sample_def add.commute)
      moreover have "32 * 2 ^ 64 - Suc i * w < 32 * 2 ^ 64 - i * w" using True w by simp
      ultimately have step: "sample_loop g e span (i * w) = Inr x \<longleftrightarrow>
        (\<exists>k \<ge> Suc i. k * w + w \<le> 32 * 2 ^ 64 \<and> x = stream_sample g e w k \<and>
          x < rejection_limit span \<and> (\<forall>j. Suc i \<le> j \<and> j < k \<longrightarrow> rejection_limit span \<le> stream_sample g e w j))"
        using less.hyps[of "Suc i"] unfolding w_def by simp
      have same: "(\<forall>j. Suc i \<le> j \<and> j < k \<longrightarrow> rejection_limit span \<le> stream_sample g e w j) \<longleftrightarrow>
          (\<forall>j. i \<le> j \<and> j < k \<longrightarrow> rejection_limit span \<le> stream_sample g e w j)" for k
        using miss by (metis Suc_leD leI not_less_eq_eq order_antisym)
      have past: "Suc i \<le> k" if "i \<le> k" "x = stream_sample g e w k" "x < rejection_limit span" for k
        using that miss by (metis le_neq_implies_less Suc_leI)
      show ?thesis unfolding w_def[symmetric] step same by (intro ex_cong1) (use past Suc_leD in blast)
    qed
  qed
qed

lemma bit_length_lower: "n \<noteq> 0 \<Longrightarrow> 2 ^ (bit_length n - 1) \<le> n"
proof (induction n rule: bit_length.induct)
  case (1 n)
  show ?case
  proof (cases "n div 2 = 0")
    case True
    have "bit_length 0 = 0" by (subst bit_length.simps) simp
    then have "bit_length n = 1" using 1(2) True by (subst bit_length.simps) simp
    then show ?thesis using 1(2) by simp
  next
    case False
    then have "2 ^ (bit_length (n div 2) - 1) \<le> n div 2" using 1 by simp
    moreover have "bit_length n = Suc (bit_length (n div 2))" using 1(2) by (subst bit_length.simps) simp
    moreover have "bit_length (n div 2) \<noteq> 0" using False by (subst bit_length.simps) simp
    ultimately show ?thesis by (cases "bit_length (n div 2)") auto
  qed
qed

lemma sample_width_least:
  assumes "sample_width span \<noteq> 1"
  shows "256 ^ (sample_width span - 1) < span"
proof -
  define b where "b = bit_length (span - 1)"
  have w: "sample_width span = (b + 7) div 8" "8 < b" using assms by (auto simp: sample_width_def b_def max_def split: if_splits)
  have zero: "bit_length 0 = 0" by (subst bit_length.simps) simp
  have nonzero: "span - 1 \<noteq> 0" using w(2) zero by (metis b_def not_less_zero)
  have "8 * (sample_width span - 1) \<le> b - 1" using w by simp
  then have "2 ^ (8 * (sample_width span - 1)) \<le> (2::nat) ^ (b - 1)" by (rule power_increasing) simp
  moreover have "(2::nat) ^ (b - 1) \<le> span - 1" unfolding b_def by (rule bit_length_lower) (rule nonzero)
  ultimately have "(2::nat) ^ (8 * (sample_width span - 1)) < span" using nonzero by linarith
  then show ?thesis by (simp add: power_mult)
qed

lemma width_power: "(2::nat) ^ (w * 8) = 256 ^ w"
  by (simp add: power_mult mult.commute[of w])

lemma fair_samples_limit:
  assumes "0 < span"
  shows "x \<in> fair_samples (sample_width span) span r \<longleftrightarrow> x < rejection_limit span \<and> x mod span = r"
    "(\<forall>r < span. x \<notin> fair_samples (sample_width span) span r) \<longleftrightarrow> rejection_limit span \<le> x"
    "(\<Union>r < span. fair_samples (sample_width span) span r) = {..<rejection_limit span}"
proof -
  have spare: "x mod span < span" for x using assms by simp
  show "x \<in> fair_samples (sample_width span) span r \<longleftrightarrow> x < rejection_limit span \<and> x mod span = r" for x r
    by (simp add: fair_samples_def rejection_limit_eq width_power)
  then show "(\<forall>r < span. x \<notin> fair_samples (sample_width span) span r) \<longleftrightarrow> rejection_limit span \<le> x"
    "(\<Union>r < span. fair_samples (sample_width span) span r) = {..<rejection_limit span}"
    using spare by (auto simp: not_less)
qed

lemma bounded_int_eq_Inr:
  assumes "bounded_int g c lower upper = Inr v"
  shows "lower < upper" and "\<exists>e x. encode_context c = Inr e \<and>
    sample_loop g e (nat (upper - lower)) 0 = Inr x \<and> v = lower + int (x mod nat (upper - lower))"
  using assms by (auto simp: bounded_int_def result_simps Let_def)

lemma bounded_int_range:
  assumes "bounded_int g c lower upper = Inr v"
  shows "lower \<le> v \<and> v < upper"
proof -
  have lt: "lower < upper" by (rule bounded_int_eq_Inr(1)[OF assms])
  obtain x where v: "v = lower + int (x mod nat (upper - lower))"
    using bounded_int_eq_Inr(2)[OF assms] by blast
  have "x mod nat (upper - lower) < nat (upper - lower)" using lt by simp
  then have "int (x mod nat (upper - lower)) < upper - lower" using lt by linarith
  then show ?thesis using v by simp
qed

lemma signed_retry_jitter_range:
  assumes "signed_retry_jitter g s d a p bound = Inr v"
  shows "- bound \<le> v \<and> v \<le> bound" "0 \<le> bound \<and> bound \<le> INT64_MAX"
proof -
  obtain ctx where "bounded_int g ctx (- int (nat bound)) (int (nat bound) + 1) = Inr v"
      and b: "0 \<le> bound" "bound \<le> INT64_MAX"
    using assms by (auto simp: signed_retry_jitter_def result_simps)
  from bounded_int_range[OF this(1)] b show "- bound \<le> v \<and> v \<le> bound" "0 \<le> bound \<and> bound \<le> INT64_MAX"
    by simp_all
qed

lemma gen_choice_member: "gen_choice g c options = Inr x \<Longrightarrow> x \<in> set options"
proof -
  assume "gen_choice g c options = Inr x"
  then obtain c' i where "bounded_int g c' 0 (int (length options)) = Inr i" "x = options ! nat i"
    by (auto simp: gen_choice_def choice_index_def result_simps)
  with bounded_int_range[OF this(1)] show "x \<in> set options" by (auto intro!: nth_mem)
qed

section \<open>Properties\<close>

text \<open>Domain separation: the messages fed to HMAC for two contexts and two block counters are
  equal only when the contexts and the counters are, so that no draw of one context reuses the
  input of another.\<close>

lemma block_messages_unique:
  assumes "encode_context c = Inr e" and "encode_context d = Inr e'"
    and "i \<le> UINT64_MAX" and "j \<le> UINT64_MAX"
  shows "block_message e i = block_message e' j \<longleftrightarrow> c = d \<and> i = j"
proof
  assume "block_message e i = block_message e' j"
  then have "e @ to_bytes 8 i = e' @ to_bytes 8 j" by (simp add: block_message_def)
  then have e: "e = e'" "to_bytes 8 i = to_bytes 8 j"
    using append_eq_append_conv[of e e' "to_bytes 8 i" "to_bytes 8 j"] by (simp_all only: length_to_bytes simp_thms)
  have "i < 256 ^ 8" "j < 256 ^ 8" using assms(3,4) by (simp_all add: UINT64_MAX_def)
  with e(2) have "i = j" by (rule to_bytes_inj)
  with e(1) assms(1,2) show "c = d \<and> i = j" using encode_context_inj by blast
next
  assume "c = d \<and> i = j"
  with assms(1,2) show "block_message e i = block_message e' j" by simp
qed

text \<open>A byte draw has exactly the requested length, and a shorter draw for the same context is
  a prefix of a longer one: the draws of a context are the prefixes of one stream.\<close>

lemma draw_bytes_prefix_stable:
  assumes "draw_bytes g c n = Inr out" and "0 \<le> m" and "m \<le> n"
  shows "int (length out) = n \<and> draw_bytes g c m = Inr (take (nat m) out)"
proof -
  obtain e where e: "encode_context c = Inr e" "out = take (nat n) (keystream g e (blocks_for (nat n)))"
      and n: "0 \<le> n" "blocks_for (nat n) \<le> 2 ^ 64"
    using assms(1) by (auto simp: draw_bytes_eq_Inr)
  have mono: "blocks_for (nat m) \<le> blocks_for (nat n)" using assms(3) by (intro blocks_for_mono) simp
  have "take (nat m) out = take (nat m) (keystream g e (blocks_for (nat n)))"
    using assms(2,3) by (simp add: e(2) min_def)
  also have "\<dots> = take (nat m) (keystream g e (blocks_for (nat m)))"
    by (rule keystream_take[OF blocks_for_bound mono])
  finally have "draw_bytes g c m = Inr (take (nat m) out)"
    using e(1) n mono assms(2) by (simp add: draw_bytes_eq_Inr)
  then show ?thesis using draw_bytes_length[OF assms(1)] by blast
qed

text \<open>C13. Bounded integers are drawn without bias. Samples have the least number of bytes that can hold every value of
  the range. \<open>bounded_int\<close> returns a value exactly when it belongs to the range and the first sample of the context's
  stream, within the counter space, that stands for any value stands for this one. Every value of the range
  is stood for by the same number of samples, and more than half of all samples stand for one, so
  that a sample is rejected with probability below one half.\<close>

theorem bounded_int_unbiased:
  fixes g c lower upper
  defines "span \<equiv> nat (upper - lower)"
  defines "w \<equiv> sample_width span"
  assumes "lower < upper"
  shows "(\<forall>v. bounded_int g c lower upper = Inr v \<longleftrightarrow> lower \<le> v \<and> v < upper \<and>
      (\<exists>e k. encode_context c = Inr e \<and> k * w + w \<le> 32 * 2 ^ 64 \<and>
        stream_sample g e w k \<in> fair_samples w span (nat (v - lower)) \<and>
        (\<forall>j < k. \<forall>r < span. stream_sample g e w j \<notin> fair_samples w span r))) \<and>
    (\<forall>r < span. card (fair_samples w span r) = 256 ^ w div span) \<and>
    256 ^ w < 2 * card (\<Union>r < span. fair_samples w span r) \<and>
    span \<le> 256 ^ w \<and> (w = 1 \<or> 256 ^ (w - 1) < span)"
proof (intro conjI allI impI)
  have span: "0 < span" "int span = upper - lower" using assms(3) by (simp_all add: span_def)
  note fair = fair_samples_limit[OF span(1), folded w_def]
  fix v
  have range: "lower \<le> lower + int (x mod span) \<and> lower + int (x mod span) < upper" for x
    using span mod_less_divisor[of span x] by linarith
  have residue: "v = lower + int (x mod span) \<longleftrightarrow> lower \<le> v \<and> v < upper \<and> x mod span = nat (v - lower)" for x
    using range[of x] by auto
  have loop: "sample_loop g e span 0 = Inr x \<longleftrightarrow> (\<exists>k. k * w + w \<le> 32 * 2 ^ 64 \<and> x = stream_sample g e w k \<and>
      x < rejection_limit span \<and> (\<forall>j < k. rejection_limit span \<le> stream_sample g e w j))" for e x
    using sample_loop_exact[of g e span 0 x, folded w_def] by (simp only: mult_zero_left le0 True_implies_equals simp_thms)
  have "bounded_int g c lower upper = Inr v \<longleftrightarrow>
      (\<exists>e x. encode_context c = Inr e \<and> sample_loop g e span 0 = Inr x \<and> v = lower + int (x mod span))"
    using assms(3) by (auto simp: bounded_int_def result_simps Let_def span_def)
  also have "\<dots> \<longleftrightarrow> lower \<le> v \<and> v < upper \<and> (\<exists>e k. encode_context c = Inr e \<and> k * w + w \<le> 32 * 2 ^ 64 \<and>
        stream_sample g e w k < rejection_limit span \<and> stream_sample g e w k mod span = nat (v - lower) \<and>
        (\<forall>j < k. rejection_limit span \<le> stream_sample g e w j))"
    unfolding residue loop by auto
  finally show "bounded_int g c lower upper = Inr v \<longleftrightarrow> lower \<le> v \<and> v < upper \<and>
      (\<exists>e k. encode_context c = Inr e \<and> k * w + w \<le> 32 * 2 ^ 64 \<and>
        stream_sample g e w k \<in> fair_samples w span (nat (v - lower)) \<and>
        (\<forall>j < k. \<forall>r < span. stream_sample g e w j \<notin> fair_samples w span r))"
    unfolding fair(2) unfolding fair(1) conj_assoc .
next
  fix r assume "r < span"
  then show "card (fair_samples w span r) = 256 ^ w div span"
    unfolding fair_samples_def by (rule residue_class_card)
next
  have span: "0 < span" using assms(3) by (simp add: span_def)
  show fits: "span \<le> 256 ^ w" using span_fits[of span] by (simp add: w_def width_power)
  have "(256::nat) ^ w mod span < span" using span by simp
  moreover have "span \<le> rejection_limit span"
    unfolding rejection_limit_eq using span fits by (simp add: w_def width_power div_greater_zero_iff Suc_le_eq)
  moreover have "rejection_limit span = 256 ^ w - 256 ^ w mod span" by (simp add: rejection_limit_def Let_def w_def width_power)
  ultimately show "256 ^ w < 2 * card (\<Union>r < span. fair_samples w span r)"
    unfolding fair_samples_limit[OF span, folded w_def] by simp
  show "w = 1 \<or> 256 ^ (w - 1) < span" using sample_width_least[of span] by (auto simp: w_def)
qed

section \<open>Witnesses\<close>

lemma encode_ascii:
  "encode_context [text_of ''a''] = Inr (to_bytes 4 1 @ [97])"
  "encode_context [text_of ''b''] = Inr (to_bytes 4 1 @ [98])"
  by (simp_all add: encode_context_eq_Inr encode_component_eq_Inr utf8_encode_def scalar_value_def
      utf8_char_def text_of_def UINT32_MAX_def list_all2_Cons1)

lemma block_messages_unique_witness:
  "block_message (to_bytes 4 1 @ [97]) 0 \<noteq> block_message (to_bytes 4 1 @ [98]) 0"
  using block_messages_unique[OF encode_ascii, of 0 0] by (simp add: text_of_def)

lemma draw_bytes_prefix_stable_witness:
  "\<exists>out. draw_bytes \<lparr>normalized_seed_hash = replicate 32 0\<rparr> [text_of ''a''] 40 = Inr out \<and>
     length out = 40 \<and>
     draw_bytes \<lparr>normalized_seed_hash = replicate 32 0\<rparr> [text_of ''a''] 16 = Inr (take 16 out)"
proof -
  let ?g = "\<lparr>normalized_seed_hash = replicate 32 0\<rparr>"
  have "blocks_for 40 = 2" by (simp add: blocks_for_def DIGEST_SIZE_def)
  then obtain out where out: "draw_bytes ?g [text_of ''a''] 40 = Inr out"
    by (simp add: draw_bytes_eq_Inr encode_ascii)
  from draw_bytes_prefix_stable[OF out, of 16] have "length out = 40"
    "draw_bytes ?g [text_of ''a''] 16 = Inr (take 16 out)" by simp_all
  with out show ?thesis by blast
qed

text \<open>With a span of 256 one byte is drawn and every sample is accepted.\<close>

lemma span_256: "sample_width 256 = 1" "rejection_limit 256 = 256"
proof -
  have "bit_length 255 = 8" by (simp add: bit_length.simps)
  then show w: "sample_width 256 = 1" by (simp add: sample_width_def)
  show "rejection_limit 256 = 256" by (simp add: rejection_limit_eq w)
qed

lemma sample_draw: "\<exists>v. bounded_int \<lparr>normalized_seed_hash = replicate 32 0\<rparr> [text_of ''a''] 0 256 = Inr v"
proof -
  let ?g = "\<lparr>normalized_seed_hash = replicate 32 0\<rparr>"
  let ?e = "to_bytes 4 1 @ [97] :: bytes"
  obtain bs where bs: "stream_slice ?g ?e 0 1 = Inr bs"
    by (simp add: stream_slice_def Let_def DIGEST_SIZE_def INITIAL_COUNTER_def UINT64_MAX_def blocks_eq)
  have "length bs \<le> 1" using stream_slice_eq_Inr(2)[OF bs order_refl] by simp
  then have "from_bytes bs < 256"
    using from_bytes_bound[of bs] power_increasing[of "length bs" 1 "256::nat"] by simp
  then have "sample_loop ?g ?e 256 0 = Inr (from_bytes bs)"
    using bs by (subst sample_loop.simps) (simp add: span_256 Let_def)
  then show ?thesis by (simp add: bounded_int_def encode_ascii)
qed

lemma span_10: "sample_width 10 = 1"
proof -
  have "bit_length 9 = 4" by (simp add: bit_length.simps)
  then show ?thesis by (simp add: sample_width_def)
qed

theorem bounded_int_unbiased_witness:
  "(\<exists>v e k. bounded_int \<lparr>normalized_seed_hash = replicate 32 0\<rparr> [text_of ''a''] 0 256 = Inr v \<and> 0 \<le> v \<and> v < 256 \<and>
     encode_context [text_of ''a''] = Inr e \<and> stream_sample \<lparr>normalized_seed_hash = replicate 32 0\<rparr> e 1 k \<in> fair_samples 1 256 (nat v)) \<and>
   card (fair_samples 1 10 3) = 25"
proof -
  obtain v where v: "bounded_int \<lparr>normalized_seed_hash = replicate 32 0\<rparr> [text_of ''a''] 0 256 = Inr v" using sample_draw by blast
  with bounded_int_unbiased[of 0 256 "\<lparr>normalized_seed_hash = replicate 32 0\<rparr>" "[text_of ''a'']"]
  have "0 \<le> v \<and> v < 256 \<and> (\<exists>e k. encode_context [text_of ''a''] = Inr e \<and>
      stream_sample \<lparr>normalized_seed_hash = replicate 32 0\<rparr> e 1 k \<in> fair_samples 1 256 (nat v))"
    by (simp add: span_256) blast
  moreover have "card (fair_samples 1 10 3) = 25"
    using bounded_int_unbiased[of 0 10 "\<lparr>normalized_seed_hash = replicate 32 0\<rparr>" "[text_of ''a'']"] by (simp add: span_10)
  ultimately show ?thesis using v by blast
qed

end
