(* ===== verification/Identifiers.thy ===== *)
theory Identifiers
  imports Generator
begin

text \<open>
  The identifiers of \<open>domain/identifiers.py\<close>: run identifiers (lowercase UUIDv4), the Crockford
  Base32 codec of 128-bit payloads, replay-stable planned identifiers and fresh physical ones with
  their type prefixes, and the registry of natural-key claims. Identifier texts are ASCII strings;
  the natural keys, which may hold any Unicode text, are lists of \<open>ustring\<close>. The entropy of a
  fresh identifier (\<open>secrets.token_bytes\<close>) and of a run identifier is an argument.
\<close>

definition PLANNED_ID_ALGORITHM :: ustring where
  "PLANNED_ID_ALGORITHM = text_of ''planned-id-v1''"

definition CROCKFORD_ALPHABET :: string where
  "CROCKFORD_ALPHABET = ''0123456789ABCDEFGHJKMNPQRSTVWXYZ''"

definition CROCKFORD_DECODE :: "char \<Rightarrow> nat option" where
  "CROCKFORD_DECODE = map_of (zip CROCKFORD_ALPHABET [0..<32])"

definition ULID_LENGTH :: nat where "ULID_LENGTH = 26"
definition ULID_BYTES :: nat where "ULID_BYTES = 16"
definition MAX_NATURAL_KEY_BYTES :: nat where "MAX_NATURAL_KEY_BYTES = 4096"

datatype PlannedIdKind = SCENARIO | EVENT | DELIVERY | ATTEMPT_PLAN | OBSERVATION | ASSERTION

datatype FreshIdKind = ATTEMPT | SAMPLE | EVALUATION | RECORD

fun planned_kind_value :: "PlannedIdKind \<Rightarrow> string" where
  "planned_kind_value SCENARIO = ''scenario''"
| "planned_kind_value EVENT = ''event''"
| "planned_kind_value DELIVERY = ''delivery''"
| "planned_kind_value ATTEMPT_PLAN = ''attempt_plan''"
| "planned_kind_value OBSERVATION = ''observation''"
| "planned_kind_value ASSERTION = ''assertion''"

fun fresh_kind_value :: "FreshIdKind \<Rightarrow> string" where
  "fresh_kind_value ATTEMPT = ''attempt''"
| "fresh_kind_value SAMPLE = ''sample''"
| "fresh_kind_value EVALUATION = ''evaluation''"
| "fresh_kind_value RECORD = ''record''"

definition PLANNED_KINDS :: "PlannedIdKind list" where
  "PLANNED_KINDS = [SCENARIO, EVENT, DELIVERY, ATTEMPT_PLAN, OBSERVATION, ASSERTION]"

definition FRESH_KINDS :: "FreshIdKind list" where
  "FRESH_KINDS = [ATTEMPT, SAMPLE, EVALUATION, RECORD]"

section \<open>Run identifiers\<close>

text \<open>The compiled expression \<open>_RUN_ID\<close> as one predicate per character, and the \<open>uuid.UUID\<close> value a
  text denotes: an integer whose version and variant are bit fields, printed in groups.\<close>

definition RUN_ID_pattern :: "(char \<Rightarrow> bool) list" where
  "RUN_ID_pattern =
     replicate 8 lower_hex_char @ [\<lambda>c. c = CHR ''-''] @ replicate 4 lower_hex_char @ [\<lambda>c. c = CHR ''-''] @
     [\<lambda>c. c = CHR ''4''] @ replicate 3 lower_hex_char @ [\<lambda>c. c = CHR ''-''] @
     [\<lambda>c. c \<in> set ''89ab''] @ replicate 3 lower_hex_char @ [\<lambda>c. c = CHR ''-''] @ replicate 12 lower_hex_char"

definition RUN_ID_fullmatch :: "string \<Rightarrow> bool" where
  "RUN_ID_fullmatch s = list_all2 (\<lambda>p c. p c) RUN_ID_pattern s"

definition hex_value :: "char \<Rightarrow> nat" where
  "hex_value c = (if c \<le> CHR ''9'' then of_char c - 48 else of_char c - 87)"

definition hex_int :: "nat list \<Rightarrow> nat" where
  "hex_int ds = foldl (\<lambda>acc d. acc * 16 + d) 0 ds"

definition uuid_of :: "string \<Rightarrow> nat" where
  "uuid_of s = hex_int (map hex_value [c \<leftarrow> s. c \<noteq> CHR ''-''])"

definition uuid_version :: "nat \<Rightarrow> nat" where
  "uuid_version u = u div 16 ^ 19 mod 16"

definition uuid_variant_rfc_4122 :: "nat \<Rightarrow> bool" where
  "uuid_variant_rfc_4122 u \<longleftrightarrow> u div 2 ^ 63 mod 2 = 1 \<and> u div 2 ^ 62 mod 2 = 0"

definition uuid_str :: "nat \<Rightarrow> string" where
  "uuid_str u = (let hex = map (\<lambda>i. hex_char (u div 16 ^ (31 - i) mod 16)) [0..<32] in
     take 8 hex @ ''-'' @ take 4 (drop 8 hex) @ ''-'' @ take 4 (drop 12 hex) @ ''-'' @
     take 4 (drop 16 hex) @ ''-'' @ drop 20 hex)"

definition validate_run_id :: "string \<Rightarrow> string result" where
  "validate_run_id s =
     and_then (raise_unless (RUN_ID_fullmatch s)
         (ValueError ''run_id must be a canonical lowercase UUIDv4'')) (\<lambda>_.
     let parsed = uuid_of s in
     and_then (raise_unless (\<not> (uuid_version parsed \<noteq> 4 \<or> \<not> uuid_variant_rfc_4122 parsed \<or> uuid_str parsed \<noteq> s))
         (ValueError ''run_id must be a canonical lowercase UUIDv4'')) (\<lambda>_.
       Inr s))"

section \<open>The Crockford codec\<close>

fun encode_loop :: "nat \<Rightarrow> nat \<Rightarrow> string" where
  "encode_loop 0 integer = []"
| "encode_loop (Suc index) integer =
     encode_loop index (integer div 32) @ [CROCKFORD_ALPHABET ! (integer mod 32)]"

definition encode_crockford_ulid :: "bytes \<Rightarrow> string result" where
  "encode_crockford_ulid v =
     and_then (raise_unless (length v = ULID_BYTES)
         (ValueError ''ULID payload must be exactly 16 bytes'')) (\<lambda>_.
       Inr (encode_loop ULID_LENGTH (from_bytes v)))"

fun decode_loop :: "nat \<Rightarrow> string \<Rightarrow> nat option" where
  "decode_loop integer [] = Some integer"
| "decode_loop integer (character # cs) = (case CROCKFORD_DECODE character of
       None \<Rightarrow> None
     | Some digit \<Rightarrow> decode_loop (integer * 32 + digit) cs)"

definition decode_crockford_ulid :: "string \<Rightarrow> bytes result" where
  "decode_crockford_ulid v =
     and_then (raise_unless (length v = ULID_LENGTH)
         (ValueError ''ULID payload must contain exactly 26 characters'')) (\<lambda>_.
     case decode_loop 0 v of
       None \<Rightarrow> Inl (ValueError ''ULID payload must use canonical uppercase Crockford Base32'')
     | Some integer \<Rightarrow>
         if integer \<ge> 2 ^ (ULID_BYTES * 8) then Inl (ValueError ''ULID payload exceeds 128 bits'')
         else Inr (to_bytes ULID_BYTES integer))"

section \<open>Prefixed identifiers\<close>

definition starts_with :: "string \<Rightarrow> string \<Rightarrow> bool" where
  "starts_with s p = (take (length p) s = p)"

definition remove_prefix :: "string \<Rightarrow> string \<Rightarrow> string" where
  "remove_prefix s p = (if starts_with s p then drop (length p) s else s)"

text \<open>The loop over the members of an enumeration: the payload after the first prefix that fits.\<close>

fun parse_prefixed :: "('k \<Rightarrow> string) \<Rightarrow> 'k list \<Rightarrow> string \<Rightarrow> exn \<Rightarrow> ('k \<times> bytes) result" where
  "parse_prefixed v [] s e = Inl e"
| "parse_prefixed v (kind # kinds) s e =
     (let p = v kind @ ''_''
      in if starts_with s p
         then and_then (decode_crockford_ulid (remove_prefix s p)) (\<lambda>raw. Inr (kind, raw))
         else parse_prefixed v kinds s e)"

definition parse_planned_id :: "string \<Rightarrow> (PlannedIdKind \<times> bytes) result" where
  "parse_planned_id s = parse_prefixed planned_kind_value PLANNED_KINDS s
     (ValueError ''planned identifier has an unknown or physical-entity prefix'')"

definition validate_planned_id :: "string \<Rightarrow> PlannedIdKind option \<Rightarrow> string result" where
  "validate_planned_id s expected_kind =
     and_then (parse_planned_id s) (\<lambda>(kind, _).
       case expected_kind of
         None \<Rightarrow> Inr s
       | Some expected \<Rightarrow>
           and_then (raise_unless (kind = expected) (ValueError
             (''planned identifier must use the '' @ planned_kind_value expected @ ''_ prefix'')))
             (\<lambda>_. Inr s))"

definition parse_fresh_id :: "string \<Rightarrow> (FreshIdKind \<times> bytes) result" where
  "parse_fresh_id s =
     (if list_ex (\<lambda>kind. starts_with s (planned_kind_value kind @ ''_'')) PLANNED_KINDS
      then Inl (ValueError ''fresh identifier must not use a planned-entity prefix'')
      else parse_prefixed fresh_kind_value FRESH_KINDS s
        (ValueError ''fresh identifier has an unknown or planned-entity prefix''))"

definition validate_fresh_id :: "string \<Rightarrow> FreshIdKind option \<Rightarrow> string result" where
  "validate_fresh_id s expected_kind =
     and_then (parse_fresh_id s) (\<lambda>(kind, _).
       case expected_kind of
         None \<Rightarrow> Inr s
       | Some expected \<Rightarrow>
           and_then (raise_unless (kind = expected) (ValueError
             (''fresh identifier must use the '' @ fresh_kind_value expected @ ''_ prefix'')))
             (\<lambda>_. Inr s))"

definition new_fresh_id :: "FreshIdKind \<Rightarrow> bytes \<Rightarrow> string result" where
  "new_fresh_id kind entropy =
     and_then (encode_crockford_ulid entropy) (\<lambda>u. Inr (fresh_kind_value kind @ ''_'' @ u))"

definition validate_natural_component :: "ustring \<Rightarrow> ustring result" where
  "validate_natural_component component =
     and_then (raise_unless (component \<noteq> []) (ValueError ''natural_key components must not be empty'')) (\<lambda>_.
     and_then (raise_unless (\<not> list_ex (\<lambda>c. 0xD800 \<le> c \<and> c \<le> 0xDFFF) component)
         (ValueError ''natural_key components must contain Unicode scalar values'')) (\<lambda>_.
     and_then (utf8_encode component) (\<lambda>b.
     and_then (raise_unless (length b \<le> MAX_NATURAL_KEY_BYTES)
         (ValueError ''natural_key component exceeds the 4096-byte boundary'')) (\<lambda>_.
       Inr component))))"

definition validate_natural_key :: "ustring list \<Rightarrow> ustring list result" where
  "validate_natural_key v =
     and_then (raise_unless (v \<noteq> []) (ValueError ''natural_key must not be empty'')) (\<lambda>_.
       for_each validate_natural_component v)"

definition planned_id :: "ContextGenerator \<Rightarrow> PlannedIdKind \<Rightarrow> ustring list \<Rightarrow> string result" where
  "planned_id g kind natural_key =
     and_then (validate_natural_key natural_key) (\<lambda>components.
     and_then (draw_bytes g (PLANNED_ID_ALGORITHM # text_of (planned_kind_value kind) # components)
         (int ULID_BYTES)) (\<lambda>raw.
     and_then (encode_crockford_ulid raw) (\<lambda>u. Inr (planned_kind_value kind @ ''_'' @ u))))"

section \<open>The claim registry\<close>

type_synonym PlannedIdRegistry = "string \<rightharpoonup> ustring list"

definition registry_claim :: "PlannedIdRegistry \<Rightarrow> string \<Rightarrow> ustring list \<Rightarrow> PlannedIdRegistry result" where
  "registry_claim claims identifier natural_key =
     and_then (validate_planned_id identifier None) (\<lambda>stable_id.
     and_then (validate_natural_key natural_key) (\<lambda>source.
       case claims stable_id of
         None \<Rightarrow> Inr (claims(stable_id \<mapsto> source))
       | Some existing \<Rightarrow>
           if existing \<noteq> source
           then Inl (IdentifierCollisionError (''planned identifier collision: '' @ stable_id))
           else Inr claims))"

fun registry_run :: "PlannedIdRegistry \<Rightarrow> (string \<times> ustring list) list \<Rightarrow> PlannedIdRegistry result" where
  "registry_run claims [] = Inr claims"
| "registry_run claims ((i, k) # rest) =
     and_then (registry_claim claims i k) (\<lambda>claims'. registry_run claims' rest)"

section \<open>Lemmas on the codec\<close>

lemma alphabet_length: "length CROCKFORD_ALPHABET = 32"
  by (simp add: CROCKFORD_ALPHABET_def)

lemma alphabet_distinct: "distinct CROCKFORD_ALPHABET"
  by (simp add: CROCKFORD_ALPHABET_def)

lemma CROCKFORD_DECODE_iff: "CROCKFORD_DECODE c = Some d \<longleftrightarrow> d < 32 \<and> CROCKFORD_ALPHABET ! d = c"
proof -
  have "map_of (zip CROCKFORD_ALPHABET [0..<32]) c = Some d \<longleftrightarrow> (c, d) \<in> set (zip CROCKFORD_ALPHABET [0..<32])"
    by (intro map_of_eq_Some_iff) (simp add: alphabet_length alphabet_distinct)
  then show ?thesis by (auto simp: CROCKFORD_DECODE_def in_set_zip alphabet_length)
qed

lemma encode_loop_length [simp]: "length (encode_loop k n) = k"
  by (induction k n rule: encode_loop.induct) auto

lemma decode_loop_append:
  "decode_loop n (s @ t) = (case decode_loop n s of None \<Rightarrow> None | Some m \<Rightarrow> decode_loop m t)"
  by (induction s arbitrary: n) (auto split: option.splits)

lemma decode_encode_loop: "n < 32 ^ k \<Longrightarrow> decode_loop 0 (encode_loop k n) = Some n"
proof (induction k n rule: encode_loop.induct)
  case (2 k n)
  then have "n div 32 < 32 ^ k" by (simp add: less_mult_imp_div_less mult.commute)
  moreover have "CROCKFORD_DECODE (CROCKFORD_ALPHABET ! (n mod 32)) = Some (n mod 32)"
    by (simp add: CROCKFORD_DECODE_iff)
  ultimately show ?case using 2 by (simp add: decode_loop_append)
qed simp

lemma encode_decode_loop: "decode_loop 0 s = Some n \<Longrightarrow> encode_loop (length s) n = s \<and> n < 32 ^ length s"
proof (induction s arbitrary: n rule: rev_induct)
  case (snoc c s)
  then obtain m d where m: "decode_loop 0 s = Some m" "CROCKFORD_DECODE c = Some d" "n = m * 32 + d"
    by (auto simp: decode_loop_append split: option.splits)
  then have d: "d < 32" "CROCKFORD_ALPHABET ! d = c" by (simp_all add: CROCKFORD_DECODE_iff)
  have "m * 32 + d < 32 ^ length s * 32" using snoc.IH[OF m(1)] d(1) by linarith
  with snoc.IH[OF m(1)] d m(3) show ?case by simp
qed simp

lemma encode_loop_chars: "set (encode_loop k n) \<subseteq> set CROCKFORD_ALPHABET"
  by (induction k n rule: encode_loop.induct) (auto simp: alphabet_length intro!: nth_mem)

lemma payload_bits: "(256::nat) ^ ULID_BYTES = 2 ^ (ULID_BYTES * 8)" "(256::nat) ^ ULID_BYTES < 32 ^ ULID_LENGTH"
  by (simp_all add: ULID_BYTES_def ULID_LENGTH_def)

lemma encode_eq_Inr:
  "encode_crockford_ulid raw = Inr s \<longleftrightarrow>
     length raw = ULID_BYTES \<and> s = encode_loop ULID_LENGTH (from_bytes raw)"
  by (auto simp: encode_crockford_ulid_def result_simps)

lemma decode_eq_Inr:
  "decode_crockford_ulid s = Inr raw \<longleftrightarrow>
     length s = ULID_LENGTH \<and> (\<exists>n. decode_loop 0 s = Some n \<and> n < 256 ^ ULID_BYTES \<and> raw = to_bytes ULID_BYTES n)"
  unfolding payload_bits(1)
  by (auto simp: decode_crockford_ulid_def result_simps not_le split: option.splits)

lemma decode_iff_encode: "decode_crockford_ulid s = Inr raw \<longleftrightarrow> encode_crockford_ulid raw = Inr s"
proof
  assume "decode_crockford_ulid s = Inr raw"
  then obtain n where n: "length s = ULID_LENGTH" "decode_loop 0 s = Some n" "n < 256 ^ ULID_BYTES"
      "raw = to_bytes ULID_BYTES n"
    by (auto simp: decode_eq_Inr)
  then have "from_bytes raw = n" by (simp add: from_to_bytes)
  with encode_decode_loop[OF n(2)] n show "encode_crockford_ulid raw = Inr s" by (simp add: encode_eq_Inr)
next
  assume "encode_crockford_ulid raw = Inr s"
  then have raw: "length raw = ULID_BYTES" "s = encode_loop ULID_LENGTH (from_bytes raw)"
    by (simp_all add: encode_eq_Inr)
  have b: "from_bytes raw < 256 ^ ULID_BYTES" using from_bytes_bound[of raw] raw(1) by simp
  have "decode_loop 0 s = Some (from_bytes raw)"
    unfolding raw(2) by (rule decode_encode_loop) (rule less_trans[OF b payload_bits(2)])
  with b raw to_from_bytes[of raw] show "decode_crockford_ulid s = Inr raw"
    by (simp add: decode_eq_Inr)
qed

section \<open>Lemmas on prefixes\<close>

lemma starts_with_iff: "starts_with s p \<longleftrightarrow> (\<exists>t. s = p @ t)"
  by (metis append_eq_conv_conj starts_with_def)

lemma remove_prefix_append [simp]: "remove_prefix (p @ t) p = t"
  by (simp add: remove_prefix_def starts_with_def)

lemma planned_prefix_unique:
  "starts_with (planned_kind_value k @ ''_'' @ t) (planned_kind_value k' @ ''_'') \<longleftrightarrow> k = k'"
  by (cases k; cases k') (simp_all add: starts_with_def)

lemma fresh_prefix_unique:
  "starts_with (fresh_kind_value k @ ''_'' @ t) (fresh_kind_value k' @ ''_'') \<longleftrightarrow> k = k'"
  by (cases k; cases k') (simp_all add: starts_with_def)

lemma fresh_planned_prefix:
  "starts_with (fresh_kind_value f @ ''_'' @ t) (planned_kind_value k @ ''_'') \<Longrightarrow>
   \<exists>t'. t = CHR ''p'' # t'"
  by (cases f; cases k; cases t) (auto simp: starts_with_def)

lemma parse_prefixed_eq_Inr:
  assumes "\<And>k k' t. k \<in> set kinds \<Longrightarrow> k' \<in> set kinds \<Longrightarrow> starts_with (v k @ ''_'' @ t) (v k' @ ''_'') \<longleftrightarrow> k = k'"
  shows "parse_prefixed v kinds s e = Inr (k, raw) \<longleftrightarrow>
    k \<in> set kinds \<and> (\<exists>u. s = v k @ ''_'' @ u \<and> decode_crockford_ulid u = Inr raw)"
  using assms
proof (induction kinds)
  case (Cons k0 ks)
  show ?case
  proof (cases "starts_with s (v k0 @ ''_'')")
    case True
    then obtain t where t: "s = v k0 @ ''_'' @ t" by (auto simp: starts_with_iff)
    have "parse_prefixed v (k0 # ks) s e = Inr (k, raw) \<longleftrightarrow> k = k0 \<and> decode_crockford_ulid t = Inr raw"
      using True remove_prefix_append[of "v k0 @ ''_''" t] by (auto simp: t result_simps Let_def)
    moreover have "k = k0 \<and> u = t" if "k \<in> set (k0 # ks)" "s = v k @ ''_'' @ u" for u
      using Cons.prems[of k0 k t] that t True by (auto simp: starts_with_iff)
    ultimately show ?thesis using t by auto
  next
    case False
    then have "parse_prefixed v (k0 # ks) s e = parse_prefixed v ks s e" by (simp add: Let_def)
    moreover have "\<nexists>u. s = v k0 @ ''_'' @ u" using False by (auto simp: starts_with_iff)
    moreover have "parse_prefixed v ks s e = Inr (k, raw) \<longleftrightarrow>
        k \<in> set ks \<and> (\<exists>u. s = v k @ ''_'' @ u \<and> decode_crockford_ulid u = Inr raw)"
      by (rule Cons.IH) (use Cons.prems in \<open>metis list.set_intros(2)\<close>)
    ultimately show ?thesis by (metis list.set_intros(2) set_ConsD)
  qed
qed simp

lemma in_kinds: "k \<in> set PLANNED_KINDS" "f \<in> set FRESH_KINDS"
  by (cases k; simp add: PLANNED_KINDS_def) (cases f; simp add: FRESH_KINDS_def)

lemma parse_planned_eq_Inr:
  "parse_planned_id s = Inr (k, raw) \<longleftrightarrow>
     (\<exists>u. s = planned_kind_value k @ ''_'' @ u \<and> encode_crockford_ulid raw = Inr u)"
  unfolding parse_planned_id_def
  by (subst parse_prefixed_eq_Inr) (simp_all only: planned_prefix_unique in_kinds decode_iff_encode simp_thms)

lemma payload_not_lower: "encode_crockford_ulid raw = Inr u \<Longrightarrow> u \<noteq> CHR ''p'' # t"
proof
  assume "encode_crockford_ulid raw = Inr u" "u = CHR ''p'' # t"
  then have "CHR ''p'' \<in> set CROCKFORD_ALPHABET"
    using encode_loop_chars[of ULID_LENGTH "from_bytes raw"] by (simp add: encode_eq_Inr) (metis list.set_intros(1) subsetD)
  then show False by (simp add: CROCKFORD_ALPHABET_def)
qed

lemma parse_fresh_eq_Inr:
  "parse_fresh_id s = Inr (f, raw) \<longleftrightarrow>
     (\<exists>u. s = fresh_kind_value f @ ''_'' @ u \<and> encode_crockford_ulid raw = Inr u)"
proof -
  let ?planned = "list_ex (\<lambda>kind. starts_with s (planned_kind_value kind @ ''_'')) PLANNED_KINDS"
  have "parse_fresh_id s = Inr (f, raw) \<longleftrightarrow> \<not> ?planned \<and>
      (\<exists>u. s = fresh_kind_value f @ ''_'' @ u \<and> encode_crockford_ulid raw = Inr u)"
    unfolding parse_fresh_id_def
    by (simp only: if_distrib[of "\<lambda>x. x = Inr (f, raw)"] sum.distinct if_bool_eq_conj simp_thms,
        subst parse_prefixed_eq_Inr) (simp_all only: fresh_prefix_unique in_kinds decode_iff_encode simp_thms, blast)
  moreover have "\<not> ?planned" if "s = fresh_kind_value f @ ''_'' @ u" "encode_crockford_ulid raw = Inr u" for u
    using fresh_planned_prefix[of f u] payload_not_lower[OF that(2)] that(1) by (auto simp: list_ex_iff)
  ultimately show ?thesis by blast
qed

lemma fresh_not_planned:
  assumes "parse_fresh_id s = Inr p" shows "parse_planned_id s \<noteq> Inr q"
proof
  assume "parse_planned_id s = Inr q"
  then obtain k u where "s = planned_kind_value k @ ''_'' @ u"
    by (cases q) (auto simp: parse_planned_eq_Inr)
  then have "list_ex (\<lambda>kind. starts_with s (planned_kind_value kind @ ''_'')) PLANNED_KINDS"
    using in_kinds(1)[of k] planned_prefix_unique[of k u k] by (auto simp: list_ex_iff)
  with assms show False by (simp add: parse_fresh_id_def)
qed

section \<open>Lemmas on run identifiers\<close>

lemma hex_int_snoc [simp]: "hex_int (ds @ [d]) = hex_int ds * 16 + d"
  by (simp add: hex_int_def)

lemma hex_int_digit:
  "list_all (\<lambda>d. d < 16) ds \<Longrightarrow> k < length ds \<Longrightarrow> hex_int ds div 16 ^ k mod 16 = ds ! (length ds - 1 - k)"
proof (induction ds arbitrary: k rule: rev_induct)
  case (snoc d ds)
  show ?case
  proof (cases k)
    case (Suc j)
    have "(hex_int ds * 16 + d) div 16 ^ Suc j = (hex_int ds * 16 + d) div 16 div 16 ^ j"
      by (simp add: div_mult2_eq)
    also have "(hex_int ds * 16 + d) div 16 = hex_int ds" using snoc.prems(1) by simp
    finally have "(hex_int ds * 16 + d) div 16 ^ Suc j = hex_int ds div 16 ^ j" .
    moreover have "j < length ds" "length ds - Suc j < length ds" using snoc.prems(2) Suc by auto
    ultimately show ?thesis using snoc.IH[of j] snoc.prems Suc by (simp add: nth_append)
  qed (use snoc.prems in simp)
qed simp

lemma hex_value_char:
  assumes "lower_hex_char c"
  shows "hex_value c < 16" "hex_char (hex_value c) = c" "c \<noteq> CHR ''-''"
proof -
  define n :: nat where "n = of_char c"
  have c: "c = char_of n" by (simp add: n_def)
  have "48 \<le> n \<and> n \<le> 57 \<or> 97 \<le> n \<and> n \<le> 102"
    using assms by (simp add: lower_hex_char_def in_char_range_def less_eq_char_def n_def)
  then have "n \<in> {48, 49, 50, 51, 52, 53, 54, 55, 56, 57, 97, 98, 99, 100, 101, 102}"
    by simp presburger
  then have "n \<in> of_char ` set ''0123456789abcdef''" by simp
  then have "c \<in> set ''0123456789abcdef''" by (auto simp only: n_def image_iff of_char_eq_iff)
  then show "hex_value c < 16" "hex_char (hex_value c) = c" "c \<noteq> CHR ''-''"
    by (auto simp: hex_value_def hex_char_def less_eq_char_def)
qed

lemma RUN_ID_groups:
  assumes "RUN_ID_fullmatch s"
  shows "\<exists>a b c d e. s = a @ ''-'' @ b @ ''-'' @ c @ ''-'' @ d @ ''-'' @ e \<and>
    length a = 8 \<and> length b = 4 \<and> length c = 4 \<and> length d = 4 \<and> length e = 12 \<and>
    list_all lower_hex_char (a @ b @ c @ d @ e) \<and> c ! 0 = CHR ''4'' \<and> d ! 0 \<in> set ''89ab''"
proof -
  have hex: "lower_hex_char CHR ''4''" "\<forall>x \<in> set ''89ab''. lower_hex_char x"
    by code_simp+
  have reps: "length t = n \<and> list_all lower_hex_char t"
    if "list_all2 (\<lambda>p c. p c) (replicate n lower_hex_char) t" for n t
    using that by (auto simp: list_all2_conv_all_nth list_all_length)
  from assms obtain a b x y d e where
      s: "s = a @ ''-'' @ b @ ''-'' @ (CHR ''4'' # x) @ ''-'' @ (y # d) @ ''-'' @ e" and y: "y \<in> set ''89ab''"
      and m: "list_all2 (\<lambda>p c. p c) (replicate 8 lower_hex_char) a"
        "list_all2 (\<lambda>p c. p c) (replicate 4 lower_hex_char) b"
        "list_all2 (\<lambda>p c. p c) (replicate 3 lower_hex_char) x"
        "list_all2 (\<lambda>p c. p c) (replicate 3 lower_hex_char) d"
        "list_all2 (\<lambda>p c. p c) (replicate 12 lower_hex_char) e"
    unfolding RUN_ID_fullmatch_def RUN_ID_pattern_def
    by (clarsimp simp only: list_all2_append1 list_all2_Cons1 list_all2_Nil append_Nil append_Cons)
  have yh: "lower_hex_char y" using y hex(2) by blast
  show ?thesis
  proof (intro exI conjI)
    show "s = a @ ''-'' @ b @ ''-'' @ (CHR ''4'' # x) @ ''-'' @ (y # d) @ ''-'' @ e" by (rule s)
    show "(y # d) ! 0 \<in> set ''89ab''" using y by (simp only: nth_Cons_0)
    show "list_all lower_hex_char (a @ b @ (CHR ''4'' # x) @ (y # d) @ e)"
      using yh hex(1) reps[OF m(1)] reps[OF m(2)] reps[OF m(3)] reps[OF m(4)] reps[OF m(5)] by simp
  qed (use reps[OF m(1)] reps[OF m(2)] reps[OF m(3)] reps[OF m(4)] reps[OF m(5)] in simp_all)
qed

lemma variant_nibble:
  fixes n :: nat
  assumes "n mod 16 \<in> {8, 9, 10, 11}"
  shows "n div 8 mod 2 = 1 \<and> n div 4 mod 2 = 0"
proof -
  have "n mod 16 = 8 * (n div 8 mod 2) + n mod 8" "n mod 16 = 4 * (n div 4 mod 4) + n mod 4"
    using mod_mult2_eq[of n 8 2] mod_mult2_eq[of n 4 4] by simp_all
  moreover have "n mod 8 < 8" "n mod 4 < 4" "8 \<le> n mod 16" "n mod 16 \<le> 11" using assms by auto
  ultimately have "n div 8 mod 2 = 1" "n div 4 mod 4 = 2" by linarith+
  moreover have "n div 4 mod 2 = n div 4 mod 4 mod 2" by (simp add: mod_mod_cancel)
  ultimately show ?thesis by simp
qed

lemma uuid_of_groups:
  assumes "RUN_ID_fullmatch s"
  shows "uuid_version (uuid_of s) = 4 \<and> uuid_variant_rfc_4122 (uuid_of s) \<and> uuid_str (uuid_of s) = s"
proof -
  obtain a b c d e where s: "s = a @ ''-'' @ b @ ''-'' @ c @ ''-'' @ d @ ''-'' @ e"
      and len: "length a = 8" "length b = 4" "length c = 4" "length d = 4" "length e = 12"
      and hex: "list_all lower_hex_char (a @ b @ c @ d @ e)"
      and fixed: "c ! 0 = CHR ''4''" "d ! 0 \<in> set ''89ab''"
    using RUN_ID_groups[OF assms] by blast
  let ?h = "a @ b @ c @ d @ e"
  have nodash: "[x \<leftarrow> t. x \<noteq> CHR ''-''] = t" if "list_all lower_hex_char t" for t
    using that hex_value_char(3) by (simp add: list_all_iff filter_id_conv)
  have u: "uuid_of s = hex_int (map hex_value ?h)"
    using nodash[of a] nodash[of b] nodash[of c] nodash[of d] nodash[of e] hex
    by (simp add: uuid_of_def s)
  have digits: "list_all (\<lambda>d. d < 16) (map hex_value ?h)"
    using hex hex_value_char(1) unfolding list_all_iff by auto
  have digit: "uuid_of s div 16 ^ k mod 16 = hex_value (?h ! (31 - k))" if "k < 32" for k
  proof -
    have l: "length ?h = 32" by (simp add: len)
    then have "uuid_of s div 16 ^ k mod 16 = map hex_value ?h ! (31 - k)"
      using hex_int_digit[OF digits, of k] that unfolding u by (simp only: length_map) simp
    also have "\<dots> = hex_value (?h ! (31 - k))" using l by (intro nth_map) simp
    finally show ?thesis .
  qed
  have version: "uuid_version (uuid_of s) = 4"
    using digit[of 19] len fixed(1) by (simp add: uuid_version_def nth_append hex_value_def less_eq_char_def)
  have nib: "uuid_of s div 16 ^ 15 mod 16 \<in> {8, 9, 10, 11}"
    using digit[of 15] len fixed(2) by (auto simp: nth_append hex_value_def less_eq_char_def)
  have "uuid_of s div 2 ^ 63 = uuid_of s div 16 ^ 15 div 8" "uuid_of s div 2 ^ 62 = uuid_of s div 16 ^ 15 div 4"
    by (simp_all flip: div_mult2_eq)
  then have "uuid_variant_rfc_4122 (uuid_of s)"
    unfolding uuid_variant_rfc_4122_def using variant_nibble[OF nib] by (simp only:)
  moreover have "map (\<lambda>i. hex_char (uuid_of s div 16 ^ (31 - i) mod 16)) [0..<32] = ?h"
  proof (rule nth_equalityI)
    fix i assume "i < length (map (\<lambda>i. hex_char (uuid_of s div 16 ^ (31 - i) mod 16)) [0..<32])"
    then have i: "i < 32" by simp
    have "lower_hex_char (?h ! i)" using hex i len by (simp only: list_all_length length_append)
    then show "map (\<lambda>i. hex_char (uuid_of s div 16 ^ (31 - i) mod 16)) [0..<32] ! i = ?h ! i"
      using digit[of "31 - i"] i hex_value_char(2) by simp
  qed (simp add: len)
  then have "uuid_str (uuid_of s) = s" by (simp add: uuid_str_def s len)
  ultimately show ?thesis using version by blast
qed

section \<open>Lemmas on claims\<close>

lemma validate_natural_component_same: "validate_natural_component c = Inr c' \<Longrightarrow> c' = c"
  by (auto simp: validate_natural_component_def result_simps)

lemma validate_natural_key_same: "validate_natural_key k = Inr k' \<Longrightarrow> k' = k"
  using for_each_id[of validate_natural_component k k'] validate_natural_component_same
  by (auto simp: validate_natural_key_def result_simps)

lemma validate_planned_id_same: "validate_planned_id s x = Inr s' \<Longrightarrow> s' = s"
  by (auto simp: validate_planned_id_def result_simps split: option.splits)

lemma validate_natural_component_eq_Inr:
  "validate_natural_component c = Inr c' \<longleftrightarrow> c' = c \<and> c \<noteq> [] \<and>
     \<not> list_ex (\<lambda>x. 0xD800 \<le> x \<and> x \<le> 0xDFFF) c \<and>
     (\<exists>b. utf8_encode c = Inr b \<and> length b \<le> MAX_NATURAL_KEY_BYTES)"
  by (auto simp: validate_natural_component_def result_simps)

definition ascii :: "string \<Rightarrow> bool" where
  "ascii s = list_all (\<lambda>c. (of_char c :: nat) < 0x80) s"

lemma utf8_encode_ascii:
  assumes "ascii s"
  shows "utf8_encode (text_of s) = Inr (map word_of_nat (text_of s))"
  using assms unfolding ascii_def
  by (induction s) (auto simp: utf8_encode_def text_of_def scalar_value_def utf8_char_def split: if_splits)

lemma natural_component_ascii:
  assumes "ascii s" "s \<noteq> []" "length s \<le> 4096"
  shows "validate_natural_component (text_of s) = Inr (text_of s)"
proof -
  have "\<not> list_ex (\<lambda>x. 0xD800 \<le> x \<and> x \<le> 0xDFFF) (text_of s)"
    using assms(1) by (induction s) (auto simp: ascii_def text_of_def)
  then show ?thesis using assms utf8_encode_ascii[OF assms(1)]
    by (simp add: validate_natural_component_eq_Inr MAX_NATURAL_KEY_BYTES_def text_of_def)
qed

lemma planned_id_returns:
  assumes "validate_natural_key key = Inr key"
  shows "\<exists>s. planned_id g kind key = Inr s"
proof -
  let ?c = "PLANNED_ID_ALGORITHM # text_of (planned_kind_value kind) # key"
  have comp: "returns (encode_component t) \<and> t \<noteq> []" if "t \<in> set key" for t
  proof -
    have "for_each validate_natural_component key = Inr key"
      using assms by (auto simp: validate_natural_key_def result_simps)
    then have "returns (validate_natural_component t)"
      using that for_each_unit_ok[of validate_natural_component key] by simp
    then show ?thesis
      by (auto simp: returns_iff validate_natural_component_eq_Inr encode_component_eq_Inr
          MAX_NATURAL_KEY_BYTES_def UINT32_MAX_def)
  qed
  have root: "returns (encode_component t) \<and> t \<noteq> []"
    if "t \<in> {PLANNED_ID_ALGORITHM, text_of (planned_kind_value kind)}" for t
  proof -
    have "ascii s \<and> length s \<le> 4096 \<and> s \<noteq> []"
      if "s \<in> {''planned-id-v1'', planned_kind_value kind}" for s
      using that by (cases kind) (auto simp: ascii_def)
    moreover have "\<exists>s \<in> {''planned-id-v1'', planned_kind_value kind}. t = text_of s"
      using that by (auto simp: PLANNED_ID_ALGORITHM_def)
    ultimately obtain s where s: "t = text_of s" "ascii s" "length s \<le> 4096" "s \<noteq> []" by blast
    with utf8_encode_ascii[OF s(2)] show ?thesis
      by (auto simp: returns_iff encode_component_eq_Inr UINT32_MAX_def text_of_def)
  qed
  have "\<forall>t \<in> set ?c. returns (encode_component t)" using comp root by auto
  then have "returns (for_each encode_component ?c)" by (simp only: for_each_unit_ok)
  moreover have "[] \<notin> set ?c" using comp root by auto
  ultimately obtain e where "encode_context ?c = Inr e"
    unfolding encode_context_eq_Inr returns_iff for_each_eq_Inr by blast
  moreover have "blocks_for 16 = 1" by (simp add: blocks_for_def DIGEST_SIZE_def)
  ultimately obtain raw where raw: "draw_bytes g ?c 16 = Inr raw" by (auto simp: draw_bytes_eq_Inr)
  have "length raw = 16" using draw_bytes_length[OF raw] by simp
  with raw assms show ?thesis by (simp add: planned_id_def ULID_BYTES_def encode_crockford_ulid_def)
qed

definition claim_valid :: "string \<times> ustring list \<Rightarrow> bool" where
  "claim_valid p = (returns (validate_planned_id (fst p) None) \<and> returns (validate_natural_key (snd p)))"

lemma registry_claim_eq_Inr:
  "registry_claim m i k = Inr m' \<longleftrightarrow> claim_valid (i, k) \<and> m i \<in> {None, Some k} \<and> m' = m(i \<mapsto> k)"
proof (cases "claim_valid (i, k)")
  case True
  then have "validate_planned_id i None = Inr i" "validate_natural_key k = Inr k"
    using validate_planned_id_same validate_natural_key_same by (auto simp: claim_valid_def returns_iff)
  with True show ?thesis
    by (auto simp: registry_claim_def fun_upd_idem split: option.splits if_splits)
next
  case False
  then show ?thesis by (auto simp: registry_claim_def claim_valid_def returns_iff result_simps)
qed

lemma registry_run_eq_Inr:
  "registry_run m cs = Inr r \<longleftrightarrow>
     list_all claim_valid cs \<and> single_valued (Map.graph m \<union> set cs) \<and> r = m ++ map_of cs"
proof (induction cs arbitrary: m)
  case Nil
  have "single_valued (Map.graph m)" by (auto simp: single_valued_def Map.graph_def)
  then show ?case by auto
next
  case (Cons c cs)
  obtain i k where c: "c = (i, k)" by (cases c)
  show ?case
  proof (cases "m i \<in> {None, Some k}")
    case True
    then have g: "Map.graph (m(i \<mapsto> k)) = insert (i, k) (Map.graph m)"
      by (auto simp: Map.graph_def split: if_splits)
    have eq: "m(i \<mapsto> k) ++ map_of cs = m ++ map_of ((i, k) # cs)"
      if "single_valued (Map.graph m \<union> set ((i, k) # cs))"
    proof
      fix x
      have "map_of cs i \<in> {None, Some k}"
        using that map_of_SomeD[of cs i] by (cases "map_of cs i") (auto simp: single_valued_def)
      then show "(m(i \<mapsto> k) ++ map_of cs) x = (m ++ map_of ((i, k) # cs)) x"
        by (auto simp: map_add_def split: option.splits)
    qed
    have "registry_run m (c # cs) = Inr r \<longleftrightarrow> claim_valid c \<and> registry_run (m(i \<mapsto> k)) cs = Inr r"
      using True by (auto simp: c and_then_eq_Inr registry_claim_eq_Inr)
    moreover have sv: "insert (i, k) (Map.graph m) \<union> set cs = Map.graph m \<union> set ((i, k) # cs)" by simp
    ultimately show ?thesis unfolding Cons.IH[of "m(i \<mapsto> k)"] g sv c list.pred_inject
      by (cases "single_valued (Map.graph m \<union> set ((i, k) # cs))") (simp_all only: eq simp_thms conj_assoc)
  next
    case False
    then obtain k' where "m i = Some k'" "k' \<noteq> k" by auto
    then have "\<not> single_valued (Map.graph m \<union> set (c # cs))"
      by (auto simp: single_valued_def Map.graph_def c)
    with False show ?thesis by (auto simp: c and_then_eq_Inr registry_claim_eq_Inr)
  qed
qed

section \<open>Properties\<close>

text \<open>The ULID codec is exact in both directions: a text decodes to a payload precisely when that
  payload encodes to the text, so that decoding accepts only canonical texts and loses nothing.\<close>

lemma ulid_codec_exact:
  "decode_crockford_ulid s = Inr raw \<longleftrightarrow> encode_crockford_ulid raw = Inr s"
  by (rule decode_iff_encode)

text \<open>C12. Identifier texts are unambiguous: a text parses as a planned (fresh) identifier of a kind
  exactly when it is that kind's prefix, an underscore and the encoded payload, and no text parses
  as both, although one fresh prefix begins a planned one.\<close>

theorem identifiers_unambiguous:
  "(parse_planned_id s = Inr (k, raw) \<longleftrightarrow>
      (\<exists>u. s = planned_kind_value k @ ''_'' @ u \<and> encode_crockford_ulid raw = Inr u)) \<and>
   (parse_fresh_id s = Inr (f, raw) \<longleftrightarrow> new_fresh_id f raw = Inr s) \<and>
   \<not> (returns (parse_planned_id s) \<and> returns (parse_fresh_id s))"
proof (intro conjI)
  show "parse_fresh_id s = Inr (f, raw) \<longleftrightarrow> new_fresh_id f raw = Inr s"
    by (auto simp: parse_fresh_eq_Inr new_fresh_id_def result_simps)
  show "\<not> (returns (parse_planned_id s) \<and> returns (parse_fresh_id s))"
    using fresh_not_planned[of s] unfolding returns_iff by blast
qed (rule parse_planned_eq_Inr)

text \<open>A derived planned identifier is replay-stable and typed: it parses back to the requested
  kind and to the 16 bytes drawn for its kind and natural key.\<close>

lemma planned_id_parses:
  assumes "planned_id g kind key = Inr s"
  shows "\<exists>raw. draw_bytes g (PLANNED_ID_ALGORITHM # text_of (planned_kind_value kind) # key) 16 = Inr raw \<and>
    parse_planned_id s = Inr (kind, raw) \<and> validate_planned_id s (Some kind) = Inr s"
proof -
  obtain comps raw u where 1: "validate_natural_key key = Inr comps"
      "draw_bytes g (PLANNED_ID_ALGORITHM # text_of (planned_kind_value kind) # comps) 16 = Inr raw"
      "encode_crockford_ulid raw = Inr u" "s = planned_kind_value kind @ ''_'' @ u"
    using assms by (auto simp: planned_id_def result_simps ULID_BYTES_def)
  have "comps = key" using 1(1) by (rule validate_natural_key_same)
  moreover have parsed: "parse_planned_id s = Inr (kind, raw)" using 1(3,4) by (auto simp: parse_planned_eq_Inr)
  then have "validate_planned_id s (Some kind) = Inr s" by (simp add: validate_planned_id_def)
  ultimately show ?thesis using 1(2) parsed by blast
qed

text \<open>The registry admits a sequence of claims exactly when each claim is well formed and no
  identifier is claimed by two different natural keys; it then holds precisely the claims made.\<close>

lemma registry_detects_collisions:
  "registry_run Map.empty claims = Inr registry \<longleftrightarrow>
     list_all claim_valid claims \<and> single_valued (set claims) \<and> registry = map_of claims"
  by (simp add: registry_run_eq_Inr)

text \<open>A run identifier is accepted exactly when it matches the canonical lowercase UUIDv4 shape:
  the version, variant and re-printing checks that follow never reject a matching text.\<close>

lemma run_id_shape_decides:
  "validate_run_id s = (if RUN_ID_fullmatch s then Inr s
     else Inl (ValueError ''run_id must be a canonical lowercase UUIDv4''))"
  using uuid_of_groups[of s] by (simp add: validate_run_id_def Let_def)

text \<open>The all-zero payload, for concrete identifiers.\<close>

lemma zero_payload: "encode_crockford_ulid (replicate 16 0) = Inr (replicate 26 CHR ''0'')"
proof -
  have "encode_loop k 0 = replicate k CHR ''0''" for k
    by (induction k) (simp_all add: CROCKFORD_ALPHABET_def replicate_append_same)
  moreover have "from_bytes (replicate k 0) = 0" for k
    by (induction k) (simp_all add: from_bytes_def foldl_conv_fold)
  ultimately show ?thesis by (simp add: encode_eq_Inr ULID_BYTES_def ULID_LENGTH_def)
qed

lemma planned_id_parses_witness:
  "\<exists>s raw. planned_id \<lparr>normalized_seed_hash = replicate 32 0\<rparr> EVENT [text_of ''a''] = Inr s \<and>
     parse_planned_id s = Inr (EVENT, raw)"
proof -
  have "validate_natural_key [text_of ''a''] = Inr [text_of ''a'']"
    by (simp add: validate_natural_key_def validate_natural_component_def text_of_def utf8_encode_def
        scalar_value_def utf8_char_def MAX_NATURAL_KEY_BYTES_def)
  from planned_id_returns[OF this] obtain s
    where s: "planned_id \<lparr>normalized_seed_hash = replicate 32 0\<rparr> EVENT [text_of ''a''] = Inr s" by blast
  from planned_id_parses[OF s] s show ?thesis by blast
qed

end
