(* ===== verification/Barriers.thy ===== *)
theory Barriers
  imports Conformance_Prelude "HOL-Library.AList" "HOL-Library.Multiset"
begin

text \<open>
  The structured-concurrency release of \<open>scheduler/barriers.py\<close>: validation and grouping of the work
  into cohorts, and \<open>run_concurrency_groups\<close> as a step relation. Its state is the shared index of
  the next work item, the cohorts released so far, the state of every worker task and the result
  slots; a step is one worker passing from one suspension point to the next, or the release of the
  next cohort, in any order the event loop chooses. The callback's result and the clock readings
  are arbitrary. A callback or a reading that raises cancels the task group and the call raises;
  the relation describes the runs in which none does.
\<close>

section \<open>Data\<close>

definition DEFAULT_DELIVERY_CONCURRENCY :: int where "DEFAULT_DELIVERY_CONCURRENCY = 10"
definition HARD_DELIVERY_CONCURRENCY :: int where "HARD_DELIVERY_CONCURRENCY = 50"
definition MAX_GROUP_ITEMS :: nat where "MAX_GROUP_ITEMS = 100000"

record 'a ConcurrencyWork =
  work_id :: string
  concurrency_group :: string
  work_ordinal :: int
  work_payload :: 'a

definition barrier_token :: "string \<Rightarrow> string \<Rightarrow> nat \<Rightarrow> string result" where
  "barrier_token v field_name maximum =
     and_then (raise_unless (bounded_token maximum v)
         (BarrierInputError (field_name @ '' must be a bounded ASCII token'')))
       (\<lambda>_. Inr v)"

definition barrier_monotonic :: "int \<Rightarrow> int result" where
  "barrier_monotonic v =
     and_then (raise_unless (0 \<le> v)
         (BarrierInputError ''monotonic evidence must be a nonnegative integer'')) (\<lambda>_. Inr v)"

definition ConcurrencyWork_post_init :: "'a ConcurrencyWork \<Rightarrow> 'a ConcurrencyWork result" where
  "ConcurrencyWork_post_init w =
     and_then (barrier_token (work_id w) ''work_id'' 96) (\<lambda>_.
     and_then (barrier_token (concurrency_group w) ''concurrency_group'' 128) (\<lambda>_.
     and_then (raise_unless (0 \<le> work_ordinal w \<and> work_ordinal w \<le> MAX_SAFE_INTEGER)
         (BarrierInputError ''ordinal must be a nonnegative safe integer'')) (\<lambda>_.
       Inr w)))"

record ActualStartEvidence =
  start_work_id :: string
  start_group :: string
  actual_monotonic_start_ns :: int

definition ActualStartEvidence_init :: "string \<Rightarrow> string \<Rightarrow> int \<Rightarrow> ActualStartEvidence result" where
  "ActualStartEvidence_init wid g ns =
     and_then (barrier_token wid ''work_id'' 96) (\<lambda>_.
     and_then (barrier_token g ''concurrency_group'' 128) (\<lambda>_.
     and_then (barrier_monotonic ns) (\<lambda>_.
       Inr \<lparr>start_work_id = wid, start_group = g, actual_monotonic_start_ns = ns\<rparr>)))"

record BarrierRelease =
  release_group :: string
  released_monotonic_ns :: int
  eligible_work_ids :: "string list"

definition BarrierRelease_init :: "string \<Rightarrow> int \<Rightarrow> string list \<Rightarrow> BarrierRelease result" where
  "BarrierRelease_init g ns ids =
     and_then (barrier_token g ''concurrency_group'' 128) (\<lambda>_.
     and_then (barrier_monotonic ns) (\<lambda>_.
     and_then (raise_unless (ids \<noteq> []) (BarrierInputError ''eligible_work_ids must be a nonempty tuple'')) (\<lambda>_.
     and_then (for_each (\<lambda>i. barrier_token i ''eligible work ID'' 96) ids) (\<lambda>_.
     and_then (raise_unless (distinct ids) (BarrierInputError ''eligible_work_ids must be unique'')) (\<lambda>_.
       Inr \<lparr>release_group = g, released_monotonic_ns = ns, eligible_work_ids = ids\<rparr>)))))"

record ('a, 'r) CompletedWork =
  completed_work :: "'a ConcurrencyWork"
  completed_result :: 'r
  completed_start :: ActualStartEvidence

record ('a, 'r) BarrierRun =
  run_completed :: "('a, 'r) CompletedWork list"
  run_releases :: "BarrierRelease list"
  configured_concurrency :: int
  peak_created_tasks :: int

definition validate_concurrency :: "int option \<Rightarrow> int result" where
  "validate_concurrency v =
     (let realized = (case v of None \<Rightarrow> DEFAULT_DELIVERY_CONCURRENCY | Some c \<Rightarrow> c)
      in and_then (raise_unless (1 \<le> realized \<and> realized \<le> HARD_DELIVERY_CONCURRENCY)
           (BarrierInputError ''delivery concurrency must be between 1 and 50'')) (\<lambda>_. Inr realized))"

definition BarrierRun_init ::
    "('a, 'r) CompletedWork list \<Rightarrow> BarrierRelease list \<Rightarrow> int \<Rightarrow> int \<Rightarrow> ('a, 'r) BarrierRun result" where
  "BarrierRun_init completed rels concurrency peak =
     and_then (validate_concurrency (Some concurrency)) (\<lambda>_.
     and_then (raise_unless (0 \<le> peak \<and> peak \<le> concurrency)
         (ValueError ''peak_created_tasks exceeds configured concurrency'')) (\<lambda>_.
       Inr \<lparr>run_completed = completed, run_releases = rels, configured_concurrency = concurrency,
            peak_created_tasks = peak\<rparr>))"

section \<open>Grouping\<close>

type_synonym 'a entry = "nat \<times> 'a ConcurrencyWork"
type_synonym 'a cohort = "string \<times> 'a entry list"

definition entry_key :: "'a entry \<Rightarrow> int \<times> nat" where
  "entry_key entry = (work_ordinal (snd entry), fst entry)"

fun group_loop ::
    "nat \<Rightarrow> 'a ConcurrencyWork list \<Rightarrow> string set \<Rightarrow> 'a cohort list \<Rightarrow> string list \<Rightarrow>
      ('a cohort list \<times> string list) result" where
  "group_loop index [] identities groups group_order = Inr (groups, group_order)"
| "group_loop index (item # items) identities groups group_order =
     (if work_id item \<in> identities
      then Inl (BarrierInputError ''duplicate or conflicting work identity'')
      else let g = concurrency_group item;
               new = (map_of groups g = None);
               groups' = (if new then AList.update g [] groups else groups);
               group_order' = (if new then group_order @ [g] else group_order);
               groups'' = AList.update g (the (map_of groups' g) @ [(index, item)]) groups'
           in group_loop (Suc index) items (insert (work_id item) identities) groups'' group_order')"

definition validate_and_group :: "'a ConcurrencyWork list \<Rightarrow> 'a cohort list result" where
  "validate_and_group work =
     and_then (raise_unless (length work \<le> MAX_GROUP_ITEMS)
         (BarrierInputError ''work exceeds the scheduler item limit'')) (\<lambda>_.
     and_then (group_loop 0 work {} [] []) (\<lambda>(groups, group_order).
       Inr (map (\<lambda>g. (g, sort_key entry_key (the (map_of groups g)))) group_order)))"

section \<open>The run as a step relation\<close>

datatype 'a worker =
    Idle
  | Waiting "'a entry"
  | Running "'a entry" ActualStartEvidence
  | Returned

datatype event = Released string | Started string string

record ('a, 'r) barrier_state =
  next_index :: nat
  workers :: "'a worker list"
  releases :: "BarrierRelease list"
  slots :: "('a, 'r) CompletedWork option list"
  events :: "event list"

text \<open>The state before the first step: \<open>created\<close> workers, all slots empty.\<close>

definition barrier_start :: "int \<Rightarrow> 'a ConcurrencyWork list \<Rightarrow> ('a, 'r) barrier_state" where
  "barrier_start concurrency work =
     \<lparr>next_index = 0, workers = replicate (nat (min concurrency (int (length work)))) Idle,
      releases = [], slots = replicate (length work) None, events = []\<rparr>"

definition pending_entries :: "'a cohort list \<Rightarrow> 'a entry list" where
  "pending_entries cohorts = concat (map snd cohorts)"

definition group_released :: "('a, 'r) barrier_state \<Rightarrow> string \<Rightarrow> bool" where
  "group_released s g = (g \<in> set (map release_group (releases s)))"

inductive barrier_step ::
    "'a cohort list \<Rightarrow> ('a, 'r) barrier_state \<Rightarrow> ('a, 'r) barrier_state \<Rightarrow> bool"
  for cohorts :: "'a cohort list" where
  claim:
    "i < length (workers s) \<Longrightarrow> workers s ! i = Idle \<Longrightarrow> next_index s < length (pending_entries cohorts) \<Longrightarrow>
     barrier_step cohorts s
       (s\<lparr>workers := (workers s)[i := Waiting (pending_entries cohorts ! next_index s)],
          next_index := Suc (next_index s)\<rparr>)"
| leave:
    "i < length (workers s) \<Longrightarrow> workers s ! i = Idle \<Longrightarrow> length (pending_entries cohorts) \<le> next_index s \<Longrightarrow>
     barrier_step cohorts s (s\<lparr>workers := (workers s)[i := Returned]\<rparr>)"
| start:
    "i < length (workers s) \<Longrightarrow> workers s ! i = Waiting entry \<Longrightarrow>
     group_released s (concurrency_group (snd entry)) \<Longrightarrow>
     ActualStartEvidence_init (work_id (snd entry)) (concurrency_group (snd entry)) reading = Inr evidence \<Longrightarrow>
     barrier_step cohorts s
       (s\<lparr>workers := (workers s)[i := Running entry evidence],
          events := events s @ [Started (concurrency_group (snd entry)) (work_id (snd entry))]\<rparr>)"
| complete:
    "i < length (workers s) \<Longrightarrow> workers s ! i = Running entry evidence \<Longrightarrow>
     barrier_step cohorts s
       (s\<lparr>workers := (workers s)[i := Idle],
          slots := (slots s)[fst entry := Some \<lparr>completed_work = snd entry, completed_result = r,
                                                 completed_start = evidence\<rparr>]\<rparr>)"
| release:
    "length (releases s) < length cohorts \<Longrightarrow> cohorts ! length (releases s) = (g, cohort) \<Longrightarrow>
     BarrierRelease_init g reading (map (work_id \<circ> snd) cohort) = Inr rel \<Longrightarrow>
     barrier_step cohorts s (s\<lparr>releases := releases s @ [rel], events := events s @ [Released g]\<rparr>)"

definition barrier_final :: "'a cohort list \<Rightarrow> ('a, 'r) barrier_state \<Rightarrow> bool" where
  "barrier_final cohorts s \<longleftrightarrow> list_all (\<lambda>w. w = Returned) (workers s) \<and> length (releases s) = length cohorts"

text \<open>What the call returns once the task group has ended.\<close>

definition barrier_result :: "int \<Rightarrow> ('a, 'r) barrier_state \<Rightarrow> ('a, 'r) BarrierRun result" where
  "barrier_result concurrency s =
     (if list_ex (\<lambda>c. c = None) (slots s)
      then Inl (RuntimeError ''structured concurrency completed without every result'')
      else BarrierRun_init (map the (slots s)) (releases s) concurrency (int (length (workers s))))"

section \<open>Lemmas on grouping\<close>

definition in_group :: "string \<Rightarrow> 'a entry list \<Rightarrow> 'a entry list" where
  "in_group g es = [e \<leftarrow> es. concurrency_group (snd e) = g]"

definition group_order_of :: "'a entry list \<Rightarrow> string list" where
  "group_order_of es = rev (remdups (rev (map (concurrency_group \<circ> snd) es)))"

lemma set_group_order [simp]: "set (group_order_of es) = (concurrency_group \<circ> snd) ` set es"
  by (simp add: group_order_of_def)

lemma distinct_group_order [simp]: "distinct (group_order_of es)"
  by (simp add: group_order_of_def)

lemma group_order_Nil [simp]: "group_order_of [] = []"
  by (simp add: group_order_of_def)

lemma group_order_snoc:
  "group_order_of (es @ [e]) = (if concurrency_group (snd e) \<in> set (group_order_of es)
     then group_order_of es else group_order_of es @ [concurrency_group (snd e)])"
  by (auto simp: group_order_of_def)

lemma map_of_graph: "map_of (map (\<lambda>k. (k, f k)) ks) g = (if g \<in> set ks then Some (f g) else None)"
  by (induction ks) auto

lemma update_graph:
  "distinct ks \<Longrightarrow> g \<in> set ks \<Longrightarrow>
   AList.update g v (map (\<lambda>k. (k, f k)) ks) = map (\<lambda>k. (k, if k = g then v else f k)) ks"
  by (induction ks) auto

lemma update_absent: "g \<notin> fst ` set al \<Longrightarrow> AList.update g v al = al @ [(g, v)]"
  by (induction al) auto

lemma update_last: "g \<notin> fst ` set al \<Longrightarrow> AList.update g v (al @ [(g, w)]) = al @ [(g, v)]"
  by (induction al) auto

lemma group_step:
  fixes es :: "'a entry list" and e :: "'a entry"
  defines "groups \<equiv> map (\<lambda>g. (g, in_group g es)) (group_order_of es)"
  defines "g \<equiv> concurrency_group (snd e)"
  defines "groups' \<equiv> (if map_of groups g = None then AList.update g [] groups else groups)"
  shows "AList.update g (the (map_of groups' g) @ [e]) groups' =
      map (\<lambda>g. (g, in_group g (es @ [e]))) (group_order_of (es @ [e]))"
    and "map_of groups g = None \<longleftrightarrow> g \<notin> set (group_order_of es)"
proof -
  show none: "map_of groups g = None \<longleftrightarrow> g \<notin> set (group_order_of es)"
    unfolding groups_def map_of_graph by simp
  show "AList.update g (the (map_of groups' g) @ [e]) groups' =
      map (\<lambda>g. (g, in_group g (es @ [e]))) (group_order_of (es @ [e]))"
  proof (cases "g \<in> set (group_order_of es)")
    case True
    then have "groups' = groups" using none unfolding groups'_def by (simp only: if_False not_True_eq_False)
    moreover have "map_of groups g = Some (in_group g es)"
      using True unfolding groups_def map_of_graph by simp
    ultimately show ?thesis
      using True update_graph[OF distinct_group_order True, of "in_group g es @ [e]" "\<lambda>g. in_group g es"]
      by (auto simp: groups_def group_order_snoc g_def[symmetric] in_group_def)
  next
    case False
    have "fst ` set groups = set (group_order_of es)" unfolding groups_def list.set_map image_image by simp
    with False have absent: "g \<notin> fst ` set groups" by metis
    have g': "groups' = groups @ [(g, [])]"
      using False none update_absent[OF absent, of "[]"] unfolding groups'_def by (simp only: if_True not_False_eq_True)
    have "map_of groups' g = Some []" using False none by (simp add: g' map_add_Some_iff)
    moreover have "AList.update g [e] (groups @ [(g, [])]) = groups @ [(g, [e])]"
      using absent by (rule update_last)
    moreover have "in_group g es = []" using False by (auto simp: in_group_def filter_empty_conv)
    moreover have "in_group k (es @ [e]) = in_group k es" if "k \<in> set (group_order_of es)" for k
      using that False by (auto simp: in_group_def g_def)
    ultimately show ?thesis using False
      by (simp add: group_order_snoc g_def[symmetric] g' groups_def in_group_def)
  qed
qed

definition groups_of :: "'a entry list \<Rightarrow> 'a cohort list" where
  "groups_of es = map (\<lambda>g. (g, in_group g es)) (group_order_of es)"

lemma group_loop_Cons:
  assumes "work_id item \<notin> ids"
  shows "group_loop (length es) (item # items) ids (groups_of es) (group_order_of es) =
    group_loop (Suc (length es)) items (insert (work_id item) ids) (groups_of (es @ [(length es, item)]))
      (group_order_of (es @ [(length es, item)]))"
proof -
  let ?e = "(length es, item)"
  note step = group_step[where es = es and e = ?e, folded groups_of_def, unfolded snd_conv]
  have "(if map_of (groups_of es) (concurrency_group item) = None
      then group_order_of es @ [concurrency_group item] else group_order_of es) = group_order_of (es @ [?e])"
    unfolding step(2) group_order_snoc snd_conv by simp
  then show ?thesis unfolding group_loop.simps Let_def if_not_P[OF assms] step(1) by (simp only:)
qed

lemma group_loop_eq:
  "group_loop (length es) items (work_id ` snd ` set es) (groups_of es) (group_order_of es) =
   (if distinct (map work_id items) \<and> work_id ` set items \<inter> work_id ` snd ` set es = {}
    then let all = es @ zip [length es..<length es + length items] items
         in Inr (groups_of all, group_order_of all)
    else Inl (BarrierInputError ''duplicate or conflicting work identity''))"
proof (induction items arbitrary: es)
  case (Cons item items)
  let ?e = "(length es, item)"
  show ?case
  proof (cases "work_id item \<in> work_id ` snd ` set es")
    case False
    have zip: "zip [length es..<length es + length (item # items)] (item # items)
        = ?e # zip [length (es @ [?e])..<length (es @ [?e]) + length items] items"
      by (simp add: upt_conv_Cons del: upt_Suc)
    have "insert (work_id item) (work_id ` snd ` set es) = work_id ` snd ` set (es @ [?e])" by simp
    with group_loop_Cons[OF False, of es items]
    have "group_loop (length es) (item # items) (work_id ` snd ` set es) (groups_of es) (group_order_of es) =
      group_loop (length (es @ [?e])) items (work_id ` snd ` set (es @ [?e])) (groups_of (es @ [?e]))
        (group_order_of (es @ [?e]))"
      by (simp only: length_append_singleton)
    moreover have "(distinct (map work_id items) \<and> work_id ` set items \<inter> work_id ` snd ` set (es @ [?e]) = {})
      = (distinct (map work_id (item # items)) \<and>
          work_id ` set (item # items) \<inter> work_id ` snd ` set es = {})"
      using False by auto
    ultimately show ?thesis unfolding Cons.IH zip by simp
  qed auto
qed (simp add: Let_def)

lemma validate_and_group_eq:
  "validate_and_group work =
     (if \<not> length work \<le> MAX_GROUP_ITEMS
      then Inl (BarrierInputError ''work exceeds the scheduler item limit'')
      else if \<not> distinct (map work_id work)
      then Inl (BarrierInputError ''duplicate or conflicting work identity'')
      else Inr (map (\<lambda>g. (g, sort_key entry_key (in_group g (zip [0..<length work] work))))
                 (group_order_of (zip [0..<length work] work))))"
proof -
  have "group_loop 0 work {} [] [] = (if distinct (map work_id work)
      then let all = zip [0..<length work] work
         in Inr (groups_of all, group_order_of all)
      else Inl (BarrierInputError ''duplicate or conflicting work identity''))"
    using group_loop_eq[of "[]" work] by (simp add: groups_of_def)
  then show ?thesis
    by (auto simp: groups_of_def validate_and_group_def Let_def map_of_graph intro!: map_cong)
qed

lemma set_in_group: "set (in_group g es) = {e \<in> set es. concurrency_group (snd e) = g}"
  by (simp add: in_group_def)

lemma distinct_groups:
  "distinct es \<Longrightarrow> distinct ks \<Longrightarrow> distinct (concat (map (\<lambda>g. sort_key entry_key (in_group g es)) ks))"
  by (induction ks) (auto simp: set_in_group, simp add: in_group_def)

text \<open>The cohorts as \<open>validate_and_group\<close> builds them from work with distinct identities.\<close>

definition cohorts_of :: "'a ConcurrencyWork list \<Rightarrow> 'a cohort list" where
  "cohorts_of work = (let all = zip [0..<length work] work in
     map (\<lambda>g. (g, sort_key entry_key (in_group g all))) (group_order_of all))"

lemma validate_and_group_eq_Inr:
  "validate_and_group work = Inr cohorts \<longleftrightarrow>
     length work \<le> MAX_GROUP_ITEMS \<and> distinct (map work_id work) \<and> cohorts = cohorts_of work"
  by (auto simp: validate_and_group_eq cohorts_of_def Let_def)

lemma pending_entries_eq:
  "pending_entries (cohorts_of work) = concat (map (\<lambda>g. sort_key entry_key (in_group g (zip [0..<length work] work)))
     (group_order_of (zip [0..<length work] work)))"
  by (simp add: pending_entries_def cohorts_of_def Let_def comp_def)

lemma pending_entries_distinct: "distinct (pending_entries (cohorts_of work))"
  unfolding pending_entries_eq by (intro distinct_groups distinct_group_order distinct_zipI1) simp

lemma pending_entries_set: "set (pending_entries (cohorts_of work)) = set (zip [0..<length work] work)"
  unfolding pending_entries_eq by (force simp: set_in_group)

lemma entry_iff: "e \<in> set (zip [0..<length work] work) \<longleftrightarrow> fst e < length work \<and> snd e = work ! fst e"
  by (cases e) (force simp: in_set_zip)

lemma entry_work: "e \<in> set (zip xs work) \<Longrightarrow> snd e \<in> set work"
  by (cases e) (auto dest: set_zip_rightD)

section \<open>The invariant of a run\<close>

fun worker_entries :: "'a worker \<Rightarrow> 'a entry list" where
  "worker_entries (Waiting e) = [e]"
| "worker_entries (Running e _) = [e]"
| "worker_entries _ = []"

fun running_entries :: "'a worker \<Rightarrow> 'a entry list" where
  "running_entries (Running e _) = [e]"
| "running_entries _ = []"

definition held :: "('a, 'r) barrier_state \<Rightarrow> 'a entry list" where
  "held s = concat (map worker_entries (workers s))"

definition running :: "('a, 'r) barrier_state \<Rightarrow> 'a entry list" where
  "running s = concat (map running_entries (workers s))"

definition finished :: "'a ConcurrencyWork list \<Rightarrow> ('a, 'r) barrier_state \<Rightarrow> 'a entry set" where
  "finished work s = {e \<in> set (zip [0..<length work] work). slots s ! fst e \<noteq> None}"

definition started_work :: "event list \<Rightarrow> string list" where
  "started_work evs = concat (map (\<lambda>e. case e of Started _ wid \<Rightarrow> [wid] | _ \<Rightarrow> []) evs)"

text \<open>Every start is preceded by the release of its group.\<close>

definition starts_follow_release :: "event list \<Rightarrow> bool" where
  "starts_follow_release evs \<longleftrightarrow>
     (\<forall>xs g wid ys. evs = xs @ Started g wid # ys \<longrightarrow> Released g \<in> set xs)"

definition barrier_inv :: "'a ConcurrencyWork list \<Rightarrow> ('a, 'r) barrier_state \<Rightarrow> bool" where
  "barrier_inv work s \<longleftrightarrow>
     length (slots s) = length work \<and>
     mset (take (next_index s) (pending_entries (cohorts_of work))) = mset (held s) + mset_set (finished work s) \<and>
     mset (started_work (events s)) = image_mset (work_id \<circ> snd) (mset (running s) + mset_set (finished work s)) \<and>
     (\<forall>i c. i < length work \<longrightarrow> slots s ! i = Some c \<longrightarrow> completed_work c = work ! i) \<and>
     (Returned \<in> set (workers s) \<longrightarrow> length (pending_entries (cohorts_of work)) \<le> next_index s) \<and>
     map release_group (releases s) = take (length (releases s)) (map fst (cohorts_of work)) \<and>
     length (releases s) \<le> length (cohorts_of work) \<and>
     (\<forall>g. group_released s g \<longleftrightarrow> Released g \<in> set (events s)) \<and>
     starts_follow_release (events s)"

lemma mset_concat_update:
  "i < length xs \<Longrightarrow>
   mset (concat (map f (xs[i := x]))) + mset (f (xs ! i)) = mset (concat (map f xs)) + mset (f x)"
  by (induction xs arbitrary: i) (auto simp: nth_Cons' less_Suc_eq_0_disj split: nat.splits)

lemma finite_finished [simp]: "finite (finished work s)"
  by (simp add: finished_def)

lemma started_work_snoc [simp]:
  "started_work (evs @ [Started g w]) = started_work evs @ [w]"
  "started_work (evs @ [Released g]) = started_work evs"
  by (simp_all add: started_work_def)

lemma starts_follow_release_snoc:
  "starts_follow_release (evs @ [Released g]) \<longleftrightarrow> starts_follow_release evs"
  "starts_follow_release (evs @ [Started g w]) \<longleftrightarrow> starts_follow_release evs \<and> Released g \<in> set evs"
proof -
  have snoc: "evs @ [e] = xs @ Started h v # ys \<longleftrightarrow>
      (e = Started h v \<and> xs = evs \<and> ys = []) \<or> (\<exists>zs. ys = zs @ [e] \<and> evs = xs @ Started h v # zs)"
    for e xs h v ys
    by (cases ys rule: rev_cases) auto
  show "starts_follow_release (evs @ [Released g]) \<longleftrightarrow> starts_follow_release evs"
    unfolding starts_follow_release_def snoc by auto
  show "starts_follow_release (evs @ [Started g w]) \<longleftrightarrow> starts_follow_release evs \<and> Released g \<in> set evs"
    unfolding starts_follow_release_def snoc by auto
qed

lemma held_update:
  assumes "i < length (workers s)" "workers s' = (workers s)[i := w]"
  shows "mset (held s') + mset (worker_entries (workers s ! i)) = mset (held s) + mset (worker_entries w)"
    and "mset (running s') + mset (running_entries (workers s ! i)) = mset (running s) + mset (running_entries w)"
  using mset_concat_update[OF assms(1)] by (simp_all add: held_def running_def assms(2))

lemma held_member:
  assumes "i < length (workers s)" "e \<in> set (worker_entries (workers s ! i))"
  shows "e \<in># mset (held s)"
  using assms nth_mem[OF assms(1)] by (auto simp: held_def)

lemma held_fresh:
  assumes "barrier_inv work s" "e \<in># mset (held s)"
  shows "e \<in> set (zip [0..<length work] work)" "e \<notin> finished work s"
proof -
  let ?t = "take (next_index s) (pending_entries (cohorts_of work))"
  have ms: "mset ?t = mset (held s) + mset_set (finished work s)"
    using assms(1) by (simp only: barrier_inv_def)
  have "e \<in># mset ?t" unfolding ms using assms(2) by (simp only: union_iff simp_thms)
  then have "e \<in> set (pending_entries (cohorts_of work))" by (auto dest: in_set_takeD)
  then show "e \<in> set (zip [0..<length work] work)" by (simp only: pending_entries_set)
  have "distinct ?t" by (rule distinct_take) (rule pending_entries_distinct)
  then have "count (mset ?t) e \<le> 1" by (metis distinct_count_atmost_1 order_refl zero_le_one)
  moreover have "1 \<le> count (mset (held s)) e" using assms(2) by (simp only: count_greater_eq_one_iff)
  ultimately have "count (mset_set (finished work s)) e = 0" unfolding ms count_union by linarith
  then show "e \<notin> finished work s" by (metis count_mset_set(1) finite_finished one_neq_zero)
qed

lemma finished_unchanged: "slots s' = slots s \<Longrightarrow> finished work s' = finished work s"
  by (simp add: finished_def)

lemma barrier_inv_simple:
  assumes inv: "barrier_inv work s" and "slots s' = slots s"
    and "mset (take (next_index s') (pending_entries (cohorts_of work))) + mset (held s)
      = mset (take (next_index s) (pending_entries (cohorts_of work))) + mset (held s')"
    and "mset (started_work (events s')) + image_mset (work_id \<circ> snd) (mset (running s))
      = mset (started_work (events s)) + image_mset (work_id \<circ> snd) (mset (running s'))"
    and "Returned \<in> set (workers s') \<longrightarrow> length (pending_entries (cohorts_of work)) \<le> next_index s'"
    and "map release_group (releases s') = take (length (releases s')) (map fst (cohorts_of work))"
    and "length (releases s') \<le> length (cohorts_of work)"
    and "\<forall>g. group_released s' g \<longleftrightarrow> Released g \<in> set (events s')"
    and "starts_follow_release (events s')"
  shows "barrier_inv work s'"
proof -
  note i = inv[unfolded barrier_inv_def]
  have f: "finished work s' = finished work s" using assms(2) by (rule finished_unchanged)
  have "mset (take (next_index s') (pending_entries (cohorts_of work))) = mset (held s') + mset_set (finished work s)"
    using assms(3) i by (simp add: ac_simps)
  moreover have "mset (started_work (events s')) =
      image_mset (work_id \<circ> snd) (mset (running s') + mset_set (finished work s))"
    using assms(4) i by (simp add: ac_simps)
  moreover have "length (slots s') = length work"
    "\<forall>i c. i < length work \<longrightarrow> slots s' ! i = Some c \<longrightarrow> completed_work c = work ! i"
    using i assms(2) by simp_all
  ultimately show ?thesis unfolding barrier_inv_def f using assms(5-9) by blast
qed

lemma set_update_Returned: "w \<noteq> Returned \<Longrightarrow> Returned \<in> set (xs[i := w]) \<Longrightarrow> Returned \<in> set xs"
  using set_update_subset_insert[of xs i w] by blast

lemma invD:
  assumes "barrier_inv work s"
  shows "Returned \<in> set (workers s) \<longrightarrow> length (pending_entries (cohorts_of work)) \<le> next_index s"
    "map release_group (releases s) = take (length (releases s)) (map fst (cohorts_of work))"
    "length (releases s) \<le> length (cohorts_of work)"
    "\<forall>g. group_released s g \<longleftrightarrow> Released g \<in> set (events s)"
    "starts_follow_release (events s)"
  using assms unfolding barrier_inv_def by blast+

lemma barrier_inv_complete:
  assumes inv: "barrier_inv work s" and i: "i < length (workers s)" "workers s ! i = Running e ev"
    and s': "s' = s\<lparr>workers := (workers s)[i := Idle], slots := (slots s)[fst e := Some c]\<rparr>"
    and c: "completed_work c = snd e"
  shows "barrier_inv work s'"
proof -
  note iv = inv[unfolded barrier_inv_def]
  have eh: "e \<in># mset (held s)" using i by (intro held_member[of i]) simp_all
  note e = held_fresh[OF inv eh]
  have ei: "fst e < length work" "snd e = work ! fst e" using e(1) by (simp_all only: entry_iff)
  have fin: "finished work s' = insert e (finished work s)"
    using e ei iv by (auto simp: finished_def s' nth_list_update entry_iff prod_eq_iff)
  have ms: "mset_set (finished work s') = add_mset e (mset_set (finished work s))"
    unfolding fin using e(2) by simp
  have "mset (held s) = add_mset e (mset (held s'))" "mset (running s) = add_mset e (mset (running s'))"
    using held_update[OF i(1), of s' Idle] i(2) by (simp_all add: s')
  moreover have same: "next_index s' = next_index s" "events s' = events s" "releases s' = releases s"
      "group_released s' = group_released s" "length (slots s') = length work"
    using iv by (simp_all add: s' group_released_def fun_eq_iff)
  ultimately have ms':
    "mset (take (next_index s') (pending_entries (cohorts_of work))) = mset (held s') + mset_set (finished work s')"
    "mset (started_work (events s')) = image_mset (work_id \<circ> snd) (mset (running s') + mset_set (finished work s'))"
    using iv by (simp_all add: ms)
  have "\<forall>i c. i < length work \<longrightarrow> slots s' ! i = Some c \<longrightarrow> completed_work c = work ! i"
    using iv c ei by (auto simp: s' nth_list_update)
  moreover have "Returned \<in> set (workers s') \<longrightarrow> Returned \<in> set (workers s)"
    using set_update_Returned[of Idle "workers s" i] by (simp add: s')
  ultimately show ?thesis
    unfolding barrier_inv_def same using invD[OF inv] ms'[unfolded same] by blast
qed

lemma barrier_step_inv:
  assumes "barrier_step (cohorts_of work) s s'" and inv: "barrier_inv work s"
  shows "barrier_inv work s'"
  using assms(1)
proof cases
  case (claim i)
  have "mset (held s') = add_mset (pending_entries (cohorts_of work) ! next_index s) (mset (held s))"
    "mset (running s') = mset (running s)"
    using held_update[OF claim(2), of s'] claim(3) by (simp_all add: claim(1))
  then show ?thesis
    by (intro barrier_inv_simple[OF inv])
      (use invD[OF inv] claim set_update_Returned[of _ "workers s" i] in
        \<open>auto simp: take_Suc_conv_app_nth group_released_def\<close>)
next
  case (leave i)
  have "mset (held s') = mset (held s)" "mset (running s') = mset (running s)"
    using held_update[OF leave(2), of s' Returned] leave(3) by (simp_all add: leave(1))
  then show ?thesis
    by (intro barrier_inv_simple[OF inv])
      (use invD[OF inv] leave in \<open>auto simp: group_released_def\<close>)
next
  case (start i entry reading evidence)
  have "mset (held s') = mset (held s)" "mset (running s') = add_mset entry (mset (running s))"
    using held_update[OF start(2), of s' "Running entry evidence"] start(3) by (simp_all add: start(1))
  then show ?thesis
    by (intro barrier_inv_simple[OF inv])
      (use invD[OF inv] start set_update_Returned[of _ "workers s" i] in
        \<open>auto simp: starts_follow_release_snoc group_released_def\<close>)
next
  case (complete i entry evidence r)
  show ?thesis by (rule barrier_inv_complete[OF inv complete(2,3,1)]) simp
next
  case (release g cohort reading rel)
  have "release_group rel = g"
    using release(4) by (auto simp: BarrierRelease_init_def result_simps)
  moreover have "held s' = held s" "running s' = running s"
    by (simp_all add: release(1) held_def running_def)
  ultimately show ?thesis
    by (intro barrier_inv_simple[OF inv])
      (use invD[OF inv] release in
        \<open>auto simp: starts_follow_release_snoc group_released_def take_Suc_conv_app_nth\<close>)
qed

lemma barrier_start_inv:
  fixes work :: "'a ConcurrencyWork list"
  shows "barrier_inv work (barrier_start concurrency work :: ('a, 'r) barrier_state)"
proof -
  let ?s = "barrier_start concurrency work :: ('a, 'r) barrier_state"
  have "finished work ?s = {}" by (auto simp: finished_def barrier_start_def entry_iff)
  moreover have "held ?s = []" "running ?s = []" by (simp_all add: held_def running_def barrier_start_def)
  moreover have "next_index ?s = 0" "releases ?s = []" "slots ?s = replicate (length work) None"
    "events ?s = []" "Returned \<notin> set (workers ?s)" by (simp_all add: barrier_start_def)
  ultimately show ?thesis unfolding barrier_inv_def
    by (simp add: started_work_def group_released_def starts_follow_release_def)
qed

lemma barrier_run_inv:
  assumes "(barrier_step (cohorts_of work))\<^sup>*\<^sup>* (barrier_start concurrency work) s"
  shows "barrier_inv work s"
  using assms by (induction rule: rtranclp_induct) (auto intro: barrier_start_inv barrier_step_inv)

lemma barrier_step_workers: "barrier_step cohorts s s' \<Longrightarrow> length (workers s') = length (workers s)"
  by (induction rule: barrier_step.induct) simp_all

lemma barrier_run_workers:
  assumes "(barrier_step cohorts)\<^sup>*\<^sup>* (barrier_start concurrency work) s"
  shows "length (workers s) = nat (min concurrency (int (length work)))"
  using assms
  by (induction rule: rtranclp_induct) (simp_all add: barrier_start_def barrier_step_workers)

lemma running_bound: "length (running s) \<le> length (workers s)"
proof -
  have "length (concat (map running_entries ws)) \<le> length ws" for ws :: "'a worker list"
  proof (induction ws)
    case (Cons w ws)
    then show ?case by (cases w) simp_all
  qed simp
  then show ?thesis by (simp add: running_def)
qed

lemma worker_entries_running: "mset (running_entries w) \<subseteq># mset (worker_entries w)"
  by (cases w) simp_all

lemma running_held: "mset (running s) \<subseteq># mset (held s)"
proof -
  have "mset (concat (map running_entries ws)) \<subseteq># mset (concat (map worker_entries ws))" for ws :: "'a worker list"
    by (induction ws) (simp_all add: subset_mset.add_mono worker_entries_running)
  then show ?thesis by (simp add: running_def held_def)
qed

lemma pending_mset: "mset (pending_entries (cohorts_of work)) = mset (zip [0..<length work] work)"
  using pending_entries_set[of work] pending_entries_distinct[of work]
  by (intro set_eq_iff_mset_eq_distinct[THEN iffD1]) (simp_all add: distinct_zipI1)

lemma zip_ids: "image_mset (work_id \<circ> snd) (mset (zip [0..<length work] work)) = mset (map work_id work)"
proof -
  have "map snd (zip [0..<length work] work) = work" by simp
  then have "map (work_id \<circ> snd) (zip [0..<length work] work) = map work_id work"
    by (metis map_map)
  then show ?thesis by (metis mset_map)
qed

lemma started_once: "barrier_inv work s \<Longrightarrow> mset (started_work (events s)) \<subseteq># mset (map work_id work)"
proof -
  assume inv: "barrier_inv work s"
  let ?p = "pending_entries (cohorts_of work)"
  have "mset (running s) + mset_set (finished work s) \<subseteq># mset (held s) + mset_set (finished work s)"
    using running_held by simp
  also have "\<dots> = mset (take (next_index s) ?p)" using inv by (simp add: barrier_inv_def)
  also have "\<dots> \<subseteq># mset ?p" by (metis append_take_drop_id mset_append mset_subset_eq_add_left)
  finally have "image_mset (work_id \<circ> snd) (mset (running s) + mset_set (finished work s))
      \<subseteq># image_mset (work_id \<circ> snd) (mset ?p)" by (rule image_mset_subseteq_mono)
  then show ?thesis using inv unfolding pending_mset zip_ids by (simp only: barrier_inv_def)
qed

lemma final_finished:
  assumes inv: "barrier_inv work s" and "list_all (\<lambda>w. w = Returned) (workers s)"
    and "workers s = [] \<longrightarrow> work = []"
  shows "finished work s = set (zip [0..<length work] work)" "running s = []"
proof -
  have none: "held s = []" "running s = []"
    using assms(2) by (auto simp: held_def running_def list_all_iff)
  show "running s = []" by (rule none)
  have "length (pending_entries (cohorts_of work)) \<le> next_index s"
  proof (cases "workers s")
    case Nil
    then have "pending_entries (cohorts_of work) = []"
      using assms(3) pending_entries_set[of work] by simp
    then show ?thesis by simp
  next
    case (Cons w ws)
    then have "Returned \<in> set (workers s)" using assms(2) by simp
    then show ?thesis using invD(1)[OF inv] by blast
  qed
  then have "mset (pending_entries (cohorts_of work)) = mset_set (finished work s)"
    using inv none(1) by (simp add: barrier_inv_def)
  then have "set_mset (mset (pending_entries (cohorts_of work))) = finished work s" by simp
  then show "finished work s = set (zip [0..<length work] work)"
    using pending_entries_set[of work] by simp
qed

section \<open>Termination and progress\<close>

fun worker_weight :: "'a worker \<Rightarrow> nat" where
  "worker_weight (Waiting _) = 3"
| "worker_weight (Running _ _) = 2"
| "worker_weight Idle = 1"
| "worker_weight Returned = 0"

definition steps_left :: "'a cohort list \<Rightarrow> ('a, 'r) barrier_state \<Rightarrow> nat" where
  "steps_left cohorts s = 3 * (length (pending_entries cohorts) - next_index s) +
     sum_list (map worker_weight (workers s)) + (length cohorts - length (releases s))"

lemma weight_update:
  "i < length ws \<Longrightarrow> sum_list (map worker_weight (ws[i := w])) + worker_weight (ws ! i) =
     sum_list (map worker_weight ws) + worker_weight w"
  by (induction ws arbitrary: i) (auto simp: nth_Cons' less_Suc_eq_0_disj split: nat.splits)

lemma barrier_step_decreases: "barrier_step cohorts s s' \<Longrightarrow> steps_left cohorts s' < steps_left cohorts s"
proof (induction rule: barrier_step.induct)
  case (claim i s)
  with weight_update[OF claim(1), of "Waiting (pending_entries cohorts ! next_index s)"] show ?case
    by (simp add: steps_left_def)
next
  case (leave i s)
  with weight_update[OF leave(1), of Returned] show ?case by (simp add: steps_left_def)
next
  case (start i s entry reading evidence)
  with weight_update[OF start(1), of "Running entry evidence"] show ?case by (simp add: steps_left_def)
next
  case (complete i s entry evidence r)
  with weight_update[OF complete(1), of Idle] show ?case by (simp add: steps_left_def)
next
  case (release s g cohort reading rel)
  then show ?case by (simp add: steps_left_def)
qed

lemma evidence_returns:
  "returns (ConcurrencyWork_post_init w) \<Longrightarrow>
   \<exists>ev. ActualStartEvidence_init (work_id w) (concurrency_group w) 0 = Inr ev"
  by (auto simp: returns_iff ConcurrencyWork_post_init_def ActualStartEvidence_init_def result_simps
      barrier_token_def barrier_monotonic_def)

definition work_valid :: "'a ConcurrencyWork list \<Rightarrow> bool" where
  "work_valid work = list_all (\<lambda>w. returns (ConcurrencyWork_post_init w)) work"

lemma work_validD:
  assumes "work_valid work" "w \<in> set work"
  shows "bounded_token 96 (work_id w)" "bounded_token 128 (concurrency_group w)"
  using assms by (auto simp: work_valid_def list_all_iff ConcurrencyWork_post_init_def barrier_token_def
      returns_iff result_simps)

lemma cohort_facts:
  assumes "n < length (cohorts_of work)" "cohorts_of work ! n = (g, cohort)" "distinct (map work_id work)"
  shows "cohort \<noteq> []" "snd ` set cohort \<subseteq> set work" "g \<in> concurrency_group ` set work"
    "distinct (map (work_id \<circ> snd) cohort)"
proof -
  let ?all = "zip [0..<length work] work"
  have "(g, cohort) \<in> set (cohorts_of work)" using assms(1,2) by (metis nth_mem)
  then have g: "g \<in> set (group_order_of ?all)" and c: "cohort = sort_key entry_key (in_group g ?all)"
    by (auto simp: cohorts_of_def Let_def)
  then obtain e where e: "e \<in> set ?all" "concurrency_group (snd e) = g" by auto
  then have "e \<in> set cohort" by (simp add: c set_in_group)
  then show "cohort \<noteq> []" by auto
  show "snd ` set cohort \<subseteq> set work" by (auto simp: c set_in_group dest: set_zip_rightD)
  show "g \<in> concurrency_group ` set work" using e entry_work[OF e(1)] by blast
  have "map snd ?all = work" by simp
  then have "distinct (map (work_id \<circ> snd) ?all)" using assms(3) by (metis map_map)
  then have "distinct (map (work_id \<circ> snd) (in_group g ?all))"
    unfolding in_group_def by (rule distinct_map_filter)
  moreover have "mset (map (work_id \<circ> snd) cohort) = mset (map (work_id \<circ> snd) (in_group g ?all))"
    by (simp add: c)
  ultimately show "distinct (map (work_id \<circ> snd) cohort)" using mset_eq_imp_distinct_iff by blast
qed

lemma release_returns:
  assumes "n < length (cohorts_of work)" "cohorts_of work ! n = (g, cohort)" "distinct (map work_id work)"
    and "work_valid work"
  shows "\<exists>rel. BarrierRelease_init g 0 (map (work_id \<circ> snd) cohort) = Inr rel"
proof -
  note c = cohort_facts[OF assms(1-3)]
  have "bounded_token 128 g" using c(3) work_validD(2)[OF assms(4)] by auto
  moreover have "returns (for_each (\<lambda>i. barrier_token i ''eligible work ID'' 96) (map (work_id \<circ> snd) cohort))"
    using c(2) work_validD(1)[OF assms(4)] by (auto simp: for_each_unit_ok barrier_token_def)
  ultimately show ?thesis using c(1,4)
    by (auto simp: BarrierRelease_init_def barrier_token_def barrier_monotonic_def returns_iff)
qed

lemma barrier_progress:
  fixes s :: "('a, 'r) barrier_state"
  assumes inv: "barrier_inv work s" and "distinct (map work_id work)" and "work_valid work"
    and "\<not> barrier_final (cohorts_of work) s"
  shows "\<exists>s'. barrier_step (cohorts_of work) s s'"
proof (cases "length (releases s) < length (cohorts_of work)")
  case True
  obtain g cohort where gc: "cohorts_of work ! length (releases s) = (g, cohort)" by fastforce
  from release_returns[OF True gc assms(2,3)] barrier_step.release[OF True gc] show ?thesis by blast
next
  case False
  then have len: "length (releases s) = length (cohorts_of work)" using invD(3)[OF inv] by simp
  then obtain i where i: "i < length (workers s)" "workers s ! i \<noteq> Returned"
    using assms(4) by (auto simp: barrier_final_def list_all_length)
  show ?thesis
  proof (cases "workers s ! i")
    case Idle
    then show ?thesis using barrier_step.claim[OF i(1) Idle] barrier_step.leave[OF i(1) Idle]
      by (meson not_less)
  next
    case (Waiting e)
    have "e \<in> set (zip [0..<length work] work)"
      using held_fresh(1)[OF inv held_member[OF i(1)]] Waiting by simp
    then have w: "snd e \<in> set work" and "concurrency_group (snd e) \<in> set (map fst (cohorts_of work))"
      by (auto simp: cohorts_of_def Let_def comp_def dest: entry_work)
    then have "group_released s (concurrency_group (snd e))"
      using invD(2)[OF inv] len by (simp add: group_released_def)
    moreover have "returns (ConcurrencyWork_post_init (snd e))"
      using assms(3) w by (simp add: work_valid_def list_all_iff)
    ultimately show ?thesis using evidence_returns barrier_step.start[OF i(1) Waiting] by blast
  next
    case (Running e ev)
    show ?thesis using barrier_step.complete[OF i(1) Running] by blast
  qed (use i(2) in simp)
qed

lemma barrier_reaches_final:
  fixes s :: "('a, 'r) barrier_state"
  assumes "barrier_inv work s" "distinct (map work_id work)" "work_valid work"
  shows "\<exists>s'. (barrier_step (cohorts_of work))\<^sup>*\<^sup>* s s' \<and> barrier_final (cohorts_of work) s'"
  using assms(1)
proof (induction "steps_left (cohorts_of work) s" arbitrary: s rule: less_induct)
  case less
  show ?case
  proof (cases "barrier_final (cohorts_of work) s")
    case False
    then obtain t where t: "barrier_step (cohorts_of work) s t"
      using barrier_progress[OF less.prems assms(2,3)] by blast
    from less.hyps[OF barrier_step_decreases[OF t] barrier_step_inv[OF t less.prems]]
    show ?thesis using converse_rtranclp_into_rtranclp[of "barrier_step (cohorts_of work)", OF t] by blast
  qed blast
qed

section \<open>Properties\<close>

text \<open>Grouping partitions the work: it succeeds exactly when the work is within the limit and no
  identity repeats; the cohorts then hold every item once with its index, one cohort per group in
  order of first appearance, each in the order of ordinal and index.\<close>

lemma grouping_partitions:
  assumes "validate_and_group work = Inr cohorts"
  shows "length work \<le> MAX_GROUP_ITEMS \<and> distinct (map work_id work) \<and>
    mset (concat (map snd cohorts)) = mset (zip [0..<length work] work) \<and>
    map fst cohorts = rev (remdups (rev (map concurrency_group work))) \<and>
    list_all (\<lambda>(g, cohort). list_all (\<lambda>e. concurrency_group (snd e) = g) cohort \<and>
      sorted (map (\<lambda>e. (work_ordinal (snd e), fst e)) cohort)) cohorts"
proof -
  let ?all = "zip [0..<length work] work"
  have c: "cohorts = cohorts_of work" using assms by (simp add: validate_and_group_eq_Inr)
  have "map snd ?all = work" by simp
  then have "map (concurrency_group \<circ> snd) ?all = map concurrency_group work" by (metis map_map)
  then have "map fst cohorts = rev (remdups (rev (map concurrency_group work)))"
    by (simp add: c cohorts_of_def Let_def comp_def group_order_of_def)
  moreover have "list_all (\<lambda>(g, cohort). list_all (\<lambda>e. concurrency_group (snd e) = g) cohort \<and>
      sorted (map (\<lambda>e. (work_ordinal (snd e), fst e)) cohort)) cohorts"
    using sorted_sort_key[of entry_key]
    by (auto simp: c cohorts_of_def Let_def list_all_iff set_in_group entry_key_def[abs_def])
  ultimately show ?thesis
    using assms pending_mset[of work] unfolding c
    by (simp add: validate_and_group_eq_Inr pending_entries_def)
qed

text \<open>C11. Bounded release: at every moment of every interleaving, no more callbacks are in flight than
  the configured concurrency, no work item has been started twice, and no item has started before
  its group was released.\<close>

theorem barrier_bounded_and_gated:
  assumes "validate_concurrency limit = Inr concurrency" and "validate_and_group work = Inr cohorts"
    and "(barrier_step cohorts)\<^sup>*\<^sup>* (barrier_start concurrency work) s"
  shows "int (length (running s)) \<le> concurrency \<and>
    mset (started_work (events s)) \<subseteq># mset (map work_id work) \<and> starts_follow_release (events s)"
proof -
  have c: "cohorts = cohorts_of work" using assms(2) by (simp add: validate_and_group_eq_Inr)
  have inv: "barrier_inv work s" using assms(3) unfolding c by (rule barrier_run_inv)
  have "1 \<le> concurrency" using assms(1) by (auto simp: validate_concurrency_def Let_def result_simps)
  then have "int (length (running s)) \<le> concurrency"
    using running_bound[of s] barrier_run_workers[OF assms(3)] by linarith
  with started_once[OF inv] invD(5)[OF inv] show ?thesis by blast
qed

text \<open>C9. A run that ends has done everything: once every worker has returned and every cohort is
  released, the call returns a result (the completeness check never raises), whose entries
  correspond to the input work position by position, every callback was started exactly once, and
  the releases are the cohorts in order.\<close>

theorem barrier_run_complete:
  assumes "validate_concurrency limit = Inr concurrency" and "validate_and_group work = Inr cohorts"
    and "(barrier_step cohorts)\<^sup>*\<^sup>* (barrier_start concurrency work) s" and "barrier_final cohorts s"
  shows "\<exists>run. barrier_result concurrency s = Inr run \<and>
    map completed_work (run_completed run) = work \<and>
    map release_group (run_releases run) = map fst cohorts \<and>
    mset (started_work (events s)) = mset (map work_id work)"
proof -
  have c: "cohorts = cohorts_of work" using assms(2) by (simp add: validate_and_group_eq_Inr)
  have inv: "barrier_inv work s" using assms(3) unfolding c by (rule barrier_run_inv)
  have k: "1 \<le> concurrency" "validate_concurrency (Some concurrency) = Inr concurrency"
    using assms(1) by (auto simp: validate_concurrency_def Let_def result_simps)
  have len: "length (workers s) = nat (min concurrency (int (length work)))"
    using assms(3) by (rule barrier_run_workers)
  then have "workers s = [] \<longrightarrow> work = []" using k(1) by (auto simp: min_def split: if_splits)
  with assms(4) have fin: "finished work s = set (zip [0..<length work] work)" "running s = []"
    using final_finished[OF inv] by (simp_all add: barrier_final_def)
  have slots: "length (slots s) = length work" using inv by (simp add: barrier_inv_def)
  have full: "\<exists>r. slots s ! i = Some r \<and> completed_work r = work ! i" if "i < length work" for i
  proof -
    have "(i, work ! i) \<in> finished work s" unfolding fin entry_iff using that by simp
    then have "slots s ! i \<noteq> None" by (simp add: finished_def)
    then show ?thesis using inv that by (auto simp: barrier_inv_def)
  qed
  have "None \<notin> set (slots s)" using full slots by (metis in_set_conv_nth option.distinct(1))
  then have ok: "\<not> list_ex (\<lambda>r. r = None) (slots s)" by (simp add: list_ex_iff)
  have "map completed_work (map the (slots s)) = work"
  proof (rule nth_equalityI)
    fix i assume "i < length (map completed_work (map the (slots s)))"
    then have i: "i < length work" "i < length (slots s)" using slots by simp_all
    show "map completed_work (map the (slots s)) ! i = work ! i" using full[OF i(1)] i(2) by auto
  qed (simp add: slots)
  moreover have "map release_group (releases s) = map fst cohorts"
    using invD(2)[OF inv] assms(4) by (simp add: c barrier_final_def)
  moreover have "mset (started_work (events s)) = mset (map work_id work)"
  proof -
    have "mset_set (set (zip [0..<length work] work)) = mset (zip [0..<length work] work)"
      by (rule mset_set_set) (simp add: distinct_zipI1)
    with inv fin zip_ids[of work] show ?thesis by (simp add: barrier_inv_def)
  qed
  moreover have "int (length (workers s)) \<le> concurrency" using len k(1) by simp
  ultimately show ?thesis using ok k(2) by (simp add: barrier_result_def BarrierRun_init_def)
qed

text \<open>C10. No deadlock and no endless run: every execution is finite, and in every reachable state that
  is not the end some step is possible.\<close>

theorem barrier_terminates:
  fixes s :: "('a, 'r) barrier_state"
  assumes "validate_and_group work = Inr cohorts" and "work_valid work"
    and "(barrier_step cohorts)\<^sup>*\<^sup>* (barrier_start concurrency work) s"
  shows "wfp (\<lambda>t' t :: ('a, 'r) barrier_state. barrier_step cohorts t t') \<and>
    (barrier_final cohorts s \<or> (\<exists>s'. barrier_step cohorts s s'))"
proof
  show "wfp (\<lambda>t' t :: ('a, 'r) barrier_state. barrier_step cohorts t t')"
    by (rule wfp_if_convertible_to_nat[of _ "steps_left cohorts"]) (rule barrier_step_decreases)
  have c: "cohorts = cohorts_of work" "distinct (map work_id work)"
    using assms(1) by (simp_all add: validate_and_group_eq_Inr)
  have "barrier_inv work s" using assms(3) unfolding c(1) by (rule barrier_run_inv)
  from barrier_progress[OF this c(2) assms(2)]
  show "barrier_final cohorts s \<or> (\<exists>s'. barrier_step cohorts s s')" unfolding c(1) by blast
qed

section \<open>Witnesses\<close>

definition example_work :: "unit ConcurrencyWork list" where
  "example_work =
     [\<lparr>work_id = ''a'', concurrency_group = ''g'', work_ordinal = 2, work_payload = ()\<rparr>,
      \<lparr>work_id = ''b'', concurrency_group = ''h'', work_ordinal = 0, work_payload = ()\<rparr>,
      \<lparr>work_id = ''c'', concurrency_group = ''g'', work_ordinal = 1, work_payload = ()\<rparr>]"

lemma example_valid: "work_valid example_work" "distinct (map work_id example_work)"
  by code_simp+

lemma example_grouped: "validate_and_group example_work = Inr (cohorts_of example_work)"
proof -
  have "length example_work \<le> MAX_GROUP_ITEMS" by (simp add: example_work_def MAX_GROUP_ITEMS_def)
  then show ?thesis using example_valid(2) by (simp only: validate_and_group_eq_Inr simp_thms)
qed

lemma example_concurrency: "validate_concurrency (Some 2) = Inr 2"
  by (simp add: validate_concurrency_def HARD_DELIVERY_CONCURRENCY_def)

lemma example_final:
  "\<exists>s :: (unit, unit) barrier_state.
     (barrier_step (cohorts_of example_work))\<^sup>*\<^sup>* (barrier_start 2 example_work) s \<and>
     barrier_final (cohorts_of example_work) s"
  by (rule barrier_reaches_final[OF barrier_start_inv example_valid(2,1)])

lemma grouping_partitions_witness:
  "validate_and_group example_work = Inr (cohorts_of example_work) \<and>
   map fst (cohorts_of example_work) = [''g'', ''h'']"
  using grouping_partitions[OF example_grouped] example_grouped by (simp add: example_work_def)

theorem barrier_bounded_and_gated_witness:
  "\<exists>s :: (unit, unit) barrier_state.
     (barrier_step (cohorts_of example_work))\<^sup>*\<^sup>* (barrier_start 2 example_work) s \<and> barrier_final (cohorts_of example_work) s \<and>
     int (length (running s)) \<le> 2 \<and> mset (started_work (events s)) \<subseteq># mset (map work_id example_work) \<and> starts_follow_release (events s)"
proof -
  obtain s :: "(unit, unit) barrier_state"
    where s: "(barrier_step (cohorts_of example_work))\<^sup>*\<^sup>* (barrier_start 2 example_work) s" "barrier_final (cohorts_of example_work) s"
    using example_final by blast
  from barrier_bounded_and_gated[OF example_concurrency example_grouped s(1)] s show ?thesis by blast
qed

theorem barrier_run_complete_witness:
  "\<exists>(s :: (unit, unit) barrier_state) run.
     (barrier_step (cohorts_of example_work))\<^sup>*\<^sup>* (barrier_start 2 example_work) s \<and>
     barrier_result 2 s = Inr run \<and> map completed_work (run_completed run) = example_work"
proof -
  obtain s :: "(unit, unit) barrier_state"
    where s: "(barrier_step (cohorts_of example_work))\<^sup>*\<^sup>* (barrier_start 2 example_work) s"
      "barrier_final (cohorts_of example_work) s"
    using example_final by blast
  from barrier_run_complete[OF example_concurrency example_grouped s] s(1) show ?thesis by blast
qed

theorem barrier_terminates_witness:
  "\<exists>s' :: (unit, unit) barrier_state.
     barrier_step (cohorts_of example_work) (barrier_start 2 example_work) s'"
proof -
  let ?s = "barrier_start 2 example_work :: (unit, unit) barrier_state"
  have "length (cohorts_of example_work) = 2" by code_simp
  then have "\<not> barrier_final (cohorts_of example_work) ?s"
    by (simp add: barrier_final_def barrier_start_def)
  with barrier_terminates[OF example_grouped example_valid(1), of 2 ?s] show ?thesis by blast
qed

end
