(* ===== verification/Domain_Enums.thy ===== *)
theory Domain_Enums
  imports Conformance_Prelude
begin

text \<open>
  The closed vocabularies of \<open>domain/enums.py\<close> that the other theories use: one datatype per
  enumeration, with the source's member names (qualified by the datatype where they repeat), and
  the serialized value of each member.
\<close>

datatype RunState =
    PLANNED | RUNNING | PAUSED | COMPLETED | CANCELLED | FAILED

fun run_state_value :: "RunState \<Rightarrow> string" where
  "run_state_value RunState.PLANNED = ''planned''"
| "run_state_value RunState.RUNNING = ''running''"
| "run_state_value RunState.PAUSED = ''paused''"
| "run_state_value RunState.COMPLETED = ''completed''"
| "run_state_value RunState.CANCELLED = ''cancelled''"
| "run_state_value RunState.FAILED = ''failed''"

datatype ScenarioState =
    PENDING | ELIGIBLE | RUNNING | PASSED | FAILED | ERROR |
    SKIPPED | AMBIGUOUS | CANCELLED

fun scenario_state_value :: "ScenarioState \<Rightarrow> string" where
  "scenario_state_value ScenarioState.PENDING = ''pending''"
| "scenario_state_value ScenarioState.ELIGIBLE = ''eligible''"
| "scenario_state_value ScenarioState.RUNNING = ''running''"
| "scenario_state_value ScenarioState.PASSED = ''passed''"
| "scenario_state_value ScenarioState.FAILED = ''failed''"
| "scenario_state_value ScenarioState.ERROR = ''error''"
| "scenario_state_value ScenarioState.SKIPPED = ''skipped''"
| "scenario_state_value ScenarioState.AMBIGUOUS = ''ambiguous''"
| "scenario_state_value ScenarioState.CANCELLED = ''cancelled''"

datatype DeliveryState =
    PENDING | ELIGIBLE | ACTIVE | SATISFIED | EXHAUSTED | AMBIGUOUS |
    CANCELLED | SKIPPED

fun delivery_state_value :: "DeliveryState \<Rightarrow> string" where
  "delivery_state_value DeliveryState.PENDING = ''pending''"
| "delivery_state_value DeliveryState.ELIGIBLE = ''eligible''"
| "delivery_state_value DeliveryState.ACTIVE = ''active''"
| "delivery_state_value DeliveryState.SATISFIED = ''satisfied''"
| "delivery_state_value DeliveryState.EXHAUSTED = ''exhausted''"
| "delivery_state_value DeliveryState.AMBIGUOUS = ''ambiguous''"
| "delivery_state_value DeliveryState.CANCELLED = ''cancelled''"
| "delivery_state_value DeliveryState.SKIPPED = ''skipped''"

datatype AttemptState =
    SCHEDULED | CLAIMED | PRE_SEND_COMMITTED | CONNECTING | SENDING | AWAITING_RESPONSE |
    RESPONSE_OBSERVED | NOT_SENT | SUCCEEDED | REJECTED | TRANSPORT_FAILED | UNKNOWN_OUTCOME |
    CANCELLED

fun attempt_state_value :: "AttemptState \<Rightarrow> string" where
  "attempt_state_value AttemptState.SCHEDULED = ''scheduled''"
| "attempt_state_value AttemptState.CLAIMED = ''claimed''"
| "attempt_state_value AttemptState.PRE_SEND_COMMITTED = ''pre_send_committed''"
| "attempt_state_value AttemptState.CONNECTING = ''connecting''"
| "attempt_state_value AttemptState.SENDING = ''sending''"
| "attempt_state_value AttemptState.AWAITING_RESPONSE = ''awaiting_response''"
| "attempt_state_value AttemptState.RESPONSE_OBSERVED = ''response_observed''"
| "attempt_state_value AttemptState.NOT_SENT = ''not_sent''"
| "attempt_state_value AttemptState.SUCCEEDED = ''succeeded''"
| "attempt_state_value AttemptState.REJECTED = ''rejected''"
| "attempt_state_value AttemptState.TRANSPORT_FAILED = ''transport_failed''"
| "attempt_state_value AttemptState.UNKNOWN_OUTCOME = ''unknown_outcome''"
| "attempt_state_value AttemptState.CANCELLED = ''cancelled''"

datatype ObservationState =
    SCHEDULED | RUNNING | OK | PENDING | UNSUPPORTED | ERROR |
    TIMED_OUT | CANCELLED

fun observation_state_value :: "ObservationState \<Rightarrow> string" where
  "observation_state_value ObservationState.SCHEDULED = ''scheduled''"
| "observation_state_value ObservationState.RUNNING = ''running''"
| "observation_state_value ObservationState.OK = ''ok''"
| "observation_state_value ObservationState.PENDING = ''pending''"
| "observation_state_value ObservationState.UNSUPPORTED = ''unsupported''"
| "observation_state_value ObservationState.ERROR = ''error''"
| "observation_state_value ObservationState.TIMED_OUT = ''timed_out''"
| "observation_state_value ObservationState.CANCELLED = ''cancelled''"

datatype AssertionState =
    PENDING | RUNNING | PASSED | FAILED | ERROR | UNSUPPORTED |
    CANCELLED

fun assertion_state_value :: "AssertionState \<Rightarrow> string" where
  "assertion_state_value AssertionState.PENDING = ''pending''"
| "assertion_state_value AssertionState.RUNNING = ''running''"
| "assertion_state_value AssertionState.PASSED = ''passed''"
| "assertion_state_value AssertionState.FAILED = ''failed''"
| "assertion_state_value AssertionState.ERROR = ''error''"
| "assertion_state_value AssertionState.UNSUPPORTED = ''unsupported''"
| "assertion_state_value AssertionState.CANCELLED = ''cancelled''"

datatype AttemptClassification =
    PLANNED | RECEIVER_ACCEPTED | RECEIVER_REJECTED | ENVIRONMENT_FAILURE | HARNESS_FAILURE | CANCELLED |
    AMBIGUOUS

fun classification_value :: "AttemptClassification \<Rightarrow> string" where
  "classification_value AttemptClassification.PLANNED = ''planned''"
| "classification_value AttemptClassification.RECEIVER_ACCEPTED = ''receiver_accepted''"
| "classification_value AttemptClassification.RECEIVER_REJECTED = ''receiver_rejected''"
| "classification_value AttemptClassification.ENVIRONMENT_FAILURE = ''environment_failure''"
| "classification_value AttemptClassification.HARNESS_FAILURE = ''harness_failure''"
| "classification_value AttemptClassification.CANCELLED = ''cancelled''"
| "classification_value AttemptClassification.AMBIGUOUS = ''ambiguous''"

datatype AssertionResult =
    PASS | FAIL | ERROR | SKIPPED | PENDING

fun assertion_result_value :: "AssertionResult \<Rightarrow> string" where
  "assertion_result_value AssertionResult.PASS = ''pass''"
| "assertion_result_value AssertionResult.FAIL = ''fail''"
| "assertion_result_value AssertionResult.ERROR = ''error''"
| "assertion_result_value AssertionResult.SKIPPED = ''skipped''"
| "assertion_result_value AssertionResult.PENDING = ''pending''"

text \<open>Distinct members have distinct values, so that a stored value identifies its member.\<close>

lemma enum_values_inj:
  "run_state_value x0 = run_state_value y0 \<longleftrightarrow> x0 = y0"
  "scenario_state_value x1 = scenario_state_value y1 \<longleftrightarrow> x1 = y1"
  "delivery_state_value x2 = delivery_state_value y2 \<longleftrightarrow> x2 = y2"
  "attempt_state_value x3 = attempt_state_value y3 \<longleftrightarrow> x3 = y3"
  "observation_state_value x4 = observation_state_value y4 \<longleftrightarrow> x4 = y4"
  "assertion_state_value x5 = assertion_state_value y5 \<longleftrightarrow> x5 = y5"
  "classification_value x6 = classification_value y6 \<longleftrightarrow> x6 = y6"
  "assertion_result_value x7 = assertion_result_value y7 \<longleftrightarrow> x7 = y7"
  by ((cases x0; cases y0; simp),
    (cases x1; cases y1; simp),
    (cases x2; cases y2; simp),
    (cases x3; cases y3; simp),
    (cases x4; cases y4; simp),
    (cases x5; cases y5; simp),
    (cases x6; cases y6; simp),
    (cases x7; cases y7; simp))

end
