(* ===== verification/Text_Codecs.thy ===== *)
theory Text_Codecs
  imports Sha256
begin

text \<open>
  The parts of Python's text handling that the retry conditions and the signature headers rely on, with
  their round trips: \<open>str.split\<close> and \<open>str.join\<close> on one character, \<open>int()\<close> on decimal
  text, \<open>bytes.fromhex\<close> and the strict base64 codec.
\<close>

text \<open>ASCII literals as bytes.\<close>

lemma ascii_bytes_inj: "(map of_char s :: bytes) = map of_char t \<longleftrightarrow> s = t"
proof -
  have "(of_char c :: byte) = word_of_nat (of_char c)" for c
    by (simp add: of_nat_of_char)
  moreover have "of_char c < (256 :: nat)" for c by simp
  ultimately have "inj (of_char :: char \<Rightarrow> byte)"
    by (intro injI) (metis of_char_eq_iff unat_byte)
  then show ?thesis by (rule inj_map_eq_map)
qed

section \<open>Splitting and joining\<close>

text \<open>\<open>str.split\<close> with a one-character separator.\<close>

fun split_on :: "char \<Rightarrow> string \<Rightarrow> string list" where
  "split_on sep [] = [[]]"
| "split_on sep (c # cs) =
     (if c = sep then [] # split_on sep cs
      else case split_on sep cs of [] \<Rightarrow> [[c]] | piece # pieces \<Rightarrow> (c # piece) # pieces)"

fun join_with :: "char \<Rightarrow> string list \<Rightarrow> string" where
  "join_with sep [] = []"
| "join_with sep [x] = x"
| "join_with sep (x # y # ys) = x @ sep # join_with sep (y # ys)"

lemma split_on_no_sep: "sep \<notin> set x \<Longrightarrow> split_on sep x = [x]"
  by (induction x) auto

lemma split_on_append: "sep \<notin> set x \<Longrightarrow> split_on sep (x @ sep # rest) = x # split_on sep rest"
  by (induction x) auto

lemma split_on_join:
  assumes "xs \<noteq> []" "\<forall>x \<in> set xs. sep \<notin> set x"
  shows "split_on sep (join_with sep xs) = xs"
  using assms by (induction xs rule: join_with.induct) (simp_all add: split_on_no_sep split_on_append)

section \<open>Decimal integers\<close>

definition decimal_char :: "char \<Rightarrow> bool" where
  "decimal_char c = in_char_range CHR ''0'' CHR ''9'' c"

definition digit_value :: "char \<Rightarrow> nat" where
  "digit_value c = of_char c - 48"

definition digits_value :: "string \<Rightarrow> nat" where
  "digits_value s = foldl (\<lambda>acc c. acc * 10 + digit_value c) 0 s"

text \<open>\<open>int(s)\<close> on the texts the code passes to it, an optional sign and decimal digits.\<close>

definition int_of_text :: "string \<Rightarrow> int" where
  "int_of_text s = (if s \<noteq> [] \<and> hd s = CHR ''-'' then - int (digits_value (tl s)) else int (digits_value s))"

text \<open>The pattern \<open>(?:0|-?[1-9][0-9]{0,18})\<close>.\<close>

definition canonical_natural :: "string \<Rightarrow> bool" where
  "canonical_natural s = (case s of [] \<Rightarrow> False
     | c # cs \<Rightarrow> in_char_range CHR ''1'' CHR ''9'' c \<and> length cs \<le> 18 \<and> list_all decimal_char cs)"

definition canonical_integer :: "string \<Rightarrow> bool" where
  "canonical_integer s = (s = ''0'' \<or>
     canonical_natural (if s \<noteq> [] \<and> hd s = CHR ''-'' then tl s else s))"

lemma below_all: "list_all P [0..<n] \<Longrightarrow> d < n \<Longrightarrow> P d"
  by (simp add: list_all_iff)

lemma digit_char_facts:
  assumes "d < 10"
  shows "decimal_char (digit_char d)" "digit_value (digit_char d) = d" "digit_char d \<noteq> CHR ''-''"
    "0 < d \<Longrightarrow> in_char_range CHR ''1'' CHR ''9'' (digit_char d)"
proof -
  have "list_all (\<lambda>d. decimal_char (digit_char d) \<and> digit_value (digit_char d) = d \<and>
      digit_char d \<noteq> CHR ''-'' \<and> (0 < d \<longrightarrow> in_char_range CHR ''1'' CHR ''9'' (digit_char d))) [0..<10]"
    by code_simp
  from below_all[OF this assms]
  show "decimal_char (digit_char d)" "digit_value (digit_char d) = d" "digit_char d \<noteq> CHR ''-''"
    "0 < d \<Longrightarrow> in_char_range CHR ''1'' CHR ''9'' (digit_char d)" by blast+
qed

lemma digits_value_snoc [simp]: "digits_value (s @ [c]) = digits_value s * 10 + digit_value c"
  by (simp add: digits_value_def)

lemma nat_str_value: "digits_value (nat_str n) = n"
proof (induction n rule: nat_str.induct)
  case (1 n)
  show ?case
  proof (cases "n < 10")
    case True
    then have "digits_value (nat_str n) = digit_value (digit_char n)"
      by (subst nat_str.simps) (simp add: digits_value_def)
    with True show ?thesis by (simp add: digit_char_facts)
  next
    case False
    with 1 show ?thesis by (subst nat_str.simps) (simp add: digit_char_facts)
  qed
qed

lemma nat_str_digits: "list_all decimal_char (nat_str n)"
proof (induction n rule: nat_str.induct)
  case (1 n)
  then show ?case by (subst nat_str.simps) (simp add: digit_char_facts)
qed

lemma nat_str_head:
  "\<exists>d ds. nat_str n = digit_char d # ds \<and> d < 10 \<and> (0 < n \<longrightarrow> 0 < d)"
proof (induction n rule: nat_str.induct)
  case (1 n)
  show ?case
  proof (cases "n < 10")
    case True
    then show ?thesis by (subst nat_str.simps) auto
  next
    case False
    then have "0 < n div 10" by simp
    with 1 False obtain d ds where "nat_str (n div 10) = digit_char d # ds" "d < 10" "0 < d" by blast
    with False show ?thesis by (subst nat_str.simps) auto
  qed
qed

lemma nat_str_length: "n < 10 ^ k \<Longrightarrow> 0 < k \<Longrightarrow> length (nat_str n) \<le> k"
proof (induction n arbitrary: k rule: nat_str.induct)
  case (1 n)
  show ?case
  proof (cases "n < 10")
    case True
    then show ?thesis using 1 by (subst nat_str.simps) simp
  next
    case False
    with 1 obtain j where j: "k = Suc j" "0 < j" by (cases k; cases "k - 1") auto
    then have "n div 10 < 10 ^ j" using 1(2) by (simp add: less_mult_imp_div_less mult.commute)
    with 1 False j show ?thesis by (subst nat_str.simps) simp
  qed
qed

lemma int_of_text_cases:
  "int_of_text (CHR ''-'' # ds) = - int (digits_value ds)"
  "c \<noteq> CHR ''-'' \<Longrightarrow> int_of_text (c # ds) = int (digits_value (c # ds))"
  by (simp_all add: int_of_text_def)

lemma int_of_int_str: "int_of_text (int_str i) = i"
proof (cases "i < 0")
  case True
  then show ?thesis by (simp add: int_str_def int_of_text_cases nat_str_value)
next
  case False
  obtain d ds where "nat_str (nat i) = digit_char d # ds" "d < 10" using nat_str_head by blast
  then show ?thesis using False nat_str_value[of "nat i"] digit_char_facts(3)[of d]
    by (simp add: int_str_def int_of_text_cases)
qed

lemma int_str_inj: "int_str i = int_str j \<Longrightarrow> i = j"
  by (metis int_of_int_str)

lemma canonical_nat_str:
  assumes "0 < n" "n < 10 ^ 19"
  shows "canonical_natural (nat_str n)"
proof -
  obtain d ds where d: "nat_str n = digit_char d # ds" "d < 10" "0 < d"
    using nat_str_head[of n] assms by blast
  moreover have "length (nat_str n) \<le> 19" using assms by (intro nat_str_length) simp_all
  moreover have "list_all decimal_char (nat_str n)" by (rule nat_str_digits)
  ultimately show ?thesis by (simp add: canonical_natural_def digit_char_facts)
qed

lemma canonical_integer_cases:
  "canonical_natural ds \<Longrightarrow> canonical_integer (CHR ''-'' # ds)"
  "c \<noteq> CHR ''-'' \<Longrightarrow> canonical_natural (c # ds) \<Longrightarrow> canonical_integer (c # ds)"
  by (simp_all add: canonical_integer_def)

lemma canonical_int_str:
  assumes "\<bar>i\<bar> < 10 ^ 19"
  shows "canonical_integer (int_str i)"
proof -
  consider "i = 0" | "i < 0" | "0 < i" by linarith
  then show ?thesis
  proof cases
    case 1
    have "canonical_integer (int_str 0)" by code_simp
    with 1 show ?thesis by simp
  next
    case 2
    then have "canonical_natural (nat_str (nat (- i)))"
      using assms by (intro canonical_nat_str) (simp_all add: nat_less_iff)
    with 2 show ?thesis by (simp add: int_str_def canonical_integer_cases)
  next
    case 3
    then have c: "canonical_natural (nat_str (nat i))"
      using assms by (intro canonical_nat_str) (simp_all add: nat_less_iff)
    obtain d ds where "nat_str (nat i) = digit_char d # ds" "d < 10" using nat_str_head by blast
    with 3 c show ?thesis by (simp add: int_str_def canonical_integer_cases digit_char_facts)
  qed
qed

section \<open>Hexadecimal\<close>

definition hex_digit_value :: "char \<Rightarrow> nat" where
  "hex_digit_value c = (if decimal_char c then of_char c - 48 else of_char c - 87)"

text \<open>\<open>bytes.fromhex\<close> on an even number of lowercase hexadecimal characters.\<close>

fun fromhex :: "string \<Rightarrow> bytes" where
  "fromhex (a # b # rest) = word_of_nat (hex_digit_value a * 16 + hex_digit_value b) # fromhex rest"
| "fromhex _ = []"

lemma hex_char_facts:
  assumes "d < 16"
  shows "lower_hex_char (hex_char d)" "hex_digit_value (hex_char d) = d" "hex_char d \<noteq> CHR '',''" "hex_char d \<noteq> CHR ''=''"
proof -
  have "list_all (\<lambda>d. lower_hex_char (hex_char d) \<and> hex_digit_value (hex_char d) = d \<and>
      hex_char d \<noteq> CHR '','' \<and> hex_char d \<noteq> CHR ''='') [0..<16]"
    by code_simp
  from below_all[OF this assms]
  show "lower_hex_char (hex_char d)" "hex_digit_value (hex_char d) = d" "hex_char d \<noteq> CHR '',''" "hex_char d \<noteq> CHR ''=''"
    by blast+
qed

lemma byte_nibbles: "unat (b :: byte) div 16 < 16" "unat b mod 16 < 16"
  using byte_bound[of b] by (simp_all add: less_mult_imp_div_less)

lemma fromhex_hexdigest: "fromhex (hexdigest bs) = bs"
proof (induction bs)
  case (Cons b bs)
  have "unat b div 16 * 16 + unat b mod 16 = unat b" by (rule div_mult_mod_eq)
  with Cons show ?case
    by (simp add: hexdigest_def hex_char_facts byte_nibbles)
qed (simp add: hexdigest_def)

lemma hexdigest_chars:
  "list_all lower_hex_char (hexdigest bs)" "CHR '','' \<notin> set (hexdigest bs)" "CHR ''='' \<notin> set (hexdigest bs)"
proof -
  have "list_all (\<lambda>c. lower_hex_char c \<and> c \<noteq> CHR '','' \<and> c \<noteq> CHR ''='') (hexdigest bs)"
    by (simp add: hexdigest_def list_all_concat_map list_all_iff hex_char_facts byte_nibbles)
  then show "list_all lower_hex_char (hexdigest bs)" "CHR '','' \<notin> set (hexdigest bs)" "CHR ''='' \<notin> set (hexdigest bs)"
    by (auto simp: list_all_iff)
qed

section \<open>Base64\<close>

definition B64_ALPHABET :: string where
  "B64_ALPHABET = ''ABCDEFGHIJKLMNOPQRSTUVWXYZabcdefghijklmnopqrstuvwxyz0123456789+/''"

definition b64_char :: "nat \<Rightarrow> char" where "b64_char n = B64_ALPHABET ! n"

definition b64_value :: "char \<Rightarrow> nat option" where
  "b64_value c = map_of (zip B64_ALPHABET [0..<64]) c"

fun b64encode :: "bytes \<Rightarrow> string" where
  "b64encode [] = []"
| "b64encode [a] = [b64_char (unat a div 4), b64_char (unat a mod 4 * 16), CHR ''='', CHR ''='']"
| "b64encode [a, b] = [b64_char (unat a div 4), b64_char (unat a mod 4 * 16 + unat b div 16),
     b64_char (unat b mod 16 * 4), CHR ''='']"
| "b64encode (a # b # c # rest) =
     [b64_char (unat a div 4), b64_char (unat a mod 4 * 16 + unat b div 16),
      b64_char (unat b mod 16 * 4 + unat c div 64), b64_char (unat c mod 64)] @ b64encode rest"

text \<open>The bytes of a group of two, three and four characters; unused low bits are dropped.\<close>

definition group2 :: "char \<Rightarrow> char \<Rightarrow> bytes option" where
  "group2 w x = (case (b64_value w, b64_value x) of
       (Some p, Some q) \<Rightarrow> Some [word_of_nat (p * 4 + q div 16)] | _ \<Rightarrow> None)"

definition group3 :: "char \<Rightarrow> char \<Rightarrow> char \<Rightarrow> bytes option" where
  "group3 w x y = (case (group2 w x, b64_value x, b64_value y) of
       (Some g, Some q, Some r) \<Rightarrow> Some (g @ [word_of_nat (q mod 16 * 16 + r div 4)]) | _ \<Rightarrow> None)"

definition group4 :: "char \<Rightarrow> char \<Rightarrow> char \<Rightarrow> char \<Rightarrow> bytes option" where
  "group4 w x y z = (case (group3 w x y, b64_value y, b64_value z) of
       (Some g, Some r, Some s) \<Rightarrow> Some (g @ [word_of_nat (r mod 4 * 64 + s)]) | _ \<Rightarrow> None)"

text \<open>\<open>base64.b64decode(s, validate=True)\<close>, \<open>None\<close> for \<open>binascii.Error\<close>.\<close>

fun b64decode :: "string \<Rightarrow> bytes option" where
  "b64decode [] = Some []"
| "b64decode (w # x # y # z # rest) =
     (if rest = [] \<and> z = CHR ''='' then if y = CHR ''='' then group2 w x else group3 w x y
      else case (group4 w x y z, b64decode rest) of (Some g, Some gs) \<Rightarrow> Some (g @ gs) | _ \<Rightarrow> None)"
| "b64decode _ = None"

lemma b64_char_facts:
  assumes "n < 64"
  shows "b64_value (b64_char n) = Some n" "b64_char n \<noteq> CHR ''=''" "b64_char n \<noteq> CHR '' ''"
    "b64_char n \<in> set B64_ALPHABET" "of_char (b64_char n) < (128 :: nat)" "(32 :: nat) \<le> of_char (b64_char n)"
    "of_char (b64_char n) \<noteq> (127 :: nat)"
proof -
  have "list_all (\<lambda>n. b64_value (b64_char n) = Some n \<and> b64_char n \<noteq> CHR ''='' \<and> b64_char n \<noteq> CHR '' '' \<and>
      b64_char n \<in> set B64_ALPHABET \<and> of_char (b64_char n) < (128 :: nat) \<and>
      (32 :: nat) \<le> of_char (b64_char n) \<and> of_char (b64_char n) \<noteq> (127 :: nat)) [0..<64]"
    by code_simp
  from below_all[OF this assms]
  show "b64_value (b64_char n) = Some n" "b64_char n \<noteq> CHR ''=''" "b64_char n \<noteq> CHR '' ''"
    "b64_char n \<in> set B64_ALPHABET" "of_char (b64_char n) < (128 :: nat)" "(32 :: nat) \<le> of_char (b64_char n)"
    "of_char (b64_char n) \<noteq> (127 :: nat)" by blast+
qed

lemma sextets:
  fixes a b c :: byte
  shows "unat a div 4 < 64" "unat a mod 4 * 16 < 64" "unat a mod 4 * 16 + unat b div 16 < 64"
    "unat b mod 16 * 4 < 64" "unat b mod 16 * 4 + unat c div 64 < 64" "unat c mod 64 < 64"
proof -
  have a: "unat a mod 4 < 4" "unat b div 16 < 16" "unat b mod 16 < 16" "unat c div 64 < 4"
    using byte_bound[of a] byte_bound[of b] byte_bound[of c] by (simp_all add: less_mult_imp_div_less)
  show "unat a div 4 < 64" using byte_bound[of a] by (simp add: less_mult_imp_div_less)
  show "unat a mod 4 * 16 < 64" "unat a mod 4 * 16 + unat b div 16 < 64"
    "unat b mod 16 * 4 < 64" "unat b mod 16 * 4 + unat c div 64 < 64" "unat c mod 64 < 64"
    using a by linarith+
qed

lemma high_part: "m < k \<Longrightarrow> (h * k + m) div k = h" "m < k \<Longrightarrow> (h * k + m) mod k = m" for h k m :: nat
  by simp_all

lemma regroup1: "unat a div 4 * 4 + (unat a mod 4 * 16 + unat b div 16) div 16 = unat a" for a b :: byte
  using high_part(1)[of "unat b div 16" 16 "unat a mod 4"] byte_nibbles(1)[of b] by simp

lemma regroup2:
  "(unat a mod 4 * 16 + unat b div 16) mod 16 * 16 + (unat b mod 16 * 4 + unat c div 64) div 4 = unat b"
  for a b c :: byte
proof -
  have "unat c div 64 < 4" using byte_bound[of c] by (simp add: less_mult_imp_div_less)
  then show ?thesis
    using high_part(2)[of "unat b div 16" 16 "unat a mod 4"] byte_nibbles(1)[of b]
      high_part(1)[of "unat c div 64" 4 "unat b mod 16"] by simp
qed

lemma regroup3: "(unat b mod 16 * 4 + unat c div 64) mod 4 * 64 + unat c mod 64 = unat c" for b c :: byte
proof -
  have "unat c div 64 < 4" using byte_bound[of c] by (simp add: less_mult_imp_div_less)
  then show ?thesis using high_part(2)[of "unat c div 64" 4 "unat b mod 16"] by simp
qed

lemma b64decode_encode: "b64decode (b64encode bs) = Some bs"
proof (induction bs rule: b64encode.induct)
  case (2 a)
  have "unat a div 4 * 4 + unat a mod 4 * 16 div 16 = unat a" by simp
  then show ?case by (simp add: group2_def b64_char_facts sextets)
next
  case (3 a b)
  have "(unat a mod 4 * 16 + unat b div 16) mod 16 * 16 + unat b mod 16 * 4 div 4 = unat b"
    using regroup2[of a b 0] by simp
  then show ?case
    by (simp add: group2_def group3_def b64_char_facts sextets regroup1)
next
  case (4 a b c rest)
  have "group4 (b64_char (unat a div 4)) (b64_char (unat a mod 4 * 16 + unat b div 16))
      (b64_char (unat b mod 16 * 4 + unat c div 64)) (b64_char (unat c mod 64)) = Some [a, b, c]"
    by (simp add: group2_def group3_def group4_def b64_char_facts sextets regroup1 regroup2 regroup3
        del: of_nat_add of_nat_mult div_mult_self3 mod_mult_self3)
  with 4 show ?case by (simp add: b64_char_facts sextets)
qed simp

lemma b64encode_inj: "b64encode x = b64encode y \<Longrightarrow> x = y"
  by (metis b64decode_encode option.inject)

lemma b64encode_length: "length (b64encode bs) = (length bs + 2) div 3 * 4"
proof (induction bs rule: b64encode.induct)
  case (4 a b c rest)
  have "(length rest + 2 + 3) div 3 = (length rest + 2) div 3 + 1" by simp
  with 4 show ?case by simp
qed simp_all

lemma b64encode_no_space: "CHR '' '' \<notin> set (b64encode bs)"
  by (induction bs rule: b64encode.induct) (simp_all add: b64_char_facts(3)[symmetric] sextets)

text \<open>Two bytes more than a multiple of three: one padding character, after alphabet characters.\<close>

lemma b64encode_one_pad:
  "length bs mod 3 = 2 \<Longrightarrow> \<exists>body. b64encode bs = body @ ''='' \<and> list_all (\<lambda>c. c \<in> set B64_ALPHABET) body"
proof (induction bs rule: b64encode.induct)
  case (3 a b)
  have "b64encode [a, b] = [b64_char (unat a div 4), b64_char (unat a mod 4 * 16 + unat b div 16),
      b64_char (unat b mod 16 * 4)] @ ''=''" by simp
  moreover have "list_all (\<lambda>c. c \<in> set B64_ALPHABET) [b64_char (unat a div 4),
      b64_char (unat a mod 4 * 16 + unat b div 16), b64_char (unat b mod 16 * 4)]"
    by (simp add: b64_char_facts(4) sextets)
  ultimately show ?case by blast
next
  case (4 a b c rest)
  then have "length rest mod 3 = 2" by (simp add: mod_Suc split: if_splits)
  with 4 obtain body where b: "b64encode rest = body @ ''=''" "list_all (\<lambda>c. c \<in> set B64_ALPHABET) body" by blast
  let ?q = "[b64_char (unat a div 4), b64_char (unat a mod 4 * 16 + unat b div 16),
      b64_char (unat b mod 16 * 4 + unat c div 64), b64_char (unat c mod 64)]"
  have "b64encode (a # b # c # rest) = (?q @ body) @ ''=''" using b(1) by simp
  moreover have "list_all (\<lambda>c. c \<in> set B64_ALPHABET) (?q @ body)" using b(2) b64_char_facts(4) sextets by simp
  ultimately show ?case by blast
qed simp_all

lemma b64encode_printable: "c \<in> set (b64encode bs) \<Longrightarrow> 32 \<le> (of_char c :: nat) \<and> of_char c < (127 :: nat)"
proof -
  have "list_all (\<lambda>c. 32 \<le> (of_char c :: nat) \<and> of_char c < (127 :: nat)) (b64encode bs)"
  proof (induction bs rule: b64encode.induct)
    have k: "32 \<le> (of_char (b64_char n) :: nat) \<and> of_char (b64_char n) < (127 :: nat)" if "n < 64" for n
      using b64_char_facts(5,6,7)[OF that] by linarith
    { case 1 then show ?case by simp }
    { case (2 a) then show ?case using k sextets by simp }
    { case (3 a b) then show ?case using k sextets by simp }
    { case (4 a b c rest) then show ?case using k sextets by simp }
  qed
  then show "c \<in> set (b64encode bs) \<Longrightarrow> ?thesis" by (simp add: list_all_iff)
qed

end
