(* ===== verification/Retries.thy ===== *)
theory Retries
  imports Identifiers Domain_Enums Text_Codecs
begin

text \<open>
  The retry policy of \<open>scheduler/retries.py\<close> over the manifest's attempt templates
  (\<open>AttemptTemplate\<close> and \<open>DeliveryPlan\<close> of \<open>manifest/models.py\<close>): the classified predecessor and its
  relationship checks, the jittered delay, and \<open>evaluate_retry\<close> on every branch. The condition bytes
  are the JSON text the code writes; its values are enumeration values, validated identifiers and
  integers, none of which needs an escape.
\<close>

section \<open>Data\<close>

definition JITTER_POLICY_VERSION :: ustring where
  "JITTER_POLICY_VERSION = text_of ''retry-jitter-v1''"

definition MAX_ATTEMPTS :: int where "MAX_ATTEMPTS = 32"

datatype RetryPredicate = TIMED_OUT | CONNECTION_FAILED | RETRYABLE_STATUS

fun predicate_value :: "RetryPredicate \<Rightarrow> string" where
  "predicate_value RetryPredicate.TIMED_OUT = ''timed_out''"
| "predicate_value CONNECTION_FAILED = ''connection_failed''"
| "predicate_value RETRYABLE_STATUS = ''retryable_status''"

definition RETRY_PREDICATES :: "RetryPredicate list" where
  "RETRY_PREDICATES = [RetryPredicate.TIMED_OUT, CONNECTION_FAILED, RETRYABLE_STATUS]"

datatype RetryDisposition = SCHEDULED | INELIGIBLE | EXHAUSTED | AMBIGUOUS_BLOCKED

fun disposition_value :: "RetryDisposition \<Rightarrow> string" where
  "disposition_value RetryDisposition.SCHEDULED = ''scheduled''"
| "disposition_value INELIGIBLE = ''ineligible''"
| "disposition_value RetryDisposition.EXHAUSTED = ''exhausted''"
| "disposition_value AMBIGUOUS_BLOCKED = ''ambiguous_blocked''"

record AttemptTemplate =
  template_ordinal :: int
  not_before_logical_ns :: int
  request_blob :: string
  headers_sha256 :: string
  conditional_on :: "string option"

record DeliveryPlan =
  delivery_id :: string
  delivery_event_id :: string
  delivery_logical_time_ns :: int
  delivery_plan_ordinal :: int
  delivery_concurrency_group :: "string option"
  attempt_plan :: "AttemptTemplate list"

record ClassifiedPredecessor =
  pred_attempt_id :: string
  pred_attempt_ordinal :: int
  pred_classification :: AttemptClassification
  pred_predicate :: "RetryPredicate option"
  pred_logical_time_ns :: int
  pred_status_code :: "int option"

record RetryDecision =
  disposition :: RetryDisposition
  predecessor_attempt_id :: string
  predecessor_attempt_ordinal :: int
  next_attempt_ordinal :: "int option"
  attempt_plan_id :: "string option"
  retry_schedule_entry_id :: "string option"
  schedule_idempotency_key :: "string option"
  retry_logical_due_ns :: "int option"
  decision_predicate :: "RetryPredicate option"
  condition_json :: string
  decision_template :: "AttemptTemplate option"

section \<open>Checks\<close>

definition retry_ordinal :: "int \<Rightarrow> string \<Rightarrow> int result" where
  "retry_ordinal v name =
     and_then (raise_unless (1 \<le> v \<and> v \<le> MAX_SAFE_INTEGER)
       (RetryPolicyError (name @ '' must be a positive safe integer''))) (\<lambda>_. Inr v)"

definition retry_logical_time :: "int \<Rightarrow> string \<Rightarrow> int result" where
  "retry_logical_time v name =
     and_then (raise_unless (- MAX_SAFE_INTEGER \<le> v \<and> v \<le> MAX_SAFE_INTEGER)
       (RetryPolicyError (name @ '' must be a signed safe integer''))) (\<lambda>_. Inr v)"

definition retry_nonnegative_int64 :: "int \<Rightarrow> string \<Rightarrow> int result" where
  "retry_nonnegative_int64 v name =
     and_then (raise_unless (0 \<le> v \<and> v \<le> 2 ^ 63 - 1)
       (RetryPolicyError (name @ '' must be a nonnegative signed-int64 integer''))) (\<lambda>_. Inr v)"

definition validate_relationships :: "ClassifiedPredecessor \<Rightarrow> unit result" where
  "validate_relationships p =
     (if pred_classification p = AttemptClassification.AMBIGUOUS
      then if pred_predicate p \<noteq> None \<or> pred_status_code p \<noteq> None
           then Inl (RetryPolicyError ''ambiguous predecessors cannot claim retry eligibility'')
           else Inr ()
      else if pred_predicate p = Some RETRYABLE_STATUS
      then if pred_classification p \<noteq> AttemptClassification.RECEIVER_REJECTED \<or> pred_status_code p = None
           then Inl (RetryPolicyError ''retryable_status requires a classified receiver rejection status'')
           else Inr ()
      else if pred_status_code p \<noteq> None
      then Inl (RetryPolicyError ''status_code is valid only for retryable_status'')
      else if pred_predicate p \<in> {Some RetryPredicate.TIMED_OUT, Some CONNECTION_FAILED}
      then if pred_classification p \<noteq> AttemptClassification.ENVIRONMENT_FAILURE
           then Inl (RetryPolicyError ''transport retry predicates require environment_failure'')
           else Inr ()
      else if pred_predicate p = None \<and> pred_classification p = AttemptClassification.ENVIRONMENT_FAILURE then Inr ()
      else if pred_predicate p \<noteq> None
      then Inl (RetryPolicyError ''classification cannot carry this retry predicate'')
      else Inr ())"

definition ClassifiedPredecessor_post_init :: "ClassifiedPredecessor \<Rightarrow> ClassifiedPredecessor result" where
  "ClassifiedPredecessor_post_init p =
     and_then (validate_fresh_id (pred_attempt_id p) (Some FreshIdKind.ATTEMPT)) (\<lambda>_.
     and_then (retry_ordinal (pred_attempt_ordinal p) ''predecessor attempt ordinal'') (\<lambda>_.
     and_then (retry_logical_time (pred_logical_time_ns p) ''predecessor logical time'') (\<lambda>_.
     and_then (raise_unless (case pred_status_code p of None \<Rightarrow> True | Some c \<Rightarrow> 100 \<le> c \<and> c \<le> 599)
         (RetryPolicyError ''status_code must be an integer from 100 through 599'')) (\<lambda>_.
     and_then (validate_relationships p) (\<lambda>_.
       Inr p)))))"

section \<open>Delays\<close>

definition derive_signed_jitter_ns ::
    "ContextGenerator \<Rightarrow> ustring \<Rightarrow> ustring \<Rightarrow> int \<Rightarrow> int \<Rightarrow> ustring \<Rightarrow> int result" where
  "derive_signed_jitter_ns g scenario_id planned_delivery_id attempt_ordinal magnitude_bound_ns
       jitter_policy_version =
     and_then (retry_ordinal attempt_ordinal ''attempt ordinal'') (\<lambda>ordinal.
       signed_retry_jitter g scenario_id planned_delivery_id ordinal jitter_policy_version
         magnitude_bound_ns)"

definition derive_retry_delay_ns ::
    "ContextGenerator \<Rightarrow> ustring \<Rightarrow> ustring \<Rightarrow> int \<Rightarrow> int \<Rightarrow> int \<Rightarrow> ustring \<Rightarrow> (int \<times> int) result" where
  "derive_retry_delay_ns g scenario_id planned_delivery_id attempt_ordinal base_delay_ns
       magnitude_bound_ns jitter_policy_version =
     and_then (retry_nonnegative_int64 base_delay_ns ''base delay'') (\<lambda>base.
     and_then (derive_signed_jitter_ns g scenario_id planned_delivery_id attempt_ordinal
         magnitude_bound_ns jitter_policy_version) (\<lambda>jitter.
       let delay = max 0 (base + jitter)
       in if delay > MAX_SAFE_INTEGER
          then Inl (OverflowError ''jittered retry delay exceeds the safe-integer boundary'')
          else Inr (delay, jitter)))"

section \<open>Templates\<close>

definition RetryPredicate_of :: "string \<Rightarrow> RetryPredicate option" where
  "RetryPredicate_of s = find (\<lambda>p. predicate_value p = s) RETRY_PREDICATES"

definition template_predicates :: "AttemptTemplate \<Rightarrow> RetryPredicate set result" where
  "template_predicates t = (case conditional_on t of
       None \<Rightarrow> Inl (RetryPolicyError ''later attempt templates require a predecessor condition'')
     | Some condition \<Rightarrow>
         let pieces = split_on CHR ''|'' condition
         in if pieces = [] \<or> [] \<in> set pieces \<or> \<not> distinct pieces
            then Inl (RetryPolicyError ''retry template condition is empty or duplicated'')
            else if list_ex (\<lambda>piece. RetryPredicate_of piece = None) pieces
            then Inl (RetryPolicyError ''retry template contains an unknown predicate'')
            else Inr (set (map (the \<circ> RetryPredicate_of) pieces)))"

fun validate_templates :: "int \<Rightarrow> int option \<Rightarrow> AttemptTemplate list \<Rightarrow> unit result" where
  "validate_templates index previous_time [] = Inr ()"
| "validate_templates index previous_time (t # ts) =
     and_then (raise_unless (template_ordinal t = index)
         (RetryPolicyError ''attempt template ordinals must be contiguous'')) (\<lambda>_.
     and_then (retry_logical_time (not_before_logical_ns t) ''attempt template logical time'') (\<lambda>_.
     and_then (raise_unless (case previous_time of None \<Rightarrow> True | Some prev \<Rightarrow> prev \<le> not_before_logical_ns t)
         (RetryPolicyError ''attempt template logical times must be monotonic'')) (\<lambda>_.
     and_then (raise_unless (\<not> (index = 1 \<and> conditional_on t \<noteq> None))
         (RetryPolicyError ''first attempt template cannot be conditional'')) (\<lambda>_.
     and_then (if index > 1 then and_then (template_predicates t) (\<lambda>_. Inr ()) else Inr ()) (\<lambda>_.
       validate_templates (index + 1) (Some (not_before_logical_ns t)) ts)))))"

definition validate_attempt_plan :: "DeliveryPlan \<Rightarrow> unit result" where
  "validate_attempt_plan d =
     and_then (raise_unless (1 \<le> length (attempt_plan d) \<and> int (length (attempt_plan d)) \<le> MAX_ATTEMPTS)
         (RetryPolicyError ''attempt plan must contain between 1 and 32 templates'')) (\<lambda>_.
       validate_templates 1 None (attempt_plan d))"

section \<open>Decisions\<close>

definition json_text :: "string \<Rightarrow> string" where
  "json_text s = [CHR 0x22] @ s @ [CHR 0x22]"

definition json_or_null :: "('a \<Rightarrow> string) \<Rightarrow> 'a option \<Rightarrow> string" where
  "json_or_null f v = (case v of None \<Rightarrow> ''null'' | Some x \<Rightarrow> f x)"

fun json_object :: "(string \<times> string) list \<Rightarrow> string" where
  "json_object [] = []"
| "json_object [(k, v)] = json_text k @ '':'' @ v"
| "json_object ((k, v) # kvs) = json_text k @ '':'' @ v @ '','' @ json_object kvs"

definition condition_bytes ::
    "RetryDisposition \<Rightarrow> ClassifiedPredecessor \<Rightarrow> int option \<Rightarrow> RetryPredicate option \<Rightarrow> int option \<Rightarrow> string"
where
  "condition_bytes disp p next_ordinal predicate logical_due =
     ''{'' @ json_object
       [(''classification'', json_text (classification_value (pred_classification p))),
        (''disposition'', json_text (disposition_value disp)),
        (''logical_due_ns'', json_or_null int_str logical_due),
        (''next_attempt_ordinal'', json_or_null int_str next_ordinal),
        (''predecessor_attempt_id'', json_text (pred_attempt_id p)),
        (''predecessor_attempt_ordinal'', int_str (pred_attempt_ordinal p)),
        (''predicate'', json_or_null (json_text \<circ> predicate_value) predicate),
        (''status_code'', json_or_null int_str (pred_status_code p))] @ ''}''"

definition terminal_decision :: "RetryDisposition \<Rightarrow> ClassifiedPredecessor \<Rightarrow> RetryDecision" where
  "terminal_decision disp p =
     \<lparr>disposition = disp, predecessor_attempt_id = pred_attempt_id p,
      predecessor_attempt_ordinal = pred_attempt_ordinal p, next_attempt_ordinal = None,
      attempt_plan_id = None, retry_schedule_entry_id = None, schedule_idempotency_key = None,
      retry_logical_due_ns = None, decision_predicate = pred_predicate p,
      condition_json = condition_bytes disp p None (pred_predicate p) None, decision_template = None\<rparr>"

definition sha256_hex :: "string \<Rightarrow> string result" where
  "sha256_hex s = and_then (utf8_encode (text_of s)) (\<lambda>b. Inr (hexdigest (sha256 b)))"

text \<open>The end of \<open>evaluate_retry\<close>, from the point where the predecessor is found eligible.\<close>

definition scheduled_decision ::
    "DeliveryPlan \<Rightarrow> ClassifiedPredecessor \<Rightarrow> ContextGenerator \<Rightarrow> string \<Rightarrow> int \<Rightarrow> AttemptTemplate \<Rightarrow>
      RetryPredicate \<Rightarrow> RetryDecision result" where
  "scheduled_decision d p g scenario_id next_ordinal template predicate =
     and_then (raise_unless (\<not> not_before_logical_ns template < pred_logical_time_ns p)
       (RetryPolicyError ''retry logical time cannot precede its predecessor'')) (\<lambda>_.
     and_then (retry_logical_time (not_before_logical_ns template) ''retry logical time'') (\<lambda>_.
     and_then (planned_id g ATTEMPT_PLAN
       [text_of scenario_id, text_of (delivery_id d), text_of (int_str next_ordinal)]) (\<lambda>plan_id.
     let identity_root = scenario_id @ ''|'' @ delivery_id d @ ''|'' @ pred_attempt_id p @ ''|'' @
           int_str next_ordinal
     in and_then (sha256_hex identity_root) (\<lambda>root_hash.
        and_then (sha256_hex (''idempotency|'' @ identity_root)) (\<lambda>key_hash.
          Inr \<lparr>disposition = RetryDisposition.SCHEDULED, predecessor_attempt_id = pred_attempt_id p,
               predecessor_attempt_ordinal = pred_attempt_ordinal p,
               next_attempt_ordinal = Some next_ordinal, attempt_plan_id = Some plan_id,
               retry_schedule_entry_id = Some (''retry.'' @ root_hash),
               schedule_idempotency_key = Some (''retry.schedule.'' @ key_hash),
               retry_logical_due_ns = Some (not_before_logical_ns template),
               decision_predicate = Some predicate,
               condition_json = condition_bytes RetryDisposition.SCHEDULED p (Some next_ordinal) (Some predicate)
                 (Some (not_before_logical_ns template)),
               decision_template = Some template\<rparr>)))))"

definition evaluate_retry ::
    "DeliveryPlan \<Rightarrow> ClassifiedPredecessor \<Rightarrow> ContextGenerator \<Rightarrow> string \<Rightarrow> RetryDecision result" where
  "evaluate_retry d p g scenario_id =
     and_then (validate_planned_id scenario_id (Some PlannedIdKind.SCENARIO)) (\<lambda>_.
     and_then (validate_attempt_plan d) (\<lambda>_.
       let next_ordinal = pred_attempt_ordinal p + 1
       in if next_ordinal > int (length (attempt_plan d)) \<or> next_ordinal > MAX_ATTEMPTS
          then Inr (terminal_decision RetryDisposition.EXHAUSTED p)
          else let template = attempt_plan d ! nat (next_ordinal - 1) in
       and_then (raise_unless (template_ordinal template = next_ordinal)
         (RetryPolicyError ''next template ordinal does not follow its predecessor'')) (\<lambda>_.
       if pred_classification p = AttemptClassification.AMBIGUOUS then Inr (terminal_decision AMBIGUOUS_BLOCKED p)
       else
       and_then (template_predicates template) (\<lambda>predicates.
       case pred_predicate p of
         None \<Rightarrow> Inr (terminal_decision INELIGIBLE p)
       | Some predicate \<Rightarrow>
           if predicate \<notin> predicates then Inr (terminal_decision INELIGIBLE p)
           else scheduled_decision d p g scenario_id next_ordinal template predicate))))"

definition should_schedule :: "RetryDecision \<Rightarrow> bool" where
  "should_schedule dec = (disposition dec = RetryDisposition.SCHEDULED)"

section \<open>Lemmas\<close>

lemma retry_checks_eq_Inr [simp]:
  "retry_ordinal v n = Inr x \<longleftrightarrow> x = v \<and> 1 \<le> v \<and> v \<le> MAX_SAFE_INTEGER"
  "retry_logical_time v n = Inr x \<longleftrightarrow> x = v \<and> - MAX_SAFE_INTEGER \<le> v \<and> v \<le> MAX_SAFE_INTEGER"
  "retry_nonnegative_int64 v n = Inr x \<longleftrightarrow> x = v \<and> 0 \<le> v \<and> v \<le> 2 ^ 63 - 1"
  by (auto simp: retry_ordinal_def retry_logical_time_def retry_nonnegative_int64_def result_simps)

lemma validate_templates_nth:
  assumes "validate_templates k prev ts = Inr u" "i < length ts"
  shows "template_ordinal (ts ! i) = k + int i"
    and "1 < k + int i \<Longrightarrow> returns (template_predicates (ts ! i))"
  using assms
proof (induction ts arbitrary: k prev i)
  case (Cons t ts)
  {
    case 1
    then show ?case using Cons.IH(1)[of "k + 1" "Some (not_before_logical_ns t)" "i - 1"]
      by (cases i) (auto simp: result_simps)
  next
    case 2
    then show ?case using Cons.IH(2)[of "k + 1" "i - 1" "Some (not_before_logical_ns t)"]
      by (cases i) (auto simp: result_simps returns_iff)
  }
qed simp_all

definition retry_matches :: "DeliveryPlan \<Rightarrow> ClassifiedPredecessor \<Rightarrow> bool" where
  "retry_matches d p = (case (pred_predicate p, template_predicates (attempt_plan d ! nat (pred_attempt_ordinal p))) of
     (Some predicate, Inr predicates) \<Rightarrow> predicate \<in> predicates | _ \<Rightarrow> False)"

text \<open>What a scheduled decision carries.\<close>

definition scheduled_fields ::
    "DeliveryPlan \<Rightarrow> ClassifiedPredecessor \<Rightarrow> ContextGenerator \<Rightarrow> string \<Rightarrow> RetryDecision \<Rightarrow> bool" where
  "scheduled_fields d p g sid dec \<longleftrightarrow>
     (let n = pred_attempt_ordinal p + 1; t = attempt_plan d ! nat (pred_attempt_ordinal p) in
      disposition dec = RetryDisposition.SCHEDULED \<and> next_attempt_ordinal dec = Some n \<and>
      decision_template dec = Some t \<and> retry_logical_due_ns dec = Some (not_before_logical_ns t) \<and>
      pred_logical_time_ns p \<le> not_before_logical_ns t \<and> not_before_logical_ns t \<le> MAX_SAFE_INTEGER \<and>
      (\<exists>pid. attempt_plan_id dec = Some pid \<and> planned_id g ATTEMPT_PLAN
         [text_of sid, text_of (delivery_id d), text_of (int_str n)] = Inr pid) \<and>
      (\<exists>h. length h = 32 \<and> retry_schedule_entry_id dec = Some (''retry.'' @ hexdigest h)))"

lemma scheduled_decision_fields:
  assumes "scheduled_decision d p g sid n t predicate = Inr dec"
    and "n = pred_attempt_ordinal p + 1" "t = attempt_plan d ! nat (pred_attempt_ordinal p)"
  shows "scheduled_fields d p g sid dec"
  using assms(1) unfolding scheduled_decision_def
  by (auto simp: result_simps Let_def scheduled_fields_def assms(2,3)[symmetric] sha256_hex_def
      intro!: exI[of _ "sha256 _"])

lemma evaluate_retry_cases:
  assumes "evaluate_retry d p g sid = Inr dec"
  shows "int (length (attempt_plan d)) \<le> MAX_ATTEMPTS"
    and "if int (length (attempt_plan d)) \<le> pred_attempt_ordinal p then dec = terminal_decision RetryDisposition.EXHAUSTED p
      else if pred_classification p = AttemptClassification.AMBIGUOUS then dec = terminal_decision AMBIGUOUS_BLOCKED p
      else if \<not> retry_matches d p then dec = terminal_decision INELIGIBLE p
      else scheduled_fields d p g sid dec"
proof -
  define n where "n = pred_attempt_ordinal p + 1"
  define t where "t = attempt_plan d ! nat (pred_attempt_ordinal p)"
  have nt: "attempt_plan d ! nat (n - 1) = t" by (simp add: n_def t_def)
  have gt: "int (length (attempt_plan d)) < n \<longleftrightarrow> int (length (attempt_plan d)) \<le> pred_attempt_ordinal p"
    by (auto simp: n_def)
  show len: "int (length (attempt_plan d)) \<le> MAX_ATTEMPTS"
    using assms(1) by (auto simp: evaluate_retry_def validate_attempt_plan_def result_simps)
  show "if int (length (attempt_plan d)) \<le> pred_attempt_ordinal p then dec = terminal_decision RetryDisposition.EXHAUSTED p
      else if pred_classification p = AttemptClassification.AMBIGUOUS then dec = terminal_decision AMBIGUOUS_BLOCKED p
      else if \<not> retry_matches d p then dec = terminal_decision INELIGIBLE p
      else scheduled_fields d p g sid dec"
    using assms(1) len scheduled_decision_fields[of d p g sid n t _ dec, OF _ n_def t_def]
    unfolding evaluate_retry_def Let_def n_def[symmetric] nt gt[symmetric] retry_matches_def t_def[symmetric]
    by (auto simp: and_then_eq_Inr split: if_splits option.splits)
qed

section \<open>Identifiers of scheduled retries are schedule tokens\<close>

lemma hex_char_token: "d < 16 \<Longrightarrow> token_char (hex_char d)"
proof -
  assume "d < 16"
  moreover have "\<forall>d \<in> set [0..<16]. token_char (hex_char d)" by code_simp
  ultimately show ?thesis by simp
qed

lemma hexdigest_tokens: "list_all token_char (hexdigest bs)"
proof -
  have "token_char (hex_char (unat b div 16)) \<and> token_char (hex_char (unat b mod 16))" for b :: byte
    using byte_bound[of b] by (intro conjI hex_char_token) (simp_all add: less_mult_imp_div_less)
  then show ?thesis by (induction bs) (simp_all add: hexdigest_def)
qed

lemma crockford_tokens: "list_all token_char (encode_loop k n)"
proof -
  have "list_all token_char CROCKFORD_ALPHABET" by code_simp
  then show ?thesis using encode_loop_chars[of k n] by (auto simp: list_all_iff)
qed

lemma planned_id_token: "planned_id g kind key = Inr s \<Longrightarrow> bounded_token 96 s"
proof -
  assume "planned_id g kind key = Inr s"
  then obtain n where "s = planned_kind_value kind @ ''_'' @ encode_loop 26 n"
    by (auto simp: planned_id_def encode_crockford_ulid_def ULID_LENGTH_def result_simps)
  moreover have "list_all (\<lambda>k. list_all token_char (planned_kind_value k @ ''_'') \<and>
      length (planned_kind_value k) \<le> 20) PLANNED_KINDS" by code_simp
  then have "list_all token_char (planned_kind_value kind @ ''_'')" "length (planned_kind_value kind) \<le> 20"
    using in_kinds(1)[of kind] unfolding list_all_iff by blast+
  ultimately show ?thesis using crockford_tokens[of 26 n] by (simp add: bounded_token_def)
qed

lemma retry_entry_token: "length h = 32 \<Longrightarrow> bounded_token 96 (''retry.'' @ hexdigest h)"
proof -
  have "list_all token_char ''retry.''" by code_simp
  then show "length h = 32 \<Longrightarrow> bounded_token 96 (''retry.'' @ hexdigest h)"
    using hexdigest_tokens[of h] by (simp add: bounded_token_def)
qed

section \<open>Properties\<close>

text \<open>C14. The disposition of a retry is decided by the facts alone: exhausted exactly when the plan
  has no further template, blocked exactly when the outcome is ambiguous and a template remains,
  and scheduled exactly when a template remains, the outcome is not ambiguous and the template's
  condition names the predecessor's predicate. A decision that does not schedule carries no
  ordinal, no identifiers and no due time.\<close>

theorem retry_disposition_exact:
  assumes "evaluate_retry d p g sid = Inr dec"
  shows "(disposition dec = RetryDisposition.EXHAUSTED \<longleftrightarrow> int (length (attempt_plan d)) \<le> pred_attempt_ordinal p) \<and>
    (disposition dec = AMBIGUOUS_BLOCKED \<longleftrightarrow>
       pred_attempt_ordinal p < int (length (attempt_plan d)) \<and> pred_classification p = AttemptClassification.AMBIGUOUS) \<and>
    (should_schedule dec \<longleftrightarrow> pred_attempt_ordinal p < int (length (attempt_plan d)) \<and>
       pred_classification p \<noteq> AttemptClassification.AMBIGUOUS \<and> retry_matches d p) \<and>
    (should_schedule dec \<or> next_attempt_ordinal dec = None \<and> attempt_plan_id dec = None \<and>
       retry_schedule_entry_id dec = None \<and> retry_logical_due_ns dec = None)"
  using evaluate_retry_cases(2)[OF assms]
  by (auto simp: should_schedule_def terminal_decision_def scheduled_fields_def Let_def split: if_splits)

text \<open>A scheduled retry follows its predecessor: it takes the next ordinal, which never exceeds
  the plan or 32, and that ordinal's template; it is due no earlier than the predecessor's logical
  time; and both its identifiers are tokens the schedule queue accepts.\<close>

lemma retry_follows_predecessor:
  assumes "ClassifiedPredecessor_post_init p = Inr p" and "evaluate_retry d p g sid = Inr dec"
    and "should_schedule dec"
  shows "\<exists>n t entry plan. next_attempt_ordinal dec = Some n \<and> n = pred_attempt_ordinal p + 1 \<and>
    2 \<le> n \<and> n \<le> int (length (attempt_plan d)) \<and> n \<le> 32 \<and>
    t = attempt_plan d ! nat (n - 1) \<and> template_ordinal t = n \<and>
    retry_logical_due_ns dec = Some (not_before_logical_ns t) \<and>
    pred_logical_time_ns p \<le> not_before_logical_ns t \<and>
    retry_schedule_entry_id dec = Some entry \<and> bounded_token 96 entry \<and>
    attempt_plan_id dec = Some plan \<and> bounded_token 96 plan"
proof -
  have one: "1 \<le> pred_attempt_ordinal p"
    using assms(1) by (auto simp: ClassifiedPredecessor_post_init_def result_simps)
  note c = evaluate_retry_cases[OF assms(2)]
  have lt: "pred_attempt_ordinal p < int (length (attempt_plan d))" and f: "scheduled_fields d p g sid dec"
    using c(2) assms(3) by (auto simp: should_schedule_def terminal_decision_def split: if_splits)
  have "validate_templates 1 None (attempt_plan d) = Inr ()"
    using assms(2) by (auto simp: evaluate_retry_def validate_attempt_plan_def result_simps)
  from validate_templates_nth(1)[OF this, of "nat (pred_attempt_ordinal p)"]
  have "template_ordinal (attempt_plan d ! nat (pred_attempt_ordinal p)) = pred_attempt_ordinal p + 1"
    using lt one by simp
  moreover have "pred_attempt_ordinal p + 1 \<le> 32" using lt c(1) by (simp add: MAX_ATTEMPTS_def)
  ultimately show ?thesis using f lt one planned_id_token retry_entry_token
    by (auto simp: scheduled_fields_def Let_def)
qed

text \<open>A jittered retry delay is never negative, never beyond the safe integers, and within the
  jitter bound of the base delay wherever the clamp at zero does not apply.\<close>

lemma retry_delay_bounds:
  assumes "derive_retry_delay_ns g s d a base bound version = Inr (delay, jitter)"
  shows "0 \<le> delay \<and> delay \<le> MAX_SAFE_INTEGER \<and> delay = max 0 (base + jitter) \<and>
    - bound \<le> jitter \<and> jitter \<le> bound \<and> base - bound \<le> delay \<and> delay \<le> base + bound"
proof -
  obtain j where j: "signed_retry_jitter g s d a version bound = Inr j" "jitter = j"
      and d: "delay = max 0 (base + j)" "delay \<le> MAX_SAFE_INTEGER" "0 \<le> base"
    using assms by (auto simp: derive_retry_delay_ns_def derive_signed_jitter_ns_def result_simps Let_def
        split: if_splits)
  from signed_retry_jitter_range[OF j(1)] d show ?thesis by (auto simp: j(2))
qed

section \<open>Witnesses\<close>

definition zeros :: string where "zeros = replicate 26 CHR ''0''"

definition example_plan :: DeliveryPlan where
  "example_plan = \<lparr>delivery_id = ''delivery_'' @ zeros, delivery_event_id = ''event_'' @ zeros,
     delivery_logical_time_ns = 0, delivery_plan_ordinal = 0, delivery_concurrency_group = None,
     attempt_plan =
       [\<lparr>template_ordinal = 1, not_before_logical_ns = 0, request_blob = [], headers_sha256 = [],
         conditional_on = None\<rparr>,
        \<lparr>template_ordinal = 2, not_before_logical_ns = 5, request_blob = [], headers_sha256 = [],
         conditional_on = Some ''timed_out|connection_failed''\<rparr>]\<rparr>"

definition example_predecessor :: ClassifiedPredecessor where
  "example_predecessor = \<lparr>pred_attempt_id = ''attempt_'' @ zeros, pred_attempt_ordinal = 1,
     pred_classification = AttemptClassification.ENVIRONMENT_FAILURE, pred_predicate = Some RetryPredicate.TIMED_OUT,
     pred_logical_time_ns = 3, pred_status_code = None\<rparr>"

definition example_generator :: ContextGenerator where
  "example_generator = \<lparr>normalized_seed_hash = replicate 32 0\<rparr>"

lemma example_predecessor_ok: "ClassifiedPredecessor_post_init example_predecessor = Inr example_predecessor"
proof -
  have "parse_fresh_id (''attempt_'' @ zeros) = Inr (ATTEMPT, replicate 16 0)"
    using zero_payload by (simp add: parse_fresh_eq_Inr zeros_def)
  then show ?thesis
    by (simp add: ClassifiedPredecessor_post_init_def example_predecessor_def validate_fresh_id_def
        validate_relationships_def MAX_SAFE_INTEGER_def retry_ordinal_def retry_logical_time_def)
qed

lemma example_plan_ok: "validate_attempt_plan example_plan = Inr ()"
  by code_simp

lemma example_matches: "retry_matches example_plan example_predecessor"
  by code_simp

lemma example_retry:
  "\<exists>dec. evaluate_retry example_plan example_predecessor example_generator (''scenario_'' @ zeros) = Inr dec"
proof -
  let ?sid = "''scenario_'' @ zeros"
  have "parse_planned_id ?sid = Inr (SCENARIO, replicate 16 0)"
    using zero_payload by (simp add: parse_planned_eq_Inr zeros_def)
  then have sid: "validate_planned_id ?sid (Some PlannedIdKind.SCENARIO) = Inr ?sid" by (simp add: validate_planned_id_def)
  have zs: "ascii zeros" by code_simp
  then have asc: "ascii (s @ zeros)" if "ascii s" for s using that by (simp add: ascii_def)
  have lit: "ascii ''scenario_''" "ascii ''delivery_''" "ascii ''attempt_''" "ascii ''idempotency|''" "ascii ''|''"
    "int_str 2 = ''2''" "ascii ''2''"
    by code_simp+
  have app: "ascii (s @ t) \<longleftrightarrow> ascii s \<and> ascii t" for s t by (simp add: ascii_def)
  have did: "delivery_id example_plan = ''delivery_'' @ zeros" by (simp add: example_plan_def)
  have len: "length zeros = 26" by (simp add: zeros_def)
  have key: "validate_natural_component (text_of ?sid) = Inr (text_of ?sid)"
    "validate_natural_component (text_of (''delivery_'' @ zeros)) = Inr (text_of (''delivery_'' @ zeros))"
    "validate_natural_component (text_of ''2'') = Inr (text_of ''2'')"
    using natural_component_ascii[OF asc[OF lit(1)]] natural_component_ascii[OF asc[OF lit(2)]]
      natural_component_ascii[OF lit(7)] by (simp_all add: len)
  have "validate_natural_key [text_of ?sid, text_of (delivery_id example_plan), text_of (int_str 2)]
      = Inr [text_of ?sid, text_of (delivery_id example_plan), text_of (int_str 2)]"
    unfolding did lit(6) validate_natural_key_def
    by (simp only: for_each.simps key and_then_Inr raise_unless_True list.distinct not_False_eq_True)
  from planned_id_returns[OF this] obtain pid where pid: "planned_id example_generator ATTEMPT_PLAN
      [text_of ?sid, text_of (delivery_id example_plan), text_of (int_str 2)] = Inr pid" by blast
  have hash: "\<exists>h. sha256_hex s = Inr h" if "ascii s" for s
    using utf8_encode_ascii[OF that] by (simp add: sha256_hex_def)
  let ?root = "?sid @ ''|'' @ delivery_id example_plan @ ''|'' @ pred_attempt_id example_predecessor @ ''|'' @ int_str 2"
  have "ascii ?root" "ascii (''idempotency|'' @ ?root)"
    unfolding example_plan_def example_predecessor_def
    by (simp_all only: app lit zs DeliveryPlan.simps ClassifiedPredecessor.simps simp_thms)
  then obtain h k where "sha256_hex ?root = Inr h" "sha256_hex (''idempotency|'' @ ?root) = Inr k"
    using hash by blast
  moreover define t where "t = attempt_plan example_plan ! 1"
  moreover have "not_before_logical_ns t = 5" "pred_logical_time_ns example_predecessor = 3"
    by (simp_all add: t_def example_plan_def example_predecessor_def)
  ultimately have sched: "\<exists>dec. scheduled_decision example_plan example_predecessor example_generator ?sid 2 t
      RetryPredicate.TIMED_OUT = Inr dec"
    using pid unfolding scheduled_decision_def Let_def by (simp add: retry_logical_time_def MAX_SAFE_INTEGER_def)
  have "pred_attempt_ordinal example_predecessor + 1 = 2" "length (attempt_plan example_plan) = 2"
    "template_ordinal t = 2" "pred_classification example_predecessor = AttemptClassification.ENVIRONMENT_FAILURE"
    "pred_predicate example_predecessor = Some RetryPredicate.TIMED_OUT"
    by (simp_all add: example_predecessor_def example_plan_def t_def)
  moreover have "template_predicates t = Inr {RetryPredicate.TIMED_OUT, CONNECTION_FAILED}"
    unfolding t_def by code_simp
  ultimately show ?thesis using sid example_plan_ok sched t_def
    unfolding evaluate_retry_def Let_def by (simp add: MAX_ATTEMPTS_def)
qed

theorem retry_disposition_exact_witness:
  "\<exists>dec. evaluate_retry example_plan example_predecessor example_generator (''scenario_'' @ zeros) = Inr dec \<and>
     should_schedule dec"
proof -
  obtain dec where dec: "evaluate_retry example_plan example_predecessor example_generator
      (''scenario_'' @ zeros) = Inr dec" using example_retry by blast
  have "pred_attempt_ordinal example_predecessor < int (length (attempt_plan example_plan))"
    "pred_classification example_predecessor \<noteq> AttemptClassification.AMBIGUOUS"
    by (simp_all add: example_predecessor_def example_plan_def)
  with retry_disposition_exact[OF dec] example_matches dec show ?thesis by blast
qed

lemma retry_follows_predecessor_witness:
  "\<exists>dec. evaluate_retry example_plan example_predecessor example_generator (''scenario_'' @ zeros) = Inr dec \<and>
     next_attempt_ordinal dec = Some 2 \<and> retry_logical_due_ns dec = Some 5"
proof -
  obtain dec where dec: "evaluate_retry example_plan example_predecessor example_generator
      (''scenario_'' @ zeros) = Inr dec" using example_retry by blast
  have "scheduled_fields example_plan example_predecessor example_generator (''scenario_'' @ zeros) dec"
    using evaluate_retry_cases(2)[OF dec] example_matches
    by (simp add: example_predecessor_def example_plan_def)
  then have "should_schedule dec" by (simp add: scheduled_fields_def should_schedule_def Let_def)
  from retry_follows_predecessor[OF example_predecessor_ok dec this] dec show ?thesis
    by (auto simp: example_predecessor_def example_plan_def)
qed

lemma retry_delay_bounds_witness:
  "\<exists>delay jitter. derive_retry_delay_ns example_generator (text_of ''s'') (text_of ''d'') 1 7 0
     (text_of ''v'') = Inr (delay, jitter) \<and> delay = 7"
proof -
  let ?c = "[text_of ''retry-jitter'', text_of ''s'', text_of ''d'', text_of (nat_str 1), text_of ''v'']"
  have lit: "ascii ''retry-jitter''" "ascii ''s''" "ascii ''d''" "ascii ''v''" "nat_str 1 = ''1''" "ascii ''1''"
    by code_simp+
  have comp: "returns (encode_component (text_of s))" if "ascii s" "length s \<le> 20" for s
    using utf8_encode_ascii[OF that(1)] that(2)
    by (simp add: returns_iff encode_component_eq_Inr UINT32_MAX_def text_of_def)
  have "\<forall>t \<in> set ?c. returns (encode_component t)" using comp lit by simp
  then have "returns (for_each encode_component ?c)" by (simp only: for_each_unit_ok)
  moreover have "[] \<notin> set ?c" using lit(5) by (simp add: text_of_def)
  ultimately obtain e where e: "encode_context ?c = Inr e"
    unfolding encode_context_eq_Inr returns_iff for_each_eq_Inr by blast
  have w: "sample_width 1 = 1" "rejection_limit 1 = 256"
    by (simp_all add: sample_width_def bit_length.simps rejection_limit_def Let_def)
  obtain bs where bs: "stream_slice example_generator e 0 1 = Inr bs"
    by (simp add: stream_slice_def Let_def DIGEST_SIZE_def INITIAL_COUNTER_def UINT64_MAX_def blocks_eq)
  have "length bs \<le> 1" using stream_slice_eq_Inr(2)[OF bs order_refl] by simp
  then have "from_bytes bs < 256"
    using from_bytes_bound[of bs] power_increasing[of "length bs" 1 "256::nat"] by simp
  then have "sample_loop example_generator e 1 0 = Inr (from_bytes bs)"
    using bs by (subst sample_loop.simps) (simp only: w Let_def sum.case if_True)
  then have "bounded_int example_generator ?c 0 1 = Inr 0" using e by (simp add: bounded_int_def)
  then have "signed_retry_jitter example_generator (text_of ''s'') (text_of ''d'') 1 (text_of ''v'') 0 = Inr 0"
    by (simp add: signed_retry_jitter_def nonempty_text_def nonnegative_integer_def text_of_def
        UINT64_MAX_def INT64_MAX_def)
  then have r: "derive_retry_delay_ns example_generator (text_of ''s'') (text_of ''d'') 1 7 0 (text_of ''v'') = Inr (7, 0)"
    by (simp add: derive_retry_delay_ns_def derive_signed_jitter_ns_def retry_nonnegative_int64_def
        retry_ordinal_def MAX_SAFE_INTEGER_def)
  from retry_delay_bounds[OF r] r show ?thesis by auto
qed

end
