(* ===== verification/Verdicts.thy ===== *)
theory Verdicts
  imports Domain_Enums
begin

text \<open>
  Terminal results: the result categories and exit codes of \<open>errors.py\<close> and the classification and
  reduction of \<open>runtime/verdicts.py\<close>. The proofs order the categories by the code's precedence, most
  severe first, which makes them a linear order of the library; the theorem compares the outcome with the documented
  precedence and exit codes, written out.
\<close>

datatype ErrorCategory =
    CONFIGURATION_ERROR | UNSUPPORTED_SCHEMA | SECRET_REFERENCE_ERROR | RESOURCE_LIMIT | PLANNING_ERROR | FIXTURE_ERROR
  | UNSUPPORTED_CAPABILITY | JOURNAL_BUSY | ILLEGAL_TRANSITION | INTEGRITY_ERROR | MIGRATION_ERROR | SCHEDULE_ERROR
  | DEADLOCK | CANCELLED | CONNECT_TIMEOUT | READ_TIMEOUT | WRITE_TIMEOUT | POOL_TIMEOUT | TLS_ERROR | CONNECTION_ERROR
  | PROTOCOL_ERROR | RESPONSE_TOO_LARGE | KEY_UNAVAILABLE | UNSUPPORTED_ALGORITHM | SIGNING_ERROR
  | MUTATION_NOT_APPLICABLE | CONFLICTING_MUTATION | INVALID_PARAMETER | OBSERVER_TIMEOUT | OBSERVER_PROTOCOL_ERROR
  | OBSERVER_PROCESS_ERROR | OBSERVER_HTTP_ERROR | OBSERVER_AUTH_ERROR | ASSERTION_ERROR | EVIDENCE_MISSING
  | UNSUPPORTED_ASSERTION | REPORT_ERROR | ARTIFACT_INTEGRITY_ERROR | OUTPUT_LIMIT | LIFECYCLE_DISABLED | PROCESS_ERROR
  | READINESS_TIMEOUT | SCHEMA_VALIDATION_ERROR | INTERNAL_ERROR

datatype ResultCategory =
    PASS | RECEIVER_FAILURE | ENVIRONMENT_ERROR | HARNESS_ERROR | AMBIGUOUS | INVALID_INPUT
  | UNSUPPORTED | CANCELLED

datatype CliExitCategory =
    PASS | RECEIVER_FAILURE | INVALID_INPUT | ENVIRONMENT_FAILURE | AMBIGUOUS | HARNESS_FAILURE
  | UNSUPPORTED | CANCELLED

datatype ExitCode =
    PASS | RECEIVER_FAILURE | INVALID_INPUT | ENVIRONMENT_FAILURE | AMBIGUOUS | HARNESS_FAILURE
  | UNSUPPORTED | CANCELLED

fun exit_code_value :: "ExitCode \<Rightarrow> int" where
  "exit_code_value ExitCode.PASS = 0"
| "exit_code_value ExitCode.RECEIVER_FAILURE = 1"
| "exit_code_value ExitCode.INVALID_INPUT = 2"
| "exit_code_value ExitCode.ENVIRONMENT_FAILURE = 3"
| "exit_code_value ExitCode.AMBIGUOUS = 4"
| "exit_code_value ExitCode.HARNESS_FAILURE = 5"
| "exit_code_value ExitCode.UNSUPPORTED = 6"
| "exit_code_value ExitCode.CANCELLED = 130"

fun RESULT_TO_EXIT :: "ResultCategory \<Rightarrow> CliExitCategory \<times> ExitCode" where
  "RESULT_TO_EXIT ResultCategory.PASS = (CliExitCategory.PASS, ExitCode.PASS)"
| "RESULT_TO_EXIT ResultCategory.RECEIVER_FAILURE =
     (CliExitCategory.RECEIVER_FAILURE, ExitCode.RECEIVER_FAILURE)"
| "RESULT_TO_EXIT ResultCategory.ENVIRONMENT_ERROR =
     (CliExitCategory.ENVIRONMENT_FAILURE, ExitCode.ENVIRONMENT_FAILURE)"
| "RESULT_TO_EXIT ResultCategory.HARNESS_ERROR =
     (CliExitCategory.HARNESS_FAILURE, ExitCode.HARNESS_FAILURE)"
| "RESULT_TO_EXIT ResultCategory.AMBIGUOUS = (CliExitCategory.AMBIGUOUS, ExitCode.AMBIGUOUS)"
| "RESULT_TO_EXIT ResultCategory.INVALID_INPUT =
     (CliExitCategory.INVALID_INPUT, ExitCode.INVALID_INPUT)"
| "RESULT_TO_EXIT ResultCategory.UNSUPPORTED = (CliExitCategory.UNSUPPORTED, ExitCode.UNSUPPORTED)"
| "RESULT_TO_EXIT ResultCategory.CANCELLED = (CliExitCategory.CANCELLED, ExitCode.CANCELLED)"

definition exit_for_result :: "ResultCategory \<Rightarrow> CliExitCategory \<times> ExitCode" where
  "exit_for_result r = RESULT_TO_EXIT r"

section \<open>Classification\<close>

datatype AssertionErrorOrigin = ENVIRONMENT | HARNESS | INVALID_INPUT

fun ERROR_RESULT :: "AssertionErrorOrigin \<Rightarrow> ResultCategory" where
  "ERROR_RESULT AssertionErrorOrigin.ENVIRONMENT = ResultCategory.ENVIRONMENT_ERROR"
| "ERROR_RESULT AssertionErrorOrigin.HARNESS = ResultCategory.HARNESS_ERROR"
| "ERROR_RESULT AssertionErrorOrigin.INVALID_INPUT = ResultCategory.INVALID_INPUT"

fun ATTEMPT_RESULT :: "AttemptClassification \<Rightarrow> ResultCategory" where
  "ATTEMPT_RESULT AttemptClassification.PLANNED = ResultCategory.PASS"
| "ATTEMPT_RESULT AttemptClassification.RECEIVER_ACCEPTED = ResultCategory.PASS"
| "ATTEMPT_RESULT AttemptClassification.RECEIVER_REJECTED = ResultCategory.RECEIVER_FAILURE"
| "ATTEMPT_RESULT AttemptClassification.ENVIRONMENT_FAILURE = ResultCategory.ENVIRONMENT_ERROR"
| "ATTEMPT_RESULT AttemptClassification.HARNESS_FAILURE = ResultCategory.HARNESS_ERROR"
| "ATTEMPT_RESULT AttemptClassification.CANCELLED = ResultCategory.CANCELLED"
| "ATTEMPT_RESULT AttemptClassification.AMBIGUOUS = ResultCategory.AMBIGUOUS"

definition PRECEDENCE :: "ResultCategory list" where
  "PRECEDENCE = [ResultCategory.HARNESS_ERROR, ResultCategory.INVALID_INPUT, ResultCategory.AMBIGUOUS,
     ResultCategory.ENVIRONMENT_ERROR, ResultCategory.UNSUPPORTED, ResultCategory.RECEIVER_FAILURE,
     ResultCategory.CANCELLED, ResultCategory.PASS]"

definition PRECEDENCE_INDEX :: "ResultCategory \<Rightarrow> nat" where
  "PRECEDENCE_INDEX c = the (map_of (zip PRECEDENCE [0..<length PRECEDENCE]) c)"

record TerminalVerdict =
  category :: ResultCategory
  exit_code :: ExitCode

definition TerminalVerdict_init :: "ResultCategory \<Rightarrow> ExitCode \<Rightarrow> TerminalVerdict result" where
  "TerminalVerdict_init c e =
     and_then (raise_unless (snd (exit_for_result c) = e)
         (ValueError ''exit_code does not match terminal category'')) (\<lambda>_.
       Inr \<lparr>category = c, exit_code = e\<rparr>)"

definition terminal_verdict :: "ResultCategory \<Rightarrow> TerminalVerdict result" where
  "terminal_verdict c = TerminalVerdict_init c (snd (exit_for_result c))"

definition classify_assertion_verdict ::
    "AssertionResult \<Rightarrow> AssertionState \<Rightarrow> AssertionErrorOrigin option \<Rightarrow> TerminalVerdict result" where
  "classify_assertion_verdict r s error_origin =
     (if s = AssertionState.PASSED \<and> r = AssertionResult.PASS then terminal_verdict ResultCategory.PASS
      else if s = AssertionState.FAILED \<and> r = AssertionResult.FAIL
      then terminal_verdict ResultCategory.RECEIVER_FAILURE
      else if s = AssertionState.UNSUPPORTED \<and> r \<in> {AssertionResult.ERROR, AssertionResult.SKIPPED}
      then terminal_verdict ResultCategory.UNSUPPORTED
      else if s = AssertionState.ERROR \<and> r = AssertionResult.ERROR
      then (case error_origin of
              None \<Rightarrow> Inl (ValueError ''errored assertions require an explicit error origin'')
            | Some origin \<Rightarrow> terminal_verdict (ERROR_RESULT origin))
      else if s = AssertionState.CANCELLED then terminal_verdict ResultCategory.CANCELLED
      else Inl (ValueError ''assertion result and lifecycle state do not form a terminal verdict''))"

definition classify_attempt_verdict :: "AttemptClassification \<Rightarrow> TerminalVerdict result" where
  "classify_attempt_verdict c = terminal_verdict (ATTEMPT_RESULT c)"

text \<open>Python's \<open>min\<close> with a key: the first element whose key is minimal.\<close>

fun min_by :: "('a \<Rightarrow> nat) \<Rightarrow> 'a \<Rightarrow> 'a list \<Rightarrow> 'a" where
  "min_by key best [] = best"
| "min_by key best (x # xs) = (if key x < key best then min_by key x xs else min_by key best xs)"

definition reduce_terminal_verdicts ::
    "ResultCategory list \<Rightarrow> ResultCategory option \<Rightarrow> TerminalVerdict result" where
  "reduce_terminal_verdicts categories durably_terminal = (case categories of
       [] \<Rightarrow> Inl (TypeError ''categories must be a nonempty tuple of ResultCategory values'')
     | c # cs \<Rightarrow> (case durably_terminal of
           Some d \<Rightarrow> terminal_verdict d
         | None \<Rightarrow> terminal_verdict (min_by PRECEDENCE_INDEX c cs)))"

section \<open>The precedence order\<close>

lemma PRECEDENCE_INDEX_simps [simp]:
  "PRECEDENCE_INDEX ResultCategory.HARNESS_ERROR = 0" "PRECEDENCE_INDEX ResultCategory.INVALID_INPUT = 1"
  "PRECEDENCE_INDEX ResultCategory.AMBIGUOUS = 2" "PRECEDENCE_INDEX ResultCategory.ENVIRONMENT_ERROR = 3"
  "PRECEDENCE_INDEX ResultCategory.UNSUPPORTED = 4" "PRECEDENCE_INDEX ResultCategory.RECEIVER_FAILURE = 5"
  "PRECEDENCE_INDEX ResultCategory.CANCELLED = 6" "PRECEDENCE_INDEX ResultCategory.PASS = 7"
  by (simp_all add: PRECEDENCE_INDEX_def PRECEDENCE_def upt_rec)

lemma PRECEDENCE_INDEX_inj: "PRECEDENCE_INDEX a = PRECEDENCE_INDEX b \<longleftrightarrow> a = b"
  by (cases a; cases b) simp_all

instantiation ResultCategory :: linorder
begin

definition less_eq_ResultCategory :: "ResultCategory \<Rightarrow> ResultCategory \<Rightarrow> bool" where
  "less_eq_ResultCategory a b \<longleftrightarrow> PRECEDENCE_INDEX a \<le> PRECEDENCE_INDEX b"

definition less_ResultCategory :: "ResultCategory \<Rightarrow> ResultCategory \<Rightarrow> bool" where
  "less_ResultCategory a b \<longleftrightarrow> PRECEDENCE_INDEX a < PRECEDENCE_INDEX b"

instance
  by standard
    (auto simp: less_eq_ResultCategory_def less_ResultCategory_def PRECEDENCE_INDEX_inj)

end

lemma terminal_verdict_eq:
  "terminal_verdict c = Inr \<lparr>category = c, exit_code = snd (RESULT_TO_EXIT c)\<rparr>"
  by (simp add: terminal_verdict_def TerminalVerdict_init_def exit_for_result_def)

lemma min_by_Min: "min_by PRECEDENCE_INDEX c cs = Min (insert c (set cs))"
proof (induction cs arbitrary: c)
  case (Cons x xs)
  have "Min (insert c (set (x # xs))) = min (min c x) (if xs = [] then min c x else Min (set xs))"
    by (auto simp: min.assoc min.left_commute)
  moreover have "min_by PRECEDENCE_INDEX c (x # xs) = min_by PRECEDENCE_INDEX (min c x) xs"
    by (auto simp: min_def less_eq_ResultCategory_def PRECEDENCE_INDEX_inj)
  moreover have "Min (insert (min c x) (set xs)) = min (min c x) (if xs = [] then min c x else Min (set xs))"
    by auto
  ultimately show ?case using Cons[of "min c x"] by simp
qed simp

section \<open>Properties\<close>

text \<open>The reduction as the command line specification documents it (\<open>specification/17-cli-configuration-and-dx.md\<close> and
  REPORT-022): the category that wins over a set of facts, with the number the process exits with.\<close>

definition documented_reduction :: "ResultCategory set \<Rightarrow> ResultCategory \<times> int" where
  "documented_reduction facts =
     (if ResultCategory.HARNESS_ERROR \<in> facts then (ResultCategory.HARNESS_ERROR, 5)
      else if ResultCategory.INVALID_INPUT \<in> facts then (ResultCategory.INVALID_INPUT, 2)
      else if ResultCategory.AMBIGUOUS \<in> facts then (ResultCategory.AMBIGUOUS, 4)
      else if ResultCategory.ENVIRONMENT_ERROR \<in> facts then (ResultCategory.ENVIRONMENT_ERROR, 3)
      else if ResultCategory.UNSUPPORTED \<in> facts then (ResultCategory.UNSUPPORTED, 6)
      else if ResultCategory.RECEIVER_FAILURE \<in> facts then (ResultCategory.RECEIVER_FAILURE, 1)
      else if ResultCategory.CANCELLED \<in> facts then (ResultCategory.CANCELLED, 130)
      else (ResultCategory.PASS, 0))"

lemma documented_least:
  assumes "m \<in> facts" "\<forall>x \<in> facts. PRECEDENCE_INDEX m \<le> PRECEDENCE_INDEX x"
  shows "documented_reduction facts = (m, exit_code_value (snd (RESULT_TO_EXIT m)))"
proof -
  have above: "PRECEDENCE_INDEX x < PRECEDENCE_INDEX m \<Longrightarrow> x \<notin> facts" for x using assms(2) by (auto simp: not_le)
  show ?thesis
    using assms(1) above[of ResultCategory.HARNESS_ERROR] above[of ResultCategory.INVALID_INPUT] above[of ResultCategory.AMBIGUOUS]
      above[of ResultCategory.ENVIRONMENT_ERROR] above[of ResultCategory.UNSUPPORTED] above[of ResultCategory.RECEIVER_FAILURE]
      above[of ResultCategory.CANCELLED]
    by (cases m) (simp_all add: documented_reduction_def)
qed

text \<open>C15. The terminal result of a run is the one the documented precedence gives. Whatever the order the facts are reported in
  and however often, a harness error wins over invalid input, then an ambiguous outcome, an environment error, an
  unsupported assertion, a receiver failure, a cancellation and last a pass, and the process exits with the
  number documented for the winner; a result that is already durable decides alone. Without any fact the
  reduction is refused.\<close>

theorem verdict_reduction:
  "(if categories = [] then \<exists>message. reduce_terminal_verdicts categories durable = Inl (TypeError message)
    else \<exists>v. reduce_terminal_verdicts categories durable = Inr v \<and>
      (category v, exit_code_value (exit_code v)) =
        documented_reduction (case durable of None \<Rightarrow> set categories | Some d \<Rightarrow> {d}))"
proof (cases categories)
  case (Cons c cs)
  have least: "documented_reduction (insert c (set cs)) = (m, exit_code_value (snd (RESULT_TO_EXIT m)))"
    if "m = min_by PRECEDENCE_INDEX c cs" for m
    using that Min_in[of "insert c (set cs)"] Min_le[of "insert c (set cs)"]
    by (intro documented_least) (simp_all add: min_by_Min less_eq_ResultCategory_def)
  show ?thesis
    using Cons least documented_least[of _ "{_}"]
    by (cases durable) (simp_all add: reduce_terminal_verdicts_def terminal_verdict_eq)
qed (simp add: reduce_terminal_verdicts_def)

text \<open>An assertion counts against the receiver only when it was evaluated and failed, and for it
  only when it was evaluated and passed: errors, unsupported and cancelled evaluations are never
  reported as a receiver's failure or success, whatever the recorded result.\<close>

lemma assertion_blames_receiver_only_on_failure:
  "((\<exists>v. classify_assertion_verdict r s origin = Inr v \<and> category v = ResultCategory.RECEIVER_FAILURE) \<longleftrightarrow>
      s = AssertionState.FAILED \<and> r = AssertionResult.FAIL) \<and>
   ((\<exists>v. classify_assertion_verdict r s origin = Inr v \<and> category v = ResultCategory.PASS) \<longleftrightarrow>
      s = AssertionState.PASSED \<and> r = AssertionResult.PASS) \<and>
   (returns (classify_assertion_verdict r s origin) \<longleftrightarrow>
      s = AssertionState.PASSED \<and> r = AssertionResult.PASS \<or>
      s = AssertionState.FAILED \<and> r = AssertionResult.FAIL \<or>
      s = AssertionState.UNSUPPORTED \<and> r \<in> {AssertionResult.ERROR, AssertionResult.SKIPPED} \<or>
      s = AssertionState.ERROR \<and> r = AssertionResult.ERROR \<and> origin \<noteq> None \<or>
      s = AssertionState.CANCELLED)"
proof -
  have "ERROR_RESULT x \<notin> {ResultCategory.RECEIVER_FAILURE, ResultCategory.PASS}" for x
    by (cases x) simp_all
  then show ?thesis
    by (cases s; cases r; cases origin) (auto simp: classify_assertion_verdict_def terminal_verdict_eq)
qed

end
