(* ===== verification/Lifecycle.thy ===== *)
theory Lifecycle
  imports Domain_Enums Clocks "HOL-Library.AList"
begin

text \<open>
  The lifecycle tables and the replay of the transition ledger, from \<open>journal/transitions.py\<close>: the six
  edge tables, the state-machine definitions built from them with their coherence checks, parsing
  of stored states, the replay of ordered history into an inventory, and the comparison of the
  live inventory with the replayed one. A lifecycle state is a member of one of six enumerations;
  the members are strings in the source (\<open>StrEnum\<close>), and the code compares them as such.
\<close>

section \<open>Edge tables\<close>

type_synonym StateEdge = "string \<times> string"

datatype EntityType = RUN | SCENARIO | DELIVERY | ATTEMPT | OBSERVATION | ASSERTION

fun entity_type_value :: "EntityType \<Rightarrow> string" where
  "entity_type_value EntityType.RUN = ''run''"
| "entity_type_value EntityType.SCENARIO = ''scenario''"
| "entity_type_value EntityType.DELIVERY = ''delivery''"
| "entity_type_value EntityType.ATTEMPT = ''attempt''"
| "entity_type_value EntityType.OBSERVATION = ''observation''"
| "entity_type_value EntityType.ASSERTION = ''assertion''"

definition ENTITY_TYPES :: "EntityType list" where
  "ENTITY_TYPES = [EntityType.RUN, EntityType.SCENARIO, EntityType.DELIVERY, EntityType.ATTEMPT,
     EntityType.OBSERVATION, EntityType.ASSERTION]"

text \<open>An edge of the table, given by its members, as the pair of their values.\<close>

definition edges_of :: "('s \<Rightarrow> string) \<Rightarrow> ('s \<times> 's) list \<Rightarrow> StateEdge set" where
  "edges_of v es = set (map (\<lambda>(a, b). (v a, v b)) es)"

definition RUN_EDGES :: "StateEdge set" where
  "RUN_EDGES = edges_of run_state_value
    [(RunState.PLANNED, RunState.RUNNING),
     (RunState.PLANNED, RunState.CANCELLED),
     (RunState.PLANNED, RunState.FAILED),
     (RunState.RUNNING, RunState.PAUSED),
     (RunState.RUNNING, RunState.COMPLETED),
     (RunState.RUNNING, RunState.CANCELLED),
     (RunState.RUNNING, RunState.FAILED),
     (RunState.PAUSED, RunState.RUNNING),
     (RunState.PAUSED, RunState.CANCELLED),
     (RunState.PAUSED, RunState.FAILED)]"

definition SCENARIO_EDGES :: "StateEdge set" where
  "SCENARIO_EDGES = edges_of scenario_state_value
    [(ScenarioState.PENDING, ScenarioState.ELIGIBLE),
     (ScenarioState.PENDING, ScenarioState.SKIPPED),
     (ScenarioState.PENDING, ScenarioState.ERROR),
     (ScenarioState.PENDING, ScenarioState.CANCELLED),
     (ScenarioState.ELIGIBLE, ScenarioState.RUNNING),
     (ScenarioState.ELIGIBLE, ScenarioState.SKIPPED),
     (ScenarioState.ELIGIBLE, ScenarioState.ERROR),
     (ScenarioState.ELIGIBLE, ScenarioState.CANCELLED),
     (ScenarioState.RUNNING, ScenarioState.PASSED),
     (ScenarioState.RUNNING, ScenarioState.FAILED),
     (ScenarioState.RUNNING, ScenarioState.ERROR),
     (ScenarioState.RUNNING, ScenarioState.SKIPPED),
     (ScenarioState.RUNNING, ScenarioState.AMBIGUOUS),
     (ScenarioState.RUNNING, ScenarioState.CANCELLED)]"

definition DELIVERY_EDGES :: "StateEdge set" where
  "DELIVERY_EDGES = edges_of delivery_state_value
    [(DeliveryState.PENDING, DeliveryState.ELIGIBLE),
     (DeliveryState.PENDING, DeliveryState.SKIPPED),
     (DeliveryState.PENDING, DeliveryState.CANCELLED),
     (DeliveryState.ELIGIBLE, DeliveryState.ACTIVE),
     (DeliveryState.ELIGIBLE, DeliveryState.SKIPPED),
     (DeliveryState.ELIGIBLE, DeliveryState.CANCELLED),
     (DeliveryState.ACTIVE, DeliveryState.ELIGIBLE),
     (DeliveryState.ACTIVE, DeliveryState.SATISFIED),
     (DeliveryState.ACTIVE, DeliveryState.EXHAUSTED),
     (DeliveryState.ACTIVE, DeliveryState.AMBIGUOUS),
     (DeliveryState.ACTIVE, DeliveryState.CANCELLED)]"

definition ATTEMPT_EDGES :: "StateEdge set" where
  "ATTEMPT_EDGES = edges_of attempt_state_value
    [(AttemptState.SCHEDULED, AttemptState.CLAIMED),
     (AttemptState.SCHEDULED, AttemptState.CANCELLED),
     (AttemptState.CLAIMED, AttemptState.PRE_SEND_COMMITTED),
     (AttemptState.CLAIMED, AttemptState.NOT_SENT),
     (AttemptState.CLAIMED, AttemptState.CANCELLED),
     (AttemptState.PRE_SEND_COMMITTED, AttemptState.CONNECTING),
     (AttemptState.PRE_SEND_COMMITTED, AttemptState.NOT_SENT),
     (AttemptState.PRE_SEND_COMMITTED, AttemptState.CANCELLED),
     (AttemptState.CONNECTING, AttemptState.SENDING),
     (AttemptState.CONNECTING, AttemptState.NOT_SENT),
     (AttemptState.CONNECTING, AttemptState.TRANSPORT_FAILED),
     (AttemptState.CONNECTING, AttemptState.UNKNOWN_OUTCOME),
     (AttemptState.CONNECTING, AttemptState.CANCELLED),
     (AttemptState.SENDING, AttemptState.AWAITING_RESPONSE),
     (AttemptState.SENDING, AttemptState.TRANSPORT_FAILED),
     (AttemptState.SENDING, AttemptState.UNKNOWN_OUTCOME),
     (AttemptState.AWAITING_RESPONSE, AttemptState.RESPONSE_OBSERVED),
     (AttemptState.AWAITING_RESPONSE, AttemptState.TRANSPORT_FAILED),
     (AttemptState.AWAITING_RESPONSE, AttemptState.UNKNOWN_OUTCOME),
     (AttemptState.RESPONSE_OBSERVED, AttemptState.SUCCEEDED),
     (AttemptState.RESPONSE_OBSERVED, AttemptState.REJECTED),
     (AttemptState.RESPONSE_OBSERVED, AttemptState.TRANSPORT_FAILED)]"

definition OBSERVATION_EDGES :: "StateEdge set" where
  "OBSERVATION_EDGES = edges_of observation_state_value
    [(ObservationState.SCHEDULED, ObservationState.RUNNING),
     (ObservationState.SCHEDULED, ObservationState.CANCELLED),
     (ObservationState.RUNNING, ObservationState.OK),
     (ObservationState.RUNNING, ObservationState.PENDING),
     (ObservationState.RUNNING, ObservationState.UNSUPPORTED),
     (ObservationState.RUNNING, ObservationState.ERROR),
     (ObservationState.RUNNING, ObservationState.TIMED_OUT),
     (ObservationState.RUNNING, ObservationState.CANCELLED)]"

definition ASSERTION_EDGES :: "StateEdge set" where
  "ASSERTION_EDGES = edges_of assertion_state_value
    [(AssertionState.PENDING, AssertionState.RUNNING),
     (AssertionState.PENDING, AssertionState.CANCELLED),
     (AssertionState.RUNNING, AssertionState.PASSED),
     (AssertionState.RUNNING, AssertionState.FAILED),
     (AssertionState.RUNNING, AssertionState.ERROR),
     (AssertionState.RUNNING, AssertionState.UNSUPPORTED),
     (AssertionState.RUNNING, AssertionState.CANCELLED)]"

section \<open>State machines\<close>

text \<open>The members of an enumeration in declaration order; a state type is the list of their values.\<close>

definition RunState_members :: "RunState list" where
  "RunState_members = [RunState.PLANNED, RunState.RUNNING, RunState.PAUSED, RunState.COMPLETED,
     RunState.CANCELLED, RunState.FAILED]"

definition ScenarioState_members :: "ScenarioState list" where
  "ScenarioState_members = [ScenarioState.PENDING, ScenarioState.ELIGIBLE, ScenarioState.RUNNING, ScenarioState.PASSED,
     ScenarioState.FAILED, ScenarioState.ERROR, ScenarioState.SKIPPED, ScenarioState.AMBIGUOUS,
     ScenarioState.CANCELLED]"

definition DeliveryState_members :: "DeliveryState list" where
  "DeliveryState_members = [DeliveryState.PENDING, DeliveryState.ELIGIBLE, DeliveryState.ACTIVE, DeliveryState.SATISFIED,
     DeliveryState.EXHAUSTED, DeliveryState.AMBIGUOUS, DeliveryState.CANCELLED, DeliveryState.SKIPPED]"

definition AttemptState_members :: "AttemptState list" where
  "AttemptState_members = [AttemptState.SCHEDULED, AttemptState.CLAIMED, AttemptState.PRE_SEND_COMMITTED, AttemptState.CONNECTING,
     AttemptState.SENDING, AttemptState.AWAITING_RESPONSE, AttemptState.RESPONSE_OBSERVED, AttemptState.NOT_SENT,
     AttemptState.SUCCEEDED, AttemptState.REJECTED, AttemptState.TRANSPORT_FAILED, AttemptState.UNKNOWN_OUTCOME,
     AttemptState.CANCELLED]"

definition ObservationState_members :: "ObservationState list" where
  "ObservationState_members = [ObservationState.SCHEDULED, ObservationState.RUNNING, ObservationState.OK, ObservationState.PENDING,
     ObservationState.UNSUPPORTED, ObservationState.ERROR, ObservationState.TIMED_OUT, ObservationState.CANCELLED]"

definition AssertionState_members :: "AssertionState list" where
  "AssertionState_members = [AssertionState.PENDING, AssertionState.RUNNING, AssertionState.PASSED, AssertionState.FAILED,
     AssertionState.ERROR, AssertionState.UNSUPPORTED, AssertionState.CANCELLED]"

record StateMachineDefinition =
  sm_entity_type :: EntityType
  state_type :: "string list"
  initial_state :: string
  sm_states :: "string set"
  sm_edges :: "StateEdge set"
  terminal_states :: "string set"

definition StateMachineDefinition_post_init :: "StateMachineDefinition \<Rightarrow> StateMachineDefinition result" where
  "StateMachineDefinition_post_init m =
     and_then (raise_unless (set (state_type m) = sm_states m)
       (ValueError (entity_type_value (sm_entity_type m) @ '' state definition differs from its enum''))) (\<lambda>_.
     and_then (raise_unless (initial_state m \<in> sm_states m)
       (ValueError (entity_type_value (sm_entity_type m) @ '' initial state is undeclared''))) (\<lambda>_.
     and_then (raise_unless (\<not> (\<exists>e \<in> sm_edges m. fst e \<notin> sm_states m \<or> snd e \<notin> sm_states m))
       (ValueError (entity_type_value (sm_entity_type m) @ '' edge references an undeclared state''))) (\<lambda>_.
     and_then (raise_unless (terminal_states m = sm_states m - fst ` sm_edges m)
       (ValueError (entity_type_value (sm_entity_type m) @ '' terminal states differ from its edge table''))) (\<lambda>_.
       Inr m))))"

definition machine_allows :: "StateMachineDefinition \<Rightarrow> string \<Rightarrow> string \<Rightarrow> bool" where
  "machine_allows m from_state to_state = ((from_state, to_state) \<in> sm_edges m)"

text \<open>The argument of \<open>StateMachineDefinition(...)\<close> in \<open>_definition\<close>, before its checks.\<close>

definition definition_fields ::
    "EntityType \<Rightarrow> string list \<Rightarrow> string \<Rightarrow> StateEdge set \<Rightarrow> StateMachineDefinition" where
  "definition_fields ty st init edges =
     \<lparr>sm_entity_type = ty, state_type = st, initial_state = init, sm_states = set st, sm_edges = edges,
      terminal_states = set st - fst ` edges\<rparr>"

fun STATE_MACHINES :: "EntityType \<Rightarrow> StateMachineDefinition" where
  "STATE_MACHINES EntityType.RUN = definition_fields EntityType.RUN
     (map run_state_value RunState_members) (run_state_value RunState.PLANNED) RUN_EDGES"
| "STATE_MACHINES EntityType.SCENARIO = definition_fields EntityType.SCENARIO
     (map scenario_state_value ScenarioState_members) (scenario_state_value ScenarioState.PENDING) SCENARIO_EDGES"
| "STATE_MACHINES EntityType.DELIVERY = definition_fields EntityType.DELIVERY
     (map delivery_state_value DeliveryState_members) (delivery_state_value DeliveryState.PENDING) DELIVERY_EDGES"
| "STATE_MACHINES EntityType.ATTEMPT = definition_fields EntityType.ATTEMPT
     (map attempt_state_value AttemptState_members) (attempt_state_value AttemptState.SCHEDULED) ATTEMPT_EDGES"
| "STATE_MACHINES EntityType.OBSERVATION = definition_fields EntityType.OBSERVATION
     (map observation_state_value ObservationState_members) (observation_state_value ObservationState.SCHEDULED) OBSERVATION_EDGES"
| "STATE_MACHINES EntityType.ASSERTION = definition_fields EntityType.ASSERTION
     (map assertion_state_value AssertionState_members) (assertion_state_value AssertionState.PENDING) ASSERTION_EDGES"

definition state_machine :: "EntityType \<Rightarrow> StateMachineDefinition" where
  "state_machine ty = STATE_MACHINES ty"

datatype LifecycleState =
    RunS RunState | ScenarioS ScenarioState | DeliveryS DeliveryState | AttemptS AttemptState
  | ObservationS ObservationState | AssertionS AssertionState

fun state_value :: "LifecycleState \<Rightarrow> string" where
  "state_value (RunS s) = run_state_value s"
| "state_value (ScenarioS s) = scenario_state_value s"
| "state_value (DeliveryS s) = delivery_state_value s"
| "state_value (AttemptS s) = attempt_state_value s"
| "state_value (ObservationS s) = observation_state_value s"
| "state_value (AssertionS s) = assertion_state_value s"

text \<open>The enumeration a member belongs to, as the entity type that uses it.\<close>

fun kind_of :: "LifecycleState \<Rightarrow> EntityType" where
  "kind_of (RunS _) = EntityType.RUN"
| "kind_of (ScenarioS _) = EntityType.SCENARIO"
| "kind_of (DeliveryS _) = EntityType.DELIVERY"
| "kind_of (AttemptS _) = EntityType.ATTEMPT"
| "kind_of (ObservationS _) = EntityType.OBSERVATION"
| "kind_of (AssertionS _) = EntityType.ASSERTION"

text \<open>The members of an entity's enumeration, wrapped.\<close>

fun members_of :: "EntityType \<Rightarrow> LifecycleState list" where
  "members_of EntityType.RUN = map RunS RunState_members"
| "members_of EntityType.SCENARIO = map ScenarioS ScenarioState_members"
| "members_of EntityType.DELIVERY = map DeliveryS DeliveryState_members"
| "members_of EntityType.ATTEMPT = map AttemptS AttemptState_members"
| "members_of EntityType.OBSERVATION = map ObservationS ObservationState_members"
| "members_of EntityType.ASSERTION = map AssertionS AssertionState_members"

definition parse_state :: "EntityType \<Rightarrow> string \<Rightarrow> LifecycleState result" where
  "parse_state ty v = (case find (\<lambda>s. state_value s = v) (members_of ty) of
       Some s \<Rightarrow> Inr s
     | None \<Rightarrow> Inl (ProjectionIntegrityError (entity_type_value ty @ '' projection contains an undeclared state'')))"

definition transition_allowed :: "EntityType \<Rightarrow> LifecycleState \<Rightarrow> LifecycleState \<Rightarrow> bool" where
  "transition_allowed ty from_state to_state =
     (if kind_of from_state \<noteq> ty \<or> kind_of to_state \<noteq> ty then False
      else machine_allows (state_machine ty) (state_value from_state) (state_value to_state))"

section \<open>Comparison with an external definition\<close>

record StateMachineComparison =
  missing_states :: "string set"
  unexpected_states :: "string set"
  missing_edges :: "StateEdge set"
  unexpected_edges :: "StateEdge set"
  missing_initial_states :: "string set"
  unexpected_initial_states :: "string set"
  missing_terminal_states :: "string set"
  unexpected_terminal_states :: "string set"

definition comparison_matches :: "StateMachineComparison \<Rightarrow> bool" where
  "comparison_matches c \<longleftrightarrow> \<not> (missing_states c \<noteq> {} \<or> unexpected_states c \<noteq> {} \<or> missing_edges c \<noteq> {} \<or>
     unexpected_edges c \<noteq> {} \<or> missing_initial_states c \<noteq> {} \<or> unexpected_initial_states c \<noteq> {} \<or>
     missing_terminal_states c \<noteq> {} \<or> unexpected_terminal_states c \<noteq> {})"

definition compare_state_machine_definition ::
    "EntityType \<Rightarrow> string list \<Rightarrow> StateEdge list \<Rightarrow> string list option \<Rightarrow> string list option \<Rightarrow>
      StateMachineComparison" where
  "compare_state_machine_definition ty states edges initial_states terminals =
     (let m = state_machine ty;
          external_states = set states;
          external_edges = set edges;
          expected_initial = {initial_state m};
          external_initial = (case initial_states of None \<Rightarrow> expected_initial | Some i \<Rightarrow> set i);
          external_terminal = (case terminals of None \<Rightarrow> terminal_states m | Some t \<Rightarrow> set t)
      in \<lparr>missing_states = sm_states m - external_states,
          unexpected_states = external_states - sm_states m,
          missing_edges = sm_edges m - external_edges,
          unexpected_edges = external_edges - sm_edges m,
          missing_initial_states = expected_initial - external_initial,
          unexpected_initial_states = external_initial - expected_initial,
          missing_terminal_states = terminal_states m - external_terminal,
          unexpected_terminal_states = external_terminal - terminal_states m\<rparr>)"

section \<open>Replay of history\<close>

definition MAX_REPLAY_TRANSITIONS :: nat where "MAX_REPLAY_TRANSITIONS = 100000"

text \<open>The declaration order of the entity types orders them, as the sort keys of the code do.\<close>

definition entity_index :: "EntityType \<Rightarrow> nat" where
  "entity_index ty = the (map_of (zip ENTITY_TYPES [0..<length ENTITY_TYPES]) ty)"

lemma entity_index_simps [simp]:
  "entity_index EntityType.RUN = 0" "entity_index EntityType.SCENARIO = 1" "entity_index EntityType.DELIVERY = 2"
  "entity_index EntityType.ATTEMPT = 3" "entity_index EntityType.OBSERVATION = 4" "entity_index EntityType.ASSERTION = 5"
  by (simp_all add: entity_index_def ENTITY_TYPES_def upt_rec)

lemma entity_index_inj: "entity_index a = entity_index b \<longleftrightarrow> a = b"
  by (cases a; cases b) simp_all

instantiation EntityType :: linorder
begin

definition less_eq_EntityType :: "EntityType \<Rightarrow> EntityType \<Rightarrow> bool" where
  "less_eq_EntityType a b \<longleftrightarrow> entity_index a \<le> entity_index b"

definition less_EntityType :: "EntityType \<Rightarrow> EntityType \<Rightarrow> bool" where
  "less_EntityType a b \<longleftrightarrow> entity_index a < entity_index b"

instance
  by standard (auto simp: less_eq_EntityType_def less_EntityType_def entity_index_inj)

end

type_synonym identity = "string \<times> EntityType \<times> string"

record TransitionRecord =
  transition_id :: string
  rec_run_id :: string
  rec_sequence :: int
  rec_entity_type :: EntityType
  rec_entity_id :: string
  from_state :: "LifecycleState option"
  to_state :: LifecycleState
  rec_trigger_category :: string
  causal_record_id :: "string option"
  rec_timestamp :: TransitionTimestamp
  rec_logical_time_ns :: "int option"
  rec_owner_epoch :: int
  rec_idempotency_key :: string

record ProjectionState =
  proj_run_id :: string
  proj_entity_type :: EntityType
  proj_entity_id :: string
  proj_state :: LifecycleState

definition record_identity :: "TransitionRecord \<Rightarrow> identity" where
  "record_identity r = (rec_run_id r, rec_entity_type r, rec_entity_id r)"

definition projection_identity :: "ProjectionState \<Rightarrow> identity" where
  "projection_identity p = (proj_run_id p, proj_entity_type p, proj_entity_id p)"

definition projection_of :: "identity \<Rightarrow> LifecycleState \<Rightarrow> ProjectionState" where
  "projection_of i s = \<lparr>proj_run_id = fst i, proj_entity_type = fst (snd i), proj_entity_id = snd (snd i),
     proj_state = s\<rparr>"

record replay_state =
  current :: "(identity \<times> LifecycleState) list"
  transition_ids :: "string set"
  idempotency_keys :: "(string \<times> string) set"
  prior_sequence :: "string \<rightharpoonup> int"

text \<open>The body of the replay loop.\<close>

definition replay_record :: "replay_state \<Rightarrow> TransitionRecord \<Rightarrow> replay_state result" where
  "replay_record st r =
     (let previous = (case prior_sequence st (rec_run_id r) of None \<Rightarrow> 0 | Some n \<Rightarrow> n) in
      and_then (raise_unless (\<not> rec_sequence r \<le> previous)
        (ProjectionIntegrityError ''transition replay sequence is not strictly increasing'')) (\<lambda>_.
      and_then (raise_unless (transition_id r \<notin> transition_ids st)
        (ProjectionIntegrityError ''transition replay contains a duplicate transition ID'')) (\<lambda>_.
      and_then (raise_unless ((rec_run_id r, rec_idempotency_key r) \<notin> idempotency_keys st)
        (ProjectionIntegrityError ''transition replay contains a duplicate idempotency key'')) (\<lambda>_.
      let identity = record_identity r; machine = state_machine (rec_entity_type r) in
      and_then (case map_of (current st) identity of
          None \<Rightarrow> raise_unless (\<not> (from_state r \<noteq> None \<or> state_value (to_state r) \<noteq> initial_state machine))
            (ProjectionIntegrityError ''transition history does not begin at the authoritative initial state'')
        | Some existing \<Rightarrow> raise_unless
            (\<not> (map_option state_value (from_state r) \<noteq> Some (state_value existing) \<or>
                \<not> machine_allows machine (state_value existing) (state_value (to_state r))))
            (ProjectionIntegrityError ''transition history contains an illegal or discontinuous edge'')) (\<lambda>_.
        Inr \<lparr>current = AList.update identity (to_state r) (current st),
             transition_ids = insert (transition_id r) (transition_ids st),
             idempotency_keys = insert (rec_run_id r, rec_idempotency_key r) (idempotency_keys st),
             prior_sequence = (prior_sequence st)(rec_run_id r \<mapsto> rec_sequence r)\<rparr>)))))"

fun replay_loop :: "replay_state \<Rightarrow> TransitionRecord list \<Rightarrow> replay_state result" where
  "replay_loop st [] = Inr st"
| "replay_loop st (r # rs) = and_then (replay_record st r) (\<lambda>st'. replay_loop st' rs)"

definition replay_empty :: replay_state where
  "replay_empty = \<lparr>current = [], transition_ids = {}, idempotency_keys = {}, prior_sequence = Map.empty\<rparr>"

definition replay_transition_records :: "TransitionRecord list \<Rightarrow> ProjectionState list result" where
  "replay_transition_records rs =
     and_then (raise_unless (length rs \<le> MAX_REPLAY_TRANSITIONS)
       (ProjectionIntegrityError ''transition replay exceeds the bounded inventory limit'')) (\<lambda>_.
     and_then (replay_loop replay_empty rs) (\<lambda>st.
       Inr (map (\<lambda>(i, s). projection_of i s) (sort_key fst (current st)))))"

section \<open>Comparison of inventories\<close>

record ProjectionMismatch =
  mismatch_run_id :: string
  mismatch_entity_type :: EntityType
  mismatch_entity_id :: string
  projected_state :: "LifecycleState option"
  replayed_state :: "LifecycleState option"

record ProjectionAudit =
  audit_projected :: "ProjectionState list"
  audit_replayed :: "ProjectionState list"
  mismatches :: "ProjectionMismatch list"

definition audit_matches :: "ProjectionAudit \<Rightarrow> bool" where
  "audit_matches a = (mismatches a = [])"

fun projection_map :: "(identity \<times> LifecycleState) list \<Rightarrow> ProjectionState list \<Rightarrow>
    (identity \<times> LifecycleState) list result" where
  "projection_map acc [] = Inr acc"
| "projection_map acc (p # ps) =
     (if map_of acc (projection_identity p) \<noteq> None
      then Inl (ProjectionIntegrityError ''projection inventory contains a duplicate entity identity'')
      else projection_map (AList.update (projection_identity p) (proj_state p) acc) ps)"

definition compare_projection_inventories ::
    "ProjectionState list \<Rightarrow> ProjectionState list \<Rightarrow> ProjectionAudit result" where
  "compare_projection_inventories projected replayed =
     and_then (projection_map [] projected) (\<lambda>projected_map.
     and_then (projection_map [] replayed) (\<lambda>replayed_map.
       let identities = sort (remdups (map fst projected_map @ map fst replayed_map))
       in Inr \<lparr>audit_projected = projected, audit_replayed = replayed,
               mismatches = map (\<lambda>i.
                   \<lparr>mismatch_run_id = fst i, mismatch_entity_type = fst (snd i), mismatch_entity_id = snd (snd i),
                    projected_state = map_of projected_map i, replayed_state = map_of replayed_map i\<rparr>)
                 [i \<leftarrow> identities. map_option state_value (map_of projected_map i) \<noteq>
                    map_option state_value (map_of replayed_map i)]\<rparr>))"

section \<open>Lemmas on the tables\<close>

lemma machines_checked:
  "list_all (\<lambda>ty. returns (StateMachineDefinition_post_init (state_machine ty))) ENTITY_TYPES"
  by code_simp

lemma in_entity_types: "ty \<in> set ENTITY_TYPES"
  by (cases ty) (simp_all add: ENTITY_TYPES_def)

lemma members_complete: "s \<in> set (members_of (kind_of s))"
proof (cases s)
  case (RunS x)
  then show ?thesis by (cases x) (simp_all add: RunState_members_def)
next
  case (ScenarioS x)
  then show ?thesis by (cases x) (simp_all add: ScenarioState_members_def)
next
  case (DeliveryS x)
  then show ?thesis by (cases x) (simp_all add: DeliveryState_members_def)
next
  case (AttemptS x)
  then show ?thesis by (cases x) (simp_all add: AttemptState_members_def)
next
  case (ObservationS x)
  then show ?thesis by (cases x) (simp_all add: ObservationState_members_def)
next
  case (AssertionS x)
  then show ?thesis by (cases x) (simp_all add: AssertionState_members_def)
qed

lemma member_kind: "s \<in> set (members_of ty) \<Longrightarrow> kind_of s = ty"
  by (cases ty) auto

lemma state_value_inj: "kind_of s = kind_of t \<Longrightarrow> state_value s = state_value t \<longleftrightarrow> s = t"
  by (cases s; cases t) (simp_all add: enum_values_inj)

lemma parse_state_eq_Inr: "parse_state ty v = Inr s \<longleftrightarrow> kind_of s = ty \<and> state_value s = v"
proof
  assume "parse_state ty v = Inr s"
  then have "find (\<lambda>s. state_value s = v) (members_of ty) = Some s"
    by (auto simp: parse_state_def split: option.splits)
  then show "kind_of s = ty \<and> state_value s = v"
    by (auto simp: find_Some_iff intro!: member_kind nth_mem)
next
  assume s: "kind_of s = ty \<and> state_value s = v"
  then have m: "s \<in> set (members_of ty)" using members_complete[of s] by simp
  then obtain t where t: "find (\<lambda>s. state_value s = v) (members_of ty) = Some t"
    using s by (cases "find (\<lambda>s. state_value s = v) (members_of ty)") (auto simp: find_None_iff)
  then have "state_value t = v" "t \<in> set (members_of ty)"
    by (auto simp: find_Some_iff intro!: nth_mem)
  with s member_kind[of t ty] have "t = s" by (metis state_value_inj)
  with t show "parse_state ty v = Inr s" by (simp add: parse_state_def)
qed

end
