(* ===== verification/Ledger_Replay.thy ===== *)
theory Ledger_Replay
  imports Lifecycle "HOL-Library.Multiset"
begin

text \<open>
  What the replay of the transition ledger and the comparison of inventories promise. The
  specification of an acceptable history is stated on the whole list of records, entity by entity,
  and the loop of \<open>replay_transition_records\<close>, with its four accumulators, is shown to accept exactly
  such lists and to return the last state of every entity, in the order of identities.
\<close>

section \<open>Specification of a history\<close>

definition history_of :: "identity \<Rightarrow> TransitionRecord list \<Rightarrow> TransitionRecord list" where
  "history_of i rs = [r \<leftarrow> rs. record_identity r = i]"

definition last_state :: "TransitionRecord list \<Rightarrow> LifecycleState option" where
  "last_state h = (if h = [] then None else Some (to_state (last h)))"

text \<open>One entity's history is legal when it starts, without a source state, in the initial state, and
  each later record continues the one before it along an edge of the machine.\<close>

definition continues :: "StateMachineDefinition \<Rightarrow> LifecycleState option \<Rightarrow> TransitionRecord \<Rightarrow> bool" where
  "continues m s r = (case s of
       None \<Rightarrow> from_state r = None \<and> state_value (to_state r) = initial_state m
     | Some e \<Rightarrow> map_option state_value (from_state r) = Some (state_value e) \<and>
         (state_value e, state_value (to_state r)) \<in> sm_edges m)"

fun legal_history :: "StateMachineDefinition \<Rightarrow> LifecycleState option \<Rightarrow> TransitionRecord list \<Rightarrow> bool" where
  "legal_history m s [] = True"
| "legal_history m s (r # rs) = (continues m s r \<and> legal_history m (Some (to_state r)) rs)"

definition ledger_ok :: "TransitionRecord list \<Rightarrow> bool" where
  "ledger_ok rs \<longleftrightarrow> distinct (map transition_id rs) \<and>
     distinct (map (\<lambda>r. (rec_run_id r, rec_idempotency_key r)) rs) \<and>
     (\<forall>run. sorted_wrt (<) (0 # map rec_sequence [r \<leftarrow> rs. rec_run_id r = run])) \<and>
     (\<forall>i. legal_history (state_machine (fst (snd i))) None (history_of i rs))"

section \<open>Replay as a fold from the left\<close>

lemma legal_history_snoc:
  "legal_history m s (h @ [r]) \<longleftrightarrow>
     legal_history m s h \<and> continues m (if h = [] then s else last_state h) r"
  by (induction h arbitrary: s) (auto simp: last_state_def)

lemma history_of_snoc:
  "history_of i (rs @ [r]) = (if record_identity r = i then history_of i rs @ [r] else history_of i rs)"
  by (simp add: history_of_def)

lemma last_state_snoc [simp]: "last_state (h @ [r]) = Some (to_state r)"
  by (simp add: last_state_def)

lemma last_state_Nil [simp]: "last_state [] = None"
  by (simp add: last_state_def)

text \<open>The condition a further record has to meet, in terms of the records before it.\<close>

definition run_sequence :: "string \<Rightarrow> TransitionRecord list \<Rightarrow> int list" where
  "run_sequence run rs = 0 # map rec_sequence [r \<leftarrow> rs. rec_run_id r = run]"

definition extends_ledger :: "TransitionRecord list \<Rightarrow> TransitionRecord \<Rightarrow> bool" where
  "extends_ledger rs r \<longleftrightarrow> last (run_sequence (rec_run_id r) rs) < rec_sequence r \<and>
     transition_id r \<notin> transition_id ` set rs \<and>
     (rec_run_id r, rec_idempotency_key r) \<notin> (\<lambda>r. (rec_run_id r, rec_idempotency_key r)) ` set rs \<and>
     continues (state_machine (rec_entity_type r)) (last_state (history_of (record_identity r) rs)) r"

lemma sorted_wrt_less_snoc:
  "sorted_wrt (<) ((x :: int) # xs @ [y]) \<longleftrightarrow> sorted_wrt (<) (x # xs) \<and> last (x # xs) < y"
proof (induction xs arbitrary: x)
  case (Cons z zs)
  have "sorted_wrt (<) (z # zs) \<Longrightarrow> z \<le> last (z # zs)"
    by (cases zs rule: rev_cases) (auto simp: sorted_wrt_append less_imp_le)
  then show ?case using Cons.IH[of z] by auto
qed simp

lemma run_sequence_snoc:
  "run_sequence run (rs @ [r]) = run_sequence run rs @ (if rec_run_id r = run then [rec_sequence r] else [])"
  by (simp add: run_sequence_def)

lemma sequences_snoc:
  "(\<forall>run. sorted_wrt (<) (run_sequence run (rs @ [r]))) \<longleftrightarrow>
     (\<forall>run. sorted_wrt (<) (run_sequence run rs)) \<and> last (run_sequence (rec_run_id r) rs) < rec_sequence r"
proof -
  have "sorted_wrt (<) (run_sequence run (rs @ [r])) \<longleftrightarrow> sorted_wrt (<) (run_sequence run rs) \<and>
      (rec_run_id r = run \<longrightarrow> last (run_sequence run rs) < rec_sequence r)" for run
    using sorted_wrt_less_snoc[of 0 "map rec_sequence [r \<leftarrow> rs. rec_run_id r = run]" "rec_sequence r"]
    unfolding run_sequence_snoc unfolding run_sequence_def
    by (cases "rec_run_id r = run")
      (simp_all only: if_True if_False append_Cons append_Nil2 simp_thms)
  then show ?thesis by auto
qed

lemma histories_snoc:
  "(\<forall>i. legal_history (state_machine (fst (snd i))) None (history_of i (rs @ [r]))) \<longleftrightarrow>
     (\<forall>i. legal_history (state_machine (fst (snd i))) None (history_of i rs)) \<and>
     continues (state_machine (rec_entity_type r)) (last_state (history_of (record_identity r) rs)) r"
proof -
  let ?m = "\<lambda>i :: identity. state_machine (fst (snd i))"
  have "legal_history (?m i) None (history_of i (rs @ [r])) \<longleftrightarrow> legal_history (?m i) None (history_of i rs) \<and>
      (record_identity r = i \<longrightarrow> continues (?m i) (last_state (history_of i rs)) r)" for i
    by (auto simp: history_of_snoc legal_history_snoc)
  moreover have "?m (record_identity r) = state_machine (rec_entity_type r)"
    by (simp add: record_identity_def)
  ultimately show ?thesis by metis
qed

lemma ledger_ok_snoc: "ledger_ok (rs @ [r]) \<longleftrightarrow> ledger_ok rs \<and> extends_ledger rs r"
  using sequences_snoc[of rs r] histories_snoc[of rs r]
  unfolding ledger_ok_def extends_ledger_def run_sequence_def[symmetric] by auto

lemma ledger_ok_Nil [simp]: "ledger_ok []"
  by (simp add: ledger_ok_def history_of_def)

text \<open>What the accumulators of the loop hold after the records \<open>rs\<close>.\<close>

definition tracks :: "replay_state \<Rightarrow> TransitionRecord list \<Rightarrow> bool" where
  "tracks st rs \<longleftrightarrow> distinct (map fst (current st)) \<and>
     map_of (current st) = (\<lambda>i. last_state (history_of i rs)) \<and>
     transition_ids st = transition_id ` set rs \<and>
     idempotency_keys st = (\<lambda>r. (rec_run_id r, rec_idempotency_key r)) ` set rs \<and>
     (\<forall>run. (case prior_sequence st run of None \<Rightarrow> 0 | Some n \<Rightarrow> n) = last (run_sequence run rs))"

lemma replay_record_continues:
  "replay_record st r =
     (let previous = (case prior_sequence st (rec_run_id r) of None \<Rightarrow> 0 | Some n \<Rightarrow> n) in
      if rec_sequence r \<le> previous
      then Inl (ProjectionIntegrityError ''transition replay sequence is not strictly increasing'')
      else if transition_id r \<in> transition_ids st
      then Inl (ProjectionIntegrityError ''transition replay contains a duplicate transition ID'')
      else if (rec_run_id r, rec_idempotency_key r) \<in> idempotency_keys st
      then Inl (ProjectionIntegrityError ''transition replay contains a duplicate idempotency key'')
      else if \<not> continues (state_machine (rec_entity_type r)) (map_of (current st) (record_identity r)) r
      then Inl (ProjectionIntegrityError (if map_of (current st) (record_identity r) = None
        then ''transition history does not begin at the authoritative initial state''
        else ''transition history contains an illegal or discontinuous edge''))
      else Inr \<lparr>current = AList.update (record_identity r) (to_state r) (current st),
             transition_ids = insert (transition_id r) (transition_ids st),
             idempotency_keys = insert (rec_run_id r, rec_idempotency_key r) (idempotency_keys st),
             prior_sequence = (prior_sequence st)(rec_run_id r \<mapsto> rec_sequence r)\<rparr>)"
  unfolding replay_record_def Let_def continues_def machine_allows_def
  by (cases "map_of (current st) (record_identity r)") (auto simp: raise_unless_def)

lemma replay_record_tracks:
  assumes "tracks st rs"
  shows "case replay_record st r of Inl _ \<Rightarrow> \<not> extends_ledger rs r
     | Inr st' \<Rightarrow> extends_ledger rs r \<and> tracks st' (rs @ [r])"
proof (cases "extends_ledger rs r")
  case True
  let ?st = "\<lparr>current = AList.update (record_identity r) (to_state r) (current st),
             transition_ids = insert (transition_id r) (transition_ids st),
             idempotency_keys = insert (rec_run_id r, rec_idempotency_key r) (idempotency_keys st),
             prior_sequence = (prior_sequence st)(rec_run_id r \<mapsto> rec_sequence r)\<rparr>"
  have "replay_record st r = Inr ?st"
    using True assms by (simp add: replay_record_continues Let_def extends_ledger_def tracks_def not_le)
  moreover have "tracks ?st (rs @ [r])"
    using assms by (auto simp: tracks_def distinct_update update_conv' history_of_snoc run_sequence_snoc)
  ultimately show ?thesis using True by simp
next
  case False
  then show ?thesis
    using assms by (auto simp: replay_record_continues Let_def extends_ledger_def tracks_def not_le)
qed

lemma replay_loop_snoc:
  "replay_loop st (rs @ [r]) = and_then (replay_loop st rs) (\<lambda>st'. replay_record st' r)"
proof (induction rs arbitrary: st)
  case Nil
  then show ?case by (cases "replay_record st r") simp_all
next
  case (Cons r' rs)
  then show ?case by (cases "replay_record st r'") simp_all
qed

lemma tracks_empty: "tracks replay_empty []"
  by (simp add: tracks_def replay_empty_def history_of_def run_sequence_def)

lemma replay_loop_exact:
  "case replay_loop replay_empty rs of Inl _ \<Rightarrow> \<not> ledger_ok rs
     | Inr st \<Rightarrow> ledger_ok rs \<and> tracks st rs"
proof (induction rs rule: rev_induct)
  case Nil
  then show ?case by (simp add: tracks_empty)
next
  case (snoc r rs)
  then show ?case
  proof (cases "replay_loop replay_empty rs")
    case (Inr st)
    with snoc have t: "ledger_ok rs" "tracks st rs" by simp_all
    with replay_record_tracks[OF t(2), of r] Inr show ?thesis
      by (cases "replay_record st r") (simp_all add: replay_loop_snoc ledger_ok_snoc)
  qed (simp add: replay_loop_snoc ledger_ok_snoc)
qed

lemma replay_eq_Inr:
  "replay_transition_records rs = Inr ps \<longleftrightarrow> length rs \<le> MAX_REPLAY_TRANSITIONS \<and> ledger_ok rs \<and>
     (\<exists>st. tracks st rs \<and> replay_loop replay_empty rs = Inr st \<and>
        ps = map (\<lambda>(i, s). projection_of i s) (sort_key fst (current st)))"
  using replay_loop_exact[of rs]
  by (cases "replay_loop replay_empty rs") (auto simp: replay_transition_records_def raise_unless_def)


lemma projection_identity_of [simp]: "projection_identity (projection_of i s) = i"
  by (simp add: projection_identity_def projection_of_def)

lemma projection_of_collapse [simp]: "projection_of (projection_identity p) (proj_state p) = p"
  by (simp add: projection_identity_def projection_of_def)

lemma projection_of_inject: "projection_of i s = projection_of j t \<longleftrightarrow> i = j \<and> s = t"
  by (auto simp: projection_of_def prod_eq_iff)

definition inventory_of :: "replay_state \<Rightarrow> ProjectionState list" where
  "inventory_of st = map (\<lambda>(i, s). projection_of i s) (sort_key fst (current st))"

lemma map_fst_sort_key: "map fst (sort_key fst xs) = sort (map fst xs)"
  by (metis mset_map mset_sort properties_for_sort sorted_sort_key)

lemma inventory_identities:
  "map projection_identity (inventory_of st) = sort (map fst (current st))"
proof -
  have "projection_identity \<circ> (\<lambda>(i, s). projection_of i s) = fst" by auto
  then show ?thesis by (simp add: inventory_of_def map_fst_sort_key)
qed

lemma inventory_members:
  assumes "distinct (map fst (current st))"
  shows "projection_of i s \<in> set (inventory_of st) \<longleftrightarrow> map_of (current st) i = Some s"
  using assms by (auto simp: inventory_of_def projection_of_inject)

text \<open>A strictly ordered inventory is determined by its members.\<close>

lemma inventory_unique:
  assumes "sorted_wrt (<) (map projection_identity ps)" "sorted_wrt (<) (map projection_identity qs)"
    and "set ps = set qs"
  shows "ps = qs"
proof (rule sorted_key_unique)
  show "map projection_identity ps = map projection_identity qs"
    using assms by (intro sorted_distinct_set_unique) (simp_all add: strict_sorted_iff)
  show "inj_on projection_identity (set ps \<union> set qs)"
    using assms by (simp add: strict_sorted_iff distinct_map)
qed

section \<open>Legal histories and the machines\<close>

lemma state_machine_terminal:
  "terminal_states (state_machine ty) = sm_states (state_machine ty) - fst ` sm_edges (state_machine ty)"
  using machines_checked in_entity_types[of ty]
  by (auto simp: list_all_iff returns_iff result_simps StateMachineDefinition_post_init_def)

lemma legal_history_append:
  "legal_history m s (h @ k) \<longleftrightarrow>
     legal_history m s h \<and> legal_history m (if h = [] then s else last_state h) k"
  by (induction h arbitrary: s) (auto simp: last_state_def)

lemma terminal_ends_history:
  assumes "legal_history (state_machine ty) (Some s) h" "state_value s \<in> terminal_states (state_machine ty)"
  shows "h = []"
  using assms by (cases h) (force simp: continues_def state_machine_terminal)+

text \<open>A rank that every edge of a machine raises bounds its histories and orders their states.\<close>

definition ranked :: "(string \<Rightarrow> nat) \<Rightarrow> StateMachineDefinition \<Rightarrow> bool" where
  "ranked f m \<longleftrightarrow> (\<forall>e \<in> sm_edges m. f (fst e) < f (snd e))"

lemma ranked_history:
  assumes "ranked f m" "legal_history m (Some s) h"
  shows "sorted_wrt (<) (map (\<lambda>r. f (state_value (to_state r))) h) \<and>
    (\<forall>r \<in> set h. f (state_value s) < f (state_value (to_state r)))"
  using assms(2)
proof (induction h arbitrary: s)
  case (Cons r h)
  then have "f (state_value s) < f (state_value (to_state r))"
    using assms(1) by (force simp: ranked_def continues_def)
  then show ?case using Cons by fastforce
qed simp

lemma ranked_history_initial:
  assumes "ranked f m" "legal_history m None h"
  shows "sorted_wrt (<) (map (\<lambda>r. f (state_value (to_state r))) h)"
  using assms ranked_history[OF assms(1)] by (cases h) auto

lemma strict_sorted_nat_length:
  assumes "sorted_wrt (<) (xs :: nat list)" "\<forall>x \<in> set xs. x < n"
  shows "length xs \<le> n"
proof -
  have "card (set xs) \<le> card {..<n}" using assms(2) by (intro card_mono) auto
  then show ?thesis using assms(1) by (simp add: strict_sorted_iff distinct_card)
qed

text \<open>A set of states that no edge leaves is never left.\<close>

definition closed_under :: "string set \<Rightarrow> StateMachineDefinition \<Rightarrow> bool" where
  "closed_under S m \<longleftrightarrow> (\<forall>e \<in> sm_edges m. fst e \<in> S \<longrightarrow> snd e \<in> S)"

lemma closed_history:
  assumes "closed_under S m" "legal_history m (Some s) h" "state_value s \<in> S"
  shows "\<forall>r \<in> set h. state_value (to_state r) \<in> S"
  using assms(2,3)
proof (induction h arbitrary: s)
  case (Cons r h)
  then have "state_value (to_state r) \<in> S"
    using assms(1) by (force simp: closed_under_def continues_def)
  then show ?case using Cons by auto
qed simp

lemma closed_history_avoids:
  assumes "closed_under S m" "legal_history m s h" "x \<in> S" "y \<notin> S" "closed_under T m" "y \<in> T" "x \<notin> T"
  shows "\<not> (x \<in> set (map (\<lambda>r. state_value (to_state r)) h) \<and> y \<in> set (map (\<lambda>r. state_value (to_state r)) h))"
  using assms(2)
proof (induction h arbitrary: s)
  case (Cons r h)
  then have h: "legal_history m (Some (to_state r)) h" by simp
  have "state_value (to_state r) = x \<Longrightarrow> y \<notin> set (map (\<lambda>r. state_value (to_state r)) h)"
    using closed_history[OF assms(1) h] assms(3,4) by auto
  moreover have "state_value (to_state r) = y \<Longrightarrow> x \<notin> set (map (\<lambda>r. state_value (to_state r)) h)"
    using closed_history[OF assms(5) h] assms(6,7) by auto
  ultimately show ?case using Cons.IH[OF h] assms(3,4) by auto
qed simp

subsection \<open>Attempts\<close>

definition attempt_rank :: "string \<Rightarrow> nat" where
  "attempt_rank v = (case find (\<lambda>p. fst p = v)
     (map (\<lambda>(s, n). (attempt_state_value s, n))
       [(AttemptState.SCHEDULED, 0), (AttemptState.CLAIMED, 1), (AttemptState.PRE_SEND_COMMITTED, 2),
        (AttemptState.CONNECTING, 3), (AttemptState.SENDING, 4), (AttemptState.AWAITING_RESPONSE, 5),
        (AttemptState.RESPONSE_OBSERVED, 6)]) of Some p \<Rightarrow> snd p | None \<Rightarrow> 7)"

definition sent_states :: "string set" where
  "sent_states = set (map attempt_state_value
     [AttemptState.SENDING, AttemptState.AWAITING_RESPONSE, AttemptState.RESPONSE_OBSERVED, AttemptState.SUCCEEDED,
      AttemptState.REJECTED, AttemptState.TRANSPORT_FAILED, AttemptState.UNKNOWN_OUTCOME])"

definition unsent_states :: "string set" where
  "unsent_states = set (map attempt_state_value [AttemptState.NOT_SENT, AttemptState.CANCELLED])"

lemma attempt_ranked: "ranked attempt_rank (state_machine EntityType.ATTEMPT)"
  unfolding ranked_def by code_simp

lemma sent_closed: "closed_under sent_states (state_machine EntityType.ATTEMPT)"
  unfolding closed_under_def by code_simp

lemma unsent_closed: "closed_under unsent_states (state_machine EntityType.ATTEMPT)"
  unfolding closed_under_def by code_simp

lemma attempt_rank_bound: "attempt_rank v < 8"
  by (simp add: attempt_rank_def)

lemma sending_sent:
  "attempt_state_value AttemptState.SENDING \<in> sent_states" "attempt_state_value AttemptState.SENDING \<notin> unsent_states"
  by (code_simp, code_simp)

lemma unsent_not_sent: "v \<in> unsent_states \<Longrightarrow> v \<notin> sent_states"
  by (auto simp: unsent_states_def sent_states_def)

lemma legal_attempt_history:
  assumes "legal_history (state_machine EntityType.ATTEMPT) None h"
  shows "length h \<le> 8" "distinct (map (\<lambda>r. state_value (to_state r)) h)"
    "attempt_state_value AttemptState.SENDING \<in> set (map (\<lambda>r. state_value (to_state r)) h) \<Longrightarrow>
      v \<in> unsent_states \<Longrightarrow> v \<notin> set (map (\<lambda>r. state_value (to_state r)) h)"
proof -
  let ?f = "\<lambda>r. attempt_rank (state_value (to_state r))"
  have s: "sorted_wrt (<) (map ?f h)"
    by (rule ranked_history_initial[OF attempt_ranked assms])
  show "length h \<le> 8"
    using strict_sorted_nat_length[OF s, of 8] attempt_rank_bound by simp
  have "map ?f h = map attempt_rank (map (\<lambda>r. state_value (to_state r)) h)" by simp
  then show "distinct (map (\<lambda>r. state_value (to_state r)) h)"
    using s by (metis distinct_map strict_sorted_iff)
next
  assume "attempt_state_value AttemptState.SENDING \<in> set (map (\<lambda>r. state_value (to_state r)) h)" "v \<in> unsent_states"
  then show "v \<notin> set (map (\<lambda>r. state_value (to_state r)) h)"
    using closed_history_avoids[OF sent_closed assms sending_sent(1) unsent_not_sent[of v] unsent_closed]
      sending_sent(2) by blast
qed

lemma ledger_ok_history: "ledger_ok rs \<Longrightarrow> legal_history (state_machine (fst (snd i))) None (history_of i rs)"
  unfolding ledger_ok_def by blast

lemma history_of_append: "history_of i (rs @ ts) = history_of i rs @ history_of i ts"
  by (simp add: history_of_def)

section \<open>Inventories\<close>

lemma projection_map_eq:
  assumes "distinct (map fst acc)"
  shows "projection_map acc ps = Inr m \<longleftrightarrow>
     distinct (map fst acc @ map projection_identity ps) \<and>
     m = acc @ map (\<lambda>p. (projection_identity p, proj_state p)) ps"
  using assms
proof (induction ps arbitrary: acc)
  case (Cons p ps)
  show ?case
  proof (cases "map_of acc (projection_identity p)")
    case None
    then have f: "projection_identity p \<notin> set (map fst acc)" by (simp add: map_of_eq_None_iff)
    have u: "AList.update (projection_identity p) (proj_state p) acc = acc @ [(projection_identity p, proj_state p)]"
      using f by (induction acc) auto
    show ?thesis using None f Cons.prems Cons.IH[of "acc @ [(projection_identity p, proj_state p)]"]
      by (auto simp: u)
  next
    case (Some s)
    then have "projection_identity p \<in> set (map fst acc)" by (force dest: map_of_SomeD)
    with Some show ?thesis by simp
  qed
qed auto

definition inventory_values :: "ProjectionState list \<Rightarrow> (identity \<times> string) set" where
  "inventory_values ps = (\<lambda>p. (projection_identity p, state_value (proj_state p))) ` set ps"

lemma map_of_inventory:
  assumes "distinct (map projection_identity ps)"
  shows "map_option state_value (map_of (map (\<lambda>p. (projection_identity p, proj_state p)) ps) i) = Some v \<longleftrightarrow>
     (i, v) \<in> inventory_values ps"
proof -
  have d: "distinct (map fst (map (\<lambda>p. (projection_identity p, proj_state p)) ps))"
    using assms by (simp add: comp_def)
  show ?thesis
    by (auto simp: inventory_values_def map_of_eq_Some_iff[OF d])
qed

text \<open>Two maps agree on the keys they have exactly when their graphs are equal.\<close>

lemma graphs_agree:
  assumes l: "\<And>i v. l i = Some v \<longleftrightarrow> (i, v) \<in> A" and r: "\<And>i v. r i = Some v \<longleftrightarrow> (i, v) \<in> B"
    and I: "fst ` (A \<union> B) \<subseteq> I"
  shows "(\<forall>i \<in> I. l i = r i) \<longleftrightarrow> A = B"
proof
  assume eq: "\<forall>i \<in> I. l i = r i"
  have "(i, v) \<in> A \<longleftrightarrow> (i, v) \<in> B" for i v
    using eq I l[of i v] r[of i v] by force
  then show "A = B" by auto
next
  assume "A = B"
  then have "l i = Some v \<longleftrightarrow> r i = Some v" for i v using l r by simp
  then show "\<forall>i \<in> I. l i = r i" by (metis not_None_eq)
qed

lemma inventory_lookup_agree:
  assumes "distinct (map projection_identity ps)" "distinct (map projection_identity qs)"
  shows "(\<forall>i \<in> projection_identity ` (set ps \<union> set qs).
       map_option state_value (map_of (map (\<lambda>p. (projection_identity p, proj_state p)) ps) i) =
       map_option state_value (map_of (map (\<lambda>p. (projection_identity p, proj_state p)) qs) i)) \<longleftrightarrow>
     inventory_values ps = inventory_values qs"
proof (rule graphs_agree)
  show "fst ` (inventory_values ps \<union> inventory_values qs) \<subseteq> projection_identity ` (set ps \<union> set qs)"
    by (auto simp: inventory_values_def)
qed (rule map_of_inventory assms)+

section \<open>Properties\<close>

text \<open>C16. Replay accepts exactly the well-formed ledgers and returns the true inventory. It
  succeeds if and only if the list is within the bound, transition IDs are unique, idempotency keys
  are unique within a run, the sequence numbers of each run are positive and strictly increasing,
  and every entity's records form a legal history of its state machine. The result then lists,
  strictly ordered by run, entity type and entity ID, each entity that occurs with the target state
  of its last record, and nothing else.\<close>

theorem replay_exact:
  "replay_transition_records rs = Inr ps \<longleftrightarrow>
     length rs \<le> MAX_REPLAY_TRANSITIONS \<and> ledger_ok rs \<and>
     sorted_wrt (<) (map projection_identity ps) \<and>
     (\<forall>i s. projection_of i s \<in> set ps \<longleftrightarrow> last_state (history_of i rs) = Some s)"
  (is "?l \<longleftrightarrow> ?b \<and> ledger_ok rs \<and> ?s ps \<and> ?m ps")
proof -
  have sound: "?s (inventory_of st) \<and> ?m (inventory_of st)" if "tracks st rs" for st
    using that by (simp add: tracks_def inventory_identities inventory_members strict_sorted_iff)
  have eq: "?l \<longleftrightarrow> ?b \<and> ledger_ok rs \<and> (\<exists>st. tracks st rs \<and> replay_loop replay_empty rs = Inr st \<and> ps = inventory_of st)"
    by (simp add: replay_eq_Inr inventory_of_def)
  have unique: "ps = inventory_of st" if "tracks st rs" "?s ps" "?m ps" for st
  proof (rule inventory_unique[OF that(2)])
    have "p \<in> set ps \<longleftrightarrow> p \<in> set (inventory_of st)" for p
      using that(3) sound[OF that(1)] projection_of_collapse[of p] by metis
    then show "set ps = set (inventory_of st)" by blast
  qed (use sound[OF that(1)] in blast)
  have "\<exists>st. tracks st rs \<and> replay_loop replay_empty rs = Inr st" if "ledger_ok rs"
    using replay_loop_exact[of rs] that by (cases "replay_loop replay_empty rs") simp_all
  then show ?thesis unfolding eq using sound unique by blast
qed

text \<open>A terminal state is final in every replayable ledger: if a prefix of the ledger leaves an
  entity in a terminal state of its machine, no later record names that entity.\<close>

lemma terminal_states_absorb:
  assumes "replay_transition_records (rs @ ts) = Inr ps"
    and "last_state (history_of i rs) = Some s"
    and "state_value s \<in> terminal_states (state_machine (fst (snd i)))"
  shows "history_of i ts = []"
proof -
  have "ledger_ok (rs @ ts)" using assms(1) by (simp only: replay_eq_Inr)
  from ledger_ok_history[OF this, of i]
  have "legal_history (state_machine (fst (snd i))) (Some s) (history_of i ts)"
    using assms(2) by (auto simp: history_of_append legal_history_append last_state_def split: if_splits)
  then show ?thesis using assms(3) by (rule terminal_ends_history)
qed

text \<open>C17. An attempt's history cannot claim that bytes were sent and that they were not. In every
  replayable ledger an attempt has at most eight records, never revisits a state, and if it ever
  entered SENDING it is never recorded as NOT_SENT or CANCELLED.\<close>

theorem attempt_never_unsent:
  assumes "replay_transition_records rs = Inr ps"
  shows "length (history_of (run, EntityType.ATTEMPT, e) rs) \<le> 8 \<and>
    distinct (map (\<lambda>r. state_value (to_state r)) (history_of (run, EntityType.ATTEMPT, e) rs)) \<and>
    (attempt_state_value AttemptState.SENDING \<in>
        set (map (\<lambda>r. state_value (to_state r)) (history_of (run, EntityType.ATTEMPT, e) rs)) \<longrightarrow>
     attempt_state_value AttemptState.NOT_SENT \<notin>
        set (map (\<lambda>r. state_value (to_state r)) (history_of (run, EntityType.ATTEMPT, e) rs)) \<and>
     attempt_state_value AttemptState.CANCELLED \<notin>
        set (map (\<lambda>r. state_value (to_state r)) (history_of (run, EntityType.ATTEMPT, e) rs)))"
proof -
  have "ledger_ok rs" using assms by (simp only: replay_eq_Inr)
  from ledger_ok_history[OF this, of "(run, EntityType.ATTEMPT, e)"]
  have l: "legal_history (state_machine EntityType.ATTEMPT) None (history_of (run, EntityType.ATTEMPT, e) rs)"
    by simp
  have u: "attempt_state_value AttemptState.NOT_SENT \<in> unsent_states"
    "attempt_state_value AttemptState.CANCELLED \<in> unsent_states"
    by (simp_all add: unsent_states_def)
  show ?thesis
    using legal_attempt_history(1,2)[OF l] legal_attempt_history(3)[OF l _ u(1)]
      legal_attempt_history(3)[OF l _ u(2)] by blast
qed

text \<open>Two inventories compare as matching exactly when both are free of duplicate identities and
  they hold the same entities with the same state values, in whatever order.\<close>

lemma inventories_match_exact:
  "(\<exists>a. compare_projection_inventories ps qs = Inr a \<and> audit_matches a) \<longleftrightarrow>
     distinct (map projection_identity ps) \<and> distinct (map projection_identity qs) \<and>
     inventory_values ps = inventory_values qs"
proof (cases "distinct (map projection_identity ps) \<and> distinct (map projection_identity qs)")
  case True
  let ?m = "map (\<lambda>p. (projection_identity p, proj_state p))"
  have m: "projection_map [] ps = Inr (?m ps)" "projection_map [] qs = Inr (?m qs)"
    using True by (simp_all add: projection_map_eq)
  have i: "set (map fst (?m ps) @ map fst (?m qs)) = projection_identity ` (set ps \<union> set qs)"
    by force
  show ?thesis
    using inventory_lookup_agree[of ps qs] True
    unfolding compare_projection_inventories_def m and_then_Inr Let_def audit_matches_def
    by (simp add: filter_empty_conv i[symmetric] image_Un)
next
  case False
  then have "projection_map [] ps \<noteq> Inr m \<or> projection_map [] qs \<noteq> Inr n" for m n
    by (auto simp: projection_map_eq)
  with False show ?thesis by (auto simp: compare_projection_inventories_def result_simps)
qed

section \<open>Concrete ledgers\<close>

definition example_record ::
    "int \<Rightarrow> string \<Rightarrow> string \<Rightarrow> AttemptState option \<Rightarrow> AttemptState \<Rightarrow> TransitionRecord" where
  "example_record n label e prior target =
     \<lparr>transition_id = label, rec_run_id = ''r'', rec_sequence = n, rec_entity_type = EntityType.ATTEMPT,
      rec_entity_id = e, from_state = map_option AttemptS prior, to_state = AttemptS target,
      rec_trigger_category = ''t'', causal_record_id = None, rec_timestamp = \<lparr>wall_time = \<lparr>instant = 0, utcoffset = Some 0\<rparr>, monotonic_elapsed = None\<rparr>,
      rec_logical_time_ns = None, rec_owner_epoch = 1, rec_idempotency_key = label\<rparr>"

definition cancelled_ledger :: "TransitionRecord list" where
  "cancelled_ledger = [example_record 1 ''t1'' ''a'' None AttemptState.SCHEDULED,
     example_record 2 ''t2'' ''a'' (Some AttemptState.SCHEDULED) AttemptState.CANCELLED]"

definition other_ledger :: "TransitionRecord list" where
  "other_ledger = [example_record 3 ''t3'' ''b'' None AttemptState.SCHEDULED]"

definition sending_ledger :: "TransitionRecord list" where
  "sending_ledger = [example_record 1 ''t1'' ''a'' None AttemptState.SCHEDULED,
     example_record 2 ''t2'' ''a'' (Some AttemptState.SCHEDULED) AttemptState.CLAIMED,
     example_record 3 ''t3'' ''a'' (Some AttemptState.CLAIMED) AttemptState.PRE_SEND_COMMITTED,
     example_record 4 ''t4'' ''a'' (Some AttemptState.PRE_SEND_COMMITTED) AttemptState.CONNECTING,
     example_record 5 ''t5'' ''a'' (Some AttemptState.CONNECTING) AttemptState.SENDING]"

lemma replay_returns:
  assumes "length rs \<le> MAX_REPLAY_TRANSITIONS" "returns (replay_loop replay_empty rs)"
  shows "replay_transition_records rs = Inr (projr (replay_transition_records rs))"
  using assms by (auto simp: replay_transition_records_def returns_iff)

lemma cancelled_ledger_replays:
  "replay_transition_records (cancelled_ledger @ other_ledger) =
     Inr (projr (replay_transition_records (cancelled_ledger @ other_ledger)))"
proof (rule replay_returns)
  show "length (cancelled_ledger @ other_ledger) \<le> MAX_REPLAY_TRANSITIONS"
    by (simp add: cancelled_ledger_def other_ledger_def MAX_REPLAY_TRANSITIONS_def)
  show "returns (replay_loop replay_empty (cancelled_ledger @ other_ledger))"
    by code_simp
qed

lemma sending_ledger_replays:
  "replay_transition_records sending_ledger = Inr (projr (replay_transition_records sending_ledger))"
proof (rule replay_returns)
  show "length sending_ledger \<le> MAX_REPLAY_TRANSITIONS"
    by (simp add: sending_ledger_def MAX_REPLAY_TRANSITIONS_def)
  show "returns (replay_loop replay_empty sending_ledger)"
    by code_simp
qed

lemma terminal_states_absorb_witness:
  "last_state (history_of (''r'', EntityType.ATTEMPT, ''a'') cancelled_ledger) =
       Some (AttemptS AttemptState.CANCELLED) \<and>
     history_of (''r'', EntityType.ATTEMPT, ''a'') other_ledger = []"
proof
  show l: "last_state (history_of (''r'', EntityType.ATTEMPT, ''a'') cancelled_ledger) =
      Some (AttemptS AttemptState.CANCELLED)"
    by (simp add: last_state_def history_of_def cancelled_ledger_def example_record_def record_identity_def)
  have "state_value (AttemptS AttemptState.CANCELLED) \<in>
      terminal_states (state_machine (fst (snd (''r'', EntityType.ATTEMPT, ''a''))))"
    by code_simp
  from terminal_states_absorb[OF cancelled_ledger_replays l this]
  show "history_of (''r'', EntityType.ATTEMPT, ''a'') other_ledger = []" .
qed

theorem attempt_never_unsent_witness:
  "attempt_state_value AttemptState.SENDING \<in>
       set (map (\<lambda>r. state_value (to_state r)) (history_of (''r'', EntityType.ATTEMPT, ''a'') sending_ledger)) \<and>
     attempt_state_value AttemptState.NOT_SENT \<notin>
       set (map (\<lambda>r. state_value (to_state r)) (history_of (''r'', EntityType.ATTEMPT, ''a'') sending_ledger))"
proof -
  have "attempt_state_value AttemptState.SENDING \<in>
      set (map (\<lambda>r. state_value (to_state r)) (history_of (''r'', EntityType.ATTEMPT, ''a'') sending_ledger))"
    by (simp add: history_of_def sending_ledger_def example_record_def record_identity_def)
  then show ?thesis using attempt_never_unsent[OF sending_ledger_replays, of "''r''" "''a''"] by blast
qed

end
