(* ===== verification/Transition_Commands.thy ===== *)
theory Transition_Commands
  imports Ledger_Replay Identifiers Text_Codecs
begin

text \<open>
  The typed commands of \<open>journal/transitions.py\<close> with the validation each runs when it is built: causal
  references, delivery satisfaction, retry schedules, terminal outcomes, phase and transport
  evidence, staged responses, schedule claims and the transition command itself. A validated object is
  the argument of its \<open>_post_init\<close> definition, which returns it or the exception. Texts that may hold
  any Unicode character are lists of code points.
\<close>

section \<open>Vocabularies and metadata\<close>

datatype AttemptEvidenceState =
    SCHEDULED | LEASED | SENDING | ACKNOWLEDGED | REJECTED | TIMED_OUT | CONNECTION_FAILED |
    PROTOCOL_FAILED | CANCELLED | UNKNOWN_OUTCOME

datatype DeliverySatisfactionKind = ATTEMPT | ASSERTION_POLICY

datatype AttemptPhaseEvidence =
    CONTROLLED_PRE_TRANSPORT | NO_CONNECTION_ESTABLISHED | CONNECTION_ATTEMPT_STARTED |
    REQUEST_SEND_STARTED | AWAITING_RESPONSE | RESPONSE_OBSERVED

record RequestMetadata =
  url_redacted :: ustring
  request_body_sha256 :: string
  request_byte_length :: int
  header_names :: "string list"

record ResponseMetadata =
  response_status :: int
  response_body_sha256 :: "string option"
  captured_bytes :: int
  truncated :: bool

record TransportError =
  error_category :: ustring
  message_redacted :: ustring
  error_phase :: "ustring option"

section \<open>Boundary checks\<close>

definition MAX_OWNER_EPOCH :: int where "MAX_OWNER_EPOCH = 9223372036854775807"

definition MAX_CONDITION_BYTES :: nat where "MAX_CONDITION_BYTES = 1048576"

definition MAX_REQUEST_HEADER_NAMES :: nat where "MAX_REQUEST_HEADER_NAMES = 256"

definition MAX_REQUEST_HEADER_NAME_BYTES :: nat where "MAX_REQUEST_HEADER_NAME_BYTES = 256"

definition MAX_REQUEST_HEADER_NAMES_JSON_BYTES :: nat where
  "MAX_REQUEST_HEADER_NAMES_JSON_BYTES = 16384"

definition transition_token :: "string \<Rightarrow> string \<Rightarrow> nat \<Rightarrow> unit result" where
  "transition_token v name maximum =
     raise_unless (bounded_token maximum v) (ValueError (name @ '' must be a bounded ASCII token''))"

definition transition_identifier :: "string \<Rightarrow> string \<Rightarrow> nat \<Rightarrow> unit result" where
  "transition_identifier v name maximum =
     raise_unless (lower_identifier maximum v) (ValueError (name @ '' must be a bounded lowercase identifier''))"

definition safe_integer :: "int \<Rightarrow> string \<Rightarrow> bool \<Rightarrow> unit result" where
  "safe_integer v name is_signed =
     (let minimum = (if is_signed then - MAX_SAFE_INTEGER else 0) in
      raise_unless (minimum \<le> v \<and> v \<le> MAX_SAFE_INTEGER) (ValueError (name @ '' exceeds its integer boundary'')))"

definition owner_epoch_check :: "int \<Rightarrow> unit result" where
  "owner_epoch_check v = raise_unless (0 \<le> v \<and> v \<le> MAX_OWNER_EPOCH)
     (ValueError ''owner_epoch exceeds its integer boundary'')"

definition control_free_text :: "ustring \<Rightarrow> string \<Rightarrow> nat \<Rightarrow> unit result" where
  "control_free_text v name maximum =
     and_then (raise_unless (1 \<le> length v \<and> length v \<le> maximum \<and> \<not> list_ex (\<lambda>c. c < 32 \<or> c = 127) v)
       (ValueError (name @ '' must be bounded control-free text''))) (\<lambda>_.
     case utf8_encode v of
       Inl _ \<Rightarrow> Inl (ValueError (name @ '' must contain Unicode scalar values''))
     | Inr _ \<Rightarrow> Inr ())"

text \<open>A check on an optional field runs only when the field is there.\<close>

definition when_some :: "'a option \<Rightarrow> ('a \<Rightarrow> unit result) \<Rightarrow> unit result" where
  "when_some v check = (case v of None \<Rightarrow> Inr () | Some x \<Rightarrow> check x)"

text \<open>The regular expression \<open>_LOWER_HEADER_NAME\<close>.\<close>

definition header_name_char :: "char \<Rightarrow> bool" where
  "header_name_char c = (c \<in> set ''!#$%&*+-.^_`|~'' \<or> c = CHR 39 \<or>
     in_char_range CHR ''0'' CHR ''9'' c \<or> in_char_range CHR ''a'' CHR ''z'' c)"

definition lower_header_name :: "string \<Rightarrow> bool" where
  "lower_header_name s = (s \<noteq> [] \<and> list_all header_name_char s)"

text \<open>\<open>json.dumps\<close> of a text with \<open>ensure_ascii\<close>: the quote, the backslash and every character outside
  the printable ASCII range are escaped.\<close>

definition json_escape_char :: "char \<Rightarrow> string" where
  "json_escape_char c =
     (let n = of_char c :: nat in
      if c = CHR 34 \<or> c = CHR 92 then [CHR 92, c]
      else if n = 10 then [CHR 92, CHR ''n'']
      else if n = 13 then [CHR 92, CHR ''r'']
      else if n = 9 then [CHR 92, CHR ''t'']
      else if n = 12 then [CHR 92, CHR ''f'']
      else if n = 8 then [CHR 92, CHR ''b'']
      else if 32 \<le> n \<and> n \<le> 126 then [c]
      else [CHR 92, CHR ''u'', CHR ''0'', CHR ''0'', hex_char (n div 16), hex_char (n mod 16)])"

definition json_dumps_text :: "string \<Rightarrow> string" where
  "json_dumps_text s = [CHR 34] @ concat (map json_escape_char s) @ [CHR 34]"

definition json_dumps_texts :: "string list \<Rightarrow> string" where
  "json_dumps_texts names = ''['' @ join_with CHR '','' (map json_dumps_text names) @ '']''"

definition canonical_request_header_names_json :: "RequestMetadata option \<Rightarrow> string option result" where
  "canonical_request_header_names_json request = (case request of
       None \<Rightarrow> Inr None
     | Some r \<Rightarrow>
         let encoded = json_dumps_texts (header_names r) in
         and_then (raise_unless (length encoded \<le> MAX_REQUEST_HEADER_NAMES_JSON_BYTES)
           (ValueError ''canonical request header-name JSON exceeds its byte limit'')) (\<lambda>_.
           Inr (Some encoded)))"

definition validate_header_name :: "string \<Rightarrow> unit result" where
  "validate_header_name name =
     (let ascii_length = length [c \<leftarrow> name. of_char c < (128 :: nat)] in
      raise_unless (1 \<le> ascii_length \<and> ascii_length \<le> MAX_REQUEST_HEADER_NAME_BYTES \<and> lower_header_name name)
        (ValueError ''request header names must be bounded lowercase HTTP tokens''))"

definition validate_request_metadata :: "RequestMetadata \<Rightarrow> unit result" where
  "validate_request_metadata r =
     and_then (control_free_text (url_redacted r) ''redacted request URL'' 2048) (\<lambda>_.
     let names = header_names r in
     and_then (raise_unless (length names \<le> MAX_REQUEST_HEADER_NAMES)
       (ValueError ''request header names must be a bounded canonical tuple'')) (\<lambda>_.
     and_then (for_each validate_header_name names) (\<lambda>_.
     and_then (raise_unless (names = sort (remdups names))
       (ValueError ''request header names must be unique and canonically sorted'')) (\<lambda>_.
     and_then (canonical_request_header_names_json (Some r)) (\<lambda>_. Inr ())))))"

definition validate_transport_error :: "TransportError \<Rightarrow> unit result" where
  "validate_transport_error e =
     and_then (control_free_text (error_category e) ''transport error category'' 128) (\<lambda>_.
     and_then (control_free_text (message_redacted e) ''redacted transport error message'' 4096) (\<lambda>_.
       when_some (error_phase e) (\<lambda>p. control_free_text p ''transport error phase'' 64)))"

definition validate_entity_id :: "EntityType \<Rightarrow> string \<Rightarrow> string \<Rightarrow> unit result" where
  "validate_entity_id ty entity_id run_id = (case ty of
       EntityType.RUN \<Rightarrow> and_then (validate_run_id entity_id) (\<lambda>_.
         raise_unless (entity_id = run_id) (ValueError ''run transition entity_id must equal run_id''))
     | EntityType.SCENARIO \<Rightarrow>
         and_then (validate_planned_id entity_id (Some PlannedIdKind.SCENARIO)) (\<lambda>_. Inr ())
     | EntityType.DELIVERY \<Rightarrow>
         and_then (validate_planned_id entity_id (Some PlannedIdKind.DELIVERY)) (\<lambda>_. Inr ())
     | EntityType.ATTEMPT \<Rightarrow>
         and_then (validate_fresh_id entity_id (Some FreshIdKind.ATTEMPT)) (\<lambda>_. Inr ())
     | EntityType.OBSERVATION \<Rightarrow>
         and_then (validate_planned_id entity_id (Some PlannedIdKind.OBSERVATION)) (\<lambda>_. Inr ())
     | EntityType.ASSERTION \<Rightarrow>
         and_then (validate_planned_id entity_id (Some PlannedIdKind.ASSERTION)) (\<lambda>_. Inr ()))"

section \<open>Causes, schedules and outcomes\<close>

record CausalReference =
  cause_run_id :: string
  cause_record_id :: string

definition CausalReference_post_init :: "CausalReference \<Rightarrow> CausalReference result" where
  "CausalReference_post_init c =
     and_then (validate_run_id (cause_run_id c)) (\<lambda>_.
     and_then (transition_token (cause_record_id c) ''causal record ID'' 96) (\<lambda>_. Inr c))"

record DeliverySatisfactionEvidence =
  satisfaction_kind :: DeliverySatisfactionKind
  satisfaction_cause :: CausalReference

record RetrySchedule =
  schedule_entry_id :: string
  schedule_scenario_id :: string
  schedule_entity_type :: string
  schedule_entity_id :: string
  schedule_logical_time_ns :: int
  schedule_scenario_ordinal :: int
  schedule_step_ordinal :: int
  schedule_delivery_ordinal :: int
  schedule_attempt_ordinal :: int
  schedule_tie_key :: string
  schedule_idempotency_key :: string
  schedule_predecessor_attempt_id :: string
  schedule_condition_json :: "bytes option"

definition RetrySchedule_post_init :: "RetrySchedule \<Rightarrow> RetrySchedule result" where
  "RetrySchedule_post_init s =
     and_then (transition_token (schedule_entry_id s) ''schedule entry ID'' 96) (\<lambda>_.
     and_then (validate_planned_id (schedule_scenario_id s) (Some PlannedIdKind.SCENARIO)) (\<lambda>_.
     and_then (transition_identifier (schedule_entity_type s) ''schedule entity type'' 64) (\<lambda>_.
     and_then (transition_token (schedule_entity_id s) ''schedule entity ID'' 96) (\<lambda>_.
     and_then (safe_integer (schedule_logical_time_ns s) ''schedule logical time'' True) (\<lambda>_.
     and_then (safe_integer (schedule_scenario_ordinal s) ''scenario ordinal'' False) (\<lambda>_.
     and_then (safe_integer (schedule_step_ordinal s) ''step ordinal'' False) (\<lambda>_.
     and_then (safe_integer (schedule_delivery_ordinal s) ''delivery ordinal'' False) (\<lambda>_.
     and_then (safe_integer (schedule_attempt_ordinal s) ''attempt ordinal'' False) (\<lambda>_.
     and_then (transition_token (schedule_tie_key s) ''deterministic tie key'' 256) (\<lambda>_.
     and_then (transition_token (schedule_idempotency_key s) ''schedule idempotency key'' 256) (\<lambda>_.
     and_then (validate_fresh_id (schedule_predecessor_attempt_id s) (Some FreshIdKind.ATTEMPT)) (\<lambda>_.
     and_then (when_some (schedule_condition_json s) (\<lambda>b. raise_unless (length b \<le> MAX_CONDITION_BYTES)
         (ValueError ''retry condition_json must be bounded bytes''))) (\<lambda>_.
       Inr s)))))))))))))"

record AttemptTerminalOutcome =
  outcome_classification :: AttemptClassification
  retry_schedule :: "RetrySchedule option"

record AttemptPhaseEvidenceCommand =
  phase :: AttemptPhaseEvidence
  request_blob_hash :: "string option"
  request_headers_hash :: "string option"

definition phase_digest :: "string option \<times> string \<Rightarrow> unit result" where
  "phase_digest p = when_some (fst p) (\<lambda>v.
     raise_unless (length v = 71 \<and> starts_with v ''sha256:'' \<and> \<not> list_ex (\<lambda>c. \<not> lower_hex_char c) (drop 7 v))
       (ValueError (snd p @ '' must be a lowercase sha256 digest'')))"

definition AttemptPhaseEvidenceCommand_post_init ::
    "AttemptPhaseEvidenceCommand \<Rightarrow> AttemptPhaseEvidenceCommand result" where
  "AttemptPhaseEvidenceCommand_post_init c =
     and_then (for_each phase_digest
       [(request_blob_hash c, ''request body digest''), (request_headers_hash c, ''request headers digest'')]) (\<lambda>_.
       Inr c)"

section \<open>Transport evidence\<close>

record AttemptTransportEvidenceCommand =
  ev_record_id :: string
  ev_run_id :: string
  ev_scenario_id :: string
  ev_event_id :: string
  ev_delivery_id :: string
  ev_attempt_id :: string
  ev_state :: AttemptEvidenceState
  ev_classification :: AttemptClassification
  ev_request :: "RequestMetadata option"
  ev_response :: "ResponseMetadata option"
  ev_error :: "TransportError option"
  response_headers_elapsed_ns :: "int option"

fun expected_classifications :: "AttemptEvidenceState \<Rightarrow> AttemptClassification set option" where
  "expected_classifications AttemptEvidenceState.ACKNOWLEDGED = Some {AttemptClassification.RECEIVER_ACCEPTED}"
| "expected_classifications AttemptEvidenceState.REJECTED = Some {AttemptClassification.RECEIVER_REJECTED}"
| "expected_classifications AttemptEvidenceState.TIMED_OUT =
     Some {AttemptClassification.ENVIRONMENT_FAILURE, AttemptClassification.HARNESS_FAILURE}"
| "expected_classifications AttemptEvidenceState.CONNECTION_FAILED =
     Some {AttemptClassification.ENVIRONMENT_FAILURE, AttemptClassification.HARNESS_FAILURE}"
| "expected_classifications AttemptEvidenceState.PROTOCOL_FAILED =
     Some {AttemptClassification.ENVIRONMENT_FAILURE, AttemptClassification.HARNESS_FAILURE}"
| "expected_classifications AttemptEvidenceState.CANCELLED = Some {AttemptClassification.CANCELLED}"
| "expected_classifications AttemptEvidenceState.UNKNOWN_OUTCOME = Some {AttemptClassification.AMBIGUOUS}"
| "expected_classifications _ = None"

definition failure_states :: "AttemptEvidenceState set" where
  "failure_states = {AttemptEvidenceState.TIMED_OUT, AttemptEvidenceState.CONNECTION_FAILED,
     AttemptEvidenceState.PROTOCOL_FAILED}"

definition validate_transport_evidence_shape :: "AttemptTransportEvidenceCommand \<Rightarrow> unit result" where
  "validate_transport_evidence_shape ev =
     and_then (raise_unless (case expected_classifications (ev_state ev) of
         None \<Rightarrow> False | Some allowed \<Rightarrow> ev_classification ev \<in> allowed)
       (ValueError ''transport evidence state and classification disagree'')) (\<lambda>_.
     if ev_state ev \<in> {AttemptEvidenceState.ACKNOWLEDGED, AttemptEvidenceState.REJECTED}
     then raise_unless (\<not> (ev_response ev = None \<or> ev_error ev \<noteq> None))
       (ValueError ''accepted or rejected evidence requires response metadata and no error'')
     else if ev_state ev \<in> failure_states \<union> {AttemptEvidenceState.UNKNOWN_OUTCOME}
     then raise_unless (ev_error ev \<noteq> None)
       (ValueError ''failure or unknown evidence requires a redacted transport error'')
     else raise_unless (ev_response ev = None)
       (ValueError ''cancelled evidence cannot contain response metadata''))"

definition AttemptTransportEvidenceCommand_post_init ::
    "AttemptTransportEvidenceCommand \<Rightarrow> AttemptTransportEvidenceCommand result" where
  "AttemptTransportEvidenceCommand_post_init ev =
     and_then (validate_fresh_id (ev_record_id ev) (Some FreshIdKind.RECORD)) (\<lambda>_.
     and_then (validate_run_id (ev_run_id ev)) (\<lambda>_.
     and_then (validate_planned_id (ev_scenario_id ev) (Some PlannedIdKind.SCENARIO)) (\<lambda>_.
     and_then (validate_planned_id (ev_event_id ev) (Some PlannedIdKind.EVENT)) (\<lambda>_.
     and_then (validate_planned_id (ev_delivery_id ev) (Some PlannedIdKind.DELIVERY)) (\<lambda>_.
     and_then (validate_fresh_id (ev_attempt_id ev) (Some FreshIdKind.ATTEMPT)) (\<lambda>_.
     and_then (when_some (ev_request ev) validate_request_metadata) (\<lambda>_.
     and_then (when_some (ev_error ev) validate_transport_error) (\<lambda>_.
     and_then (when_some (response_headers_elapsed_ns ev) (\<lambda>n.
         and_then (safe_integer n ''response headers elapsed'' False) (\<lambda>_.
         raise_unless (ev_response ev \<noteq> None)
           (ValueError ''response headers elapsed time requires response evidence'')))) (\<lambda>_.
     and_then (validate_transport_evidence_shape ev) (\<lambda>_.
       Inr ev))))))))))"

definition request_header_names_json :: "AttemptTransportEvidenceCommand \<Rightarrow> string option result" where
  "request_header_names_json ev = canonical_request_header_names_json (ev_request ev)"

section \<open>Staged responses\<close>

record AttemptResponseStagingCommand =
  terminal_state :: AttemptState
  terminal_outcome :: AttemptTerminalOutcome
  transport_evidence :: AttemptTransportEvidenceCommand

text \<open>The triple \<open>derived\<close>: terminal state, evidence state and classification a response entails.\<close>

definition derived_outcome ::
    "AttemptTransportEvidenceCommand \<Rightarrow> int \<Rightarrow> AttemptState \<times> AttemptEvidenceState \<times> AttemptClassification" where
  "derived_outcome ev status =
     (if ev_error ev \<noteq> None
      then (AttemptState.TRANSPORT_FAILED, ev_state ev, AttemptClassification.ENVIRONMENT_FAILURE)
      else if 200 \<le> status \<and> status \<le> 299
      then (AttemptState.SUCCEEDED, AttemptEvidenceState.ACKNOWLEDGED, AttemptClassification.RECEIVER_ACCEPTED)
      else (AttemptState.REJECTED, AttemptEvidenceState.REJECTED, AttemptClassification.RECEIVER_REJECTED))"

definition check_staged_retry :: "AttemptResponseStagingCommand \<Rightarrow> unit result" where
  "check_staged_retry c = when_some (retry_schedule (terminal_outcome c)) (\<lambda>retry.
     and_then (raise_unless (terminal_state c \<in> {AttemptState.REJECTED, AttemptState.TRANSPORT_FAILED})
       (ValueError ''only rejected or failed staged responses may schedule a retry'')) (\<lambda>_.
     raise_unless (schedule_predecessor_attempt_id retry = ev_attempt_id (transport_evidence c))
       (ValueError ''staged retry predecessor must equal the response attempt'')))"

definition AttemptResponseStagingCommand_post_init ::
    "AttemptResponseStagingCommand \<Rightarrow> AttemptResponseStagingCommand result" where
  "AttemptResponseStagingCommand_post_init c =
     (let ev = transport_evidence c in
      and_then (raise_unless (terminal_state c \<in> {AttemptState.SUCCEEDED, AttemptState.REJECTED,
          AttemptState.TRANSPORT_FAILED})
        (ValueError ''durable response staging requires a response-derived terminal state'')) (\<lambda>_.
      case (ev_request ev, ev_response ev) of
        (Some _, Some response) \<Rightarrow>
          and_then (raise_unless (response_body_sha256 response \<noteq> None)
            (ValueError ''durable response staging requires sanitized request and complete response metadata'')) (\<lambda>_.
          and_then (raise_unless (ev_classification ev = outcome_classification (terminal_outcome c))
            (ValueError ''staged response classification differs from its terminal outcome'')) (\<lambda>_.
          and_then (raise_unless ((terminal_state c, ev_state ev, ev_classification ev) =
              derived_outcome ev (response_status response))
            (ValueError ''staged response evidence is incompatible with its terminal state'')) (\<lambda>_.
          and_then (raise_unless (\<not> (terminal_state c = AttemptState.TRANSPORT_FAILED \<and> ev_state ev \<notin> failure_states))
            (ValueError ''staged response transport failure has an invalid evidence state'')) (\<lambda>_.
          and_then (check_staged_retry c) (\<lambda>_.
            Inr c)))))
      | _ \<Rightarrow> Inl (ValueError
          ''durable response staging requires sanitized request and complete response metadata'')))"

section \<open>Transition commands and claims\<close>

record TransitionCommand =
  cmd_run_id :: string
  cmd_transition_id :: string
  cmd_entity_type :: EntityType
  cmd_entity_id :: string
  expected_state :: "LifecycleState option"
  new_state :: LifecycleState
  trigger_category :: string
  cmd_timestamp :: TransitionTimestamp
  cmd_owner_epoch :: int
  cmd_idempotency_key :: string
  causal_reference :: "CausalReference option"
  cmd_logical_time_ns :: "int option"
  delivery_satisfaction :: "DeliverySatisfactionEvidence option"
  attempt_outcome :: "AttemptTerminalOutcome option"

text \<open>The class name of a machine's state enumeration.\<close>

fun state_type_name :: "EntityType \<Rightarrow> string" where
  "state_type_name EntityType.RUN = ''RunState''"
| "state_type_name EntityType.SCENARIO = ''ScenarioState''"
| "state_type_name EntityType.DELIVERY = ''DeliveryState''"
| "state_type_name EntityType.ATTEMPT = ''AttemptState''"
| "state_type_name EntityType.OBSERVATION = ''ObservationState''"
| "state_type_name EntityType.ASSERTION = ''AssertionState''"

definition TransitionCommand_post_init :: "TransitionCommand \<Rightarrow> TransitionCommand result" where
  "TransitionCommand_post_init c =
     and_then (validate_run_id (cmd_run_id c)) (\<lambda>_.
     and_then (validate_entity_id (cmd_entity_type c) (cmd_entity_id c) (cmd_run_id c)) (\<lambda>_.
     and_then (transition_token (cmd_transition_id c) ''transition ID'' 96) (\<lambda>_.
     and_then (transition_identifier (trigger_category c) ''trigger category'' 64) (\<lambda>_.
     and_then (transition_token (cmd_idempotency_key c) ''idempotency key'' 256) (\<lambda>_.
     and_then (owner_epoch_check (cmd_owner_epoch c)) (\<lambda>_.
     and_then (when_some (cmd_logical_time_ns c) (\<lambda>n. safe_integer n ''logical time'' True)) (\<lambda>_.
     and_then (when_some (monotonic_elapsed (cmd_timestamp c)) (\<lambda>n. raise_unless (n \<le> MAX_SAFE_INTEGER)
         (ValueError ''live monotonic elapsed time exceeds the journal boundary''))) (\<lambda>_.
     and_then (raise_unless (kind_of (new_state c) = cmd_entity_type c)
         (TypeError (''new_state must use '' @ state_type_name (cmd_entity_type c)))) (\<lambda>_.
     and_then (when_some (expected_state c) (\<lambda>s. raise_unless (kind_of s = cmd_entity_type c)
         (TypeError (''expected_state must use '' @ state_type_name (cmd_entity_type c))))) (\<lambda>_.
       Inr c))))))))))"

record AttemptScheduleClaim =
  claim_schedule_entry_id :: string
  claim_attempt_id :: string
  claim_attempt_plan_id :: string
  claim_event_id :: string
  claim_delivery_id :: string
  claim_predecessor_attempt_id :: "string option"
  claim_condition_json :: "bytes option"
  claim_transition :: TransitionCommand

definition AttemptScheduleClaim_post_init :: "AttemptScheduleClaim \<Rightarrow> AttemptScheduleClaim result" where
  "AttemptScheduleClaim_post_init c =
     and_then (transition_token (claim_schedule_entry_id c) ''schedule entry ID'' 96) (\<lambda>_.
     and_then (validate_fresh_id (claim_attempt_id c) (Some FreshIdKind.ATTEMPT)) (\<lambda>_.
     and_then (validate_planned_id (claim_attempt_plan_id c) (Some PlannedIdKind.ATTEMPT_PLAN)) (\<lambda>_.
     and_then (validate_planned_id (claim_event_id c) (Some PlannedIdKind.EVENT)) (\<lambda>_.
     and_then (validate_planned_id (claim_delivery_id c) (Some PlannedIdKind.DELIVERY)) (\<lambda>_.
     and_then (when_some (claim_predecessor_attempt_id c) (\<lambda>p.
         and_then (validate_fresh_id p (Some FreshIdKind.ATTEMPT)) (\<lambda>_. Inr ()))) (\<lambda>_.
     and_then (when_some (claim_condition_json c) (\<lambda>b. raise_unless (length b \<le> MAX_CONDITION_BYTES)
         (ValueError ''condition_json must be bounded immutable bytes''))) (\<lambda>_.
     let transition = claim_transition c in
     and_then (raise_unless (\<not> (cmd_entity_type transition \<noteq> EntityType.ATTEMPT \<or>
           cmd_entity_id transition \<noteq> claim_attempt_id c \<or>
           expected_state transition \<noteq> Some (AttemptS AttemptState.SCHEDULED) \<or>
           new_state transition \<noteq> AttemptS AttemptState.CLAIMED \<or>
           causal_reference transition \<noteq> None \<or> attempt_outcome transition \<noteq> None))
         (ValueError ''claim transition must be scheduled-to-claimed for the new attempt'')) (\<lambda>_.
       Inr c))))))))"

section \<open>Identifiers of entities\<close>

lemma validate_planned_eq_Inr:
  "validate_planned_id s (Some k) = Inr t \<longleftrightarrow> t = s \<and> (\<exists>raw. parse_planned_id s = Inr (k, raw))"
  by (auto simp: validate_planned_id_def result_simps)

lemma validate_fresh_eq_Inr:
  "validate_fresh_id s (Some k) = Inr t \<longleftrightarrow> t = s \<and> (\<exists>raw. parse_fresh_id s = Inr (k, raw))"
  by (auto simp: validate_fresh_id_def result_simps)

text \<open>The kind of planned identifier an entity type uses.\<close>

fun planned_kind_of :: "EntityType \<Rightarrow> PlannedIdKind option" where
  "planned_kind_of EntityType.SCENARIO = Some PlannedIdKind.SCENARIO"
| "planned_kind_of EntityType.DELIVERY = Some PlannedIdKind.DELIVERY"
| "planned_kind_of EntityType.OBSERVATION = Some PlannedIdKind.OBSERVATION"
| "planned_kind_of EntityType.ASSERTION = Some PlannedIdKind.ASSERTION"
| "planned_kind_of _ = None"

lemma planned_kind_of_inj: "planned_kind_of ty = Some k \<Longrightarrow> planned_kind_of ty' = Some k \<Longrightarrow> ty = ty'"
  by (cases ty; cases ty') auto

lemma validate_entity_id_kind:
  assumes "validate_entity_id ty i run = Inr u"
  shows "(ty = EntityType.RUN \<and> RUN_ID_fullmatch i) \<or>
     (ty = EntityType.ATTEMPT \<and> (\<exists>raw. parse_fresh_id i = Inr (FreshIdKind.ATTEMPT, raw))) \<or>
     (\<exists>k raw. planned_kind_of ty = Some k \<and> parse_planned_id i = Inr (k, raw))"
  using assms
  by (cases ty) (auto simp: validate_entity_id_def validate_run_id_def result_simps Let_def
      validate_planned_eq_Inr validate_fresh_eq_Inr)

lemma run_id_no_underscore: "RUN_ID_fullmatch i \<Longrightarrow> CHR ''_'' \<notin> set i"
proof
  assume i: "RUN_ID_fullmatch i" "CHR ''_'' \<in> set i"
  then obtain n where n: "n < length i" "i ! n = CHR ''_''" by (auto simp: in_set_conv_nth)
  have "list_all2 (\<lambda>p c. p c) RUN_ID_pattern i" using i(1) by (simp only: RUN_ID_fullmatch_def)
  from list_all2_lengthD[OF this] list_all2_nthD2[OF this n(1)] n
  have at: "n < length RUN_ID_pattern" "(RUN_ID_pattern ! n) CHR ''_''" by (simp_all only:)
  have "list_ex (\<lambda>p. p CHR ''_'') RUN_ID_pattern"
    unfolding list_ex_iff by (rule bexI[where P = "\<lambda>p. p CHR ''_''", OF at(2) nth_mem[OF at(1)]])
  moreover have "\<not> list_ex (\<lambda>p. p CHR ''_'') RUN_ID_pattern" by code_simp
  ultimately show False by blast
qed

lemma prefixed_underscore:
  "parse_planned_id i = Inr p \<Longrightarrow> CHR ''_'' \<in> set i" "parse_fresh_id i = Inr q \<Longrightarrow> CHR ''_'' \<in> set i"
  by (cases p, auto simp: parse_planned_eq_Inr) (cases q, auto simp: parse_fresh_eq_Inr)

lemma entity_id_kind_unique:
  assumes "validate_entity_id ty i run = Inr u" "validate_entity_id ty' i run' = Inr u'"
  shows "ty = ty'"
  using validate_entity_id_kind[OF assms(1)] validate_entity_id_kind[OF assms(2)]
  by (auto dest: run_id_no_underscore prefixed_underscore fresh_not_planned planned_kind_of_inj)

lemma transition_command_typed:
  assumes "TransitionCommand_post_init c = Inr d"
  shows "d = c" "validate_entity_id (cmd_entity_type c) (cmd_entity_id c) (cmd_run_id c) = Inr ()"
    "kind_of (new_state c) = cmd_entity_type c"
    "case expected_state c of None \<Rightarrow> True | Some s \<Rightarrow> kind_of s = cmd_entity_type c"
  using assms
  by (auto simp: TransitionCommand_post_init_def result_simps when_some_def split: option.splits)

section \<open>Evidence and staged responses\<close>

lemma when_some_eq_Inr: "when_some v check = Inr u \<longleftrightarrow> (\<forall>x. v = Some x \<longrightarrow> check x = Inr ())"
  by (auto simp: when_some_def split: option.splits)

lemma evidence_shape:
  assumes "AttemptTransportEvidenceCommand_post_init ev = Inr ev'"
  shows "validate_transport_evidence_shape ev = Inr ()"
  using assms unfolding AttemptTransportEvidenceCommand_post_init_def result_simps by auto

text \<open>What a well-shaped evidence with a response says: without an error it is an answer, with one it is
  a failure or an unknown outcome.\<close>

lemma shape_with_response:
  assumes "validate_transport_evidence_shape ev = Inr ()" "ev_response ev = Some r"
  shows "ev_error ev = None \<longleftrightarrow>
      (ev_state ev, ev_classification ev) \<in>
        {(AttemptEvidenceState.ACKNOWLEDGED, AttemptClassification.RECEIVER_ACCEPTED),
         (AttemptEvidenceState.REJECTED, AttemptClassification.RECEIVER_REJECTED)}"
    "ev_error ev \<noteq> None \<Longrightarrow> ev_classification ev = AttemptClassification.ENVIRONMENT_FAILURE \<Longrightarrow>
      ev_state ev \<in> failure_states"
  using assms
  by (cases "ev_state ev"; auto simp: validate_transport_evidence_shape_def result_simps failure_states_def)+

definition response_terminal_state :: "AttemptTransportEvidenceCommand \<Rightarrow> ResponseMetadata \<Rightarrow> AttemptState" where
  "response_terminal_state ev r =
     (if ev_error ev \<noteq> None then AttemptState.TRANSPORT_FAILED
      else if response_status r \<in> {200..299} then AttemptState.SUCCEEDED else AttemptState.REJECTED)"

lemma derived_outcome_match:
  assumes "validate_transport_evidence_shape ev = Inr ()" "ev_response ev = Some r"
  shows "(t, ev_state ev, ev_classification ev) = derived_outcome ev (response_status r) \<longleftrightarrow>
     t = response_terminal_state ev r \<and>
     (if ev_error ev \<noteq> None then ev_classification ev = AttemptClassification.ENVIRONMENT_FAILURE
      else ev_state ev = AttemptEvidenceState.ACKNOWLEDGED \<longleftrightarrow> response_status r \<in> {200..299})"
  using shape_with_response(1)[OF assms]
  by (auto simp: derived_outcome_def response_terminal_state_def split: if_splits)

lemma response_terminal_cases:
  "response_terminal_state ev r \<in> {AttemptState.SUCCEEDED, AttemptState.REJECTED, AttemptState.TRANSPORT_FAILED}"
  by (simp add: response_terminal_state_def)

lemma staging_post_init:
  assumes "ev_request (transport_evidence c) = Some request" "ev_response (transport_evidence c) = Some r"
    and "validate_transport_evidence_shape (transport_evidence c) = Inr ()"
  shows "AttemptResponseStagingCommand_post_init c = Inr c \<longleftrightarrow>
     response_body_sha256 r \<noteq> None \<and>
     ev_classification (transport_evidence c) = outcome_classification (terminal_outcome c) \<and>
     (terminal_state c, ev_state (transport_evidence c), ev_classification (transport_evidence c)) =
       derived_outcome (transport_evidence c) (response_status r) \<and>
     check_staged_retry c = Inr ()"
proof -
  let ?ev = "transport_evidence c"
  have "terminal_state c \<in> {AttemptState.SUCCEEDED, AttemptState.REJECTED, AttemptState.TRANSPORT_FAILED} \<and>
      \<not> (terminal_state c = AttemptState.TRANSPORT_FAILED \<and> ev_state ?ev \<notin> failure_states)"
    if "(terminal_state c, ev_state ?ev, ev_classification ?ev) = derived_outcome ?ev (response_status r)"
    using that derived_outcome_match[OF assms(3,2)] response_terminal_cases[of ?ev r]
      shape_with_response(2)[OF assms(3,2)]
    by (metis (no_types) AttemptState.distinct response_terminal_state_def)
  then show ?thesis
    unfolding AttemptResponseStagingCommand_post_init_def Let_def assms(1,2) prod.case option.case
    by (auto simp: result_simps)
qed

lemma staging_needs_metadata:
  assumes "AttemptResponseStagingCommand_post_init c = Inr d"
  shows "d = c" "\<exists>request. ev_request (transport_evidence c) = Some request"
    "\<exists>r. ev_response (transport_evidence c) = Some r"
  using assms
  by (auto simp: AttemptResponseStagingCommand_post_init_def Let_def result_simps split: option.splits)

lemma check_staged_retry_iff:
  "check_staged_retry c = Inr () \<longleftrightarrow> (case retry_schedule (terminal_outcome c) of
       None \<Rightarrow> True
     | Some retry \<Rightarrow> terminal_state c \<in> {AttemptState.REJECTED, AttemptState.TRANSPORT_FAILED} \<and>
         schedule_predecessor_attempt_id retry = ev_attempt_id (transport_evidence c))"
  by (cases "retry_schedule (terminal_outcome c)") (simp_all add: check_staged_retry_def when_some_def result_simps)

lemma response_terminal_edge:
  "transition_allowed EntityType.ATTEMPT (AttemptS AttemptState.RESPONSE_OBSERVED)
     (AttemptS (response_terminal_state ev r))"
proof -
  have "list_all (\<lambda>t. transition_allowed EntityType.ATTEMPT (AttemptS AttemptState.RESPONSE_OBSERVED) (AttemptS t))
      [AttemptState.SUCCEEDED, AttemptState.REJECTED, AttemptState.TRANSPORT_FAILED]"
    by code_simp
  then show ?thesis using response_terminal_cases[of ev r] by (auto simp: list_all_iff)
qed

section \<open>Properties\<close>

lemma staging_parts:
  fixes c :: AttemptResponseStagingCommand
  defines "ev \<equiv> transport_evidence c"
  assumes "AttemptTransportEvidenceCommand_post_init ev = Inr ev"
  shows "AttemptResponseStagingCommand_post_init c = Inr c \<longleftrightarrow>
      (\<exists>request r. ev_request ev = Some request \<and> ev_response ev = Some r \<and> response_body_sha256 r \<noteq> None \<and>
         ev_classification ev = outcome_classification (terminal_outcome c) \<and>
         terminal_state c = response_terminal_state ev r \<and>
         (if ev_error ev \<noteq> None then ev_classification ev = AttemptClassification.ENVIRONMENT_FAILURE
          else ev_state ev = AttemptEvidenceState.ACKNOWLEDGED \<longleftrightarrow> response_status r \<in> {200..299}) \<and>
         (case retry_schedule (terminal_outcome c) of None \<Rightarrow> True
          | Some retry \<Rightarrow> terminal_state c \<noteq> AttemptState.SUCCEEDED \<and>
              schedule_predecessor_attempt_id retry = ev_attempt_id ev))" (is "?accepted \<longleftrightarrow> ?spec")
    and "AttemptResponseStagingCommand_post_init c = Inr c \<Longrightarrow>
      transition_allowed EntityType.ATTEMPT (AttemptS AttemptState.RESPONSE_OBSERVED) (AttemptS (terminal_state c))"
proof -
  note shape = evidence_shape[OF assms(2), unfolded ev_def]
  have retry: "check_staged_retry c = Inr () \<longleftrightarrow>
      (case retry_schedule (terminal_outcome c) of None \<Rightarrow> True
       | Some retry \<Rightarrow> terminal_state c \<noteq> AttemptState.SUCCEEDED \<and>
           schedule_predecessor_attempt_id retry = ev_attempt_id (transport_evidence c))"
    if "terminal_state c = response_terminal_state (transport_evidence c) r" for r
    using response_terminal_cases[of "transport_evidence c" r] that
    by (auto simp: check_staged_retry_iff split: option.splits)
  show exact: "?accepted \<longleftrightarrow> ?spec"
  proof
    assume ?accepted
    then obtain request r where q: "ev_request ev = Some request" "ev_response ev = Some r"
      using staging_needs_metadata[of c c] by (auto simp: ev_def)
    show ?spec
      using \<open>?accepted\<close> staging_post_init[OF q[unfolded ev_def] shape] derived_outcome_match[OF shape q(2)[unfolded ev_def]]
        retry q unfolding ev_def by metis
  next
    assume ?spec
    then show ?accepted
      using staging_post_init[OF _ _ shape] derived_outcome_match[OF shape] retry unfolding ev_def by metis
  qed
  show "transition_allowed EntityType.ATTEMPT (AttemptS AttemptState.RESPONSE_OBSERVED) (AttemptS (terminal_state c))"
    if ?accepted
    using that exact response_terminal_edge by metis
qed

text \<open>C23. A staged response is exact. For transport evidence that passed its own validation, the staging
  command is accepted exactly when the request and a complete response are there, the outcome
  repeats the evidence's classification, the terminal state is the one the response entails
  (transport failure when an error was recorded, success exactly for a status in 200..299, rejection
  otherwise), an error is an environment failure, the evidence acknowledges exactly the 2xx statuses,
  and a retry, if there is one, follows this very attempt and never a success. The
  check of the failure states in the code never decides anything further. Whatever it accepts is a legal
  step from \<open>RESPONSE_OBSERVED\<close>.\<close>

theorem staging_exact:
  assumes "AttemptTransportEvidenceCommand_post_init (transport_evidence c) = Inr (transport_evidence c)"
  shows "(AttemptResponseStagingCommand_post_init c = Inr c \<longleftrightarrow>
      (\<exists>request r. ev_request (transport_evidence c) = Some request \<and>
         ev_response (transport_evidence c) = Some r \<and> response_body_sha256 r \<noteq> None \<and>
         ev_classification (transport_evidence c) = outcome_classification (terminal_outcome c) \<and>
         terminal_state c = response_terminal_state (transport_evidence c) r \<and>
         (if ev_error (transport_evidence c) \<noteq> None
          then ev_classification (transport_evidence c) = AttemptClassification.ENVIRONMENT_FAILURE
          else ev_state (transport_evidence c) = AttemptEvidenceState.ACKNOWLEDGED \<longleftrightarrow> response_status r \<in> {200..299}) \<and>
         (case retry_schedule (terminal_outcome c) of None \<Rightarrow> True
          | Some retry \<Rightarrow> terminal_state c \<noteq> AttemptState.SUCCEEDED \<and>
              schedule_predecessor_attempt_id retry = ev_attempt_id (transport_evidence c)))) \<and>
     (AttemptResponseStagingCommand_post_init c = Inr c \<longrightarrow>
       transition_allowed EntityType.ATTEMPT (AttemptS AttemptState.RESPONSE_OBSERVED) (AttemptS (terminal_state c)))"
  using staging_parts[OF assms] by blast

lemma commands_typed:
  assumes "TransitionCommand_post_init c = Inr c" "TransitionCommand_post_init d = Inr d"
    and "cmd_entity_id c = cmd_entity_id d"
  shows "cmd_entity_type c = cmd_entity_type d"
    "new_state d \<in> set (members_of (cmd_entity_type c))"
    "set_option (expected_state d) \<subseteq> set (members_of (cmd_entity_type c))"
proof -
  show ty: "cmd_entity_type c = cmd_entity_type d"
    using transition_command_typed(2)[OF assms(1)] transition_command_typed(2)[OF assms(2)] assms(3)
    by (metis entity_id_kind_unique)
  show "new_state d \<in> set (members_of (cmd_entity_type c))"
    using members_complete[of "new_state d"] transition_command_typed(3)[OF assms(2)] ty by simp
  show "set_option (expected_state d) \<subseteq> set (members_of (cmd_entity_type c))"
    using transition_command_typed(4)[OF assms(2)] ty
    by (auto split: option.splits) (metis members_complete)
qed

text \<open>C24. An entity identifier determines the kind of the entity: two accepted transition commands with
  the same entity identifier have the same entity type, their states come from that type's enumeration,
  and an identifier of one kind is refused for every other, whatever the runs they belong to.\<close>

theorem commands_well_typed:
  assumes "TransitionCommand_post_init c = Inr c" "TransitionCommand_post_init d = Inr d"
    and "cmd_entity_id c = cmd_entity_id d"
  shows "cmd_entity_type c = cmd_entity_type d \<and> new_state d \<in> set (members_of (cmd_entity_type c)) \<and>
    set_option (expected_state d) \<subseteq> set (members_of (cmd_entity_type c))"
  using commands_typed[OF assms] by blast

section \<open>Concrete commands\<close>

definition zero_ulid :: string where "zero_ulid = replicate 26 CHR ''0''"

definition sample_run_id :: string where "sample_run_id = ''00000000-0000-4000-8000-000000000000''"

definition sample_attempt_id :: string where "sample_attempt_id = ''attempt_'' @ zero_ulid"

lemma zero_planned: "validate_planned_id (planned_kind_value k @ ''_'' @ zero_ulid) (Some k) =
    Inr (planned_kind_value k @ ''_'' @ zero_ulid)"
  using zero_payload by (auto simp: validate_planned_eq_Inr parse_planned_eq_Inr zero_ulid_def)

lemma zero_fresh: "validate_fresh_id (fresh_kind_value k @ ''_'' @ zero_ulid) (Some k) =
    Inr (fresh_kind_value k @ ''_'' @ zero_ulid)"
  using zero_payload by (auto simp: validate_fresh_eq_Inr parse_fresh_eq_Inr zero_ulid_def)

lemmas zero_ids = zero_planned[where k = PlannedIdKind.SCENARIO, simplified]
  zero_planned[where k = PlannedIdKind.EVENT, simplified] zero_planned[where k = PlannedIdKind.DELIVERY, simplified]
  zero_fresh[where k = FreshIdKind.ATTEMPT, simplified] zero_fresh[where k = FreshIdKind.RECORD, simplified]

lemma sample_run_id_valid: "validate_run_id sample_run_id = Inr sample_run_id"
proof -
  have "RUN_ID_fullmatch sample_run_id" by code_simp
  then show ?thesis by (simp add: run_id_shape_decides)
qed

definition sample_request :: RequestMetadata where
  "sample_request = \<lparr>url_redacted = text_of ''/hook'', request_body_sha256 = ''sha256:'',
     request_byte_length = 2, header_names = [''host'']\<rparr>"

definition sample_response :: ResponseMetadata where
  "sample_response = \<lparr>response_status = 503, response_body_sha256 = Some ''sha256:'', captured_bytes = 0,
     truncated = False\<rparr>"

definition sample_evidence :: AttemptTransportEvidenceCommand where
  "sample_evidence = \<lparr>ev_record_id = ''record_'' @ zero_ulid, ev_run_id = sample_run_id,
     ev_scenario_id = ''scenario_'' @ zero_ulid, ev_event_id = ''event_'' @ zero_ulid,
     ev_delivery_id = ''delivery_'' @ zero_ulid, ev_attempt_id = sample_attempt_id,
     ev_state = AttemptEvidenceState.REJECTED, ev_classification = AttemptClassification.RECEIVER_REJECTED,
     ev_request = Some sample_request, ev_response = Some sample_response, ev_error = None,
     response_headers_elapsed_ns = Some 7\<rparr>"

definition sample_staging :: AttemptResponseStagingCommand where
  "sample_staging = \<lparr>terminal_state = AttemptState.REJECTED,
     terminal_outcome = \<lparr>outcome_classification = AttemptClassification.RECEIVER_REJECTED, retry_schedule = None\<rparr>,
     transport_evidence = sample_evidence\<rparr>"

definition sample_command :: TransitionCommand where
  "sample_command = \<lparr>cmd_run_id = sample_run_id, cmd_transition_id = ''t-1'',
     cmd_entity_type = EntityType.ATTEMPT, cmd_entity_id = sample_attempt_id,
     expected_state = Some (AttemptS AttemptState.SCHEDULED), new_state = AttemptS AttemptState.CLAIMED,
     trigger_category = ''claim'', cmd_timestamp = \<lparr>wall_time = \<lparr>instant = 0, utcoffset = Some 0\<rparr>, monotonic_elapsed = Some 5\<rparr>,
     cmd_owner_epoch = 1, cmd_idempotency_key = ''k'', causal_reference = None, cmd_logical_time_ns = None,
     delivery_satisfaction = None, attempt_outcome = None\<rparr>"

lemma sample_request_valid: "validate_request_metadata sample_request = Inr ()"
proof -
  have "validate_header_name ''host'' = Inr ()" by code_simp
  moreover have "length (json_dumps_texts [''host'']) = 8" by code_simp
  moreover have "control_free_text (text_of ''/hook'') n 2048 = Inr ()" for n
    by (simp add: control_free_text_def text_of_def utf8_encode_def scalar_value_def)
  ultimately show ?thesis
    by (simp add: validate_request_metadata_def sample_request_def Let_def canonical_request_header_names_json_def
        MAX_REQUEST_HEADER_NAMES_def MAX_REQUEST_HEADER_NAMES_JSON_BYTES_def)
qed

lemma sample_evidence_valid: "AttemptTransportEvidenceCommand_post_init sample_evidence = Inr sample_evidence"
proof -
  have "validate_transport_evidence_shape sample_evidence = Inr ()"
    by (simp add: validate_transport_evidence_shape_def sample_evidence_def)
  then show ?thesis
    using zero_ids sample_run_id_valid sample_request_valid
    by (simp add: AttemptTransportEvidenceCommand_post_init_def sample_evidence_def sample_attempt_id_def
        when_some_def safe_integer_def MAX_SAFE_INTEGER_def)
qed

lemma sample_command_valid: "TransitionCommand_post_init sample_command = Inr sample_command"
proof -
  have "lower_identifier 64 ''claim''" "bounded_token 96 ''t-1''" "bounded_token 256 ''k''" by code_simp+
  then show ?thesis
    using zero_ids sample_run_id_valid
    by (simp add: TransitionCommand_post_init_def sample_command_def sample_attempt_id_def validate_entity_id_def
        when_some_def transition_token_def transition_identifier_def owner_epoch_check_def MAX_OWNER_EPOCH_def
        MAX_SAFE_INTEGER_def)
qed

theorem staging_exact_witness:
  "AttemptResponseStagingCommand_post_init sample_staging = Inr sample_staging \<and>
   transition_allowed EntityType.ATTEMPT (AttemptS AttemptState.RESPONSE_OBSERVED)
     (AttemptS (terminal_state sample_staging))"
proof -
  have ev: "transport_evidence sample_staging = sample_evidence" by (simp add: sample_staging_def)
  have valid: "AttemptTransportEvidenceCommand_post_init (transport_evidence sample_staging) =
      Inr (transport_evidence sample_staging)"
    unfolding ev by (rule sample_evidence_valid)
  have "AttemptResponseStagingCommand_post_init sample_staging = Inr sample_staging"
    unfolding staging_exact[OF valid, THEN conjunct1]
    by (simp add: sample_staging_def sample_evidence_def sample_response_def response_terminal_state_def)
  with staging_exact[OF valid] show ?thesis by blast
qed

theorem commands_well_typed_witness:
  "cmd_entity_type sample_command = cmd_entity_type (sample_command\<lparr>cmd_transition_id := ''t-2'', expected_state := Some (AttemptS AttemptState.CLAIMED),
     new_state := AttemptS AttemptState.PRE_SEND_COMMITTED\<rparr>) \<and>
   {AttemptS AttemptState.PRE_SEND_COMMITTED, AttemptS AttemptState.CLAIMED} \<subseteq> set (members_of EntityType.ATTEMPT)"
proof -
  let ?d = "sample_command\<lparr>cmd_transition_id := ''t-2'', expected_state := Some (AttemptS AttemptState.CLAIMED),
     new_state := AttemptS AttemptState.PRE_SEND_COMMITTED\<rparr>"
  have "lower_identifier 64 ''claim''" "bounded_token 96 ''t-2''" "bounded_token 256 ''k''" by code_simp+
  then have d: "TransitionCommand_post_init ?d = Inr ?d"
    using zero_ids sample_run_id_valid
    by (simp add: TransitionCommand_post_init_def sample_command_def sample_attempt_id_def validate_entity_id_def
        when_some_def transition_token_def transition_identifier_def owner_epoch_check_def MAX_OWNER_EPOCH_def
        MAX_SAFE_INTEGER_def)
  from commands_well_typed[OF sample_command_valid d] show ?thesis by (simp add: sample_command_def)
qed

end
