(* ===== verification/Signing_Base.thy ===== *)
theory Signing_Base
  imports Text_Codecs
begin

text \<open>
  The closed signer contract of \<open>signatures/base.py\<close> and the secret handles of \<open>secrets.py\<close> that signers
  use: signing inputs, versioned templates and their length-prefixed framing, the template registry,
  signature headers, header ownership, signing evidence and verification results.

  A header name, a version or an adapter identifier is a \<open>string\<close>; the event identifier and
  a key identifier are Unicode texts. A header value may be given as any text and is checked to be ASCII on
  construction; from then on it is a \<open>string\<close>.
\<close>

section \<open>Limits and enumerations\<close>

definition MAX_SIGNING_BODY_BYTES :: nat where "MAX_SIGNING_BODY_BYTES = 16777216"
definition MAX_SIGNING_INPUT_BYTES :: nat where "MAX_SIGNING_INPUT_BYTES = MAX_SIGNING_BODY_BYTES + 8192"
definition MAX_EVENT_ID_BYTES :: nat where "MAX_EVENT_ID_BYTES = 4096"
definition MAX_TEMPLATE_COMPONENTS :: nat where "MAX_TEMPLATE_COMPONENTS = 16"
definition MAX_TEMPLATE_LITERAL_BYTES :: nat where "MAX_TEMPLATE_LITERAL_BYTES = 1024"
definition MAX_SIGNER_HEADERS :: nat where "MAX_SIGNER_HEADERS = 16"
definition MAX_USER_HEADERS :: nat where "MAX_USER_HEADERS = 128"
definition MAX_HEADER_NAME_LENGTH :: nat where "MAX_HEADER_NAME_LENGTH = 128"
definition MAX_HEADER_VALUE_LENGTH :: nat where "MAX_HEADER_VALUE_LENGTH = 8192"
definition MAX_KEY_ID_LENGTH :: nat where "MAX_KEY_ID_LENGTH = 128"
definition NANOSECONDS_PER_SECOND :: int where "NANOSECONDS_PER_SECOND = 1000000000"

definition LENGTH_PREFIXED_TEMPLATE_DOMAIN :: bytes where
  "LENGTH_PREFIXED_TEMPLATE_DOMAIN = map of_char ''wrch-signing-input-frame-v1'' @ [0]"

definition HARNESS_REQUEST_HEADERS :: "string set" where
  "HARNESS_REQUEST_HEADERS = {''connection'', ''content-length'', ''content-type'', ''host'',
     ''proxy-authorization'', ''te'', ''trailer'', ''transfer-encoding'', ''upgrade'', ''user-agent''}"

datatype SigningInputToken = TIMESTAMP | EVENT_ID | BODY

fun token_value :: "SigningInputToken \<Rightarrow> string" where
  "token_value TIMESTAMP = ''timestamp''"
| "token_value EVENT_ID = ''event_id''"
| "token_value BODY = ''body''"

datatype TimestampEncoding = ASCII_DECIMAL_NANOSECONDS | ASCII_DECIMAL_SECONDS_FLOOR
datatype TemplateFraming = EXACT_BODY_V1 | LENGTH_PREFIXED_V1
datatype SignatureEncoding = HEX | BASE64
datatype VerificationReason = VALID | MISSING_HEADER | DUPLICATE_HEADER | MALFORMED_HEADER | SIGNATURE_MISMATCH

datatype SigningTemplateComponent = Literal bytes | Token SigningInputToken

section \<open>Checks on texts\<close>

text \<open>The pattern \<open>[a-z][a-z0-9._-]{0,127}\<close>.\<close>

definition identifier_pattern :: "string \<Rightarrow> bool" where
  "identifier_pattern s = (case s of [] \<Rightarrow> False
     | c # cs \<Rightarrow> in_char_range CHR ''a'' CHR ''z'' c \<and> length cs \<le> 127 \<and>
         list_all (\<lambda>d. in_char_range CHR ''a'' CHR ''z'' d \<or> in_char_range CHR ''0'' CHR ''9'' d \<or>
           d \<in> set ''._-'') cs)"

definition validate_identifier :: "string \<Rightarrow> string \<Rightarrow> string result" where
  "validate_identifier v field_name =
     and_then (raise_unless (identifier_pattern v)
       (ValueError (field_name @ '' must be a bounded lowercase identifier''))) (\<lambda>_. Inr v)"

definition header_name_char :: "char \<Rightarrow> bool" where
  "header_name_char c = (c \<in> set ''!#$%&*+.^_`|~-'' \<or> c = CHR 0x27 \<or> in_char_range CHR ''0'' CHR ''9'' c \<or>
     in_char_range CHR ''A'' CHR ''Z'' c \<or> in_char_range CHR ''a'' CHR ''z'' c)"

text \<open>\<open>str.casefold\<close> on ASCII text.\<close>

definition lower_char :: "char \<Rightarrow> char" where
  "lower_char c = (if in_char_range CHR ''A'' CHR ''Z'' c then char_of (of_char c + (32 :: nat)) else c)"

definition casefold :: "string \<Rightarrow> string" where
  "casefold s = map lower_char s"

definition validate_header_name :: "string \<Rightarrow> string result" where
  "validate_header_name v =
     and_then (raise_unless (1 \<le> length v \<and> length v \<le> MAX_HEADER_NAME_LENGTH \<and> list_all header_name_char v)
       (ValueError ''header name must be a bounded HTTP token'')) (\<lambda>_. Inr (casefold v))"

definition validate_header_value :: "ustring \<Rightarrow> string result" where
  "validate_header_value v =
     and_then (raise_unless (length v \<le> MAX_HEADER_VALUE_LENGTH)
       (ValueError ''header value exceeds the bounded value limit'')) (\<lambda>_.
     and_then (raise_unless (list_all (\<lambda>c. c < 128) v)
       (ValueError ''signature header value must contain ASCII characters'')) (\<lambda>_.
     and_then (raise_unless (\<not> list_ex (\<lambda>c. c < 32 \<or> c = 127) v)
       (ValueError ''signature header value must not contain control characters'')) (\<lambda>_.
       Inr (map char_of v))))"

definition validate_evidence_key_id :: "ustring option \<Rightarrow> unit result" where
  "validate_evidence_key_id v = (case v of None \<Rightarrow> Inr ()
     | Some k \<Rightarrow>
         and_then (raise_unless (length k \<le> MAX_KEY_ID_LENGTH)
           (ValueError ''key_id exceeds the 128-character limit'')) (\<lambda>_.
         raise_unless (\<not> list_ex (\<lambda>c. c < 32 \<or> c = 127) k)
           (ValueError ''key_id must not contain control characters'')))"

definition sha256_pattern :: "string \<Rightarrow> bool" where
  "sha256_pattern s = (take 7 s = ''sha256:'' \<and> length s = 71 \<and> list_all lower_hex_char (drop 7 s))"

definition validate_sha256_fingerprint :: "string \<Rightarrow> unit result" where
  "validate_sha256_fingerprint v = raise_unless (sha256_pattern v)
     (ValueError ''key fingerprint must use sha256: plus lowercase hexadecimal'')"

definition sha256_digest :: "bytes \<Rightarrow> string" where
  "sha256_digest v = ''sha256:'' @ hexdigest (sha256 v)"

definition validate_sha256_digest :: "string \<Rightarrow> string result" where
  "validate_sha256_digest v =
     and_then (raise_unless (sha256_pattern v)
       (ValueError ''SHA-256 digest must use sha256: plus 64 lowercase hexadecimal characters'')) (\<lambda>_. Inr v)"

definition validate_logical_time :: "int \<Rightarrow> int result" where
  "validate_logical_time v =
     and_then (raise_unless (SIGNED_INT64_MIN \<le> v \<and> v \<le> SIGNED_INT64_MAX)
       (ValueError ''logical_time_ns must fit a signed 64-bit integer'')) (\<lambda>_. Inr v)"

definition encode_bounded_text :: "ustring \<Rightarrow> string \<Rightarrow> nat \<Rightarrow> bytes result" where
  "encode_bounded_text v field_name maximum_bytes = (case utf8_encode v of
       Inl _ \<Rightarrow> Inl (ValueError (field_name @ '' must be valid Unicode''))
     | Inr encoded \<Rightarrow>
         and_then (raise_unless (length encoded \<le> maximum_bytes)
           (ValueError (field_name @ '' exceeds its UTF-8 byte limit''))) (\<lambda>_. Inr encoded))"

section \<open>Signing inputs and templates\<close>

record SigningInput =
  si_body :: bytes
  si_event_id :: ustring
  si_logical_time_ns :: int

definition SigningInput_post_init :: "SigningInput \<Rightarrow> SigningInput result" where
  "SigningInput_post_init i =
     and_then (raise_unless (length (si_body i) \<le> MAX_SIGNING_BODY_BYTES)
       (ValueError ''signing body exceeds the 16777216-byte hard limit'')) (\<lambda>_.
     and_then (encode_bounded_text (si_event_id i) ''event_id'' MAX_EVENT_ID_BYTES) (\<lambda>_.
     and_then (validate_logical_time (si_logical_time_ns i)) (\<lambda>_. Inr i)))"

record CanonicalSigningTemplate =
  template_version :: string
  template_components :: "SigningTemplateComponent list"
  template_framing :: TemplateFraming

fun component_literal :: "SigningTemplateComponent \<Rightarrow> bytes" where
  "component_literal (Literal b) = b"
| "component_literal (Token _) = []"

fun component_tokens :: "SigningTemplateComponent list \<Rightarrow> SigningInputToken list" where
  "component_tokens [] = []"
| "component_tokens (Literal _ # cs) = component_tokens cs"
| "component_tokens (Token t # cs) = t # component_tokens cs"

definition validate_template_components ::
    "SigningTemplateComponent list \<Rightarrow> TemplateFraming \<Rightarrow> unit result" where
  "validate_template_components components framing =
     and_then (raise_unless (1 \<le> length components \<and> length components \<le> MAX_TEMPLATE_COMPONENTS)
       (ValueError ''template must contain between 1 and 16 components'')) (\<lambda>_.
     let literal_bytes = sum_list (map (\<lambda>c. length (component_literal c)) components);
         tokens = component_tokens components
     in and_then (raise_unless (literal_bytes \<le> MAX_TEMPLATE_LITERAL_BYTES)
          (ValueError ''template literal bytes exceed the 1024-byte limit'')) (\<lambda>_.
        and_then (raise_unless (tokens \<noteq> [])
          (ValueError ''template must cover at least one authoritative input token'')) (\<lambda>_.
        and_then (raise_unless (distinct tokens)
          (ValueError ''an authoritative input token cannot occur more than once'')) (\<lambda>_.
        raise_unless (\<not> (framing = EXACT_BODY_V1 \<and> components \<noteq> [Token BODY]))
          (ValueError ''exact-body-v1 framing requires the body-only template'')))))"

definition CanonicalSigningTemplate_post_init ::
    "CanonicalSigningTemplate \<Rightarrow> CanonicalSigningTemplate result" where
  "CanonicalSigningTemplate_post_init t =
     and_then (validate_identifier (template_version t) ''template version'') (\<lambda>_.
     and_then (validate_template_components (template_components t) (template_framing t)) (\<lambda>_. Inr t))"

definition encode_timestamp :: "int \<Rightarrow> TimestampEncoding \<Rightarrow> bytes" where
  "encode_timestamp v encoding = map of_char (int_str
     (if encoding = ASCII_DECIMAL_NANOSECONDS then v else v div NANOSECONDS_PER_SECOND))"

text \<open>The tag byte and value of one component; \<open>event_id.encode("utf-8")\<close> may raise.\<close>

fun framed_component ::
    "SigningInput \<Rightarrow> TimestampEncoding \<Rightarrow> SigningTemplateComponent \<Rightarrow> (bytes \<times> bytes) result" where
  "framed_component i encoding (Literal b) = Inr ([0], b)"
| "framed_component i encoding (Token TIMESTAMP) = Inr ([1], encode_timestamp (si_logical_time_ns i) encoding)"
| "framed_component i encoding (Token EVENT_ID) =
     and_then (utf8_encode (si_event_id i)) (\<lambda>b. Inr ([2], b))"
| "framed_component i encoding (Token BODY) = Inr ([3], si_body i)"

definition frame :: "bytes \<times> bytes \<Rightarrow> bytes" where
  "frame p = fst p @ to_bytes 8 (length (snd p)) @ snd p"

definition render_length_prefixed_template ::
    "CanonicalSigningTemplate \<Rightarrow> SigningInput \<Rightarrow> TimestampEncoding \<Rightarrow> bytes result" where
  "render_length_prefixed_template t i encoding =
     (let version = map of_char (template_version t) in
      and_then (for_each (framed_component i encoding) (template_components t)) (\<lambda>framed.
      let framed_size = length LENGTH_PREFIXED_TEMPLATE_DOMAIN + 2 + length version + 1 +
            sum_list (map (\<lambda>(tag, v). length tag + 8 + length v) framed)
      in and_then (raise_unless (framed_size \<le> MAX_SIGNING_INPUT_BYTES)
           (ValueError ''rendered signing input exceeds the bounded byte limit'')) (\<lambda>_.
         Inr (LENGTH_PREFIXED_TEMPLATE_DOMAIN @ to_bytes 2 (length version) @ version @
              to_bytes 1 (length framed) @ concat (map frame framed)))))"

definition render :: "CanonicalSigningTemplate \<Rightarrow> SigningInput \<Rightarrow> TimestampEncoding \<Rightarrow> bytes result" where
  "render t i encoding =
     (if template_framing t = EXACT_BODY_V1 then Inr (si_body i)
      else render_length_prefixed_template t i encoding)"

section \<open>Template registry\<close>

record SigningTemplateRegistration =
  registered_template :: CanonicalSigningTemplate
  registered_encoding :: TimestampEncoding

type_synonym template_fingerprint =
  "string \<times> (string \<times> (bytes + string)) list \<times> TemplateFraming \<times> TimestampEncoding"

fun component_fingerprint :: "SigningTemplateComponent \<Rightarrow> string \<times> (bytes + string)" where
  "component_fingerprint (Literal b) = (''literal'', Inl b)"
| "component_fingerprint (Token t) = (''token'', Inr (token_value t))"

definition template_semantic_fingerprint ::
    "CanonicalSigningTemplate \<Rightarrow> TimestampEncoding \<Rightarrow> template_fingerprint result" where
  "template_semantic_fingerprint t encoding =
     and_then (CanonicalSigningTemplate_post_init t) (\<lambda>detached.
       Inr (template_version detached, map component_fingerprint (template_components detached),
            template_framing detached, encoding))"

definition SigningInputToken_of :: "string \<Rightarrow> SigningInputToken result" where
  "SigningInputToken_of v = (case find (\<lambda>t. token_value t = v) [TIMESTAMP, EVENT_ID, BODY] of
       Some t \<Rightarrow> Inr t | None \<Rightarrow> Inl (ValueError ''not a valid SigningInputToken''))"

fun component_of_fingerprint :: "string \<times> (bytes + string) \<Rightarrow> SigningTemplateComponent result" where
  "component_of_fingerprint (kind, Inl b) = Inr (Literal b)"
| "component_of_fingerprint (kind, Inr v) = and_then (SigningInputToken_of v) (\<lambda>t. Inr (Token t))"

definition registration_from_semantic_fingerprint ::
    "template_fingerprint \<Rightarrow> SigningTemplateRegistration result" where
  "registration_from_semantic_fingerprint f =
     (case f of (version, parts, framing, encoding) \<Rightarrow>
        and_then (for_each component_of_fingerprint parts) (\<lambda>components.
        and_then (CanonicalSigningTemplate_post_init \<lparr>template_version = version,
            template_components = components, template_framing = framing\<rparr>) (\<lambda>t.
          Inr \<lparr>registered_template = t, registered_encoding = encoding\<rparr>)))"

text \<open>The registry is its \<open>_by_version\<close> mapping, built one registration at a time.\<close>

type_synonym StaticSigningTemplateRegistry = "string \<rightharpoonup> template_fingerprint"

fun StaticSigningTemplateRegistry_init ::
    "StaticSigningTemplateRegistry \<Rightarrow> SigningTemplateRegistration list \<Rightarrow> StaticSigningTemplateRegistry result" where
  "StaticSigningTemplateRegistry_init by_version [] = Inr by_version"
| "StaticSigningTemplateRegistry_init by_version (r # rs) =
     and_then (template_semantic_fingerprint (registered_template r) (registered_encoding r)) (\<lambda>f.
     and_then (raise_unless (by_version (fst f) = None)
       (SignerError (Configuration ''SIG_TEMPLATE_VERSION_DUPLICATE''
          ''A signing-input template version is registered more than once.''))) (\<lambda>_.
       StaticSigningTemplateRegistry_init (by_version(fst f \<mapsto> f)) rs))"

definition registry_validate ::
    "StaticSigningTemplateRegistry \<Rightarrow> CanonicalSigningTemplate \<Rightarrow> TimestampEncoding \<Rightarrow>
      SigningTemplateRegistration result" where
  "registry_validate registry t encoding = (case template_semantic_fingerprint t encoding of
       Inl _ \<Rightarrow> Inl (SignerError (Configuration ''SIG_TEMPLATE_VERSION_CONFLICT''
         ''The signing-input template version does not match its registered semantics.''))
     | Inr candidate \<Rightarrow> (case registry (fst candidate) of
           None \<Rightarrow> Inl (SignerError (Configuration ''SIG_TEMPLATE_VERSION_UNREGISTERED''
             ''The signing-input template version is not registered.''))
         | Some registered \<Rightarrow>
             if registered \<noteq> candidate
             then Inl (SignerError (Configuration ''SIG_TEMPLATE_VERSION_CONFLICT''
               ''The signing-input template version does not match its registered semantics.''))
             else registration_from_semantic_fingerprint registered))"

section \<open>Headers, evidence and results\<close>

record SignatureHeader =
  header_name :: string
  header_value :: string

definition SignatureHeader_init :: "string \<Rightarrow> ustring \<Rightarrow> SignatureHeader result" where
  "SignatureHeader_init name v =
     and_then (validate_header_name name) (\<lambda>normalized.
     and_then (validate_header_value v) (\<lambda>ascii_value.
       Inr \<lparr>header_name = normalized, header_value = ascii_value\<rparr>))"

record SigningEvidence =
  ev_adapter_id :: string
  ev_adapter_version :: string
  ev_template_version :: string
  ev_logical_time_ns :: int
  ev_body_sha256 :: string
  ev_covered_bytes_sha256 :: string
  ev_key_fingerprint :: string
  ev_key_id :: "ustring option"
  ev_output_encoding :: SignatureEncoding

definition SigningEvidence_post_init :: "SigningEvidence \<Rightarrow> SigningEvidence result" where
  "SigningEvidence_post_init e =
     and_then (validate_identifier (ev_adapter_id e) ''adapter_id'') (\<lambda>_.
     and_then (validate_identifier (ev_adapter_version e) ''adapter_version'') (\<lambda>_.
     and_then (validate_identifier (ev_template_version e) ''template_version'') (\<lambda>_.
     and_then (validate_logical_time (ev_logical_time_ns e)) (\<lambda>_.
     and_then (validate_sha256_digest (ev_body_sha256 e)) (\<lambda>_.
     and_then (validate_sha256_digest (ev_covered_bytes_sha256 e)) (\<lambda>_.
     and_then (validate_sha256_fingerprint (ev_key_fingerprint e)) (\<lambda>_.
     and_then (validate_evidence_key_id (ev_key_id e)) (\<lambda>_. Inr e))))))))"

definition signing_evidence ::
    "string \<Rightarrow> string \<Rightarrow> string \<Rightarrow> SigningInput \<Rightarrow> bytes \<Rightarrow> string \<Rightarrow> ustring option \<Rightarrow> SignatureEncoding \<Rightarrow>
      SigningEvidence result" where
  "signing_evidence adapter_id adapter_version tpl_version i covered_bytes key_fingerprint key_id encoding =
     SigningEvidence_post_init
       \<lparr>ev_adapter_id = adapter_id, ev_adapter_version = adapter_version, ev_template_version = tpl_version,
        ev_logical_time_ns = si_logical_time_ns i, ev_body_sha256 = sha256_digest (si_body i),
        ev_covered_bytes_sha256 = sha256_digest covered_bytes, ev_key_fingerprint = key_fingerprint,
        ev_key_id = key_id, ev_output_encoding = encoding\<rparr>"

record SigningResult =
  result_headers :: "SignatureHeader list"
  result_evidence :: SigningEvidence

definition validate_result_headers :: "SignatureHeader list \<Rightarrow> unit result" where
  "validate_result_headers headers =
     and_then (raise_unless (1 \<le> length headers \<and> length headers \<le> MAX_SIGNER_HEADERS)
       (ValueError ''signing result must contain between 1 and 16 headers'')) (\<lambda>_.
     raise_unless (distinct (map header_name headers))
       (ValueError ''signing result header names must be unique case-insensitively''))"

definition SigningResult_init :: "SignatureHeader list \<Rightarrow> SigningEvidence \<Rightarrow> SigningResult result" where
  "SigningResult_init headers evidence =
     and_then (validate_result_headers headers) (\<lambda>_.
       Inr \<lparr>result_headers = headers, result_evidence = evidence\<rparr>)"

record VerificationResult =
  verified :: bool
  verification_reason :: VerificationReason
  verification_evidence :: SigningEvidence

definition VerificationResult_init :: "bool \<Rightarrow> VerificationReason \<Rightarrow> SigningEvidence \<Rightarrow> VerificationResult result" where
  "VerificationResult_init v reason evidence =
     and_then (raise_unless (v = (reason = VALID)) (ValueError ''verification validity and reason disagree'')) (\<lambda>_.
       Inr \<lparr>verified = v, verification_reason = reason, verification_evidence = evidence\<rparr>)"

section \<open>Header ownership\<close>

text \<open>The bounded iteration of \<open>_normalize_header_sequence\<close>: the bound is checked when an item beyond it is
  reached, after the items before it.\<close>

fun normalize_header_sequence :: "string \<Rightarrow> nat \<Rightarrow> string list \<Rightarrow> string list result" where
  "normalize_header_sequence field_name room [] = Inr []"
| "normalize_header_sequence field_name 0 (v # vs) =
     Inl (SignerError (Configuration ''SIG_SIGNER_HEADERS_INVALID''
       (field_name @ '' exceeds its bounded item limit.'')))"
| "normalize_header_sequence field_name (Suc room) (v # vs) =
     (case validate_header_name v of
        Inl _ \<Rightarrow> Inl (SignerError (Configuration ''SIG_SIGNER_HEADERS_INVALID''
          (field_name @ '' contains an invalid HTTP header name.'')))
      | Inr name \<Rightarrow> and_then (normalize_header_sequence field_name room vs) (\<lambda>names. Inr (name # names)))"

definition validate_header_ownership :: "string list \<Rightarrow> string list \<Rightarrow> string list result" where
  "validate_header_ownership owned_headers user_header_names =
     and_then (normalize_header_sequence ''owned signer headers'' MAX_SIGNER_HEADERS owned_headers) (\<lambda>owned.
     and_then (normalize_header_sequence ''user headers'' MAX_USER_HEADERS user_header_names) (\<lambda>users.
     and_then (raise_unless (distinct owned)
       (SignerError (Configuration ''SIG_SIGNER_HEADER_INTERNAL_CONFLICT''
          ''Signer profile declares the same owned header more than once.''))) (\<lambda>_.
     and_then (raise_unless (set owned \<inter> set users = {})
       (SignerError (Configuration ''SIG_SIGNER_HEADER_CONFLICT''
          ''User-supplied value conflicts with a signer-owned signature header.''))) (\<lambda>_.
     and_then (raise_unless (set owned \<inter> HARNESS_REQUEST_HEADERS = {})
       (SignerError (Configuration ''SIG_SIGNER_HEADER_RESERVED''
          ''Signer-owned header conflicts with a harness-owned request header.''))) (\<lambda>_.
       Inr owned)))))"

section \<open>Secret handles\<close>

definition SECRET_FINGERPRINT_DOMAIN_SEPARATOR :: bytes where
  "SECRET_FINGERPRINT_DOMAIN_SEPARATOR = map of_char ''secret-fingerprint-v1'' @ [0]"

definition secret_fingerprint :: "bytes \<Rightarrow> string" where
  "secret_fingerprint material = ''sha256:'' @ hexdigest (sha256 (SECRET_FINGERPRINT_DOMAIN_SEPARATOR @ material))"

text \<open>A handle: whether it is closed, the fingerprint taken when it was resolved, and what its provider's
  \<open>load()\<close> returns or raises now.\<close>

record SecretHandle =
  handle_closed :: bool
  handle_fingerprint :: string
  provider_load :: "bytes result"

definition load_provider_safely :: "bytes result \<Rightarrow> bytes result" where
  "load_provider_safely load = (case load of
       Inr material \<Rightarrow> Inr material
     | Inl (SecretResolutionError code) \<Rightarrow> Inl (SecretResolutionError code)
     | Inl _ \<Rightarrow> Inl (SecretResolutionError ''SECRET_KEY_UNAVAILABLE''))"

definition use_with :: "SecretHandle \<Rightarrow> (bytes \<Rightarrow> 'a result) \<Rightarrow> 'a result" where
  "use_with h callback =
     (if handle_closed h then Inl (SecretResolutionError ''SECRET_KEY_UNAVAILABLE'')
      else and_then (load_provider_safely (provider_load h)) (\<lambda>material.
        if secret_fingerprint material \<noteq> handle_fingerprint h
        then Inl (SecretResolutionError ''SECRET_VALUE_CHANGED'')
        else case callback material of
               Inl _ \<Rightarrow> Inl (SecretResolutionError ''SECRET_CALLBACK_FAILED'')
             | Inr r \<Rightarrow> Inr r))"

end
