(* ===== verification/Signer_Protocol.thy ===== *)
theory Signer_Protocol
  imports Signing_Base
begin

text \<open>
  The \<open>Signer\<close> protocol of \<open>signatures/base.py\<close> as an interface, and the pieces the three built-in signers
  share: selection of the owned header, the check of key identifiers, digests under a rotation of keys and
  the comparison of all expected with all supplied digests.
\<close>

section \<open>Shared pieces\<close>

definition matching_headers :: "SignatureHeader list \<Rightarrow> string \<Rightarrow> SignatureHeader list result" where
  "matching_headers headers name =
     and_then (raise_unless (length headers \<le> MAX_SIGNER_HEADERS)
       (ValueError ''verification headers exceed the bounded signer-header limit'')) (\<lambda>_.
       Inr [h \<leftarrow> headers. header_name h = name])"

definition control_free :: "ustring \<Rightarrow> bool" where
  "control_free s = (\<not> list_ex (\<lambda>c. c < 32 \<or> c = 127) s)"

definition validate_key_id :: "ustring option \<Rightarrow> unit result" where
  "validate_key_id v = (case v of None \<Rightarrow> Inr ()
     | Some k \<Rightarrow>
         and_then (raise_unless (length k \<le> MAX_KEY_ID_LENGTH)
           (SignerError (Configuration ''SIG_KEY_ID_INVALID''
              ''Signer key ID exceeds the 128-character limit.''))) (\<lambda>_.
         raise_unless (control_free k)
           (SignerError (Configuration ''SIG_KEY_ID_INVALID''
              ''Signer key ID must not contain control characters.''))))"

text \<open>The nested comparison loops of \<open>verify\<close>: every pair is compared, and one match suffices.\<close>

definition any_match :: "bytes list \<Rightarrow> bytes list \<Rightarrow> bool" where
  "any_match expected supplied =
     foldl (\<lambda>valid e. foldl (\<lambda>valid s. e = s \<or> valid) valid supplied) False expected"

lemma any_match_inner: "foldl (\<lambda>valid s. e = s \<or> valid) b supplied \<longleftrightarrow> b \<or> e \<in> set supplied"
  by (induction supplied arbitrary: b) auto

lemma any_match_iff: "any_match expected supplied \<longleftrightarrow> set expected \<inter> set supplied \<noteq> {}"
proof -
  have "foldl (\<lambda>valid e. foldl (\<lambda>valid s. e = s \<or> valid) valid supplied) b expected \<longleftrightarrow>
      b \<or> set expected \<inter> set supplied \<noteq> {}" for b
    by (induction expected arbitrary: b) (auto simp: any_match_inner)
  then show ?thesis by (simp add: any_match_def)
qed

text \<open>The end of \<open>verify\<close>: the comparison and the result built from it.\<close>

definition verification_outcome :: "bytes list \<Rightarrow> bytes list \<Rightarrow> SigningEvidence \<Rightarrow> VerificationResult result" where
  "verification_outcome expected supplied evidence =
     (let valid = any_match expected supplied
      in VerificationResult_init valid (if valid then VALID else SIGNATURE_MISMATCH) evidence)"

lemma verification_init: "VerificationResult_init b r e = Inr v \<Longrightarrow> verified v = b \<and> verification_reason v = r"
  by (auto simp: VerificationResult_init_def result_simps)

lemma outcome_verified:
  "verification_outcome ex ds ev = Inr v \<Longrightarrow> verified v \<longleftrightarrow> set ex \<inter> set ds \<noteq> {}"
  by (simp add: verification_outcome_def Let_def any_match_iff[symmetric] verification_init)

lemma outcome_returns: "returns (verification_outcome ex ds ev)"
  by (simp add: verification_outcome_def Let_def VerificationResult_init_def)

lemma use_with_total:
  "use_with h (\<lambda>key. Inr (f key)) = Inr r \<Longrightarrow> \<exists>material. provider_load h = Inr material \<and>
     secret_fingerprint material = handle_fingerprint h \<and> \<not> handle_closed h \<and> r = f material"
  by (auto simp: use_with_def load_provider_safely_def result_simps split: if_splits sum.splits exn.splits)

lemma use_with_returns:
  "returns (use_with h (\<lambda>key. Inr (f key))) \<longleftrightarrow> returns (use_with h (\<lambda>key. Inr (g key)))"
  by (auto simp: use_with_def load_provider_safely_def split: sum.splits exn.splits)

text \<open>A handle that can be used: open, and its provider still returns the material that was fingerprinted.\<close>

definition usable :: "SecretHandle \<Rightarrow> bool" where
  "usable h \<longleftrightarrow> \<not> handle_closed h \<and>
     (\<exists>material. provider_load h = Inr material \<and> secret_fingerprint material = handle_fingerprint h)"

lemma use_with_usable: "usable h \<Longrightarrow> use_with h (\<lambda>key. Inr (f key)) = Inr (f (projr (provider_load h)))"
  by (auto simp: usable_def use_with_def load_provider_safely_def)

lemma sha256_text_ok [simp]: "sha256_pattern (''sha256:'' @ hexdigest (sha256 x))"
  using hexdigest_chars(1)[of "sha256 x"] by (simp add: sha256_pattern_def)

lemma usable_fingerprint: "usable h \<Longrightarrow> sha256_pattern (handle_fingerprint h)"
  using sha256_text_ok unfolding usable_def secret_fingerprint_def by metis

lemma signing_evidence_returns:
  assumes "identifier_pattern a" "identifier_pattern b" "identifier_pattern c" "sha256_pattern fp"
    and "SigningInput_post_init i = Inr i" "validate_key_id k = Inr ()"
  shows "returns (signing_evidence a b c i m fp k e)"
proof -
  have t: "SIGNED_INT64_MIN \<le> si_logical_time_ns i" "si_logical_time_ns i \<le> SIGNED_INT64_MAX"
    using assms(5) by (auto simp: SigningInput_post_init_def validate_logical_time_def result_simps)
  have k: "validate_evidence_key_id k = Inr ()"
    using assms(6) by (auto simp: validate_key_id_def validate_evidence_key_id_def control_free_def result_simps
        split: option.splits)
  have d: "sha256_pattern (sha256_digest x)" for x unfolding sha256_digest_def by (rule sha256_text_ok)
  show ?thesis
    using assms(1-4) t k d
    by (simp add: signing_evidence_def SigningEvidence_post_init_def validate_identifier_def validate_logical_time_def
        validate_sha256_digest_def validate_sha256_fingerprint_def)
qed

subsection \<open>Header names and values\<close>

lemma lower_char_idem [simp]: "lower_char (lower_char c) = lower_char c"
proof (cases "in_char_range CHR ''A'' CHR ''Z'' c")
  case True
  then have "of_char c + 32 < (256 :: nat)" "\<not> of_char c + 32 \<le> (90 :: nat)"
    by (auto simp: in_char_range_def less_eq_char_def)
  with True show ?thesis by (simp add: lower_char_def in_char_range_def less_eq_char_def)
qed (simp add: lower_char_def)

lemma casefold_idem [simp]: "casefold (casefold s) = casefold s"
  by (simp add: casefold_def)

lemma normalized_names:
  "normalize_header_sequence f n vs = Inr ns \<Longrightarrow> ns = map casefold vs"
  by (induction f n vs arbitrary: ns rule: normalize_header_sequence.induct)
    (auto simp: validate_header_name_def result_simps split: sum.splits)

lemma owned_names: "validate_header_ownership owned users = Inr ns \<Longrightarrow> ns = map casefold owned \<and> distinct ns"
  by (auto simp: validate_header_ownership_def result_simps dest: normalized_names)

lemma lower_char_token: "header_name_char c \<Longrightarrow> header_name_char (lower_char c)"
proof -
  assume c: "header_name_char c"
  show ?thesis
  proof (cases "in_char_range CHR ''A'' CHR ''Z'' c")
    case True
    then have "in_char_range CHR ''a'' CHR ''z'' (lower_char c)"
      by (auto simp: lower_char_def in_char_range_def less_eq_char_def)
    then show ?thesis by (simp add: header_name_char_def)
  qed (simp add: lower_char_def c)
qed

definition header_token :: "string \<Rightarrow> bool" where
  "header_token s \<longleftrightarrow> 1 \<le> length s \<and> length s \<le> MAX_HEADER_NAME_LENGTH \<and> list_all header_name_char s"

lemma casefold_token: "header_token s \<Longrightarrow> header_token (casefold s)"
  by (auto simp: header_token_def casefold_def list_all_iff lower_char_token)

lemma normalized_tokens:
  "normalize_header_sequence f n vs = Inr ns \<Longrightarrow> list_all header_token vs"
  by (induction f n vs arbitrary: ns rule: normalize_header_sequence.induct)
    (auto simp: validate_header_name_def header_token_def result_simps split: sum.splits)

lemma owned_tokens: "validate_header_ownership owned users = Inr ns \<Longrightarrow> list_all header_token ns"
proof -
  assume a: "validate_header_ownership owned users = Inr ns"
  then have "normalize_header_sequence ''owned signer headers'' MAX_SIGNER_HEADERS owned = Inr ns"
    by (auto simp: validate_header_ownership_def result_simps)
  from normalized_tokens[OF this] owned_names[OF a] show ?thesis
    by (auto simp: list_all_iff casefold_token)
qed

lemma header_init_fields:
  "SignatureHeader_init name v = Inr h \<Longrightarrow> header_name h = casefold name \<and> header_value h = map char_of v \<and>
     list_all (\<lambda>c. c < 128) v"
  by (auto simp: SignatureHeader_init_def validate_header_name_def validate_header_value_def result_simps)

lemma header_text [simp]: "map char_of (text_of s) = s"
  by (simp add: text_of_def comp_def)

lemma evidence_time:
  "signing_evidence a b c i m k d e = Inr ev \<Longrightarrow>
     SIGNED_INT64_MIN \<le> si_logical_time_ns i \<and> si_logical_time_ns i \<le> SIGNED_INT64_MAX"
  by (auto simp: signing_evidence_def SigningEvidence_post_init_def validate_logical_time_def result_simps)

lemma seconds_bound:
  assumes "SIGNED_INT64_MIN \<le> t" "t \<le> SIGNED_INT64_MAX"
  shows "\<bar>t div NANOSECONDS_PER_SECOND\<bar> < 10 ^ 19"
proof -
  have "SIGNED_INT64_MIN div NANOSECONDS_PER_SECOND \<le> t div NANOSECONDS_PER_SECOND"
    "t div NANOSECONDS_PER_SECOND \<le> SIGNED_INT64_MAX div NANOSECONDS_PER_SECOND"
    using assms by (simp_all add: zdiv_mono1 NANOSECONDS_PER_SECOND_def)
  then show ?thesis by (simp add: SIGNED_INT64_MIN_def SIGNED_INT64_MAX_def NANOSECONDS_PER_SECOND_def)
qed

lemma int_str_char: "c \<in> set (int_str i) \<Longrightarrow> decimal_char c \<or> c = CHR ''-''"
  using nat_str_digits by (auto simp: int_str_def list_all_iff split: if_splits)

lemma int_str_length: "\<bar>i\<bar> < 10 ^ 19 \<Longrightarrow> length (int_str i) \<le> 20"
  using nat_str_length[of "nat i" 19] nat_str_length[of "nat (- i)" 19]
  by (auto simp: int_str_def nat_less_iff)

lemma int_str_printable: "list_all (\<lambda>c. 32 \<le> c \<and> c < 127) (text_of (int_str i))"
proof -
  have "32 \<le> (of_char c :: nat) \<and> of_char c < (127 :: nat)" if "c \<in> set (int_str i)" for c
    using int_str_char[OF that] by (auto simp: decimal_char_def in_char_range_def less_eq_char_def)
  then show ?thesis by (auto simp: text_of_def list_all_iff)
qed

lemma header_init_returns:
  assumes "1 \<le> length name" "length name \<le> MAX_HEADER_NAME_LENGTH" "list_all header_name_char name"
    and "length v \<le> MAX_HEADER_VALUE_LENGTH" "list_all (\<lambda>c. 32 \<le> c \<and> c < 127) v"
  shows "returns (SignatureHeader_init name v)"
proof -
  have "list_all (\<lambda>c. c < 128) v" "\<not> list_ex (\<lambda>c. c < 32 \<or> c = 127) v"
    using assms(5) by (auto simp: list_all_iff list_ex_iff)
  with assms show ?thesis
    by (simp add: SignatureHeader_init_def validate_header_name_def validate_header_value_def)
qed

lemma join_length: "length (join_with c xs) \<le> sum_list (map (\<lambda>x. length x + 1) xs)"
  by (induction c xs rule: join_with.induct) simp_all

lemma set_join: "set (join_with c xs) \<subseteq> insert c (\<Union>x \<in> set xs. set x)"
  by (induction c xs rule: join_with.induct) auto

lemma int_str_plain: "CHR ''='' \<notin> set (int_str i)" "CHR '','' \<notin> set (int_str i)" "int_str i \<noteq> []"
proof -
  show "CHR ''='' \<notin> set (int_str i)" "CHR '','' \<notin> set (int_str i)"
    using int_str_char by (force simp: decimal_char_def in_char_range_def less_eq_char_def)+
  show "int_str i \<noteq> []" using nat_str_head[of "nat i"] by (auto simp: int_str_def)
qed

subsection \<open>A concrete key and input\<close>

definition sample_key :: bytes where "sample_key = [1, 2, 3]"

definition sample_handle :: SecretHandle where
  "sample_handle = \<lparr>handle_closed = False, handle_fingerprint = secret_fingerprint sample_key,
     provider_load = Inr sample_key\<rparr>"

definition sample_input :: SigningInput where
  "sample_input = \<lparr>si_body = [123, 125], si_event_id = [101, 49], si_logical_time_ns = 1700000000000000000\<rparr>"

lemma sample_handle_usable: "usable sample_handle"
  by (simp add: usable_def sample_handle_def)

lemma sample_input_ok: "SigningInput_post_init sample_input = Inr sample_input"
  by (simp add: SigningInput_post_init_def sample_input_def MAX_SIGNING_BODY_BYTES_def encode_bounded_text_def
      utf8_encode_def scalar_value_def utf8_char_def MAX_EVENT_ID_BYTES_def validate_logical_time_def
      SIGNED_INT64_MIN_def SIGNED_INT64_MAX_def)

section \<open>The interface\<close>

text \<open>
  A built signer \<open>s\<close> renders a canonical message, digests a message under its keys, signs and verifies.
  \<open>claim\<close> is what a set of headers asserts about an input: a reason to refuse it, or the message
  that was signed and the digests supplied for it. The laws are what the code of each signer promises:
  verification decides by comparing digests of the claimed message, and signing produces headers that claim
  exactly the canonical message and its digests.
\<close>

locale hmac_signer =
  fixes built :: "'s \<Rightarrow> bool"
    and canonical :: "'s \<Rightarrow> SigningInput \<Rightarrow> bytes result"
    and digests :: "'s \<Rightarrow> bytes \<Rightarrow> bytes list result"
    and claim :: "'s \<Rightarrow> SigningInput \<Rightarrow> SignatureHeader list \<Rightarrow> (VerificationReason + bytes \<times> bytes list) result"
    and sign :: "'s \<Rightarrow> SigningInput \<Rightarrow> SigningResult result"
    and verify :: "'s \<Rightarrow> SigningInput \<Rightarrow> SignatureHeader list \<Rightarrow> VerificationResult result"
  assumes refused: "claim s i hs = Inr (Inl reason) \<Longrightarrow> verify s i hs = Inr v \<Longrightarrow>
      \<not> verified v \<and> verification_reason v = reason"
    and decided: "claim s i hs = Inr (Inr (m, ds)) \<Longrightarrow> verify s i hs = Inr v \<Longrightarrow>
      \<exists>ex. digests s m = Inr ex \<and> (verified v \<longleftrightarrow> set ex \<inter> set ds \<noteq> {})"
    and undecided: "claim s i hs = Inl e \<Longrightarrow> \<not> returns (verify s i hs)"
    and sign_claims: "built s \<Longrightarrow> sign s i = Inr r \<Longrightarrow> \<exists>m ds. canonical s i = Inr m \<and> digests s m = Inr ds \<and>
      ds \<noteq> [] \<and> claim s i (result_headers r) = Inr (Inr (m, ds))"
    and sign_verify_returns: "built s \<Longrightarrow> sign s i = Inr r \<Longrightarrow> returns (verify s i (result_headers r))"
begin

lemma sign_then_verify:
  assumes "built s" "sign s i = Inr r"
  shows "\<exists>v. verify s i (result_headers r) = Inr v \<and> verified v"
proof -
  obtain v where v: "verify s i (result_headers r) = Inr v"
    using sign_verify_returns[OF assms] by (auto simp: returns_iff)
  obtain m ds where c: "digests s m = Inr ds" "ds \<noteq> []" "claim s i (result_headers r) = Inr (Inr (m, ds))"
    using sign_claims[OF assms] by blast
  with decided[OF c(3) v] have "verified v" by auto
  with v show ?thesis by blast
qed

lemma acceptance_needs_digest:
  assumes "verify s i hs = Inr v" "verified v"
  shows "\<exists>m ds ex d. claim s i hs = Inr (Inr (m, ds)) \<and> digests s m = Inr ex \<and> d \<in> set ex \<and> d \<in> set ds"
proof (cases "claim s i hs")
  case (Inl e)
  with undecided assms show ?thesis by (metis returns_simps(1))
next
  case (Inr c)
  show ?thesis
  proof (cases c)
    case (Inl reason)
    with Inr refused assms show ?thesis by blast
  next
    case (Inr p)
    with \<open>claim s i hs = Inr c\<close> decided[of s i hs "fst p" "snd p"] assms show ?thesis by force
  qed
qed

end

end
