(* ===== verification/Stripe_Signer.thy ===== *)
theory Stripe_Signer
  imports Signer_Protocol
begin

text \<open>
  The Stripe v1 signer, \<open>signatures/stripe.py\<close>: settings, key rotation, the timestamped canonical message, the
  header \<open>t=...,v1=...\<close> with its strict parser, signing and verification.
\<close>

definition STRIPE_V1_ADAPTER_ID :: string where "STRIPE_V1_ADAPTER_ID = ''stripe-v1''"
definition STRIPE_V1_ADAPTER_VERSION :: string where "STRIPE_V1_ADAPTER_VERSION = ''v1''"
definition STRIPE_V1_TEMPLATE_VERSION :: string where "STRIPE_V1_TEMPLATE_VERSION = ''stripe-v1-timestamp-dot-body-v1''"
definition STRIPE_SIGNATURE_HEADER :: string where "STRIPE_SIGNATURE_HEADER = ''stripe-signature''"
definition MAX_STRIPE_SIGNING_SECRETS :: nat where "MAX_STRIPE_SIGNING_SECRETS = 8"
definition MAX_STRIPE_HEADER_COMPONENTS :: nat where "MAX_STRIPE_HEADER_COMPONENTS = 32"
definition SHA256_DIGEST_BYTES :: nat where "SHA256_DIGEST_BYTES = 32"
definition SHA256_HEX_CHARACTERS :: nat where "SHA256_HEX_CHARACTERS = SHA256_DIGEST_BYTES * 2"

section \<open>Settings and construction\<close>

record StripeV1Settings =
  stripe_header_name :: string
  stripe_key_id :: "ustring option"
  stripe_additional_key_ids :: "ustring option list"

definition StripeV1Settings_post_init :: "StripeV1Settings \<Rightarrow> StripeV1Settings result" where
  "StripeV1Settings_post_init s =
     and_then (validate_header_ownership [stripe_header_name s] []) (\<lambda>normalized.
     and_then (validate_key_id (stripe_key_id s)) (\<lambda>_.
     and_then (raise_unless (\<not> length (stripe_additional_key_ids s) \<ge> MAX_STRIPE_SIGNING_SECRETS)
       (SignerError (Configuration ''SIG_STRIPE_KEY_COUNT_INVALID''
          ''Stripe v1 supports at most eight deterministic signing keys.''))) (\<lambda>_.
     and_then (for_each validate_key_id (stripe_additional_key_ids s)) (\<lambda>_.
       Inr (s\<lparr>stripe_header_name := normalized ! 0\<rparr>)))))"

definition StripeV1Settings_default :: "StripeV1Settings result" where
  "StripeV1Settings_default = StripeV1Settings_post_init
     \<lparr>stripe_header_name = STRIPE_SIGNATURE_HEADER, stripe_key_id = None, stripe_additional_key_ids = []\<rparr>"

record StripeV1Signer =
  stripe_secrets :: "SecretHandle list"
  stripe_settings :: StripeV1Settings

definition StripeV1Signer_init ::
    "SecretHandle \<Rightarrow> StripeV1Settings option \<Rightarrow> SecretHandle list \<Rightarrow> StripeV1Signer result" where
  "StripeV1Signer_init secret settings additional_secrets =
     (let secrets = secret # additional_secrets in
      and_then (raise_unless (length secrets \<le> MAX_STRIPE_SIGNING_SECRETS)
        (SignerError (Configuration ''SIG_STRIPE_KEY_COUNT_INVALID''
           ''Stripe v1 supports at most eight deterministic signing keys.''))) (\<lambda>_.
      and_then (case settings of None \<Rightarrow> StripeV1Settings_default | Some s \<Rightarrow> Inr s) (\<lambda>resolved.
      and_then (raise_unless (\<not> (stripe_additional_key_ids resolved \<noteq> [] \<and>
          length (stripe_additional_key_ids resolved) \<noteq> length additional_secrets))
        (SignerError (Configuration ''SIG_STRIPE_KEY_ID_COUNT_INVALID''
           ''Stripe v1 additional key IDs must align with additional signing keys.''))) (\<lambda>_.
      and_then (raise_unless (distinct (map handle_fingerprint secrets))
        (SignerError (Configuration ''SIG_STRIPE_DUPLICATE_KEY''
           ''Stripe v1 signing keys must have distinct fingerprints.''))) (\<lambda>_.
        Inr \<lparr>stripe_secrets = secrets, stripe_settings = resolved\<rparr>)))))"

definition stripe_owned_headers :: "StripeV1Signer \<Rightarrow> string list" where
  "stripe_owned_headers s = [stripe_header_name (stripe_settings s)]"

definition stripe_validate_user_headers :: "StripeV1Signer \<Rightarrow> string list \<Rightarrow> unit result" where
  "stripe_validate_user_headers s names =
     and_then (validate_header_ownership (stripe_owned_headers s) names) (\<lambda>_. Inr ())"

section \<open>Signing\<close>

definition stripe_canonical :: "int \<Rightarrow> bytes \<Rightarrow> bytes result" where
  "stripe_canonical timestamp body =
     (let rendered = map of_char (int_str timestamp) @ map of_char ''.'' @ body in
      and_then (raise_unless (length rendered \<le> MAX_SIGNING_INPUT_BYTES)
        (ValueError ''Stripe signing input exceeds the bounded byte limit'')) (\<lambda>_. Inr rendered))"

definition stripe_canonical_message :: "StripeV1Signer \<Rightarrow> SigningInput \<Rightarrow> bytes result" where
  "stripe_canonical_message s i =
     stripe_canonical (si_logical_time_ns i div NANOSECONDS_PER_SECOND) (si_body i)"

definition stripe_digests :: "StripeV1Signer \<Rightarrow> bytes \<Rightarrow> bytes list result" where
  "stripe_digests s message =
     for_each (\<lambda>secret. and_then (use_with secret (\<lambda>key. Inr (hmac_sha256 key message))) (\<lambda>digest.
       and_then (raise_unless (length digest = SHA256_DIGEST_BYTES) (SignerError Signing)) (\<lambda>_. Inr digest)))
       (stripe_secrets s)"

definition stripe_evidence :: "StripeV1Signer \<Rightarrow> SigningInput \<Rightarrow> bytes \<Rightarrow> SigningEvidence result" where
  "stripe_evidence s i message =
     signing_evidence STRIPE_V1_ADAPTER_ID STRIPE_V1_ADAPTER_VERSION STRIPE_V1_TEMPLATE_VERSION i message
       (handle_fingerprint (hd (stripe_secrets s))) (stripe_key_id (stripe_settings s)) HEX"

definition stripe_header_text :: "int \<Rightarrow> bytes list \<Rightarrow> string" where
  "stripe_header_text timestamp signatures =
     join_with CHR '','' ((''t='' @ int_str timestamp) # map (\<lambda>d. ''v1='' @ hexdigest d) signatures)"

definition stripe_sign :: "StripeV1Signer \<Rightarrow> SigningInput \<Rightarrow> SigningResult result" where
  "stripe_sign s i =
     and_then (stripe_canonical_message s i) (\<lambda>message.
     let timestamp = si_logical_time_ns i div NANOSECONDS_PER_SECOND in
     and_then (stripe_digests s message) (\<lambda>signatures.
     let v = stripe_header_text timestamp signatures in
     and_then (raise_unless (length v \<le> MAX_HEADER_VALUE_LENGTH) (SignerError Signing)) (\<lambda>_.
     and_then (SignatureHeader_init (stripe_header_name (stripe_settings s)) (text_of v)) (\<lambda>header.
     and_then (stripe_evidence s i message) (\<lambda>evidence.
       SigningResult_init [header] evidence)))))"

section \<open>Parsing and verification\<close>

text \<open>The pattern \<open>[A-Za-z][A-Za-z0-9_-]{0,31}\<close>.\<close>

definition letter_char :: "char \<Rightarrow> bool" where
  "letter_char c = (in_char_range CHR ''A'' CHR ''Z'' c \<or> in_char_range CHR ''a'' CHR ''z'' c)"

definition scheme_pattern :: "string \<Rightarrow> bool" where
  "scheme_pattern s = (case s of [] \<Rightarrow> False
     | c # cs \<Rightarrow> letter_char c \<and> length cs \<le> 31 \<and>
         list_all (\<lambda>d. letter_char d \<or> decimal_char d \<or> d \<in> set ''_-'') cs)"

definition lower_hex_signature :: "string \<Rightarrow> bool" where
  "lower_hex_signature s = (length s = 64 \<and> list_all lower_hex_char s)"

text \<open>The loop of \<open>_parse_header\<close> over the components.\<close>

fun parse_components :: "int list \<Rightarrow> bytes list \<Rightarrow> string list \<Rightarrow> (int list \<times> bytes list) option" where
  "parse_components timestamps signatures [] = Some (timestamps, signatures)"
| "parse_components timestamps signatures (component # rest) =
     (if count_list component CHR ''='' \<noteq> 1 then None
      else let scheme = takeWhile (\<lambda>c. c \<noteq> CHR ''='') component;
               encoded = tl (dropWhile (\<lambda>c. c \<noteq> CHR ''='') component)
           in if \<not> scheme_pattern scheme \<or> encoded = [] then None
              else if scheme = ''t''
              then if \<not> canonical_integer encoded then None
                   else if int_str (int_of_text encoded) \<noteq> encoded then None
                   else parse_components (timestamps @ [int_of_text encoded]) signatures rest
              else if scheme = ''v1''
              then if length signatures \<ge> MAX_STRIPE_SIGNING_SECRETS \<or> \<not> lower_hex_signature encoded then None
                   else parse_components timestamps (signatures @ [fromhex encoded]) rest
              else if length encoded > SHA256_HEX_CHARACTERS \<or>
                     list_ex (\<lambda>c. of_char c < (33 :: nat) \<or> of_char c = (127 :: nat)) encoded then None
              else parse_components timestamps signatures rest)"

definition stripe_parse_header :: "string \<Rightarrow> (int \<times> bytes list) option" where
  "stripe_parse_header v =
     (if v = [] then None
      else let components = split_on CHR '','' v
           in if \<not> (2 \<le> length components \<and> length components \<le> MAX_STRIPE_HEADER_COMPONENTS) then None
              else case parse_components [] [] components of
                     None \<Rightarrow> None
                   | Some (timestamps, signatures) \<Rightarrow>
                       if length timestamps \<noteq> 1 \<or> signatures = [] then None
                       else Some (timestamps ! 0, signatures))"

definition stripe_verify ::
    "StripeV1Signer \<Rightarrow> SigningInput \<Rightarrow> SignatureHeader list \<Rightarrow> VerificationResult result" where
  "stripe_verify s i headers =
     and_then (stripe_canonical_message s i) (\<lambda>default_canonical.
     and_then (stripe_evidence s i default_canonical) (\<lambda>default_evidence.
     and_then (matching_headers headers (stripe_header_name (stripe_settings s))) (\<lambda>matching.
     if matching = [] then VerificationResult_init False MISSING_HEADER default_evidence
     else if length matching \<noteq> 1 then VerificationResult_init False DUPLICATE_HEADER default_evidence
     else case stripe_parse_header (header_value (matching ! 0)) of
            None \<Rightarrow> VerificationResult_init False MALFORMED_HEADER default_evidence
          | Some (timestamp, supplied) \<Rightarrow>
              and_then (stripe_canonical timestamp (si_body i)) (\<lambda>message.
              and_then (stripe_evidence s i message) (\<lambda>evidence.
              and_then (stripe_digests s message) (\<lambda>expected.
                verification_outcome expected supplied evidence))))))"

section \<open>The parser reads what the signer writes\<close>

lemma parse_signatures:
  assumes "list_all (\<lambda>d. length d = 32) ds" "length acc + length ds \<le> 8"
  shows "parse_components ts acc (map (\<lambda>d. ''v1='' @ hexdigest d) ds) = Some (ts, acc @ ds)"
  using assms
proof (induction ds arbitrary: acc)
  case (Cons d ds)
  have "scheme_pattern ''v1''" by code_simp
  moreover have "hexdigest d \<noteq> []" using Cons.prems(1) by (auto simp flip: length_0_conv)
  moreover have "lower_hex_signature (hexdigest d)"
    using Cons.prems(1) hexdigest_chars(1)[of d] by (simp add: lower_hex_signature_def)
  moreover have "parse_components ts (acc @ [d]) (map (\<lambda>d. ''v1='' @ hexdigest d) ds) = Some (ts, (acc @ [d]) @ ds)"
    using Cons.prems by (intro Cons.IH) simp_all
  ultimately show ?case
    using Cons.prems(2) hexdigest_chars(3)[of d]
    by (simp add: Let_def count_list_0_iff fromhex_hexdigest MAX_STRIPE_SIGNING_SECRETS_def)
qed simp

lemma parse_timestamp:
  assumes "\<bar>t\<bar> < 10 ^ 19"
  shows "parse_components [] [] ((''t='' @ int_str t) # rest) = parse_components [t] [] rest"
proof -
  have "scheme_pattern ''t''" by code_simp
  then show ?thesis using canonical_int_str[OF assms] int_str_plain[of t]
    by (simp add: Let_def count_list_0_iff int_of_int_str)
qed

lemma stripe_parse_text:
  assumes "\<bar>t\<bar> < 10 ^ 19" "list_all (\<lambda>d. length d = 32) ds" "ds \<noteq> []" "length ds \<le> 8"
  shows "stripe_parse_header (stripe_header_text t ds) = Some (t, ds)"
proof -
  let ?cs = "(''t='' @ int_str t) # map (\<lambda>d. ''v1='' @ hexdigest d) ds"
  have "split_on CHR '','' (stripe_header_text t ds) = ?cs"
    unfolding stripe_header_text_def
    by (rule split_on_join) (auto simp: int_str_plain hexdigest_chars)
  moreover have "stripe_header_text t ds \<noteq> []"
    using assms(3) by (cases ds) (simp_all add: stripe_header_text_def)
  moreover have "2 \<le> length ?cs" using assms(3) by (cases ds) simp_all
  moreover have "parse_components [] [] ?cs = Some ([t], ds)"
    using parse_signatures[of ds "[]" "[t]"] assms unfolding parse_timestamp[OF assms(1)] by simp
  ultimately show ?thesis
    using assms(3,4) by (simp add: stripe_parse_header_def MAX_STRIPE_HEADER_COMPONENTS_def)
qed

section \<open>The signer meets the interface\<close>

text \<open>A signer as the code builds it: its constructor returned, on settings that passed their checks.\<close>

definition stripe_built :: "StripeV1Signer \<Rightarrow> bool" where
  "stripe_built s \<longleftrightarrow> (\<exists>secret settings additional. StripeV1Signer_init secret settings additional = Inr s \<and>
     (case settings of None \<Rightarrow> True | Some st \<Rightarrow> \<exists>st0. StripeV1Settings_post_init st0 = Inr st))"

lemma stripe_settings_name: "StripeV1Settings_post_init st0 = Inr st \<Longrightarrow> casefold (stripe_header_name st) = stripe_header_name st"
  by (auto simp: StripeV1Settings_post_init_def result_simps dest: owned_names)

lemma stripe_built_facts:
  assumes "stripe_built s"
  shows "stripe_secrets s \<noteq> []" "length (stripe_secrets s) \<le> 8"
    "casefold (stripe_header_name (stripe_settings s)) = stripe_header_name (stripe_settings s)"
proof -
  obtain secret settings additional resolved where i: "length (secret # additional) \<le> MAX_STRIPE_SIGNING_SECRETS"
      "(case settings of None \<Rightarrow> StripeV1Settings_default | Some s \<Rightarrow> Inr s) = Inr resolved"
      "s = \<lparr>stripe_secrets = secret # additional, stripe_settings = resolved\<rparr>"
      "case settings of None \<Rightarrow> True | Some st \<Rightarrow> \<exists>st0. StripeV1Settings_post_init st0 = Inr st"
    using assms by (auto simp: stripe_built_def StripeV1Signer_init_def Let_def result_simps)
  then show "stripe_secrets s \<noteq> []" "length (stripe_secrets s) \<le> 8"
    by (simp_all add: MAX_STRIPE_SIGNING_SECRETS_def)
  show "casefold (stripe_header_name (stripe_settings s)) = stripe_header_name (stripe_settings s)"
    using i(2,3,4) by (auto simp: StripeV1Settings_default_def dest: stripe_settings_name split: option.splits)
qed

definition stripe_claim ::
    "StripeV1Signer \<Rightarrow> SigningInput \<Rightarrow> SignatureHeader list \<Rightarrow> (VerificationReason + bytes \<times> bytes list) result" where
  "stripe_claim s i headers =
     and_then (matching_headers headers (stripe_header_name (stripe_settings s))) (\<lambda>matching.
     if matching = [] then Inr (Inl MISSING_HEADER)
     else if length matching \<noteq> 1 then Inr (Inl DUPLICATE_HEADER)
     else case stripe_parse_header (header_value (matching ! 0)) of
            None \<Rightarrow> Inr (Inl MALFORMED_HEADER)
          | Some (timestamp, supplied) \<Rightarrow>
              and_then (stripe_canonical timestamp (si_body i)) (\<lambda>message. Inr (Inr (message, supplied))))"

lemma stripe_digests_length:
  assumes "stripe_digests s m = Inr ds"
  shows "length ds = length (stripe_secrets s)" "list_all (\<lambda>d. length d = 32) ds"
proof -
  have all: "list_all2 (\<lambda>secret d. and_then (use_with secret (\<lambda>key. Inr (hmac_sha256 key m))) (\<lambda>digest.
       and_then (raise_unless (length digest = SHA256_DIGEST_BYTES) (SignerError Signing)) (\<lambda>_. Inr digest)) = Inr d)
      (stripe_secrets s) ds"
    using assms by (simp add: stripe_digests_def for_each_eq_Inr)
  then show "length ds = length (stripe_secrets s)" by (simp add: list_all2_lengthD)
  show "list_all (\<lambda>d. length d = 32) ds"
    using all by (induction rule: list_all2_induct) (auto simp: result_simps SHA256_DIGEST_BYTES_def)
qed

lemma stripe_sign_parts:
  assumes "stripe_sign s i = Inr r"
  obtains m ds h ev where "stripe_canonical_message s i = Inr m" "stripe_digests s m = Inr ds"
    "SignatureHeader_init (stripe_header_name (stripe_settings s))
       (text_of (stripe_header_text (si_logical_time_ns i div NANOSECONDS_PER_SECOND) ds)) = Inr h"
    "stripe_evidence s i m = Inr ev" "result_headers r = [h]"
  using assms by (auto simp: stripe_sign_def Let_def result_simps SigningResult_init_def)

lemma stripe_sign_claim:
  assumes "stripe_built s" "stripe_sign s i = Inr r"
  obtains m ds ev where "stripe_canonical_message s i = Inr m" "stripe_digests s m = Inr ds" "ds \<noteq> []"
    "stripe_evidence s i m = Inr ev"
    "matching_headers (result_headers r) (stripe_header_name (stripe_settings s)) = Inr (result_headers r)"
    "length (result_headers r) = 1"
    "stripe_parse_header (header_value (result_headers r ! 0)) =
       Some (si_logical_time_ns i div NANOSECONDS_PER_SECOND, ds)"
proof -
  obtain m ds h ev where p: "stripe_canonical_message s i = Inr m" "stripe_digests s m = Inr ds"
      "SignatureHeader_init (stripe_header_name (stripe_settings s))
         (text_of (stripe_header_text (si_logical_time_ns i div NANOSECONDS_PER_SECOND) ds)) = Inr h"
      "stripe_evidence s i m = Inr ev" "result_headers r = [h]"
    by (rule stripe_sign_parts[OF assms(2)])
  note b = stripe_built_facts[OF assms(1)]
  have h: "header_name h = stripe_header_name (stripe_settings s)"
      "header_value h = stripe_header_text (si_logical_time_ns i div NANOSECONDS_PER_SECOND) ds"
    using header_init_fields[OF p(3)] b(3) by simp_all
  have "ds \<noteq> []" "length ds \<le> 8" "list_all (\<lambda>d. length d = 32) ds"
    using stripe_digests_length[OF p(2)] b(1,2) by auto
  moreover have "\<bar>si_logical_time_ns i div NANOSECONDS_PER_SECOND\<bar> < 10 ^ 19"
    using evidence_time p(4) seconds_bound unfolding stripe_evidence_def by blast
  ultimately show thesis
    using that p h stripe_parse_text by (simp add: matching_headers_def MAX_SIGNER_HEADERS_def)
qed

interpretation stripe: hmac_signer stripe_built stripe_canonical_message stripe_digests stripe_claim
  stripe_sign stripe_verify
proof unfold_locales
  fix s i hs reason v
  assume "stripe_claim s i hs = Inr (Inl reason)" "stripe_verify s i hs = Inr v"
  then show "\<not> verified v \<and> verification_reason v = reason"
    by (auto simp: stripe_claim_def stripe_verify_def result_simps dest: verification_init split: if_splits option.splits)
next
  fix s i hs m ds v
  assume "stripe_claim s i hs = Inr (Inr (m, ds))" "stripe_verify s i hs = Inr v"
  then show "\<exists>ex. stripe_digests s m = Inr ex \<and> (verified v \<longleftrightarrow> set ex \<inter> set ds \<noteq> {})"
    by (auto simp: stripe_claim_def stripe_verify_def result_simps outcome_verified split: if_splits option.splits)
next
  fix s i hs e
  assume "stripe_claim s i hs = Inl e"
  then show "\<not> returns (stripe_verify s i hs)"
    by (auto simp: stripe_claim_def stripe_verify_def result_simps returns_iff split: if_splits option.splits)
next
  fix s i r
  assume "stripe_built s" "stripe_sign s i = Inr r"
  then obtain m ds ev where c: "stripe_canonical_message s i = Inr m" "stripe_digests s m = Inr ds" "ds \<noteq> []"
    "stripe_evidence s i m = Inr ev"
    "matching_headers (result_headers r) (stripe_header_name (stripe_settings s)) = Inr (result_headers r)"
    "length (result_headers r) = 1"
    "stripe_parse_header (header_value (result_headers r ! 0)) =
       Some (si_logical_time_ns i div NANOSECONDS_PER_SECOND, ds)" by (rule stripe_sign_claim)
  have ne: "result_headers r \<noteq> []" using c(6) by auto
  have m: "stripe_canonical (si_logical_time_ns i div NANOSECONDS_PER_SECOND) (si_body i) = Inr m"
    using c(1) by (simp add: stripe_canonical_message_def)
  show "\<exists>m ds. stripe_canonical_message s i = Inr m \<and> stripe_digests s m = Inr ds \<and> ds \<noteq> [] \<and>
      stripe_claim s i (result_headers r) = Inr (Inr (m, ds))"
    using c m ne by (simp add: stripe_claim_def)
  show "returns (stripe_verify s i (result_headers r))"
    using c m ne by (simp add: stripe_verify_def outcome_returns)
qed

section \<open>Signing succeeds\<close>

lemma stripe_settings_token: "StripeV1Settings_post_init st0 = Inr st \<Longrightarrow>
    header_token (stripe_header_name st) \<and> validate_key_id (stripe_key_id st) = Inr ()"
proof -
  assume "StripeV1Settings_post_init st0 = Inr st"
  then obtain ns where ns: "validate_header_ownership [stripe_header_name st0] [] = Inr ns"
      "validate_key_id (stripe_key_id st) = Inr ()" "stripe_header_name st = ns ! 0"
    by (auto simp: StripeV1Settings_post_init_def result_simps)
  with owned_tokens[OF ns(1)] owned_names[OF ns(1)] show ?thesis by simp
qed

lemma stripe_built_settings:
  assumes "stripe_built s"
  shows "header_token (stripe_header_name (stripe_settings s)) \<and> validate_key_id (stripe_key_id (stripe_settings s)) = Inr ()"
proof -
  obtain settings resolved where
      "(case settings of None \<Rightarrow> StripeV1Settings_default | Some s \<Rightarrow> Inr s) = Inr resolved" "stripe_settings s = resolved"
      "case settings of None \<Rightarrow> True | Some st \<Rightarrow> \<exists>st0. StripeV1Settings_post_init st0 = Inr st"
    using assms by (auto simp: stripe_built_def StripeV1Signer_init_def Let_def result_simps)
  then show ?thesis
    by (auto simp: StripeV1Settings_default_def dest: stripe_settings_token split: option.splits)
qed

lemma stripe_digests_usable:
  assumes "list_all usable (stripe_secrets s)"
  shows "stripe_digests s m = Inr (map (\<lambda>h. hmac_sha256 (projr (provider_load h)) m) (stripe_secrets s))"
proof -
  have "for_each (\<lambda>secret. and_then (use_with secret (\<lambda>key. Inr (hmac_sha256 key m))) (\<lambda>digest.
       and_then (raise_unless (length digest = SHA256_DIGEST_BYTES) (SignerError Signing)) (\<lambda>_. Inr digest))) hs =
      Inr (map (\<lambda>h. hmac_sha256 (projr (provider_load h)) m) hs)" if "list_all usable hs" for hs
    using that by (induction hs) (simp_all add: use_with_usable SHA256_DIGEST_BYTES_def)
  then show ?thesis using assms by (simp add: stripe_digests_def)
qed

lemma stripe_text_length:
  assumes "\<bar>t\<bar> < 10 ^ 19" "list_all (\<lambda>d. length d = 32) ds" "length ds \<le> 8"
  shows "length (stripe_header_text t ds) \<le> MAX_HEADER_VALUE_LENGTH"
proof -
  have "sum_list (map (\<lambda>d. length (''v1='' @ hexdigest d) + 1) ds) = 68 * length ds"
    using assms(2) by (induction ds) simp_all
  then have "sum_list (map (\<lambda>x. length x + 1) ((''t='' @ int_str t) # map (\<lambda>d. ''v1='' @ hexdigest d) ds)) \<le> 567"
    using int_str_length[OF assms(1)] assms(3) by (simp add: comp_def)
  with join_length[of "CHR '',''" "(''t='' @ int_str t) # map (\<lambda>d. ''v1='' @ hexdigest d) ds"] show ?thesis
    unfolding stripe_header_text_def MAX_HEADER_VALUE_LENGTH_def by linarith
qed

lemma hex_printable: "c \<in> set (hexdigest d) \<Longrightarrow> 32 \<le> (of_char c :: nat) \<and> of_char c < (127 :: nat)"
  using hexdigest_chars(1)[of d]
  by (auto simp: list_all_iff lower_hex_char_def in_char_range_def less_eq_char_def dest!: bspec)

lemma stripe_text_printable: "list_all (\<lambda>c. 32 \<le> c \<and> c < 127) (text_of (stripe_header_text t ds))"
proof -
  have "32 \<le> (of_char c :: nat) \<and> of_char c < (127 :: nat)" if c: "c \<in> set (stripe_header_text t ds)" for c
  proof -
    have "c \<in> insert CHR '','' (\<Union>x \<in> set ((''t='' @ int_str t) # map (\<lambda>d. ''v1='' @ hexdigest d) ds). set x)"
      using c set_join unfolding stripe_header_text_def by blast
    then consider "c \<in> set '',t=v1''" | "c \<in> set (int_str t)" | d where "c \<in> set (hexdigest d)"
      by (auto split: if_splits)
    then show ?thesis
    proof cases
      case 2
      then show ?thesis using int_str_printable[of t] by (auto simp: text_of_def list_all_iff)
    next
      case 3
      then show ?thesis by (rule hex_printable)
    qed auto
  qed
  then show ?thesis by (auto simp: text_of_def list_all_iff)
qed

lemma stripe_sign_returns:
  assumes "stripe_built s" "list_all usable (stripe_secrets s)" "SigningInput_post_init i = Inr i"
  shows "returns (stripe_sign s i)"
proof -
  let ?t = "si_logical_time_ns i div NANOSECONDS_PER_SECOND"
  have time: "\<bar>?t\<bar> < 10 ^ 19" and body: "length (si_body i) \<le> MAX_SIGNING_BODY_BYTES"
    using assms(3) seconds_bound by (auto simp: SigningInput_post_init_def validate_logical_time_def result_simps)
  obtain m where m: "stripe_canonical_message s i = Inr m"
    using int_str_length[OF time] body
    by (auto simp: stripe_canonical_message_def stripe_canonical_def Let_def MAX_SIGNING_INPUT_BYTES_def raise_unless_def)
  obtain ds where ds: "stripe_digests s m = Inr ds" using stripe_digests_usable[OF assms(2)] by blast
  note len = stripe_text_length[OF time stripe_digests_length(2)[OF ds]]
  have l: "length ds \<le> 8" using stripe_digests_length(1)[OF ds] stripe_built_facts(2)[OF assms(1)] by simp
  have "returns (SignatureHeader_init (stripe_header_name (stripe_settings s)) (text_of (stripe_header_text ?t ds)))"
    using stripe_built_settings[OF assms(1)] len[OF l] stripe_text_printable[of ?t ds]
    by (intro header_init_returns) (simp_all add: header_token_def text_of_def)
  moreover have "usable (hd (stripe_secrets s))"
    using assms(2) stripe_built_facts(1)[OF assms(1)] by (cases "stripe_secrets s") simp_all
  moreover have "identifier_pattern STRIPE_V1_ADAPTER_ID" "identifier_pattern STRIPE_V1_ADAPTER_VERSION"
    "identifier_pattern STRIPE_V1_TEMPLATE_VERSION" by code_simp+
  ultimately have "returns (stripe_evidence s i m)"
    using signing_evidence_returns assms(3) stripe_built_settings[OF assms(1)] usable_fingerprint
    unfolding stripe_evidence_def by blast
  with \<open>returns (SignatureHeader_init _ _)\<close> m ds len[OF l] show ?thesis
    by (auto simp: stripe_sign_def Let_def returns_iff SigningResult_init_def validate_result_headers_def
        MAX_SIGNER_HEADERS_def)
qed

section \<open>Properties\<close>

text \<open>C19. The Stripe signer signs every valid input, and what it signs it verifies. A signer that its
  constructor built on checked settings, with usable keys, signs every signing input that passes its checks,
  and verification of the produced headers over that input returns and is valid.\<close>

theorem stripe_round_trip:
  assumes "stripe_built s" "list_all usable (stripe_secrets s)" "SigningInput_post_init i = Inr i"
  shows "\<exists>r v. stripe_sign s i = Inr r \<and> stripe_verify s i (result_headers r) = Inr v \<and> verified v"
proof -
  obtain r where r: "stripe_sign s i = Inr r" using stripe_sign_returns[OF assms] by (auto simp: returns_iff)
  with stripe.sign_then_verify[OF assms(1) r] show ?thesis by blast
qed

text \<open>C20. A header is accepted only for the body and timestamp it was signed for. When verification
  accepts, exactly one header has the signer's name, it parses to a timestamp and digests, and one of these
  digests is the HMAC-SHA256 of that timestamp, a dot and the exact body under the material of one of the
  signer's keys, which still has the fingerprint it was resolved with.\<close>

theorem stripe_accepts_only_signed:
  assumes "stripe_verify s i headers = Inr v" "verified v"
  shows "\<exists>h timestamp supplied secret material.
    [h \<leftarrow> headers. header_name h = stripe_header_name (stripe_settings s)] = [h] \<and>
    stripe_parse_header (header_value h) = Some (timestamp, supplied) \<and>
    secret \<in> set (stripe_secrets s) \<and> provider_load secret = Inr material \<and>
    secret_fingerprint material = handle_fingerprint secret \<and>
    hmac_sha256 material (map of_char (int_str timestamp) @ map of_char ''.'' @ si_body i) \<in> set supplied"
proof -
  obtain m ds ex d where c: "stripe_claim s i headers = Inr (Inr (m, ds))" "stripe_digests s m = Inr ex"
      "d \<in> set ex" "d \<in> set ds"
    using stripe.acceptance_needs_digest[OF assms] by blast
  obtain h t where h: "[h \<leftarrow> headers. header_name h = stripe_header_name (stripe_settings s)] = [h]"
      "stripe_parse_header (header_value h) = Some (t, ds)"
      "m = map of_char (int_str t) @ map of_char ''.'' @ si_body i"
    using c(1) by (auto simp: stripe_claim_def matching_headers_def stripe_canonical_def Let_def result_simps
        length_Suc_conv split: if_splits option.splits)
  obtain secret where "secret \<in> set (stripe_secrets s)" "use_with secret (\<lambda>key. Inr (hmac_sha256 key m)) = Inr d"
    using c(2,3) unfolding stripe_digests_def for_each_eq_Inr
    by (auto simp: list_all2_conv_all_nth in_set_conv_nth result_simps) (metis nth_mem)
  moreover from use_with_total[OF this(2)] obtain material where "provider_load secret = Inr material"
      "secret_fingerprint material = handle_fingerprint secret" "d = hmac_sha256 material m" by blast
  ultimately show ?thesis using h c(4) by metis
qed

lemma stripe_init_secrets: "StripeV1Signer_init secret st additional = Inr s \<Longrightarrow> stripe_secrets s = secret # additional"
  by (auto simp: StripeV1Signer_init_def Let_def result_simps)

definition sample_stripe :: StripeV1Signer where
  "sample_stripe = projr (StripeV1Signer_init sample_handle None [])"

lemma sample_stripe_init: "StripeV1Signer_init sample_handle None [] = Inr sample_stripe"
proof -
  have "returns StripeV1Settings_default" by code_simp
  then have "returns (StripeV1Signer_init sample_handle None [])"
    by (auto simp: StripeV1Signer_init_def returns_iff StripeV1Settings_default_def StripeV1Settings_post_init_def
        MAX_STRIPE_SIGNING_SECRETS_def result_simps)
  then show ?thesis by (auto simp: sample_stripe_def returns_iff)
qed

lemma sample_stripe_ok: "stripe_built sample_stripe" "list_all usable (stripe_secrets sample_stripe)"
proof -
  show "stripe_built sample_stripe"
    unfolding stripe_built_def using sample_stripe_init by force
  have "stripe_secrets sample_stripe = [sample_handle]"
    by (rule stripe_init_secrets[OF sample_stripe_init])
  then show "list_all usable (stripe_secrets sample_stripe)" by (simp add: sample_handle_usable)
qed

theorem stripe_round_trip_witness:
  "\<exists>r v. stripe_sign sample_stripe sample_input = Inr r \<and>
     stripe_verify sample_stripe sample_input (result_headers r) = Inr v \<and> verified v"
  using stripe_round_trip[OF sample_stripe_ok sample_input_ok] .

theorem stripe_accepts_only_signed_witness:
  "\<exists>r h timestamp supplied material. stripe_sign sample_stripe sample_input = Inr r \<and>
     [h \<leftarrow> result_headers r. header_name h = stripe_header_name (stripe_settings sample_stripe)] = [h] \<and>
     stripe_parse_header (header_value h) = Some (timestamp, supplied) \<and>
     hmac_sha256 material (map of_char (int_str timestamp) @ map of_char ''.'' @ si_body sample_input) \<in> set supplied"
proof -
  obtain r where r: "stripe_sign sample_stripe sample_input = Inr r"
    using stripe_sign_returns[OF sample_stripe_ok sample_input_ok] by (auto simp: returns_iff)
  obtain v where v: "stripe_verify sample_stripe sample_input (result_headers r) = Inr v" "verified v"
    using stripe.sign_then_verify[OF sample_stripe_ok(1) r] by blast
  from stripe_accepts_only_signed[OF v] r show ?thesis by blast
qed

end
