(* ===== verification/Standard_Webhooks_Signer.thy ===== *)
theory Standard_Webhooks_Signer
  imports Signer_Protocol
begin

text \<open>
  The Standard Webhooks signer, \<open>signatures/standard_webhooks.py\<close>: base64 secrets with the \<open>whsec_\<close> prefix, the
  message \<open>id.timestamp.body\<close>, the three owned headers, signing under rotated keys and verification.
\<close>

definition STANDARD_WEBHOOKS_ADAPTER_ID :: string where "STANDARD_WEBHOOKS_ADAPTER_ID = ''standard-webhooks-hmac''"
definition STANDARD_WEBHOOKS_ADAPTER_VERSION :: string where "STANDARD_WEBHOOKS_ADAPTER_VERSION = ''v1''"
definition STANDARD_WEBHOOKS_TEMPLATE_VERSION :: string where
  "STANDARD_WEBHOOKS_TEMPLATE_VERSION = ''standard-webhooks-id-timestamp-body-v1''"
definition WEBHOOK_ID_HEADER :: string where "WEBHOOK_ID_HEADER = ''webhook-id''"
definition WEBHOOK_TIMESTAMP_HEADER :: string where "WEBHOOK_TIMESTAMP_HEADER = ''webhook-timestamp''"
definition WEBHOOK_SIGNATURE_HEADER :: string where "WEBHOOK_SIGNATURE_HEADER = ''webhook-signature''"
definition MAX_STANDARD_WEBHOOKS_SIGNING_SECRETS :: nat where "MAX_STANDARD_WEBHOOKS_SIGNING_SECRETS = 8"
definition MAX_SIGNATURE_COMPONENTS :: nat where "MAX_SIGNATURE_COMPONENTS = 16"

section \<open>Settings and construction\<close>

definition swh_validate_key_id :: "ustring option \<Rightarrow> unit result" where
  "swh_validate_key_id v = (case v of None \<Rightarrow> Inr ()
     | Some k \<Rightarrow> raise_unless (\<not> (length k > MAX_KEY_ID_LENGTH \<or> \<not> control_free k))
         (SignerError (Configuration ''SIG_KEY_ID_INVALID'' ''Signer key ID is invalid.'')))"

record StandardWebhooksSettings =
  swh_header_name :: string
  swh_key_id :: "ustring option"
  swh_additional_key_ids :: "ustring option list"

definition StandardWebhooksSettings_post_init :: "StandardWebhooksSettings \<Rightarrow> StandardWebhooksSettings result" where
  "StandardWebhooksSettings_post_init s =
     and_then (validate_header_ownership [WEBHOOK_ID_HEADER, WEBHOOK_TIMESTAMP_HEADER, swh_header_name s] []) (\<lambda>normalized.
     and_then (swh_validate_key_id (swh_key_id s)) (\<lambda>_.
     and_then (raise_unless (\<not> length (swh_additional_key_ids s) \<ge> MAX_STANDARD_WEBHOOKS_SIGNING_SECRETS)
       (SignerError (Configuration ''SIG_STANDARD_WEBHOOKS_KEY_COUNT_INVALID''
          ''Standard Webhooks supports at most eight deterministic signing keys.''))) (\<lambda>_.
     and_then (for_each swh_validate_key_id (swh_additional_key_ids s)) (\<lambda>_.
       Inr (s\<lparr>swh_header_name := normalized ! 2\<rparr>)))))"

definition StandardWebhooksSettings_default :: "StandardWebhooksSettings result" where
  "StandardWebhooksSettings_default = StandardWebhooksSettings_post_init
     \<lparr>swh_header_name = WEBHOOK_SIGNATURE_HEADER, swh_key_id = None, swh_additional_key_ids = []\<rparr>"

record StandardWebhooksHmacSigner =
  swh_secrets :: "SecretHandle list"
  swh_settings :: StandardWebhooksSettings

definition StandardWebhooksHmacSigner_init ::
    "SecretHandle \<Rightarrow> StandardWebhooksSettings option \<Rightarrow> SecretHandle list \<Rightarrow> StandardWebhooksHmacSigner result" where
  "StandardWebhooksHmacSigner_init secret settings additional_secrets =
     (let secrets = secret # additional_secrets in
      and_then (raise_unless (length secrets \<le> MAX_STANDARD_WEBHOOKS_SIGNING_SECRETS)
        (SignerError (Configuration ''SIG_STANDARD_WEBHOOKS_KEY_COUNT_INVALID''
           ''Standard Webhooks supports at most eight deterministic signing keys.''))) (\<lambda>_.
      and_then (case settings of None \<Rightarrow> StandardWebhooksSettings_default | Some s \<Rightarrow> Inr s) (\<lambda>resolved.
      and_then (raise_unless (\<not> (swh_additional_key_ids resolved \<noteq> [] \<and>
          length (swh_additional_key_ids resolved) \<noteq> length additional_secrets))
        (SignerError (Configuration ''SIG_STANDARD_WEBHOOKS_KEY_ID_COUNT_INVALID''
           ''Additional key IDs must align with additional signing keys.''))) (\<lambda>_.
      and_then (raise_unless (distinct (map handle_fingerprint secrets))
        (SignerError (Configuration ''SIG_STANDARD_WEBHOOKS_DUPLICATE_KEY''
           ''Standard Webhooks signing keys must have distinct fingerprints.''))) (\<lambda>_.
        Inr \<lparr>swh_secrets = secrets, swh_settings = resolved\<rparr>)))))"

definition swh_owned_headers :: "StandardWebhooksHmacSigner \<Rightarrow> string list" where
  "swh_owned_headers s = [WEBHOOK_ID_HEADER, WEBHOOK_TIMESTAMP_HEADER, swh_header_name (swh_settings s)]"

definition swh_validate_user_headers :: "StandardWebhooksHmacSigner \<Rightarrow> string list \<Rightarrow> unit result" where
  "swh_validate_user_headers s names =
     and_then (validate_header_ownership (swh_owned_headers s) names) (\<lambda>_. Inr ())"

section \<open>Secrets and messages\<close>

definition decode_secret :: "bytes \<Rightarrow> bytes result" where
  "decode_secret material =
     (let encoded = (if take 6 material = map of_char ''whsec_'' then drop 6 material else material);
          invalid = ValueError ''invalid Standard Webhooks secret''
      in if encoded = [] then Inl invalid
         else case b64decode (map (\<lambda>b. char_of (unat b)) encoded) of
                None \<Rightarrow> Inl invalid
              | Some decoded \<Rightarrow>
                  if decoded = [] \<or> map of_char (b64encode decoded) \<noteq> encoded then Inl invalid else Inr decoded)"

definition swh_canonical :: "ustring \<Rightarrow> int \<Rightarrow> bytes \<Rightarrow> bytes result" where
  "swh_canonical event_id timestamp body =
     (if event_id = [] then Inl (ValueError ''webhook ID must be a non-empty string'')
      else case utf8_encode event_id of
        Inl _ \<Rightarrow> Inl (ValueError ''webhook ID must be valid Unicode'')
      | Inr encoded_id \<Rightarrow>
          and_then (raise_unless (\<not> list_ex (\<lambda>b. unat b < 32 \<or> unat b = 127) encoded_id)
            (ValueError ''webhook ID contains an invalid character'')) (\<lambda>_.
          let rendered = encoded_id @ map of_char ''.'' @ map of_char (int_str timestamp) @ map of_char ''.'' @ body in
          and_then (raise_unless (length rendered \<le> MAX_SIGNING_INPUT_BYTES)
            (ValueError ''Standard Webhooks signing input exceeds the bounded byte limit'')) (\<lambda>_. Inr rendered)))"

definition swh_canonical_message :: "StandardWebhooksHmacSigner \<Rightarrow> SigningInput \<Rightarrow> bytes result" where
  "swh_canonical_message s i =
     swh_canonical (si_event_id i) (si_logical_time_ns i div NANOSECONDS_PER_SECOND) (si_body i)"

text \<open>The callback \<open>compute\<close> never raises: \<open>None\<close> stands for its \<open>failed\<close> flag.\<close>

definition swh_compute :: "bytes \<Rightarrow> bytes \<Rightarrow> bytes option result" where
  "swh_compute message material = (case decode_secret material of
       Inl _ \<Rightarrow> Inr None | Inr key \<Rightarrow> Inr (Some (hmac_sha256 key message)))"

definition swh_digest :: "bytes \<Rightarrow> SecretHandle \<Rightarrow> bytes result" where
  "swh_digest message secret =
     and_then (use_with secret (swh_compute message)) (\<lambda>digest. case digest of
         None \<Rightarrow> Inl (SignerError Signing)
       | Some d \<Rightarrow> and_then (raise_unless (length d = 32) (SignerError Signing)) (\<lambda>_. Inr d))"

definition swh_digests :: "StandardWebhooksHmacSigner \<Rightarrow> bytes \<Rightarrow> bytes list result" where
  "swh_digests s message = for_each (swh_digest message) (swh_secrets s)"

definition swh_evidence :: "StandardWebhooksHmacSigner \<Rightarrow> SigningInput \<Rightarrow> bytes \<Rightarrow> SigningEvidence result" where
  "swh_evidence s i message =
     signing_evidence STANDARD_WEBHOOKS_ADAPTER_ID STANDARD_WEBHOOKS_ADAPTER_VERSION STANDARD_WEBHOOKS_TEMPLATE_VERSION
       i message (handle_fingerprint (hd (swh_secrets s))) (swh_key_id (swh_settings s)) BASE64"

definition swh_signature_text :: "bytes list \<Rightarrow> string" where
  "swh_signature_text ds = join_with CHR '' '' (map (\<lambda>d. ''v1,'' @ b64encode d) ds)"

definition swh_sign :: "StandardWebhooksHmacSigner \<Rightarrow> SigningInput \<Rightarrow> SigningResult result" where
  "swh_sign s i =
     and_then (swh_canonical_message s i) (\<lambda>message.
     let timestamp = si_logical_time_ns i div NANOSECONDS_PER_SECOND in
     and_then (swh_digests s message) (\<lambda>digests.
     let signatures = swh_signature_text digests in
     and_then (raise_unless (length signatures \<le> MAX_HEADER_VALUE_LENGTH) (SignerError Signing)) (\<lambda>_.
     and_then (SignatureHeader_init WEBHOOK_ID_HEADER (si_event_id i)) (\<lambda>id_header.
     and_then (SignatureHeader_init WEBHOOK_TIMESTAMP_HEADER (text_of (int_str timestamp))) (\<lambda>timestamp_header.
     and_then (SignatureHeader_init (swh_header_name (swh_settings s)) (text_of signatures)) (\<lambda>signature_header.
     and_then (swh_evidence s i message) (\<lambda>evidence.
       SigningResult_init [id_header, timestamp_header, signature_header] evidence)))))))"

section \<open>Parsing and verification\<close>

definition parse_timestamp_text :: "string \<Rightarrow> int option" where
  "parse_timestamp_text v =
     (if \<not> canonical_integer v then None
      else let parsed = int_of_text v in if int_str parsed = v then Some parsed else None)"

text \<open>The pattern \<open>v1,([A-Za-z0-9+/]{43}=)\<close>; its group is what follows the comma.\<close>

definition signature_component :: "string \<Rightarrow> string option" where
  "signature_component s =
     (if take 3 s = ''v1,'' \<and> length s = 47 \<and> list_all (\<lambda>c. c \<in> set B64_ALPHABET) (take 43 (drop 3 s)) \<and>
         s ! 46 = CHR ''=''
      then Some (drop 3 s) else None)"

fun decode_signatures :: "bytes list \<Rightarrow> string list \<Rightarrow> bytes list option" where
  "decode_signatures decoded [] = Some decoded"
| "decode_signatures decoded (component # rest) = (case signature_component component of
       None \<Rightarrow> None
     | Some encoded \<Rightarrow> (case b64decode encoded of
           None \<Rightarrow> None
         | Some digest \<Rightarrow> if length digest \<noteq> 32 then None else decode_signatures (decoded @ [digest]) rest))"

definition swh_parse_signatures :: "string \<Rightarrow> bytes list option" where
  "swh_parse_signatures v =
     (if v = [] then None
      else let components = split_on CHR '' '' v
           in if \<not> (1 \<le> length components \<and> length components \<le> MAX_SIGNATURE_COMPONENTS) then None
              else decode_signatures [] components)"

definition swh_verify ::
    "StandardWebhooksHmacSigner \<Rightarrow> SigningInput \<Rightarrow> SignatureHeader list \<Rightarrow> VerificationResult result" where
  "swh_verify s i headers =
     and_then (swh_canonical_message s i) (\<lambda>default_canonical.
     and_then (swh_evidence s i default_canonical) (\<lambda>default_evidence.
     and_then (for_each (matching_headers headers) (swh_owned_headers s)) (\<lambda>matched.
     if list_ex (\<lambda>values. values = []) matched then VerificationResult_init False MISSING_HEADER default_evidence
     else if list_ex (\<lambda>values. length values \<noteq> 1) matched
     then VerificationResult_init False DUPLICATE_HEADER default_evidence
     else let event_id = text_of (header_value (matched ! 0 ! 0));
              supplied = swh_parse_signatures (header_value (matched ! 2 ! 0));
              timestamp = parse_timestamp_text (header_value (matched ! 1 ! 0))
          in if timestamp = None \<or> supplied = None
             then VerificationResult_init False MALFORMED_HEADER default_evidence
             else case swh_canonical event_id (the timestamp) (si_body i) of
                    Inl _ \<Rightarrow> VerificationResult_init False MALFORMED_HEADER default_evidence
                  | Inr message \<Rightarrow>
                      and_then (swh_evidence s i message) (\<lambda>evidence.
                      and_then (swh_digests s message) (\<lambda>expected.
                        verification_outcome expected (the supplied) evidence)))))"

section \<open>The parser reads what the signer writes\<close>

lemma signature_component_encode:
  assumes "length d = 32"
  shows "signature_component (''v1,'' @ b64encode d) = Some (b64encode d)"
proof -
  have len: "length (b64encode d) = 44" using assms by (simp add: b64encode_length)
  have "length d mod 3 = 2" using assms by simp
  from b64encode_one_pad[OF this] obtain body where b: "b64encode d = body @ ''=''"
      "list_all (\<lambda>c. c \<in> set B64_ALPHABET) body" by blast
  then have "length body = 43" using len by simp
  with b show ?thesis by (simp add: signature_component_def nth_append numeral_eq_Suc)
qed

lemma decode_signatures_encode:
  assumes "list_all (\<lambda>d. length d = 32) ds"
  shows "decode_signatures acc (map (\<lambda>d. ''v1,'' @ b64encode d) ds) = Some (acc @ ds)"
  using assms
proof (induction ds arbitrary: acc)
  case (Cons d ds)
  have "signature_component (''v1,'' @ b64encode d) = Some (b64encode d)"
    using Cons.prems by (intro signature_component_encode) simp
  with Cons show ?case by (simp add: b64decode_encode)
qed simp

lemma swh_parse_text:
  assumes "list_all (\<lambda>d. length d = 32) ds" "ds \<noteq> []" "length ds \<le> 8"
  shows "swh_parse_signatures (swh_signature_text ds) = Some ds"
proof -
  let ?cs = "map (\<lambda>d. ''v1,'' @ b64encode d) ds"
  have "split_on CHR '' '' (swh_signature_text ds) = ?cs"
    unfolding swh_signature_text_def using assms(2) by (intro split_on_join) (auto simp: b64encode_no_space)
  moreover have "swh_signature_text ds \<noteq> []"
    using assms(2) by (cases ds rule: remdups_adj.cases) (simp_all add: swh_signature_text_def)
  moreover have "1 \<le> length ?cs" using assms(2) by (cases ds) simp_all
  ultimately show ?thesis
    using assms decode_signatures_encode[OF assms(1), of "[]"]
    by (simp add: swh_parse_signatures_def MAX_SIGNATURE_COMPONENTS_def)
qed

lemma parse_timestamp_str: "\<bar>t\<bar> < 10 ^ 19 \<Longrightarrow> parse_timestamp_text (int_str t) = Some t"
  by (simp add: parse_timestamp_text_def canonical_int_str int_of_int_str)

section \<open>The signer meets the interface\<close>

definition swh_built :: "StandardWebhooksHmacSigner \<Rightarrow> bool" where
  "swh_built s \<longleftrightarrow> (\<exists>secret settings additional. StandardWebhooksHmacSigner_init secret settings additional = Inr s \<and>
     (case settings of None \<Rightarrow> True | Some st \<Rightarrow> \<exists>st0. StandardWebhooksSettings_post_init st0 = Inr st))"

definition swh_settings_ok :: "StandardWebhooksSettings \<Rightarrow> bool" where
  "swh_settings_ok st \<longleftrightarrow> casefold (swh_header_name st) = swh_header_name st \<and> header_token (swh_header_name st) \<and>
     distinct [WEBHOOK_ID_HEADER, WEBHOOK_TIMESTAMP_HEADER, swh_header_name st] \<and>
     swh_validate_key_id (swh_key_id st) = Inr ()"

lemma fixed_headers [simp]: "casefold WEBHOOK_ID_HEADER = WEBHOOK_ID_HEADER"
    "casefold WEBHOOK_TIMESTAMP_HEADER = WEBHOOK_TIMESTAMP_HEADER" "header_token WEBHOOK_ID_HEADER"
    "header_token WEBHOOK_TIMESTAMP_HEADER"
  by code_simp+

lemma swh_settings_checked:
  assumes "StandardWebhooksSettings_post_init st0 = Inr st"
  shows "swh_settings_ok st"
proof -
  obtain ns where ns: "validate_header_ownership [WEBHOOK_ID_HEADER, WEBHOOK_TIMESTAMP_HEADER, swh_header_name st0] [] = Inr ns"
      "swh_validate_key_id (swh_key_id st) = Inr ()" "swh_header_name st = ns ! 2"
    using assms by (auto simp: StandardWebhooksSettings_post_init_def result_simps)
  have "ns = [WEBHOOK_ID_HEADER, WEBHOOK_TIMESTAMP_HEADER, casefold (swh_header_name st0)]" "distinct ns"
    using owned_names[OF ns(1)] by auto
  with owned_tokens[OF ns(1)] ns(2,3) show ?thesis
    by (auto simp: swh_settings_ok_def)
qed

lemma swh_built_facts:
  assumes "swh_built s"
  shows "swh_secrets s \<noteq> []" "length (swh_secrets s) \<le> 8" "swh_settings_ok (swh_settings s)"
proof -
  obtain secret settings additional resolved where i: "length (secret # additional) \<le> MAX_STANDARD_WEBHOOKS_SIGNING_SECRETS"
      "(case settings of None \<Rightarrow> StandardWebhooksSettings_default | Some s \<Rightarrow> Inr s) = Inr resolved"
      "s = \<lparr>swh_secrets = secret # additional, swh_settings = resolved\<rparr>"
      "case settings of None \<Rightarrow> True | Some st \<Rightarrow> \<exists>st0. StandardWebhooksSettings_post_init st0 = Inr st"
    using assms by (auto simp: swh_built_def StandardWebhooksHmacSigner_init_def Let_def result_simps)
  then show "swh_secrets s \<noteq> []" "length (swh_secrets s) \<le> 8"
    by (simp_all add: MAX_STANDARD_WEBHOOKS_SIGNING_SECRETS_def)
  show "swh_settings_ok (swh_settings s)"
    using i(2,3,4) by (auto simp: StandardWebhooksSettings_default_def dest: swh_settings_checked split: option.splits)
qed

text \<open>The part of \<open>verify\<close> that reads the headers.\<close>

definition swh_claim ::
    "StandardWebhooksHmacSigner \<Rightarrow> SigningInput \<Rightarrow> SignatureHeader list \<Rightarrow> (VerificationReason + bytes \<times> bytes list) result" where
  "swh_claim s i headers =
     and_then (for_each (matching_headers headers) (swh_owned_headers s)) (\<lambda>matched.
     if list_ex (\<lambda>values. values = []) matched then Inr (Inl MISSING_HEADER)
     else if list_ex (\<lambda>values. length values \<noteq> 1) matched then Inr (Inl DUPLICATE_HEADER)
     else case (parse_timestamp_text (header_value (matched ! 1 ! 0)), swh_parse_signatures (header_value (matched ! 2 ! 0))) of
            (Some timestamp, Some supplied) \<Rightarrow>
              (case swh_canonical (text_of (header_value (matched ! 0 ! 0))) timestamp (si_body i) of
                 Inl _ \<Rightarrow> Inr (Inl MALFORMED_HEADER) | Inr message \<Rightarrow> Inr (Inr (message, supplied)))
          | _ \<Rightarrow> Inr (Inl MALFORMED_HEADER))"

lemma swh_digest_length: "swh_digest m h = Inr d \<Longrightarrow> length d = 32"
  by (auto simp: swh_digest_def result_simps split: option.splits)

lemma swh_digests_length:
  assumes "swh_digests s m = Inr ds"
  shows "length ds = length (swh_secrets s)" "list_all (\<lambda>d. length d = 32) ds"
proof -
  have all: "list_all2 (\<lambda>h d. swh_digest m h = Inr d) (swh_secrets s) ds"
    using assms by (simp add: swh_digests_def for_each_eq_Inr)
  then show "length ds = length (swh_secrets s)" by (simp add: list_all2_lengthD)
  show "list_all (\<lambda>d. length d = 32) ds"
    using all by (induction rule: list_all2_induct) (auto dest: swh_digest_length)
qed

lemma swh_sign_parts:
  assumes "swh_sign s i = Inr r"
  obtains m ds h1 h2 h3 ev where "swh_canonical_message s i = Inr m" "swh_digests s m = Inr ds"
    "SignatureHeader_init WEBHOOK_ID_HEADER (si_event_id i) = Inr h1"
    "SignatureHeader_init WEBHOOK_TIMESTAMP_HEADER (text_of (int_str (si_logical_time_ns i div NANOSECONDS_PER_SECOND))) = Inr h2"
    "SignatureHeader_init (swh_header_name (swh_settings s)) (text_of (swh_signature_text ds)) = Inr h3"
    "swh_evidence s i m = Inr ev" "result_headers r = [h1, h2, h3]"
  using assms by (auto simp: swh_sign_def Let_def result_simps SigningResult_init_def)

lemma text_of_char_of: "list_all (\<lambda>c. c < 128) v \<Longrightarrow> text_of (map char_of v) = v"
  by (induction v) (simp_all add: text_of_def)

lemma swh_sign_claim:
  assumes "swh_built s" "swh_sign s i = Inr r"
  obtains m ds ev h1 h2 h3 where "swh_canonical_message s i = Inr m" "swh_digests s m = Inr ds" "ds \<noteq> []"
    "swh_evidence s i m = Inr ev"
    "for_each (matching_headers (result_headers r)) (swh_owned_headers s) = Inr [[h1], [h2], [h3]]"
    "text_of (header_value h1) = si_event_id i"
    "parse_timestamp_text (header_value h2) = Some (si_logical_time_ns i div NANOSECONDS_PER_SECOND)"
    "swh_parse_signatures (header_value h3) = Some ds"
proof -
  obtain m ds h1 h2 h3 ev where p: "swh_canonical_message s i = Inr m" "swh_digests s m = Inr ds"
      "SignatureHeader_init WEBHOOK_ID_HEADER (si_event_id i) = Inr h1"
      "SignatureHeader_init WEBHOOK_TIMESTAMP_HEADER (text_of (int_str (si_logical_time_ns i div NANOSECONDS_PER_SECOND))) = Inr h2"
      "SignatureHeader_init (swh_header_name (swh_settings s)) (text_of (swh_signature_text ds)) = Inr h3"
      "swh_evidence s i m = Inr ev" "result_headers r = [h1, h2, h3]"
    by (rule swh_sign_parts[OF assms(2)])
  note b = swh_built_facts[OF assms(1)]
  note f = header_init_fields[OF p(3)] header_init_fields[OF p(4)] header_init_fields[OF p(5)]
  have names: "header_name h1 = WEBHOOK_ID_HEADER" "header_name h2 = WEBHOOK_TIMESTAMP_HEADER"
      "header_name h3 = swh_header_name (swh_settings s)"
      "distinct [WEBHOOK_ID_HEADER, WEBHOOK_TIMESTAMP_HEADER, swh_header_name (swh_settings s)]"
    using f b(3) by (simp_all add: swh_settings_ok_def)
  have m: "for_each (matching_headers (result_headers r)) (swh_owned_headers s) = Inr [[h1], [h2], [h3]]"
    using names by (auto simp: p(7) swh_owned_headers_def matching_headers_def MAX_SIGNER_HEADERS_def raise_unless_def)
  have time: "\<bar>si_logical_time_ns i div NANOSECONDS_PER_SECOND\<bar> < 10 ^ 19"
    using evidence_time p(6) seconds_bound unfolding swh_evidence_def by blast
  have ds: "ds \<noteq> []" "length ds \<le> 8" "list_all (\<lambda>d. length d = 32) ds"
    using swh_digests_length[OF p(2)] b(1,2) by auto
  show thesis
    using that[OF p(1,2) ds(1) p(6) m] f time ds by (simp add: text_of_char_of parse_timestamp_str swh_parse_text)
qed

interpretation swh: hmac_signer swh_built swh_canonical_message swh_digests swh_claim swh_sign swh_verify
proof unfold_locales
  fix s i hs reason v
  assume "swh_claim s i hs = Inr (Inl reason)" "swh_verify s i hs = Inr v"
  then show "\<not> verified v \<and> verification_reason v = reason"
    by (auto simp: swh_claim_def swh_verify_def result_simps Let_def dest: verification_init
        split: if_splits option.splits sum.splits)
next
  fix s i hs m ds v
  assume "swh_claim s i hs = Inr (Inr (m, ds))" "swh_verify s i hs = Inr v"
  then show "\<exists>ex. swh_digests s m = Inr ex \<and> (verified v \<longleftrightarrow> set ex \<inter> set ds \<noteq> {})"
    by (auto simp: swh_claim_def swh_verify_def result_simps Let_def outcome_verified
        split: if_splits option.splits sum.splits)
next
  fix s i hs e
  assume "swh_claim s i hs = Inl e"
  then show "\<not> returns (swh_verify s i hs)"
    by (auto simp: swh_claim_def swh_verify_def result_simps returns_iff split: if_splits option.splits sum.splits)
next
  fix s i r
  assume "swh_built s" "swh_sign s i = Inr r"
  then obtain m ds ev h1 h2 h3 where c: "swh_canonical_message s i = Inr m" "swh_digests s m = Inr ds" "ds \<noteq> []"
    "swh_evidence s i m = Inr ev"
    "for_each (matching_headers (result_headers r)) (swh_owned_headers s) = Inr [[h1], [h2], [h3]]"
    "text_of (header_value h1) = si_event_id i"
    "parse_timestamp_text (header_value h2) = Some (si_logical_time_ns i div NANOSECONDS_PER_SECOND)"
    "swh_parse_signatures (header_value h3) = Some ds" by (rule swh_sign_claim)
  have m: "swh_canonical (si_event_id i) (si_logical_time_ns i div NANOSECONDS_PER_SECOND) (si_body i) = Inr m"
    using c(1) by (simp add: swh_canonical_message_def)
  show "\<exists>m ds. swh_canonical_message s i = Inr m \<and> swh_digests s m = Inr ds \<and> ds \<noteq> [] \<and>
      swh_claim s i (result_headers r) = Inr (Inr (m, ds))"
    using c m by (simp add: swh_claim_def)
  show "returns (swh_verify s i (result_headers r))"
    using c m by (simp add: swh_verify_def outcome_returns)
qed

section \<open>Signing succeeds\<close>

text \<open>A key that can be used: its handle is usable and its material decodes.\<close>

definition swh_usable :: "SecretHandle \<Rightarrow> bool" where
  "swh_usable h \<longleftrightarrow> usable h \<and> returns (decode_secret (projr (provider_load h)))"

lemma swh_digest_usable:
  assumes "swh_usable h"
  shows "returns (swh_digest m h)"
proof -
  obtain material key where "provider_load h = Inr material" "decode_secret material = Inr key"
      "secret_fingerprint material = handle_fingerprint h" "\<not> handle_closed h"
    using assms by (auto simp: swh_usable_def usable_def returns_iff)
  then show ?thesis
    by (simp add: swh_digest_def use_with_def load_provider_safely_def swh_compute_def)
qed

lemma swh_text_length:
  assumes "list_all (\<lambda>d. length d = 32) ds" "length ds \<le> 8"
  shows "length (swh_signature_text ds) \<le> MAX_HEADER_VALUE_LENGTH"
proof -
  have "sum_list (map (\<lambda>d. length (''v1,'' @ b64encode d) + 1) ds) = 48 * length ds"
    using assms(1) by (induction ds) (simp_all add: b64encode_length)
  then have "sum_list (map (\<lambda>x. length x + 1) (map (\<lambda>d. ''v1,'' @ b64encode d) ds)) \<le> 384"
    using assms(2) by (simp add: comp_def)
  with join_length[of "CHR '' ''" "map (\<lambda>d. ''v1,'' @ b64encode d) ds"] show ?thesis
    unfolding swh_signature_text_def MAX_HEADER_VALUE_LENGTH_def by linarith
qed

lemma swh_text_printable: "list_all (\<lambda>c. 32 \<le> c \<and> c < 127) (text_of (swh_signature_text ds))"
proof -
  have "32 \<le> (of_char c :: nat) \<and> of_char c < (127 :: nat)" if c: "c \<in> set (swh_signature_text ds)" for c
  proof -
    have "c \<in> insert CHR '' '' (\<Union>x \<in> set (map (\<lambda>d. ''v1,'' @ b64encode d) ds). set x)"
      using c set_join unfolding swh_signature_text_def by blast
    then consider "c \<in> set '' v1,''" | d where "c \<in> set (b64encode d)" by (auto split: if_splits)
    then show ?thesis
    proof cases
      case 2
      then show ?thesis by (rule b64encode_printable)
    qed auto
  qed
  then show ?thesis by (auto simp: text_of_def list_all_iff)
qed

definition printable_ascii :: "ustring \<Rightarrow> bool" where
  "printable_ascii s \<longleftrightarrow> s \<noteq> [] \<and> list_all (\<lambda>c. 32 \<le> c \<and> c < 127) s"

lemma utf8_ascii: "list_all (\<lambda>c. 32 \<le> c \<and> c < 127) s \<Longrightarrow> utf8_encode s = Inr (map word_of_nat s)"
  by (induction s) (auto simp: utf8_encode_def scalar_value_def utf8_char_def split: if_splits)

lemma swh_message_returns:
  assumes "printable_ascii (si_event_id i)" "SigningInput_post_init i = Inr i"
  shows "returns (swh_canonical_message s i)" "length (si_event_id i) \<le> MAX_HEADER_VALUE_LENGTH"
proof -
  have e: "utf8_encode (si_event_id i) = Inr (map word_of_nat (si_event_id i))" "si_event_id i \<noteq> []"
    using assms(1) utf8_ascii by (auto simp: printable_ascii_def)
  have time: "\<bar>si_logical_time_ns i div NANOSECONDS_PER_SECOND\<bar> < 10 ^ 19"
    and body: "length (si_body i) \<le> MAX_SIGNING_BODY_BYTES" and len: "length (si_event_id i) \<le> 4096"
    using assms(2) seconds_bound e(1)
    by (auto simp: SigningInput_post_init_def validate_logical_time_def encode_bounded_text_def MAX_EVENT_ID_BYTES_def
        result_simps)
  have "\<not> list_ex (\<lambda>b. unat b < 32 \<or> unat b = 127) (map word_of_nat (si_event_id i) :: bytes)"
    using assms(1) by (auto simp: printable_ascii_def list_all_iff list_ex_iff)
  then show "returns (swh_canonical_message s i)"
    using e int_str_length[OF time] body len
    by (simp add: swh_canonical_message_def swh_canonical_def Let_def MAX_SIGNING_INPUT_BYTES_def raise_unless_def)
  show "length (si_event_id i) \<le> MAX_HEADER_VALUE_LENGTH"
    using len by (simp add: MAX_HEADER_VALUE_LENGTH_def)
qed

lemma swh_sign_returns:
  assumes "swh_built s" "list_all swh_usable (swh_secrets s)" "SigningInput_post_init i = Inr i"
    and "printable_ascii (si_event_id i)"
  shows "returns (swh_sign s i)"
proof -
  let ?t = "si_logical_time_ns i div NANOSECONDS_PER_SECOND"
  obtain m where m: "swh_canonical_message s i = Inr m"
    using swh_message_returns(1)[OF assms(4,3)] by (auto simp: returns_iff)
  have "returns (swh_digests s m)"
    using assms(2) swh_digest_usable unfolding swh_digests_def by (auto simp: for_each_unit_ok list_all_iff)
  then obtain ds where ds: "swh_digests s m = Inr ds" by (auto simp: returns_iff)
  note b = swh_built_facts[OF assms(1)]
  have tok: "1 \<le> length n \<and> length n \<le> MAX_HEADER_NAME_LENGTH \<and> list_all header_name_char n"
    if "n \<in> {WEBHOOK_ID_HEADER, WEBHOOK_TIMESTAMP_HEADER, swh_header_name (swh_settings s)}" for n
    using that b(3) fixed_headers(3,4) by (auto simp: swh_settings_ok_def header_token_def)
  have time: "\<bar>?t\<bar> < 10 ^ 19"
    using assms(3) seconds_bound by (auto simp: SigningInput_post_init_def validate_logical_time_def result_simps)
  have len: "length (swh_signature_text ds) \<le> MAX_HEADER_VALUE_LENGTH"
    using swh_text_length[OF swh_digests_length(2)[OF ds]] swh_digests_length(1)[OF ds] b(2) by simp
  have "returns (SignatureHeader_init WEBHOOK_ID_HEADER (si_event_id i))"
    using tok swh_message_returns(2)[OF assms(4,3)] assms(4) by (intro header_init_returns) (auto simp: printable_ascii_def)
  then obtain h1 where h1: "SignatureHeader_init WEBHOOK_ID_HEADER (si_event_id i) = Inr h1" by (auto simp: returns_iff)
  have "returns (SignatureHeader_init WEBHOOK_TIMESTAMP_HEADER (text_of (int_str ?t)))"
    using tok int_str_length[OF time] int_str_printable[of ?t]
    by (intro header_init_returns) (auto simp: text_of_def MAX_HEADER_VALUE_LENGTH_def)
  then obtain h2 where h2: "SignatureHeader_init WEBHOOK_TIMESTAMP_HEADER (text_of (int_str ?t)) = Inr h2"
    by (auto simp: returns_iff)
  have "returns (SignatureHeader_init (swh_header_name (swh_settings s)) (text_of (swh_signature_text ds)))"
    using tok len swh_text_printable[of ds] by (intro header_init_returns) (auto simp: text_of_def)
  then obtain h3 where h3: "SignatureHeader_init (swh_header_name (swh_settings s)) (text_of (swh_signature_text ds)) = Inr h3"
    by (auto simp: returns_iff)
  have distinct: "distinct (map header_name [h1, h2, h3])"
    using header_init_fields[OF h1] header_init_fields[OF h2] header_init_fields[OF h3] b(3)
    by (simp add: swh_settings_ok_def)
  have "usable (hd (swh_secrets s))" using assms(2) b(1) by (cases "swh_secrets s") (simp_all add: swh_usable_def)
  moreover have "validate_key_id (swh_key_id (swh_settings s)) = Inr ()"
    using b(3) by (auto simp: swh_settings_ok_def swh_validate_key_id_def validate_key_id_def split: option.splits)
  moreover have "identifier_pattern STANDARD_WEBHOOKS_ADAPTER_ID" "identifier_pattern STANDARD_WEBHOOKS_ADAPTER_VERSION"
    "identifier_pattern STANDARD_WEBHOOKS_TEMPLATE_VERSION" by code_simp+
  ultimately have "returns (swh_evidence s i m)"
    using signing_evidence_returns assms(3) usable_fingerprint unfolding swh_evidence_def by blast
  with m ds h1 h2 h3 len distinct show ?thesis
    by (auto simp: swh_sign_def Let_def returns_iff SigningResult_init_def validate_result_headers_def
        MAX_SIGNER_HEADERS_def)
qed

section \<open>Unambiguous messages\<close>

lemma split_at_first:
  assumes "u @ d # r = v @ d # s" "d \<notin> set u" "d \<notin> set v"
  shows "u = v \<and> r = s"
  using assms by (induction u arbitrary: v) (auto simp: Cons_eq_append_conv)

lemma dot_byte_ascii:
  assumes "utf8_encode s = Inr b" "46 \<notin> set s"
  shows "(46 :: byte) \<notin> set b"
proof
  assume "46 \<in> set b"
  with assms(1) obtain c x where c: "c \<in> set s" "scalar_value c" "x \<in> set (utf8_char c)" "(word_of_nat x :: byte) = 46"
    by (auto simp: utf8_encode_def list_all_iff split: if_splits)
  have x: "x < 256" using utf8_char_bytes[OF c(2)] c(3) by (simp add: list_all_iff)
  have "unat (word_of_nat x :: byte) = x" using x by (rule unat_byte)
  then have "x = 46" using c(4) by simp
  with c(3) have "c = 46" by (auto simp: utf8_char_def split: if_splits)
  with c(1) assms(2) show False by simp
qed

lemma int_str_no_dot: "(46 :: byte) \<notin> set (map of_char (int_str i))"
proof
  assume "46 \<in> set (map of_char (int_str i) :: bytes)"
  then obtain c where c: "c \<in> set (int_str i)" "(of_char c :: byte) = 46" by auto
  have "(of_char c :: byte) = word_of_nat (of_char c)" by (simp add: of_nat_of_char)
  with c(2) have "unat (word_of_nat (of_char c) :: byte) = 46" by simp
  then have "of_char c = (46 :: nat)" by simp
  with int_str_char[OF c(1)] show False
    by (auto simp: decimal_char_def in_char_range_def less_eq_char_def)
qed

section \<open>Properties\<close>

text \<open>C21. The Standard Webhooks signer signs every valid input with a printable identifier, and what it
  signs it verifies: a built signer with usable, decodable keys returns a result for it, and verification of
  the produced headers over the same input returns and is valid.\<close>

theorem swh_round_trip:
  assumes "swh_built s" "list_all swh_usable (swh_secrets s)" "SigningInput_post_init i = Inr i"
    and "printable_ascii (si_event_id i)"
  shows "\<exists>r v. swh_sign s i = Inr r \<and> swh_verify s i (result_headers r) = Inr v \<and> verified v"
proof -
  obtain r where r: "swh_sign s i = Inr r" using swh_sign_returns[OF assms] by (auto simp: returns_iff)
  with swh.sign_then_verify[OF assms(1) r] show ?thesis by blast
qed

text \<open>The message \<open>id.timestamp.body\<close> determines its parts as long as event identifiers hold no
  dot: two such messages are equal only if the identifiers, the timestamps in seconds and the bodies are.\<close>

lemma swh_message_unambiguous:
  assumes "swh_canonical_message s i = Inr m" "swh_canonical_message s' i' = Inr m"
    and "46 \<notin> set (si_event_id i)" "46 \<notin> set (si_event_id i')"
  shows "si_event_id i = si_event_id i' \<and> si_body i = si_body i' \<and>
    si_logical_time_ns i div NANOSECONDS_PER_SECOND = si_logical_time_ns i' div NANOSECONDS_PER_SECOND"
proof -
  let ?t = "\<lambda>i. map of_char (int_str (si_logical_time_ns i div NANOSECONDS_PER_SECOND)) :: bytes"
  obtain b where b: "utf8_encode (si_event_id i) = Inr b" "m = b @ 46 # ?t i @ 46 # si_body i"
    using assms(1) by (auto simp: swh_canonical_message_def swh_canonical_def Let_def result_simps
        split: if_splits sum.splits)
  obtain b' where b': "utf8_encode (si_event_id i') = Inr b'" "m = b' @ 46 # ?t i' @ 46 # si_body i'"
    using assms(2) by (auto simp: swh_canonical_message_def swh_canonical_def Let_def result_simps
        split: if_splits sum.splits)
  have "b = b' \<and> ?t i @ 46 # si_body i = ?t i' @ 46 # si_body i'"
    using b(2) b'(2) dot_byte_ascii[OF b(1) assms(3)] dot_byte_ascii[OF b'(1) assms(4)]
    by (intro split_at_first) simp_all
  moreover from this have "?t i = ?t i' \<and> si_body i = si_body i'"
    using int_str_no_dot by (intro split_at_first) blast+
  ultimately show ?thesis
    using utf8_encode_inj[OF b(1)] b'(1) by (auto simp: ascii_bytes_inj dest: int_str_inj)
qed

section \<open>Concrete signer\<close>

definition swh_sample_material :: bytes where "swh_sample_material = [65, 81, 73, 68]"

definition swh_sample_handle :: SecretHandle where
  "swh_sample_handle = \<lparr>handle_closed = False, handle_fingerprint = secret_fingerprint swh_sample_material,
     provider_load = Inr swh_sample_material\<rparr>"

definition sample_swh :: StandardWebhooksHmacSigner where
  "sample_swh = projr (StandardWebhooksHmacSigner_init swh_sample_handle None [])"

lemma swh_init_secrets:
  "StandardWebhooksHmacSigner_init secret st additional = Inr s \<Longrightarrow> swh_secrets s = secret # additional"
  by (auto simp: StandardWebhooksHmacSigner_init_def Let_def result_simps)

lemma sample_swh_init: "StandardWebhooksHmacSigner_init swh_sample_handle None [] = Inr sample_swh"
proof -
  have "returns StandardWebhooksSettings_default" by code_simp
  then have "returns (StandardWebhooksHmacSigner_init swh_sample_handle None [])"
    by (auto simp: StandardWebhooksHmacSigner_init_def returns_iff StandardWebhooksSettings_default_def
        StandardWebhooksSettings_post_init_def MAX_STANDARD_WEBHOOKS_SIGNING_SECRETS_def result_simps)
  then show ?thesis by (auto simp: sample_swh_def returns_iff)
qed

lemma sample_swh_ok: "swh_built sample_swh" "list_all swh_usable (swh_secrets sample_swh)"
proof -
  show "swh_built sample_swh" unfolding swh_built_def using sample_swh_init by force
  have "returns (decode_secret swh_sample_material)" by code_simp
  then have "swh_usable swh_sample_handle"
    by (simp add: swh_usable_def usable_def swh_sample_handle_def)
  then show "list_all swh_usable (swh_secrets sample_swh)"
    by (simp add: swh_init_secrets[OF sample_swh_init])
qed

lemma sample_event_id: "printable_ascii (si_event_id sample_input)" "46 \<notin> set (si_event_id sample_input)"
  by (simp_all add: printable_ascii_def sample_input_def)

theorem swh_round_trip_witness:
  "\<exists>r v. swh_sign sample_swh sample_input = Inr r \<and>
     swh_verify sample_swh sample_input (result_headers r) = Inr v \<and> verified v"
  using swh_round_trip[OF sample_swh_ok sample_input_ok sample_event_id(1)] .

lemma swh_message_unambiguous_witness:
  "\<exists>m. swh_canonical_message sample_swh sample_input = Inr m \<and> si_body sample_input = [123, 125]"
proof -
  obtain m where m: "swh_canonical_message sample_swh sample_input = Inr m"
    using swh_message_returns(1)[OF sample_event_id(1) sample_input_ok] by (auto simp: returns_iff)
  from swh_message_unambiguous[OF m m sample_event_id(2) sample_event_id(2)] m show ?thesis
    by (auto simp: sample_input_def)
qed

end
