(* ===== verification/Signing_Framing.thy ===== *)
theory Signing_Framing
  imports Signing_Base
begin

text \<open>
  The docstring of \<open>CanonicalSigningTemplate\<close> claims that the length-prefixed framing is injective for the
  selected input fields. This theory proves it, also across different templates and timestamp encodings,
  and shows that the template registry binds each version to one meaning.
\<close>

section \<open>Frames cancel\<close>

lemma sized_cancel:
  assumes "to_bytes k (length u) @ u @ r = to_bytes k (length v) @ v @ s"
    and "length u < 256 ^ k" "length v < 256 ^ k"
  shows "u = v \<and> r = s"
proof -
  have "to_bytes k (length u) = to_bytes k (length v)" "u @ r = v @ s"
    using assms(1) by (simp_all add: append_eq_append_conv)
  moreover from this(1) have "length u = length v" by (rule to_bytes_inj) (fact assms)+
  ultimately show ?thesis by (simp add: append_eq_append_conv)
qed

definition small_frame :: "bytes \<times> bytes \<Rightarrow> bool" where
  "small_frame p \<longleftrightarrow> length (fst p) = 1 \<and> length (snd p) < 256 ^ 8"

lemma frame_cancel:
  assumes "frame p @ r = frame q @ s" "small_frame p" "small_frame q"
  shows "p = q \<and> r = s"
proof -
  have "fst p = fst q" "to_bytes 8 (length (snd p)) @ snd p @ r = to_bytes 8 (length (snd q)) @ snd q @ s"
    using assms by (simp_all add: frame_def small_frame_def append_eq_append_conv)
  from sized_cancel[OF this(2)] this(1) assms show ?thesis by (simp add: small_frame_def prod_eq_iff)
qed

lemma frames_inj:
  assumes "concat (map frame ps) = concat (map frame qs)" "length ps = length qs"
    and "list_all small_frame ps" "list_all small_frame qs"
  shows "ps = qs"
  using assms(2,1,3,4)
proof (induction ps qs rule: list_induct2)
  case (Cons p ps q qs)
  then show ?case using frame_cancel[of p "concat (map frame ps)" q "concat (map frame qs)"] by simp
qed simp

section \<open>Rendering\<close>

lemma framed_tag_length: "framed_component i e c = Inr p \<Longrightarrow> length (fst p) = 1"
  by (induction i e c rule: framed_component.induct) (auto simp: result_simps)

lemma framed_small:
  assumes "for_each (framed_component i e) cs = Inr ps"
    and "sum_list (map (\<lambda>(tag, v). length tag + 8 + length v) ps) \<le> MAX_SIGNING_INPUT_BYTES"
  shows "list_all small_frame ps"
  unfolding list_all_iff
proof
  fix p assume p: "p \<in> set ps"
  then obtain k where k: "k < length ps" "p = ps ! k" by (auto simp: in_set_conv_nth)
  with assms(1) have "framed_component i e (cs ! k) = Inr p"
    by (auto simp: for_each_eq_Inr list_all2_conv_all_nth)
  then have "length (fst p) = 1" by (rule framed_tag_length)
  moreover have "(case p of (tag, v) \<Rightarrow> length tag + 8 + length v) \<le> sum_list (map (\<lambda>(tag, v). length tag + 8 + length v) ps)"
    using p by (intro member_le_sum_list) (auto intro!: image_eqI)
  with assms(2) have "length (snd p) \<le> MAX_SIGNING_INPUT_BYTES" by (cases p) simp
  then have "length (snd p) < 256 ^ 8" by (simp add: MAX_SIGNING_INPUT_BYTES_def MAX_SIGNING_BODY_BYTES_def)
  ultimately show "small_frame p" by (simp add: small_frame_def)
qed

lemma render_parts:
  assumes "render t i e = Inr b" "template_framing t = LENGTH_PREFIXED_V1"
    and "CanonicalSigningTemplate_post_init t = Inr t"
  obtains ps where "for_each (framed_component i e) (template_components t) = Inr ps"
    and "list_all small_frame ps" and "length ps < 256 ^ 1" and "length (map of_char (template_version t) :: bytes) < 256 ^ 2"
    and "b = LENGTH_PREFIXED_TEMPLATE_DOMAIN @ to_bytes 2 (length (map of_char (template_version t) :: bytes)) @
      map of_char (template_version t) @ to_bytes 1 (length ps) @ concat (map frame ps)"
proof -
  obtain ps where ps: "for_each (framed_component i e) (template_components t) = Inr ps"
      and size: "sum_list (map (\<lambda>(tag, v). length tag + 8 + length v) ps) \<le> MAX_SIGNING_INPUT_BYTES"
      and b: "b = LENGTH_PREFIXED_TEMPLATE_DOMAIN @ to_bytes 2 (length (map of_char (template_version t) :: bytes)) @
        map of_char (template_version t) @ to_bytes 1 (length ps) @ concat (map frame ps)"
    using assms(1,2)
    by (auto simp: render_def render_length_prefixed_template_def Let_def result_simps)
  have "length (template_components t) \<le> 16" and v: "identifier_pattern (template_version t)"
    using assms(3) by (auto simp: CanonicalSigningTemplate_post_init_def validate_template_components_def
        validate_identifier_def MAX_TEMPLATE_COMPONENTS_def result_simps Let_def)
  then have "length ps < 256 ^ 1" using for_each_length[OF ps] by simp
  moreover have "length (map of_char (template_version t) :: bytes) < 256 ^ 2"
    using v by (simp add: identifier_pattern_def split: list.splits)
  ultimately show thesis using that ps framed_small[OF ps size] b by blast
qed

definition timestamp_reading :: "TimestampEncoding \<Rightarrow> int \<Rightarrow> int" where
  "timestamp_reading e t = (if e = ASCII_DECIMAL_NANOSECONDS then t else t div NANOSECONDS_PER_SECOND)"

lemma encode_timestamp_inj:
  "encode_timestamp t e = encode_timestamp t' e' \<Longrightarrow> timestamp_reading e t = timestamp_reading e' t'"
  unfolding encode_timestamp_def ascii_bytes_inj timestamp_reading_def by (drule int_str_inj)

text \<open>What equality of one framed component says of the two inputs.\<close>

definition agree_on :: "SigningInput \<Rightarrow> TimestampEncoding \<Rightarrow> SigningInput \<Rightarrow> TimestampEncoding \<Rightarrow>
    SigningTemplateComponent \<Rightarrow> bool" where
  "agree_on i e i' e' c \<longleftrightarrow> (case c of Literal _ \<Rightarrow> True
     | Token TIMESTAMP \<Rightarrow> timestamp_reading e (si_logical_time_ns i) = timestamp_reading e' (si_logical_time_ns i')
     | Token EVENT_ID \<Rightarrow> si_event_id i = si_event_id i'
     | Token BODY \<Rightarrow> si_body i = si_body i')"

lemma framed_component_inj:
  assumes "framed_component i e c = Inr p" "framed_component i' e' c' = Inr p"
  shows "c = c' \<and> agree_on i e i' e' c"
proof -
  consider b b' where "c = Literal b" "c' = Literal b'" | b t where "c = Literal b" "c' = Token t"
    | t b where "c = Token t" "c' = Literal b" | t t' where "c = Token t" "c' = Token t'"
    by (cases c; cases c') auto
  then show ?thesis
  proof cases
    case 1
    then show ?thesis using assms by (auto simp: agree_on_def)
  next
    case (2 b t)
    then show ?thesis using assms by (cases t) (auto simp: result_simps)
  next
    case (3 t b)
    then show ?thesis using assms by (cases t) (auto simp: result_simps)
  next
    case (4 t t')
    then show ?thesis using assms
      by (cases t; cases t') (auto simp: agree_on_def result_simps intro: encode_timestamp_inj utf8_encode_inj)
  qed
qed

lemma framed_components_inj:
  assumes "list_all2 (\<lambda>c p. framed_component i e c = Inr p) cs ps"
    and "list_all2 (\<lambda>c p. framed_component i' e' c = Inr p) cs' ps"
  shows "cs = cs' \<and> list_all (agree_on i e i' e') cs"
  using assms
proof (induction cs ps arbitrary: cs' rule: list_all2_induct)
  case (Cons c cs p ps)
  then obtain c' cs'' where c': "cs' = c' # cs''" "framed_component i' e' c' = Inr p"
      "list_all2 (\<lambda>c p. framed_component i' e' c = Inr p) cs'' ps"
    by (auto simp: list_all2_Cons2)
  with Cons framed_component_inj[OF Cons.hyps(1) c'(2)] show ?case by auto
qed simp

section \<open>The registry\<close>

lemma token_of_value: "SigningInputToken_of (token_value t) = Inr t"
  by (cases t) (simp_all add: SigningInputToken_of_def)

lemma component_of_fingerprint_inverse: "component_of_fingerprint (component_fingerprint c) = Inr c"
  by (cases c) (simp_all add: token_of_value)

lemma for_each_inverse: "(\<And>x. g (f x) = Inr x) \<Longrightarrow> for_each g (map f xs) = Inr xs"
  by (induction xs) simp_all

lemma post_init_id: "CanonicalSigningTemplate_post_init t = Inr t' \<Longrightarrow> t' = t"
  by (auto simp: CanonicalSigningTemplate_post_init_def result_simps)

lemma registration_of_fingerprint:
  assumes "template_semantic_fingerprint t e = Inr f"
  shows "registration_from_semantic_fingerprint f = Inr \<lparr>registered_template = t, registered_encoding = e\<rparr>"
proof -
  have t: "CanonicalSigningTemplate_post_init t = Inr t" and f: "f = (template_version t,
      map component_fingerprint (template_components t), template_framing t, e)"
    using assms by (auto simp: template_semantic_fingerprint_def result_simps dest: post_init_id)
  show ?thesis
    using t by (cases t) (simp add: f registration_from_semantic_fingerprint_def for_each_inverse
        component_of_fingerprint_inverse)
qed

definition registration_fingerprint :: "SigningTemplateRegistration \<Rightarrow> template_fingerprint result" where
  "registration_fingerprint r = template_semantic_fingerprint (registered_template r) (registered_encoding r)"

lemma fingerprint_version: "template_semantic_fingerprint t e = Inr f \<Longrightarrow> fst f = template_version t"
  by (auto simp: template_semantic_fingerprint_def result_simps dest: post_init_id)

lemma registry_contents:
  assumes "StaticSigningTemplateRegistry_init m rs = Inr reg"
  shows "reg v = Some f \<longleftrightarrow> m v = Some f \<or>
    (\<exists>r \<in> set rs. template_version (registered_template r) = v \<and> registration_fingerprint r = Inr f)"
    and "\<forall>r \<in> set rs. template_version (registered_template r) \<notin> dom m"
    and "distinct (map (\<lambda>r. template_version (registered_template r)) rs)"
    and "\<forall>r \<in> set rs. returns (registration_fingerprint r)"
proof -
  have "(reg v = Some f \<longleftrightarrow> m v = Some f \<or>
      (\<exists>r \<in> set rs. template_version (registered_template r) = v \<and> registration_fingerprint r = Inr f)) \<and>
    (\<forall>r \<in> set rs. template_version (registered_template r) \<notin> dom m) \<and>
    distinct (map (\<lambda>r. template_version (registered_template r)) rs) \<and>
    (\<forall>r \<in> set rs. returns (registration_fingerprint r))"
    using assms
  proof (induction m rs rule: StaticSigningTemplateRegistry_init.induct)
    case (2 m r rs)
    from "2.prems" obtain g where g: "template_semantic_fingerprint (registered_template r) (registered_encoding r) = Inr g"
        "fst g \<notin> dom m" "StaticSigningTemplateRegistry_init (m(fst g \<mapsto> g)) rs = Inr reg"
      by (auto simp: result_simps domIff)
    have v: "fst g = template_version (registered_template r)" by (rule fingerprint_version[OF g(1)])
    note IH = "2.IH"[OF g(3)]
    have r: "registration_fingerprint r = Inr g" using g(1) by (simp add: registration_fingerprint_def)
    have d: "dom (\<lambda>a. if a = fst g then Some g else m a) = insert (fst g) (dom m)"
      by (cases g) (auto simp: dom_def split: if_splits)
    have "reg v = Some f \<longleftrightarrow> (if v = fst g then g = f else m v = Some f) \<or>
        (\<exists>r \<in> set rs. template_version (registered_template r) = v \<and> registration_fingerprint r = Inr f)"
      and rest: "\<forall>r \<in> set rs. template_version (registered_template r) \<notin> insert (fst g) (dom m)"
        "distinct (map (\<lambda>r. template_version (registered_template r)) rs)"
        "\<forall>r \<in> set rs. returns (registration_fingerprint r)"
      using IH d by simp_all
    moreover have "v = fst g \<Longrightarrow> m v \<noteq> Some f" using g(2) by blast
    ultimately have "reg v = Some f \<longleftrightarrow> m v = Some f \<or>
        (\<exists>r \<in> set (r # rs). template_version (registered_template r) = v \<and> registration_fingerprint r = Inr f)"
      using v r by auto
    moreover have "distinct (map (\<lambda>r. template_version (registered_template r)) (r # rs))"
      using rest(1,2) v by force
    moreover have "\<forall>r \<in> set (r # rs). template_version (registered_template r) \<notin> dom m"
      using rest(1) g(2) v by simp
    moreover have "\<forall>r \<in> set (r # rs). returns (registration_fingerprint r)" using rest(3) r by simp
    ultimately show ?case by blast
  qed auto
  then show "reg v = Some f \<longleftrightarrow> m v = Some f \<or>
      (\<exists>r \<in> set rs. template_version (registered_template r) = v \<and> registration_fingerprint r = Inr f)"
    and "\<forall>r \<in> set rs. template_version (registered_template r) \<notin> dom m"
    and "distinct (map (\<lambda>r. template_version (registered_template r)) rs)"
    and "\<forall>r \<in> set rs. returns (registration_fingerprint r)" by blast+
qed

text \<open>A template that validates is one of the registered ones, with its encoding.\<close>

lemma registry_validated:
  assumes "StaticSigningTemplateRegistry_init Map.empty rs = Inr reg" "registry_validate reg t e = Inr r"
  shows "r = \<lparr>registered_template = t, registered_encoding = e\<rparr> \<and> r \<in> set rs"
proof -
  obtain f where f: "template_semantic_fingerprint t e = Inr f" "reg (fst f) = Some f"
      "registration_from_semantic_fingerprint f = Inr r"
    using assms(2) by (auto simp: registry_validate_def split: sum.splits option.splits if_splits)
  then obtain r' where r': "r' \<in> set rs" "registration_fingerprint r' = Inr f"
    using registry_contents(1)[OF assms(1), of "fst f" f] by auto
  have "Inr r = (Inr \<lparr>registered_template = t, registered_encoding = e\<rparr> :: SigningTemplateRegistration result)"
    using registration_of_fingerprint[OF f(1)] f(3) by simp
  moreover have "registration_from_semantic_fingerprint f = Inr r'"
    using registration_of_fingerprint[of "registered_template r'" "registered_encoding r'" f] r'(2)
    by (simp add: registration_fingerprint_def)
  ultimately show ?thesis using f(3) r'(1) by simp
qed

section \<open>Properties\<close>

text \<open>C18. The length-prefixed framing is injective. When two templates that pass their checks render two
  inputs to the same bytes, under whatever timestamp encodings, the templates have the same version and
  the same components, and the inputs agree on every field the template covers: the body, the
  event identifier and the timestamp as it is encoded.\<close>

theorem framing_injective:
  assumes "render t i e = Inr b" "render t' i' e' = Inr b"
    and "template_framing t = LENGTH_PREFIXED_V1" "template_framing t' = LENGTH_PREFIXED_V1"
    and "CanonicalSigningTemplate_post_init t = Inr t" "CanonicalSigningTemplate_post_init t' = Inr t'"
  shows "template_version t = template_version t' \<and> template_components t = template_components t' \<and>
    (Token BODY \<in> set (template_components t) \<longrightarrow> si_body i = si_body i') \<and>
    (Token EVENT_ID \<in> set (template_components t) \<longrightarrow> si_event_id i = si_event_id i') \<and>
    (Token TIMESTAMP \<in> set (template_components t) \<longrightarrow>
       timestamp_reading e (si_logical_time_ns i) = timestamp_reading e' (si_logical_time_ns i'))"
proof -
  obtain ps where ps: "for_each (framed_component i e) (template_components t) = Inr ps" "list_all small_frame ps"
      "length ps < 256 ^ 1" "length (map of_char (template_version t) :: bytes) < 256 ^ 2"
      and b: "b = LENGTH_PREFIXED_TEMPLATE_DOMAIN @ to_bytes 2 (length (map of_char (template_version t) :: bytes)) @
        map of_char (template_version t) @ to_bytes 1 (length ps) @ concat (map frame ps)"
    by (rule render_parts[OF assms(1,3,5)])
  obtain qs where qs: "for_each (framed_component i' e') (template_components t') = Inr qs" "list_all small_frame qs"
      "length qs < 256 ^ 1" "length (map of_char (template_version t') :: bytes) < 256 ^ 2"
      and b': "b = LENGTH_PREFIXED_TEMPLATE_DOMAIN @ to_bytes 2 (length (map of_char (template_version t') :: bytes)) @
        map of_char (template_version t') @ to_bytes 1 (length qs) @ concat (map frame qs)"
    by (rule render_parts[OF assms(2,4,6)])
  from b b' have "to_bytes 2 (length (map of_char (template_version t) :: bytes)) @ map of_char (template_version t) @
      to_bytes 1 (length ps) @ concat (map frame ps) =
    to_bytes 2 (length (map of_char (template_version t') :: bytes)) @ map of_char (template_version t') @
      to_bytes 1 (length qs) @ concat (map frame qs)"
    by (simp only: same_append_eq)
  from sized_cancel[OF this ps(4) qs(4)]
  have v: "template_version t = template_version t'"
    and rest: "to_bytes 1 (length ps) @ concat (map frame ps) = to_bytes 1 (length qs) @ concat (map frame qs)"
    by (simp_all add: ascii_bytes_inj)
  from rest have "to_bytes 1 (length ps) = to_bytes 1 (length qs)" and c: "concat (map frame ps) = concat (map frame qs)"
    by (simp_all add: append_eq_append_conv)
  from to_bytes_inj[OF this(1) ps(3) qs(3)] frames_inj[OF c _ ps(2) qs(2)] have "ps = qs" by blast
  with ps(1) qs(1) framed_components_inj
  have "template_components t = template_components t' \<and> list_all (agree_on i e i' e') (template_components t)"
    by (simp add: for_each_eq_Inr)
  with v show ?thesis by (fastforce simp: agree_on_def list_all_iff)
qed

definition example_template :: CanonicalSigningTemplate where
  "example_template = \<lparr>template_version = ''framed-v1'',
     template_components = [Token BODY], template_framing = LENGTH_PREFIXED_V1\<rparr>"

definition example_input :: SigningInput where
  "example_input = \<lparr>si_body = [1, 2], si_event_id = [97], si_logical_time_ns = 5\<rparr>"

lemma example_template_ok: "CanonicalSigningTemplate_post_init example_template = Inr example_template"
proof -
  have "identifier_pattern ''framed-v1''" by code_simp
  then show ?thesis
    by (simp add: example_template_def CanonicalSigningTemplate_post_init_def validate_identifier_def
        validate_template_components_def MAX_TEMPLATE_COMPONENTS_def MAX_TEMPLATE_LITERAL_BYTES_def Let_def)
qed

theorem framing_injective_witness:
  "\<exists>b. render example_template example_input ASCII_DECIMAL_NANOSECONDS = Inr b \<and>
     render example_template (example_input\<lparr>si_event_id := [98], si_logical_time_ns := 9\<rparr>) ASCII_DECIMAL_NANOSECONDS = Inr b \<and>
     si_body example_input = si_body (example_input\<lparr>si_event_id := [98], si_logical_time_ns := 9\<rparr>)"
proof -
  let ?other = "example_input\<lparr>si_event_id := [98], si_logical_time_ns := 9\<rparr>"
  obtain b where b: "render example_template example_input ASCII_DECIMAL_NANOSECONDS = Inr b"
      "render example_template ?other ASCII_DECIMAL_NANOSECONDS = Inr b"
    by (simp add: example_template_def example_input_def render_def render_length_prefixed_template_def
      MAX_SIGNING_INPUT_BYTES_def MAX_SIGNING_BODY_BYTES_def LENGTH_PREFIXED_TEMPLATE_DOMAIN_def raise_unless_def)
  have l: "template_framing example_template = LENGTH_PREFIXED_V1" "Token BODY \<in> set (template_components example_template)"
    by (simp_all add: example_template_def)
  from framing_injective[OF b l(1) l(1) example_template_ok example_template_ok] b l(2)
  show ?thesis by blast
qed

end
