(* ===== verification/Generic_Hmac_Signer.thy ===== *)
theory Generic_Hmac_Signer
  imports Signer_Protocol Signing_Framing
begin

text \<open>
  The generic HMAC-SHA256 signer, \<open>signatures/hmac_generic.py\<close>: its registered templates, settings, the prefixed
  hexadecimal or base64 header with its strict decoder, signing and verification.
\<close>

definition GENERIC_HMAC_SHA256_ADAPTER_ID :: string where "GENERIC_HMAC_SHA256_ADAPTER_ID = ''generic-hmac-sha256''"
definition GENERIC_HMAC_SHA256_ADAPTER_VERSION :: string where "GENERIC_HMAC_SHA256_ADAPTER_VERSION = ''v1''"
definition GENERIC_HMAC_SHA256_TEMPLATE_VERSION :: string where
  "GENERIC_HMAC_SHA256_TEMPLATE_VERSION = ''generic-hmac-sha256-body-v1''"
definition GENERIC_HMAC_SHA256_FRAMED_NS_TEMPLATE_VERSION :: string where
  "GENERIC_HMAC_SHA256_FRAMED_NS_TEMPLATE_VERSION = ''generic-hmac-sha256-framed-ns-v1''"
definition GENERIC_HMAC_SHA256_FRAMED_SECONDS_TEMPLATE_VERSION :: string where
  "GENERIC_HMAC_SHA256_FRAMED_SECONDS_TEMPLATE_VERSION = ''generic-hmac-sha256-framed-seconds-v1''"
definition DEFAULT_SIGNATURE_HEADER :: string where "DEFAULT_SIGNATURE_HEADER = ''x-webhook-signature''"
definition MAX_SIGNATURE_PREFIX_LENGTH :: nat where "MAX_SIGNATURE_PREFIX_LENGTH = 128"
definition SHA256_BASE64_CHARACTERS :: nat where "SHA256_BASE64_CHARACTERS = 44"

definition GENERIC_HMAC_SHA256_TEMPLATE_V1 :: CanonicalSigningTemplate where
  "GENERIC_HMAC_SHA256_TEMPLATE_V1 = \<lparr>template_version = GENERIC_HMAC_SHA256_TEMPLATE_VERSION,
     template_components = [Token BODY], template_framing = EXACT_BODY_V1\<rparr>"

definition GENERIC_HMAC_SHA256_FRAMED_NS_TEMPLATE_V1 :: CanonicalSigningTemplate where
  "GENERIC_HMAC_SHA256_FRAMED_NS_TEMPLATE_V1 = \<lparr>template_version = GENERIC_HMAC_SHA256_FRAMED_NS_TEMPLATE_VERSION,
     template_components = [Token TIMESTAMP, Token EVENT_ID, Token BODY], template_framing = LENGTH_PREFIXED_V1\<rparr>"

definition GENERIC_HMAC_SHA256_FRAMED_SECONDS_TEMPLATE_V1 :: CanonicalSigningTemplate where
  "GENERIC_HMAC_SHA256_FRAMED_SECONDS_TEMPLATE_V1 =
     \<lparr>template_version = GENERIC_HMAC_SHA256_FRAMED_SECONDS_TEMPLATE_VERSION,
      template_components = [Token TIMESTAMP, Token EVENT_ID, Token BODY], template_framing = LENGTH_PREFIXED_V1\<rparr>"

definition GENERIC_HMAC_SHA256_TEMPLATE_REGISTRY :: "StaticSigningTemplateRegistry result" where
  "GENERIC_HMAC_SHA256_TEMPLATE_REGISTRY = StaticSigningTemplateRegistry_init Map.empty
     [\<lparr>registered_template = GENERIC_HMAC_SHA256_TEMPLATE_V1, registered_encoding = ASCII_DECIMAL_NANOSECONDS\<rparr>,
      \<lparr>registered_template = GENERIC_HMAC_SHA256_FRAMED_NS_TEMPLATE_V1, registered_encoding = ASCII_DECIMAL_NANOSECONDS\<rparr>,
      \<lparr>registered_template = GENERIC_HMAC_SHA256_FRAMED_SECONDS_TEMPLATE_V1, registered_encoding = ASCII_DECIMAL_SECONDS_FLOOR\<rparr>]"

section \<open>Settings\<close>

record GenericHmacSha256Settings =
  gen_header_name :: string
  gen_prefix :: string
  gen_template :: CanonicalSigningTemplate
  gen_timestamp_encoding :: TimestampEncoding
  gen_output_encoding :: SignatureEncoding
  gen_key_id :: "ustring option"

definition validate_prefix :: "string \<Rightarrow> unit result" where
  "validate_prefix v =
     and_then (raise_unless (length v \<le> MAX_SIGNATURE_PREFIX_LENGTH)
       (SignerError (Configuration ''SIG_SIGNATURE_PREFIX_INVALID''
          ''Signature prefix exceeds the 128-character limit.''))) (\<lambda>_.
     and_then (raise_unless (list_all (\<lambda>c. c < 128) (text_of v))
       (SignerError (Configuration ''SIG_SIGNATURE_PREFIX_INVALID''
          ''Signature prefix must contain visible ASCII characters.''))) (\<lambda>_.
     raise_unless (\<not> list_ex (\<lambda>c. c < 33 \<or> c = 127) (text_of v))
       (SignerError (Configuration ''SIG_SIGNATURE_PREFIX_INVALID''
          ''Signature prefix must contain visible ASCII characters.''))))"

definition encoded_length :: "SignatureEncoding \<Rightarrow> nat" where
  "encoded_length e = (if e = HEX then 64 else SHA256_BASE64_CHARACTERS)"

definition GenericHmacSha256Settings_post_init :: "GenericHmacSha256Settings \<Rightarrow> GenericHmacSha256Settings result" where
  "GenericHmacSha256Settings_post_init s =
     and_then (validate_header_ownership [gen_header_name s] []) (\<lambda>normalized.
     and_then (validate_prefix (gen_prefix s)) (\<lambda>_.
     and_then GENERIC_HMAC_SHA256_TEMPLATE_REGISTRY (\<lambda>registry.
     and_then (registry_validate registry (gen_template s) (gen_timestamp_encoding s)) (\<lambda>registered.
     and_then (validate_key_id (gen_key_id s)) (\<lambda>_.
     and_then (raise_unless (\<not> length (gen_prefix s) + encoded_length (gen_output_encoding s) > MAX_HEADER_VALUE_LENGTH)
       (SignerError (Configuration ''SIG_SIGNATURE_HEADER_TOO_LARGE''
          ''Configured signature prefix exceeds the header value limit.''))) (\<lambda>_.
       Inr (s\<lparr>gen_header_name := normalized ! 0, gen_template := registered_template registered,
              gen_timestamp_encoding := registered_encoding registered\<rparr>)))))))"

definition GenericHmacSha256Settings_default :: "GenericHmacSha256Settings result" where
  "GenericHmacSha256Settings_default = GenericHmacSha256Settings_post_init
     \<lparr>gen_header_name = DEFAULT_SIGNATURE_HEADER, gen_prefix = [], gen_template = GENERIC_HMAC_SHA256_TEMPLATE_V1,
      gen_timestamp_encoding = ASCII_DECIMAL_NANOSECONDS, gen_output_encoding = HEX, gen_key_id = None\<rparr>"

record GenericHmacSha256Signer =
  gen_secret :: SecretHandle
  gen_settings :: GenericHmacSha256Settings

definition GenericHmacSha256Signer_init ::
    "SecretHandle \<Rightarrow> GenericHmacSha256Settings option \<Rightarrow> GenericHmacSha256Signer result" where
  "GenericHmacSha256Signer_init secret settings =
     and_then (case settings of None \<Rightarrow> GenericHmacSha256Settings_default | Some s \<Rightarrow> Inr s) (\<lambda>resolved.
       Inr \<lparr>gen_secret = secret, gen_settings = resolved\<rparr>)"

definition gen_owned_headers :: "GenericHmacSha256Signer \<Rightarrow> string list" where
  "gen_owned_headers s = [gen_header_name (gen_settings s)]"

definition gen_validate_user_headers :: "GenericHmacSha256Signer \<Rightarrow> string list \<Rightarrow> unit result" where
  "gen_validate_user_headers s names =
     and_then (validate_header_ownership (gen_owned_headers s) names) (\<lambda>_. Inr ())"

section \<open>Signing and verification\<close>

definition gen_canonical_message :: "GenericHmacSha256Signer \<Rightarrow> SigningInput \<Rightarrow> bytes result" where
  "gen_canonical_message s i = render (gen_template (gen_settings s)) i (gen_timestamp_encoding (gen_settings s))"

definition gen_digest :: "GenericHmacSha256Signer \<Rightarrow> bytes \<Rightarrow> bytes result" where
  "gen_digest s message =
     and_then (use_with (gen_secret s) (\<lambda>key. Inr (hmac_sha256 key message))) (\<lambda>digest.
     and_then (raise_unless (length digest = 32) (SignerError Signing)) (\<lambda>_. Inr digest))"

definition gen_evidence :: "GenericHmacSha256Signer \<Rightarrow> SigningInput \<Rightarrow> bytes \<Rightarrow> SigningEvidence result" where
  "gen_evidence s i message =
     signing_evidence GENERIC_HMAC_SHA256_ADAPTER_ID GENERIC_HMAC_SHA256_ADAPTER_VERSION
       (template_version (gen_template (gen_settings s))) i message (handle_fingerprint (gen_secret s))
       (gen_key_id (gen_settings s)) (gen_output_encoding (gen_settings s))"

definition encode_digest :: "bytes \<Rightarrow> SignatureEncoding \<Rightarrow> string" where
  "encode_digest digest encoding = (if encoding = HEX then hexdigest digest else b64encode digest)"

definition decode_header_value :: "string \<Rightarrow> string \<Rightarrow> SignatureEncoding \<Rightarrow> bytes option" where
  "decode_header_value v prefix encoding =
     (if take (length prefix) v \<noteq> prefix then None
      else let encoded = drop (length prefix) v
           in if encoding = HEX
              then if \<not> (length encoded = 64 \<and> list_all lower_hex_char encoded) then None
                   else Some (fromhex encoded)
              else if length encoded \<noteq> SHA256_BASE64_CHARACTERS then None
              else case b64decode encoded of
                     None \<Rightarrow> None
                   | Some decoded \<Rightarrow>
                       if length decoded \<noteq> 32 \<or> b64encode decoded \<noteq> encoded then None else Some decoded)"

definition gen_sign :: "GenericHmacSha256Signer \<Rightarrow> SigningInput \<Rightarrow> SigningResult result" where
  "gen_sign s i =
     and_then (gen_canonical_message s i) (\<lambda>message.
     and_then (gen_digest s message) (\<lambda>digest.
     let v = gen_prefix (gen_settings s) @ encode_digest digest (gen_output_encoding (gen_settings s)) in
     and_then (SignatureHeader_init (gen_header_name (gen_settings s)) (text_of v)) (\<lambda>header.
     and_then (gen_evidence s i message) (\<lambda>evidence.
       SigningResult_init [header] evidence))))"

definition gen_verify ::
    "GenericHmacSha256Signer \<Rightarrow> SigningInput \<Rightarrow> SignatureHeader list \<Rightarrow> VerificationResult result" where
  "gen_verify s i headers =
     and_then (gen_canonical_message s i) (\<lambda>message.
     and_then (gen_evidence s i message) (\<lambda>evidence.
     and_then (matching_headers headers (gen_header_name (gen_settings s))) (\<lambda>matching.
     if matching = [] then VerificationResult_init False MISSING_HEADER evidence
     else if length matching \<noteq> 1 then VerificationResult_init False DUPLICATE_HEADER evidence
     else case decode_header_value (header_value (matching ! 0)) (gen_prefix (gen_settings s))
                 (gen_output_encoding (gen_settings s)) of
            None \<Rightarrow> VerificationResult_init False MALFORMED_HEADER evidence
          | Some supplied \<Rightarrow>
              and_then (gen_digest s message) (\<lambda>expected.
              let valid = (expected = supplied)
              in VerificationResult_init valid (if valid then VALID else SIGNATURE_MISMATCH) evidence))))"

section \<open>The signer meets the interface\<close>

lemma decode_encode_digest:
  assumes "length d = 32"
  shows "decode_header_value (prefix @ encode_digest d e) prefix e = Some d"
  using assms hexdigest_chars(1)[of d]
  by (simp add: decode_header_value_def encode_digest_def fromhex_hexdigest SHA256_BASE64_CHARACTERS_def
      b64decode_encode b64encode_length)

definition gen_built :: "GenericHmacSha256Signer \<Rightarrow> bool" where
  "gen_built s \<longleftrightarrow> (\<exists>secret settings. GenericHmacSha256Signer_init secret settings = Inr s \<and>
     (case settings of None \<Rightarrow> True | Some st \<Rightarrow> \<exists>st0. GenericHmacSha256Settings_post_init st0 = Inr st))"

lemma gen_built_settings:
  assumes "gen_built s"
  shows "\<exists>st0. GenericHmacSha256Settings_post_init st0 = Inr (gen_settings s)"
  using assms by (auto simp: gen_built_def GenericHmacSha256Signer_init_def GenericHmacSha256Settings_default_def
      result_simps split: option.splits)

text \<open>What the checks of the settings establish.\<close>

definition generic_templates :: "(CanonicalSigningTemplate \<times> TimestampEncoding) list" where
  "generic_templates = [(GENERIC_HMAC_SHA256_TEMPLATE_V1, ASCII_DECIMAL_NANOSECONDS),
     (GENERIC_HMAC_SHA256_FRAMED_NS_TEMPLATE_V1, ASCII_DECIMAL_NANOSECONDS),
     (GENERIC_HMAC_SHA256_FRAMED_SECONDS_TEMPLATE_V1, ASCII_DECIMAL_SECONDS_FLOOR)]"

definition gen_settings_ok :: "GenericHmacSha256Settings \<Rightarrow> bool" where
  "gen_settings_ok st \<longleftrightarrow> casefold (gen_header_name st) = gen_header_name st \<and> header_token (gen_header_name st) \<and>
     length (gen_prefix st) \<le> MAX_SIGNATURE_PREFIX_LENGTH \<and> list_all (\<lambda>c. 32 \<le> c \<and> c < 127) (text_of (gen_prefix st)) \<and>
     (gen_template st, gen_timestamp_encoding st) \<in> set generic_templates \<and> validate_key_id (gen_key_id st) = Inr ()"

lemma generic_registry:
  assumes "GENERIC_HMAC_SHA256_TEMPLATE_REGISTRY = Inr reg" "registry_validate reg t e = Inr r"
  shows "registered_template r = t" "registered_encoding r = e" "(t, e) \<in> set generic_templates"
  using registry_validated[OF assms(1)[unfolded GENERIC_HMAC_SHA256_TEMPLATE_REGISTRY_def] assms(2)]
  by (auto simp: generic_templates_def)

lemma gen_settings_checked:
  assumes "GenericHmacSha256Settings_post_init st0 = Inr st"
  shows "gen_settings_ok st"
proof -
  obtain ns reg r where p: "validate_header_ownership [gen_header_name st0] [] = Inr ns"
      "validate_prefix (gen_prefix st0) = Inr ()" "GENERIC_HMAC_SHA256_TEMPLATE_REGISTRY = Inr reg"
      "registry_validate reg (gen_template st0) (gen_timestamp_encoding st0) = Inr r"
      "validate_key_id (gen_key_id st0) = Inr ()"
      "st = st0\<lparr>gen_header_name := ns ! 0, gen_template := registered_template r,
        gen_timestamp_encoding := registered_encoding r\<rparr>"
    using assms by (auto simp: GenericHmacSha256Settings_post_init_def result_simps)
  have "ns = [casefold (gen_header_name st0)]" using owned_names[OF p(1)] by simp
  moreover have "list_all (\<lambda>c. 32 \<le> c \<and> c < 127) (text_of (gen_prefix st0))"
      "length (gen_prefix st0) \<le> MAX_SIGNATURE_PREFIX_LENGTH"
    using p(2) by (auto simp: validate_prefix_def result_simps list_all_iff list_ex_iff) force+
  ultimately show ?thesis
    using owned_tokens[OF p(1)] p(5,6) generic_registry[OF p(3,4)] by (simp add: gen_settings_ok_def)
qed

lemma gen_built_ok: "gen_built s \<Longrightarrow> gen_settings_ok (gen_settings s)"
  using gen_built_settings gen_settings_checked by blast

definition gen_claim ::
    "GenericHmacSha256Signer \<Rightarrow> SigningInput \<Rightarrow> SignatureHeader list \<Rightarrow> (VerificationReason + bytes \<times> bytes list) result" where
  "gen_claim s i headers =
     and_then (gen_canonical_message s i) (\<lambda>message.
     and_then (matching_headers headers (gen_header_name (gen_settings s))) (\<lambda>matching.
     if matching = [] then Inr (Inl MISSING_HEADER)
     else if length matching \<noteq> 1 then Inr (Inl DUPLICATE_HEADER)
     else case decode_header_value (header_value (matching ! 0)) (gen_prefix (gen_settings s))
                 (gen_output_encoding (gen_settings s)) of
            None \<Rightarrow> Inr (Inl MALFORMED_HEADER)
          | Some supplied \<Rightarrow> Inr (Inr (message, [supplied]))))"

definition gen_digests :: "GenericHmacSha256Signer \<Rightarrow> bytes \<Rightarrow> bytes list result" where
  "gen_digests s message = and_then (gen_digest s message) (\<lambda>d. Inr [d])"

lemma gen_sign_claim:
  assumes "gen_built s" "gen_sign s i = Inr r"
  obtains m d ev h where "gen_canonical_message s i = Inr m" "gen_digest s m = Inr d" "gen_evidence s i m = Inr ev"
    "matching_headers (result_headers r) (gen_header_name (gen_settings s)) = Inr [h]"
    "decode_header_value (header_value h) (gen_prefix (gen_settings s)) (gen_output_encoding (gen_settings s)) = Some d"
proof -
  obtain m d h ev where p: "gen_canonical_message s i = Inr m" "gen_digest s m = Inr d"
      "SignatureHeader_init (gen_header_name (gen_settings s))
         (text_of (gen_prefix (gen_settings s) @ encode_digest d (gen_output_encoding (gen_settings s)))) = Inr h"
      "gen_evidence s i m = Inr ev" "result_headers r = [h]"
    using assms(2) by (auto simp: gen_sign_def Let_def result_simps SigningResult_init_def)
  have "header_name h = gen_header_name (gen_settings s)"
      and v: "header_value h = gen_prefix (gen_settings s) @ encode_digest d (gen_output_encoding (gen_settings s))"
    using header_init_fields[OF p(3)] gen_built_ok[OF assms(1)] by (simp_all add: gen_settings_ok_def)
  then have "matching_headers (result_headers r) (gen_header_name (gen_settings s)) = Inr [h]"
    by (simp add: p(5) matching_headers_def MAX_SIGNER_HEADERS_def)
  moreover have "length d = 32" using p(2) by (auto simp: gen_digest_def result_simps)
  ultimately show thesis using that p v decode_encode_digest by simp
qed

interpretation gen: hmac_signer gen_built gen_canonical_message gen_digests gen_claim gen_sign gen_verify
proof unfold_locales
  fix s i hs reason v
  assume "gen_claim s i hs = Inr (Inl reason)" "gen_verify s i hs = Inr v"
  then show "\<not> verified v \<and> verification_reason v = reason"
    by (auto simp: gen_claim_def gen_verify_def result_simps dest: verification_init split: if_splits option.splits)
next
  fix s i hs m ds v
  assume "gen_claim s i hs = Inr (Inr (m, ds))" "gen_verify s i hs = Inr v"
  then show "\<exists>ex. gen_digests s m = Inr ex \<and> (verified v \<longleftrightarrow> set ex \<inter> set ds \<noteq> {})"
    by (auto simp: gen_claim_def gen_verify_def gen_digests_def result_simps Let_def VerificationResult_init_def
        split: if_splits option.splits)
next
  fix s i hs e
  assume "gen_claim s i hs = Inl e"
  then show "\<not> returns (gen_verify s i hs)"
    by (auto simp: gen_claim_def gen_verify_def result_simps returns_iff split: if_splits option.splits)
next
  fix s i r
  assume "gen_built s" "gen_sign s i = Inr r"
  then obtain m d ev h where c: "gen_canonical_message s i = Inr m" "gen_digest s m = Inr d" "gen_evidence s i m = Inr ev"
    "matching_headers (result_headers r) (gen_header_name (gen_settings s)) = Inr [h]"
    "decode_header_value (header_value h) (gen_prefix (gen_settings s)) (gen_output_encoding (gen_settings s)) = Some d"
    by (rule gen_sign_claim)
  show "\<exists>m ds. gen_canonical_message s i = Inr m \<and> gen_digests s m = Inr ds \<and> ds \<noteq> [] \<and>
      gen_claim s i (result_headers r) = Inr (Inr (m, ds))"
    using c by (simp add: gen_claim_def gen_digests_def)
  show "returns (gen_verify s i (result_headers r))"
    using c by (simp add: gen_verify_def VerificationResult_init_def)
qed

section \<open>Signing succeeds\<close>

lemma valid_input:
  assumes "SigningInput_post_init i = Inr i"
  obtains b where "utf8_encode (si_event_id i) = Inr b" "length b \<le> 4096" "length (si_body i) \<le> MAX_SIGNING_BODY_BYTES"
    "SIGNED_INT64_MIN \<le> si_logical_time_ns i" "si_logical_time_ns i \<le> SIGNED_INT64_MAX"
  using assms by (auto simp: SigningInput_post_init_def encode_bounded_text_def validate_logical_time_def
      MAX_EVENT_ID_BYTES_def result_simps split: sum.splits)

lemma timestamp_length:
  assumes "SIGNED_INT64_MIN \<le> t" "t \<le> SIGNED_INT64_MAX"
  shows "length (encode_timestamp t e) \<le> 20"
proof -
  have "\<bar>t\<bar> < 10 ^ 19" using assms by (simp add: SIGNED_INT64_MIN_def SIGNED_INT64_MAX_def)
  then show ?thesis
    using seconds_bound[OF assms] int_str_length by (simp add: encode_timestamp_def)
qed

lemma generic_render_returns:
  assumes "(t, e) \<in> set generic_templates" "SigningInput_post_init i = Inr i"
  shows "returns (render t i e)"
proof -
  obtain b where b: "utf8_encode (si_event_id i) = Inr b" "length b \<le> 4096" "length (si_body i) \<le> MAX_SIGNING_BODY_BYTES"
    "SIGNED_INT64_MIN \<le> si_logical_time_ns i" "si_logical_time_ns i \<le> SIGNED_INT64_MAX"
    by (rule valid_input[OF assms(2)])
  note ts = timestamp_length[OF b(4,5)]
  have "length (template_version t) \<le> 128" "length LENGTH_PREFIXED_TEMPLATE_DOMAIN = 28"
    using assms(1)
    by (auto simp: generic_templates_def LENGTH_PREFIXED_TEMPLATE_DOMAIN_def GENERIC_HMAC_SHA256_TEMPLATE_V1_def
        GENERIC_HMAC_SHA256_FRAMED_NS_TEMPLATE_V1_def GENERIC_HMAC_SHA256_FRAMED_SECONDS_TEMPLATE_V1_def
        GENERIC_HMAC_SHA256_TEMPLATE_VERSION_def GENERIC_HMAC_SHA256_FRAMED_NS_TEMPLATE_VERSION_def
        GENERIC_HMAC_SHA256_FRAMED_SECONDS_TEMPLATE_VERSION_def)
  moreover have "template_framing t = EXACT_BODY_V1 \<or>
      template_framing t = LENGTH_PREFIXED_V1 \<and> template_components t = [Token TIMESTAMP, Token EVENT_ID, Token BODY]"
    using assms(1) by (auto simp: generic_templates_def GENERIC_HMAC_SHA256_TEMPLATE_V1_def
        GENERIC_HMAC_SHA256_FRAMED_NS_TEMPLATE_V1_def GENERIC_HMAC_SHA256_FRAMED_SECONDS_TEMPLATE_V1_def)
  ultimately show ?thesis
    using b ts[of e]
    by (auto simp: render_def render_length_prefixed_template_def Let_def MAX_SIGNING_INPUT_BYTES_def raise_unless_def)
qed

lemma encode_digest_text:
  assumes "length d = 32"
  shows "length (encode_digest d e) \<le> 64" "list_all (\<lambda>c. 32 \<le> c \<and> c < 127) (text_of (encode_digest d e))"
proof -
  show "length (encode_digest d e) \<le> 64" using assms by (simp add: encode_digest_def b64encode_length)
  have "32 \<le> (of_char c :: nat) \<and> of_char c < (127 :: nat)" if "c \<in> set (encode_digest d e)" for c
    using that hexdigest_chars(1)[of d] b64encode_printable
    by (auto simp: encode_digest_def list_all_iff lower_hex_char_def in_char_range_def less_eq_char_def
        split: if_splits dest!: bspec)
  then show "list_all (\<lambda>c. 32 \<le> c \<and> c < 127) (text_of (encode_digest d e))"
    by (auto simp: text_of_def list_all_iff)
qed

lemma gen_sign_returns:
  assumes "gen_built s" "usable (gen_secret s)" "SigningInput_post_init i = Inr i"
  shows "returns (gen_sign s i)"
proof -
  note ok = gen_built_ok[OF assms(1), unfolded gen_settings_ok_def]
  obtain m where m: "gen_canonical_message s i = Inr m"
    using generic_render_returns[OF _ assms(3), of "gen_template (gen_settings s)" "gen_timestamp_encoding (gen_settings s)"] ok
    unfolding gen_canonical_message_def by (auto simp: returns_iff)
  obtain d where d: "gen_digest s m = Inr d" "length d = 32"
    using use_with_usable[OF assms(2), of "\<lambda>key. hmac_sha256 key m"] by (auto simp: gen_digest_def)
  let ?v = "gen_prefix (gen_settings s) @ encode_digest d (gen_output_encoding (gen_settings s))"
  have "returns (SignatureHeader_init (gen_header_name (gen_settings s)) (text_of ?v))"
    using ok encode_digest_text[OF d(2), of "gen_output_encoding (gen_settings s)"]
    by (intro header_init_returns)
      (simp_all add: header_token_def text_of_def MAX_HEADER_VALUE_LENGTH_def MAX_SIGNATURE_PREFIX_LENGTH_def)
  moreover have "identifier_pattern GENERIC_HMAC_SHA256_ADAPTER_ID" "identifier_pattern GENERIC_HMAC_SHA256_ADAPTER_VERSION"
    by code_simp+
  moreover have "list_all (\<lambda>p. identifier_pattern (template_version (fst p))) generic_templates" by code_simp
  then have "identifier_pattern (template_version (gen_template (gen_settings s)))"
    using ok by (auto simp: list_all_iff dest!: bspec)
  ultimately have "returns (gen_evidence s i m)"
    using signing_evidence_returns assms(3) usable_fingerprint[OF assms(2)] ok unfolding gen_evidence_def by blast
  with \<open>returns (SignatureHeader_init _ _)\<close> m d show ?thesis
    by (auto simp: gen_sign_def Let_def returns_iff SigningResult_init_def validate_result_headers_def
        MAX_SIGNER_HEADERS_def)
qed

section \<open>Properties\<close>

text \<open>C22. The generic signer signs every valid input, and accepts exactly what it signs: with checked
  settings and a usable key it returns a result whose headers verify, and in general verification of a
  single header accepts only when the header decodes, after its prefix, to the HMAC-SHA256 of the
  rendered input under the key.\<close>

theorem gen_round_trip:
  assumes "gen_built s" "usable (gen_secret s)" "SigningInput_post_init i = Inr i"
  shows "(\<exists>r v. gen_sign s i = Inr r \<and> gen_verify s i (result_headers r) = Inr v \<and> verified v) \<and>
    (\<forall>headers v. gen_verify s i headers = Inr v \<longrightarrow> verified v \<longrightarrow>
       (\<exists>h m. [h \<leftarrow> headers. header_name h = gen_header_name (gen_settings s)] = [h] \<and>
          render (gen_template (gen_settings s)) i (gen_timestamp_encoding (gen_settings s)) = Inr m \<and>
          decode_header_value (header_value h) (gen_prefix (gen_settings s)) (gen_output_encoding (gen_settings s)) =
            Some (hmac_sha256 (projr (provider_load (gen_secret s))) m)))"
proof (intro conjI allI impI)
  obtain r where r: "gen_sign s i = Inr r" using gen_sign_returns[OF assms] by (auto simp: returns_iff)
  with gen.sign_then_verify[OF assms(1) r]
  show "\<exists>r v. gen_sign s i = Inr r \<and> gen_verify s i (result_headers r) = Inr v \<and> verified v" by blast
next
  fix headers v
  assume "gen_verify s i headers = Inr v" "verified v"
  then obtain m ds ex d where c: "gen_claim s i headers = Inr (Inr (m, ds))" "gen_digests s m = Inr ex"
      "d \<in> set ex" "d \<in> set ds"
    using gen.acceptance_needs_digest by blast
  have "d = hmac_sha256 (projr (provider_load (gen_secret s))) m"
    using c(2,3) use_with_usable[OF assms(2), of "\<lambda>key. hmac_sha256 key m"] by (auto simp: gen_digests_def gen_digest_def result_simps)
  with c(1,4) show "\<exists>h m. [h \<leftarrow> headers. header_name h = gen_header_name (gen_settings s)] = [h] \<and>
      render (gen_template (gen_settings s)) i (gen_timestamp_encoding (gen_settings s)) = Inr m \<and>
      decode_header_value (header_value h) (gen_prefix (gen_settings s)) (gen_output_encoding (gen_settings s)) =
        Some (hmac_sha256 (projr (provider_load (gen_secret s))) m)"
    by (auto simp: gen_claim_def gen_canonical_message_def matching_headers_def result_simps length_Suc_conv
        split: if_splits option.splits)
qed

definition sample_gen :: GenericHmacSha256Signer where
  "sample_gen = projr (GenericHmacSha256Signer_init sample_handle None)"

lemma sample_gen_ok: "gen_built sample_gen" "usable (gen_secret sample_gen)"
proof -
  have "returns GenericHmacSha256Settings_default" by code_simp
  then obtain st where st: "GenericHmacSha256Settings_default = Inr st" by (auto simp: returns_iff)
  have i: "GenericHmacSha256Signer_init sample_handle None = Inr \<lparr>gen_secret = sample_handle, gen_settings = st\<rparr>"
    by (simp add: GenericHmacSha256Signer_init_def st)
  then have s: "sample_gen = \<lparr>gen_secret = sample_handle, gen_settings = st\<rparr>" by (simp add: sample_gen_def)
  show "gen_built sample_gen" unfolding gen_built_def s using i by force
  show "usable (gen_secret sample_gen)" by (simp add: s sample_handle_usable)
qed

theorem gen_round_trip_witness:
  "\<exists>r v. gen_sign sample_gen sample_input = Inr r \<and>
     gen_verify sample_gen sample_input (result_headers r) = Inr v \<and> verified v"
  using gen_round_trip[OF sample_gen_ok sample_input_ok] by (rule conjunct1)

end
