(* ===== verification/Ip_Text.thy ===== *)
theory Ip_Text
  imports Text_Codecs
begin

text \<open>
  What the network modules use of Python's \<open>ipaddress\<close> (CPython 3.12): the strict parsers of dotted IPv4 and
  colon-separated IPv6 text behind \<open>ip_address\<close>, and the printers behind \<open>str\<close> with the
  compression of the longest run of zero groups. An address is a machine word; an IPv6 address may carry
  a scope. A text is a list of characters in the range of code points 0..255: any other character
  makes the parsers refuse the text.
\<close>

section \<open>Positional digits\<close>

fun digits_of :: "nat \<Rightarrow> nat \<Rightarrow> nat \<Rightarrow> nat list" where
  "digits_of b 0 n = []"
| "digits_of b (Suc k) n = digits_of b k (n div b) @ [n mod b]"

definition of_digits :: "nat \<Rightarrow> nat list \<Rightarrow> nat" where
  "of_digits b ds = foldl (\<lambda>acc d. acc * b + d) 0 ds"

lemma of_digits_snoc [simp]: "of_digits b (ds @ [d]) = of_digits b ds * b + d"
  by (simp add: of_digits_def)

lemma of_digits_Nil [simp]: "of_digits b [] = 0"
  by (simp add: of_digits_def)

lemma digits_of_length [simp]: "length (digits_of b k n) = k"
  by (induction b k n rule: digits_of.induct) auto

lemma digits_of_bound: "0 < b \<Longrightarrow> d \<in> set (digits_of b k n) \<Longrightarrow> d < b"
  by (induction b k n rule: digits_of.induct) auto

lemma of_digits_of: "n < b ^ k \<Longrightarrow> of_digits b (digits_of b k n) = n"
proof (induction b k n rule: digits_of.induct)
  case (2 b k n)
  then have "n div b < b ^ k" by (simp add: less_mult_imp_div_less mult.commute)
  with 2 show ?case by simp
qed simp

lemma those_map_Some: "(\<And>x. x \<in> set xs \<Longrightarrow> f x = Some (g x)) \<Longrightarrow> those (map f xs) = Some (map g xs)"
  by (induction xs) auto

section \<open>IPv4\<close>

definition parse_octet :: "string \<Rightarrow> nat option" where
  "parse_octet s =
     (if s = [] then None
      else if \<not> list_all decimal_char s then None
      else if length s > 3 then None
      else if s \<noteq> ''0'' \<and> hd s = CHR ''0'' then None
      else if digits_value s > 255 then None
      else Some (digits_value s))"

definition parse_ipv4 :: "string \<Rightarrow> 32 word option" where
  "parse_ipv4 s =
     (if CHR ''/'' \<in> set s \<or> s = [] then None
      else let octets = split_on CHR ''.'' s in
        if length octets \<noteq> 4 then None
        else map_option (\<lambda>ns. word_of_nat (of_digits 256 ns)) (those (map parse_octet octets)))"

definition ipv4_str :: "32 word \<Rightarrow> string" where
  "ipv4_str a = join_with CHR ''.'' (map nat_str (digits_of 256 4 (unat a)))"

section \<open>IPv6\<close>

definition hex_digit_char :: "char \<Rightarrow> bool" where
  "hex_digit_char c = (decimal_char c \<or> in_char_range CHR ''a'' CHR ''f'' c \<or> in_char_range CHR ''A'' CHR ''F'' c)"

definition any_hex_value :: "char \<Rightarrow> nat" where
  "any_hex_value c = (if decimal_char c then of_char c - 48
     else if in_char_range CHR ''a'' CHR ''f'' c then of_char c - 87 else of_char c - 55)"

definition parse_hextet :: "string \<Rightarrow> nat option" where
  "parse_hextet s =
     (if \<not> list_all hex_digit_char s then None
      else if length s > 4 then None
      else if s = [] then None
      else Some (of_digits 16 (map any_hex_value s)))"

text \<open>The format \<open>%x\<close>.\<close>

fun hex_text :: "nat \<Rightarrow> string" where
  "hex_text n = (if n < 16 then [hex_char n] else hex_text (n div 16) @ [hex_char (n mod 16)])"

declare hex_text.simps [simp del]

text \<open>A dotted suffix is replaced by the two groups it denotes.\<close>

definition expand_ipv4_suffix :: "string list \<Rightarrow> string list option" where
  "expand_ipv4_suffix parts =
     (if CHR ''.'' \<in> set (last parts)
      then case parse_ipv4 (last parts) of
          None \<Rightarrow> None
        | Some a \<Rightarrow> Some (butlast parts @ [hex_text (unat a div 65536), hex_text (unat a mod 65536)])
      else Some parts)"

definition empty_inner :: "string list \<Rightarrow> nat list" where
  "empty_inner parts = [i \<leftarrow> [1..<length parts - 1]. parts ! i = []]"

text \<open>The groups before a skipped run, the number of groups skipped, and the groups after it.\<close>

definition split_parts :: "string list \<Rightarrow> (string list \<times> nat \<times> string list) option" where
  "split_parts parts = (case empty_inner parts of
       [] \<Rightarrow> if length parts \<noteq> 8 then None
              else if hd parts = [] then None
              else if last parts = [] then None
              else Some (parts, 0, [])
     | [skip_index] \<Rightarrow>
         let parts_hi = (if hd parts = [] then skip_index - 1 else skip_index);
             parts_lo = (if last parts = [] then length parts - skip_index - 2 else length parts - skip_index - 1)
         in if hd parts = [] \<and> parts_hi \<noteq> 0 then None
            else if last parts = [] \<and> parts_lo \<noteq> 0 then None
            else if 8 < parts_hi + parts_lo + 1 then None
            else Some (take parts_hi parts, 8 - (parts_hi + parts_lo), drop (length parts - parts_lo) parts)
     | _ \<Rightarrow> None)"

definition parse_ipv6_int :: "string \<Rightarrow> 128 word option" where
  "parse_ipv6_int s =
     (if s = [] then None
      else let parts = split_on CHR '':'' s in
        if length parts < 3 then None
        else case expand_ipv4_suffix parts of
          None \<Rightarrow> None
        | Some parts \<Rightarrow>
            if length parts > 9 then None
            else case split_parts parts of
              None \<Rightarrow> None
            | Some (hi, skipped, lo) \<Rightarrow>
                (case (those (map parse_hextet hi), those (map parse_hextet lo)) of
                   (Some high, Some low) \<Rightarrow> Some (word_of_nat (of_digits 65536 (high @ replicate skipped 0 @ low)))
                 | _ \<Rightarrow> None))"

text \<open>The loop of \<open>_compress_hextets\<close>: position, start and length of the current run of zero groups, start
  and length of the longest one so far.\<close>

fun zero_run :: "nat \<Rightarrow> nat option \<Rightarrow> nat \<Rightarrow> nat \<Rightarrow> nat \<Rightarrow> string list \<Rightarrow> nat \<times> nat" where
  "zero_run index start len best_start best_len [] = (best_start, best_len)"
| "zero_run index start len best_start best_len (hextet # hextets) =
     (if hextet = ''0''
      then let start' = (case start of None \<Rightarrow> index | Some i \<Rightarrow> i) in
        if len + 1 > best_len
        then zero_run (index + 1) (Some start') (len + 1) start' (len + 1) hextets
        else zero_run (index + 1) (Some start') (len + 1) best_start best_len hextets
      else zero_run (index + 1) None 0 best_start best_len hextets)"

definition compress_hextets :: "string list \<Rightarrow> string list" where
  "compress_hextets hextets =
     (let (best_start, best_len) = zero_run 0 None 0 0 0 hextets in
      if best_len > 1
      then (if best_start = 0 then [[]] else []) @ take best_start hextets @ [[]] @
        drop (best_start + best_len) hextets @ (if best_start + best_len = length hextets then [[]] else [])
      else hextets)"

definition ipv6_str :: "128 word \<Rightarrow> string" where
  "ipv6_str a = join_with CHR '':'' (compress_hextets (map hex_text (digits_of 65536 8 (unat a))))"

section \<open>Addresses\<close>

datatype ip = IPv4Address "32 word" | IPv6Address "128 word" "string option"

text \<open>\<open>str.partition\<close>: the text before the first separator and, if there is one, the text after it.\<close>

fun partition_at :: "char \<Rightarrow> string \<Rightarrow> string \<times> string option" where
  "partition_at sep [] = ([], None)"
| "partition_at sep (c # cs) =
     (if c = sep then ([], Some cs) else case partition_at sep cs of (a, b) \<Rightarrow> (c # a, b))"

definition parse_ipv6 :: "string \<Rightarrow> ip option" where
  "parse_ipv6 s =
     (if CHR ''/'' \<in> set s then None
      else case partition_at CHR ''%'' s of
        (base, None) \<Rightarrow> map_option (\<lambda>a. IPv6Address a None) (parse_ipv6_int base)
      | (base, Some zone) \<Rightarrow>
          if zone = [] \<or> CHR ''%'' \<in> set zone then None
          else map_option (\<lambda>a. IPv6Address a (Some zone)) (parse_ipv6_int base))"

definition ip_address :: "string \<Rightarrow> ip option" where
  "ip_address s = (case parse_ipv4 s of Some a \<Rightarrow> Some (IPv4Address a) | None \<Rightarrow> parse_ipv6 s)"

fun ip_str :: "ip \<Rightarrow> string" where
  "ip_str (IPv4Address a) = ipv4_str a"
| "ip_str (IPv6Address a None) = ipv6_str a"
| "ip_str (IPv6Address a (Some zone)) = ipv6_str a @ CHR ''%'' # zone"

section \<open>Lemmas on IPv4 text\<close>

lemma decimal_chars: "decimal_char c \<Longrightarrow> c \<noteq> CHR ''.'' \<and> c \<noteq> CHR ''/'' \<and> c \<noteq> CHR '':'' \<and> c \<noteq> CHR ''%''"
  by (auto simp: decimal_char_def in_char_range_def less_eq_char_def)

lemma nat_str_nonempty: "nat_str n \<noteq> []"
  using nat_str_head[of n] by auto

lemma nat_str_zero: "nat_str n \<noteq> ''0'' \<Longrightarrow> hd (nat_str n) \<noteq> CHR ''0''"
proof -
  assume n: "nat_str n \<noteq> ''0''"
  then have "0 < n" by (cases n) (simp_all add: nat_str.simps[of 0] digit_char_def)
  then obtain d ds where "nat_str n = digit_char d # ds" "d < 10" "0 < d" using nat_str_head by blast
  then show ?thesis using digit_char_facts(4)[of d] by (auto simp: in_char_range_def less_eq_char_def)
qed

lemma parse_octet_nat_str: "n < 256 \<Longrightarrow> parse_octet (nat_str n) = Some n"
  using nat_str_digits[of n] nat_str_value[of n] nat_str_nonempty[of n] nat_str_zero[of n] nat_str_length[of n 3]
  by (auto simp: parse_octet_def)

lemma nat_str_no_sep: "CHR ''.'' \<notin> set (nat_str n)" "CHR ''/'' \<notin> set (nat_str n)"
    "CHR '':'' \<notin> set (nat_str n)" "CHR ''%'' \<notin> set (nat_str n)"
  using nat_str_digits[of n] by (auto simp: list_all_iff dest: decimal_chars)

lemma join_with_chars: "set (join_with sep xs) \<subseteq> insert sep (\<Union> (set ` set xs))"
  by (induction sep xs rule: join_with.induct) auto

lemma unat_ipv4_bound: "unat (a :: 32 word) < 256 ^ 4"
  using unsigned_less[of a] by simp

lemma digits_of_4: "digits_of b 4 n = [n div b div b div b mod b, n div b div b mod b, n div b mod b, n mod b]"
  by (simp add: numeral_eq_Suc)

lemma ipv4_str_parse: "parse_ipv4 (ipv4_str a) = Some a"
proof -
  let ?ds = "digits_of 256 4 (unat a)"
  have d: "d < 256" if "d \<in> set ?ds" for d using that digits_of_bound[of 256] by simp
  have ne: "ipv4_str a \<noteq> []" by (simp add: ipv4_str_def digits_of_4)
  have slash: "CHR ''/'' \<notin> set (ipv4_str a)"
    using join_with_chars[of "CHR ''.''" "map nat_str ?ds"] nat_str_no_sep(2) by (auto simp: ipv4_str_def)
  have "split_on CHR ''.'' (ipv4_str a) = map nat_str ?ds"
    unfolding ipv4_str_def by (rule split_on_join) (auto simp: digits_of_4 nat_str_no_sep)
  moreover have "those (map parse_octet (map nat_str ?ds)) = Some ?ds"
    using those_map_Some[of ?ds "parse_octet \<circ> nat_str" id] d by (simp add: parse_octet_nat_str)
  ultimately show ?thesis
    using ne slash of_digits_of[OF unat_ipv4_bound[of a]] by (simp add: parse_ipv4_def)
qed

section \<open>Lemmas on IPv6 text\<close>

lemma hex_char_text:
  assumes "d < 16"
  shows "hex_digit_char (hex_char d)" "any_hex_value (hex_char d) = d"
    "hex_char d \<noteq> CHR '':''" "hex_char d \<noteq> CHR ''.''" "hex_char d \<noteq> CHR ''/''" "hex_char d \<noteq> CHR ''%''"
proof -
  have "list_all (\<lambda>d. hex_digit_char (hex_char d) \<and> any_hex_value (hex_char d) = d \<and> hex_char d \<noteq> CHR '':'' \<and>
      hex_char d \<noteq> CHR ''.'' \<and> hex_char d \<noteq> CHR ''/'' \<and> hex_char d \<noteq> CHR ''%'') [0..<16]"
    by code_simp
  from below_all[OF this assms]
  show "hex_digit_char (hex_char d)" "any_hex_value (hex_char d) = d"
    "hex_char d \<noteq> CHR '':''" "hex_char d \<noteq> CHR ''.''" "hex_char d \<noteq> CHR ''/''" "hex_char d \<noteq> CHR ''%''"
    by blast+
qed

lemma hex_text_nonempty [simp]: "hex_text n \<noteq> []"
  by (subst hex_text.simps) simp

lemma nonempty_hex_text [simp]: "[] \<noteq> hex_text n"
  by (metis hex_text_nonempty)

lemma hex_text_value: "of_digits 16 (map any_hex_value (hex_text n)) = n"
proof (induction n rule: hex_text.induct)
  case (1 n)
  show ?case
  proof (cases "n < 16")
    case True
    then have "of_digits 16 (map any_hex_value (hex_text n)) = of_digits 16 ([] @ [n])"
      by (subst hex_text.simps) (simp add: hex_char_text)
    then show ?thesis by (simp only: of_digits_snoc of_digits_Nil mult_0 add_0)
  next
    case False
    with 1 show ?thesis by (subst hex_text.simps) (simp add: hex_char_text)
  qed
qed

lemma hex_text_chars: "c \<in> set (hex_text n) \<Longrightarrow> \<exists>d < 16. c = hex_char d"
proof (induction n rule: hex_text.induct)
  case (1 n)
  show ?case
  proof (cases "n < 16")
    case True
    then show ?thesis using 1(2) by (subst (asm) hex_text.simps) auto
  next
    case False
    then have "hex_text n = hex_text (n div 16) @ [hex_char (n mod 16)]" by (subst hex_text.simps) simp
    with 1 False show ?thesis by (metis Un_iff empty_iff mod_less_divisor set_append set_ConsD list.set(1) zero_less_numeral)
  qed
qed

lemma hex_text_length: "n < 16 ^ k \<Longrightarrow> 0 < k \<Longrightarrow> length (hex_text n) \<le> k"
proof (induction n arbitrary: k rule: hex_text.induct)
  case (1 n)
  show ?case
  proof (cases "n < 16")
    case True
    then show ?thesis using 1 by (subst hex_text.simps) simp
  next
    case False
    with 1 obtain j where j: "k = Suc j" "0 < j" by (cases k; cases "k - 1") auto
    then have "n div 16 < 16 ^ j" using 1(2) by (simp add: less_mult_imp_div_less mult.commute)
    with 1 False j show ?thesis by (subst hex_text.simps) simp
  qed
qed

lemma parse_hextet_text: "n < 65536 \<Longrightarrow> parse_hextet (hex_text n) = Some n"
  using hex_text_length[of n 4] hex_text_value[of n] hex_char_text(1)
  by (auto simp: parse_hextet_def list_all_iff dest: hex_text_chars)

lemma hex_text_no_sep: "CHR '':'' \<notin> set (hex_text n)" "CHR ''.'' \<notin> set (hex_text n)"
    "CHR ''/'' \<notin> set (hex_text n)" "CHR ''%'' \<notin> set (hex_text n)"
  using hex_text_chars hex_char_text(3-6) by metis+

lemma hex_text_zero: "hex_text n = ''0'' \<longleftrightarrow> n = 0"
proof
  assume "hex_text n = ''0''"
  then have "of_digits 16 (map any_hex_value (hex_text n)) = of_digits 16 [any_hex_value CHR ''0'']" by simp
  also have "\<dots> = 0" by code_simp
  finally show "n = 0" by (simp only: hex_text_value)
next
  assume "n = 0"
  then show "hex_text n = ''0''" by (subst hex_text.simps) (simp add: hex_char_def)
qed

subsection \<open>The longest run of zero groups\<close>

definition run_invariant :: "string list \<Rightarrow> nat option \<Rightarrow> nat \<Rightarrow> nat \<Rightarrow> nat \<Rightarrow> bool" where
  "run_invariant pre start len bs bl \<longleftrightarrow> bs + bl \<le> length pre \<and> take bl (drop bs pre) = replicate bl ''0'' \<and>
     len \<le> length pre \<and> drop (length pre - len) pre = replicate len ''0'' \<and>
     start = (if len = 0 then None else Some (length pre - len))"

lemma run_invariant_zero:
  assumes "run_invariant pre start len bs bl"
  shows "run_invariant (pre @ [''0'']) (Some (length pre - len)) (Suc len) (length pre - len) (Suc len)"
    "run_invariant (pre @ [''0'']) (Some (length pre - len)) (Suc len) bs bl"
  using assms by (simp_all add: run_invariant_def replicate_append_same)

lemma run_invariant_other:
  "run_invariant pre start len bs bl \<Longrightarrow> run_invariant (pre @ [h]) None 0 bs bl"
  by (simp add: run_invariant_def)

lemma zero_run_sound:
  assumes "run_invariant pre start len bs bl" "zero_run (length pre) start len bs bl suf = (s, l)"
  shows "s + l \<le> length (pre @ suf) \<and> take l (drop s (pre @ suf)) = replicate l ''0''"
  using assms
proof (induction suf arbitrary: pre start len bs bl)
  case Nil
  then show ?case by (simp add: run_invariant_def)
next
  case (Cons h suf)
  have start: "(case start of None \<Rightarrow> length pre | Some i \<Rightarrow> i) = length pre - len"
    using Cons.prems(1) by (auto simp: run_invariant_def)
  show ?case
  proof (cases "h = ''0''")
    case True
    let ?pre = "pre @ [''0'']"
    have "zero_run (length ?pre) (Some (length pre - len)) (Suc len) (length pre - len) (Suc len) suf = (s, l) \<or>
        zero_run (length ?pre) (Some (length pre - len)) (Suc len) bs bl suf = (s, l)"
      using Cons.prems(2) True start by (auto simp: Let_def split: if_splits)
    then have "s + l \<le> length (?pre @ suf) \<and> take l (drop s (?pre @ suf)) = replicate l ''0''"
      using Cons.IH[OF run_invariant_zero(1)[OF Cons.prems(1)]] Cons.IH[OF run_invariant_zero(2)[OF Cons.prems(1)]]
      by blast
    then show ?thesis using True by (simp only: append_assoc append_Cons append_Nil)
  next
    case False
    then show ?thesis
      using Cons.prems(2) Cons.IH[OF run_invariant_other[OF Cons.prems(1), of h]]
      by (simp del: take_append drop_append)
  qed
qed

lemma zero_run_split:
  assumes "zero_run 0 None 0 0 0 hs = (s, l)"
  shows "hs = take s hs @ replicate l ''0'' @ drop (s + l) hs" "s + l \<le> length hs"
proof -
  have "run_invariant [] None 0 0 0" by (simp add: run_invariant_def)
  from zero_run_sound[OF this, of hs s l] assms
  have r: "s + l \<le> length hs" "take l (drop s hs) = replicate l ''0''" by simp_all
  have "hs = take s hs @ take l (drop s hs) @ drop l (drop s hs)" by (metis append_take_drop_id)
  then show "hs = take s hs @ replicate l ''0'' @ drop (s + l) hs" using r(2) by (simp add: add.commute)
  show "s + l \<le> length hs" by (rule r(1))
qed

subsection \<open>Reading back a compressed address\<close>

lemma no_index: "(\<And>i. a \<le> i \<Longrightarrow> i < b \<Longrightarrow> \<not> P i) \<Longrightarrow> [i \<leftarrow> [a..<b]. P i] = []"
  by (simp add: filter_empty_conv)

lemma empty_inner_one:
  assumes "\<forall>p \<in> set as. p \<noteq> []" "\<forall>p \<in> set bs. p \<noteq> []"
  shows "empty_inner (x # as @ [[]] @ bs @ [y]) = [Suc (length as)]"
proof -
  let ?parts = "x # as @ [[]] @ bs @ [y]"
  let ?at = "Suc (length as)" and ?stop = "length as + length bs + 2"
  have "[1..<length ?parts - 1] = [1..<?at] @ ?at # [Suc ?at..<?stop]"
    using upt_add_eq_append[of 1 "Suc (length as)" "Suc (length bs)"]
      upt_conv_Cons[of "Suc (length as)" "Suc (length as) + Suc (length bs)"]
    by (simp del: upt_Suc)
  moreover have "[i \<leftarrow> [1..<?at]. ?parts ! i = []] = []"
  proof (rule no_index)
    fix i assume "1 \<le> i" "i < ?at"
    then obtain j where "i = Suc j" "j < length as" by (cases i) auto
    with assms(1) show "?parts ! i \<noteq> []" by (simp add: nth_append)
  qed
  moreover have "[i \<leftarrow> [Suc ?at..<?stop]. ?parts ! i = []] = []"
  proof (rule no_index)
    fix i assume i: "Suc ?at \<le> i" "i < ?stop"
    define j where "j = i - Suc ?at"
    with i have "i = Suc (length as + Suc j)" "j < length bs" by simp_all
    with assms(2) show "?parts ! i \<noteq> []" by (simp add: nth_append)
  qed
  moreover have "?parts ! ?at = []" by (simp add: nth_append)
  ultimately show ?thesis unfolding empty_inner_def by (simp only: filter_append filter.simps append_Nil refl if_True)
qed

lemma empty_inner_none: "\<forall>p \<in> set parts. p \<noteq> [] \<Longrightarrow> empty_inner parts = []"
  by (auto simp: empty_inner_def filter_empty_conv)

lemma split_parts_full:
  assumes "\<forall>p \<in> set parts. p \<noteq> []" "length parts = 8"
  shows "split_parts parts = Some (parts, 0, [])"
  using assms empty_inner_none[OF assms(1)] by (cases parts) (auto simp: split_parts_def)

text \<open>The parts of a compressed address: a run is marked by an empty part, doubled at an end.\<close>

definition compressed :: "string list \<Rightarrow> string list \<Rightarrow> string list" where
  "compressed pre post = (if pre = [] then [[]] else []) @ pre @ [[]] @ post @ (if post = [] then [[]] else [])"

lemma split_parts_compressed:
  assumes "\<forall>p \<in> set (pre @ post). p \<noteq> []" "length pre + length post < 8"
  shows "split_parts (compressed pre post) = Some (pre, 8 - (length pre + length post), post)"
proof -
  obtain x as where x: "(if pre = [] then [[]] else []) @ pre = x # as" "pre = [] \<longleftrightarrow> x = []" "\<forall>p \<in> set as. p \<noteq> []"
    using assms(1) by (cases pre) auto
  obtain y bs where y: "post @ (if post = [] then [[]] else []) = bs @ [y]" "post = [] \<longleftrightarrow> y = []" "\<forall>p \<in> set bs. p \<noteq> []"
    using assms(1) by (cases post rule: rev_cases) auto
  have parts: "compressed pre post = x # as @ [[]] @ bs @ [y]"
    using x(1) y(1) unfolding compressed_def by (metis append_Cons append_assoc)
  have len: "length pre = (if x = [] then 0 else Suc (length as))" "length post = (if y = [] then 0 else Suc (length bs))"
      "x = [] \<Longrightarrow> as = []" "y = [] \<Longrightarrow> bs = []"
    using x(1,2) y(1,2) by (auto split: if_splits dest: arg_cong[where f = length])
  have take: "take (length pre) (x # as @ [[]] @ bs @ [y]) = pre"
    using x(1,2) by (auto split: if_splits)
  have drop: "drop (length (x # as @ [[]] @ bs @ [y]) - length post) (x # as @ [[]] @ bs @ [y]) = post"
    using y(1,2) by (auto split: if_splits simp: Cons_eq_append_conv)
  show ?thesis
    using assms(2) len take drop
    unfolding parts split_parts_def empty_inner_one[OF x(3) y(3)]
    by (auto simp: Let_def)
qed

lemma compress_hextets_cases:
  obtains "compress_hextets hs = hs"
  | pre l post where "hs = pre @ replicate l ''0'' @ post" "0 < l" "compress_hextets hs = compressed pre post"
proof -
  obtain s l where r: "zero_run 0 None 0 0 0 hs = (s, l)" by (cases "zero_run 0 None 0 0 0 hs")
  note split = zero_run_split[OF r]
  show thesis
  proof (cases "1 < l")
    case True
    with split(2) have "take s hs = [] \<longleftrightarrow> s = 0" "drop (s + l) hs = [] \<longleftrightarrow> s + l = length hs" by auto
    then have "compress_hextets hs = compressed (take s hs) (drop (s + l) hs)"
      using True by (simp add: compress_hextets_def r compressed_def)
    with that(2)[OF split(1)] True show thesis by simp
  qed (use that(1) in \<open>simp add: compress_hextets_def r\<close>)
qed

lemma hextets_parse: "\<forall>d \<in> set ds. d < 65536 \<Longrightarrow> those (map parse_hextet (map hex_text ds)) = Some ds"
  using those_map_Some[of ds "parse_hextet \<circ> hex_text" id] by (simp add: parse_hextet_text)

lemma map_hex_text_zeros: "map hex_text ds = replicate l ''0'' \<Longrightarrow> ds = replicate l 0"
proof (induction ds arbitrary: l)
  case (Cons d ds)
  then obtain k where "l = Suc k" by (cases l) auto
  with Cons show ?case using hex_text_zero by simp
qed simp

lemma map_hex_text_split:
  assumes "map hex_text ds = pre @ replicate l ''0'' @ post"
  obtains as bs where "ds = as @ replicate l 0 @ bs" "pre = map hex_text as" "post = map hex_text bs"
proof -
  from assms obtain as r where 1: "ds = as @ r" "pre = map hex_text as" "map hex_text r = replicate l ''0'' @ post"
    by (metis map_eq_append_conv)
  from 1(3) obtain zs bs where 2: "r = zs @ bs" "map hex_text zs = replicate l ''0''" "post = map hex_text bs"
    by (metis map_eq_append_conv)
  from map_hex_text_zeros[OF 2(2)] 1 2 show thesis by (intro that[of as bs]) simp_all
qed

lemma compressed_parts:
  assumes "\<forall>p \<in> set (pre @ post). p \<noteq> []" "length pre + length post < 8"
  shows "3 \<le> length (compressed pre post)" "length (compressed pre post) \<le> 9"
  using assms by (cases pre; cases post; simp add: compressed_def)+

lemma parse_parts:
  assumes "split_on CHR '':'' t = parts" "t \<noteq> []" "3 \<le> length parts" "length parts \<le> 9"
    "CHR ''.'' \<notin> set (last parts)" "split_parts parts = Some (map hex_text as, k, map hex_text bs)"
    "\<forall>d \<in> set (as @ bs). d < 65536"
  shows "parse_ipv6_int t = Some (word_of_nat (of_digits 65536 (as @ replicate k 0 @ bs)))"
  using assms hextets_parse[of as] hextets_parse[of bs]
  by (simp add: parse_ipv6_int_def expand_ipv4_suffix_def del: map_map)

lemma join_with_nonempty: "1 < length xs \<Longrightarrow> join_with sep xs \<noteq> []"
  by (induction sep xs rule: join_with.induct) auto

lemma last_compressed_no_dot:
  "\<forall>p \<in> set (pre @ post). CHR ''.'' \<notin> set p \<Longrightarrow> CHR ''.'' \<notin> set (last (compressed pre post))"
  by (auto simp: compressed_def last_append)

lemma unat_ipv6_bound: "unat (a :: 128 word) < 65536 ^ 8"
  using unsigned_less[of a] by simp

lemma ipv6_str_parse: "parse_ipv6_int (ipv6_str a) = Some a"
proof -
  let ?ds = "digits_of 65536 8 (unat a)"
  let ?hs = "map hex_text ?ds"
  have bound: "\<forall>d \<in> set ?ds. d < 65536" using digits_of_bound[of 65536 _ 8 "unat a"] by simp
  have len: "length ?ds = 8" by simp
  have whole: "word_of_nat (of_digits 65536 ?ds) = a" using of_digits_of[OF unat_ipv6_bound[of a]] by simp
  have split: "split_on CHR '':'' (join_with CHR '':'' parts) = parts"
    if "parts \<noteq> []" "\<forall>p \<in> set parts. p = [] \<or> (\<exists>d. p = hex_text d)" for parts
    using that hex_text_no_sep(1) by (intro split_on_join) auto
  show ?thesis
  proof (cases rule: compress_hextets_cases[of ?hs])
    case 1
    have ne: "?hs \<noteq> []" using len by (metis length_map list.size(3) zero_neq_numeral)
    then have "last ?hs \<in> set ?hs" by (rule last_in_set)
    then have dot: "CHR ''.'' \<notin> set (last ?hs)" using hex_text_no_sep(2) by auto
    have "split_parts ?hs = Some (map hex_text ?ds, 0, map hex_text [])"
      using split_parts_full[of ?hs] by simp
    moreover have "split_on CHR '':'' (ipv6_str a) = ?hs"
      unfolding ipv6_str_def 1 by (rule split[OF ne]) auto
    moreover have "ipv6_str a \<noteq> []" unfolding ipv6_str_def 1 by (rule join_with_nonempty) simp
    ultimately show ?thesis using parse_parts[of "ipv6_str a" ?hs ?ds 0 "[]"] dot bound whole by simp
  next
    case (2 pre l post)
    from 2(1) obtain as bs where ds: "?ds = as @ replicate l 0 @ bs" "pre = map hex_text as" "post = map hex_text bs"
      by (rule map_hex_text_split)
    have l: "length pre + length post < 8" "8 - (length pre + length post) = l"
      using arg_cong[OF ds(1), of length] len 2(2) ds(2,3) by simp_all
    have ne: "\<forall>p \<in> set (pre @ post). p \<noteq> []" unfolding ds(2,3) by auto
    have parts: "split_on CHR '':'' (ipv6_str a) = compressed pre post"
      unfolding ipv6_str_def 2(3) by (rule split) (auto simp: compressed_def ds)
    have "ipv6_str a \<noteq> []" unfolding ipv6_str_def 2(3) using compressed_parts[OF ne l(1)] by (intro join_with_nonempty) simp
    moreover have "CHR ''.'' \<notin> set (last (compressed pre post))"
      by (rule last_compressed_no_dot) (use ds hex_text_no_sep(2) in auto)
    moreover have "\<forall>d \<in> set (as @ bs). d < 65536" using bound ds(1) by auto
    ultimately have "parse_ipv6_int (ipv6_str a) = Some (word_of_nat (of_digits 65536 (as @ replicate l 0 @ bs)))"
      using parse_parts[OF parts, of as l bs] compressed_parts[OF ne l(1)] split_parts_compressed[OF ne l(1)] l(2) ds(2,3)
      by simp
    then show ?thesis using whole ds(1) by simp
  qed
qed

section \<open>Addresses as text\<close>

lemma split_on_length: "length (split_on sep s) = Suc (length [c \<leftarrow> s. c = sep])"
  by (induction s) (auto split: list.splits)

text \<open>An address with a colon is no IPv4 text, one without is no IPv6 text.\<close>

lemma octet_no_colon: "parse_octet s = Some n \<Longrightarrow> CHR '':'' \<notin> set s"
  by (auto simp: parse_octet_def list_all_iff split: if_splits dest: decimal_chars)

lemma those_eq_Some: "those xs = Some ys \<longleftrightarrow> xs = map Some ys"
  by (induction xs arbitrary: ys) (auto split: option.splits)

lemma split_on_chars: "c \<in> set s \<Longrightarrow> c \<noteq> sep \<Longrightarrow> \<exists>p \<in> set (split_on sep s). c \<in> set p"
  by (induction s) (auto split: list.splits)

lemma parse_ipv4_no_colon:
  assumes "parse_ipv4 s = Some a" shows "CHR '':'' \<notin> set s"
proof
  assume "CHR '':'' \<in> set s"
  then obtain p where p: "p \<in> set (split_on CHR ''.'' s)" "CHR '':'' \<in> set p"
    using split_on_chars[of "CHR '':''" s "CHR ''.''"] by auto
  from assms obtain ns where "map parse_octet (split_on CHR ''.'' s) = map Some ns"
    by (auto simp: parse_ipv4_def Let_def those_eq_Some split: if_splits)
  then have "parse_octet p \<in> set (map Some ns)" using p(1) by (metis imageI set_map)
  then obtain n where "parse_octet p = Some n" by auto
  from octet_no_colon[OF this] p(2) show False by contradiction
qed

lemma partition_at_absent: "sep \<notin> set s \<Longrightarrow> partition_at sep s = (s, None)"
  by (induction s) auto

lemma partition_at_present: "sep \<notin> set s \<Longrightarrow> partition_at sep (s @ sep # t) = (s, Some t)"
  by (induction s) auto

lemma compress_hextets_members: "set (compress_hextets hs) \<subseteq> insert [] (set hs)"
  by (auto simp: compress_hextets_def split: prod.splits if_splits dest: in_set_takeD in_set_dropD)

lemma ipv6_str_chars: "c \<in> set (ipv6_str a) \<Longrightarrow> c = CHR '':'' \<or> (\<exists>n. c \<in> set (hex_text n))"
proof -
  let ?hs = "map hex_text (digits_of 65536 8 (unat a))"
  assume "c \<in> set (ipv6_str a)"
  then have "c = CHR '':'' \<or> (\<exists>p \<in> set (compress_hextets ?hs). c \<in> set p)"
    using join_with_chars[of "CHR '':''" "compress_hextets ?hs"] by (auto simp: ipv6_str_def)
  then show ?thesis using compress_hextets_members[of ?hs] by fastforce
qed

lemma ipv6_str_no_sep: "CHR ''/'' \<notin> set (ipv6_str a)" "CHR ''%'' \<notin> set (ipv6_str a)"
  using ipv6_str_chars[of "CHR ''/''" a] ipv6_str_chars[of "CHR ''%''" a] hex_text_no_sep by auto

lemma ipv6_str_colon: "CHR '':'' \<in> set (ipv6_str a)"
proof (rule ccontr)
  assume "CHR '':'' \<notin> set (ipv6_str a)"
  then have "split_on CHR '':'' (ipv6_str a) = [ipv6_str a]" by (rule split_on_no_sep)
  with ipv6_str_parse[of a] show False by (simp add: parse_ipv6_int_def split: if_splits)
qed

text \<open>Printing an address and parsing the text gives the address back: every IPv4 address as a dotted
  quad, every IPv6 address in its compressed form, whichever run of zero groups the printer
  elides and at whichever end, and with a scope where it has one.\<close>

lemma ip_text_round_trip:
  "ip_address (ip_str (IPv4Address a)) = Some (IPv4Address a)"
  "ip_address (ip_str (IPv6Address b None)) = Some (IPv6Address b None)"
  "zone \<noteq> [] \<and> CHR ''%'' \<notin> set zone \<and> CHR ''/'' \<notin> set zone \<Longrightarrow>
     ip_address (ip_str (IPv6Address b (Some zone))) = Some (IPv6Address b (Some zone))"
proof -
  have no4: "parse_ipv4 (ipv6_str b @ t) = None" for t
    using parse_ipv4_no_colon[of "ipv6_str b @ t"] ipv6_str_colon[of b] by (cases "parse_ipv4 (ipv6_str b @ t)") auto
  show "ip_address (ip_str (IPv4Address a)) = Some (IPv4Address a)"
    by (simp add: ip_address_def ipv4_str_parse)
  show "ip_address (ip_str (IPv6Address b None)) = Some (IPv6Address b None)"
    using no4[of "[]"] ipv6_str_no_sep[of b]
    by (simp add: ip_address_def parse_ipv6_def partition_at_absent ipv6_str_parse)
  show "ip_address (ip_str (IPv6Address b (Some zone))) = Some (IPv6Address b (Some zone))"
    if "zone \<noteq> [] \<and> CHR ''%'' \<notin> set zone \<and> CHR ''/'' \<notin> set zone"
    using no4[of "CHR ''%'' # zone"] ipv6_str_no_sep[of b] that
    by (simp add: ip_address_def parse_ipv6_def partition_at_present ipv6_str_parse)
qed

end
