(* ===== verification/Network_Addresses.thy ===== *)
theory Network_Addresses
  imports Ip_Text
begin

text \<open>
  The classification of destination addresses in \<open>network/addresses.py\<close>: the tables of networks, membership
  by netmask as \<open>ipaddress\<close> computes it, and the ordered checks. The tables give a class to every
  address; what they amount to is stated as a map of the whole address space, one row per
  stretch of addresses with the same class, and proved for all of them.
\<close>

unbundle bit_operations_syntax

section \<open>Classes and networks\<close>

datatype AddressClass = LOOPBACK | PRIVATE | PUBLIC | BLOCKED

datatype BlockedAddressReason =
    UNSPECIFIED | MULTICAST | LINK_LOCAL | METADATA | DOCUMENTATION | BENCHMARK | RESERVED |
    TRANSITION | SPECIAL_USE | SCOPED

record AddressClassification =
  normalized :: string
  version :: nat
  address_class :: AddressClass
  blocked_reason :: "BlockedAddressReason option"

text \<open>The addresses \<open>a.b.c.d\<close> and \<open>hi::lo\<close> (groups before and after the elided zeros), as integers and as
  words.\<close>

definition dotted :: "int \<Rightarrow> int \<Rightarrow> int \<Rightarrow> int \<Rightarrow> int" where
  "dotted a b c d = ((a * 256 + b) * 256 + c) * 256 + d"

definition hextets :: "int list \<Rightarrow> int list \<Rightarrow> int" where
  "hextets hi lo = foldl (\<lambda>acc g. acc * 65536 + g) 0 (hi @ replicate (8 - length hi - length lo) 0 @ lo)"

definition quad :: "int \<Rightarrow> int \<Rightarrow> int \<Rightarrow> int \<Rightarrow> 32 word" where
  "quad a b c d = word_of_int (dotted a b c d)"

definition groups :: "int list \<Rightarrow> int list \<Rightarrow> 128 word" where
  "groups hi lo = word_of_int (hextets hi lo)"

text \<open>A network is its address and prefix length; membership compares the masked address.\<close>

type_synonym 'a network = "'a word \<times> nat"

definition netmask :: "nat \<Rightarrow> 'a :: len word" where
  "netmask prefixlen = (- 1) XOR drop_bit prefixlen (- 1)"

definition in_network :: "'a :: len word \<Rightarrow> 'a network \<Rightarrow> bool" where
  "in_network a n = (a AND netmask (snd n) = fst n)"

definition IPV4_LOOPBACK :: "32 network" where
  "IPV4_LOOPBACK = (quad 127 0 0 0, 8)"

definition IPV4_PRIVATE :: "32 network list" where
  "IPV4_PRIVATE =
    [(quad 10 0 0 0, 8), (quad 172 16 0 0, 12), (quad 192 168 0 0, 16)]"

definition IPV4_METADATA :: "32 network list" where
  "IPV4_METADATA =
    [(quad 100 100 100 200, 32), (quad 168 63 129 16, 32), (quad 169 254 169 254, 32),
     (quad 169 254 170 2, 32), (quad 192 0 0 192, 32)]"

definition IPV4_BLOCKED :: "(32 network \<times> BlockedAddressReason) list" where
  "IPV4_BLOCKED =
    [((quad 0 0 0 0, 8), BlockedAddressReason.UNSPECIFIED),
     ((quad 100 64 0 0, 10), BlockedAddressReason.SPECIAL_USE),
     ((quad 169 254 0 0, 16), BlockedAddressReason.LINK_LOCAL),
     ((quad 192 0 0 0, 24), BlockedAddressReason.SPECIAL_USE),
     ((quad 192 0 2 0, 24), BlockedAddressReason.DOCUMENTATION),
     ((quad 192 31 196 0, 24), BlockedAddressReason.SPECIAL_USE),
     ((quad 192 52 193 0, 24), BlockedAddressReason.TRANSITION),
     ((quad 192 88 99 0, 24), BlockedAddressReason.TRANSITION),
     ((quad 192 175 48 0, 24), BlockedAddressReason.SPECIAL_USE),
     ((quad 198 18 0 0, 15), BlockedAddressReason.BENCHMARK),
     ((quad 198 51 100 0, 24), BlockedAddressReason.DOCUMENTATION),
     ((quad 203 0 113 0, 24), BlockedAddressReason.DOCUMENTATION),
     ((quad 224 0 0 0, 4), BlockedAddressReason.MULTICAST), ((quad 240 0 0 0, 4), BlockedAddressReason.RESERVED)]"

definition IPV6_LOOPBACK :: "128 network" where
  "IPV6_LOOPBACK = (groups [] [0x1], 128)"

definition IPV6_PRIVATE :: "128 network" where
  "IPV6_PRIVATE = (groups [0xfc00] [], 7)"

definition IPV6_METADATA :: "128 network list" where
  "IPV6_METADATA =
    [(groups [0xfd00, 0xec2] [0x254], 128), (groups [0xfd20, 0xce] [0x254], 128)]"

definition IPV6_PUBLIC :: "128 network list" where
  "IPV6_PUBLIC =
    [(groups [0x2001, 0x200] [], 23), (groups [0x2001, 0x400] [], 23), (groups [0x2001, 0x600] [], 23),
     (groups [0x2001, 0x800] [], 22), (groups [0x2001, 0xc00] [], 23), (groups [0x2001, 0xe00] [], 23),
     (groups [0x2001, 0x1200] [], 23), (groups [0x2001, 0x1400] [], 22), (groups [0x2001, 0x1800] [], 23),
     (groups [0x2001, 0x1a00] [], 23), (groups [0x2001, 0x1c00] [], 22), (groups [0x2001, 0x2000] [], 19),
     (groups [0x2001, 0x4000] [], 23), (groups [0x2001, 0x4200] [], 23), (groups [0x2001, 0x4400] [], 23),
     (groups [0x2001, 0x4600] [], 23), (groups [0x2001, 0x4800] [], 23), (groups [0x2001, 0x4a00] [], 23),
     (groups [0x2001, 0x4c00] [], 23), (groups [0x2001, 0x5000] [], 20), (groups [0x2001, 0x8000] [], 19),
     (groups [0x2001, 0xa000] [], 20), (groups [0x2001, 0xb000] [], 20), (groups [0x2003] [], 18),
     (groups [0x2400] [], 12), (groups [0x2410] [], 12), (groups [0x2600] [], 12), (groups [0x2610] [], 23),
     (groups [0x2620] [], 23), (groups [0x2630] [], 12), (groups [0x2800] [], 12), (groups [0x2a00] [], 12),
     (groups [0x2a10] [], 12), (groups [0x2c00] [], 12)]"

definition IPV6_BLOCKED :: "(128 network \<times> BlockedAddressReason) list" where
  "IPV6_BLOCKED =
    [((groups [] [], 128), BlockedAddressReason.UNSPECIFIED),
     ((groups [] [], 96), BlockedAddressReason.TRANSITION),
     ((groups [] [0xffff, 0, 0], 96), BlockedAddressReason.TRANSITION),
     ((groups [0x64, 0xff9b] [], 96), BlockedAddressReason.TRANSITION),
     ((groups [0x64, 0xff9b, 0x1] [], 48), BlockedAddressReason.TRANSITION),
     ((groups [0x100] [], 64), BlockedAddressReason.SPECIAL_USE),
     ((groups [0x100, 0, 0, 0x1] [], 64), BlockedAddressReason.SPECIAL_USE),
     ((groups [0x2001] [], 23), BlockedAddressReason.SPECIAL_USE),
     ((groups [0x2001, 0xdb8] [], 32), BlockedAddressReason.DOCUMENTATION),
     ((groups [0x2002] [], 16), BlockedAddressReason.TRANSITION),
     ((groups [0x2620, 0x4f, 0x8000] [], 48), BlockedAddressReason.SPECIAL_USE),
     ((groups [0x3ffe] [], 16), BlockedAddressReason.TRANSITION),
     ((groups [0x3fff] [], 20), BlockedAddressReason.DOCUMENTATION),
     ((groups [0x5f00] [], 16), BlockedAddressReason.DOCUMENTATION),
     ((groups [0xfec0] [], 10), BlockedAddressReason.RESERVED),
     ((groups [0xfe80] [], 10), BlockedAddressReason.LINK_LOCAL),
     ((groups [0xff00] [], 8), BlockedAddressReason.MULTICAST)]"

section \<open>Classification\<close>

definition classified :: "string \<Rightarrow> nat \<Rightarrow> AddressClass \<Rightarrow> BlockedAddressReason option \<Rightarrow> AddressClassification" where
  "classified text v c r = \<lparr>normalized = text, version = v, address_class = c, blocked_reason = r\<rparr>"

text \<open>The loop that returns the reason of the first network holding the address.\<close>

fun blocking_reason :: "'a :: len word \<Rightarrow> ('a network \<times> BlockedAddressReason) list \<Rightarrow> BlockedAddressReason option" where
  "blocking_reason a [] = None"
| "blocking_reason a ((n, reason) # rest) = (if in_network a n then Some reason else blocking_reason a rest)"

definition classify_ipv4 :: "32 word \<Rightarrow> AddressClassification" where
  "classify_ipv4 a =
     (let text = ipv4_str a in
      if in_network a IPV4_LOOPBACK then classified text 4 AddressClass.LOOPBACK None
      else if list_ex (in_network a) IPV4_PRIVATE then classified text 4 AddressClass.PRIVATE None
      else if list_ex (in_network a) IPV4_METADATA
      then classified text 4 AddressClass.BLOCKED (Some BlockedAddressReason.METADATA)
      else case blocking_reason a IPV4_BLOCKED of
          Some reason \<Rightarrow> classified text 4 AddressClass.BLOCKED (Some reason)
        | None \<Rightarrow> classified text 4 AddressClass.PUBLIC None)"

definition classify_ipv6 :: "128 word \<Rightarrow> AddressClassification" where
  "classify_ipv6 a =
     (let text = ipv6_str a in
      if in_network a IPV6_LOOPBACK then classified text 6 AddressClass.LOOPBACK None
      else if list_ex (in_network a) IPV6_METADATA
      then classified text 6 AddressClass.BLOCKED (Some BlockedAddressReason.METADATA)
      else if in_network a IPV6_PRIVATE then classified text 6 AddressClass.PRIVATE None
      else case blocking_reason a IPV6_BLOCKED of
          Some reason \<Rightarrow> classified text 6 AddressClass.BLOCKED (Some reason)
        | None \<Rightarrow>
            if list_ex (in_network a) IPV6_PUBLIC then classified text 6 AddressClass.PUBLIC None
            else classified text 6 AddressClass.BLOCKED (Some BlockedAddressReason.RESERVED))"

definition MAX_ADDRESS_TEXT_LENGTH :: nat where "MAX_ADDRESS_TEXT_LENGTH = 128"

text \<open>The white space \<open>str.strip\<close> removes, among the first 256 code points.\<close>

definition py_space :: "char \<Rightarrow> bool" where
  "py_space c = (let n = of_char c :: nat in (9 \<le> n \<and> n \<le> 13) \<or> (28 \<le> n \<and> n \<le> 32) \<or> n = 133 \<or> n = 160)"

definition py_strip :: "string \<Rightarrow> string" where
  "py_strip s = rev (dropWhile py_space (rev (dropWhile py_space s)))"

definition contains_control :: "string \<Rightarrow> bool" where
  "contains_control s = list_ex (\<lambda>c. of_char c < (32 :: nat) \<or> of_char c = (127 :: nat)) s"

definition parse_address :: "string \<Rightarrow> ip result" where
  "parse_address v = (case ip_address v of
       Some a \<Rightarrow> Inr a
     | None \<Rightarrow> Inl (ValueError ''address candidate is not a canonical IPv4 or IPv6 address''))"

fun ip_version :: "ip \<Rightarrow> nat" where
  "ip_version (IPv4Address _) = 4"
| "ip_version (IPv6Address _ _) = 6"

definition classify_address :: "string \<Rightarrow> AddressClassification result" where
  "classify_address v =
     and_then (raise_unless (\<not> (v = [] \<or> length v > MAX_ADDRESS_TEXT_LENGTH \<or> v \<noteq> py_strip v \<or> contains_control v))
       (ValueError ''address candidate must be bounded, nonempty, and control-free'')) (\<lambda>_.
     case partition_at CHR ''%'' v of
       (base, Some zone) \<Rightarrow>
         and_then (raise_unless (\<not> (base = [] \<or> zone = [] \<or> CHR ''%'' \<in> set zone))
           (ValueError ''address candidate has an invalid scope identifier'')) (\<lambda>_.
         and_then (parse_address base) (\<lambda>parsed_scoped.
           Inr (classified (ip_str parsed_scoped) (ip_version parsed_scoped) AddressClass.BLOCKED
             (Some BlockedAddressReason.SCOPED))))
     | (_, None) \<Rightarrow>
         and_then (parse_address v) (\<lambda>parsed. case parsed of
             IPv4Address a \<Rightarrow> Inr (classify_ipv4 a)
           | IPv6Address a _ \<Rightarrow> Inr (classify_ipv6 a)))"

section \<open>The address space as a map\<close>

text \<open>A row gives the class of every address from its first one up to the first of the next row.\<close>

type_synonym label = "AddressClass \<times> BlockedAddressReason option"

definition IPV4_MAP :: "(int \<times> label) list" where
  "IPV4_MAP =
    [(dotted 0 0 0 0, AddressClass.BLOCKED, Some BlockedAddressReason.UNSPECIFIED),
     (dotted 1 0 0 0, AddressClass.PUBLIC, None), (dotted 10 0 0 0, AddressClass.PRIVATE, None),
     (dotted 11 0 0 0, AddressClass.PUBLIC, None),
     (dotted 100 64 0 0, AddressClass.BLOCKED, Some BlockedAddressReason.SPECIAL_USE),
     (dotted 100 100 100 200, AddressClass.BLOCKED, Some BlockedAddressReason.METADATA),
     (dotted 100 100 100 201, AddressClass.BLOCKED, Some BlockedAddressReason.SPECIAL_USE),
     (dotted 100 128 0 0, AddressClass.PUBLIC, None), (dotted 127 0 0 0, AddressClass.LOOPBACK, None),
     (dotted 128 0 0 0, AddressClass.PUBLIC, None),
     (dotted 168 63 129 16, AddressClass.BLOCKED, Some BlockedAddressReason.METADATA),
     (dotted 168 63 129 17, AddressClass.PUBLIC, None),
     (dotted 169 254 0 0, AddressClass.BLOCKED, Some BlockedAddressReason.LINK_LOCAL),
     (dotted 169 254 169 254, AddressClass.BLOCKED, Some BlockedAddressReason.METADATA),
     (dotted 169 254 169 255, AddressClass.BLOCKED, Some BlockedAddressReason.LINK_LOCAL),
     (dotted 169 254 170 2, AddressClass.BLOCKED, Some BlockedAddressReason.METADATA),
     (dotted 169 254 170 3, AddressClass.BLOCKED, Some BlockedAddressReason.LINK_LOCAL),
     (dotted 169 255 0 0, AddressClass.PUBLIC, None), (dotted 172 16 0 0, AddressClass.PRIVATE, None),
     (dotted 172 32 0 0, AddressClass.PUBLIC, None),
     (dotted 192 0 0 0, AddressClass.BLOCKED, Some BlockedAddressReason.SPECIAL_USE),
     (dotted 192 0 0 192, AddressClass.BLOCKED, Some BlockedAddressReason.METADATA),
     (dotted 192 0 0 193, AddressClass.BLOCKED, Some BlockedAddressReason.SPECIAL_USE),
     (dotted 192 0 1 0, AddressClass.PUBLIC, None),
     (dotted 192 0 2 0, AddressClass.BLOCKED, Some BlockedAddressReason.DOCUMENTATION),
     (dotted 192 0 3 0, AddressClass.PUBLIC, None),
     (dotted 192 31 196 0, AddressClass.BLOCKED, Some BlockedAddressReason.SPECIAL_USE),
     (dotted 192 31 197 0, AddressClass.PUBLIC, None),
     (dotted 192 52 193 0, AddressClass.BLOCKED, Some BlockedAddressReason.TRANSITION),
     (dotted 192 52 194 0, AddressClass.PUBLIC, None),
     (dotted 192 88 99 0, AddressClass.BLOCKED, Some BlockedAddressReason.TRANSITION),
     (dotted 192 88 100 0, AddressClass.PUBLIC, None), (dotted 192 168 0 0, AddressClass.PRIVATE, None),
     (dotted 192 169 0 0, AddressClass.PUBLIC, None),
     (dotted 192 175 48 0, AddressClass.BLOCKED, Some BlockedAddressReason.SPECIAL_USE),
     (dotted 192 175 49 0, AddressClass.PUBLIC, None),
     (dotted 198 18 0 0, AddressClass.BLOCKED, Some BlockedAddressReason.BENCHMARK),
     (dotted 198 20 0 0, AddressClass.PUBLIC, None),
     (dotted 198 51 100 0, AddressClass.BLOCKED, Some BlockedAddressReason.DOCUMENTATION),
     (dotted 198 51 101 0, AddressClass.PUBLIC, None),
     (dotted 203 0 113 0, AddressClass.BLOCKED, Some BlockedAddressReason.DOCUMENTATION),
     (dotted 203 0 114 0, AddressClass.PUBLIC, None),
     (dotted 224 0 0 0, AddressClass.BLOCKED, Some BlockedAddressReason.MULTICAST),
     (dotted 240 0 0 0, AddressClass.BLOCKED, Some BlockedAddressReason.RESERVED)]"

definition IPV6_MAP :: "(int \<times> label) list" where
  "IPV6_MAP =
    [(hextets [] [], AddressClass.BLOCKED, Some BlockedAddressReason.UNSPECIFIED),
     (hextets [] [0x1], AddressClass.LOOPBACK, None),
     (hextets [] [0x2], AddressClass.BLOCKED, Some BlockedAddressReason.TRANSITION),
     (hextets [] [0x1, 0, 0], AddressClass.BLOCKED, Some BlockedAddressReason.RESERVED),
     (hextets [] [0xffff, 0, 0], AddressClass.BLOCKED, Some BlockedAddressReason.TRANSITION),
     (hextets [] [0x1, 0, 0, 0], AddressClass.BLOCKED, Some BlockedAddressReason.RESERVED),
     (hextets [0x64, 0xff9b] [], AddressClass.BLOCKED, Some BlockedAddressReason.TRANSITION),
     (hextets [0x64, 0xff9b] [0x1, 0, 0], AddressClass.BLOCKED, Some BlockedAddressReason.RESERVED),
     (hextets [0x64, 0xff9b, 0x1] [], AddressClass.BLOCKED, Some BlockedAddressReason.TRANSITION),
     (hextets [0x64, 0xff9b, 0x2] [], AddressClass.BLOCKED, Some BlockedAddressReason.RESERVED),
     (hextets [0x100] [], AddressClass.BLOCKED, Some BlockedAddressReason.SPECIAL_USE),
     (hextets [0x100, 0, 0, 0x2] [], AddressClass.BLOCKED, Some BlockedAddressReason.RESERVED),
     (hextets [0x2001] [], AddressClass.BLOCKED, Some BlockedAddressReason.SPECIAL_USE),
     (hextets [0x2001, 0x200] [], AddressClass.PUBLIC, None),
     (hextets [0x2001, 0xdb8] [], AddressClass.BLOCKED, Some BlockedAddressReason.DOCUMENTATION),
     (hextets [0x2001, 0xdb9] [], AddressClass.PUBLIC, None),
     (hextets [0x2001, 0x1000] [], AddressClass.BLOCKED, Some BlockedAddressReason.RESERVED),
     (hextets [0x2001, 0x1200] [], AddressClass.PUBLIC, None),
     (hextets [0x2001, 0x4e00] [], AddressClass.BLOCKED, Some BlockedAddressReason.RESERVED),
     (hextets [0x2001, 0x5000] [], AddressClass.PUBLIC, None),
     (hextets [0x2001, 0x6000] [], AddressClass.BLOCKED, Some BlockedAddressReason.RESERVED),
     (hextets [0x2001, 0x8000] [], AddressClass.PUBLIC, None),
     (hextets [0x2001, 0xc000] [], AddressClass.BLOCKED, Some BlockedAddressReason.RESERVED),
     (hextets [0x2002] [], AddressClass.BLOCKED, Some BlockedAddressReason.TRANSITION),
     (hextets [0x2003] [], AddressClass.PUBLIC, None),
     (hextets [0x2003, 0x4000] [], AddressClass.BLOCKED, Some BlockedAddressReason.RESERVED),
     (hextets [0x2400] [], AddressClass.PUBLIC, None),
     (hextets [0x2420] [], AddressClass.BLOCKED, Some BlockedAddressReason.RESERVED),
     (hextets [0x2600] [], AddressClass.PUBLIC, None),
     (hextets [0x2610, 0x200] [], AddressClass.BLOCKED, Some BlockedAddressReason.RESERVED),
     (hextets [0x2620] [], AddressClass.PUBLIC, None),
     (hextets [0x2620, 0x4f, 0x8000] [], AddressClass.BLOCKED, Some BlockedAddressReason.SPECIAL_USE),
     (hextets [0x2620, 0x4f, 0x8001] [], AddressClass.PUBLIC, None),
     (hextets [0x2620, 0x200] [], AddressClass.BLOCKED, Some BlockedAddressReason.RESERVED),
     (hextets [0x2630] [], AddressClass.PUBLIC, None),
     (hextets [0x2640] [], AddressClass.BLOCKED, Some BlockedAddressReason.RESERVED),
     (hextets [0x2800] [], AddressClass.PUBLIC, None),
     (hextets [0x2810] [], AddressClass.BLOCKED, Some BlockedAddressReason.RESERVED),
     (hextets [0x2a00] [], AddressClass.PUBLIC, None),
     (hextets [0x2a20] [], AddressClass.BLOCKED, Some BlockedAddressReason.RESERVED),
     (hextets [0x2c00] [], AddressClass.PUBLIC, None),
     (hextets [0x2c10] [], AddressClass.BLOCKED, Some BlockedAddressReason.RESERVED),
     (hextets [0x3ffe] [], AddressClass.BLOCKED, Some BlockedAddressReason.TRANSITION),
     (hextets [0x3fff] [], AddressClass.BLOCKED, Some BlockedAddressReason.DOCUMENTATION),
     (hextets [0x3fff, 0x1000] [], AddressClass.BLOCKED, Some BlockedAddressReason.RESERVED),
     (hextets [0x5f00] [], AddressClass.BLOCKED, Some BlockedAddressReason.DOCUMENTATION),
     (hextets [0x5f01] [], AddressClass.BLOCKED, Some BlockedAddressReason.RESERVED),
     (hextets [0xfc00] [], AddressClass.PRIVATE, None),
     (hextets [0xfd00, 0xec2] [0x254], AddressClass.BLOCKED, Some BlockedAddressReason.METADATA),
     (hextets [0xfd00, 0xec2] [0x255], AddressClass.PRIVATE, None),
     (hextets [0xfd20, 0xce] [0x254], AddressClass.BLOCKED, Some BlockedAddressReason.METADATA),
     (hextets [0xfd20, 0xce] [0x255], AddressClass.PRIVATE, None),
     (hextets [0xfe00] [], AddressClass.BLOCKED, Some BlockedAddressReason.RESERVED),
     (hextets [0xfe80] [], AddressClass.BLOCKED, Some BlockedAddressReason.LINK_LOCAL),
     (hextets [0xfec0] [], AddressClass.BLOCKED, Some BlockedAddressReason.RESERVED),
     (hextets [0xff00] [], AddressClass.BLOCKED, Some BlockedAddressReason.MULTICAST)]"

fun at_step :: "(int \<times> 'l) list \<Rightarrow> 'l \<Rightarrow> int \<Rightarrow> 'l" where
  "at_step [] d x = d"
| "at_step ((start, l) # rows) d x = (if x < start then d else at_step rows l x)"

section \<open>Networks as intervals\<close>

lemma netmask_not_mask: "netmask p = (NOT (mask (LENGTH('a) - p)) :: 'a :: len word)"
  by (rule bit_word_eqI) (auto simp: netmask_def bit_simps)

lemma and_netmask: "(a :: 'a :: len word) AND netmask p = push_bit (LENGTH('a) - p) (drop_bit (LENGTH('a) - p) a)"
  unfolding netmask_not_mask by (rule bit_word_eqI) (auto simp: bit_simps)

lemma uint_clear_low: "uint (push_bit k (drop_bit k (a :: 'a :: len word))) = uint a div 2 ^ k * 2 ^ k"
proof -
  have "0 \<le> uint a mod 2 ^ k" by simp
  then have "uint a div 2 ^ k * 2 ^ k \<le> uint a" using div_mult_mod_eq[of "uint a" "2 ^ k"] by linarith
  then have "uint a div 2 ^ k * 2 ^ k < 2 ^ LENGTH('a)" using uint_lt2p[of a] by linarith
  moreover have "0 \<le> uint a div 2 ^ k * 2 ^ k" by (simp add: pos_imp_zdiv_nonneg_iff)
  moreover have "uint (push_bit k (drop_bit k a)) = take_bit LENGTH('a) (push_bit k (drop_bit k (uint a)))"
    by (simp only: unsigned_push_bit_eq unsigned_drop_bit_eq bintr_uint[OF order_refl])
  ultimately show ?thesis by (simp add: push_bit_eq_mult drop_bit_eq_div take_bit_int_eq_self)
qed

lemma div_eq_interval:
  fixes b x q :: int
  assumes "0 < b"
  shows "x div b = q \<longleftrightarrow> b * q \<le> x \<and> x < b * q + b"
proof
  assume "x div b = q"
  then have "x = b * q + x mod b" using mult_div_mod_eq[of b x] by simp
  then show "b * q \<le> x \<and> x < b * q + b" using pos_mod_sign[OF assms, of x] pos_mod_bound[OF assms, of x] by linarith
next
  assume "b * q \<le> x \<and> x < b * q + b"
  then show "x div b = q" using int_div_pos_eq[of x b q "x - b * q"] by simp
qed

definition network_start :: "'a :: len network \<Rightarrow> int" where "network_start n = uint (fst n)"

definition network_end :: "'a :: len network \<Rightarrow> int" where
  "network_end n = uint (fst n) + 2 ^ (LENGTH('a) - snd n)"

definition aligned :: "'a :: len network \<Rightarrow> bool" where
  "aligned n \<longleftrightarrow> 2 ^ (LENGTH('a) - snd n) dvd uint (fst n)"

lemma in_network_interval:
  assumes "aligned (n :: 'a :: len network)"
  shows "in_network a n \<longleftrightarrow> network_start n \<le> uint a \<and> uint a < network_end n"
proof -
  let ?b = "2 ^ (LENGTH('a) - snd n) :: int"
  obtain q where q: "uint (fst n) = ?b * q" using assms by (auto simp: aligned_def dvd_def)
  have "in_network a n \<longleftrightarrow> uint a div ?b * ?b = ?b * q"
    by (simp only: in_network_def and_netmask word_uint_eq_iff uint_clear_low q)
  also have "\<dots> \<longleftrightarrow> uint a div ?b = q" by (simp add: mult.commute)
  also have "\<dots> \<longleftrightarrow> ?b * q \<le> uint a \<and> uint a < ?b * q + ?b"
    by (rule div_eq_interval) simp
  finally show ?thesis by (simp add: network_start_def network_end_def q)
qed

section \<open>Ordered rules and their map\<close>

fun label_of :: "(int \<times> int \<times> 'l) list \<Rightarrow> 'l \<Rightarrow> int \<Rightarrow> 'l" where
  "label_of [] d x = d"
| "label_of ((s, e, l) # rules) d x = (if s \<le> x \<and> x < e then l else label_of rules d x)"

definition rule :: "'l \<Rightarrow> 'a :: len network \<Rightarrow> int \<times> int \<times> 'l" where
  "rule l n = (network_start n, network_end n, l)"

lemma label_of_networks:
  "list_all aligned ns \<Longrightarrow> label_of (map (rule l) ns @ rest) d (uint a) =
     (if list_ex (in_network a) ns then l else label_of rest d (uint a))"
  by (induction ns) (auto simp: rule_def in_network_interval)

definition blocked_rule :: "'a :: len network \<times> BlockedAddressReason \<Rightarrow> int \<times> int \<times> label" where
  "blocked_rule p = rule (AddressClass.BLOCKED, Some (snd p)) (fst p)"

lemma label_of_blocked:
  "list_all (aligned \<circ> fst) ns \<Longrightarrow> label_of (map blocked_rule ns @ rest) d (uint a) =
     (case blocking_reason a ns of Some r \<Rightarrow> (AddressClass.BLOCKED, Some r) | None \<Rightarrow> label_of rest d (uint a))"
  by (induction ns) (auto simp: blocked_rule_def rule_def in_network_interval)

definition bounds_of :: "(int \<times> int \<times> 'l) list \<Rightarrow> int list" where
  "bounds_of rules = concat (map (\<lambda>(s, e, l). [s, e]) rules)"

lemma label_of_constant:
  assumes "b \<le> x" "\<forall>c \<in> set (bounds_of rules). c \<le> b \<or> x < c"
  shows "label_of rules d x = label_of rules d b"
  using assms(2)
proof (induction rules)
  case (Cons r rules)
  obtain s e l where r: "r = (s, e, l)" by (cases r)
  have "s \<le> b \<or> x < s" "e \<le> b \<or> x < e" using Cons.prems r by (simp_all add: bounds_of_def)
  then have "s \<le> x \<and> x < e \<longleftrightarrow> s \<le> b \<and> b < e" using assms(1) by linarith
  with Cons r show ?case by (simp add: bounds_of_def)
qed simp

lemma at_step_labels:
  assumes "sorted (b # bs)" "b \<le> x" "\<forall>c \<in> set (bounds_of rules). c \<le> b \<or> c \<in> set bs \<or> x < c"
  shows "at_step (map (\<lambda>b. (b, label_of rules d b)) bs) (label_of rules d b) x = label_of rules d x"
  using assms
proof (induction bs arbitrary: b)
  case Nil
  then show ?case using label_of_constant[of b x rules d] by simp
next
  case (Cons b' bs)
  show ?case
  proof (cases "x < b'")
    case True
    then have "\<forall>c \<in> set (bounds_of rules). c \<le> b \<or> x < c" using Cons.prems by fastforce
    from label_of_constant[OF Cons.prems(2) this] True show ?thesis by simp
  next
    case False
    moreover have "\<forall>c \<in> set (bounds_of rules). c \<le> b' \<or> c \<in> set bs \<or> x < c"
      using Cons.prems by fastforce
    ultimately show ?thesis using Cons.IH[of b'] Cons.prems(1) by simp
  qed
qed

text \<open>Rows that repeat the label before them say nothing new.\<close>

fun compact :: "'l \<Rightarrow> (int \<times> 'l) list \<Rightarrow> (int \<times> 'l) list" where
  "compact d [] = []"
| "compact d ((s, l) # rows) = (if l = d then compact d rows else (s, l) # compact l rows)"

lemma at_step_before: "sorted (map fst rows) \<Longrightarrow> \<forall>s \<in> set (map fst rows). x < s \<Longrightarrow> at_step rows d x = d"
  by (cases rows) auto

lemma at_step_compact: "sorted (map fst rows) \<Longrightarrow> at_step (compact d rows) d x = at_step rows d x"
proof (induction rows arbitrary: d)
  case (Cons r rows)
  obtain s l where r: "r = (s, l)" by (cases r)
  have "at_step rows l x = l" if "x < s"
    using Cons.prems that by (intro at_step_before) (auto simp: r)
  with Cons r show ?case by auto
qed simp

definition breakpoints :: "int \<Rightarrow> (int \<times> int \<times> 'l) list \<Rightarrow> int list" where
  "breakpoints limit rules = sort (remdups (filter (\<lambda>c. 0 < c \<and> c < limit) (bounds_of rules)))"

definition map_of_rules :: "int \<Rightarrow> (int \<times> int \<times> 'l) list \<Rightarrow> 'l \<Rightarrow> (int \<times> 'l) list" where
  "map_of_rules limit rules d =
     (0, label_of rules d 0) # compact (label_of rules d 0) (map (\<lambda>b. (b, label_of rules d b)) (breakpoints limit rules))"

lemma map_of_rules_exact:
  assumes "0 \<le> x" "x < limit"
  shows "at_step (map_of_rules limit rules d) d' x = label_of rules d x"
proof -
  have fst: "map fst (map (\<lambda>b. (b, label_of rules d b)) (breakpoints limit rules)) = breakpoints limit rules"
    by (simp add: comp_def)
  have "sorted (0 # breakpoints limit rules)" by (auto simp: breakpoints_def)
  moreover have "\<forall>c \<in> set (bounds_of rules). c \<le> 0 \<or> c \<in> set (breakpoints limit rules) \<or> x < c"
    using assms(2) by (auto simp: breakpoints_def)
  ultimately show ?thesis
    using assms(1) at_step_labels[of 0 "breakpoints limit rules" x rules d]
      at_step_compact[of "map (\<lambda>b. (b, label_of rules d b)) (breakpoints limit rules)"]
    unfolding map_of_rules_def fst by simp
qed

section \<open>The two maps\<close>

definition ipv4_rules :: "(int \<times> int \<times> label) list" where
  "ipv4_rules = map (rule (AddressClass.LOOPBACK, None)) [IPV4_LOOPBACK] @
     map (rule (AddressClass.PRIVATE, None)) IPV4_PRIVATE @
     map (rule (AddressClass.BLOCKED, Some BlockedAddressReason.METADATA)) IPV4_METADATA @
     map blocked_rule IPV4_BLOCKED @ []"

definition ipv6_rules :: "(int \<times> int \<times> label) list" where
  "ipv6_rules = map (rule (AddressClass.LOOPBACK, None)) [IPV6_LOOPBACK] @
     map (rule (AddressClass.BLOCKED, Some BlockedAddressReason.METADATA)) IPV6_METADATA @
     map (rule (AddressClass.PRIVATE, None)) [IPV6_PRIVATE] @
     map blocked_rule IPV6_BLOCKED @
     map (rule (AddressClass.PUBLIC, None)) IPV6_PUBLIC @ []"

definition label :: "AddressClassification \<Rightarrow> label" where
  "label c = (address_class c, blocked_reason c)"

lemma tables_aligned:
  "list_all aligned [IPV4_LOOPBACK]" "list_all aligned IPV4_PRIVATE" "list_all aligned IPV4_METADATA"
  "list_all (aligned \<circ> fst) IPV4_BLOCKED"
  "list_all aligned [IPV6_LOOPBACK]" "list_all aligned [IPV6_PRIVATE]" "list_all aligned IPV6_METADATA"
  "list_all (aligned \<circ> fst) IPV6_BLOCKED" "list_all aligned IPV6_PUBLIC"
  by code_simp+

lemma classify_ipv4_label:
  "label (classify_ipv4 a) = label_of ipv4_rules (AddressClass.PUBLIC, None) (uint a)"
  unfolding ipv4_rules_def classify_ipv4_def Let_def
  by (simp only: label_of_networks[OF tables_aligned(1)] label_of_networks[OF tables_aligned(2)]
      label_of_networks[OF tables_aligned(3)] label_of_blocked[OF tables_aligned(4)] label_of.simps)
    (auto simp: label_def classified_def split: option.splits)

lemma classify_ipv6_label:
  "label (classify_ipv6 a) = label_of ipv6_rules (AddressClass.BLOCKED, Some BlockedAddressReason.RESERVED) (uint a)"
  unfolding ipv6_rules_def classify_ipv6_def Let_def
  by (simp only: label_of_networks[OF tables_aligned(5)] label_of_networks[OF tables_aligned(6)]
      label_of_networks[OF tables_aligned(7)] label_of_blocked[OF tables_aligned(8)]
      label_of_networks[OF tables_aligned(9)] label_of.simps)
    (auto simp: label_def classified_def split: option.splits)

lemma ipv4_map_computed: "map_of_rules (2 ^ 32) ipv4_rules (AddressClass.PUBLIC, None) = IPV4_MAP"
  by code_simp

lemma ipv6_map_computed:
  "map_of_rules (2 ^ 128) ipv6_rules (AddressClass.BLOCKED, Some BlockedAddressReason.RESERVED) = IPV6_MAP"
  by code_simp

lemma at_step_constant:
  "\<forall>c \<in> set (map fst rows). c \<le> s \<or> x < c \<Longrightarrow> s \<le> x \<Longrightarrow> at_step rows d x = at_step rows d s"
  by (induction rows arbitrary: d) auto

text \<open>Reading a stretch \<open>s..<e\<close> off the map.\<close>

definition stretch :: "(int \<times> label) list \<Rightarrow> int \<Rightarrow> int \<Rightarrow> label \<Rightarrow> bool" where
  "stretch rows s e l \<longleftrightarrow> list_all (\<lambda>c. c \<le> s \<or> e \<le> c) (map fst rows) \<and> at_step rows l s = l"

lemma stretch_label: "stretch rows s e l \<Longrightarrow> s \<le> x \<Longrightarrow> x < e \<Longrightarrow> at_step rows l x = l"
  using at_step_constant[of rows s x l] by (fastforce simp: stretch_def list_all_iff)

lemma ipv4_label_map: "label (classify_ipv4 a) = at_step IPV4_MAP d (uint a)"
  unfolding classify_ipv4_label ipv4_map_computed[symmetric]
  by (rule map_of_rules_exact[symmetric]) (use uint_lt2p[of a] in simp_all)

lemma ipv6_label_map: "label (classify_ipv6 a) = at_step IPV6_MAP d (uint a)"
  unfolding classify_ipv6_label ipv6_map_computed[symmetric]
  by (rule map_of_rules_exact[symmetric]) (use uint_lt2p[of a] in simp_all)

lemma ipv6_stretch:
  "stretch IPV6_MAP s e l \<Longrightarrow> s \<le> uint a \<Longrightarrow> uint a < e \<Longrightarrow> label (classify_ipv6 a) = l"
  using stretch_label[of IPV6_MAP s e l "uint a"] ipv6_label_map[of a l] by simp

definition transition_label :: label where
  "transition_label = (AddressClass.BLOCKED, Some BlockedAddressReason.TRANSITION)"

lemma transition_stretches:
  "stretch IPV6_MAP 2 (2 ^ 32) transition_label"
  "stretch IPV6_MAP (0xffff * 2 ^ 32) (0x10000 * 2 ^ 32) transition_label"
  "stretch IPV6_MAP (0x64ff9b * 2 ^ 96) (0x64ff9b * 2 ^ 96 + 2 ^ 32) transition_label"
  "stretch IPV6_MAP (0x64ff9b0001 * 2 ^ 80) (0x64ff9b0002 * 2 ^ 80) transition_label"
  "stretch IPV6_MAP (0x2002 * 2 ^ 112) (0x2003 * 2 ^ 112) transition_label"
  by code_simp+

section \<open>Properties of the classification\<close>

text \<open>C25. The tables classify every address as the maps say: for all \<open>2^32\<close> IPv4 and all \<open>2^128\<close> IPv6
  addresses, the ordered netmask checks of the code give the class and the reason of the row whose
  stretch holds the address. The maps show the precedence between overlapping networks, as for
  metadata addresses inside private or link-local space.\<close>

theorem address_map_exact:
  "(address_class (classify_ipv4 a), blocked_reason (classify_ipv4 a)) = at_step IPV4_MAP d (uint a) \<and>
   (address_class (classify_ipv6 b), blocked_reason (classify_ipv6 b)) = at_step IPV6_MAP d (uint b)"
  using ipv4_label_map[of a d] ipv6_label_map[of b d] by (simp add: label_def)

text \<open>No IPv6 address that carries an IPv4 address is ever reachable, whatever IPv4 address it
  carries: IPv4-mapped and IPv4-compatible addresses (other than \<open>::1\<close>), both NAT64 prefixes and 6to4 are
  blocked, so that a private or metadata IPv4 address cannot be reached through its IPv6 form.\<close>

lemma embedded_ipv4_blocked:
  assumes "uint b div 2 ^ 32 \<in> {0, 0xffff, 0x64ff9b * 2 ^ 64} \<or> uint b div 2 ^ 80 = 0x64ff9b0001 \<or>
      uint b div 2 ^ 112 = 0x2002"
    and "b \<noteq> 1"
  shows "address_class (classify_ipv6 b) = AddressClass.BLOCKED"
proof -
  have "label (classify_ipv6 0) = (AddressClass.BLOCKED, Some BlockedAddressReason.UNSPECIFIED)"
    by (rule ipv6_stretch[of 0 1]) (code_simp, simp_all)
  then have zero: "label (classify_ipv6 b) \<in> {transition_label, (AddressClass.BLOCKED, Some BlockedAddressReason.UNSPECIFIED)}"
    if "uint b < 2 ^ 32"
  proof (cases "uint b < 2")
    case True
    moreover have "uint b \<noteq> 1" using assms(2) by (metis uint_1 word_uint_eq_iff)
    ultimately have "uint b = 0" using uint_ge_0[of b] by linarith
    then have "b = 0" by (simp add: word_uint_eq_iff)
    with \<open>label (classify_ipv6 0) = _\<close> show ?thesis by simp
  next
    case False
    then show ?thesis using ipv6_stretch[OF transition_stretches(1)] that by simp
  qed
  have "uint b < 2 ^ 32 \<or> label (classify_ipv6 b) = transition_label"
    using assms(1) ipv6_stretch[OF transition_stretches(2), of b] ipv6_stretch[OF transition_stretches(3), of b]
      ipv6_stretch[OF transition_stretches(4), of b] ipv6_stretch[OF transition_stretches(5), of b]
    by (auto simp: div_eq_interval)
  with zero show ?thesis by (auto simp: label_def transition_label_def)
qed

text \<open>The IPv4-mapped form of the metadata address 169.254.169.254.\<close>

lemma embedded_ipv4_blocked_witness:
  "address_class (classify_ipv6 (groups [] [0xffff, 0xa9fe, 0xa9fe])) = AddressClass.BLOCKED"
proof (rule embedded_ipv4_blocked)
  have "uint (groups [] [0xffff, 0xa9fe, 0xa9fe]) div 2 ^ 32 = 0xffff" by code_simp
  then show "uint (groups [] [0xffff, 0xa9fe, 0xa9fe]) div 2 ^ 32 \<in> {0, 0xffff, 0x64ff9b * 2 ^ 64} \<or>
      uint (groups [] [0xffff, 0xa9fe, 0xa9fe]) div 2 ^ 80 = 0x64ff9b0001 \<or>
      uint (groups [] [0xffff, 0xa9fe, 0xa9fe]) div 2 ^ 112 = 0x2002" by simp
  show "groups [] [0xffff, 0xa9fe, 0xa9fe] \<noteq> 1" by code_simp
qed

end
