(* ===== verification/Address_Stability.thy ===== *)
theory Address_Stability
  imports Network_Addresses
begin

text \<open>
  The texts that the address classifier prints are texts it reads: composing the printers and parsers of
  \<open>ipaddress\<close> with \<open>classify_address\<close>, whose guards on length, white space and control characters a
  printed address passes.
\<close>

section \<open>Classification of printed addresses\<close>

lemma plain_range:
  assumes "decimal_char c \<or> c = CHR ''.'' \<or> c = CHR '':'' \<or> (\<exists>d < 16. c = hex_char d)"
  shows "46 \<le> (of_char c :: nat) \<and> of_char c \<le> (102 :: nat)"
proof -
  have "list_all (\<lambda>d. 46 \<le> (of_char (hex_char d) :: nat) \<and> of_char (hex_char d) \<le> (102 :: nat)) [0..<16]"
    by code_simp
  from below_all[OF this] assms show ?thesis by (auto simp: decimal_char_def in_char_range_def less_eq_char_def)
qed

lemma plain_char:
  assumes "decimal_char c \<or> c = CHR ''.'' \<or> c = CHR '':'' \<or> (\<exists>d < 16. c = hex_char d)"
  shows "\<not> py_space c" "\<not> (of_char c < (32 :: nat) \<or> of_char c = (127 :: nat))" "c \<noteq> CHR ''%''"
  using plain_range[OF assms] by (auto simp: py_space_def Let_def)

lemma py_strip_plain: "\<forall>c \<in> set s. \<not> py_space c \<Longrightarrow> py_strip s = s"
proof -
  assume s: "\<forall>c \<in> set s. \<not> py_space c"
  then have "dropWhile py_space s = s" by (cases s) auto
  moreover have "dropWhile py_space (rev s) = rev s" using s by (auto simp: dropWhile_eq_self_iff hd_rev)
  ultimately show ?thesis by (simp add: py_strip_def)
qed

lemma classify_plain:
  assumes "s \<noteq> []" "length s \<le> 128"
    "\<And>c. c \<in> set s \<Longrightarrow> decimal_char c \<or> c = CHR ''.'' \<or> c = CHR '':'' \<or> (\<exists>d < 16. c = hex_char d)"
  shows "classify_address s = and_then (parse_address s) (\<lambda>parsed. case parsed of
             IPv4Address a \<Rightarrow> Inr (classify_ipv4 a) | IPv6Address a _ \<Rightarrow> Inr (classify_ipv6 a))"
proof -
  have "CHR ''%'' \<notin> set s" using assms(3) plain_char(3) by metis
  moreover have "py_strip s = s" using assms(3) plain_char(1) by (intro py_strip_plain) metis
  moreover have "\<not> contains_control s" using assms(3) plain_char(2) unfolding contains_control_def list_ex_iff by metis
  ultimately show ?thesis
    using assms(1,2) by (simp add: classify_address_def partition_at_absent MAX_ADDRESS_TEXT_LENGTH_def)
qed

lemma join_with_length: "(\<And>x. x \<in> set xs \<Longrightarrow> length x \<le> k) \<Longrightarrow> length (join_with sep xs) \<le> length xs * Suc k"
proof (induction sep xs rule: join_with.induct)
  case (3 sep x y ys)
  then have "length (join_with sep (y # ys)) \<le> length (y # ys) * Suc k" "length x \<le> k" by simp_all
  then show ?case by simp
qed auto

lemma ipv4_str_text:
  "ipv4_str a \<noteq> []" "length (ipv4_str a) \<le> 128"
  "c \<in> set (ipv4_str a) \<Longrightarrow> decimal_char c \<or> c = CHR ''.''"
proof -
  let ?ds = "digits_of 256 4 (unat a)"
  show "ipv4_str a \<noteq> []" by (simp add: ipv4_str_def digits_of_4)
  have "length x \<le> 3" if "x \<in> set (map nat_str ?ds)" for x
    using that digits_of_bound[of 256 _ 4 "unat a"] nat_str_length[of _ 3] by fastforce
  from join_with_length[of "map nat_str ?ds" 3, OF this, of "CHR ''.''"] show "length (ipv4_str a) \<le> 128" by (simp add: ipv4_str_def)
  show "decimal_char c \<or> c = CHR ''.''" if "c \<in> set (ipv4_str a)"
    using that join_with_chars[of "CHR ''.''" "map nat_str ?ds"] nat_str_digits
    by (auto simp: ipv4_str_def list_all_iff)
qed

lemma compress_hextets_length: "length hs = 8 \<Longrightarrow> length (compress_hextets hs) \<le> 12"
  by (auto simp: compress_hextets_def split: prod.splits)

lemma ipv6_str_text:
  "ipv6_str a \<noteq> []" "length (ipv6_str a) \<le> 128"
  "c \<in> set (ipv6_str a) \<Longrightarrow> c = CHR '':'' \<or> (\<exists>d < 16. c = hex_char d)"
proof -
  let ?hs = "map hex_text (digits_of 65536 8 (unat a))"
  show "ipv6_str a \<noteq> []" using ipv6_str_colon[of a] by auto
  have "length x \<le> 4" if "x \<in> set (compress_hextets ?hs)" for x
  proof -
    from that compress_hextets_members[of ?hs]
    have "x = [] \<or> (\<exists>d \<in> set (digits_of 65536 8 (unat a)). x = hex_text d)" by auto
    then show ?thesis
    proof
      assume "\<exists>d \<in> set (digits_of 65536 8 (unat a)). x = hex_text d"
      then obtain d where "d < 65536" "x = hex_text d" using digits_of_bound[of 65536 _ 8 "unat a"] by auto
      with hex_text_length[of d 4] show ?thesis by simp
    qed simp
  qed
  from join_with_length[of "compress_hextets ?hs" 4, OF this, of "CHR '':''"] compress_hextets_length[of ?hs]
  show "length (ipv6_str a) \<le> 128" by (simp add: ipv6_str_def)
  show "c = CHR '':'' \<or> (\<exists>d < 16. c = hex_char d)" if "c \<in> set (ipv6_str a)"
    using ipv6_str_chars[OF that] hex_text_chars by blast
qed

lemma classify_printed:
  "classify_address (ipv4_str a) = Inr (classify_ipv4 a)"
  "classify_address (ipv6_str b) = Inr (classify_ipv6 b)"
proof -
  have "classify_address (ipv4_str a) = and_then (parse_address (ipv4_str a)) (\<lambda>parsed. case parsed of
             IPv4Address a \<Rightarrow> Inr (classify_ipv4 a) | IPv6Address a _ \<Rightarrow> Inr (classify_ipv6 a))"
    using ipv4_str_text by (intro classify_plain) blast+
  then show "classify_address (ipv4_str a) = Inr (classify_ipv4 a)"
    using ip_text_round_trip(1)[of a] by (simp add: parse_address_def)
  have "classify_address (ipv6_str b) = and_then (parse_address (ipv6_str b)) (\<lambda>parsed. case parsed of
             IPv4Address a \<Rightarrow> Inr (classify_ipv4 a) | IPv6Address a _ \<Rightarrow> Inr (classify_ipv6 a))"
    using ipv6_str_text by (intro classify_plain) blast+
  then show "classify_address (ipv6_str b) = Inr (classify_ipv6 b)"
    using ip_text_round_trip(2)[of b] by (simp add: parse_address_def)
qed

lemma classify_normalized:
  "normalized (classify_ipv4 a) = ipv4_str a" "normalized (classify_ipv6 b) = ipv6_str b"
  "version (classify_ipv4 a) = 4" "version (classify_ipv6 b) = 6"
  by (auto simp: classify_ipv4_def classify_ipv6_def classified_def Let_def split: option.splits)

lemma classify_address_cases:
  assumes "classify_address v = Inr c"
  obtains (scoped) "address_class c = AddressClass.BLOCKED" "blocked_reason c = Some BlockedAddressReason.SCOPED"
  | (ipv4) a where "ip_address v = Some (IPv4Address a)" "c = classify_ipv4 a"
  | (ipv6) a zone where "ip_address v = Some (IPv6Address a zone)" "c = classify_ipv6 a"
proof -
  obtain base zone where p: "partition_at CHR ''%'' v = (base, zone)" by (cases "partition_at CHR ''%'' v")
  show thesis
  proof (cases zone)
    case None
    then obtain i where i: "ip_address v = Some i"
        "(case i of IPv4Address a \<Rightarrow> Inr (classify_ipv4 a) | IPv6Address a _ \<Rightarrow> Inr (classify_ipv6 a)) = (Inr c :: AddressClassification result)"
      using assms by (auto simp: classify_address_def p result_simps parse_address_def split: option.splits)
    then show thesis using ipv4 ipv6 by (cases i) auto
  next
    case (Some z)
    then show thesis using assms scoped by (auto simp: classify_address_def p result_simps classified_def)
  qed
qed

lemma classify_address_again:
  assumes "classify_address v = Inr c" "blocked_reason c \<noteq> Some BlockedAddressReason.SCOPED"
  shows "classify_address (normalized c) = Inr c"
  using assms(1)
proof (cases rule: classify_address_cases)
  case scoped
  with assms(2) show ?thesis by simp
qed (simp_all add: classify_normalized classify_printed)

lemma sample_loopback: "classify_address ''127.0.0.1'' = Inr (classify_ipv4 (quad 127 0 0 1))"
proof -
  have "ipv4_str (quad 127 0 0 1) = ''127.0.0.1''"
    by (simp add: ipv4_str_def quad_def dotted_def digits_of_4 nat_str.simps digit_char_def)
  with classify_printed(1)[of "quad 127 0 0 1"] show ?thesis by simp
qed

lemma sample_loopback_class: "label (classify_ipv4 (quad 127 0 0 1)) = (AddressClass.LOOPBACK, None)"
  unfolding ipv4_label_map[of _ "(AddressClass.LOOPBACK, None)"] by code_simp

end
