(* ===== verification/Destination_Policy.thy ===== *)
theory Destination_Policy
  imports Address_Stability Identifiers "HOL-Library.AList"
begin

text \<open>
  The destination policy of \<open>network/policy.py\<close>: strict parsing of the receiver URL, normalization of hosts,
  the gates of the three target profiles, and the authorization of resolved addresses. A text is a
  list of characters with code points 0..255. The Unicode normalization and the IDNA codec of Python are
  arguments (\<open>TextLib\<close>), since their tables are data of the interpreter; no property relies on them.
  The registry that ties policies to the objects the parser made has no counterpart for immutable values: a
  policy carries the public authorization that the registry binds to it, and the checks that do not
  concern object identity are modelled.
\<close>

section \<open>Vocabulary\<close>

datatype TargetProfile = LOOPBACK | PRIVATE_ALLOWLIST | PUBLIC_AUTHORIZED

record ReceiverConfig =
  receiver_url :: string
  target_profile :: TargetProfile
  receiver_allowed_hosts :: "string list"
  receiver_allowed_ports :: "int list"
  receiver_challenge_path :: string

record ParsedDestination =
  dest_scheme :: string
  dest_host :: string
  dest_port :: int
  dest_path :: string
  dest_query :: string
  literal_address :: "string option"

record DestinationPolicy =
  destination :: ParsedDestination
  policy_profile :: TargetProfile
  allowed_hosts :: "string list"
  allowed_ports :: "int list"
  public_challenge_path :: string
  public_authorization :: "(string \<times> int) option"

record AuthorizedDestination =
  auth_policy :: DestinationPolicy
  auth_addresses :: "AddressClassification list"

record TextLib =
  nfc :: "string \<Rightarrow> string"
  idna_encode :: "string \<Rightarrow> string option"
  idna_decode :: "string \<Rightarrow> string option"
  text_lower :: "string \<Rightarrow> string"
  netloc_ok :: "string \<Rightarrow> bool"

definition MAX_DESTINATION_URL_LENGTH :: nat where "MAX_DESTINATION_URL_LENGTH = 4096"

definition MAX_HOST_LENGTH :: nat where "MAX_HOST_LENGTH = 253"

definition MAX_RESOLVED_ADDRESSES :: nat where "MAX_RESOLVED_ADDRESSES = 64"

definition MAX_CHALLENGE_PATH_LENGTH :: nat where "MAX_CHALLENGE_PATH_LENGTH = 2048"

definition MAX_ALLOWED_HOSTS :: nat where "MAX_ALLOWED_HOSTS = 64"

definition MAX_HTTP_PORT :: int where "MAX_HTTP_PORT = 65535"

definition DEFAULT_PORTS :: "string \<rightharpoonup> int" where
  "DEFAULT_PORTS = map_of [(''http'', 80), (''https'', 443)]"

section \<open>Text helpers\<close>

definition ascii_lower :: "string \<Rightarrow> string" where
  "ascii_lower = map (\<lambda>c. if in_char_range CHR ''A'' CHR ''Z'' c then char_of (of_char c + 32 :: nat) else c)"

definition is_ascii :: "string \<Rightarrow> bool" where
  "is_ascii s = list_all (\<lambda>c. of_char c < (128 :: nat)) s"

text \<open>\<open>str.find\<close> of a substring.\<close>

fun find_sub :: "string \<Rightarrow> string \<Rightarrow> nat option" where
  "find_sub p [] = (if p = [] then Some 0 else None)"
| "find_sub p (c # cs) = (if starts_with (c # cs) p then Some 0 else map_option Suc (find_sub p cs))"

definition reject :: "string \<Rightarrow> string \<Rightarrow> 'a result" where
  "reject code message = Inl (DestinationPolicyError code message)"

definition reject_if :: "bool \<Rightarrow> string \<Rightarrow> string \<Rightarrow> unit result" where
  "reject_if b code message = raise_unless (\<not> b) (DestinationPolicyError code message)"

section \<open>Hosts\<close>

definition validate_host_text :: "string \<Rightarrow> unit result" where
  "validate_host_text v = reject_if (v = [] \<or> length v > MAX_HOST_LENGTH + 1 \<or> v \<noteq> py_strip v \<or> contains_control v \<or>
     list_ex (\<lambda>c. c \<in> set v) [CHR ''/'', CHR 92, CHR ''@'', CHR ''#'', CHR ''?'', CHR ''%'', CHR ''['', CHR '']''])
     ''invalid-host'' ''destination host is invalid''"

definition normalize_ipv6_literal :: "string \<Rightarrow> string result" where
  "normalize_ipv6_literal v = (case ip_address v of
       None \<Rightarrow> reject ''invalid-host'' ''destination IPv6 literal is invalid''
     | Some (IPv6Address a zone) \<Rightarrow> Inr (ascii_lower (ip_str (IPv6Address a zone)))
     | Some (IPv4Address _) \<Rightarrow> reject ''invalid-host'' ''destination host is invalid'')"

text \<open>The expressions \<open>_NUMERIC_HOST_LABEL\<close> (case-insensitive) and \<open>_ASCII_LABEL\<close>.\<close>

definition numeric_host_label :: "string \<Rightarrow> bool" where
  "numeric_host_label s \<longleftrightarrow> (s \<noteq> [] \<and> list_all decimal_char s) \<or>
     (3 \<le> length s \<and> s ! 0 = CHR ''0'' \<and> s ! 1 \<in> set ''xX'' \<and> list_all hex_digit_char (drop 2 s))"

definition ascii_label :: "string \<Rightarrow> bool" where
  "ascii_label s \<longleftrightarrow> s \<noteq> [] \<and> length s \<le> 63 \<and>
     list_all (\<lambda>c. in_char_range CHR ''a'' CHR ''z'' c \<or> decimal_char c \<or> c = CHR ''-'') s \<and>
     hd s \<noteq> CHR ''-'' \<and> last s \<noteq> CHR ''-''"

definition validate_idna_round_trip :: "TextLib \<Rightarrow> string \<Rightarrow> string \<Rightarrow> unit result" where
  "validate_idna_round_trip lib source ascii_host = (case idna_decode lib ascii_host of
       None \<Rightarrow> reject ''invalid-host'' ''destination host has invalid IDNA encoding''
     | Some decoded \<Rightarrow> (case idna_encode lib decoded of
         None \<Rightarrow> reject ''invalid-host'' ''destination host has invalid IDNA encoding''
       | Some encoded \<Rightarrow>
           and_then (reject_if (ascii_lower encoded \<noteq> ascii_host)
             ''invalid-host'' ''destination host IDNA encoding is ambiguous'') (\<lambda>_.
           reject_if (\<not> is_ascii source \<and> text_lower lib decoded \<noteq> text_lower lib source)
             ''invalid-host'' ''destination host IDNA mapping is ambiguous'')))"

definition normalize_dns_hostname :: "TextLib \<Rightarrow> string \<Rightarrow> string result" where
  "normalize_dns_hostname lib candidate =
     and_then (reject_if (list_all numeric_host_label (split_on CHR ''.'' candidate))
       ''invalid-host'' ''ambiguous numeric destination host is forbidden'') (\<lambda>_.
     and_then (reject_if (nfc lib candidate \<noteq> candidate)
       ''invalid-host'' ''destination host must use normalized Unicode'') (\<lambda>_.
     case idna_encode lib candidate of
       None \<Rightarrow> reject ''invalid-host'' ''destination host has invalid IDNA encoding''
     | Some encoded \<Rightarrow>
         let ascii_host = ascii_lower encoded in
         and_then (reject_if (length ascii_host > MAX_HOST_LENGTH) ''invalid-host'' ''destination host is too long'') (\<lambda>_.
         and_then (reject_if (list_ex (\<lambda>label. \<not> ascii_label label) (split_on CHR ''.'' ascii_host))
           ''invalid-host'' ''destination host has an invalid label'') (\<lambda>_.
         and_then (validate_idna_round_trip lib candidate ascii_host) (\<lambda>_.
           Inr ascii_host)))))"

definition remove_final_dot :: "string \<Rightarrow> string" where
  "remove_final_dot s = (if s \<noteq> [] \<and> last s = CHR ''.'' then butlast s else s)"

definition normalize_host :: "TextLib \<Rightarrow> string \<Rightarrow> string result" where
  "normalize_host lib v =
     and_then (validate_host_text v) (\<lambda>_.
     if CHR '':'' \<in> set v then normalize_ipv6_literal v
     else let candidate = remove_final_dot v in
       and_then (reject_if (candidate = [] \<or> last candidate = CHR ''.'') ''invalid-host'' ''destination host is invalid'') (\<lambda>_.
       case ip_address candidate of
         Some (IPv4Address a) \<Rightarrow> Inr (ipv4_str a)
       | Some (IPv6Address _ _) \<Rightarrow> reject ''invalid-host'' ''destination host is invalid''
       | None \<Rightarrow> normalize_dns_hostname lib candidate))"

section \<open>URLs\<close>

definition validate_url_text :: "string \<Rightarrow> unit result" where
  "validate_url_text v = reject_if (v = [] \<or> length v > MAX_DESTINATION_URL_LENGTH \<or> v \<noteq> py_strip v \<or> CHR 92 \<in> set v \<or>
     contains_control v) ''invalid-url'' ''receiver URL is invalid''"

definition authority_of :: "string \<Rightarrow> string" where
  "authority_of remainder = takeWhile (\<lambda>c. c \<noteq> CHR ''/'' \<and> c \<noteq> CHR ''?'') remainder"

definition extract_scheme_and_authority :: "string \<Rightarrow> (string \<times> string) result" where
  "extract_scheme_and_authority v = (case find_sub ''://'' v of
       None \<Rightarrow> reject ''invalid-url'' ''receiver URL must be absolute''
     | Some scheme_end \<Rightarrow>
         and_then (reject_if (scheme_end < 1) ''invalid-url'' ''receiver URL must be absolute'') (\<lambda>_.
         let scheme = ascii_lower (take scheme_end v) in
         and_then (reject_if (DEFAULT_PORTS scheme = None) ''invalid-scheme'' ''receiver URL scheme is not supported'') (\<lambda>_.
         let raw_authority = authority_of (drop (scheme_end + 3) v) in
         and_then (reject_if (raw_authority = []) ''invalid-url'' ''receiver URL authority is required'') (\<lambda>_.
         and_then (reject_if (CHR ''@'' \<in> set raw_authority)
           ''userinfo-forbidden'' ''receiver URL userinfo is forbidden'') (\<lambda>_.
         and_then (reject_if (CHR ''%'' \<in> set raw_authority)
           ''invalid-host'' ''percent-encoded or scoped receiver authorities are forbidden'') (\<lambda>_.
           Inr (scheme, raw_authority)))))))"

definition split_bracketed :: "string \<Rightarrow> string option \<Rightarrow> (string \<times> string option) result" where
  "split_bracketed raw_host explicit_port = (case ip_address raw_host of
       Some (IPv6Address _ _) \<Rightarrow> Inr (raw_host, explicit_port)
     | _ \<Rightarrow> reject ''invalid-host'' ''bracketed receiver host must be IPv6'')"

definition split_authority :: "string \<Rightarrow> (string \<times> string option) result" where
  "split_authority authority =
     (if authority \<noteq> [] \<and> hd authority = CHR ''[''
      then case partition_at CHR '']'' (tl authority) of
          (_, None) \<Rightarrow> reject ''invalid-host'' ''IPv6 receiver host must close its bracket''
        | (raw_host, Some suffix) \<Rightarrow>
            if suffix = [] then split_bracketed raw_host None
            else if hd suffix = CHR '':'' then split_bracketed raw_host (Some (tl suffix))
            else reject ''invalid-host'' ''receiver authority is invalid''
      else
        and_then (reject_if (CHR ''['' \<in> set authority \<or> CHR '']'' \<in> set authority \<or>
            count_list authority CHR '':'' > 1) ''invalid-host'' ''IPv6 receiver host must be bracketed'') (\<lambda>_.
        Inr (partition_at CHR '':'' authority)))"

definition parse_port :: "string option \<Rightarrow> int option \<Rightarrow> int result" where
  "parse_port v default_port = (case v of
       None \<Rightarrow> (case default_port of
           None \<Rightarrow> reject ''invalid-port'' ''an explicit destination port is required''
         | Some d \<Rightarrow> Inr d)
     | Some t \<Rightarrow>
         and_then (reject_if (t = [] \<or> \<not> list_all decimal_char t \<or> (length t > 1 \<and> hd t = CHR ''0''))
           ''invalid-port'' ''destination port is invalid or ambiguous'') (\<lambda>_.
         let port = int (digits_value t) in
         and_then (reject_if (\<not> (1 \<le> port \<and> port \<le> MAX_HTTP_PORT))
           ''invalid-port'' ''destination port is outside the valid range'') (\<lambda>_.
           Inr port)))"

text \<open>\<open>urllib.parse.urlsplit\<close>: leading blanks and embedded line breaks are dropped, a scheme is a letter
  followed by scheme characters, the network location ends at the first of \<open>/?#\<close>.\<close>

record SplitResult =
  sr_scheme :: string
  netloc :: string
  sr_path :: string
  sr_query :: string
  fragment :: string

definition scheme_char :: "char \<Rightarrow> bool" where
  "scheme_char c \<longleftrightarrow> in_char_range CHR ''a'' CHR ''z'' c \<or> in_char_range CHR ''A'' CHR ''Z'' c \<or> decimal_char c \<or>
     c \<in> set ''+-.''"

definition split_scheme :: "string \<Rightarrow> string \<times> string" where
  "split_scheme url = (case partition_at CHR '':'' url of
       (_, None) \<Rightarrow> ([], url)
     | (before, Some after) \<Rightarrow>
         if before \<noteq> [] \<and> (in_char_range CHR ''a'' CHR ''z'' (hd before) \<or> in_char_range CHR ''A'' CHR ''Z'' (hd before)) \<and>
            list_all scheme_char before
         then (ascii_lower before, after) else ([], url))"

definition split_netloc :: "string \<Rightarrow> string \<times> string" where
  "split_netloc rest =
     (if take 2 rest = ''//''
      then let body = drop 2 rest; n = takeWhile (\<lambda>c. c \<notin> set ''/?#'') body in (n, drop (length n) body)
      else ([], rest))"

definition text_or_empty :: "string option \<Rightarrow> string" where
  "text_or_empty t = (case t of None \<Rightarrow> [] | Some x \<Rightarrow> x)"

definition urlsplit :: "TextLib \<Rightarrow> string \<Rightarrow> SplitResult option" where
  "urlsplit lib v =
     (let url = filter (\<lambda>c. of_char c \<notin> {9, 10, 13 :: nat}) (dropWhile (\<lambda>c. of_char c \<le> (32 :: nat)) v);
          (scheme, rest) = split_scheme url;
          (location, rest) = split_netloc rest in
      if (CHR ''['' \<in> set location) \<noteq> (CHR '']'' \<in> set location) then None
      else if \<not> netloc_ok lib location then None
      else let (rest, frag) = partition_at CHR ''#'' rest; (path, query) = partition_at CHR ''?'' rest in
        Some \<lparr>sr_scheme = scheme, netloc = location, sr_path = path, sr_query = text_or_empty query,
              fragment = text_or_empty frag\<rparr>)"

definition require_parser_agreement :: "SplitResult \<Rightarrow> string \<Rightarrow> string \<Rightarrow> unit result" where
  "require_parser_agreement parsed scheme raw_authority =
     and_then (reject_if (ascii_lower (sr_scheme parsed) \<noteq> scheme \<or> netloc parsed \<noteq> raw_authority)
       ''invalid-url'' ''receiver URL parsing is ambiguous'') (\<lambda>_.
     and_then (reject_if (CHR ''@'' \<in> set (netloc parsed)) ''userinfo-forbidden'' ''receiver URL userinfo is forbidden'') (\<lambda>_.
     reject_if (fragment parsed \<noteq> []) ''fragment-forbidden'' ''receiver URL fragments are forbidden''))"

definition literal_of :: "string \<Rightarrow> string option" where
  "literal_of host = map_option ip_str (ip_address host)"

definition parse_destination_url :: "TextLib \<Rightarrow> string \<Rightarrow> ParsedDestination result" where
  "parse_destination_url lib v =
     and_then (validate_url_text v) (\<lambda>_.
     and_then (reject_if (CHR ''#'' \<in> set v) ''fragment-forbidden'' ''receiver URL fragments are forbidden'') (\<lambda>_.
     and_then (extract_scheme_and_authority v) (\<lambda>(scheme, raw_authority).
     and_then (split_authority raw_authority) (\<lambda>(raw_host, explicit_port).
     and_then (normalize_host lib raw_host) (\<lambda>host.
     and_then (parse_port explicit_port (DEFAULT_PORTS scheme)) (\<lambda>port.
     case urlsplit lib v of
       None \<Rightarrow> reject ''invalid-url'' ''receiver URL is invalid''
     | Some parsed \<Rightarrow>
         and_then (require_parser_agreement parsed scheme raw_authority) (\<lambda>_.
           Inr \<lparr>dest_scheme = scheme, dest_host = host, dest_port = port, dest_path = sr_path parsed,
                dest_query = sr_query parsed, literal_address = literal_of host\<rparr>)))))))"

definition authority :: "ParsedDestination \<Rightarrow> string" where
  "authority d = (if CHR '':'' \<in> set (dest_host d) then ''['' @ dest_host d @ '']'' else dest_host d) @ '':'' @
     int_str (dest_port d)"

definition normalized_url :: "ParsedDestination \<Rightarrow> string" where
  "normalized_url d = dest_scheme d @ ''://'' @ authority d @
     (if dest_query d \<noteq> [] then dest_path d @ ''?'' @ dest_query d else dest_path d)"

section \<open>Gates\<close>

definition normalize_allowed_hosts :: "TextLib \<Rightarrow> string list \<Rightarrow> string list result" where
  "normalize_allowed_hosts lib vs =
     and_then (reject_if (length vs > MAX_ALLOWED_HOSTS) ''host-not-allowed'' ''host allowlist exceeds its limit'') (\<lambda>_.
     and_then (for_each (normalize_host lib) vs) (\<lambda>hosts.
     and_then (reject_if (card (set hosts) \<noteq> length hosts)
       ''host-not-allowed'' ''host allowlist contains normalization-equivalent entries'') (\<lambda>_.
       Inr (sort hosts))))"

definition validate_challenge_path :: "string \<Rightarrow> unit result" where
  "validate_challenge_path v = reject_if (v = [] \<or> length v > MAX_CHALLENGE_PATH_LENGTH \<or> hd v \<noteq> CHR ''/'' \<or>
     take 2 v = ''//'' \<or> CHR ''?'' \<in> set v \<or> CHR ''#'' \<in> set v \<or> CHR 92 \<in> set v \<or> contains_control v)
     ''preflight-configuration-invalid'' ''public destination challenge path configuration is invalid''"

definition require_allowed_host :: "string \<Rightarrow> string list \<Rightarrow> unit result" where
  "require_allowed_host host hosts =
     reject_if (host \<notin> set hosts) ''host-not-allowed'' ''destination host is not explicitly allowed''"

definition parse_runtime_authorization :: "TextLib \<Rightarrow> string \<Rightarrow> (string \<times> int) result" where
  "parse_runtime_authorization lib v =
     and_then (reject_if (v = [] \<or> length v > MAX_HOST_LENGTH + 8 \<or> v \<noteq> py_strip v \<or> contains_control v)
       ''public-authorization-mismatch'' ''public destination runtime authorization is invalid'') (\<lambda>_.
     case and_then (split_authority v) (\<lambda>(raw_host, explicit_port).
          and_then (reject_if (explicit_port = None) ''public-authorization-mismatch''
            ''public destination runtime authorization requires an explicit port'') (\<lambda>_.
          and_then (parse_port explicit_port None) (\<lambda>port.
          and_then (normalize_host lib raw_host) (\<lambda>host. Inr (host, port))))) of
       Inr r \<Rightarrow> Inr r
     | Inl (DestinationPolicyError _ _) \<Rightarrow>
         reject ''public-authorization-mismatch'' ''public destination runtime authorization is invalid''
     | Inl e \<Rightarrow> Inl e)"

definition validate_public_gates ::
    "TextLib \<Rightarrow> ParsedDestination \<Rightarrow> string list \<Rightarrow> string \<Rightarrow> string option \<Rightarrow> (string \<times> int) result" where
  "validate_public_gates lib d hosts challenge_path runtime_authorization =
     and_then (reject_if (dest_scheme d \<noteq> ''https'') ''public-https-required'' ''public destinations require HTTPS'') (\<lambda>_.
     and_then (require_allowed_host (dest_host d) hosts) (\<lambda>_.
     and_then (validate_challenge_path challenge_path) (\<lambda>_.
     case runtime_authorization of
       None \<Rightarrow> reject ''public-authorization-required'' ''public destination runtime authorization is required''
     | Some t \<Rightarrow>
         and_then (parse_runtime_authorization lib t) (\<lambda>authorized.
         and_then (reject_if (authorized \<noteq> (dest_host d, dest_port d)) ''public-authorization-mismatch''
           ''public destination runtime authorization does not match'') (\<lambda>_.
           Inr authorized)))))"

definition enforce_address_profile :: "TargetProfile \<Rightarrow> AddressClassification \<Rightarrow> unit result" where
  "enforce_address_profile profile c =
     and_then (reject_if (address_class c = AddressClass.BLOCKED)
       ''address-blocked'' ''destination address is permanently blocked'') (\<lambda>_.
     let accepted = (case profile of
           LOOPBACK \<Rightarrow> address_class c = AddressClass.LOOPBACK
         | PRIVATE_ALLOWLIST \<Rightarrow> address_class c \<in> {AddressClass.PRIVATE, AddressClass.LOOPBACK}
         | PUBLIC_AUTHORIZED \<Rightarrow> address_class c = AddressClass.PUBLIC) in
     reject_if (\<not> accepted) ''address-profile-mismatch''
       ''destination address does not match its configured target profile'')"

text \<open>\<open>except ValueError\<close> around the classifier, whose exceptions are all value errors.\<close>

definition classify_or_reject :: "string \<Rightarrow> string \<Rightarrow> AddressClassification result" where
  "classify_or_reject message t = (case classify_address t of
       Inr c \<Rightarrow> Inr c | Inl _ \<Rightarrow> reject ''address-invalid'' message)"

definition parse_destination_policy :: "TextLib \<Rightarrow> ReceiverConfig \<Rightarrow> string option \<Rightarrow> DestinationPolicy result" where
  "parse_destination_policy lib r runtime_public_authorization =
     and_then (parse_destination_url lib (receiver_url r)) (\<lambda>d.
     and_then (normalize_allowed_hosts lib (receiver_allowed_hosts r)) (\<lambda>hosts.
     let ports = sort (receiver_allowed_ports r) in
     and_then (reject_if (dest_port d \<notin> set ports) ''port-not-allowed'' ''destination port is not explicitly allowed'') (\<lambda>_.
     and_then (case target_profile r of
         PRIVATE_ALLOWLIST \<Rightarrow> and_then (require_allowed_host (dest_host d) hosts) (\<lambda>_. Inr None)
       | PUBLIC_AUTHORIZED \<Rightarrow> and_then (validate_public_gates lib d hosts (receiver_challenge_path r)
             runtime_public_authorization) (\<lambda>a. Inr (Some a))
       | LOOPBACK \<Rightarrow> Inr None) (\<lambda>bound.
     and_then (case literal_address d of
         None \<Rightarrow> Inr ()
       | Some t \<Rightarrow> and_then (classify_or_reject ''literal destination address is invalid'' t)
           (enforce_address_profile (target_profile r))) (\<lambda>_.
       Inr \<lparr>destination = d, policy_profile = target_profile r, allowed_hosts = hosts, allowed_ports = ports,
            public_challenge_path = receiver_challenge_path r, public_authorization = bound\<rparr>)))))"

section \<open>Second phase\<close>

definition policy_profile_gates_are_valid :: "DestinationPolicy \<Rightarrow> bool" where
  "policy_profile_gates_are_valid p = (case policy_profile p of
       LOOPBACK \<Rightarrow> public_authorization p = None
     | PRIVATE_ALLOWLIST \<Rightarrow> dest_host (destination p) \<in> set (allowed_hosts p) \<and> public_authorization p = None
     | PUBLIC_AUTHORIZED \<Rightarrow> returns (validate_challenge_path (public_challenge_path p)) \<and>
         dest_scheme (destination p) = ''https'' \<and> dest_host (destination p) \<in> set (allowed_hosts p) \<and>
         public_authorization p = Some (dest_host (destination p), dest_port (destination p)))"

definition validate_policy_provenance :: "TextLib \<Rightarrow> DestinationPolicy \<Rightarrow> unit result" where
  "validate_policy_provenance lib p =
     (let d = destination p in
      reject_if (\<not> (allowed_hosts p = sort (remdups (allowed_hosts p)) \<and>
          list_all (\<lambda>h. normalize_host lib h = Inr h) (allowed_hosts p) \<and>
          allowed_ports p = sort (remdups (allowed_ports p)) \<and>
          list_all (\<lambda>n. 1 \<le> n \<and> n \<le> MAX_HTTP_PORT) (allowed_ports p) \<and>
          DEFAULT_PORTS (dest_scheme d) \<noteq> None \<and> normalize_host lib (dest_host d) = Inr (dest_host d) \<and>
          1 \<le> dest_port d \<and> dest_port d \<le> MAX_HTTP_PORT \<and> literal_address d = literal_of (dest_host d) \<and>
          dest_port d \<in> set (allowed_ports p) \<and> policy_profile_gates_are_valid p))
        ''preflight-configuration-invalid'' ''destination policy provenance or binding is invalid'')"

definition materialize_candidates :: "string list \<Rightarrow> string list result" where
  "materialize_candidates cs =
     and_then (reject_if (\<not> (1 \<le> length cs \<and> length cs \<le> MAX_RESOLVED_ADDRESSES)) ''address-set-invalid''
       ''resolved address set must contain between 1 and 64 candidates'') (\<lambda>_. Inr cs)"

definition address_key :: "AddressClassification \<Rightarrow> nat \<times> string" where
  "address_key c = (version c, normalized c)"

fun classify_candidates ::
    "TargetProfile \<Rightarrow> ((nat \<times> string) \<times> AddressClassification) list \<Rightarrow> string list \<Rightarrow>
      ((nat \<times> string) \<times> AddressClassification) list result" where
  "classify_candidates profile acc [] = Inr acc"
| "classify_candidates profile acc (t # ts) =
     and_then (classify_or_reject ''resolved address candidate is invalid'' t) (\<lambda>c.
     and_then (enforce_address_profile profile c) (\<lambda>_.
       classify_candidates profile (AList.update (address_key c) c acc) ts))"

definition literal_mismatch :: "DestinationPolicy \<Rightarrow> AddressClassification list \<Rightarrow> bool" where
  "literal_mismatch p ordered = (case literal_address (destination p) of
       None \<Rightarrow> False
     | Some literal \<Rightarrow> length ordered \<noteq> 1 \<or> normalized (ordered ! 0) \<noteq> literal)"

definition authorize_resolved_addresses ::
    "TextLib \<Rightarrow> DestinationPolicy \<Rightarrow> string list option \<Rightarrow> AuthorizedDestination result" where
  "authorize_resolved_addresses lib p candidates =
     and_then (validate_policy_provenance lib p) (\<lambda>_.
     and_then (case candidates of
         None \<Rightarrow> (case literal_address (destination p) of
             None \<Rightarrow> reject ''address-set-invalid'' ''a hostname destination requires resolved address candidates''
           | Some literal \<Rightarrow> Inr [literal])
       | Some cs \<Rightarrow> materialize_candidates cs) (\<lambda>values.
     and_then (classify_candidates (policy_profile p) [] values) (\<lambda>classifications.
     let ordered = map snd (sort_key fst classifications) in
     and_then (reject_if (literal_mismatch p ordered) ''address-set-invalid''
       ''literal destination does not match the supplied address set'') (\<lambda>_.
       Inr \<lparr>auth_policy = p, auth_addresses = ordered\<rparr>))))"

definition authorized_address_set_is_valid :: "DestinationPolicy \<Rightarrow> AddressClassification list \<Rightarrow> bool" where
  "authorized_address_set_is_valid p addresses \<longleftrightarrow>
     1 \<le> length addresses \<and> length addresses \<le> MAX_RESOLVED_ADDRESSES \<and>
     list_all (\<lambda>a. classify_address (normalized a) = Inr a \<and> returns (enforce_address_profile (policy_profile p) a))
       addresses \<and>
     map address_key addresses = sort (remdups (map address_key addresses)) \<and>
     \<not> literal_mismatch p addresses"

definition validate_authorized_destination :: "TextLib \<Rightarrow> AuthorizedDestination \<Rightarrow> AuthorizedDestination result" where
  "validate_authorized_destination lib a =
     and_then (validate_policy_provenance lib (auth_policy a)) (\<lambda>_.
     and_then (reject_if (\<not> authorized_address_set_is_valid (auth_policy a) (auth_addresses a))
       ''preflight-configuration-invalid'' ''authorized destination provenance or binding is invalid'') (\<lambda>_.
       Inr a))"

section \<open>Lemmas on authorization\<close>

fun permits :: "TargetProfile \<Rightarrow> AddressClass \<Rightarrow> bool" where
  "permits LOOPBACK c = (c = AddressClass.LOOPBACK)"
| "permits PRIVATE_ALLOWLIST c = (c = AddressClass.PRIVATE \<or> c = AddressClass.LOOPBACK)"
| "permits PUBLIC_AUTHORIZED c = (c = AddressClass.PUBLIC)"

lemma reject_if_eq_Inr [simp]: "reject_if b code m = Inr u \<longleftrightarrow> \<not> b"
  by (simp add: reject_if_def)

lemma reject_not_Inr [simp]: "reject code m \<noteq> Inr x"
  by (simp add: reject_def)

lemma enforce_iff: "enforce_address_profile profile c = Inr u \<longleftrightarrow> permits profile (address_class c)"
  by (cases profile) (auto simp: enforce_address_profile_def result_simps Let_def)

lemma enforce_returns: "returns (enforce_address_profile profile c) \<longleftrightarrow> permits profile (address_class c)"
  using enforce_iff[of profile c "()"] by (auto simp: returns_iff)

lemma classify_or_reject_iff: "classify_or_reject m t = Inr c \<longleftrightarrow> classify_address t = Inr c"
  by (auto simp: classify_or_reject_def split: sum.splits)

definition record_address ::
    "AddressClassification \<Rightarrow> ((nat \<times> string) \<times> AddressClassification) list \<Rightarrow>
      ((nat \<times> string) \<times> AddressClassification) list" where
  "record_address c acc = AList.update (address_key c) c acc"

lemma classify_candidates_iff:
  "classify_candidates profile acc ts = Inr r \<longleftrightarrow>
     (\<exists>ks. list_all2 (\<lambda>t k. classify_address t = Inr k \<and> permits profile (address_class k)) ts ks \<and>
        r = fold record_address ks acc)"
proof (induction ts arbitrary: acc)
  case (Cons t ts)
  let ?P = "\<lambda>t k. classify_address t = Inr k \<and> permits profile (address_class k)"
  have "classify_candidates profile acc (t # ts) = Inr r \<longleftrightarrow>
      (\<exists>k ks. ?P t k \<and> list_all2 ?P ts ks \<and> r = fold record_address (k # ks) acc)"
    unfolding classify_candidates.simps result_simps classify_or_reject_iff enforce_iff Cons.IH
      record_address_def[symmetric] fold_simps by auto
  then show ?case unfolding list_all2_Cons1 by blast
qed auto

text \<open>An accepted classification is determined by its key.\<close>

lemma permitted_stable:
  assumes "classify_address t = Inr k" "permits profile (address_class k)"
  shows "classify_address (normalized k) = Inr k"
proof (rule classify_address_again[OF assms(1)])
  show "blocked_reason k \<noteq> Some BlockedAddressReason.SCOPED"
    using assms(1)
  proof (cases rule: classify_address_cases)
    case scoped
    with assms(2) show ?thesis by (cases profile) auto
  next
    case (ipv4 a)
    have "blocked_reason (classify_ipv4 a) \<noteq> Some BlockedAddressReason.SCOPED \<or>
        address_class (classify_ipv4 a) = AddressClass.BLOCKED"
      by (auto simp: classify_ipv4_def classified_def Let_def split: option.splits)
    with assms(2) ipv4 show ?thesis by (cases profile) auto
  next
    case (ipv6 a zone)
    have "blocked_reason (classify_ipv6 a) \<noteq> Some BlockedAddressReason.SCOPED \<or>
        address_class (classify_ipv6 a) = AddressClass.BLOCKED"
      by (auto simp: classify_ipv6_def classified_def Let_def split: option.splits)
    with assms(2) ipv6 show ?thesis by (cases profile) auto
  qed
qed

lemma permitted_key_unique:
  assumes "classify_address t = Inr k" "permits p (address_class k)" "classify_address t' = Inr k'" "permits p (address_class k')"
    and "address_key k = address_key k'"
  shows "k = k'"
proof -
  have "normalized k = normalized k'" using assms(5) by (simp add: address_key_def)
  then have "(Inr k :: AddressClassification result) = Inr k'"
    using permitted_stable[OF assms(1,2)] permitted_stable[OF assms(3,4)] by (simp only:)
  then show ?thesis by simp
qed

lemma set_alist_update:
  fixes al :: "('k \<times> 'v) list"
  assumes "distinct (map fst al)"
  shows "set (AList.update i v al) = insert (i, v) {p \<in> set al. fst p \<noteq> i}"
proof (rule set_eqI)
  fix p :: "'k \<times> 'v"
  obtain j w where p: "p = (j, w)" by (cases p)
  have "p \<in> set (AList.update i v al) \<longleftrightarrow> ((map_of al)(i \<mapsto> v)) j = Some w"
    using map_of_eq_Some_iff[OF distinct_update[OF assms, of i v], of j w] by (simp add: p update_conv')
  also have "\<dots> \<longleftrightarrow> p \<in> insert (i, v) {p \<in> set al. fst p \<noteq> i}"
    using map_of_eq_Some_iff[OF assms, of j w] by (cases "j = i") (auto simp: p)
  finally show "p \<in> set (AList.update i v al) \<longleftrightarrow> p \<in> insert (i, v) {p \<in> set al. fst p \<noteq> i}" .
qed

lemma recorded_addresses:
  assumes "inj_on address_key (set ks)"
  shows "distinct (map fst (fold record_address ks [])) \<and>
    set (fold record_address ks []) = (\<lambda>k. (address_key k, k)) ` set ks"
  using assms
proof (induction ks rule: rev_induct)
  case (snoc k ks)
  then have IH: "distinct (map fst (fold record_address ks []))"
      "set (fold record_address ks []) = (\<lambda>k. (address_key k, k)) ` set ks"
    by (simp_all add: inj_on_insert)
  have "\<And>j. j \<in> set ks \<Longrightarrow> address_key j = address_key k \<Longrightarrow> j = k"
    using snoc.prems by (auto simp: inj_on_def)
  then have "insert (address_key k, k) {p \<in> (\<lambda>k. (address_key k, k)) ` set ks. fst p \<noteq> address_key k} =
      (\<lambda>k. (address_key k, k)) ` set (ks @ [k])"
    by auto
  moreover have "fold record_address (ks @ [k]) [] = AList.update (address_key k) k (fold record_address ks [])"
    by (simp only: fold_append fold_simps comp_apply record_address_def)
  ultimately show ?case
    using set_alist_update[OF IH(1), of "address_key k" k] distinct_update[OF IH(1), of "address_key k" k] IH(2)
    by (simp only:)
qed simp

text \<open>The order in which the addresses are stored.\<close>

lemma ordered_addresses:
  assumes "inj_on address_key (set ks)"
  defines "ordered \<equiv> map snd (sort_key fst (fold record_address ks []))"
  shows "set ordered = set ks" "sorted_wrt (<) (map address_key ordered)"
proof -
  let ?al = "fold record_address ks []"
  note r = recorded_addresses[OF assms(1)]
  have "snd ` set ?al = set ks" unfolding r[THEN conjunct2] by (simp add: image_image)
  then show "set ordered = set ks" by (simp add: ordered_def)
  have "map address_key ordered = map fst (sort_key fst ?al)"
    using r[THEN conjunct2] by (auto simp: ordered_def)
  moreover have "distinct (map fst (sort_key fst ?al))"
    using r[THEN conjunct1] by (metis distinct_map distinct_sort set_sort)
  ultimately show "sorted_wrt (<) (map address_key ordered)"
    by (simp add: strict_sorted_iff)
qed

lemma strictly_ordered_unique:
  assumes "sorted_wrt (<) (map address_key xs)" "sorted_wrt (<) (map address_key ys)" "set xs = set ys"
  shows "xs = ys"
proof (rule sorted_key_unique)
  show "map address_key xs = map address_key ys"
    using assms by (intro sorted_distinct_set_unique) (simp_all add: strict_sorted_iff)
  show "inj_on address_key (set xs \<union> set ys)"
    using assms by (simp add: strict_sorted_iff distinct_map)
qed

text \<open>The classified candidates as a set of classifications, all of them permitted.\<close>

definition candidate_classes :: "TargetProfile \<Rightarrow> string list \<Rightarrow> AddressClassification set \<Rightarrow> bool" where
  "candidate_classes profile ts K \<longleftrightarrow> classify_address ` set ts = Inr ` K \<and> (\<forall>k \<in> K. permits profile (address_class k))"

lemma candidate_classes_list:
  "list_all2 (\<lambda>t k. classify_address t = Inr k \<and> permits profile (address_class k)) ts ks \<Longrightarrow>
     candidate_classes profile ts (set ks)"
proof (induction rule: list_all2_induct)
  case (Cons t ts k ks)
  then show ?case by (auto simp: candidate_classes_def)
qed (simp add: candidate_classes_def)

lemma candidate_classes_exists:
  assumes "candidate_classes profile ts K"
  shows "\<exists>ks. list_all2 (\<lambda>t k. classify_address t = Inr k \<and> permits profile (address_class k)) ts ks"
proof -
  have "\<exists>k. classify_address t = Inr k \<and> permits profile (address_class k)" if "t \<in> set ts" for t
  proof -
    have "classify_address t \<in> Inr ` K" using assms that unfolding candidate_classes_def by blast
    then show ?thesis using assms unfolding candidate_classes_def by auto
  qed
  then show ?thesis
  proof (induction ts)
    case (Cons t ts)
    let ?P = "\<lambda>t k. classify_address t = Inr k \<and> permits profile (address_class k)"
    from Cons.prems[of t] obtain k where "?P t k" by auto
    moreover from Cons.IH[OF Cons.prems] obtain ks where "list_all2 ?P ts ks" by auto
    ultimately show ?case by (intro exI[of _ "k # ks"]) simp
  qed (intro exI[of _ "[]"], simp)
qed

lemma candidate_classes_member:
  assumes "candidate_classes profile ts K" "k \<in> K"
  obtains t where "t \<in> set ts" "classify_address t = Inr k" "permits profile (address_class k)"
proof -
  have "Inr k \<in> classify_address ` set ts" using assms unfolding candidate_classes_def by blast
  then obtain t where "t \<in> set ts" "classify_address t = Inr k" by force
  with that assms show thesis unfolding candidate_classes_def by blast
qed

lemma candidate_classes_unique: "candidate_classes profile ts K \<Longrightarrow> candidate_classes profile ts K' \<Longrightarrow> K = K'"
  by (auto simp: candidate_classes_def inj_image_eq_iff)

lemma candidate_classes_inj:
  assumes "candidate_classes profile ts K"
  shows "inj_on address_key K"
proof (rule inj_onI)
  fix k k' assume k: "k \<in> K" "k' \<in> K" "address_key k = address_key k'"
  from candidate_classes_member[OF assms k(1)] obtain t
    where t: "classify_address t = Inr k" "permits profile (address_class k)" by blast
  from candidate_classes_member[OF assms k(2)] obtain t'
    where "classify_address t' = Inr k'" "permits profile (address_class k')" by blast
  from permitted_key_unique[OF t this k(3)] show "k = k'" .
qed

lemma classify_candidates_exact:
  "(\<exists>r. classify_candidates profile [] ts = Inr r \<and> xs = map snd (sort_key fst r)) \<longleftrightarrow>
     candidate_classes profile ts (set xs) \<and> sorted_wrt (<) (map address_key xs)"
proof
  assume "\<exists>r. classify_candidates profile [] ts = Inr r \<and> xs = map snd (sort_key fst r)"
  then obtain ks where ks: "list_all2 (\<lambda>t k. classify_address t = Inr k \<and> permits profile (address_class k)) ts ks"
    and xs: "xs = map snd (sort_key fst (fold record_address ks []))"
    by (auto simp: classify_candidates_iff)
  note c = candidate_classes_list[OF ks]
  from ordered_addresses[OF candidate_classes_inj[OF c]] c xs
  show "candidate_classes profile ts (set xs) \<and> sorted_wrt (<) (map address_key xs)" by simp
next
  assume a: "candidate_classes profile ts (set xs) \<and> sorted_wrt (<) (map address_key xs)"
  then obtain ks where ks: "list_all2 (\<lambda>t k. classify_address t = Inr k \<and> permits profile (address_class k)) ts ks"
    using candidate_classes_exists by blast
  note c = candidate_classes_list[OF ks]
  let ?o = "map snd (sort_key fst (fold record_address ks []))"
  have "set ?o = set xs"
    using ordered_addresses(1)[OF candidate_classes_inj[OF c]] candidate_classes_unique[OF c] a by blast
  then have "xs = ?o"
    using ordered_addresses(2)[OF candidate_classes_inj[OF c]] a strictly_ordered_unique by metis
  with ks show "\<exists>r. classify_candidates profile [] ts = Inr r \<and> xs = map snd (sort_key fst r)"
    by (auto simp: classify_candidates_iff)
qed

lemma authorized_set_valid:
  assumes "candidate_classes (policy_profile p) ts (set xs)" "sorted_wrt (<) (map address_key xs)"
    and "ts \<noteq> []" "length ts \<le> MAX_RESOLVED_ADDRESSES" "\<not> literal_mismatch p xs"
  shows "authorized_address_set_is_valid p xs"
proof -
  have "distinct xs" using assms(2) by (simp add: strict_sorted_iff distinct_map)
  then have "length xs = card (Inr ` set xs :: AddressClassification result set)"
    by (simp add: card_image distinct_card)
  also have "\<dots> \<le> length ts"
    using assms(1) card_image_le[of "set ts" classify_address] card_length[of ts]
    unfolding candidate_classes_def by simp
  finally have "length xs \<le> MAX_RESOLVED_ADDRESSES" using assms(4) by simp
  moreover have "xs \<noteq> []" using assms(1,3) by (auto simp: candidate_classes_def)
  moreover have "classify_address (normalized a) = Inr a" if "a \<in> set xs" for a
    using candidate_classes_member[OF assms(1) that] permitted_stable by blast
  moreover have "map address_key xs = sort (remdups (map address_key xs))"
    using assms(2) by (simp add: strict_sorted_iff distinct_remdups_id sorted_sort_id)
  ultimately show ?thesis
    using assms(1,5)
    by (simp add: authorized_address_set_is_valid_def list_all_iff enforce_returns candidate_classes_def Suc_le_eq)
qed

section \<open>Agreement of the two URL parsers\<close>

lemma find_sub_split: "find_sub p s = Some i \<Longrightarrow> \<exists>rest. s = take i s @ p @ rest \<and> i \<le> length s"
proof (induction p s arbitrary: i rule: find_sub.induct)
  case (2 p c cs)
  show ?case
  proof (cases "starts_with (c # cs) p")
    case True
    then obtain rest where "c # cs = p @ rest" by (auto simp: starts_with_iff)
    moreover have "i = 0" using True 2(2) by simp
    ultimately show ?thesis by auto
  next
    case False
    with 2(2) obtain j where j: "find_sub p cs = Some j" "i = Suc j" by auto
    from 2(1)[OF False j(1)] j(2) show ?thesis by auto
  qed
qed (auto split: if_splits)

definition letter :: "char \<Rightarrow> bool" where
  "letter c \<longleftrightarrow> in_char_range CHR ''a'' CHR ''z'' c \<or> in_char_range CHR ''A'' CHR ''Z'' c"

lemma letter_lower:
  "letter (if in_char_range CHR ''A'' CHR ''Z'' c then char_of (of_char c + 32 :: nat) else c) \<Longrightarrow> letter c"
  by (auto simp: letter_def split: if_splits)

lemma letter_chars: "letter c \<Longrightarrow> scheme_char c \<and> c \<noteq> CHR '':''"
  by (auto simp: letter_def scheme_char_def in_char_range_def less_eq_char_def)

lemma supported_scheme:
  assumes "DEFAULT_PORTS (ascii_lower pre) \<noteq> None"
  shows "pre \<noteq> []" "list_all letter pre" "ascii_lower (ascii_lower pre) = ascii_lower pre"
proof -
  from assms have cases: "ascii_lower pre = ''http'' \<or> ascii_lower pre = ''https''"
    by (auto simp: DEFAULT_PORTS_def split: if_splits)
  then show "pre \<noteq> []" by (auto simp: ascii_lower_def)
  have lit: "list_all letter ''http''" "list_all letter ''https''"
      "ascii_lower ''http'' = ''http''" "ascii_lower ''https'' = ''https''"
    by code_simp+
  then have "list_all letter (ascii_lower pre)" using cases by metis
  then have "letter c" if "c \<in> set pre" for c
    using that letter_lower[of c] by (simp add: ascii_lower_def list_all_iff)
  then show "list_all letter pre" by (simp add: list_all_iff)
  show "ascii_lower (ascii_lower pre) = ascii_lower pre" using cases lit by metis
qed

lemma url_text_clean:
  assumes "validate_url_text v = Inr ()"
  shows "filter (\<lambda>c. of_char c \<notin> {9, 10, 13 :: nat}) (dropWhile (\<lambda>c. of_char c \<le> (32 :: nat)) v) = v"
proof -
  have v: "v \<noteq> []" "py_strip v = v" and ctl: "\<not> contains_control v"
    using assms by (auto simp: validate_url_text_def)
  have high: "32 \<le> (of_char c :: nat)" if "c \<in> set v" for c
    using ctl that by (auto simp: contains_control_def list_ex_iff)
  have "\<not> py_space (hd v)"
  proof
    assume "py_space (hd v)"
    then have "length (dropWhile py_space v) < length v" using v(1) by (cases v) (simp_all add: length_dropWhile_le less_Suc_eq_le)
    then have "length (py_strip v) < length v"
      unfolding py_strip_def by (metis (no_types) length_dropWhile_le length_rev order.strict_trans1)
    with v(2) show False by simp
  qed
  then have "(of_char (hd v) :: nat) \<noteq> 32" by (auto simp: py_space_def Let_def)
  with high[of "hd v"] v(1) have "\<not> of_char (hd v) \<le> (32 :: nat)" by simp
  then have "dropWhile (\<lambda>c. of_char c \<le> (32 :: nat)) v = v" by (cases v) auto
  moreover have "filter (\<lambda>c. of_char c \<notin> {9, 10, 13 :: nat}) v = v"
  proof (rule filter_True)
    show "\<forall>c \<in> set v. of_char c \<notin> {9, 10, 13 :: nat}" using high by fastforce
  qed
  ultimately show ?thesis by simp
qed

lemma takeWhile_no_hash:
  "CHR ''#'' \<notin> set s \<Longrightarrow> takeWhile (\<lambda>c. c \<notin> set ''/?#'') s = authority_of s"
  by (induction s) (auto simp: authority_of_def)

lemma urlsplit_agrees:
  assumes "validate_url_text v = Inr ()" "CHR ''#'' \<notin> set v"
    and "extract_scheme_and_authority v = Inr (scheme, raw_authority)"
    and "urlsplit lib v = Some parsed"
  shows "sr_scheme parsed = scheme" "netloc parsed = raw_authority" "fragment parsed = []"
    "ascii_lower scheme = scheme" "CHR ''@'' \<notin> set raw_authority"
proof -
  from assms(3) obtain e where e: "find_sub ''://'' v = Some e" "0 < e" "scheme = ascii_lower (take e v)"
      "DEFAULT_PORTS scheme \<noteq> None" "raw_authority = authority_of (drop (e + 3) v)" "CHR ''@'' \<notin> set raw_authority"
    by (auto simp: extract_scheme_and_authority_def result_simps Let_def split: option.splits)
  define pre where "pre = take e v"
  from find_sub_split[OF e(1)] obtain rest where r: "v = take e v @ ''://'' @ rest" "e \<le> length v" by blast
  have rest: "v = pre @ ''://'' @ rest" unfolding pre_def by (rule r(1))
  have len: "e = length pre" using r(2) by (simp add: pre_def)
  have s: "pre \<noteq> []" "list_all letter pre" "ascii_lower scheme = scheme"
    using supported_scheme[of pre] e(3,4) by (simp_all add: pre_def)
  have "CHR '':'' \<notin> set pre" using s(2) letter_chars by (auto simp: list_all_iff)
  then have "partition_at CHR '':'' v = (pre, Some (''//'' @ rest))"
    using partition_at_present[of "CHR '':''" pre "''//'' @ rest"] rest by simp
  moreover have "list_all scheme_char pre" "letter (hd pre)"
    using s letter_chars by (auto simp: list_all_iff)
  ultimately have scheme: "split_scheme v = (scheme, ''//'' @ rest)"
    using s(1) e(3) by (simp add: split_scheme_def pre_def[symmetric] letter_def)
  have rest_text: "drop (e + 3) v = rest" "CHR ''#'' \<notin> set rest" using rest len assms(2) by auto
  have location: "split_netloc (''//'' @ rest) = (raw_authority, drop (length raw_authority) rest)"
    using takeWhile_no_hash[OF rest_text(2)] e(5) rest_text(1) by (simp add: split_netloc_def Let_def)
  have "CHR ''#'' \<notin> set (drop (length raw_authority) rest)" using rest_text(2) by (auto dest: in_set_dropD)
  then have frag: "partition_at CHR ''#'' (drop (length raw_authority) rest) = (drop (length raw_authority) rest, None)"
    by (rule partition_at_absent)
  from assms(4)[unfolded urlsplit_def Let_def url_text_clean[OF assms(1)] scheme location prod.case frag]
  show "sr_scheme parsed = scheme" "netloc parsed = raw_authority" "fragment parsed = []"
    by (auto simp: text_or_empty_def split: if_splits prod.splits)
  show "ascii_lower scheme = scheme" "CHR ''@'' \<notin> set raw_authority" using s(3) e(6) by simp_all
qed

section \<open>Properties\<close>

text \<open>C26. Authorization of resolved addresses is exact and fails closed. A policy's candidates are authorized
  exactly when the policy is well formed, there are between 1 and 64 candidates, and every single
  candidate is a valid address of a class the profile permits; the result then holds the
  classifications of precisely these candidates, without duplicates and in order, and a literal host is
  its own only address. What is authorized passes the check made before a connection uses it.\<close>

theorem authorization_exact:
  "(authorize_resolved_addresses lib p (Some cs) = Inr au \<longleftrightarrow>
     validate_policy_provenance lib p = Inr () \<and> 1 \<le> length cs \<and> length cs \<le> MAX_RESOLVED_ADDRESSES \<and>
     auth_policy au = p \<and>
     classify_address ` set cs = Inr ` set (auth_addresses au) \<and>
     (\<forall>a \<in> set (auth_addresses au). permits (policy_profile p) (address_class a)) \<and>
     sorted_wrt (<) (map address_key (auth_addresses au)) \<and>
     \<not> literal_mismatch p (auth_addresses au)) \<and>
   (authorize_resolved_addresses lib p (Some cs) = Inr au \<longrightarrow> validate_authorized_destination lib au = Inr au)"
proof -
  have exact: "authorize_resolved_addresses lib p (Some cs) = Inr au \<longleftrightarrow>
     validate_policy_provenance lib p = Inr () \<and> 1 \<le> length cs \<and> length cs \<le> MAX_RESOLVED_ADDRESSES \<and>
     auth_policy au = p \<and> (candidate_classes (policy_profile p) cs (set (auth_addresses au)) \<and>
     sorted_wrt (<) (map address_key (auth_addresses au))) \<and> \<not> literal_mismatch p (auth_addresses au)"
    unfolding classify_candidates_exact[symmetric]
    by (cases au) (auto simp: authorize_resolved_addresses_def materialize_candidates_def result_simps Let_def)
  have "validate_authorized_destination lib au = Inr au" if "authorize_resolved_addresses lib p (Some cs) = Inr au"
    using that authorized_set_valid[of p cs "auth_addresses au"] unfolding exact
    by (auto simp: validate_authorized_destination_def result_simps Suc_le_eq)
  with exact show ?thesis unfolding candidate_classes_def by blast
qed

text \<open>C27. The hand-written authority parser and \<open>urlsplit\<close> agree. For every URL text that passed the text checks
  and whose scheme and authority were extracted, a successful \<open>urlsplit\<close> reports the same scheme and
  the same network location, with no user information and no fragment, so that no URL reads
  differently to the two parsers.\<close>

theorem url_parsers_agree:
  assumes "validate_url_text v = Inr ()" "CHR ''#'' \<notin> set v"
    and "extract_scheme_and_authority v = Inr (scheme, raw_authority)"
    and "urlsplit lib v = Some parsed"
  shows "require_parser_agreement parsed scheme raw_authority = Inr ()"
  using urlsplit_agrees[OF assms] by (simp add: require_parser_agreement_def result_simps)

lemma public_gates:
  assumes "validate_public_gates lib d hosts path t = Inr a"
  shows "dest_scheme d = ''https''" "dest_host d \<in> set hosts" "a = (dest_host d, dest_port d)"
    "\<exists>x. t = Some x \<and> parse_runtime_authorization lib x = Inr (dest_host d, dest_port d)"
  using assms
  by (auto simp: validate_public_gates_def result_simps require_allowed_host_def split: option.splits)

lemma parsed_url_literal:
  "parse_destination_url lib v = Inr d \<Longrightarrow> literal_address d = literal_of (dest_host d)"
  by (auto simp: parse_destination_url_def result_simps split: option.splits prod.splits)

lemma parsed_policy:
  assumes "parse_destination_policy lib r t = Inr p"
  obtains d hosts bound where "parse_destination_url lib (receiver_url r) = Inr d"
    "normalize_allowed_hosts lib (receiver_allowed_hosts r) = Inr hosts"
    "dest_port d \<in> set (receiver_allowed_ports r)"
    "case target_profile r of
         PRIVATE_ALLOWLIST \<Rightarrow> dest_host d \<in> set hosts
       | PUBLIC_AUTHORIZED \<Rightarrow> validate_public_gates lib d hosts (receiver_challenge_path r) t = Inr (the bound)
       | LOOPBACK \<Rightarrow> True"
    "\<And>x. literal_address d = Some x \<Longrightarrow> \<exists>c. classify_address x = Inr c \<and> permits (target_profile r) (address_class c)"
    "p = \<lparr>destination = d, policy_profile = target_profile r, allowed_hosts = hosts,
       allowed_ports = sort (receiver_allowed_ports r), public_challenge_path = receiver_challenge_path r,
       public_authorization = bound\<rparr>"
proof -
  from assms obtain d hosts bound where d: "parse_destination_url lib (receiver_url r) = Inr d"
      "normalize_allowed_hosts lib (receiver_allowed_hosts r) = Inr hosts" "dest_port d \<in> set (receiver_allowed_ports r)"
      and gate: "(case target_profile r of
         PRIVATE_ALLOWLIST \<Rightarrow> and_then (require_allowed_host (dest_host d) hosts) (\<lambda>_. Inr None)
       | PUBLIC_AUTHORIZED \<Rightarrow> and_then (validate_public_gates lib d hosts (receiver_challenge_path r) t) (\<lambda>a. Inr (Some a))
       | LOOPBACK \<Rightarrow> Inr None) = Inr bound"
      and lit: "(case literal_address d of
         None \<Rightarrow> Inr ()
       | Some t \<Rightarrow> and_then (classify_or_reject ''literal destination address is invalid'' t)
           (enforce_address_profile (target_profile r))) = Inr ()"
      and p: "p = \<lparr>destination = d, policy_profile = target_profile r, allowed_hosts = hosts,
       allowed_ports = sort (receiver_allowed_ports r), public_challenge_path = receiver_challenge_path r,
       public_authorization = bound\<rparr>"
    by (auto simp: parse_destination_policy_def result_simps Let_def)
  have "case target_profile r of
         PRIVATE_ALLOWLIST \<Rightarrow> dest_host d \<in> set hosts
       | PUBLIC_AUTHORIZED \<Rightarrow> validate_public_gates lib d hosts (receiver_challenge_path r) t = Inr (the bound)
       | LOOPBACK \<Rightarrow> True"
    using gate by (cases "target_profile r") (auto simp: result_simps require_allowed_host_def)
  moreover have "\<exists>c. classify_address x = Inr c \<and> permits (target_profile r) (address_class c)"
    if "literal_address d = Some x" for x
    using lit that by (auto simp: result_simps classify_or_reject_iff enforce_iff)
  ultimately show thesis using that d p by blast
qed

text \<open>C28. No delivery to the public internet without consent, and none to an address the profile does not
  allow. A policy is only produced for a port on the allowlist; a private target needs its host on the
  allowlist; a public target needs HTTPS, its host on the allowlist and a runtime authorization
  that names exactly this host and port; and a host that is a literal address is of a class the profile
  permits, which is never a blocked one.\<close>

theorem policy_requires_consent:
  assumes "parse_destination_policy lib r t = Inr p"
  shows "dest_port (destination p) \<in> set (receiver_allowed_ports r) \<and>
    (target_profile r \<noteq> LOOPBACK \<longrightarrow> dest_host (destination p) \<in> set (allowed_hosts p)) \<and>
    (target_profile r = PUBLIC_AUTHORIZED \<longrightarrow> dest_scheme (destination p) = ''https'' \<and>
       (\<exists>x. t = Some x \<and> parse_runtime_authorization lib x = Inr (dest_host (destination p), dest_port (destination p)))) \<and>
    (\<forall>i. ip_address (dest_host (destination p)) = Some i \<longrightarrow>
       (\<exists>c. classify_address (ip_str i) = Inr c \<and> permits (target_profile r) (address_class c) \<and>
          address_class c \<noteq> AddressClass.BLOCKED))"
  using assms
proof (cases rule: parsed_policy)
  case (1 d hosts bound)
  have "address_class c \<noteq> AddressClass.BLOCKED" if "permits (target_profile r) (address_class c)" for c
    using that by (cases "target_profile r") auto
  moreover have "literal_address d = map_option ip_str (ip_address (dest_host d))"
    using parsed_url_literal[OF 1(1)] by (simp add: literal_of_def)
  ultimately show ?thesis
    using 1(3-6) public_gates[of lib d hosts "receiver_challenge_path r" t "the bound"]
    by (cases "target_profile r") auto
qed

section \<open>A concrete receiver\<close>

definition plain_lib :: TextLib where
  "plain_lib = \<lparr>nfc = id, idna_encode = Some, idna_decode = Some, text_lower = ascii_lower, netloc_ok = (\<lambda>_. True)\<rparr>"

definition sample_url :: string where "sample_url = ''http://127.0.0.1/hook''"

definition sample_receiver :: ReceiverConfig where
  "sample_receiver = \<lparr>receiver_url = sample_url, target_profile = LOOPBACK, receiver_allowed_hosts = [],
     receiver_allowed_ports = [80], receiver_challenge_path = ''/c''\<rparr>"

lemma sample_text: "ipv4_str (quad 127 0 0 1) = ''127.0.0.1''"
  by (simp add: ipv4_str_def quad_def dotted_def digits_of_4 nat_str.simps digit_char_def)

lemma sample_ip: "ip_address ''127.0.0.1'' = Some (IPv4Address (quad 127 0 0 1))"
  using ip_text_round_trip(1)[of "quad 127 0 0 1"] by (simp add: sample_text)

lemma sample_host: "normalize_host plain_lib ''127.0.0.1'' = Inr ''127.0.0.1''"
proof -
  have "validate_host_text ''127.0.0.1'' = Inr ()" by code_simp
  moreover have "remove_final_dot ''127.0.0.1'' = ''127.0.0.1''" by code_simp
  ultimately show ?thesis by (simp add: normalize_host_def Let_def sample_ip sample_text reject_if_def)
qed

lemma sample_url_parts:
  "validate_url_text sample_url = Inr ()" "CHR ''#'' \<notin> set sample_url"
  "extract_scheme_and_authority sample_url = Inr (''http'', ''127.0.0.1'')"
  "urlsplit plain_lib sample_url = Some \<lparr>sr_scheme = ''http'', netloc = ''127.0.0.1'', sr_path = ''/hook'',
     sr_query = [], fragment = []\<rparr>"
  "split_authority ''127.0.0.1'' = Inr (''127.0.0.1'', None)"
  by code_simp+

lemma sample_destination:
  "parse_destination_url plain_lib sample_url = Inr \<lparr>dest_scheme = ''http'', dest_host = ''127.0.0.1'', dest_port = 80,
     dest_path = ''/hook'', dest_query = [], literal_address = Some ''127.0.0.1''\<rparr>"
  using sample_url_parts
  by (simp add: parse_destination_url_def sample_host parse_port_def DEFAULT_PORTS_def require_parser_agreement_def
      reject_if_def ascii_lower_def in_char_range_def less_eq_char_def literal_of_def sample_ip sample_text)

definition sample_policy :: DestinationPolicy where
  "sample_policy = \<lparr>destination = \<lparr>dest_scheme = ''http'', dest_host = ''127.0.0.1'', dest_port = 80,
     dest_path = ''/hook'', dest_query = [], literal_address = Some ''127.0.0.1''\<rparr>, policy_profile = LOOPBACK,
     allowed_hosts = [], allowed_ports = [80], public_challenge_path = ''/c'', public_authorization = None\<rparr>"

lemma sample_class: "address_class (classify_ipv4 (quad 127 0 0 1)) = AddressClass.LOOPBACK"
  using sample_loopback_class by (simp add: label_def)

lemma sample_policy_parsed: "parse_destination_policy plain_lib sample_receiver None = Inr sample_policy"
  using enforce_iff[of LOOPBACK "classify_ipv4 (quad 127 0 0 1)" "()"] sample_class
  by (simp add: parse_destination_policy_def sample_receiver_def sample_destination normalize_allowed_hosts_def
      reject_if_def classify_or_reject_def sample_loopback sample_policy_def)

lemma sample_policy_valid: "validate_policy_provenance plain_lib sample_policy = Inr ()"
  by (simp add: validate_policy_provenance_def sample_policy_def Let_def sample_host DEFAULT_PORTS_def MAX_HTTP_PORT_def
      literal_of_def sample_ip sample_text policy_profile_gates_are_valid_def)

theorem authorization_exact_witness:
  "authorize_resolved_addresses plain_lib sample_policy (Some [''127.0.0.1'']) =
     Inr \<lparr>auth_policy = sample_policy, auth_addresses = [classify_ipv4 (quad 127 0 0 1)]\<rparr>"
  unfolding authorization_exact[THEN conjunct1]
  by (simp add: sample_policy_valid sample_loopback MAX_RESOLVED_ADDRESSES_def sample_class classify_normalized sample_text
      literal_mismatch_def) (simp add: sample_policy_def sample_class classify_normalized sample_text)

theorem url_parsers_agree_witness:
  "require_parser_agreement \<lparr>sr_scheme = ''http'', netloc = ''127.0.0.1'', sr_path = ''/hook'', sr_query = [], fragment = []\<rparr>
     ''http'' ''127.0.0.1'' = Inr ()"
  by (rule url_parsers_agree[OF sample_url_parts(1-4)])

text \<open>A public receiver with the consent of its invocation.\<close>

definition public_host :: string where "public_host = ''93.184.216.34''"
definition public_url :: string where "public_url = ''https://93.184.216.34/hook''"

definition public_receiver :: ReceiverConfig where
  "public_receiver = \<lparr>receiver_url = public_url, target_profile = PUBLIC_AUTHORIZED, receiver_allowed_hosts = [public_host],
     receiver_allowed_ports = [443], receiver_challenge_path = ''/c''\<rparr>"

lemma public_text: "ipv4_str (quad 93 184 216 34) = public_host"
  by (simp add: public_host_def ipv4_str_def quad_def dotted_def digits_of_4 nat_str.simps digit_char_def)

lemma public_ip: "ip_address public_host = Some (IPv4Address (quad 93 184 216 34))"
  using ip_text_round_trip(1)[of "quad 93 184 216 34"] by (simp add: public_text)

lemma public_class: "classify_address public_host = Inr (classify_ipv4 (quad 93 184 216 34))"
    "address_class (classify_ipv4 (quad 93 184 216 34)) = AddressClass.PUBLIC"
proof -
  show "classify_address public_host = Inr (classify_ipv4 (quad 93 184 216 34))"
    using classify_printed(1)[of "quad 93 184 216 34"] by (simp add: public_text)
  have "label (classify_ipv4 (quad 93 184 216 34)) = (AddressClass.PUBLIC, None)"
    unfolding ipv4_label_map[of _ "(AddressClass.PUBLIC, None)"] by code_simp
  then show "address_class (classify_ipv4 (quad 93 184 216 34)) = AddressClass.PUBLIC" by (simp add: label_def)
qed

lemma public_normal: "normalize_host plain_lib public_host = Inr public_host"
proof -
  have "validate_host_text public_host = Inr ()" "remove_final_dot public_host = public_host"
    "CHR '':'' \<notin> set public_host" "public_host \<noteq> []" "last public_host \<noteq> CHR ''.''" by code_simp+
  then show ?thesis by (simp add: normalize_host_def Let_def public_ip public_text reject_if_def)
qed

lemma public_url_parts:
  "validate_url_text public_url = Inr ()" "CHR ''#'' \<notin> set public_url"
  "extract_scheme_and_authority public_url = Inr (''https'', public_host)"
  "urlsplit plain_lib public_url = Some \<lparr>sr_scheme = ''https'', netloc = public_host, sr_path = ''/hook'', sr_query = [], fragment = []\<rparr>"
  "split_authority public_host = Inr (public_host, None)"
  "split_authority ''93.184.216.34:443'' = Inr (public_host, Some ''443'')"
  "parse_port (Some ''443'') None = Inr 443"
  "validate_challenge_path ''/c'' = Inr ()" "py_strip ''93.184.216.34:443'' = ''93.184.216.34:443''" "contains_control ''93.184.216.34:443'' = False"
  by code_simp+

lemma public_no_user: "CHR ''@'' \<notin> set public_host" by code_simp

lemma public_destination:
  "parse_destination_url plain_lib public_url = Inr \<lparr>dest_scheme = ''https'', dest_host = public_host, dest_port = 443,
     dest_path = ''/hook'', dest_query = [], literal_address = Some public_host\<rparr>"
  using public_url_parts(1-5) public_no_user
  by (simp add: parse_destination_url_def public_normal parse_port_def DEFAULT_PORTS_def require_parser_agreement_def
      reject_if_def ascii_lower_def in_char_range_def less_eq_char_def literal_of_def public_ip public_text)

lemma public_consent: "parse_runtime_authorization plain_lib ''93.184.216.34:443'' = Inr (public_host, 443)"
  using public_url_parts by (simp add: parse_runtime_authorization_def reject_if_def public_normal MAX_HOST_LENGTH_def)

lemma public_parsed: "\<exists>p. parse_destination_policy plain_lib public_receiver (Some ''93.184.216.34:443'') = Inr p \<and>
    dest_host (destination p) = public_host"
  using enforce_iff[of PUBLIC_AUTHORIZED "classify_ipv4 (quad 93 184 216 34)" "()"] public_class public_url_parts(8)
  by (simp add: parse_destination_policy_def public_receiver_def public_destination normalize_allowed_hosts_def public_normal
      reject_if_def classify_or_reject_def validate_public_gates_def require_allowed_host_def public_consent MAX_ALLOWED_HOSTS_def)

theorem policy_requires_consent_witness:
  "\<exists>p. parse_destination_policy plain_lib public_receiver (Some ''93.184.216.34:443'') = Inr p \<and>
     dest_scheme (destination p) = ''https'' \<and> public_host \<in> set (allowed_hosts p) \<and>
     parse_runtime_authorization plain_lib ''93.184.216.34:443'' = Inr (public_host, dest_port (destination p)) \<and>
     address_class (classify_ipv4 (quad 93 184 216 34)) \<noteq> AddressClass.BLOCKED"
proof -
  obtain p where p: "parse_destination_policy plain_lib public_receiver (Some ''93.184.216.34:443'') = Inr p" "dest_host (destination p) = public_host"
    using public_parsed by blast
  from policy_requires_consent[OF p(1)] show ?thesis
    using p public_ip public_class by (auto simp: public_receiver_def public_text)
qed

end
