(* ===== verification/Recovery_Models.thy ===== *)
theory Recovery_Models
  imports Transition_Commands Retries
begin

text \<open>
  The models of conservative recovery, \<open>recovery/models.py\<close>: the closed vocabularies, the scan context,
  one item per persisted attempt or observation series with the coherence checks it runs when it is
  built, and the recovery plan with its inventory and predecessor checks. A validated object is the
  argument of its \<open>_post_init\<close> definition, which returns it or the exception.
\<close>

section \<open>Vocabularies\<close>

datatype DurableNoSendProof = NONE | CONTROLLED_PRE_TRANSPORT | NO_CONNECTION_ESTABLISHED

fun no_send_proof_value :: "DurableNoSendProof \<Rightarrow> string" where
  "no_send_proof_value DurableNoSendProof.NONE = ''none''"
| "no_send_proof_value DurableNoSendProof.CONTROLLED_PRE_TRANSPORT = ''controlled_pre_transport''"
| "no_send_proof_value DurableNoSendProof.NO_CONNECTION_ESTABLISHED = ''no_connection_established''"

datatype AttemptRecoveryAction =
    RESUME_SCHEDULED | RECLAIM_EXPIRED_CLAIM | REQUIRE_PHASE_EVIDENCE | TERMINATE_NOT_SENT |
    TERMINATE_UNKNOWN_OUTCOME | REDUCE_DURABLE_RESPONSE | PRESERVE_TERMINAL | PRESERVE_UNKNOWN_OUTCOME

fun attempt_action_value :: "AttemptRecoveryAction \<Rightarrow> string" where
  "attempt_action_value AttemptRecoveryAction.RESUME_SCHEDULED = ''resume_scheduled''"
| "attempt_action_value AttemptRecoveryAction.RECLAIM_EXPIRED_CLAIM = ''reclaim_expired_claim''"
| "attempt_action_value AttemptRecoveryAction.REQUIRE_PHASE_EVIDENCE = ''require_phase_evidence''"
| "attempt_action_value AttemptRecoveryAction.TERMINATE_NOT_SENT = ''terminate_not_sent''"
| "attempt_action_value AttemptRecoveryAction.TERMINATE_UNKNOWN_OUTCOME = ''terminate_unknown_outcome''"
| "attempt_action_value AttemptRecoveryAction.REDUCE_DURABLE_RESPONSE = ''reduce_durable_response''"
| "attempt_action_value AttemptRecoveryAction.PRESERVE_TERMINAL = ''preserve_terminal''"
| "attempt_action_value AttemptRecoveryAction.PRESERVE_UNKNOWN_OUTCOME = ''preserve_unknown_outcome''"

datatype ObservationRecoveryAction = RESUME_SCHEDULED | TERMINATE_INTERRUPTED_ERROR | PRESERVE_TERMINAL

datatype RecoveryAmbiguity = NONE | PHASE_EVIDENCE_REQUIRED | POSSIBLE_RECEIVER_EFFECT

section \<open>Scan context\<close>

definition bounded_nonnegative_integer :: "int \<Rightarrow> string \<Rightarrow> int \<Rightarrow> unit result" where
  "bounded_nonnegative_integer v name maximum = raise_unless (0 \<le> v \<and> v \<le> maximum)
     (ValueError (name @ '' must be a bounded nonnegative integer''))"

text \<open>The integrity report is only checked for its class; of the lock metadata the run and the epoch are read.\<close>

record RunLockMetadata =
  lock_run_id :: string
  lock_owner_epoch :: int

record RecoveryScanContext =
  context_run_id :: string
  context_owner_epoch :: int
  context_owner :: RunLockMetadata

definition RecoveryScanContext_post_init :: "RecoveryScanContext \<Rightarrow> RecoveryScanContext result" where
  "RecoveryScanContext_post_init c =
     and_then (validate_run_id (context_run_id c)) (\<lambda>_.
     and_then (bounded_nonnegative_integer (context_owner_epoch c) ''owner_epoch'' MAX_OWNER_EPOCH) (\<lambda>_.
     and_then (raise_unless (\<not> lock_run_id (context_owner c) \<noteq> context_run_id c)
       (ValueError ''recovery owner belongs to a different run'')) (\<lambda>_.
     and_then (raise_unless (\<not> lock_owner_epoch (context_owner c) \<noteq> context_owner_epoch c)
       (ValueError ''recovery owner epoch differs from the scan epoch'')) (\<lambda>_.
       Inr c))))"

section \<open>Attempt items\<close>

record AttemptRecoveryItem =
  ai_run_id :: string
  ai_scenario_id :: string
  ai_event_id :: string
  ai_delivery_id :: string
  ai_attempt_id :: string
  ai_scenario_ordinal :: int
  ai_step_ordinal :: int
  ai_delivery_ordinal :: int
  ai_attempt_ordinal :: int
  ai_prior_state :: AttemptState
  durable_no_send_proof :: DurableNoSendProof
  ai_action :: AttemptRecoveryAction
  ambiguity :: RecoveryAmbiguity
  ai_target_state :: "AttemptState option"
  ai_predecessor_attempt_id :: "string option"
  response_staging :: "AttemptResponseStagingCommand option"

fun ATTEMPT_ACTION_PRIOR_STATES :: "AttemptRecoveryAction \<Rightarrow> AttemptState set" where
  "ATTEMPT_ACTION_PRIOR_STATES AttemptRecoveryAction.RESUME_SCHEDULED = {AttemptState.SCHEDULED}"
| "ATTEMPT_ACTION_PRIOR_STATES AttemptRecoveryAction.RECLAIM_EXPIRED_CLAIM = {AttemptState.CLAIMED}"
| "ATTEMPT_ACTION_PRIOR_STATES AttemptRecoveryAction.REQUIRE_PHASE_EVIDENCE = {AttemptState.PRE_SEND_COMMITTED}"
| "ATTEMPT_ACTION_PRIOR_STATES AttemptRecoveryAction.TERMINATE_NOT_SENT =
     {AttemptState.PRE_SEND_COMMITTED, AttemptState.CONNECTING}"
| "ATTEMPT_ACTION_PRIOR_STATES AttemptRecoveryAction.TERMINATE_UNKNOWN_OUTCOME =
     {AttemptState.CONNECTING, AttemptState.SENDING, AttemptState.AWAITING_RESPONSE}"
| "ATTEMPT_ACTION_PRIOR_STATES AttemptRecoveryAction.REDUCE_DURABLE_RESPONSE = {AttemptState.RESPONSE_OBSERVED}"
| "ATTEMPT_ACTION_PRIOR_STATES AttemptRecoveryAction.PRESERVE_TERMINAL =
     {AttemptState.NOT_SENT, AttemptState.SUCCEEDED, AttemptState.REJECTED, AttemptState.TRANSPORT_FAILED,
      AttemptState.CANCELLED}"
| "ATTEMPT_ACTION_PRIOR_STATES AttemptRecoveryAction.PRESERVE_UNKNOWN_OUTCOME = {AttemptState.UNKNOWN_OUTCOME}"

fun ATTEMPT_ACTION_TARGETS :: "AttemptRecoveryAction \<Rightarrow> AttemptState option" where
  "ATTEMPT_ACTION_TARGETS AttemptRecoveryAction.TERMINATE_NOT_SENT = Some AttemptState.NOT_SENT"
| "ATTEMPT_ACTION_TARGETS AttemptRecoveryAction.TERMINATE_UNKNOWN_OUTCOME = Some AttemptState.UNKNOWN_OUTCOME"
| "ATTEMPT_ACTION_TARGETS _ = None"

text \<open>The table lookup with its default, \<open>NONE\<close>.\<close>

fun ATTEMPT_ACTION_AMBIGUITY :: "AttemptRecoveryAction \<Rightarrow> RecoveryAmbiguity" where
  "ATTEMPT_ACTION_AMBIGUITY AttemptRecoveryAction.REQUIRE_PHASE_EVIDENCE = RecoveryAmbiguity.PHASE_EVIDENCE_REQUIRED"
| "ATTEMPT_ACTION_AMBIGUITY AttemptRecoveryAction.TERMINATE_UNKNOWN_OUTCOME =
     RecoveryAmbiguity.POSSIBLE_RECEIVER_EFFECT"
| "ATTEMPT_ACTION_AMBIGUITY AttemptRecoveryAction.PRESERVE_UNKNOWN_OUTCOME =
     RecoveryAmbiguity.POSSIBLE_RECEIVER_EFFECT"
| "ATTEMPT_ACTION_AMBIGUITY _ = RecoveryAmbiguity.NONE"

definition expected_no_send_proof :: "AttemptRecoveryItem \<Rightarrow> DurableNoSendProof" where
  "expected_no_send_proof i =
     (if ai_action i \<noteq> AttemptRecoveryAction.TERMINATE_NOT_SENT then DurableNoSendProof.NONE
      else if ai_prior_state i = AttemptState.PRE_SEND_COMMITTED then DurableNoSendProof.CONTROLLED_PRE_TRANSPORT
      else DurableNoSendProof.NO_CONNECTION_ESTABLISHED)"

definition validate_attempt_action :: "AttemptRecoveryItem \<Rightarrow> unit result" where
  "validate_attempt_action i =
     and_then (if ai_action i = AttemptRecoveryAction.REDUCE_DURABLE_RESPONSE
       then (case response_staging i of
           None \<Rightarrow> Inl (ValueError ''durable response recovery requires staged response evidence'')
         | Some st \<Rightarrow> raise_unless (ai_target_state i = Some (terminal_state st))
             (ValueError ''durable response recovery target differs from staged evidence''))
       else and_then (raise_unless (ai_target_state i = ATTEMPT_ACTION_TARGETS (ai_action i))
             (ValueError ''attempt recovery action and target state disagree'')) (\<lambda>_.
           raise_unless (response_staging i = None)
             (ValueError ''only durable response recovery may carry staged response evidence''))) (\<lambda>_.
     and_then (raise_unless (ai_prior_state i \<in> ATTEMPT_ACTION_PRIOR_STATES (ai_action i))
       (ValueError (attempt_action_value (ai_action i) @ '' is invalid from '' @ attempt_state_value (ai_prior_state i)))) (\<lambda>_.
     and_then (raise_unless (ambiguity i = ATTEMPT_ACTION_AMBIGUITY (ai_action i))
       (ValueError ''attempt recovery action and ambiguity disagree'')) (\<lambda>_.
       raise_unless (durable_no_send_proof i = expected_no_send_proof i)
         (ValueError ''attempt recovery action carries invalid no-send proof''))))"

definition ordinal_check :: "string \<times> int \<Rightarrow> unit result" where
  "ordinal_check p = bounded_nonnegative_integer (snd p) (fst p) MAX_SAFE_INTEGER"

definition AttemptRecoveryItem_post_init :: "AttemptRecoveryItem \<Rightarrow> AttemptRecoveryItem result" where
  "AttemptRecoveryItem_post_init i =
     and_then (validate_run_id (ai_run_id i)) (\<lambda>_.
     and_then (validate_planned_id (ai_scenario_id i) (Some PlannedIdKind.SCENARIO)) (\<lambda>_.
     and_then (validate_planned_id (ai_event_id i) (Some PlannedIdKind.EVENT)) (\<lambda>_.
     and_then (validate_planned_id (ai_delivery_id i) (Some PlannedIdKind.DELIVERY)) (\<lambda>_.
     and_then (validate_fresh_id (ai_attempt_id i) (Some FreshIdKind.ATTEMPT)) (\<lambda>_.
     and_then (when_some (ai_predecessor_attempt_id i) (\<lambda>p.
         and_then (validate_fresh_id p (Some FreshIdKind.ATTEMPT)) (\<lambda>_.
         raise_unless (p \<noteq> ai_attempt_id i) (ValueError ''attempt cannot be its own predecessor'')))) (\<lambda>_.
     and_then (for_each ordinal_check [(''scenario_ordinal'', ai_scenario_ordinal i),
         (''step_ordinal'', ai_step_ordinal i), (''delivery_ordinal'', ai_delivery_ordinal i),
         (''attempt_ordinal'', ai_attempt_ordinal i)]) (\<lambda>_.
     and_then (validate_attempt_action i) (\<lambda>_.
       Inr i))))))))"

definition attempt_requires_transition :: "AttemptRecoveryItem \<Rightarrow> bool" where
  "attempt_requires_transition i = (ai_target_state i \<noteq> None)"

definition attempt_deterministic_key :: "AttemptRecoveryItem \<Rightarrow> int \<times> int \<times> int \<times> int \<times> string" where
  "attempt_deterministic_key i = (ai_scenario_ordinal i, ai_step_ordinal i, ai_delivery_ordinal i,
     ai_attempt_ordinal i, ai_attempt_id i)"

section \<open>Observation items\<close>

record ObservationRecoveryItem =
  oi_run_id :: string
  oi_scenario_id :: string
  oi_observation_id :: string
  oi_scenario_ordinal :: int
  oi_prior_state :: ObservationState
  oi_action :: ObservationRecoveryAction
  oi_target_state :: "ObservationState option"

definition ObservationRecoveryItem_post_init :: "ObservationRecoveryItem \<Rightarrow> ObservationRecoveryItem result" where
  "ObservationRecoveryItem_post_init i =
     and_then (validate_run_id (oi_run_id i)) (\<lambda>_.
     and_then (validate_planned_id (oi_scenario_id i) (Some PlannedIdKind.SCENARIO)) (\<lambda>_.
     and_then (validate_planned_id (oi_observation_id i) (Some PlannedIdKind.OBSERVATION)) (\<lambda>_.
     and_then (bounded_nonnegative_integer (oi_scenario_ordinal i) ''scenario_ordinal'' MAX_SAFE_INTEGER) (\<lambda>_.
     and_then (raise_unless (oi_target_state i =
         (if oi_action i = ObservationRecoveryAction.TERMINATE_INTERRUPTED_ERROR
          then Some ObservationState.ERROR else None))
       (ValueError ''observation recovery action and target state disagree'')) (\<lambda>_.
     and_then (raise_unless (\<not> (oi_action i = ObservationRecoveryAction.RESUME_SCHEDULED \<and>
         oi_prior_state i \<noteq> ObservationState.SCHEDULED))
       (ValueError ''only scheduled observations can resume without a transition'')) (\<lambda>_.
     and_then (raise_unless (\<not> (oi_action i = ObservationRecoveryAction.TERMINATE_INTERRUPTED_ERROR \<and>
         oi_prior_state i \<noteq> ObservationState.RUNNING))
       (ValueError ''only an interrupted running observation becomes error'')) (\<lambda>_.
     and_then (raise_unless (\<not> (oi_action i = ObservationRecoveryAction.PRESERVE_TERMINAL \<and>
         oi_prior_state i \<notin> {ObservationState.OK, ObservationState.PENDING, ObservationState.UNSUPPORTED,
           ObservationState.ERROR, ObservationState.TIMED_OUT, ObservationState.CANCELLED}))
       (ValueError ''preserved observation state is not terminal'')) (\<lambda>_.
       Inr i))))))))"

definition observation_requires_transition :: "ObservationRecoveryItem \<Rightarrow> bool" where
  "observation_requires_transition i = (oi_target_state i \<noteq> None)"

definition observation_deterministic_key :: "ObservationRecoveryItem \<Rightarrow> int \<times> string" where
  "observation_deterministic_key i = (oi_scenario_ordinal i, oi_observation_id i)"

section \<open>Recovery plans\<close>

record RecoveryPlan =
  plan_run_id :: string
  plan_owner_epoch :: int
  plan_run_state :: RunState
  plan_attempts :: "AttemptRecoveryItem list"
  plan_observations :: "ObservationRecoveryItem list"

definition coordinates_follow :: "AttemptRecoveryItem \<Rightarrow> AttemptRecoveryItem \<Rightarrow> bool" where
  "coordinates_follow i p = (\<not> (ai_scenario_id i \<noteq> ai_scenario_id p \<or> ai_event_id i \<noteq> ai_event_id p \<or>
     ai_delivery_id i \<noteq> ai_delivery_id p \<or> ai_scenario_ordinal i \<noteq> ai_scenario_ordinal p \<or>
     ai_step_ordinal i \<noteq> ai_step_ordinal p \<or> ai_delivery_ordinal i \<noteq> ai_delivery_ordinal p \<or>
     ai_attempt_ordinal i \<noteq> ai_attempt_ordinal p + 1))"

fun predecessor_loop :: "(string \<rightharpoonup> AttemptRecoveryItem) \<Rightarrow> string set \<Rightarrow> AttemptRecoveryItem list \<Rightarrow> unit result" where
  "predecessor_loop by_id seen [] = Inr ()"
| "predecessor_loop by_id seen (i # items) = (case ai_predecessor_attempt_id i of
       None \<Rightarrow> predecessor_loop by_id seen items
     | Some predecessor_id \<Rightarrow> (case by_id predecessor_id of
           None \<Rightarrow> Inl (ValueError ''recovery attempt predecessor is absent'')
         | Some predecessor \<Rightarrow>
             and_then (raise_unless (predecessor_id \<notin> seen)
               (ValueError ''recovery attempt history branches from one predecessor'')) (\<lambda>_.
             and_then (raise_unless (coordinates_follow i predecessor)
               (ValueError ''recovery attempt predecessor coordinates disagree'')) (\<lambda>_.
               predecessor_loop by_id (insert predecessor_id seen) items))))"

text \<open>A dictionary built by a comprehension keeps the last value of a key.\<close>

definition attempts_by_id :: "AttemptRecoveryItem list \<Rightarrow> string \<rightharpoonup> AttemptRecoveryItem" where
  "attempts_by_id items = map_of (rev (map (\<lambda>i. (ai_attempt_id i, i)) items))"

definition validate_attempt_predecessors :: "AttemptRecoveryItem list \<Rightarrow> unit result" where
  "validate_attempt_predecessors items = predecessor_loop (attempts_by_id items) {} items"

definition validate_plan_inventories :: "RecoveryPlan \<Rightarrow> unit result" where
  "validate_plan_inventories p =
     and_then (raise_unless (\<not> (list_ex (\<lambda>i. ai_run_id i \<noteq> plan_run_id p) (plan_attempts p) \<or>
         list_ex (\<lambda>i. oi_run_id i \<noteq> plan_run_id p) (plan_observations p)))
       (ValueError ''recovery inventory contains an item from another run'')) (\<lambda>_.
     and_then (raise_unless (\<not> (length (remdups (map ai_attempt_id (plan_attempts p))) \<noteq> length (plan_attempts p) \<or>
         length (remdups (map oi_observation_id (plan_observations p))) \<noteq> length (plan_observations p)))
       (ValueError ''recovery inventory contains duplicate identities'')) (\<lambda>_.
     and_then (validate_attempt_predecessors (plan_attempts p)) (\<lambda>_.
     and_then (raise_unless (plan_attempts p = sort_key attempt_deterministic_key (plan_attempts p))
       (ValueError ''attempt recovery inventory is not deterministically ordered'')) (\<lambda>_.
       raise_unless (plan_observations p = sort_key observation_deterministic_key (plan_observations p))
         (ValueError ''observation recovery inventory is not deterministically ordered'')))))"

definition RecoveryPlan_post_init :: "RecoveryPlan \<Rightarrow> RecoveryPlan result" where
  "RecoveryPlan_post_init p =
     and_then (validate_run_id (plan_run_id p)) (\<lambda>_.
     and_then (bounded_nonnegative_integer (plan_owner_epoch p) ''owner_epoch'' MAX_OWNER_EPOCH) (\<lambda>_.
     and_then (validate_plan_inventories p) (\<lambda>_.
       Inr p)))"

definition unresolved_ambiguous_attempts :: "RecoveryPlan \<Rightarrow> AttemptRecoveryItem list" where
  "unresolved_ambiguous_attempts p =
     (let predecessors = set (List.map_filter ai_predecessor_attempt_id (plan_attempts p))
      in [i \<leftarrow> plan_attempts p. ambiguity i \<noteq> RecoveryAmbiguity.NONE \<and> ai_attempt_id i \<notin> predecessors])"

definition contains_ambiguity :: "RecoveryPlan \<Rightarrow> bool" where
  "contains_ambiguity p = (unresolved_ambiguous_attempts p \<noteq> [])"

definition automatic_transition_count :: "RecoveryPlan \<Rightarrow> nat" where
  "automatic_transition_count p = length (filter attempt_requires_transition (plan_attempts p)) +
     length (filter observation_requires_transition (plan_observations p))"

definition performs_network_io :: "RecoveryPlan \<Rightarrow> bool" where
  "performs_network_io p = False"

section \<open>Tokens made of identifiers\<close>

lemma ulid_text: "encode_crockford_ulid raw = Inr u \<Longrightarrow> list_all token_char u \<and> length u = 26"
  by (auto simp: encode_eq_Inr ULID_LENGTH_def crockford_tokens)

lemma fresh_id_text:
  assumes "returns (validate_fresh_id s (Some k))"
  shows "list_all token_char s" "27 \<le> length s" "length s \<le> 47"
proof -
  obtain raw u where s: "s = fresh_kind_value k @ ''_'' @ u" "encode_crockford_ulid raw = Inr u"
    using assms by (auto simp: returns_iff validate_fresh_eq_Inr parse_fresh_eq_Inr)
  have "list_all (\<lambda>k. list_all token_char (fresh_kind_value k @ ''_'') \<and> length (fresh_kind_value k) \<le> 20) FRESH_KINDS"
    by code_simp
  then have "list_all token_char (fresh_kind_value k @ ''_'')" "length (fresh_kind_value k) \<le> 20"
    using in_kinds(2)[of k] unfolding list_all_iff by blast+
  with s ulid_text[OF s(2)] show "list_all token_char s" "27 \<le> length s" "length s \<le> 47" by auto
qed

lemma planned_id_text:
  assumes "returns (validate_planned_id s (Some k))"
  shows "list_all token_char s" "27 \<le> length s" "length s \<le> 47"
proof -
  obtain raw u where s: "s = planned_kind_value k @ ''_'' @ u" "encode_crockford_ulid raw = Inr u"
    using assms by (auto simp: returns_iff validate_planned_eq_Inr parse_planned_eq_Inr)
  have "list_all (\<lambda>k. list_all token_char (planned_kind_value k @ ''_'') \<and> length (planned_kind_value k) \<le> 20) PLANNED_KINDS"
    by code_simp
  then have "list_all token_char (planned_kind_value k @ ''_'')" "length (planned_kind_value k) \<le> 20"
    using in_kinds(1)[of k] unfolding list_all_iff by blast+
  with s ulid_text[OF s(2)] show "list_all token_char s" "27 \<le> length s" "length s \<le> 47" by auto
qed

lemma state_value_text: "list_all token_char (state_value s) \<and> 1 \<le> length (state_value s) \<and> length (state_value s) \<le> 20"
proof -
  have "list_all (\<lambda>ty. list_all (\<lambda>s. list_all token_char (state_value s) \<and> 1 \<le> length (state_value s) \<and>
      length (state_value s) \<le> 20) (members_of ty)) ENTITY_TYPES"
    by code_simp
  then show ?thesis
    using in_entity_types[of "kind_of s"] members_complete[of s] unfolding list_all_iff by blast
qed

lemma control_free_ascii:
  assumes "list_all (\<lambda>c. 32 \<le> (of_char c :: nat) \<and> (of_char c :: nat) < 127) s" "1 \<le> length s" "length s \<le> maximum"
  shows "control_free_text (text_of s) name maximum = Inr ()"
proof -
  have "ascii s" using assms(1) by (auto simp: ascii_def list_all_iff)
  moreover have "\<not> list_ex (\<lambda>c. c < 32 \<or> c = 127) (text_of s)"
    using assms(1) by (auto simp: text_of_def list_ex_iff list_all_iff)
  ultimately show ?thesis
    using assms(2,3) by (simp add: control_free_text_def utf8_encode_ascii) (simp add: text_of_def)
qed

lemma token_printable: "token_char c \<Longrightarrow> 32 \<le> (of_char c :: nat) \<and> (of_char c :: nat) < 127"
  by (auto simp: token_char_def in_char_range_def less_eq_char_def)

lemma command_accepted:
  assumes "returns (validate_run_id (cmd_run_id c))"
    and "validate_entity_id (cmd_entity_type c) (cmd_entity_id c) (cmd_run_id c) = Inr ()"
    and "bounded_token 96 (cmd_transition_id c)" "lower_identifier 64 (trigger_category c)"
    and "bounded_token 256 (cmd_idempotency_key c)" "0 \<le> cmd_owner_epoch c" "cmd_owner_epoch c \<le> MAX_OWNER_EPOCH"
    and "cmd_logical_time_ns c = None" "\<forall>n. monotonic_elapsed (cmd_timestamp c) = Some n \<longrightarrow> n \<le> MAX_SAFE_INTEGER"
    and "kind_of (new_state c) = cmd_entity_type c" "\<forall>s. expected_state c = Some s \<longrightarrow> kind_of s = cmd_entity_type c"
  shows "TransitionCommand_post_init c = Inr c"
proof -
  have "when_some (monotonic_elapsed (cmd_timestamp c)) (\<lambda>n. raise_unless (n \<le> MAX_SAFE_INTEGER)
      (ValueError ''live monotonic elapsed time exceeds the journal boundary'')) = Inr ()"
    using assms(9) by (cases "monotonic_elapsed (cmd_timestamp c)") (simp_all add: when_some_def)
  moreover have "when_some (expected_state c) (\<lambda>s. raise_unless (kind_of s = cmd_entity_type c) e) = Inr ()" for e
    using assms(11) by (cases "expected_state c") (simp_all add: when_some_def)
  moreover obtain r where "validate_run_id (cmd_run_id c) = Inr r" using assms(1) by (auto simp: returns_iff)
  ultimately show ?thesis
    using assms unfolding TransitionCommand_post_init_def
    by (simp add: transition_token_def transition_identifier_def owner_epoch_check_def)
      (simp add: when_some_def)
qed

section \<open>Lemmas on items\<close>

lemma bounded_nonnegative_eq_Inr [simp]:
  "bounded_nonnegative_integer v name maximum = Inr u \<longleftrightarrow> 0 \<le> v \<and> v \<le> maximum"
  by (simp add: bounded_nonnegative_integer_def)

lemma validate_attempt_action_eq_Inr:
  "validate_attempt_action i = Inr u \<longleftrightarrow>
     (if ai_action i = AttemptRecoveryAction.REDUCE_DURABLE_RESPONSE
      then \<exists>st. response_staging i = Some st \<and> ai_target_state i = Some (terminal_state st)
      else ai_target_state i = ATTEMPT_ACTION_TARGETS (ai_action i) \<and> response_staging i = None) \<and>
     ai_prior_state i \<in> ATTEMPT_ACTION_PRIOR_STATES (ai_action i) \<and>
     ambiguity i = ATTEMPT_ACTION_AMBIGUITY (ai_action i) \<and>
     durable_no_send_proof i = expected_no_send_proof i"
  by (cases "response_staging i") (auto simp: validate_attempt_action_def result_simps)

text \<open>What the checks on identities and coordinates accept.\<close>

definition attempt_coordinates_ok :: "AttemptRecoveryItem \<Rightarrow> bool" where
  "attempt_coordinates_ok i \<longleftrightarrow> returns (validate_run_id (ai_run_id i)) \<and>
     returns (validate_planned_id (ai_scenario_id i) (Some PlannedIdKind.SCENARIO)) \<and>
     returns (validate_planned_id (ai_event_id i) (Some PlannedIdKind.EVENT)) \<and>
     returns (validate_planned_id (ai_delivery_id i) (Some PlannedIdKind.DELIVERY)) \<and>
     returns (validate_fresh_id (ai_attempt_id i) (Some FreshIdKind.ATTEMPT)) \<and>
     (\<forall>p. ai_predecessor_attempt_id i = Some p \<longrightarrow>
        returns (validate_fresh_id p (Some FreshIdKind.ATTEMPT)) \<and> p \<noteq> ai_attempt_id i) \<and>
     (\<forall>n \<in> {ai_scenario_ordinal i, ai_step_ordinal i, ai_delivery_ordinal i, ai_attempt_ordinal i}.
        0 \<le> n \<and> n \<le> MAX_SAFE_INTEGER)"

lemma attempt_item_eq_Inr:
  "AttemptRecoveryItem_post_init i = Inr j \<longleftrightarrow>
     j = i \<and> attempt_coordinates_ok i \<and> validate_attempt_action i = Inr ()"
  unfolding AttemptRecoveryItem_post_init_def attempt_coordinates_ok_def
  by (cases "ai_predecessor_attempt_id i") (auto simp: result_simps returns_iff when_some_def ordinal_check_def)

lemma observation_item_eq_Inr:
  "ObservationRecoveryItem_post_init i = Inr j \<longleftrightarrow> j = i \<and> returns (validate_run_id (oi_run_id i)) \<and>
     returns (validate_planned_id (oi_scenario_id i) (Some PlannedIdKind.SCENARIO)) \<and>
     returns (validate_planned_id (oi_observation_id i) (Some PlannedIdKind.OBSERVATION)) \<and>
     0 \<le> oi_scenario_ordinal i \<and> oi_scenario_ordinal i \<le> MAX_SAFE_INTEGER \<and>
     (oi_action i, oi_target_state i) =
       (if oi_prior_state i = ObservationState.SCHEDULED then (ObservationRecoveryAction.RESUME_SCHEDULED, None)
        else if oi_prior_state i = ObservationState.RUNNING
        then (ObservationRecoveryAction.TERMINATE_INTERRUPTED_ERROR, Some ObservationState.ERROR)
        else (ObservationRecoveryAction.PRESERVE_TERMINAL, None))"
  unfolding ObservationRecoveryItem_post_init_def
  by (cases "oi_prior_state i"; cases "oi_action i") (auto simp: result_simps returns_iff)

section \<open>Lemmas on plans\<close>

definition predecessors_ok :: "(string \<rightharpoonup> AttemptRecoveryItem) \<Rightarrow> AttemptRecoveryItem list \<Rightarrow> bool" where
  "predecessors_ok by_id items \<longleftrightarrow> (\<forall>i \<in> set items. \<forall>q. ai_predecessor_attempt_id i = Some q \<longrightarrow>
     (\<exists>p. by_id q = Some p \<and> coordinates_follow i p))"

lemma map_filter_simps_Cons: "List.map_filter f (x # xs) = (case f x of None \<Rightarrow> List.map_filter f xs | Some y \<Rightarrow> y # List.map_filter f xs)"
  by (simp add: List.map_filter_def split: option.splits)

lemma set_map_filter: "set (List.map_filter f xs) = {y. \<exists>x \<in> set xs. f x = Some y}"
  by (induction xs) (auto simp: map_filter_simps_Cons List.map_filter_def split: option.splits)

lemma predecessor_loop_eq_Inr:
  "predecessor_loop by_id seen items = Inr () \<longleftrightarrow>
     distinct (List.map_filter ai_predecessor_attempt_id items) \<and>
     set (List.map_filter ai_predecessor_attempt_id items) \<inter> seen = {} \<and> predecessors_ok by_id items"
proof (induction items arbitrary: seen)
  case Nil
  then show ?case by (simp add: List.map_filter_def predecessors_ok_def)
next
  case (Cons i items)
  show ?case
  proof (cases "ai_predecessor_attempt_id i")
    case None
    then show ?thesis using Cons by (simp add: map_filter_simps_Cons predecessors_ok_def)
  next
    case (Some q)
    then show ?thesis
      by (cases "by_id q") (auto simp: Cons.IH map_filter_simps_Cons predecessors_ok_def result_simps)
  qed
qed

lemma attempts_by_id_iff:
  assumes "distinct (map ai_attempt_id items)"
  shows "attempts_by_id items k = Some p \<longleftrightarrow> p \<in> set items \<and> ai_attempt_id p = k"
proof -
  have "distinct (map fst (rev (map (\<lambda>i. (ai_attempt_id i, i)) items)))"
    using assms by (simp add: rev_map[symmetric] o_def)
  then show ?thesis unfolding attempts_by_id_def by (auto simp: map_of_eq_Some_iff)
qed

lemma sorted_iff_sort_key: "xs = sort_key f xs \<longleftrightarrow> sorted (map f xs)"
  by (metis sort_key_id_if_sorted sorted_sort_key)

text \<open>The specification of an accepted plan: one run, distinct identities, each predecessor claimed once and
  directly before its successor in the same delivery, and both inventories in manifest order.\<close>

definition recovery_plan_ok :: "RecoveryPlan \<Rightarrow> bool" where
  "recovery_plan_ok p \<longleftrightarrow> returns (validate_run_id (plan_run_id p)) \<and>
     0 \<le> plan_owner_epoch p \<and> plan_owner_epoch p \<le> MAX_OWNER_EPOCH \<and>
     (\<forall>i \<in> set (plan_attempts p). ai_run_id i = plan_run_id p) \<and>
     (\<forall>i \<in> set (plan_observations p). oi_run_id i = plan_run_id p) \<and>
     distinct (map ai_attempt_id (plan_attempts p)) \<and> distinct (map oi_observation_id (plan_observations p)) \<and>
     distinct (List.map_filter ai_predecessor_attempt_id (plan_attempts p)) \<and>
     (\<forall>i \<in> set (plan_attempts p). \<forall>q. ai_predecessor_attempt_id i = Some q \<longrightarrow>
        (\<exists>j \<in> set (plan_attempts p). ai_attempt_id j = q \<and> coordinates_follow i j)) \<and>
     sorted (map attempt_deterministic_key (plan_attempts p)) \<and>
     sorted (map observation_deterministic_key (plan_observations p))"

lemma recovery_plan_eq_Inr: "RecoveryPlan_post_init p = Inr q \<longleftrightarrow> q = p \<and> recovery_plan_ok p"
proof -
  have "length (remdups (map ai_attempt_id (plan_attempts p))) = length (plan_attempts p) \<longleftrightarrow>
      distinct (map ai_attempt_id (plan_attempts p))"
    "length (remdups (map oi_observation_id (plan_observations p))) = length (plan_observations p) \<longleftrightarrow>
      distinct (map oi_observation_id (plan_observations p))"
    using distinct_length_set[of "map ai_attempt_id (plan_attempts p)"]
      distinct_length_set[of "map oi_observation_id (plan_observations p)"] by simp_all
  moreover have "predecessors_ok (attempts_by_id (plan_attempts p)) (plan_attempts p) \<longleftrightarrow>
      (\<forall>i \<in> set (plan_attempts p). \<forall>q. ai_predecessor_attempt_id i = Some q \<longrightarrow>
        (\<exists>j \<in> set (plan_attempts p). ai_attempt_id j = q \<and> coordinates_follow i j))"
    if "distinct (map ai_attempt_id (plan_attempts p))"
    unfolding predecessors_ok_def attempts_by_id_iff[OF that] by blast
  ultimately show ?thesis
    unfolding RecoveryPlan_post_init_def validate_plan_inventories_def validate_attempt_predecessors_def
      recovery_plan_ok_def
    by (auto simp: result_simps predecessor_loop_eq_Inr sorted_iff_sort_key[symmetric] list_ex_iff returns_iff)
qed

text \<open>The step from an attempt to the attempt that follows it.\<close>

definition attempt_follows :: "RecoveryPlan \<Rightarrow> (AttemptRecoveryItem \<times> AttemptRecoveryItem) set" where
  "attempt_follows p = {(i, j). i \<in> set (plan_attempts p) \<and> j \<in> set (plan_attempts p) \<and>
     ai_predecessor_attempt_id j = Some (ai_attempt_id i)}"

lemma map_filter_unique:
  "\<lbrakk>distinct (List.map_filter f xs); x \<in> set xs; y \<in> set xs; f x = Some v; f y = Some v\<rbrakk> \<Longrightarrow> x = y"
  by (induction xs) (auto simp: map_filter_simps_Cons set_map_filter split: option.splits)

lemma attempt_follows_coordinates:
  assumes "recovery_plan_ok p" "(i, j) \<in> attempt_follows p"
  shows "coordinates_follow j i"
proof -
  obtain k where "k \<in> set (plan_attempts p)" "ai_attempt_id k = ai_attempt_id i" "coordinates_follow j k"
    using assms unfolding recovery_plan_ok_def attempt_follows_def by blast
  moreover have "k = i"
    using calculation assms unfolding recovery_plan_ok_def attempt_follows_def
    by (auto simp: distinct_map inj_on_def)
  ultimately show ?thesis by simp
qed

lemma attempt_follows_single_valued:
  "recovery_plan_ok p \<Longrightarrow> single_valued (attempt_follows p)"
  unfolding recovery_plan_ok_def attempt_follows_def single_valued_def
  by (auto dest: map_filter_unique)

lemma follows_same_delivery:
  assumes "recovery_plan_ok p" "(i, j) \<in> (attempt_follows p)\<^sup>*"
  shows "ai_delivery_id j = ai_delivery_id i \<and> (i = j \<or> ai_attempt_ordinal i < ai_attempt_ordinal j)"
  using assms(2)
proof (induction rule: rtrancl_induct)
  case (step j k)
  from attempt_follows_coordinates[OF assms(1) step.hyps(2)] step.IH show ?case
    by (auto simp: coordinates_follow_def)
qed simp

lemma unresolved_iff:
  "i \<in> set (unresolved_ambiguous_attempts p) \<longleftrightarrow> i \<in> set (plan_attempts p) \<and> ambiguity i \<noteq> RecoveryAmbiguity.NONE \<and>
     (\<forall>j. (i, j) \<notin> attempt_follows p)"
  by (auto simp: unresolved_ambiguous_attempts_def Let_def set_map_filter attempt_follows_def)

lemma unresolved_is_end:
  assumes "i \<in> set (unresolved_ambiguous_attempts p)" "(i, j) \<in> (attempt_follows p)\<^sup>*"
  shows "i = j"
  using assms(2)
proof (cases rule: converse_rtranclE)
  case (step k)
  then show ?thesis using assms(1) by (simp add: unresolved_iff)
qed

end
