(* ===== verification/Recovery_Scanner.thy ===== *)
theory Recovery_Scanner
  imports Recovery_Models
begin

text \<open>
  Fresh-process recovery scanning, \<open>recovery/scanner.py\<close>: the classification of persisted attempt and
  observation states, the items built from persisted rows, and the scan that assembles a recovery
  plan. The rows are the typed rows the queries return; the reader of ISO 8601 timestamps of \<open>datetime\<close> is a
  parameter.
\<close>

section \<open>Classification\<close>

definition MAX_RECOVERY_ITEMS :: nat where "MAX_RECOVERY_ITEMS = 100000"

fun TERMINAL_ATTEMPT_CLASSIFICATIONS :: "AttemptState \<Rightarrow> AttemptClassification set option" where
  "TERMINAL_ATTEMPT_CLASSIFICATIONS AttemptState.NOT_SENT =
     Some {AttemptClassification.ENVIRONMENT_FAILURE, AttemptClassification.HARNESS_FAILURE}"
| "TERMINAL_ATTEMPT_CLASSIFICATIONS AttemptState.SUCCEEDED = Some {AttemptClassification.RECEIVER_ACCEPTED}"
| "TERMINAL_ATTEMPT_CLASSIFICATIONS AttemptState.REJECTED = Some {AttemptClassification.RECEIVER_REJECTED}"
| "TERMINAL_ATTEMPT_CLASSIFICATIONS AttemptState.TRANSPORT_FAILED =
     Some {AttemptClassification.ENVIRONMENT_FAILURE, AttemptClassification.HARNESS_FAILURE}"
| "TERMINAL_ATTEMPT_CLASSIFICATIONS AttemptState.UNKNOWN_OUTCOME = Some {AttemptClassification.AMBIGUOUS}"
| "TERMINAL_ATTEMPT_CLASSIFICATIONS AttemptState.CANCELLED = Some {AttemptClassification.CANCELLED}"
| "TERMINAL_ATTEMPT_CLASSIFICATIONS _ = None"

type_synonym attempt_decision = "AttemptRecoveryAction \<times> RecoveryAmbiguity \<times> AttemptState option"

text \<open>The table of static decisions; it has no entry for the two states that need phase evidence.\<close>

fun STATIC_ATTEMPT_DECISIONS :: "AttemptState \<Rightarrow> attempt_decision option" where
  "STATIC_ATTEMPT_DECISIONS AttemptState.SCHEDULED =
     Some (AttemptRecoveryAction.RESUME_SCHEDULED, RecoveryAmbiguity.NONE, None)"
| "STATIC_ATTEMPT_DECISIONS AttemptState.CLAIMED =
     Some (AttemptRecoveryAction.RECLAIM_EXPIRED_CLAIM, RecoveryAmbiguity.NONE, None)"
| "STATIC_ATTEMPT_DECISIONS AttemptState.SENDING =
     Some (AttemptRecoveryAction.TERMINATE_UNKNOWN_OUTCOME, RecoveryAmbiguity.POSSIBLE_RECEIVER_EFFECT,
       Some AttemptState.UNKNOWN_OUTCOME)"
| "STATIC_ATTEMPT_DECISIONS AttemptState.AWAITING_RESPONSE =
     Some (AttemptRecoveryAction.TERMINATE_UNKNOWN_OUTCOME, RecoveryAmbiguity.POSSIBLE_RECEIVER_EFFECT,
       Some AttemptState.UNKNOWN_OUTCOME)"
| "STATIC_ATTEMPT_DECISIONS AttemptState.RESPONSE_OBSERVED =
     Some (AttemptRecoveryAction.REDUCE_DURABLE_RESPONSE, RecoveryAmbiguity.NONE, None)"
| "STATIC_ATTEMPT_DECISIONS AttemptState.NOT_SENT =
     Some (AttemptRecoveryAction.PRESERVE_TERMINAL, RecoveryAmbiguity.NONE, None)"
| "STATIC_ATTEMPT_DECISIONS AttemptState.SUCCEEDED =
     Some (AttemptRecoveryAction.PRESERVE_TERMINAL, RecoveryAmbiguity.NONE, None)"
| "STATIC_ATTEMPT_DECISIONS AttemptState.REJECTED =
     Some (AttemptRecoveryAction.PRESERVE_TERMINAL, RecoveryAmbiguity.NONE, None)"
| "STATIC_ATTEMPT_DECISIONS AttemptState.TRANSPORT_FAILED =
     Some (AttemptRecoveryAction.PRESERVE_TERMINAL, RecoveryAmbiguity.NONE, None)"
| "STATIC_ATTEMPT_DECISIONS AttemptState.UNKNOWN_OUTCOME =
     Some (AttemptRecoveryAction.PRESERVE_UNKNOWN_OUTCOME, RecoveryAmbiguity.POSSIBLE_RECEIVER_EFFECT, None)"
| "STATIC_ATTEMPT_DECISIONS AttemptState.CANCELLED =
     Some (AttemptRecoveryAction.PRESERVE_TERMINAL, RecoveryAmbiguity.NONE, None)"
| "STATIC_ATTEMPT_DECISIONS _ = None"

definition classify_attempt_state :: "AttemptState \<Rightarrow> DurableNoSendProof \<Rightarrow> attempt_decision" where
  "classify_attempt_state state proof =
     (if state = AttemptState.PRE_SEND_COMMITTED then
        if proof = DurableNoSendProof.CONTROLLED_PRE_TRANSPORT
        then (AttemptRecoveryAction.TERMINATE_NOT_SENT, RecoveryAmbiguity.NONE, Some AttemptState.NOT_SENT)
        else (AttemptRecoveryAction.REQUIRE_PHASE_EVIDENCE, RecoveryAmbiguity.PHASE_EVIDENCE_REQUIRED, None)
      else if state = AttemptState.CONNECTING then
        if proof = DurableNoSendProof.NO_CONNECTION_ESTABLISHED
        then (AttemptRecoveryAction.TERMINATE_NOT_SENT, RecoveryAmbiguity.NONE, Some AttemptState.NOT_SENT)
        else (AttemptRecoveryAction.TERMINATE_UNKNOWN_OUTCOME, RecoveryAmbiguity.POSSIBLE_RECEIVER_EFFECT,
          Some AttemptState.UNKNOWN_OUTCOME)
      else the (STATIC_ATTEMPT_DECISIONS state))"

definition classify_observation_state ::
    "ObservationState \<Rightarrow> ObservationRecoveryAction \<times> ObservationState option" where
  "classify_observation_state state =
     (if state = ObservationState.SCHEDULED then (ObservationRecoveryAction.RESUME_SCHEDULED, None)
      else if state = ObservationState.RUNNING
      then (ObservationRecoveryAction.TERMINATE_INTERRUPTED_ERROR, Some ObservationState.ERROR)
      else (ObservationRecoveryAction.PRESERVE_TERMINAL, None))"

section \<open>Items from persisted rows\<close>

record AttemptRow =
  ar_attempt_id :: string
  ar_scenario_id :: string
  ar_event_id :: string
  ar_delivery_id :: string
  ar_attempt_ordinal :: int
  ar_state :: string
  ar_phase :: "string option"
  ar_outcome_category :: "string option"
  ar_terminal_recorded_at :: "string option"
  ar_attempt_owner_epoch :: "int option"
  ar_scenario_ordinal :: int
  ar_step_ordinal :: int
  ar_delivery_ordinal :: int
  ar_predecessor_attempt_id :: "string option"

record ObservationRow =
  or_observation_id :: string
  or_scenario_id :: string
  or_state :: string
  or_scenario_ordinal :: int

text \<open>The reader of a timestamp text, \<open>datetime.fromisoformat\<close>: the offset it read, if any, or nothing for
  a text it refuses.\<close>

type_synonym iso_reader = "string \<Rightarrow> int option option"

definition remove_suffix :: "string \<Rightarrow> string \<Rightarrow> string" where
  "remove_suffix s suffix = (if suffix \<noteq> [] \<and> starts_with (rev s) (rev suffix) then take (length s - length suffix) s else s)"

definition validate_wall_timestamp :: "iso_reader \<Rightarrow> string \<Rightarrow> unit result" where
  "validate_wall_timestamp fromisoformat v = (case fromisoformat (remove_suffix v ''Z'' @ ''+00:00'') of
       None \<Rightarrow> Inl (RecoveryIntegrityError ''attempt terminal timestamp is malformed'')
     | Some offset \<Rightarrow> raise_unless (\<not> (\<not> starts_with (rev v) (rev ''Z'') \<or> offset \<noteq> Some 0))
         (RecoveryIntegrityError ''attempt terminal timestamp is not canonical UTC''))"

text \<open>Lookup of an enumeration member by its stored value.\<close>

definition AttemptClassification_members :: "AttemptClassification list" where
  "AttemptClassification_members = [AttemptClassification.PLANNED, AttemptClassification.RECEIVER_ACCEPTED,
     AttemptClassification.RECEIVER_REJECTED, AttemptClassification.ENVIRONMENT_FAILURE,
     AttemptClassification.HARNESS_FAILURE, AttemptClassification.CANCELLED, AttemptClassification.AMBIGUOUS]"

definition enum_of_value :: "('e \<Rightarrow> string) \<Rightarrow> 'e list \<Rightarrow> string \<Rightarrow> exn \<Rightarrow> 'e result" where
  "enum_of_value val members v e = (case find (\<lambda>m. val m = v) members of None \<Rightarrow> Inl e | Some m \<Rightarrow> Inr m)"

definition validate_attempt_projection :: "iso_reader \<Rightarrow> AttemptRow \<Rightarrow> AttemptState \<Rightarrow> unit result" where
  "validate_attempt_projection read_iso row state = (case TERMINAL_ATTEMPT_CLASSIFICATIONS state of
       None \<Rightarrow> raise_unless (\<not> (ar_outcome_category row \<noteq> None \<or> ar_terminal_recorded_at row \<noteq> None))
         (RecoveryIntegrityError ''nonterminal attempt contains terminal outcome fields'')
     | Some allowed \<Rightarrow> (case (ar_outcome_category row, ar_terminal_recorded_at row) of
           (Some outcome, Some recorded_at) \<Rightarrow>
             and_then (enum_of_value classification_value AttemptClassification_members outcome
               (RecoveryIntegrityError ''terminal attempt contains an undeclared outcome'')) (\<lambda>classification.
             and_then (raise_unless (classification \<in> allowed)
               (RecoveryIntegrityError ''terminal attempt state and classification disagree'')) (\<lambda>_.
               validate_wall_timestamp read_iso recorded_at))
         | _ \<Rightarrow> Inl (RecoveryIntegrityError ''terminal attempt is missing durable outcome fields'')))"

definition durable_no_send_proof_of :: "string option \<Rightarrow> DurableNoSendProof" where
  "durable_no_send_proof_of v =
     (if v = Some (no_send_proof_value DurableNoSendProof.CONTROLLED_PRE_TRANSPORT)
      then DurableNoSendProof.CONTROLLED_PRE_TRANSPORT
      else if v = Some (no_send_proof_value DurableNoSendProof.NO_CONNECTION_ESTABLISHED)
      then DurableNoSendProof.NO_CONNECTION_ESTABLISHED
      else DurableNoSendProof.NONE)"

definition attempt_item ::
    "iso_reader \<Rightarrow> string \<Rightarrow> AttemptRow \<Rightarrow> AttemptResponseStagingCommand option \<Rightarrow> AttemptRecoveryItem result" where
  "attempt_item read_iso run_id row staging =
     and_then (enum_of_value attempt_state_value AttemptState_members (ar_state row)
       (RecoveryIntegrityError ''attempt recovery row contains an undeclared state'')) (\<lambda>state.
     and_then (validate_attempt_projection read_iso row state) (\<lambda>_.
     let raw_proof = durable_no_send_proof_of (ar_phase row);
         (action, ambig, target) = classify_attempt_state state raw_proof
     in and_then (if action = AttemptRecoveryAction.REDUCE_DURABLE_RESPONSE
          then (case staging of
              None \<Rightarrow> Inl (RecoveryIntegrityError ''response-observed attempt lacks durable response staging'')
            | Some st \<Rightarrow> Inr (Some (terminal_state st)))
          else and_then (raise_unless (staging = None)
            (RecoveryIntegrityError ''non-response-observed attempt retains response staging'')) (\<lambda>_. Inr target)) (\<lambda>target.
        AttemptRecoveryItem_post_init
          \<lparr>ai_run_id = run_id, ai_scenario_id = ar_scenario_id row, ai_event_id = ar_event_id row,
           ai_delivery_id = ar_delivery_id row, ai_attempt_id = ar_attempt_id row,
           ai_scenario_ordinal = ar_scenario_ordinal row, ai_step_ordinal = ar_step_ordinal row,
           ai_delivery_ordinal = ar_delivery_ordinal row, ai_attempt_ordinal = ar_attempt_ordinal row,
           ai_prior_state = state,
           durable_no_send_proof =
             (if action = AttemptRecoveryAction.TERMINATE_NOT_SENT then raw_proof else DurableNoSendProof.NONE),
           ai_action = action, ambiguity = ambig, ai_target_state = target,
           ai_predecessor_attempt_id = ar_predecessor_attempt_id row, response_staging = staging\<rparr>)))"

definition observation_item :: "string \<Rightarrow> ObservationRow \<Rightarrow> ObservationRecoveryItem result" where
  "observation_item run_id row =
     and_then (enum_of_value observation_state_value ObservationState_members (or_state row)
       (RecoveryIntegrityError ''observation recovery row contains an undeclared state'')) (\<lambda>state.
     let (action, target) = classify_observation_state state
     in ObservationRecoveryItem_post_init
          \<lparr>oi_run_id = run_id, oi_scenario_id = or_scenario_id row, oi_observation_id = or_observation_id row,
           oi_scenario_ordinal = or_scenario_ordinal row, oi_prior_state = state, oi_action = action,
           oi_target_state = target\<rparr>)"

section \<open>The scan\<close>

text \<open>The rows one transaction loads. A staged response is its attempt identifier and the result of rebuilding
  the staging command from its columns.\<close>

record ScanRows =
  rows_run_state :: string
  rows_owner_epoch :: int
  rows_attempts :: "AttemptRow list"
  rows_response_staging :: "(string \<times> AttemptResponseStagingCommand result) list"
  rows_observations :: "ObservationRow list"

definition staged_pair :: "string \<times> AttemptResponseStagingCommand result \<Rightarrow>
    (string \<times> AttemptResponseStagingCommand) result" where
  "staged_pair p = and_then (snd p) (\<lambda>st. Inr (fst p, st))"

text \<open>The two exception clauses around the items: the scanner's own errors pass, a \<open>TypeError\<close> or
  \<open>ValueError\<close> becomes an integrity error.\<close>

definition invalid_evidence :: "'a result \<Rightarrow> 'a result" where
  "invalid_evidence m = (case m of
       Inl e \<Rightarrow> if is_type_or_value_error e
         then Inl (RecoveryIntegrityError ''durable response staging contains invalid evidence'') else Inl e
     | Inr x \<Rightarrow> Inr x)"

text \<open>The dictionary of staged responses, as its pairs; the keys are checked to be distinct.\<close>

definition staging_by_attempt :: "ScanRows \<Rightarrow> (string \<times> AttemptResponseStagingCommand) list result" where
  "staging_by_attempt rows =
     and_then (for_each staged_pair (rows_response_staging rows)) (\<lambda>pairs.
     and_then (raise_unless (\<not> length (remdups (map fst pairs)) \<noteq> length pairs)
       (RecoveryIntegrityError ''response staging contains duplicate attempt identities'')) (\<lambda>_.
       Inr pairs))"

definition scan_attempts ::
    "iso_reader \<Rightarrow> string \<Rightarrow> ScanRows \<Rightarrow> ((string \<times> AttemptResponseStagingCommand) list \<times> AttemptRecoveryItem list) result" where
  "scan_attempts read_iso run_id rows = invalid_evidence (
     and_then (staging_by_attempt rows) (\<lambda>staging.
     and_then (for_each (\<lambda>row. attempt_item read_iso run_id row (map_of staging (ar_attempt_id row))) (rows_attempts rows)) (\<lambda>items.
       Inr (staging, sort_key attempt_deterministic_key items))))"

definition scan :: "iso_reader \<Rightarrow> RecoveryScanContext \<Rightarrow> ScanRows \<Rightarrow> RecoveryPlan result" where
  "scan read_iso ctx rows =
     and_then (raise_unless (\<not> rows_owner_epoch rows \<noteq> context_owner_epoch ctx)
       (RecoveryOwnerEpochError ''journal owner epoch differs from the fresh recovery owner'')) (\<lambda>_.
     and_then (enum_of_value run_state_value RunState_members (rows_run_state rows)
       (RecoveryIntegrityError ''recovery run contains an undeclared state'')) (\<lambda>run_state.
     and_then (scan_attempts read_iso (context_run_id ctx) rows) (\<lambda>(staging, items).
     and_then (raise_unless (\<not> set (map ai_attempt_id [i \<leftarrow> items. response_staging i \<noteq> None]) \<noteq> set (map fst staging))
       (RecoveryIntegrityError ''durable response staging is not bound to response-observed attempts'')) (\<lambda>_.
     and_then (for_each (observation_item (context_run_id ctx)) (rows_observations rows)) (\<lambda>observations.
       RecoveryPlan_post_init
         \<lparr>plan_run_id = context_run_id ctx, plan_owner_epoch = context_owner_epoch ctx, plan_run_state = run_state,
          plan_attempts = items,
          plan_observations = sort_key observation_deterministic_key observations\<rparr>)))))"

section \<open>Lemmas on classification\<close>

lemma enum_of_value_eq_Inr:
  assumes "\<And>x y. val x = val y \<Longrightarrow> x = y" "\<And>x. x \<in> set members"
  shows "enum_of_value val members v e = Inr m \<longleftrightarrow> val m = v"
proof (cases "find (\<lambda>m. val m = v) members")
  case None
  then have "val m \<noteq> v" using assms(2)[of m] by (auto simp: find_None_iff)
  then show ?thesis using None by (simp add: enum_of_value_def)
next
  case (Some n)
  then have "val n = v" by (auto simp: find_Some_iff)
  then show ?thesis using Some assms(1) by (auto simp: enum_of_value_def)
qed

lemma stored_state_eq_Inr:
  "enum_of_value attempt_state_value AttemptState_members v e = Inr s \<longleftrightarrow> attempt_state_value s = v"
  "enum_of_value observation_state_value ObservationState_members v e = Inr t \<longleftrightarrow> observation_state_value t = v"
  "enum_of_value run_state_value RunState_members v e = Inr r \<longleftrightarrow> run_state_value r = v"
proof -
  have "x \<in> set AttemptState_members" "y \<in> set ObservationState_members" "z \<in> set RunState_members" for x y z
    using members_complete[of "AttemptS x"] members_complete[of "ObservationS y"] members_complete[of "RunS z"]
    by auto
  then show "enum_of_value attempt_state_value AttemptState_members v e = Inr s \<longleftrightarrow> attempt_state_value s = v"
    "enum_of_value observation_state_value ObservationState_members v e = Inr t \<longleftrightarrow> observation_state_value t = v"
    "enum_of_value run_state_value RunState_members v e = Inr r \<longleftrightarrow> run_state_value r = v"
    using enum_of_value_eq_Inr[of attempt_state_value AttemptState_members v e s]
      enum_of_value_eq_Inr[of observation_state_value ObservationState_members v e t]
      enum_of_value_eq_Inr[of run_state_value RunState_members v e r] by (simp_all add: enum_values_inj)
qed

text \<open>The item a row in a given state becomes.\<close>

definition classified_item ::
    "string \<Rightarrow> AttemptRow \<Rightarrow> AttemptResponseStagingCommand option \<Rightarrow> AttemptState \<Rightarrow> AttemptRecoveryItem" where
  "classified_item run_id row staging state =
     (let raw_proof = durable_no_send_proof_of (ar_phase row); decision = classify_attempt_state state raw_proof
      in \<lparr>ai_run_id = run_id, ai_scenario_id = ar_scenario_id row, ai_event_id = ar_event_id row,
          ai_delivery_id = ar_delivery_id row, ai_attempt_id = ar_attempt_id row,
          ai_scenario_ordinal = ar_scenario_ordinal row, ai_step_ordinal = ar_step_ordinal row,
          ai_delivery_ordinal = ar_delivery_ordinal row, ai_attempt_ordinal = ar_attempt_ordinal row,
          ai_prior_state = state,
          durable_no_send_proof = (if fst decision = AttemptRecoveryAction.TERMINATE_NOT_SENT then raw_proof
            else DurableNoSendProof.NONE),
          ai_action = fst decision, ambiguity = fst (snd decision),
          ai_target_state = (case staging of None \<Rightarrow> snd (snd decision) | Some st \<Rightarrow> Some (terminal_state st)),
          ai_predecessor_attempt_id = ar_predecessor_attempt_id row, response_staging = staging\<rparr>)"

lemma classified_fields:
  "ai_prior_state (classified_item run_id row staging state) = state"
  "ai_attempt_id (classified_item run_id row staging state) = ar_attempt_id row"
  "ai_run_id (classified_item run_id row staging state) = run_id"
  "response_staging (classified_item run_id row staging state) = staging"
  by (simp_all add: classified_item_def Let_def)

lemma classified_decision:
  assumes "staging \<noteq> None \<longleftrightarrow> state = AttemptState.RESPONSE_OBSERVED"
  shows "validate_attempt_action (classified_item run_id row staging state) = Inr ()"
  using assms unfolding validate_attempt_action_eq_Inr
  by (cases state; cases "durable_no_send_proof_of (ar_phase row)"; cases staging)
    (simp_all add: classified_item_def Let_def classify_attempt_state_def expected_no_send_proof_def)

lemma reduces_response_iff:
  "fst (classify_attempt_state state proof) = AttemptRecoveryAction.REDUCE_DURABLE_RESPONSE \<longleftrightarrow>
     state = AttemptState.RESPONSE_OBSERVED"
  by (cases state) (simp_all add: classify_attempt_state_def)

lemma attempt_item_built:
  "attempt_item read_iso run_id row staging = Inr i \<longleftrightarrow> (\<exists>state. attempt_state_value state = ar_state row \<and>
     validate_attempt_projection read_iso row state = Inr () \<and>
     (staging \<noteq> None \<longleftrightarrow> state = AttemptState.RESPONSE_OBSERVED) \<and>
     attempt_coordinates_ok i \<and> i = classified_item run_id row staging state)"
proof -
  have "(let raw_proof = durable_no_send_proof_of (ar_phase row);
         (action, ambig, target) = classify_attempt_state state raw_proof
     in and_then (if action = AttemptRecoveryAction.REDUCE_DURABLE_RESPONSE
          then (case staging of
              None \<Rightarrow> Inl (RecoveryIntegrityError ''response-observed attempt lacks durable response staging'')
            | Some st \<Rightarrow> Inr (Some (terminal_state st)))
          else and_then (raise_unless (staging = None)
            (RecoveryIntegrityError ''non-response-observed attempt retains response staging'')) (\<lambda>_. Inr target)) (\<lambda>target.
        AttemptRecoveryItem_post_init
          \<lparr>ai_run_id = run_id, ai_scenario_id = ar_scenario_id row, ai_event_id = ar_event_id row,
           ai_delivery_id = ar_delivery_id row, ai_attempt_id = ar_attempt_id row,
           ai_scenario_ordinal = ar_scenario_ordinal row, ai_step_ordinal = ar_step_ordinal row,
           ai_delivery_ordinal = ar_delivery_ordinal row, ai_attempt_ordinal = ar_attempt_ordinal row,
           ai_prior_state = state,
           durable_no_send_proof =
             (if action = AttemptRecoveryAction.TERMINATE_NOT_SENT then raw_proof else DurableNoSendProof.NONE),
           ai_action = action, ambiguity = ambig, ai_target_state = target,
           ai_predecessor_attempt_id = ar_predecessor_attempt_id row, response_staging = staging\<rparr>)) = Inr i \<longleftrightarrow>
      (staging \<noteq> None \<longleftrightarrow> state = AttemptState.RESPONSE_OBSERVED) \<and>
      AttemptRecoveryItem_post_init (classified_item run_id row staging state) = Inr i" for state
    using reduces_response_iff[of state "durable_no_send_proof_of (ar_phase row)"]
    by (cases staging) (auto simp: classified_item_def Let_def split: prod.splits)
  then show ?thesis
    unfolding attempt_item_def
    by (simp add: and_then_eq_Inr stored_state_eq_Inr attempt_item_eq_Inr classified_decision cong: conj_cong)
      (metis classified_decision)
qed

section \<open>Lemmas on the scan\<close>

lemma for_each_map:
  "for_each f xs = Inr ys \<longleftrightarrow> (\<forall>x \<in> set xs. returns (f x)) \<and> ys = map (\<lambda>x. projr (f x)) xs"
  by (induction xs arbitrary: ys) (auto simp: result_simps returns_iff)

lemma for_each_member:
  "for_each f xs = Inr ys \<Longrightarrow> y \<in> set ys \<Longrightarrow> \<exists>x \<in> set xs. f x = Inr y"
  by (induction xs arbitrary: ys) (auto simp: result_simps)

lemma invalid_evidence_eq_Inr [simp]: "invalid_evidence m = Inr x \<longleftrightarrow> m = Inr x"
  by (cases m) (simp_all add: invalid_evidence_def)

lemma staging_by_attempt_eq_Inr:
  "staging_by_attempt rows = Inr pairs \<longleftrightarrow>
     rows_response_staging rows = map (\<lambda>(a, st). (a, Inr st)) pairs \<and> distinct (map fst pairs)"
proof -
  have "for_each staged_pair rs = Inr pairs \<longleftrightarrow> rs = map (\<lambda>(a, st). (a, Inr st)) pairs" for rs pairs
    by (induction rs arbitrary: pairs) (auto simp: result_simps staged_pair_def Cons_eq_map_conv)
  then show ?thesis
    using distinct_length_set[of "map fst pairs"] by (auto simp: staging_by_attempt_def result_simps)
qed

text \<open>What a scan that returns has checked.\<close>

definition scan_spec :: "iso_reader \<Rightarrow> RecoveryScanContext \<Rightarrow> ScanRows \<Rightarrow> (string \<times> AttemptResponseStagingCommand) list \<Rightarrow>
    AttemptRecoveryItem list \<Rightarrow> ObservationRecoveryItem list \<Rightarrow> RecoveryPlan \<Rightarrow> bool" where
  "scan_spec read_iso ctx rows staging items observations p \<longleftrightarrow>
     rows_owner_epoch rows = context_owner_epoch ctx \<and>
     run_state_value (plan_run_state p) = rows_run_state rows \<and>
     staging_by_attempt rows = Inr staging \<and>
     for_each (\<lambda>row. attempt_item read_iso (context_run_id ctx) row (map_of staging (ar_attempt_id row)))
       (rows_attempts rows) = Inr items \<and>
     set (map ai_attempt_id [i \<leftarrow> items. response_staging i \<noteq> None]) = set (map fst staging) \<and>
     for_each (observation_item (context_run_id ctx)) (rows_observations rows) = Inr observations \<and>
     p = \<lparr>plan_run_id = context_run_id ctx, plan_owner_epoch = context_owner_epoch ctx,
          plan_run_state = plan_run_state p, plan_attempts = sort_key attempt_deterministic_key items,
          plan_observations = sort_key observation_deterministic_key observations\<rparr> \<and>
     recovery_plan_ok p"

lemma scan_eq_Inr: "scan read_iso ctx rows = Inr p \<longleftrightarrow> (\<exists>staging items observations.
    scan_spec read_iso ctx rows staging items observations p)"
proof
  assume "scan read_iso ctx rows = Inr p"
  then show "\<exists>staging items observations. scan_spec read_iso ctx rows staging items observations p"
    unfolding scan_def scan_attempts_def scan_spec_def
    by (auto simp: result_simps stored_state_eq_Inr recovery_plan_eq_Inr)
next
  assume "\<exists>staging items observations. scan_spec read_iso ctx rows staging items observations p"
  then obtain staging items observations where s: "scan_spec read_iso ctx rows staging items observations p" by blast
  have state: "enum_of_value run_state_value RunState_members (rows_run_state rows)
      (RecoveryIntegrityError ''recovery run contains an undeclared state'') = Inr (plan_run_state p)"
    using s by (simp add: stored_state_eq_Inr scan_spec_def)
  show "scan read_iso ctx rows = Inr p"
    using s unfolding scan_def scan_attempts_def scan_spec_def state
    by (simp add: recovery_plan_eq_Inr invalid_evidence_def)
qed

lemma sort_key_same_set:
  assumes "mset xs = mset ys" "distinct (map g xs)" "\<And>x y. f x = f y \<Longrightarrow> g x = g y"
  shows "sort_key f xs = sort_key f ys"
proof (rule sort_key_perm_eq)
  show "distinct xs" using assms(2) by (simp add: distinct_map)
  then show "distinct ys" using mset_eq_imp_distinct_iff[OF assms(1)] by simp
  show "set xs = set ys" using mset_eq_setD[OF assms(1)] .
  have "inj_on g (set xs)" using assms(2) by (simp add: distinct_map)
  then show "inj_on f (set xs)" using assms(3) unfolding inj_on_def by blast
qed

lemma distinct_map_permuted: "mset xs = mset ys \<Longrightarrow> distinct (map g xs) \<longleftrightarrow> distinct (map g ys)"
  by (metis mset_eq_imp_distinct_iff mset_map)

lemma for_each_permuted:
  assumes "for_each f xs = Inr ys" "mset xs' = mset xs"
  obtains ys' where "for_each f xs' = Inr ys'" "mset ys' = mset ys"
  using assms mset_eq_setD[OF assms(2)] by (auto simp: for_each_map)

lemma staging_permuted:
  assumes "staging_by_attempt rows = Inr pairs" "mset (rows_response_staging rows') = mset (rows_response_staging rows)"
  shows "\<exists>pairs'. staging_by_attempt rows' = Inr pairs' \<and> mset pairs' = mset pairs"
proof -
  have f: "for_each staged_pair (rows_response_staging rows) = Inr pairs" "distinct (map fst pairs)"
    using assms(1) distinct_length_set[of "map fst pairs"] by (auto simp: staging_by_attempt_def result_simps)
  obtain pairs' where p: "for_each staged_pair (rows_response_staging rows') = Inr pairs'" "mset pairs' = mset pairs"
    using for_each_permuted[OF f(1) assms(2)] .
  have "mset (map fst pairs') = mset (map fst pairs)" using p(2) by simp
  then have "distinct (map fst pairs')" using mset_eq_imp_distinct_iff f(2) by blast
  then have "length (remdups (map fst pairs')) = length pairs'" by (simp add: distinct_remdups_id)
  then show ?thesis using p by (simp add: staging_by_attempt_def)
qed

text \<open>A scan does not depend on the order in which the journal returns its rows: if the rows give a
  plan, any permutation of the attempt, staging and observation rows gives the same plan.\<close>

lemma scan_order_irrelevant:
  assumes "scan read_iso ctx rows = Inr p"
    and "rows_run_state rows' = rows_run_state rows" "rows_owner_epoch rows' = rows_owner_epoch rows"
    and "mset (rows_attempts rows') = mset (rows_attempts rows)"
    and "mset (rows_response_staging rows') = mset (rows_response_staging rows)"
    and "mset (rows_observations rows') = mset (rows_observations rows)"
  shows "scan read_iso ctx rows' = Inr p"
proof -
  obtain staging items observations where s: "scan_spec read_iso ctx rows staging items observations p"
    using assms(1) by (auto simp: scan_eq_Inr)
  obtain staging' where staging': "staging_by_attempt rows' = Inr staging'" "mset staging' = mset staging"
    using s assms(5) staging_permuted unfolding scan_spec_def by blast
  have same: "map_of staging' = map_of staging" "set (map fst staging') = set (map fst staging)"
    using staging' s staging_by_attempt_eq_Inr[of rows staging] staging_by_attempt_eq_Inr[of rows' staging']
    unfolding scan_spec_def by (auto simp: map_of_inject_set dest: mset_eq_setD)
  obtain items' where items': "for_each (\<lambda>row. attempt_item read_iso (context_run_id ctx) row
      (map_of staging' (ar_attempt_id row))) (rows_attempts rows') = Inr items'" "mset items' = mset items"
    using s for_each_permuted[OF _ assms(4)] unfolding scan_spec_def same by blast
  obtain observations' where observations':
    "for_each (observation_item (context_run_id ctx)) (rows_observations rows') = Inr observations'"
    "mset observations' = mset observations"
    using s for_each_permuted[OF _ assms(6)] unfolding scan_spec_def by blast
  have sorted: "plan_attempts p = sort_key attempt_deterministic_key items"
    "plan_observations p = sort_key observation_deterministic_key observations" "recovery_plan_ok p"
    using s unfolding scan_spec_def by (metis RecoveryPlan.select_convs)+
  have keys: "ai_attempt_id i = ai_attempt_id j" if "attempt_deterministic_key i = attempt_deterministic_key j" for i j
    using that by (simp add: attempt_deterministic_key_def)
  have observation_keys: "oi_observation_id i = oi_observation_id j"
    if "observation_deterministic_key i = observation_deterministic_key j" for i j
    using that by (simp add: observation_deterministic_key_def)
  have distinct: "distinct (map ai_attempt_id items)" "distinct (map oi_observation_id observations)"
    using sorted distinct_map_permuted[of items "sort_key attempt_deterministic_key items"]
      distinct_map_permuted[of observations "sort_key observation_deterministic_key observations"]
    unfolding recovery_plan_ok_def by (metis mset_sort)+
  have "sort_key attempt_deterministic_key items = sort_key attempt_deterministic_key items'"
    by (rule sort_key_same_set[OF items'(2)[symmetric] distinct(1) keys])
  moreover have "sort_key observation_deterministic_key observations = sort_key observation_deterministic_key observations'"
    by (rule sort_key_same_set[OF observations'(2)[symmetric] distinct(2) observation_keys])
  moreover have "set items' = set items" using mset_eq_setD[OF items'(2)] .
  ultimately have "scan_spec read_iso ctx rows' staging' items' observations' p"
    using s staging'(1) same items'(1) observations'(1) assms(2,3) unfolding scan_spec_def
    by (simp only: set_map set_filter)
  then show ?thesis by (auto simp: scan_eq_Inr)
qed

section \<open>Safety of the classification\<close>

text \<open>The staged responses come from validated commands: the scanner rebuilds each one through its constructors,
  for the attempt the row names.\<close>

definition staged_for :: "string \<Rightarrow> AttemptResponseStagingCommand \<Rightarrow> bool" where
  "staged_for a st \<longleftrightarrow> AttemptResponseStagingCommand_post_init st = Inr st \<and>
     AttemptTransportEvidenceCommand_post_init (transport_evidence st) = Inr (transport_evidence st) \<and>
     ev_attempt_id (transport_evidence st) = a"

definition staging_rows_built :: "ScanRows \<Rightarrow> bool" where
  "staging_rows_built rows \<longleftrightarrow> (\<forall>a st. (a, Inr st) \<in> set (rows_response_staging rows) \<longrightarrow> staged_for a st)"

lemma scan_item_row:
  assumes "scan read_iso ctx rows = Inr p" "staging_rows_built rows" "i \<in> set (plan_attempts p)"
  shows "\<exists>row \<in> set (rows_attempts rows). \<exists>staging. attempt_item read_iso (context_run_id ctx) row staging = Inr i \<and>
    (\<forall>st. staging = Some st \<longrightarrow> staged_for (ar_attempt_id row) st)"
proof -
  obtain pairs items observations where s: "scan_spec read_iso ctx rows pairs items observations p"
    using assms(1) by (auto simp: scan_eq_Inr)
  have "plan_attempts p = sort_key attempt_deterministic_key items"
    using s unfolding scan_spec_def by (metis RecoveryPlan.select_convs(4))
  then have i: "i \<in> set items" using assms(3) by simp
  have "for_each (\<lambda>row. attempt_item read_iso (context_run_id ctx) row (map_of pairs (ar_attempt_id row)))
      (rows_attempts rows) = Inr items"
    using s by (simp add: scan_spec_def)
  from for_each_member[OF this i] obtain row where row: "row \<in> set (rows_attempts rows)"
    "attempt_item read_iso (context_run_id ctx) row (map_of pairs (ar_attempt_id row)) = Inr i" by blast
  have rows: "rows_response_staging rows = map (\<lambda>(a, st). (a, Inr st)) pairs"
    using s by (simp add: scan_spec_def staging_by_attempt_eq_Inr)
  have "staged_for (ar_attempt_id row) st" if "map_of pairs (ar_attempt_id row) = Some st" for st
    using assms(2) map_of_SomeD[OF that] unfolding staging_rows_built_def rows by force
  with row show ?thesis by blast
qed

definition no_send_established :: "AttemptState \<Rightarrow> string option \<Rightarrow> bool" where
  "no_send_established state recorded_phase \<longleftrightarrow>
     state = AttemptState.PRE_SEND_COMMITTED \<and> recorded_phase = Some ''controlled_pre_transport'' \<or>
     state = AttemptState.CONNECTING \<and> recorded_phase = Some ''no_connection_established''"

definition send_possible :: "AttemptState \<Rightarrow> string option \<Rightarrow> bool" where
  "send_possible state recorded_phase \<longleftrightarrow> state \<in> {AttemptState.SENDING, AttemptState.AWAITING_RESPONSE} \<or>
     state = AttemptState.CONNECTING \<and> recorded_phase \<noteq> Some ''no_connection_established''"

lemma attempt_edges:
  "transition_allowed EntityType.ATTEMPT (AttemptS AttemptState.PRE_SEND_COMMITTED) (AttemptS AttemptState.NOT_SENT)"
  "transition_allowed EntityType.ATTEMPT (AttemptS AttemptState.CONNECTING) (AttemptS AttemptState.NOT_SENT)"
  "transition_allowed EntityType.ATTEMPT (AttemptS AttemptState.CONNECTING) (AttemptS AttemptState.UNKNOWN_OUTCOME)"
  "transition_allowed EntityType.ATTEMPT (AttemptS AttemptState.SENDING) (AttemptS AttemptState.UNKNOWN_OUTCOME)"
  "transition_allowed EntityType.ATTEMPT (AttemptS AttemptState.AWAITING_RESPONSE) (AttemptS AttemptState.UNKNOWN_OUTCOME)"
  by code_simp+

lemma staged_terminal:
  assumes "AttemptResponseStagingCommand_post_init st = Inr st"
    "AttemptTransportEvidenceCommand_post_init (transport_evidence st) = Inr (transport_evidence st)"
  shows "terminal_state st \<in> {AttemptState.SUCCEEDED, AttemptState.REJECTED, AttemptState.TRANSPORT_FAILED}"
    "transition_allowed EntityType.ATTEMPT (AttemptS AttemptState.RESPONSE_OBSERVED) (AttemptS (terminal_state st))"
    "outcome_classification (terminal_outcome st) = ev_classification (transport_evidence st)"
proof -
  show "terminal_state st \<in> {AttemptState.SUCCEEDED, AttemptState.REJECTED, AttemptState.TRANSPORT_FAILED}"
    using assms(1) by (auto simp: AttemptResponseStagingCommand_post_init_def Let_def result_simps)
  show "transition_allowed EntityType.ATTEMPT (AttemptS AttemptState.RESPONSE_OBSERVED) (AttemptS (terminal_state st))"
    using staging_parts(2)[OF assms(2,1)] .
  show "outcome_classification (terminal_outcome st) = ev_classification (transport_evidence st)"
    using staging_parts(1)[OF assms(2)] assms(1) by metis
qed

text \<open>C4. Recovery is conservative. Every item of a plan comes from a persisted row of the same attempt; it is
  moved to NOT_SENT exactly when the row's durable phase establishes that nothing was sent, to
  UNKNOWN_OUTCOME exactly when the request may have left, keeps an ambiguity exactly when the receiver may
  have seen the request or the phase evidence is missing, and whatever move it makes is a legal edge of the
  attempt's lifecycle. Terminal attempts are never moved.\<close>

theorem recovery_conservative:
  assumes "scan read_iso ctx rows = Inr p" "staging_rows_built rows" "i \<in> set (plan_attempts p)"
  shows "\<exists>row \<in> set (rows_attempts rows). ar_attempt_id row = ai_attempt_id i \<and>
    ar_state row = attempt_state_value (ai_prior_state i) \<and>
    (ai_target_state i = Some AttemptState.NOT_SENT \<longleftrightarrow> no_send_established (ai_prior_state i) (ar_phase row)) \<and>
    (ai_target_state i = Some AttemptState.UNKNOWN_OUTCOME \<longleftrightarrow> send_possible (ai_prior_state i) (ar_phase row)) \<and>
    (ambiguity i \<noteq> RecoveryAmbiguity.NONE \<longleftrightarrow> send_possible (ai_prior_state i) (ar_phase row) \<or>
       ai_prior_state i = AttemptState.UNKNOWN_OUTCOME \<or>
       ai_prior_state i = AttemptState.PRE_SEND_COMMITTED \<and> \<not> no_send_established (ai_prior_state i) (ar_phase row)) \<and>
    (\<forall>t. ai_target_state i = Some t \<longrightarrow>
       transition_allowed EntityType.ATTEMPT (AttemptS (ai_prior_state i)) (AttemptS t))"
proof -
  obtain row staging where row: "row \<in> set (rows_attempts rows)"
    "attempt_item read_iso (context_run_id ctx) row staging = Inr i"
    and built: "\<And>st. staging = Some st \<Longrightarrow> staged_for (ar_attempt_id row) st"
    using scan_item_row[OF assms] by blast
  obtain state where i: "attempt_state_value state = ar_state row" "i = classified_item (context_run_id ctx) row staging state"
    and staged: "staging \<noteq> None \<longleftrightarrow> state = AttemptState.RESPONSE_OBSERVED"
    using row(2) by (auto simp: attempt_item_built)
  have terminal: "terminal_state st \<in> {AttemptState.SUCCEEDED, AttemptState.REJECTED, AttemptState.TRANSPORT_FAILED}"
    "transition_allowed EntityType.ATTEMPT (AttemptS AttemptState.RESPONSE_OBSERVED) (AttemptS (terminal_state st))"
    if "staging = Some st" for st
    using staged_terminal[of st] built[OF that] by (simp_all add: staged_for_def)
  show ?thesis
    using staged
    by (intro bexI[OF _ row(1)], cases state; cases staging)
      (auto simp: i(2) i(1)[symmetric] classified_item_def Let_def classify_attempt_state_def attempt_edges
        durable_no_send_proof_of_def no_send_established_def send_possible_def dest: terminal)
qed

section \<open>Linear history\<close>

text \<open>C31. Recovered history is linear. In a plan that passed its checks, take two attempts that descend from a common one. They
  belong to one delivery; one descends from the other exactly when its ordinal is not smaller; it is the next attempt
  exactly when its ordinal is greater by one; attempts with the same ordinal are the same. An ambiguous attempt is still
  unresolved exactly when it is the end of its chain, no descendant of the common attempt having a greater ordinal:
  an attempt that was already followed by another never solicits consent again.\<close>

theorem recovery_history_linear:
  assumes "RecoveryPlan_post_init p = Inr q"
    and "(r, i) \<in> (attempt_follows p)\<^sup>*" "(r, j) \<in> (attempt_follows p)\<^sup>*"
  shows "ai_delivery_id i = ai_delivery_id j \<and>
    ((i, j) \<in> (attempt_follows p)\<^sup>* \<longleftrightarrow> ai_attempt_ordinal i \<le> ai_attempt_ordinal j) \<and>
    ((i, j) \<in> attempt_follows p \<longleftrightarrow> ai_attempt_ordinal j = ai_attempt_ordinal i + 1) \<and>
    (ai_attempt_ordinal i = ai_attempt_ordinal j \<longrightarrow> i = j) \<and>
    (i \<in> set (unresolved_ambiguous_attempts p) \<longleftrightarrow> i \<in> set (plan_attempts p) \<and> ambiguity i \<noteq> RecoveryAmbiguity.NONE \<and>
       (\<forall>k. (r, k) \<in> (attempt_follows p)\<^sup>* \<longrightarrow> ai_attempt_ordinal k \<le> ai_attempt_ordinal i))"
proof -
  let ?F = "attempt_follows p"
  have ok: "recovery_plan_ok p" using assms(1) by (simp add: recovery_plan_eq_Inr)
  have one: "ai_attempt_ordinal y = ai_attempt_ordinal x + 1" if "(x, y) \<in> ?F" for x y
    using attempt_follows_coordinates[OF ok that] by (simp add: coordinates_follow_def)
  note up = follows_same_delivery[OF ok]
  have order: "(x, y) \<in> ?F\<^sup>* \<longleftrightarrow> ai_attempt_ordinal x \<le> ai_attempt_ordinal y" if "(r, x) \<in> ?F\<^sup>*" "(r, y) \<in> ?F\<^sup>*" for x y
    using single_valued_confluent[OF attempt_follows_single_valued[OF ok] that] up[of x y] up[of y x] by fastforce
  have same: "x = y" if "(r, x) \<in> ?F\<^sup>*" "(r, y) \<in> ?F\<^sup>*" "ai_attempt_ordinal x = ai_attempt_ordinal y" for x y
    using order[OF that(1,2)] up[of x y] that(3) by auto
  have adjacent: "(i, j) \<in> ?F" if succ: "ai_attempt_ordinal j = ai_attempt_ordinal i + 1"
  proof -
    have "(i, j) \<in> ?F\<^sup>*" "i \<noteq> j" using order[OF assms(2,3)] succ by auto
    then obtain k where k: "(i, k) \<in> ?F" by (meson converse_rtranclE)
    then have "(r, k) \<in> ?F\<^sup>*" using assms(2) by (rule rtrancl.rtrancl_into_rtrancl[rotated])
    then have "k = j" using same[OF _ assms(3)] one[OF k] succ by simp
    then show ?thesis using k by simp
  qed
  have last: "(\<forall>k. (i, k) \<notin> ?F) \<longleftrightarrow> (\<forall>k. (r, k) \<in> ?F\<^sup>* \<longrightarrow> ai_attempt_ordinal k \<le> ai_attempt_ordinal i)"
  proof (intro iffI allI impI)
    fix k assume leaf: "\<forall>k. (i, k) \<notin> ?F" and k: "(r, k) \<in> ?F\<^sup>*"
    have "(i, k) \<in> ?F\<^sup>* \<Longrightarrow> k = i" using leaf by (auto elim: converse_rtranclE)
    then show "ai_attempt_ordinal k \<le> ai_attempt_ordinal i" using order[OF assms(2) k] by (cases "ai_attempt_ordinal i \<le> ai_attempt_ordinal k") auto
  next
    fix k assume top: "\<forall>k. (r, k) \<in> ?F\<^sup>* \<longrightarrow> ai_attempt_ordinal k \<le> ai_attempt_ordinal i"
    show "(i, k) \<notin> ?F"
    proof
      assume k: "(i, k) \<in> ?F"
      then have "ai_attempt_ordinal k \<le> ai_attempt_ordinal i" using top rtrancl.rtrancl_into_rtrancl[OF assms(2) k] by blast
      then show False using one[OF k] by simp
    qed
  qed
  have "ai_delivery_id i = ai_delivery_id j" using up[OF assms(2)] up[OF assms(3)] by simp
  then show ?thesis
    unfolding unresolved_iff last using order[OF assms(2,3)] same[OF assms(2,3)] one[of i j] adjacent by blast
qed

section \<open>A concrete scan\<close>

definition next_attempt_id :: string where "next_attempt_id = ''attempt_'' @ replicate 25 CHR ''0'' @ ''1''"

lemma next_attempt_valid: "validate_fresh_id next_attempt_id (Some FreshIdKind.ATTEMPT) = Inr next_attempt_id"
proof -
  have zeros: "encode_loop k 0 = replicate k CHR ''0''" for k
    by (induction k) (simp_all add: CROCKFORD_ALPHABET_def replicate_append_same)
  have "from_bytes (replicate k 0 @ [1]) = 1" for k
    by (induction k) (simp_all add: from_bytes_def foldl_conv_fold)
  moreover have "encode_loop 26 1 = replicate 25 CHR ''0'' @ ''1''"
  proof -
    have "encode_loop (Suc 25) 1 = encode_loop 25 0 @ [CROCKFORD_ALPHABET ! 1]" by (simp only: encode_loop.simps) simp
    moreover have "Suc 25 = 26" "CROCKFORD_ALPHABET ! 1 = CHR ''1''" by (simp_all add: CROCKFORD_ALPHABET_def)
    ultimately show ?thesis by (simp only: zeros)
  qed
  ultimately have "encode_crockford_ulid (replicate 15 0 @ [1]) = Inr (replicate 25 CHR ''0'' @ ''1'')"
    by (simp add: encode_eq_Inr ULID_BYTES_def ULID_LENGTH_def)
  then show ?thesis by (auto simp: validate_fresh_eq_Inr parse_fresh_eq_Inr next_attempt_id_def)
qed

definition sample_row :: "string \<Rightarrow> int \<Rightarrow> string \<Rightarrow> string option \<Rightarrow> string option \<Rightarrow> string option \<Rightarrow> AttemptRow" where
  "sample_row attempt_id ordinal state outcome recorded_at predecessor =
     \<lparr>ar_attempt_id = attempt_id, ar_scenario_id = ''scenario_'' @ zero_ulid, ar_event_id = ''event_'' @ zero_ulid,
      ar_delivery_id = ''delivery_'' @ zero_ulid, ar_attempt_ordinal = ordinal, ar_state = state, ar_phase = None,
      ar_outcome_category = outcome, ar_terminal_recorded_at = recorded_at, ar_attempt_owner_epoch = Some 1,
      ar_scenario_ordinal = 0, ar_step_ordinal = 0, ar_delivery_ordinal = 0, ar_predecessor_attempt_id = predecessor\<rparr>"

definition first_row :: AttemptRow where
  "first_row = sample_row sample_attempt_id 1 ''unknown_outcome'' (Some ''ambiguous'') (Some ''2026-01-01T00:00:00Z'') None"

definition second_row :: AttemptRow where
  "second_row = sample_row next_attempt_id 2 ''sending'' None None (Some sample_attempt_id)"

definition sample_rows :: "AttemptRow list \<Rightarrow> ScanRows" where
  "sample_rows attempts = \<lparr>rows_run_state = ''running'', rows_owner_epoch = 2, rows_attempts = attempts,
     rows_response_staging = [], rows_observations = [\<lparr>or_observation_id = ''observation_'' @ zero_ulid,
       or_scenario_id = ''scenario_'' @ zero_ulid, or_state = ''running'', or_scenario_ordinal = 0\<rparr>]\<rparr>"

definition sample_context :: RecoveryScanContext where
  "sample_context = \<lparr>context_run_id = sample_run_id, context_owner_epoch = 2,
     context_owner = \<lparr>lock_run_id = sample_run_id, lock_owner_epoch = 2\<rparr>\<rparr>"

definition first_item :: AttemptRecoveryItem where
  "first_item = classified_item sample_run_id first_row None AttemptState.UNKNOWN_OUTCOME"

definition second_item :: AttemptRecoveryItem where
  "second_item = classified_item sample_run_id second_row None AttemptState.SENDING"

definition sample_observation_item :: ObservationRecoveryItem where
  "sample_observation_item = \<lparr>oi_run_id = sample_run_id, oi_scenario_id = ''scenario_'' @ zero_ulid,
     oi_observation_id = ''observation_'' @ zero_ulid, oi_scenario_ordinal = 0,
     oi_prior_state = ObservationState.RUNNING, oi_action = ObservationRecoveryAction.TERMINATE_INTERRUPTED_ERROR,
     oi_target_state = Some ObservationState.ERROR\<rparr>"

definition sample_plan :: RecoveryPlan where
  "sample_plan = \<lparr>plan_run_id = sample_run_id, plan_owner_epoch = 2, plan_run_state = RunState.RUNNING,
     plan_attempts = [first_item, second_item], plan_observations = [sample_observation_item]\<rparr>"

definition utc_reader :: iso_reader where "utc_reader s = Some (Some 0)"

lemmas sample_scan_defs = sample_row_def first_row_def second_row_def sample_context_def first_item_def second_item_def
  sample_observation_item_def sample_plan_def classified_item_def classify_attempt_state_def
  durable_no_send_proof_of_def Let_def

lemma sample_items:
  "attempt_item utc_reader sample_run_id first_row None = Inr first_item"
  "attempt_item utc_reader sample_run_id second_row None = Inr second_item"
  "observation_item sample_run_id \<lparr>or_observation_id = ''observation_'' @ zero_ulid,
       or_scenario_id = ''scenario_'' @ zero_ulid, or_state = ''running'', or_scenario_ordinal = 0\<rparr> =
     Inr sample_observation_item"
proof -
  have ids: "returns (validate_run_id sample_run_id)"
    "returns (validate_planned_id (''scenario_'' @ zero_ulid) (Some PlannedIdKind.SCENARIO))"
    "returns (validate_planned_id (''event_'' @ zero_ulid) (Some PlannedIdKind.EVENT))"
    "returns (validate_planned_id (''delivery_'' @ zero_ulid) (Some PlannedIdKind.DELIVERY))"
    "returns (validate_planned_id (''observation_'' @ zero_ulid) (Some PlannedIdKind.OBSERVATION))"
    "returns (validate_fresh_id sample_attempt_id (Some FreshIdKind.ATTEMPT))"
    "returns (validate_fresh_id next_attempt_id (Some FreshIdKind.ATTEMPT))"
    using zero_ids zero_planned[where k = PlannedIdKind.OBSERVATION] next_attempt_valid sample_run_id_valid
    by (simp_all add: sample_attempt_id_def)
  have other: "sample_attempt_id \<noteq> next_attempt_id"
    by (simp add: sample_attempt_id_def next_attempt_id_def zero_ulid_def numeral_nat)
  have "attempt_coordinates_ok first_item" "attempt_coordinates_ok second_item"
    using ids other by (simp_all add: attempt_coordinates_ok_def sample_scan_defs MAX_SAFE_INTEGER_def)
  moreover have "validate_attempt_projection utc_reader first_row AttemptState.UNKNOWN_OUTCOME = Inr ()"
    "validate_attempt_projection utc_reader second_row AttemptState.SENDING = Inr ()"
    by (simp_all add: validate_attempt_projection_def sample_scan_defs validate_wall_timestamp_def utc_reader_def
        enum_of_value_def AttemptClassification_members_def starts_with_def)
  moreover have "attempt_state_value AttemptState.UNKNOWN_OUTCOME = ar_state first_row"
    "attempt_state_value AttemptState.SENDING = ar_state second_row"
    by (simp_all add: first_row_def second_row_def sample_row_def)
  ultimately show "attempt_item utc_reader sample_run_id first_row None = Inr first_item"
    "attempt_item utc_reader sample_run_id second_row None = Inr second_item"
    unfolding attempt_item_built using first_item_def second_item_def by blast+
  show "observation_item sample_run_id \<lparr>or_observation_id = ''observation_'' @ zero_ulid,
       or_scenario_id = ''scenario_'' @ zero_ulid, or_state = ''running'', or_scenario_ordinal = 0\<rparr> =
     Inr sample_observation_item"
    using ids
    by (simp add: observation_item_def enum_of_value_def ObservationState_members_def classify_observation_state_def
        observation_item_eq_Inr sample_observation_item_def MAX_SAFE_INTEGER_def)
qed

lemma sample_plan_ok: "recovery_plan_ok sample_plan"
proof -
  have other: "sample_attempt_id \<noteq> next_attempt_id"
    by (simp add: sample_attempt_id_def next_attempt_id_def zero_ulid_def numeral_nat)
  have fields: "ai_run_id first_item = sample_run_id" "ai_run_id second_item = sample_run_id"
    "ai_attempt_id first_item = sample_attempt_id" "ai_attempt_id second_item = next_attempt_id"
    "ai_predecessor_attempt_id first_item = None" "ai_predecessor_attempt_id second_item = Some sample_attempt_id"
    by (simp_all add: sample_scan_defs)
  have "coordinates_follow second_item first_item"
    "attempt_deterministic_key first_item \<le> attempt_deterministic_key second_item"
    by (simp_all add: coordinates_follow_def attempt_deterministic_key_def sample_scan_defs)
  then show ?thesis
    using other sample_run_id_valid fields
    by (simp add: recovery_plan_ok_def sample_plan_def MAX_OWNER_EPOCH_def map_filter_simps_Cons
        sample_observation_item_def List.map_filter_def)
qed

lemma sample_scan: "scan utc_reader sample_context (sample_rows [first_row, second_row]) = Inr sample_plan"
proof -
  have "attempt_deterministic_key first_item \<le> attempt_deterministic_key second_item"
    by (simp add: attempt_deterministic_key_def sample_scan_defs)
  moreover have "response_staging first_item = None" "response_staging second_item = None"
    by (simp_all add: first_item_def second_item_def classified_fields)
  ultimately have "scan_spec utc_reader sample_context (sample_rows [first_row, second_row]) [] [first_item, second_item]
      [sample_observation_item] sample_plan"
    using sample_plan_ok sample_items
    by (simp add: scan_spec_def sample_rows_def sample_context_def sample_plan_def staging_by_attempt_def)
  then show ?thesis unfolding scan_eq_Inr by blast
qed

lemma sample_staging_built: "staging_rows_built (sample_rows attempts)"
  by (simp add: staging_rows_built_def sample_rows_def)

lemma scan_order_irrelevant_witness:
  "scan utc_reader sample_context (sample_rows [second_row, first_row]) = Inr sample_plan"
  using scan_order_irrelevant[OF sample_scan, of "sample_rows [second_row, first_row]"] by (simp add: sample_rows_def)

theorem recovery_conservative_witness:
  "second_item \<in> set (plan_attempts sample_plan) \<and>
   transition_allowed EntityType.ATTEMPT (AttemptS AttemptState.SENDING) (AttemptS AttemptState.UNKNOWN_OUTCOME) \<and>
   (\<exists>row \<in> set [first_row, second_row]. ar_attempt_id row = next_attempt_id \<and> ar_state row = ''sending'')"
proof -
  have member: "second_item \<in> set (plan_attempts sample_plan)" by (simp add: sample_plan_def)
  have item: "ai_target_state second_item = Some AttemptState.UNKNOWN_OUTCOME" "ai_attempt_id second_item = next_attempt_id"
    "ai_prior_state second_item = AttemptState.SENDING" "rows_attempts (sample_rows attempts) = attempts" for attempts
    by (simp_all add: sample_scan_defs sample_rows_def)
  from recovery_conservative[OF sample_scan sample_staging_built member] show ?thesis
    unfolding item attempt_state_value.simps using member by blast
qed

theorem recovery_history_linear_witness:
  "(first_item, second_item) \<in> attempt_follows sample_plan \<and> ai_attempt_ordinal second_item = ai_attempt_ordinal first_item + 1 \<and>
   ai_delivery_id first_item = ai_delivery_id second_item \<and> first_item \<notin> set (unresolved_ambiguous_attempts sample_plan)"
proof -
  have accepted: "RecoveryPlan_post_init sample_plan = Inr sample_plan"
    using sample_plan_ok by (simp add: recovery_plan_eq_Inr)
  have step: "(first_item, second_item) \<in> attempt_follows sample_plan"
    by (simp add: attempt_follows_def sample_scan_defs)
  note linear = recovery_history_linear[OF accepted rtrancl.rtrancl_refl r_into_rtrancl[OF step]]
  have next_ordinal: "ai_attempt_ordinal second_item = ai_attempt_ordinal first_item + 1" using linear step by blast
  have "ai_attempt_ordinal second_item \<le> ai_attempt_ordinal first_item" if "first_item \<in> set (unresolved_ambiguous_attempts sample_plan)"
    using linear that r_into_rtrancl[OF step] by blast
  then have "first_item \<notin> set (unresolved_ambiguous_attempts sample_plan)" using next_ordinal by linarith
  with linear step next_ordinal show ?thesis by blast
qed

end
