(* ===== verification/Recovery_Application.thy ===== *)
theory Recovery_Application
  imports Recovery_Scanner
begin

text \<open>
  The application of a recovery plan, the second half of \<open>recovery/scanner.py\<close>: the guarded transitions and
  the evidence built for each item, the reduction of active deliveries, and the calls \<open>apply\<close> makes on the
  transition repository, in their order. The rows of the reduction query and the record identifiers are arguments.
\<close>

section \<open>Transitions of a plan\<close>

definition recovery_transition_id :: "string \<Rightarrow> string \<Rightarrow> string" where
  "recovery_transition_id entity_id target = ''recovery.'' @ entity_id @ ''.'' @ target"

definition recovery_idempotency_key :: "string \<Rightarrow> string \<Rightarrow> string \<Rightarrow> string" where
  "recovery_idempotency_key entity_id prior target = ''recovery.'' @ entity_id @ ''.'' @ prior @ ''.'' @ target"

definition no_send_classification :: "AttemptRecoveryItem \<Rightarrow> AttemptClassification" where
  "no_send_classification i =
     (if durable_no_send_proof i = DurableNoSendProof.CONTROLLED_PRE_TRANSPORT
      then AttemptClassification.HARNESS_FAILURE else AttemptClassification.ENVIRONMENT_FAILURE)"

definition recovery_target :: "AttemptRecoveryItem \<Rightarrow> AttemptState result" where
  "recovery_target i =
     (if ai_target_state i = Some AttemptState.NOT_SENT then Inr AttemptState.NOT_SENT
      else if ai_target_state i = Some AttemptState.UNKNOWN_OUTCOME then Inr AttemptState.UNKNOWN_OUTCOME
      else case response_staging i of
          Some st \<Rightarrow> if ai_action i = AttemptRecoveryAction.REDUCE_DURABLE_RESPONSE \<and> ai_target_state i = Some (terminal_state st)
            then Inr (terminal_state st)
            else Inl (RecoveryIntegrityError ''attempt recovery item has no automatic terminal transition'')
        | None \<Rightarrow> Inl (RecoveryIntegrityError ''attempt recovery item has no automatic terminal transition''))"

definition attempt_transition :: "AttemptRecoveryItem \<Rightarrow> int \<Rightarrow> TransitionTimestamp \<Rightarrow> TransitionCommand result" where
  "attempt_transition i epoch timestamp =
     and_then (recovery_target i) (\<lambda>target.
     let (classification, trigger) =
           (if target = AttemptState.UNKNOWN_OUTCOME then (AttemptClassification.AMBIGUOUS, ''recovery_interrupted_send'')
            else case response_staging i of
                Some st \<Rightarrow> (outcome_classification (terminal_outcome st), ''recovery_response_reduction'')
              | None \<Rightarrow> (no_send_classification i, ''recovery_no_send_proof''))
     in and_then (CausalReference_post_init \<lparr>cause_run_id = ai_run_id i, cause_record_id = ai_attempt_id i\<rparr>) (\<lambda>cause.
        TransitionCommand_post_init
          \<lparr>cmd_run_id = ai_run_id i,
           cmd_transition_id = recovery_transition_id (ai_attempt_id i) (attempt_state_value target),
           cmd_entity_type = EntityType.ATTEMPT, cmd_entity_id = ai_attempt_id i,
           expected_state = Some (AttemptS (ai_prior_state i)), new_state = AttemptS target,
           trigger_category = trigger, cmd_timestamp = timestamp, cmd_owner_epoch = epoch,
           cmd_idempotency_key = recovery_idempotency_key (ai_attempt_id i) (attempt_state_value (ai_prior_state i))
             (attempt_state_value target),
           causal_reference = Some cause, cmd_logical_time_ns = None, delivery_satisfaction = None,
           attempt_outcome = Some (case response_staging i of
               Some st \<Rightarrow> terminal_outcome st
             | None \<Rightarrow> \<lparr>outcome_classification = classification, retry_schedule = None\<rparr>)\<rparr>))"

definition recovery_error :: "AttemptRecoveryItem \<Rightarrow> string \<Rightarrow> string \<Rightarrow> TransportError" where
  "recovery_error i category message = \<lparr>error_category = text_of category, message_redacted = text_of message,
     error_phase = Some (text_of (attempt_state_value (ai_prior_state i)))\<rparr>"

definition attempt_recovery_evidence :: "AttemptRecoveryItem \<Rightarrow> string \<Rightarrow> AttemptTransportEvidenceCommand result" where
  "attempt_recovery_evidence i record_id =
     and_then (if ai_target_state i = Some AttemptState.NOT_SENT
       then Inr (no_send_classification i, AttemptEvidenceState.CONNECTION_FAILED,
         recovery_error i
           (if durable_no_send_proof i = DurableNoSendProof.CONTROLLED_PRE_TRANSPORT
            then ''recovery_controlled_pre_transport'' else ''recovery_no_connection'')
           ''Recovery proved that no application request bytes left the harness.'')
       else if ai_target_state i = Some AttemptState.UNKNOWN_OUTCOME
       then Inr (AttemptClassification.AMBIGUOUS, AttemptEvidenceState.UNKNOWN_OUTCOME,
         recovery_error i ''recovery_interrupted_send''
           ''Recovery found a possible request send without a durable response.'')
       else Inl (RecoveryIntegrityError ''attempt recovery item has no automatic terminal evidence'')) (\<lambda>(classification, state, err).
     AttemptTransportEvidenceCommand_post_init
       \<lparr>ev_record_id = record_id, ev_run_id = ai_run_id i, ev_scenario_id = ai_scenario_id i,
        ev_event_id = ai_event_id i, ev_delivery_id = ai_delivery_id i, ev_attempt_id = ai_attempt_id i,
        ev_state = state, ev_classification = classification, ev_request = None, ev_response = None,
        ev_error = Some err, response_headers_elapsed_ns = None\<rparr>)"

definition observation_transition ::
    "ObservationRecoveryItem \<Rightarrow> int \<Rightarrow> TransitionTimestamp \<Rightarrow> TransitionCommand result" where
  "observation_transition i epoch timestamp =
     and_then (raise_unless (oi_target_state i = Some ObservationState.ERROR)
       (RecoveryIntegrityError ''observation recovery item has no automatic error transition'')) (\<lambda>_.
     and_then (CausalReference_post_init \<lparr>cause_run_id = oi_run_id i, cause_record_id = oi_observation_id i\<rparr>) (\<lambda>cause.
     TransitionCommand_post_init
       \<lparr>cmd_run_id = oi_run_id i,
        cmd_transition_id = recovery_transition_id (oi_observation_id i) (observation_state_value ObservationState.ERROR),
        cmd_entity_type = EntityType.OBSERVATION, cmd_entity_id = oi_observation_id i,
        expected_state = Some (ObservationS (oi_prior_state i)), new_state = ObservationS ObservationState.ERROR,
        trigger_category = ''recovery_interrupted_observer'', cmd_timestamp = timestamp, cmd_owner_epoch = epoch,
        cmd_idempotency_key = recovery_idempotency_key (oi_observation_id i)
          (observation_state_value (oi_prior_state i)) (observation_state_value ObservationState.ERROR),
        causal_reference = Some cause, cmd_logical_time_ns = None, delivery_satisfaction = None,
        attempt_outcome = None\<rparr>))"

record DeliveryReductionRow =
  dr_run_id :: string
  dr_delivery_id :: string
  dr_attempt_id :: string
  dr_attempt_state :: AttemptState

fun reduced_delivery :: "AttemptState \<Rightarrow> DeliveryState option" where
  "reduced_delivery AttemptState.SUCCEEDED = Some DeliveryState.SATISFIED"
| "reduced_delivery AttemptState.CANCELLED = Some DeliveryState.CANCELLED"
| "reduced_delivery AttemptState.NOT_SENT = Some DeliveryState.EXHAUSTED"
| "reduced_delivery AttemptState.REJECTED = Some DeliveryState.EXHAUSTED"
| "reduced_delivery AttemptState.TRANSPORT_FAILED = Some DeliveryState.EXHAUSTED"
| "reduced_delivery _ = None"

definition delivery_reduction_transition ::
    "DeliveryReductionRow \<Rightarrow> int \<Rightarrow> TransitionTimestamp \<Rightarrow> TransitionCommand result" where
  "delivery_reduction_transition r epoch timestamp = (case reduced_delivery (dr_attempt_state r) of
       None \<Rightarrow> Inl (RecoveryIntegrityError ''delivery recovery cannot reduce from a nonterminal attempt'')
     | Some target \<Rightarrow>
         and_then (CausalReference_post_init \<lparr>cause_run_id = dr_run_id r, cause_record_id = dr_attempt_id r\<rparr>) (\<lambda>cause.
         TransitionCommand_post_init
           \<lparr>cmd_run_id = dr_run_id r,
            cmd_transition_id = recovery_transition_id (dr_delivery_id r) (delivery_state_value target),
            cmd_entity_type = EntityType.DELIVERY, cmd_entity_id = dr_delivery_id r,
            expected_state = Some (DeliveryS DeliveryState.ACTIVE), new_state = DeliveryS target,
            trigger_category = ''attempt_outcome'', cmd_timestamp = timestamp, cmd_owner_epoch = epoch,
            cmd_idempotency_key = recovery_idempotency_key (dr_delivery_id r)
              (delivery_state_value DeliveryState.ACTIVE) (delivery_state_value target),
            causal_reference = Some cause, cmd_logical_time_ns = None,
            delivery_satisfaction = (if target = DeliveryState.SATISFIED
              then Some \<lparr>satisfaction_kind = DeliverySatisfactionKind.ATTEMPT, satisfaction_cause = cause\<rparr> else None),
            attempt_outcome = None\<rparr>))"

section \<open>Application of a plan\<close>

text \<open>The calls on the transition repository, in the order they are made.\<close>

datatype RepositoryCall =
    RebindAttempt string string AttemptState int
  | ApplyAttempt TransitionCommand AttemptTransportEvidenceCommand
  | ApplyTransition TransitionCommand

definition rebind_calls :: "RecoveryPlan \<Rightarrow> RepositoryCall list" where
  "rebind_calls p = List.map_filter (\<lambda>i.
     if ai_action i = AttemptRecoveryAction.RESUME_SCHEDULED
     then Some (RebindAttempt (ai_run_id i) (ai_attempt_id i) AttemptState.SCHEDULED (plan_owner_epoch p))
     else if ai_action i = AttemptRecoveryAction.RECLAIM_EXPIRED_CLAIM
     then Some (RebindAttempt (ai_run_id i) (ai_attempt_id i) AttemptState.CLAIMED (plan_owner_epoch p))
     else None) (plan_attempts p)"

text \<open>The record identifier of an attempt is the stored one or a fresh one.\<close>

definition attempt_call ::
    "(string \<Rightarrow> string) \<Rightarrow> int \<Rightarrow> TransitionTimestamp \<Rightarrow> AttemptRecoveryItem \<Rightarrow> RepositoryCall result" where
  "attempt_call record_id epoch timestamp i =
     and_then (case response_staging i of
         Some st \<Rightarrow> Inr (transport_evidence st)
       | None \<Rightarrow> attempt_recovery_evidence i (record_id (ai_attempt_id i))) (\<lambda>evidence.
     and_then (attempt_transition i epoch timestamp) (\<lambda>command.
       Inr (ApplyAttempt command evidence)))"

definition observation_call :: "int \<Rightarrow> TransitionTimestamp \<Rightarrow> ObservationRecoveryItem \<Rightarrow> RepositoryCall result" where
  "observation_call epoch timestamp i =
     and_then (observation_transition i epoch timestamp) (\<lambda>command. Inr (ApplyTransition command))"

definition reduction_call :: "int \<Rightarrow> TransitionTimestamp \<Rightarrow> DeliveryReductionRow \<Rightarrow> RepositoryCall result" where
  "reduction_call epoch timestamp r =
     and_then (delivery_reduction_transition r epoch timestamp) (\<lambda>command. Inr (ApplyTransition command))"

text \<open>The calls a plan makes when the repository accepts each of them; \<open>reductions\<close> are the rows of the
  reduction query, which runs after the other transitions are committed.\<close>

definition apply_plan :: "RecoveryScanContext \<Rightarrow> (string \<Rightarrow> string) \<Rightarrow> DeliveryReductionRow list \<Rightarrow> RecoveryPlan \<Rightarrow>
    TransitionTimestamp \<Rightarrow> RepositoryCall list result" where
  "apply_plan ctx record_id reductions p timestamp =
     and_then (raise_unless (is_live timestamp)
       (ValueError ''fresh-process recovery transitions require monotonic evidence'')) (\<lambda>_.
     and_then (raise_unless (\<not> (plan_run_id p \<noteq> context_run_id ctx \<or> plan_owner_epoch p \<noteq> context_owner_epoch ctx))
       (RecoveryOwnerEpochError ''recovery plan belongs to a different owner context'')) (\<lambda>_.
     and_then (for_each (attempt_call record_id (plan_owner_epoch p) timestamp)
       (filter attempt_requires_transition (plan_attempts p))) (\<lambda>attempt_calls.
     and_then (for_each (observation_call (plan_owner_epoch p) timestamp)
       (filter observation_requires_transition (plan_observations p))) (\<lambda>observation_calls.
     and_then (raise_unless (length reductions \<le> MAX_RECOVERY_ITEMS)
       (RecoveryResourceLimitError ''delivery recovery inventory exceeds the bounded item limit'')) (\<lambda>_.
     and_then (for_each (reduction_call (plan_owner_epoch p) timestamp) reductions) (\<lambda>delivery_calls.
       Inr (rebind_calls p @ attempt_calls @ observation_calls @ delivery_calls)))))))"

section \<open>The commands are accepted\<close>

text \<open>A call is legal when its command and its evidence pass their own validation, the command follows an edge of the
  lifecycle from the state it expects, and the evidence is about the attempt and agrees with the outcome.\<close>

definition command_legal :: "TransitionCommand \<Rightarrow> bool" where
  "command_legal c \<longleftrightarrow> TransitionCommand_post_init c = Inr c \<and>
     (\<exists>s. expected_state c = Some s \<and> transition_allowed (cmd_entity_type c) s (new_state c))"

fun call_legal :: "RepositoryCall \<Rightarrow> bool" where
  "call_legal (RebindAttempt run_id attempt_id state epoch) \<longleftrightarrow> state \<in> {AttemptState.SCHEDULED, AttemptState.CLAIMED}"
| "call_legal (ApplyAttempt c ev) \<longleftrightarrow> command_legal c \<and> cmd_entity_type c = EntityType.ATTEMPT \<and>
     AttemptTransportEvidenceCommand_post_init ev = Inr ev \<and> ev_attempt_id ev = cmd_entity_id c \<and>
     (\<exists>outcome. attempt_outcome c = Some outcome \<and> outcome_classification outcome = ev_classification ev)"
| "call_legal (ApplyTransition c) \<longleftrightarrow> command_legal c"

lemma recovery_ids_token:
  assumes "list_all token_char s" "length s \<le> 47"
  shows "bounded_token 96 (recovery_transition_id s (state_value t))"
    "bounded_token 256 (recovery_idempotency_key s (state_value u) (state_value t))"
proof -
  have "list_all token_char (''recovery.'' @ ''.'')" by code_simp
  then show "bounded_token 96 (recovery_transition_id s (state_value t))"
    "bounded_token 256 (recovery_idempotency_key s (state_value u) (state_value t))"
    using assms state_value_text[of t] state_value_text[of u]
    by (simp_all add: bounded_token_def recovery_transition_id_def recovery_idempotency_key_def)
qed

definition timestamp_ok :: "TransitionTimestamp \<Rightarrow> bool" where
  "timestamp_ok t \<longleftrightarrow> (\<exists>n. monotonic_elapsed t = Some n \<and> n \<le> MAX_SAFE_INTEGER)"

text \<open>One lemma for the three kinds of recovery transition: an entity with a valid identifier, a trigger that is an
  identifier, and states of the entity's kind.\<close>

lemma recovery_command_accepted:
  assumes "returns (validate_run_id run_id)" "validate_entity_id ty entity run_id = Inr ()"
    and "list_all token_char entity" "length entity \<le> 47" "lower_identifier 64 trigger"
    and "0 \<le> epoch" "epoch \<le> MAX_OWNER_EPOCH" "timestamp_ok timestamp" "kind_of s = ty" "kind_of t = ty"
  shows "TransitionCommand_post_init
      \<lparr>cmd_run_id = run_id, cmd_transition_id = recovery_transition_id entity (state_value t),
       cmd_entity_type = ty, cmd_entity_id = entity, expected_state = Some s, new_state = t,
       trigger_category = trigger, cmd_timestamp = timestamp, cmd_owner_epoch = epoch,
       cmd_idempotency_key = recovery_idempotency_key entity (state_value s) (state_value t),
       causal_reference = cause, cmd_logical_time_ns = None, delivery_satisfaction = satisfaction,
       attempt_outcome = outcome\<rparr> = Inr
      \<lparr>cmd_run_id = run_id, cmd_transition_id = recovery_transition_id entity (state_value t),
       cmd_entity_type = ty, cmd_entity_id = entity, expected_state = Some s, new_state = t,
       trigger_category = trigger, cmd_timestamp = timestamp, cmd_owner_epoch = epoch,
       cmd_idempotency_key = recovery_idempotency_key entity (state_value s) (state_value t),
       causal_reference = cause, cmd_logical_time_ns = None, delivery_satisfaction = satisfaction,
       attempt_outcome = outcome\<rparr>"
  using assms recovery_ids_token[OF assms(3,4), where t = t] recovery_ids_token(2)[OF assms(3,4), where t = t and u = s]
  by (intro command_accepted) (auto simp: timestamp_ok_def)

lemma cause_accepted:
  assumes "returns (validate_run_id run_id)" "list_all token_char s" "27 \<le> length s" "length s \<le> 47"
  shows "CausalReference_post_init \<lparr>cause_run_id = run_id, cause_record_id = s\<rparr> =
    Inr \<lparr>cause_run_id = run_id, cause_record_id = s\<rparr>"
  using assms by (auto simp: CausalReference_post_init_def transition_token_def bounded_token_def returns_iff)

lemma recovery_triggers:
  "lower_identifier 64 ''recovery_interrupted_send''" "lower_identifier 64 ''recovery_response_reduction''"
  "lower_identifier 64 ''recovery_no_send_proof''" "lower_identifier 64 ''recovery_interrupted_observer''"
  "lower_identifier 64 ''attempt_outcome''"
  by code_simp+

lemma recovery_error_valid:
  assumes "category \<in> {''recovery_controlled_pre_transport'', ''recovery_no_connection'', ''recovery_interrupted_send''}"
    and "message \<in> {''Recovery proved that no application request bytes left the harness.'',
      ''Recovery found a possible request send without a durable response.''}"
  shows "validate_transport_error (recovery_error i category message) = Inr ()"
proof -
  have "list_all (\<lambda>s. list_all (\<lambda>c. 32 \<le> (of_char c :: nat) \<and> (of_char c :: nat) < 127) s \<and> 1 \<le> length s \<and> length s \<le> 128)
      [''recovery_controlled_pre_transport'', ''recovery_no_connection'', ''recovery_interrupted_send'',
       ''Recovery proved that no application request bytes left the harness.'',
       ''Recovery found a possible request send without a durable response.'']"
    by code_simp
  then have "control_free_text (text_of category) name 128 = Inr ()"
    "control_free_text (text_of message) name 4096 = Inr ()" for name
    using assms by (auto intro!: control_free_ascii)
  moreover have "control_free_text (text_of (attempt_state_value (ai_prior_state i))) name 64 = Inr ()" for name
    using state_value_text[of "AttemptS (ai_prior_state i)"]
    by (auto intro!: control_free_ascii simp: list_all_iff token_printable)
  ultimately show ?thesis
    by (simp add: validate_transport_error_def recovery_error_def when_some_def)
qed

text \<open>An item the scanner built: its own validation accepts it, and its staged response, if there is one, is a
  validated command for this attempt.\<close>

definition recovery_item_ok :: "AttemptRecoveryItem \<Rightarrow> bool" where
  "recovery_item_ok i \<longleftrightarrow> attempt_coordinates_ok i \<and> validate_attempt_action i = Inr () \<and>
     (\<forall>st. response_staging i = Some st \<longrightarrow> staged_for (ai_attempt_id i) st)"

lemma transition_returns:
  assumes "attempt_coordinates_ok i" "recovery_target i = Inr target"
    and "0 \<le> epoch" "epoch \<le> MAX_OWNER_EPOCH" "timestamp_ok timestamp"
  obtains c where "attempt_transition i epoch timestamp = Inr c" "TransitionCommand_post_init c = Inr c"
    "cmd_entity_type c = EntityType.ATTEMPT" "cmd_entity_id c = ai_attempt_id i"
    "expected_state c = Some (AttemptS (ai_prior_state i))" "new_state c = AttemptS target"
    "attempt_outcome c = Some (case response_staging i of Some st \<Rightarrow> terminal_outcome st
       | None \<Rightarrow> \<lparr>outcome_classification = (if target = AttemptState.UNKNOWN_OUTCOME then AttemptClassification.AMBIGUOUS
           else no_send_classification i), retry_schedule = None\<rparr>)"
proof -
  have ids: "returns (validate_run_id (ai_run_id i))" "returns (validate_fresh_id (ai_attempt_id i) (Some FreshIdKind.ATTEMPT))"
    using assms(1) by (simp_all add: attempt_coordinates_ok_def)
  then have "validate_entity_id EntityType.ATTEMPT (ai_attempt_id i) (ai_run_id i) = Inr ()"
    by (auto simp: validate_entity_id_def returns_iff)
  note accepted = recovery_command_accepted[OF ids(1) this fresh_id_text(1,3)[OF ids(2)] _ assms(3-5),
      where s = "AttemptS (ai_prior_state i)" and t = "AttemptS target", unfolded state_value.simps kind_of.simps, OF _ refl refl]
  note cause = cause_accepted[OF ids(1) fresh_id_text[OF ids(2)]]
  obtain classification trigger where
    chosen: "(if target = AttemptState.UNKNOWN_OUTCOME then (AttemptClassification.AMBIGUOUS, ''recovery_interrupted_send'')
            else case response_staging i of
                Some st \<Rightarrow> (outcome_classification (terminal_outcome st), ''recovery_response_reduction'')
              | None \<Rightarrow> (no_send_classification i, ''recovery_no_send_proof'')) = (classification, trigger)"
    by (metis surj_pair)
  have trigger: "lower_identifier 64 trigger"
    using chosen recovery_triggers by (auto split: if_splits option.splits)
  have outcome: "response_staging i = None \<Longrightarrow> classification =
      (if target = AttemptState.UNKNOWN_OUTCOME then AttemptClassification.AMBIGUOUS else no_send_classification i)"
    using chosen by (auto split: if_splits)
  have "attempt_transition i epoch timestamp = Inr
      \<lparr>cmd_run_id = ai_run_id i, cmd_transition_id = recovery_transition_id (ai_attempt_id i) (attempt_state_value target),
       cmd_entity_type = EntityType.ATTEMPT, cmd_entity_id = ai_attempt_id i,
       expected_state = Some (AttemptS (ai_prior_state i)), new_state = AttemptS target,
       trigger_category = trigger, cmd_timestamp = timestamp, cmd_owner_epoch = epoch,
       cmd_idempotency_key = recovery_idempotency_key (ai_attempt_id i) (attempt_state_value (ai_prior_state i))
         (attempt_state_value target),
       causal_reference = Some \<lparr>cause_run_id = ai_run_id i, cause_record_id = ai_attempt_id i\<rparr>,
       cmd_logical_time_ns = None, delivery_satisfaction = None,
       attempt_outcome = Some (case response_staging i of
           Some st \<Rightarrow> terminal_outcome st
         | None \<Rightarrow> \<lparr>outcome_classification = classification, retry_schedule = None\<rparr>)\<rparr>"
    unfolding attempt_transition_def assms(2) and_then_Inr Let_def chosen prod.case cause accepted[OF trigger] ..
  then show thesis
    by (rule that) (simp_all add: accepted[OF trigger] outcome split: option.splits)
qed

lemma evidence_returns_for:
  assumes "attempt_coordinates_ok i" "returns (validate_fresh_id record_id (Some FreshIdKind.RECORD))"
    and "ai_target_state i = Some target" "target \<in> {AttemptState.NOT_SENT, AttemptState.UNKNOWN_OUTCOME}"
  obtains ev where "attempt_recovery_evidence i record_id = Inr ev"
    "AttemptTransportEvidenceCommand_post_init ev = Inr ev" "ev_attempt_id ev = ai_attempt_id i"
    "ev_classification ev = (if target = AttemptState.UNKNOWN_OUTCOME then AttemptClassification.AMBIGUOUS
       else no_send_classification i)"
proof -
  define valid where "valid ev \<longleftrightarrow> AttemptTransportEvidenceCommand_post_init ev = Inr ev" for ev
  have "valid \<lparr>ev_record_id = record_id, ev_run_id = ai_run_id i, ev_scenario_id = ai_scenario_id i,
        ev_event_id = ai_event_id i, ev_delivery_id = ai_delivery_id i, ev_attempt_id = ai_attempt_id i,
        ev_state = state, ev_classification = classification, ev_request = None, ev_response = None,
        ev_error = Some err, response_headers_elapsed_ns = None\<rparr>"
    if "validate_transport_error err = Inr ()"
      "(state, classification) \<in> {(AttemptEvidenceState.CONNECTION_FAILED, no_send_classification i),
         (AttemptEvidenceState.UNKNOWN_OUTCOME, AttemptClassification.AMBIGUOUS)}" for state classification err
    using assms(1,2) that unfolding attempt_coordinates_ok_def valid_def AttemptTransportEvidenceCommand_post_init_def
    by (auto simp: returns_iff when_some_def validate_transport_evidence_shape_def failure_states_def no_send_classification_def)
  note accepted = this[unfolded valid_def]
  show thesis
    using assms(3,4)
    by (cases "target = AttemptState.UNKNOWN_OUTCOME")
      (rule that, simp add: attempt_recovery_evidence_def accepted recovery_error_valid, simp_all add: accepted recovery_error_valid)+
qed

lemma target_cases:
  assumes "recovery_item_ok i" "ai_target_state i = Some target"
  shows "recovery_target i = Inr target"
    "transition_allowed EntityType.ATTEMPT (AttemptS (ai_prior_state i)) (AttemptS target)"
    "response_staging i = None \<Longrightarrow> target \<in> {AttemptState.NOT_SENT, AttemptState.UNKNOWN_OUTCOME}"
proof -
  have action: "validate_attempt_action i = Inr ()" using assms(1) by (simp add: recovery_item_ok_def)
  have "recovery_target i = Inr target \<and>
    transition_allowed EntityType.ATTEMPT (AttemptS (ai_prior_state i)) (AttemptS target) \<and>
    (response_staging i = None \<longrightarrow> target \<in> {AttemptState.NOT_SENT, AttemptState.UNKNOWN_OUTCOME})"
  proof (cases "response_staging i")
    case None
    with action assms(2) show ?thesis
      by (cases "ai_action i") (auto simp: validate_attempt_action_eq_Inr recovery_target_def attempt_edges)
  next
    case (Some st)
    then have st: "ai_action i = AttemptRecoveryAction.REDUCE_DURABLE_RESPONSE" "target = terminal_state st"
      "ai_prior_state i = AttemptState.RESPONSE_OBSERVED"
      using action assms(2) by (auto simp: validate_attempt_action_eq_Inr split: if_splits)
    have "staged_for (ai_attempt_id i) st" using assms(1) Some by (simp add: recovery_item_ok_def)
    then show ?thesis
      using staged_terminal[of st] Some assms(2) st by (auto simp: recovery_target_def staged_for_def)
  qed
  then show "recovery_target i = Inr target"
    "transition_allowed EntityType.ATTEMPT (AttemptS (ai_prior_state i)) (AttemptS target)"
    "response_staging i = None \<Longrightarrow> target \<in> {AttemptState.NOT_SENT, AttemptState.UNKNOWN_OUTCOME}"
    by blast+
qed

lemma attempt_call_legal:
  assumes "recovery_item_ok i" "attempt_requires_transition i"
    and "returns (validate_fresh_id (record_id (ai_attempt_id i)) (Some FreshIdKind.RECORD))"
    and "0 \<le> epoch" "epoch \<le> MAX_OWNER_EPOCH" "timestamp_ok timestamp"
  shows "\<exists>call. attempt_call record_id epoch timestamp i = Inr call \<and> call_legal call"
proof -
  obtain target where target: "ai_target_state i = Some target"
    using assms(2) by (auto simp: attempt_requires_transition_def)
  note facts = target_cases[OF assms(1) target]
  have coords: "attempt_coordinates_ok i" using assms(1) by (simp add: recovery_item_ok_def)
  obtain c where c: "attempt_transition i epoch timestamp = Inr c" "TransitionCommand_post_init c = Inr c"
    "cmd_entity_type c = EntityType.ATTEMPT" "cmd_entity_id c = ai_attempt_id i"
    "expected_state c = Some (AttemptS (ai_prior_state i))" "new_state c = AttemptS target"
    "attempt_outcome c = Some (case response_staging i of Some st \<Rightarrow> terminal_outcome st
       | None \<Rightarrow> \<lparr>outcome_classification = (if target = AttemptState.UNKNOWN_OUTCOME then AttemptClassification.AMBIGUOUS
           else no_send_classification i), retry_schedule = None\<rparr>)"
    using transition_returns[OF coords facts(1) assms(4-6)] .
  have legal: "command_legal c" using c facts(2) by (auto simp: command_legal_def)
  show ?thesis
  proof (cases "response_staging i")
    case None
    obtain ev where "attempt_recovery_evidence i (record_id (ai_attempt_id i)) = Inr ev"
      "AttemptTransportEvidenceCommand_post_init ev = Inr ev" "ev_attempt_id ev = ai_attempt_id i"
      "ev_classification ev = (if target = AttemptState.UNKNOWN_OUTCOME then AttemptClassification.AMBIGUOUS
         else no_send_classification i)"
      using evidence_returns_for[OF coords assms(3) target facts(3)[OF None]] .
    then show ?thesis using None c legal by (simp add: attempt_call_def)
  next
    case (Some st)
    then have "staged_for (ai_attempt_id i) st" using assms(1) by (simp add: recovery_item_ok_def)
    then show ?thesis
      using Some c legal staged_terminal(3)[of st] by (simp add: attempt_call_def staged_for_def)
  qed
qed

lemma observation_call_legal:
  assumes "ObservationRecoveryItem_post_init i = Inr i" "observation_requires_transition i"
    and "0 \<le> epoch" "epoch \<le> MAX_OWNER_EPOCH" "timestamp_ok timestamp"
  shows "\<exists>call. observation_call epoch timestamp i = Inr call \<and> call_legal call"
proof -
  have ids: "returns (validate_run_id (oi_run_id i))"
    "returns (validate_planned_id (oi_observation_id i) (Some PlannedIdKind.OBSERVATION))"
    and states: "oi_target_state i = Some ObservationState.ERROR" "oi_prior_state i = ObservationState.RUNNING"
    using assms(1,2) by (auto simp: observation_item_eq_Inr observation_requires_transition_def split: if_splits)
  have entity: "validate_entity_id EntityType.OBSERVATION (oi_observation_id i) (oi_run_id i) = Inr ()"
    using ids(2) by (auto simp: validate_entity_id_def returns_iff)
  note accepted = recovery_command_accepted[OF ids(1) entity planned_id_text(1,3)[OF ids(2)] recovery_triggers(4) assms(3-5),
      where s = "ObservationS (oi_prior_state i)" and t = "ObservationS ObservationState.ERROR",
      unfolded state_value.simps kind_of.simps, OF refl refl]
  have edge: "transition_allowed EntityType.OBSERVATION (ObservationS ObservationState.RUNNING)
      (ObservationS ObservationState.ERROR)"
    by code_simp
  show ?thesis
    unfolding observation_call_def observation_transition_def cause_accepted[OF ids(1) planned_id_text[OF ids(2)]]
      and_then_Inr accepted
    using states edge accepted by (simp add: command_legal_def)
qed

definition reduction_row_ok :: "DeliveryReductionRow \<Rightarrow> bool" where
  "reduction_row_ok r \<longleftrightarrow> returns (validate_run_id (dr_run_id r)) \<and>
     returns (validate_planned_id (dr_delivery_id r) (Some PlannedIdKind.DELIVERY)) \<and>
     returns (validate_fresh_id (dr_attempt_id r) (Some FreshIdKind.ATTEMPT)) \<and>
     dr_attempt_state r \<in> {AttemptState.NOT_SENT, AttemptState.SUCCEEDED, AttemptState.REJECTED,
       AttemptState.TRANSPORT_FAILED, AttemptState.CANCELLED}"

lemma reduction_call_legal:
  assumes "reduction_row_ok r" "0 \<le> epoch" "epoch \<le> MAX_OWNER_EPOCH" "timestamp_ok timestamp"
  shows "\<exists>call. reduction_call epoch timestamp r = Inr call \<and> call_legal call"
proof -
  have ids: "returns (validate_run_id (dr_run_id r))"
    "returns (validate_planned_id (dr_delivery_id r) (Some PlannedIdKind.DELIVERY))"
    "returns (validate_fresh_id (dr_attempt_id r) (Some FreshIdKind.ATTEMPT))"
    using assms(1) by (simp_all add: reduction_row_ok_def)
  have entity: "validate_entity_id EntityType.DELIVERY (dr_delivery_id r) (dr_run_id r) = Inr ()"
    using ids(2) by (auto simp: validate_entity_id_def returns_iff)
  obtain target where target: "reduced_delivery (dr_attempt_state r) = Some target"
    "target \<in> {DeliveryState.SATISFIED, DeliveryState.CANCELLED, DeliveryState.EXHAUSTED}"
    using assms(1) by (auto simp: reduction_row_ok_def)
  note accepted = recovery_command_accepted[OF ids(1) entity planned_id_text(1,3)[OF ids(2)] recovery_triggers(5) assms(2-4),
      where s = "DeliveryS DeliveryState.ACTIVE" and t = "DeliveryS target",
      unfolded state_value.simps(3) kind_of.simps, OF refl refl]
  have "list_all (\<lambda>t. transition_allowed EntityType.DELIVERY (DeliveryS DeliveryState.ACTIVE) (DeliveryS t))
      [DeliveryState.SATISFIED, DeliveryState.CANCELLED, DeliveryState.EXHAUSTED]"
    by code_simp
  then have edge: "transition_allowed EntityType.DELIVERY (DeliveryS DeliveryState.ACTIVE) (DeliveryS target)"
    using target(2) by auto
  show ?thesis
    unfolding reduction_call_def delivery_reduction_transition_def target(1) option.case
      cause_accepted[OF ids(1) fresh_id_text[OF ids(3)]] and_then_Inr accepted
    using edge accepted by (simp add: command_legal_def)
qed

lemma for_each_legal:
  assumes "\<And>x. x \<in> set xs \<Longrightarrow> \<exists>call. f x = Inr call \<and> P call"
  shows "\<exists>calls. for_each f xs = Inr calls \<and> list_all P calls \<and> length calls = length xs"
  using assms
proof (induction xs)
  case (Cons x xs)
  obtain call where "f x = Inr call" "P call" using Cons.prems[of x] by auto
  moreover obtain calls where "for_each f xs = Inr calls" "list_all P calls" "length calls = length xs"
    using Cons by auto
  ultimately show ?case by simp
qed simp

lemma scan_items_ok:
  assumes "scan read_iso ctx rows = Inr p" "staging_rows_built rows"
  shows "i \<in> set (plan_attempts p) \<Longrightarrow> recovery_item_ok i"
    "j \<in> set (plan_observations p) \<Longrightarrow> ObservationRecoveryItem_post_init j = Inr j"
proof -
  show "recovery_item_ok i" if member: "i \<in> set (plan_attempts p)"
  proof -
    obtain row staging where row: "attempt_item read_iso (context_run_id ctx) row staging = Inr i"
      and built: "\<forall>st. staging = Some st \<longrightarrow> staged_for (ar_attempt_id row) st"
      using scan_item_row[OF assms member] by blast
    obtain state where "attempt_coordinates_ok i" "i = classified_item (context_run_id ctx) row staging state"
      "staging \<noteq> None \<longleftrightarrow> state = AttemptState.RESPONSE_OBSERVED"
      using row by (auto simp: attempt_item_built)
    then show ?thesis using built by (simp add: recovery_item_ok_def classified_decision classified_fields)
  qed
  show "ObservationRecoveryItem_post_init j = Inr j" if member: "j \<in> set (plan_observations p)"
  proof -
    obtain pairs items observations where s: "scan_spec read_iso ctx rows pairs items observations p"
      using assms(1) by (auto simp: scan_eq_Inr)
    have "plan_observations p = sort_key observation_deterministic_key observations"
      using s unfolding scan_spec_def by (metis RecoveryPlan.select_convs(5))
    with member have "j \<in> set observations" by simp
    moreover have "for_each (observation_item (context_run_id ctx)) (rows_observations rows) = Inr observations"
      using s by (simp add: scan_spec_def)
    ultimately obtain row where "observation_item (context_run_id ctx) row = Inr j" using for_each_member by metis
    then obtain k where "ObservationRecoveryItem_post_init k = Inr j"
      by (auto simp: observation_item_def and_then_eq_Inr Let_def case_prod_beta)
    then show ?thesis using observation_item_eq_Inr[of k j] by metis
  qed
qed

lemma scan_plan_identity:
  assumes "scan read_iso ctx rows = Inr p"
  shows "plan_run_id p = context_run_id ctx" "plan_owner_epoch p = context_owner_epoch ctx" "recovery_plan_ok p"
proof -
  obtain pairs items observations where "scan_spec read_iso ctx rows pairs items observations p"
    using assms by (auto simp: scan_eq_Inr)
  then show "plan_run_id p = context_run_id ctx" "plan_owner_epoch p = context_owner_epoch ctx" "recovery_plan_ok p"
    unfolding scan_spec_def by (metis RecoveryPlan.select_convs)+
qed

lemma rebinds_legal: "list_all call_legal (rebind_calls p)"
  by (auto simp: rebind_calls_def list_all_iff set_map_filter split: if_splits)

text \<open>C30. A scanned plan can always be applied. For a plan the scanner built, with valid record identifiers, a live
  timestamp within the journal's boundary and reduction rows for finished attempts, no check of a command or of its
  evidence fails: \<open>apply\<close> makes one rebinding call per resumable attempt, one guarded transition per item
  that requires one and one per reduced delivery, each legal in the lifecycle of its entity, and the
  evidence of an attempt's transition carries the classification of its outcome.\<close>

theorem recovery_application_total:
  assumes "scan read_iso ctx rows = Inr p" "staging_rows_built rows"
    and "\<forall>a. returns (validate_fresh_id (record_id a) (Some FreshIdKind.RECORD))" "timestamp_ok timestamp"
    and "\<forall>r \<in> set reductions. reduction_row_ok r" "length reductions \<le> MAX_RECOVERY_ITEMS"
  shows "\<exists>calls. apply_plan ctx record_id reductions p timestamp = Inr calls \<and> list_all call_legal calls \<and>
    length calls = length (rebind_calls p) + automatic_transition_count p + length reductions"
proof -
  note identity = scan_plan_identity[OF assms(1)]
  have epoch: "0 \<le> plan_owner_epoch p" "plan_owner_epoch p \<le> MAX_OWNER_EPOCH"
    using identity(3) by (simp_all add: recovery_plan_ok_def)
  have "\<exists>call. attempt_call record_id (plan_owner_epoch p) timestamp i = Inr call \<and> call_legal call"
    if "i \<in> set (filter attempt_requires_transition (plan_attempts p))" for i
    using that scan_items_ok(1)[OF assms(1,2)] assms(3) by (intro attempt_call_legal epoch assms(4)) auto
  from for_each_legal[where f = "attempt_call record_id (plan_owner_epoch p) timestamp" and xs = "filter attempt_requires_transition (plan_attempts p)", OF this]
  obtain attempt_calls where a:
    "for_each (attempt_call record_id (plan_owner_epoch p) timestamp)
       (filter attempt_requires_transition (plan_attempts p)) = Inr attempt_calls"
    "list_all call_legal attempt_calls" "length attempt_calls = length (filter attempt_requires_transition (plan_attempts p))"
    by blast
  have "\<exists>call. observation_call (plan_owner_epoch p) timestamp i = Inr call \<and> call_legal call"
    if "i \<in> set (filter observation_requires_transition (plan_observations p))" for i
    using that scan_items_ok(2)[OF assms(1,2)] by (intro observation_call_legal epoch assms(4)) auto
  from for_each_legal[where f = "observation_call (plan_owner_epoch p) timestamp" and xs = "filter observation_requires_transition (plan_observations p)", OF this]
  obtain observation_calls where o:
    "for_each (observation_call (plan_owner_epoch p) timestamp)
       (filter observation_requires_transition (plan_observations p)) = Inr observation_calls"
    "list_all call_legal observation_calls"
    "length observation_calls = length (filter observation_requires_transition (plan_observations p))"
    by blast
  have "\<exists>call. reduction_call (plan_owner_epoch p) timestamp r = Inr call \<and> call_legal call" if "r \<in> set reductions" for r
    using that assms(5) by (intro reduction_call_legal epoch assms(4)) auto
  from for_each_legal[where f = "reduction_call (plan_owner_epoch p) timestamp" and xs = "reductions", OF this]
  obtain delivery_calls where d:
    "for_each (reduction_call (plan_owner_epoch p) timestamp) reductions = Inr delivery_calls"
    "list_all call_legal delivery_calls" "length delivery_calls = length reductions"
    by blast
  have "is_live timestamp" using assms(4) by (auto simp: is_live_def timestamp_ok_def)
  then have "apply_plan ctx record_id reductions p timestamp =
      Inr (rebind_calls p @ attempt_calls @ observation_calls @ delivery_calls)"
    using identity assms(6) a(1) o(1) d(1) by (simp add: apply_plan_def)
  then show ?thesis using a o d rebinds_legal[of p] by (simp add: automatic_transition_count_def)
qed

definition sample_timestamp :: TransitionTimestamp where
  "sample_timestamp = \<lparr>wall_time = \<lparr>instant = 0, utcoffset = Some 0\<rparr>, monotonic_elapsed = Some 5\<rparr>"

theorem recovery_application_total_witness:
  "\<exists>calls. apply_plan sample_context (\<lambda>_. ''record_'' @ zero_ulid)
      [\<lparr>dr_run_id = sample_run_id, dr_delivery_id = ''delivery_'' @ zero_ulid, dr_attempt_id = sample_attempt_id,
        dr_attempt_state = AttemptState.NOT_SENT\<rparr>] sample_plan sample_timestamp = Inr calls \<and>
    list_all call_legal calls \<and> length calls = 3"
proof -
  let ?r = "[\<lparr>dr_run_id = sample_run_id, dr_delivery_id = ''delivery_'' @ zero_ulid, dr_attempt_id = sample_attempt_id,
        dr_attempt_state = AttemptState.NOT_SENT\<rparr>]"
  have rows: "\<forall>r \<in> set ?r. reduction_row_ok r"
    using zero_ids sample_run_id_valid by (simp add: reduction_row_ok_def sample_attempt_id_def)
  have ids: "\<forall>a. returns (validate_fresh_id ((\<lambda>_. ''record_'' @ zero_ulid) a) (Some FreshIdKind.RECORD))"
    using zero_ids by simp
  have time: "timestamp_ok sample_timestamp" by (simp add: timestamp_ok_def sample_timestamp_def MAX_SAFE_INTEGER_def)
  have bound: "length ?r \<le> MAX_RECOVERY_ITEMS" by (simp add: MAX_RECOVERY_ITEMS_def)
  have "length (rebind_calls sample_plan) = 0" "automatic_transition_count sample_plan = 2"
    by (simp_all add: rebind_calls_def List.map_filter_def automatic_transition_count_def attempt_requires_transition_def
        observation_requires_transition_def sample_scan_defs)
  then have count: "length (rebind_calls sample_plan) + automatic_transition_count sample_plan + length ?r = 3" by simp
  show ?thesis
    using recovery_application_total[OF sample_scan sample_staging_built ids time rows bound] unfolding count .
qed

end
