(* ===== verification/Resume_Models.thy ===== *)
theory Resume_Models
  imports Recovery_Models Schedule_Queue Verdicts Signing_Base
begin

text \<open>
  The data of resume-policy planning, the first half of \<open>recovery/policy.py\<close>: the closed policies, verdicts and
  decisions, what the run bundle authorizes, what the invocation asks for, the persisted schedule, and the
  decision, redelivery and observation plans with the validation each runs when it is built. A validated
  object is the argument of its \<open>_post_init\<close> definition. Reasons may hold any Unicode text.
\<close>

section \<open>Vocabularies and checks\<close>

datatype AmbiguityPolicy = STOP | OBSERVE | REDELIVER | OPERATOR_DECISION

fun ambiguity_policy_value :: "AmbiguityPolicy \<Rightarrow> string" where
  "ambiguity_policy_value AmbiguityPolicy.STOP = ''stop''"
| "ambiguity_policy_value AmbiguityPolicy.OBSERVE = ''observe''"
| "ambiguity_policy_value AmbiguityPolicy.REDELIVER = ''redeliver''"
| "ambiguity_policy_value AmbiguityPolicy.OPERATOR_DECISION = ''operator_decision''"

datatype ResumeDisposition = CONTINUE | AWAIT_OBSERVATION | STOP_AMBIGUOUS | CANCELLED

datatype OperatorVerdict = PROCESSED | NOT_PROCESSED | STILL_UNKNOWN

datatype RecoveryDecisionKind =
    STOPPED_AMBIGUOUS | OBSERVATION_REQUESTED | REDELIVERY_CREATED | OPERATOR_PROCESSED |
    OPERATOR_NOT_PROCESSED | OPERATOR_STILL_UNKNOWN

definition MAX_POLICY_ITEMS :: int where "MAX_POLICY_ITEMS = MAX_SCHEDULE_ITEMS"
definition MAX_EVIDENCE_REFERENCES :: nat where "MAX_EVIDENCE_REFERENCES = 1000"
definition MAX_REASON_BYTES :: nat where "MAX_REASON_BYTES = 4096"
definition MAX_TIE_KEY_BYTES :: nat where "MAX_TIE_KEY_BYTES = 200"

definition policy_token :: "string \<Rightarrow> string \<Rightarrow> nat \<Rightarrow> unit result" where
  "policy_token v name maximum =
     raise_unless (bounded_token maximum v) (ValueError (name @ '' must be a bounded ASCII token''))"

definition policy_identifier :: "string \<Rightarrow> string \<Rightarrow> nat \<Rightarrow> unit result" where
  "policy_identifier v name maximum =
     raise_unless (lower_identifier maximum v) (ValueError (name @ '' must be a bounded lower identifier''))"

definition bounded_text :: "ustring \<Rightarrow> string \<Rightarrow> nat \<Rightarrow> unit result" where
  "bounded_text v name maximum =
     and_then (raise_unless (v \<noteq> []) (ValueError (name @ '' must be nonempty text''))) (\<lambda>_.
     and_then (raise_unless (\<not> list_ex (\<lambda>c. c < 32 \<or> c = 127) v) (ValueError (name @ '' must be control-free''))) (\<lambda>_.
     case utf8_encode v of
       Inl _ \<Rightarrow> Inl (ValueError (name @ '' must contain Unicode scalar values''))
     | Inr encoded \<Rightarrow> raise_unless (length encoded \<le> maximum) (ValueError (name @ '' exceeds its byte limit''))))"

definition unique_scope :: "(string \<times> string) list \<Rightarrow> string \<Rightarrow> unit result" where
  "unique_scope scopes name = raise_unless (\<not> length scopes \<noteq> length (remdups scopes))
     (ValueError (name @ '' scopes must be unique''))"

definition unique_values :: "'a list \<Rightarrow> string \<Rightarrow> unit result" where
  "unique_values items name = raise_unless (\<not> length items \<noteq> length (remdups items))
     (ValueError (name @ '' identities must be unique''))"

definition policy_limit :: "'a list \<Rightarrow> bool" where
  "policy_limit xs = (int (length xs) \<le> MAX_POLICY_ITEMS)"

section \<open>What the bundle authorizes\<close>

record RecoveryEvidenceReference =
  evidence_kind :: string
  evidence_id :: string

definition RecoveryEvidenceReference_post_init :: "RecoveryEvidenceReference \<Rightarrow> RecoveryEvidenceReference result" where
  "RecoveryEvidenceReference_post_init e =
     and_then (policy_identifier (evidence_kind e) ''evidence_kind'' 64) (\<lambda>_.
     and_then (policy_token (evidence_id e) ''evidence_id'' 96) (\<lambda>_. Inr e))"

record RedeliveryTemplate =
  tpl_scenario_id :: string
  tpl_event_id :: string
  tpl_delivery_id :: string
  tpl_attempt_plan_id :: string
  tpl_logical_due_ns :: int
  tpl_tie_key :: string

definition RedeliveryTemplate_post_init :: "RedeliveryTemplate \<Rightarrow> RedeliveryTemplate result" where
  "RedeliveryTemplate_post_init t =
     and_then (validate_planned_id (tpl_scenario_id t) (Some PlannedIdKind.SCENARIO)) (\<lambda>_.
     and_then (validate_planned_id (tpl_event_id t) (Some PlannedIdKind.EVENT)) (\<lambda>_.
     and_then (validate_planned_id (tpl_delivery_id t) (Some PlannedIdKind.DELIVERY)) (\<lambda>_.
     and_then (validate_planned_id (tpl_attempt_plan_id t) (Some PlannedIdKind.ATTEMPT_PLAN)) (\<lambda>_.
     and_then (validate_logical_nanoseconds (tpl_logical_due_ns t)) (\<lambda>_.
     and_then (policy_token (tpl_tie_key t) ''redelivery deterministic_tie_key'' MAX_TIE_KEY_BYTES) (\<lambda>_.
       Inr t))))))"

record ObservationReconciliationRule =
  rule_scenario_id :: string
  rule_delivery_id :: string
  rule_observation_id :: string
  rule_assertion_ids :: "string list"
  read_only :: bool
  idempotent :: bool

definition ObservationReconciliationRule_post_init ::
    "ObservationReconciliationRule \<Rightarrow> ObservationReconciliationRule result" where
  "ObservationReconciliationRule_post_init r =
     and_then (validate_planned_id (rule_scenario_id r) (Some PlannedIdKind.SCENARIO)) (\<lambda>_.
     and_then (validate_planned_id (rule_delivery_id r) (Some PlannedIdKind.DELIVERY)) (\<lambda>_.
     and_then (validate_planned_id (rule_observation_id r) (Some PlannedIdKind.OBSERVATION)) (\<lambda>_.
     and_then (raise_unless (rule_assertion_ids r \<noteq> [])
       (ValueError ''observation reconciliation requires a decisive assertion tuple'')) (\<lambda>_.
     and_then (raise_unless (\<not> length (rule_assertion_ids r) \<ge> MAX_EVIDENCE_REFERENCES)
       (ResumePolicyResourceLimitError ''observation assertions exceed the policy reference limit'')) (\<lambda>_.
     and_then (for_each (\<lambda>a. validate_planned_id a (Some PlannedIdKind.ASSERTION)) (rule_assertion_ids r)) (\<lambda>_.
     and_then (raise_unless (\<not> length (remdups (rule_assertion_ids r)) \<noteq> length (rule_assertion_ids r))
       (ValueError ''observation assertion identities must be unique'')) (\<lambda>_.
       Inr r)))))))"

definition eligible_for_resume :: "ObservationReconciliationRule \<Rightarrow> bool" where
  "eligible_for_resume r = (read_only r \<and> idempotent r)"

record BundleRecoveryPolicy =
  redelivery_templates :: "RedeliveryTemplate list"
  observation_rules :: "ObservationReconciliationRule list"

definition template_scope :: "RedeliveryTemplate \<Rightarrow> string \<times> string" where
  "template_scope t = (tpl_scenario_id t, tpl_delivery_id t)"

definition rule_scope :: "ObservationReconciliationRule \<Rightarrow> string \<times> string" where
  "rule_scope r = (rule_scenario_id r, rule_delivery_id r)"

definition BundleRecoveryPolicy_post_init :: "BundleRecoveryPolicy \<Rightarrow> BundleRecoveryPolicy result" where
  "BundleRecoveryPolicy_post_init b =
     and_then (raise_unless (\<not> (\<not> policy_limit (redelivery_templates b) \<or> \<not> policy_limit (observation_rules b)))
       (ResumePolicyResourceLimitError ''bundle recovery policy exceeds the policy item limit'')) (\<lambda>_.
     and_then (unique_scope (map template_scope (redelivery_templates b)) ''redelivery template'') (\<lambda>_.
     and_then (unique_scope (map rule_scope (observation_rules b)) ''observation rule'') (\<lambda>_.
       Inr b)))"

section \<open>What the invocation asks for\<close>

record OperatorDecisionDirective =
  directive_attempt_id :: string
  verdict :: OperatorVerdict
  directive_reason :: ustring
  directive_fingerprint :: string
  directive_input_digest :: string
  directive_evidence :: "RecoveryEvidenceReference list"
  signed_policy_verified :: bool

definition OperatorDecisionDirective_post_init ::
    "OperatorDecisionDirective \<Rightarrow> OperatorDecisionDirective result" where
  "OperatorDecisionDirective_post_init d =
     and_then (validate_fresh_id (directive_attempt_id d) (Some FreshIdKind.ATTEMPT)) (\<lambda>_.
     and_then (bounded_text (directive_reason d) ''operator reason'' MAX_REASON_BYTES) (\<lambda>_.
     and_then (validate_sha256_digest (directive_fingerprint d)) (\<lambda>_.
     and_then (validate_sha256_digest (directive_input_digest d)) (\<lambda>_.
     and_then (raise_unless (directive_evidence d \<noteq> [])
       (ValueError ''operator decisions require at least one evidence reference'')) (\<lambda>_.
     and_then (raise_unless (\<not> length (directive_evidence d) > MAX_EVIDENCE_REFERENCES)
       (ValueError ''operator evidence exceeds the policy reference limit'')) (\<lambda>_.
     and_then (raise_unless (\<not> length (remdups (directive_evidence d)) \<noteq> length (directive_evidence d))
       (ValueError ''operator evidence references must be unique'')) (\<lambda>_.
       Inr d)))))))"

record ResumeInvocationPolicy =
  on_ambiguous :: "AmbiguityPolicy option"
  noninteractive :: bool
  cancel_requested :: bool
  operator_decisions :: "OperatorDecisionDirective list"

definition ResumeInvocationPolicy_post_init :: "ResumeInvocationPolicy \<Rightarrow> ResumeInvocationPolicy result" where
  "ResumeInvocationPolicy_post_init v =
     and_then (raise_unless (policy_limit (operator_decisions v))
       (ResumePolicyResourceLimitError ''operator decisions exceed the policy item limit'')) (\<lambda>_.
     and_then (raise_unless (\<not> (operator_decisions v \<noteq> [] \<and> on_ambiguous v \<noteq> Some AmbiguityPolicy.OPERATOR_DECISION))
       (ValueError ''operator decisions require the operator_decision policy'')) (\<lambda>_.
     and_then (unique_values (map directive_attempt_id (operator_decisions v)) ''operator attempt'') (\<lambda>_.
       Inr v)))"

record PersistedScheduleSnapshot =
  snapshot_entries :: "ScheduleItem list"
  consumed_entry_ids :: "string set"

definition PersistedScheduleSnapshot_post_init ::
    "PersistedScheduleSnapshot \<Rightarrow> PersistedScheduleSnapshot result" where
  "PersistedScheduleSnapshot_post_init s =
     and_then (raise_unless (\<not> (\<not> policy_limit (snapshot_entries s) \<or> int (card (consumed_entry_ids s)) > MAX_POLICY_ITEMS))
       (ResumePolicyResourceLimitError ''persisted schedule snapshot exceeds the policy item limit'')) (\<lambda>_.
     let entry_ids = map ScheduleItem.schedule_entry_id (snapshot_entries s) in
     and_then (unique_values entry_ids ''schedule entry'') (\<lambda>_.
     and_then (raise_unless (\<forall>e \<in> consumed_entry_ids s. bounded_token 96 e)
       (ValueError ''consumed schedule entry ID must be a bounded ASCII token'')) (\<lambda>_.
     and_then (raise_unless (consumed_entry_ids s \<subseteq> set entry_ids)
       (ResumePolicyIntegrityError ''consumed schedule identity is absent from its persisted snapshot'')) (\<lambda>_.
       Inr s))))"

record ResumePolicyContext =
  scan_context :: RecoveryScanContext
  recovery_plan :: RecoveryPlan

definition ResumePolicyContext_post_init :: "ResumePolicyContext \<Rightarrow> ResumePolicyContext result" where
  "ResumePolicyContext_post_init c =
     and_then (raise_unless (\<not> (context_run_id (scan_context c) \<noteq> plan_run_id (recovery_plan c) \<or>
         context_owner_epoch (scan_context c) \<noteq> plan_owner_epoch (recovery_plan c)))
       (ResumePolicyIntegrityError ''recovery plan and verified owner context disagree'')) (\<lambda>_. Inr c)"

section \<open>What planning produces\<close>

record ObservationReconciliationPlan =
  op_attempt_id :: string
  op_scenario_id :: string
  op_delivery_id :: string
  op_observation_id :: string
  op_assertion_ids :: "string list"

definition ObservationReconciliationPlan_post_init ::
    "ObservationReconciliationPlan \<Rightarrow> ObservationReconciliationPlan result" where
  "ObservationReconciliationPlan_post_init p =
     and_then (validate_fresh_id (op_attempt_id p) (Some FreshIdKind.ATTEMPT)) (\<lambda>_.
     and_then (validate_planned_id (op_scenario_id p) (Some PlannedIdKind.SCENARIO)) (\<lambda>_.
     and_then (validate_planned_id (op_delivery_id p) (Some PlannedIdKind.DELIVERY)) (\<lambda>_.
     and_then (validate_planned_id (op_observation_id p) (Some PlannedIdKind.OBSERVATION)) (\<lambda>_.
     and_then (raise_unless (op_assertion_ids p \<noteq> [])
       (ValueError ''observation plan requires decisive assertion identities'')) (\<lambda>_.
       Inr p)))))"

record RedeliveryAttemptPlan =
  rd_run_id :: string
  rd_scenario_id :: string
  rd_event_id :: string
  rd_delivery_id :: string
  rd_predecessor_attempt_id :: string
  rd_attempt_id :: string
  rd_attempt_plan_id :: string
  rd_attempt_ordinal :: int
  rd_schedule_item :: ScheduleItem
  rd_schedule_idempotency_key :: string
  rd_condition_json :: bytes

definition RedeliveryAttemptPlan_post_init :: "RedeliveryAttemptPlan \<Rightarrow> RedeliveryAttemptPlan result" where
  "RedeliveryAttemptPlan_post_init r =
     and_then (validate_run_id (rd_run_id r)) (\<lambda>_.
     and_then (validate_planned_id (rd_scenario_id r) (Some PlannedIdKind.SCENARIO)) (\<lambda>_.
     and_then (validate_planned_id (rd_event_id r) (Some PlannedIdKind.EVENT)) (\<lambda>_.
     and_then (validate_planned_id (rd_delivery_id r) (Some PlannedIdKind.DELIVERY)) (\<lambda>_.
     and_then (validate_fresh_id (rd_predecessor_attempt_id r) (Some FreshIdKind.ATTEMPT)) (\<lambda>_.
     and_then (validate_fresh_id (rd_attempt_id r) (Some FreshIdKind.ATTEMPT)) (\<lambda>_.
     and_then (raise_unless (rd_attempt_id r \<noteq> rd_predecessor_attempt_id r)
       (ValueError ''redelivery must use a distinct physical attempt identity'')) (\<lambda>_.
     and_then (validate_planned_id (rd_attempt_plan_id r) (Some PlannedIdKind.ATTEMPT_PLAN)) (\<lambda>_.
     and_then (bounded_nonnegative_integer (rd_attempt_ordinal r) ''attempt_ordinal'' MAX_SAFE_INTEGER) (\<lambda>_.
     and_then (raise_unless (\<not> (ScheduleItem.entity_id (rd_schedule_item r) \<noteq> rd_attempt_plan_id r \<or>
         ScheduleItem.attempt_ordinal (rd_schedule_item r) \<noteq> rd_attempt_ordinal r))
       (ValueError ''redelivery schedule and physical attempt plan disagree'')) (\<lambda>_.
     and_then (policy_token (rd_schedule_idempotency_key r) ''schedule_idempotency_key'' 256) (\<lambda>_.
     and_then (raise_unless (length (rd_condition_json r) \<le> MAX_CONDITION_BYTES)
       (ValueError ''redelivery condition_json must be bounded bytes'')) (\<lambda>_.
       Inr r))))))))))))"

record RecoveryDecisionPlan =
  dec_decision_id :: string
  dec_run_id :: string
  dec_scenario_id :: string
  dec_attempt_id :: string
  dec_policy :: AmbiguityPolicy
  dec_decision :: RecoveryDecisionKind
  dec_reason :: ustring
  dec_timestamp :: TransitionTimestamp
  dec_evidence :: "RecoveryEvidenceReference list"
  dec_fingerprint :: "string option"
  dec_input_digest :: "string option"

definition validate_operator_fields :: "RecoveryDecisionPlan \<Rightarrow> unit result" where
  "validate_operator_fields d =
     (let is_operator = (dec_policy d = AmbiguityPolicy.OPERATOR_DECISION);
          has_operator = (dec_fingerprint d \<noteq> None \<and> dec_input_digest d \<noteq> None)
      in and_then (raise_unless (is_operator = has_operator)
           (ValueError ''operator decision fingerprint fields are incomplete or misplaced'')) (\<lambda>_.
         case (dec_fingerprint d, dec_input_digest d) of
           (Some fingerprint, Some input_digest) \<Rightarrow>
             and_then (validate_sha256_digest fingerprint) (\<lambda>_.
             and_then (validate_sha256_digest input_digest) (\<lambda>_. Inr ()))
         | _ \<Rightarrow> Inr ()))"

definition RecoveryDecisionPlan_post_init :: "RecoveryDecisionPlan \<Rightarrow> RecoveryDecisionPlan result" where
  "RecoveryDecisionPlan_post_init d =
     and_then (policy_token (dec_decision_id d) ''decision_id'' 96) (\<lambda>_.
     and_then (validate_run_id (dec_run_id d)) (\<lambda>_.
     and_then (validate_planned_id (dec_scenario_id d) (Some PlannedIdKind.SCENARIO)) (\<lambda>_.
     and_then (validate_fresh_id (dec_attempt_id d) (Some FreshIdKind.ATTEMPT)) (\<lambda>_.
     and_then (bounded_text (dec_reason d) ''decision reason'' MAX_REASON_BYTES) (\<lambda>_.
     and_then (raise_unless (is_live (dec_timestamp d))
       (ValueError ''resume decisions require a live transition timestamp'')) (\<lambda>_.
     and_then (raise_unless (\<not> length (dec_evidence d) > MAX_EVIDENCE_REFERENCES)
       (ValueError ''decision evidence exceeds the reference limit'')) (\<lambda>_.
     and_then (raise_unless (\<not> length (remdups (dec_evidence d)) \<noteq> length (dec_evidence d))
       (ValueError ''decision evidence references must be unique'')) (\<lambda>_.
     and_then (validate_operator_fields d) (\<lambda>_.
       Inr d)))))))))"

record ResumePolicyPlan =
  rp_run_id :: string
  rp_owner_epoch :: int
  requested_policy :: "AmbiguityPolicy option"
  effective_policy :: AmbiguityPolicy
  rp_disposition :: ResumeDisposition
  rp_result_category :: "ResultCategory option"
  rp_exit_code :: "ExitCode option"
  ambiguous_attempt_ids :: "string list"
  rp_decisions :: "RecoveryDecisionPlan list"
  rp_redeliveries :: "RedeliveryAttemptPlan list"
  rp_observations :: "ObservationReconciliationPlan list"
  runnable_schedule :: "ScheduleItem list"
  deferred_schedule :: "ScheduleItem list"

definition validate_plan_result :: "ResumePolicyPlan \<Rightarrow> unit result" where
  "validate_plan_result p =
     and_then (raise_unless (\<not> (rp_result_category p = None) \<noteq> (rp_exit_code p = None))
       (ValueError ''result_category and exit_code must be present together'')) (\<lambda>_.
     and_then (when_some (rp_result_category p) (\<lambda>category.
         raise_unless (Some (snd (exit_for_result category)) = rp_exit_code p)
           (ValueError ''policy result and exit code disagree''))) (\<lambda>_.
       raise_unless (\<not> (rp_disposition p \<in> {ResumeDisposition.STOP_AMBIGUOUS, ResumeDisposition.CANCELLED} \<and>
           rp_result_category p = None))
         (ValueError ''terminal policy disposition requires a result category'')))"

definition validate_policy_plan_collections :: "ResumePolicyPlan \<Rightarrow> unit result" where
  "validate_policy_plan_collections p =
     and_then (for_each (\<lambda>a. validate_fresh_id a (Some FreshIdKind.ATTEMPT)) (ambiguous_attempt_ids p)) (\<lambda>_.
     and_then (unique_values (ambiguous_attempt_ids p) ''ambiguous attempt'') (\<lambda>_.
     and_then (raise_unless (policy_limit (rp_decisions p))
       (ResumePolicyResourceLimitError ''decisions exceeds the policy item limit'')) (\<lambda>_.
     and_then (raise_unless (policy_limit (rp_redeliveries p))
       (ResumePolicyResourceLimitError ''redeliveries exceeds the policy item limit'')) (\<lambda>_.
     and_then (raise_unless (policy_limit (rp_observations p))
       (ResumePolicyResourceLimitError ''observations exceeds the policy item limit'')) (\<lambda>_.
     and_then (raise_unless (policy_limit (runnable_schedule p))
       (ResumePolicyResourceLimitError ''runnable_schedule exceeds the policy item limit'')) (\<lambda>_.
     and_then (raise_unless (policy_limit (deferred_schedule p))
       (ResumePolicyResourceLimitError ''deferred_schedule exceeds the policy item limit'')) (\<lambda>_.
     and_then (raise_unless (policy_limit (runnable_schedule p @ deferred_schedule p))
       (ResumePolicyResourceLimitError ''combined policy schedule exceeds the policy item limit'')) (\<lambda>_.
     and_then (raise_unless (\<not> (list_ex (\<lambda>d. dec_run_id d \<noteq> rp_run_id p) (rp_decisions p) \<or>
         list_ex (\<lambda>r. rd_run_id r \<noteq> rp_run_id p) (rp_redeliveries p)))
       (ValueError ''policy plan contains another run's mutation'')) (\<lambda>_.
     let runnable_ids = map ScheduleItem.schedule_entry_id (runnable_schedule p);
         deferred_ids = map ScheduleItem.schedule_entry_id (deferred_schedule p)
     in raise_unless (\<not> (length (remdups runnable_ids) \<noteq> length (runnable_schedule p) \<or>
          length (remdups deferred_ids) \<noteq> length (deferred_schedule p) \<or>
          set runnable_ids \<inter> set deferred_ids \<noteq> {}))
        (ValueError ''policy schedule projections contain duplicate identities''))))))))))"

definition ResumePolicyPlan_post_init :: "ResumePolicyPlan \<Rightarrow> ResumePolicyPlan result" where
  "ResumePolicyPlan_post_init p =
     and_then (validate_run_id (rp_run_id p)) (\<lambda>_.
     and_then (bounded_nonnegative_integer (rp_owner_epoch p) ''owner_epoch'' (2 ^ 63 - 1)) (\<lambda>_.
     and_then (validate_plan_result p) (\<lambda>_.
     and_then (validate_policy_plan_collections p) (\<lambda>_.
       Inr p))))"

definition requires_journal_commit :: "ResumePolicyPlan \<Rightarrow> bool" where
  "requires_journal_commit p = (rp_decisions p \<noteq> [] \<or> rp_redeliveries p \<noteq> [])"

definition delivery_execution_allowed :: "ResumePolicyPlan \<Rightarrow> bool" where
  "delivery_execution_allowed p = (rp_disposition p = ResumeDisposition.CONTINUE)"

definition observer_contact_allowed :: "ResumePolicyPlan \<Rightarrow> bool" where
  "observer_contact_allowed p = (rp_observations p \<noteq> [])"

section \<open>What the validations accept\<close>

lemma distinct_remdups_length: "length (remdups xs) = length xs \<longleftrightarrow> distinct xs" "length xs = length (remdups xs) \<longleftrightarrow> distinct xs"
  using distinct_length_set[of xs] by metis+

definition policy_plan_ok :: "ResumePolicyPlan \<Rightarrow> bool" where
  "policy_plan_ok p \<longleftrightarrow> returns (validate_run_id (rp_run_id p)) \<and>
     0 \<le> rp_owner_epoch p \<and> rp_owner_epoch p \<le> 2 ^ 63 - 1 \<and>
     rp_exit_code p = map_option (\<lambda>c. snd (exit_for_result c)) (rp_result_category p) \<and>
     (rp_disposition p \<in> {ResumeDisposition.STOP_AMBIGUOUS, ResumeDisposition.CANCELLED} \<longrightarrow> rp_result_category p \<noteq> None) \<and>
     (\<forall>a \<in> set (ambiguous_attempt_ids p). returns (validate_fresh_id a (Some FreshIdKind.ATTEMPT))) \<and>
     distinct (ambiguous_attempt_ids p) \<and> policy_limit (rp_decisions p) \<and> policy_limit (rp_redeliveries p) \<and>
     policy_limit (rp_observations p) \<and> policy_limit (runnable_schedule p @ deferred_schedule p) \<and>
     (\<forall>d \<in> set (rp_decisions p). dec_run_id d = rp_run_id p) \<and>
     (\<forall>r \<in> set (rp_redeliveries p). rd_run_id r = rp_run_id p) \<and>
     distinct (map ScheduleItem.schedule_entry_id (runnable_schedule p @ deferred_schedule p))"

lemma plan_result_eq_Inr:
  "validate_plan_result p = Inr u \<longleftrightarrow>
     rp_exit_code p = map_option (\<lambda>c. snd (exit_for_result c)) (rp_result_category p) \<and>
     (rp_disposition p \<in> {ResumeDisposition.STOP_AMBIGUOUS, ResumeDisposition.CANCELLED} \<longrightarrow> rp_result_category p \<noteq> None)"
  by (cases "rp_result_category p"; cases "rp_exit_code p") (auto simp: validate_plan_result_def result_simps when_some_def)

lemma plan_collections_eq_Inr:
  "validate_policy_plan_collections p = Inr u \<longleftrightarrow>
     (\<forall>a \<in> set (ambiguous_attempt_ids p). returns (validate_fresh_id a (Some FreshIdKind.ATTEMPT))) \<and>
     distinct (ambiguous_attempt_ids p) \<and> policy_limit (rp_decisions p) \<and> policy_limit (rp_redeliveries p) \<and>
     policy_limit (rp_observations p) \<and> policy_limit (runnable_schedule p @ deferred_schedule p) \<and>
     (\<forall>d \<in> set (rp_decisions p). dec_run_id d = rp_run_id p) \<and>
     (\<forall>r \<in> set (rp_redeliveries p). rd_run_id r = rp_run_id p) \<and>
     distinct (map ScheduleItem.schedule_entry_id (runnable_schedule p @ deferred_schedule p))"
proof -
  have "policy_limit (runnable_schedule p @ deferred_schedule p) \<Longrightarrow>
      policy_limit (runnable_schedule p) \<and> policy_limit (deferred_schedule p)"
    by (simp add: policy_limit_def)
  then show ?thesis
    using for_each_unit_ok[of "\<lambda>a. validate_fresh_id a (Some FreshIdKind.ATTEMPT)" "ambiguous_attempt_ids p"]
      distinct_remdups_length(1)[of "map ScheduleItem.schedule_entry_id (runnable_schedule p)"]
      distinct_remdups_length(1)[of "map ScheduleItem.schedule_entry_id (deferred_schedule p)"]
    unfolding validate_policy_plan_collections_def Let_def
    by (auto simp: and_then_eq_Inr unique_values_def distinct_remdups_length returns_iff list_ex_iff)
qed

lemma policy_plan_eq_Inr: "ResumePolicyPlan_post_init p = Inr q \<longleftrightarrow> q = p \<and> policy_plan_ok p"
  unfolding ResumePolicyPlan_post_init_def policy_plan_ok_def
  by (auto simp: and_then_eq_Inr plan_result_eq_Inr plan_collections_eq_Inr returns_iff)

end
