(* ===== verification/Resume_Policy.thy ===== *)
theory Resume_Policy
  imports Resume_Models
begin

text \<open>
  The resume-policy engine, the second half of \<open>recovery/policy.py\<close>: from verified recovery evidence, the bundle's
  authorizations, the invocation's choices and the persisted schedule it builds one plan that stops, waits
  for an observation, accepts an operator's decision or redelivers. The factory of fresh attempt identifiers
  is a parameter: the \<open>k\<close>-th call returns \<open>fresh k\<close>.
\<close>

section \<open>Decisions\<close>

definition decision_for :: "ResumePolicyContext \<Rightarrow> AttemptRecoveryItem \<Rightarrow> AmbiguityPolicy \<Rightarrow> RecoveryDecisionKind \<Rightarrow>
    ustring \<Rightarrow> TransitionTimestamp \<Rightarrow> RecoveryEvidenceReference list \<Rightarrow> string option \<Rightarrow> string option \<Rightarrow>
    RecoveryDecisionPlan result" where
  "decision_for ctx item pol kind reason timestamp evidence fingerprint input_digest =
     RecoveryDecisionPlan_post_init
       \<lparr>dec_decision_id = ''resume.'' @ int_str (plan_owner_epoch (recovery_plan ctx)) @ ''.'' @
          ambiguity_policy_value pol @ ''.'' @ ai_attempt_id item,
        dec_run_id = plan_run_id (recovery_plan ctx), dec_scenario_id = ai_scenario_id item,
        dec_attempt_id = ai_attempt_id item, dec_policy = pol, dec_decision = kind, dec_reason = reason,
        dec_timestamp = timestamp, dec_evidence = evidence, dec_fingerprint = fingerprint,
        dec_input_digest = input_digest\<rparr>"

fun operator_decision_kind :: "OperatorVerdict \<Rightarrow> RecoveryDecisionKind" where
  "operator_decision_kind OperatorVerdict.PROCESSED = RecoveryDecisionKind.OPERATOR_PROCESSED"
| "operator_decision_kind OperatorVerdict.NOT_PROCESSED = RecoveryDecisionKind.OPERATOR_NOT_PROCESSED"
| "operator_decision_kind OperatorVerdict.STILL_UNKNOWN = RecoveryDecisionKind.OPERATOR_STILL_UNKNOWN"

definition operator_decision_for :: "ResumePolicyContext \<Rightarrow> TransitionTimestamp \<Rightarrow>
    AttemptRecoveryItem \<times> OperatorDecisionDirective \<Rightarrow> RecoveryDecisionPlan result" where
  "operator_decision_for ctx timestamp = (\<lambda>(item, directive).
     decision_for ctx item AmbiguityPolicy.OPERATOR_DECISION (operator_decision_kind (verdict directive))
       (directive_reason directive) timestamp (directive_evidence directive)
       (Some (directive_fingerprint directive)) (Some (directive_input_digest directive)))"

section \<open>Plans without redelivery\<close>

definition pending_schedule :: "PersistedScheduleSnapshot \<Rightarrow> ScheduleItem list result" where
  "pending_schedule s = (case reconstruct (snapshot_entries s) (consumed_entry_ids s) MAX_POLICY_ITEMS of
       Inl (ScheduleQueueError _ _) \<Rightarrow>
         Inl (ResumePolicyIntegrityError ''persisted schedule snapshot failed reconstruction'')
     | Inl e \<Rightarrow> Inl e
     | Inr queue \<Rightarrow> Inr (queue_snapshot queue))"

definition policy_item_limit :: "AttemptRecoveryItem list \<Rightarrow> ScheduleItem list \<Rightarrow> unit result" where
  "policy_item_limit ambiguous pending = raise_unless (\<not> (\<not> policy_limit ambiguous \<or> \<not> policy_limit pending))
     (ResumePolicyResourceLimitError ''resume policy input exceeds the bounded item limit'')"

definition continue_without_ambiguity ::
    "ResumePolicyContext \<Rightarrow> ResumeInvocationPolicy \<Rightarrow> ScheduleItem list \<Rightarrow> ResumePolicyPlan result" where
  "continue_without_ambiguity ctx v pending = ResumePolicyPlan_post_init
     \<lparr>rp_run_id = plan_run_id (recovery_plan ctx), rp_owner_epoch = plan_owner_epoch (recovery_plan ctx),
      requested_policy = on_ambiguous v,
      effective_policy = (case on_ambiguous v of None \<Rightarrow> AmbiguityPolicy.STOP | Some pol \<Rightarrow> pol),
      rp_disposition = ResumeDisposition.CONTINUE, rp_result_category = None, rp_exit_code = None,
      ambiguous_attempt_ids = [], rp_decisions = [], rp_redeliveries = [], rp_observations = [],
      runnable_schedule = pending, deferred_schedule = []\<rparr>"

definition cancelled_plan ::
    "ResumePolicyContext \<Rightarrow> ResumeInvocationPolicy \<Rightarrow> ScheduleItem list \<Rightarrow> ResumePolicyPlan result" where
  "cancelled_plan ctx v pending = ResumePolicyPlan_post_init
     \<lparr>rp_run_id = plan_run_id (recovery_plan ctx), rp_owner_epoch = plan_owner_epoch (recovery_plan ctx),
      requested_policy = on_ambiguous v, effective_policy = AmbiguityPolicy.STOP,
      rp_disposition = ResumeDisposition.CANCELLED, rp_result_category = Some ResultCategory.CANCELLED,
      rp_exit_code = Some (snd (exit_for_result ResultCategory.CANCELLED)),
      ambiguous_attempt_ids = [], rp_decisions = [], rp_redeliveries = [], rp_observations = [],
      runnable_schedule = [], deferred_schedule = pending\<rparr>"

definition stop_plan :: "ResumePolicyContext \<Rightarrow> AmbiguityPolicy option \<Rightarrow> AttemptRecoveryItem list \<Rightarrow>
    ScheduleItem list \<Rightarrow> TransitionTimestamp \<Rightarrow> string \<Rightarrow> ResumePolicyPlan result" where
  "stop_plan ctx requested ambiguous pending timestamp reason =
     and_then (for_each (\<lambda>item. decision_for ctx item AmbiguityPolicy.STOP RecoveryDecisionKind.STOPPED_AMBIGUOUS
         (text_of reason) timestamp [] None None) ambiguous) (\<lambda>decisions.
     ResumePolicyPlan_post_init
     \<lparr>rp_run_id = plan_run_id (recovery_plan ctx), rp_owner_epoch = plan_owner_epoch (recovery_plan ctx),
      requested_policy = requested, effective_policy = AmbiguityPolicy.STOP,
      rp_disposition = ResumeDisposition.STOP_AMBIGUOUS, rp_result_category = Some ResultCategory.AMBIGUOUS,
      rp_exit_code = Some (snd (exit_for_result ResultCategory.AMBIGUOUS)),
      ambiguous_attempt_ids = map ai_attempt_id ambiguous, rp_decisions = decisions, rp_redeliveries = [],
      rp_observations = [], runnable_schedule = [], deferred_schedule = pending\<rparr>)"

definition item_scope :: "AttemptRecoveryItem \<Rightarrow> string \<times> string" where
  "item_scope i = (ai_scenario_id i, ai_delivery_id i)"

text \<open>The loop over the ambiguous items that collects their rules or finds one that is missing or ineligible.\<close>

fun select_rules :: "(string \<times> string \<rightharpoonup> ObservationReconciliationRule) \<Rightarrow> AttemptRecoveryItem list \<Rightarrow>
    ObservationReconciliationRule list option" where
  "select_rules rules [] = Some []"
| "select_rules rules (i # items) = (case rules (item_scope i) of
       None \<Rightarrow> None
     | Some rule \<Rightarrow> if \<not> eligible_for_resume rule then None
         else (case select_rules rules items of None \<Rightarrow> None | Some selected \<Rightarrow> Some (rule # selected)))"

definition observation_plan ::
    "AttemptRecoveryItem \<times> ObservationReconciliationRule \<Rightarrow> ObservationReconciliationPlan result" where
  "observation_plan = (\<lambda>(item, rule). ObservationReconciliationPlan_post_init
     \<lparr>op_attempt_id = ai_attempt_id item, op_scenario_id = ai_scenario_id item, op_delivery_id = ai_delivery_id item,
      op_observation_id = rule_observation_id rule, op_assertion_ids = rule_assertion_ids rule\<rparr>)"

definition reference :: "string \<Rightarrow> string \<Rightarrow> RecoveryEvidenceReference result" where
  "reference kind evidence = RecoveryEvidenceReference_post_init \<lparr>evidence_kind = kind, evidence_id = evidence\<rparr>"

definition observation_decision :: "ResumePolicyContext \<Rightarrow> TransitionTimestamp \<Rightarrow>
    AttemptRecoveryItem \<times> ObservationReconciliationPlan \<Rightarrow> RecoveryDecisionPlan result" where
  "observation_decision ctx timestamp = (\<lambda>(item, observation).
     and_then (reference ''observation'' (op_observation_id observation)) (\<lambda>first.
     and_then (for_each (reference ''assertion'') (op_assertion_ids observation)) (\<lambda>others.
       decision_for ctx item AmbiguityPolicy.OBSERVE RecoveryDecisionKind.OBSERVATION_REQUESTED
         (text_of ''configured_read_only_observer_and_decisive_assertions'') timestamp (first # others) None None)))"

definition scope_map :: "('a \<Rightarrow> string \<times> string) \<Rightarrow> 'a list \<Rightarrow> string \<times> string \<rightharpoonup> 'a" where
  "scope_map scope items = map_of (rev (map (\<lambda>x. (scope x, x)) items))"

definition observe_plan :: "ResumePolicyContext \<Rightarrow> BundleRecoveryPolicy \<Rightarrow> AttemptRecoveryItem list \<Rightarrow>
    ScheduleItem list \<Rightarrow> TransitionTimestamp \<Rightarrow> ResumePolicyPlan result" where
  "observe_plan ctx bundle ambiguous pending timestamp =
     (case select_rules (scope_map rule_scope (observation_rules bundle)) ambiguous of
        None \<Rightarrow> stop_plan ctx (Some AmbiguityPolicy.OBSERVE) ambiguous pending timestamp
          ''observe_requires_read_only_idempotent_decisive_rule''
      | Some selected \<Rightarrow>
          and_then (for_each observation_plan (zip ambiguous selected)) (\<lambda>observations.
          and_then (for_each (observation_decision ctx timestamp) (zip ambiguous observations)) (\<lambda>decisions.
          ResumePolicyPlan_post_init
          \<lparr>rp_run_id = plan_run_id (recovery_plan ctx), rp_owner_epoch = plan_owner_epoch (recovery_plan ctx),
           requested_policy = Some AmbiguityPolicy.OBSERVE, effective_policy = AmbiguityPolicy.OBSERVE,
           rp_disposition = ResumeDisposition.AWAIT_OBSERVATION, rp_result_category = None, rp_exit_code = None,
           ambiguous_attempt_ids = map ai_attempt_id ambiguous, rp_decisions = decisions, rp_redeliveries = [],
           rp_observations = observations, runnable_schedule = [], deferred_schedule = pending\<rparr>)))"

definition linked_scopes :: "AttemptRecoveryItem list \<Rightarrow> (int \<times> int \<times> int) set" where
  "linked_scopes ambiguous = set (map (\<lambda>i. (ai_scenario_ordinal i, ai_step_ordinal i, ai_delivery_ordinal i)) ambiguous)"

definition schedule_scope :: "ScheduleItem \<Rightarrow> int \<times> int \<times> int" where
  "schedule_scope i = (ScheduleItem.scenario_ordinal i, ScheduleItem.step_ordinal i, ScheduleItem.delivery_ordinal i)"

definition partition_linked_schedule ::
    "ScheduleItem list \<Rightarrow> AttemptRecoveryItem list \<Rightarrow> ScheduleItem list \<times> ScheduleItem list" where
  "partition_linked_schedule pending ambiguous =
     ([i \<leftarrow> pending. schedule_scope i \<notin> linked_scopes ambiguous],
      [i \<leftarrow> pending. schedule_scope i \<in> linked_scopes ambiguous])"

definition operator_plan :: "ResumePolicyContext \<Rightarrow> ResumeInvocationPolicy \<Rightarrow> AttemptRecoveryItem list \<Rightarrow>
    ScheduleItem list \<Rightarrow> TransitionTimestamp \<Rightarrow> ResumePolicyPlan result" where
  "operator_plan ctx v ambiguous pending timestamp =
     (let directives = map_of (rev (map (\<lambda>d. (directive_attempt_id d, d)) (operator_decisions v))) in
      if set (map directive_attempt_id (operator_decisions v)) \<noteq> set (map ai_attempt_id ambiguous)
      then stop_plan ctx (Some AmbiguityPolicy.OPERATOR_DECISION) ambiguous pending timestamp
        ''operator_decision_set_is_incomplete''
      else
      let selected = map (\<lambda>i. the (directives (ai_attempt_id i))) ambiguous in
      if noninteractive v \<and> list_ex (\<lambda>d. \<not> signed_policy_verified d) selected
      then stop_plan ctx (Some AmbiguityPolicy.OPERATOR_DECISION) ambiguous pending timestamp
        ''noninteractive_operator_policy_is_unsigned''
      else
      and_then (for_each (operator_decision_for ctx timestamp) (zip ambiguous selected)) (\<lambda>decisions.
      let unresolved = list_ex (\<lambda>d. verdict d = OperatorVerdict.STILL_UNKNOWN) selected;
          (runnable, linked) = partition_linked_schedule pending ambiguous;
          category = (if unresolved then Some ResultCategory.AMBIGUOUS else None)
      in ResumePolicyPlan_post_init
          \<lparr>rp_run_id = plan_run_id (recovery_plan ctx), rp_owner_epoch = plan_owner_epoch (recovery_plan ctx),
           requested_policy = Some AmbiguityPolicy.OPERATOR_DECISION, effective_policy = AmbiguityPolicy.OPERATOR_DECISION,
           rp_disposition = (if unresolved then ResumeDisposition.STOP_AMBIGUOUS else ResumeDisposition.CONTINUE),
           rp_result_category = category,
           rp_exit_code = map_option (\<lambda>c. snd (exit_for_result c)) category,
           ambiguous_attempt_ids = map ai_attempt_id ambiguous, rp_decisions = decisions, rp_redeliveries = [],
           rp_observations = [], runnable_schedule = (if unresolved then [] else runnable),
           deferred_schedule = (if unresolved then pending else linked)\<rparr>))"

section \<open>Redelivery\<close>

definition is_redeliverable :: "AttemptRecoveryItem \<Rightarrow> bool" where
  "is_redeliverable i = (ai_prior_state i = AttemptState.UNKNOWN_OUTCOME \<or>
     ai_target_state i = Some AttemptState.UNKNOWN_OUTCOME)"

fun template_block_reason :: "(string \<times> string \<rightharpoonup> RedeliveryTemplate) \<Rightarrow> AttemptRecoveryItem list \<Rightarrow> string option" where
  "template_block_reason templates [] = None"
| "template_block_reason templates (i # items) =
     (if \<not> is_redeliverable i then Some ''ambiguity_is_not_a_terminal_unknown_outcome''
      else case templates (item_scope i) of
          None \<Rightarrow> Some ''scenario_redelivery_authorization_is_missing''
        | Some t \<Rightarrow> if tpl_scenario_id t \<noteq> ai_scenario_id i \<or> tpl_event_id t \<noteq> ai_event_id i \<or>
              tpl_delivery_id t \<noteq> ai_delivery_id i
            then Some ''scenario_redelivery_authorization_identity_mismatch''
            else template_block_reason templates items)"

definition redelivery_block_reason ::
    "AttemptRecoveryItem list \<Rightarrow> (string \<times> string \<rightharpoonup> RedeliveryTemplate) \<Rightarrow> string option" where
  "redelivery_block_reason ambiguous templates =
     (if length (remdups (map item_scope ambiguous)) \<noteq> length ambiguous
      then Some ''multiple_unresolved_attempts_share_one_delivery''
      else template_block_reason templates ambiguous)"

definition fresh_redelivery_id :: "string result \<Rightarrow> string set \<Rightarrow> string result" where
  "fresh_redelivery_id produced existing =
     and_then (case and_then produced (\<lambda>a. validate_fresh_id a (Some FreshIdKind.ATTEMPT)) of
         Inl e \<Rightarrow> if is_type_or_value_error e
           then Inl (ResumePolicyIntegrityError ''fresh attempt identity factory returned an invalid value'') else Inl e
       | Inr a \<Rightarrow> Inr a) (\<lambda>a.
     and_then (raise_unless (a \<notin> existing)
       (ResumePolicyIntegrityError ''fresh attempt identity collides with recovery history'')) (\<lambda>_. Inr a))"

text \<open>\<open>json.dumps\<close> of the condition with sorted keys and compact separators.\<close>

definition redelivery_condition :: "string \<Rightarrow> int \<Rightarrow> string \<Rightarrow> bytes" where
  "redelivery_condition attempt_id ordinal predecessor = map of_char (
     ''{'' @ json_dumps_text ''attempt_id'' @ '':'' @ json_dumps_text attempt_id @ '','' @
     json_dumps_text ''next_attempt_ordinal'' @ '':'' @ int_str ordinal @ '','' @
     json_dumps_text ''policy'' @ '':'' @ json_dumps_text (ambiguity_policy_value AmbiguityPolicy.REDELIVER) @ '','' @
     json_dumps_text ''predecessor_attempt_id'' @ '':'' @ json_dumps_text predecessor @ ''}'')"

definition redelivery_from :: "ResumePolicyContext \<Rightarrow> AttemptRecoveryItem \<Rightarrow> RedeliveryTemplate \<Rightarrow> string \<Rightarrow>
    RedeliveryAttemptPlan result" where
  "redelivery_from ctx item template attempt_id =
     (let ordinal = ai_attempt_ordinal item + 1 in
      and_then (raise_unless (\<not> ordinal > MAX_SAFE_INTEGER)
        (ResumePolicyResourceLimitError ''redelivery attempt ordinal exceeds the safe-integer limit'')) (\<lambda>_.
      and_then (ScheduleItem_post_init
        \<lparr>ScheduleItem.schedule_entry_id = ''resume.redelivery.'' @ attempt_id,
         entity_id = tpl_attempt_plan_id template, logical_due_ns = tpl_logical_due_ns template,
         scenario_ordinal = ai_scenario_ordinal item, step_ordinal = ai_step_ordinal item,
         delivery_ordinal = ai_delivery_ordinal item, attempt_ordinal = ordinal,
         deterministic_tie_key = tpl_tie_key template @ ''.'' @ attempt_id\<rparr>) (\<lambda>schedule.
      RedeliveryAttemptPlan_post_init
        \<lparr>rd_run_id = plan_run_id (recovery_plan ctx), rd_scenario_id = ai_scenario_id item,
         rd_event_id = ai_event_id item, rd_delivery_id = ai_delivery_id item,
         rd_predecessor_attempt_id = ai_attempt_id item, rd_attempt_id = attempt_id,
         rd_attempt_plan_id = tpl_attempt_plan_id template, rd_attempt_ordinal = ordinal,
         rd_schedule_item = schedule,
         rd_schedule_idempotency_key = ''resume.redelivery.schedule.'' @ attempt_id,
         rd_condition_json = redelivery_condition attempt_id ordinal (ai_attempt_id item)\<rparr>)))"

text \<open>The loop over the ambiguous items: \<open>existing\<close> holds the attempt identifiers of the history and those
  generated so far, \<open>schedule_ids\<close> the schedule identities in use, \<open>k\<close> the number of factory calls.\<close>

fun redeliver_loop :: "ResumePolicyContext \<Rightarrow> (string \<times> string \<rightharpoonup> RedeliveryTemplate) \<Rightarrow> (nat \<Rightarrow> string result) \<Rightarrow> nat \<Rightarrow>
    string set \<Rightarrow> string set \<Rightarrow> AttemptRecoveryItem list \<Rightarrow> RedeliveryAttemptPlan list result" where
  "redeliver_loop ctx templates fresh k existing schedule_ids [] = Inr []"
| "redeliver_loop ctx templates fresh k existing schedule_ids (i # items) =
     and_then (fresh_redelivery_id (fresh k) existing) (\<lambda>attempt_id.
     and_then (redelivery_from ctx i (the (templates (item_scope i))) attempt_id) (\<lambda>redelivery.
     let entry = ScheduleItem.schedule_entry_id (rd_schedule_item redelivery) in
     and_then (raise_unless (entry \<notin> schedule_ids)
       (ResumePolicyIntegrityError ''redelivery schedule identity collides with persisted state'')) (\<lambda>_.
     and_then (redeliver_loop ctx templates fresh (Suc k) (insert attempt_id existing) (insert entry schedule_ids) items)
       (\<lambda>rest. Inr (redelivery # rest)))))"

definition redelivery_decision :: "ResumePolicyContext \<Rightarrow> TransitionTimestamp \<Rightarrow>
    AttemptRecoveryItem \<times> RedeliveryAttemptPlan \<Rightarrow> RecoveryDecisionPlan result" where
  "redelivery_decision ctx timestamp = (\<lambda>(item, redelivery).
     and_then (reference ''attempt'' (rd_attempt_id redelivery)) (\<lambda>evidence.
       decision_for ctx item AmbiguityPolicy.REDELIVER RecoveryDecisionKind.REDELIVERY_CREATED
         (text_of ''explicit_bundle_and_invocation_redelivery'') timestamp [evidence] None None))"

definition authorized_redelivery_plan :: "ResumePolicyContext \<Rightarrow> (nat \<Rightarrow> string result) \<Rightarrow> AttemptRecoveryItem list \<Rightarrow>
    ScheduleItem list \<Rightarrow> PersistedScheduleSnapshot \<Rightarrow> TransitionTimestamp \<Rightarrow>
    (string \<times> string \<rightharpoonup> RedeliveryTemplate) \<Rightarrow> ResumePolicyPlan result" where
  "authorized_redelivery_plan ctx fresh ambiguous pending snapshot timestamp templates =
     and_then (redeliver_loop ctx templates fresh 0 (set (map ai_attempt_id (plan_attempts (recovery_plan ctx))))
       (set (map ScheduleItem.schedule_entry_id (snapshot_entries snapshot)) \<union> consumed_entry_ids snapshot) ambiguous) (\<lambda>redeliveries.
     and_then (raise_unless (\<not> int (length pending + length redeliveries) > MAX_POLICY_ITEMS)
       (ResumePolicyResourceLimitError ''redelivery would exceed the scheduler item limit'')) (\<lambda>_.
     let (runnable, deferred) = partition_linked_schedule pending ambiguous in
     and_then (for_each (redelivery_decision ctx timestamp) (zip ambiguous redeliveries)) (\<lambda>decisions.
     ResumePolicyPlan_post_init
       \<lparr>rp_run_id = plan_run_id (recovery_plan ctx), rp_owner_epoch = plan_owner_epoch (recovery_plan ctx),
        requested_policy = Some AmbiguityPolicy.REDELIVER, effective_policy = AmbiguityPolicy.REDELIVER,
        rp_disposition = ResumeDisposition.CONTINUE, rp_result_category = None, rp_exit_code = None,
        ambiguous_attempt_ids = map ai_attempt_id ambiguous, rp_decisions = decisions,
        rp_redeliveries = redeliveries, rp_observations = [],
        runnable_schedule = sort_key order_key (runnable @ map rd_schedule_item redeliveries),
        deferred_schedule = deferred\<rparr>)))"

definition redelivery_plan :: "ResumePolicyContext \<Rightarrow> (nat \<Rightarrow> string result) \<Rightarrow> BundleRecoveryPolicy \<Rightarrow>
    AttemptRecoveryItem list \<Rightarrow> ScheduleItem list \<Rightarrow> PersistedScheduleSnapshot \<Rightarrow> TransitionTimestamp \<Rightarrow>
    ResumePolicyPlan result" where
  "redelivery_plan ctx fresh bundle ambiguous pending snapshot timestamp =
     (let templates = scope_map template_scope (redelivery_templates bundle) in
      case redelivery_block_reason ambiguous templates of
        Some reason \<Rightarrow> stop_plan ctx (Some AmbiguityPolicy.REDELIVER) ambiguous pending timestamp reason
      | None \<Rightarrow> authorized_redelivery_plan ctx fresh ambiguous pending snapshot timestamp templates)"

section \<open>The engine\<close>

definition build_plan :: "(nat \<Rightarrow> string result) \<Rightarrow> ResumePolicyContext \<Rightarrow> BundleRecoveryPolicy \<Rightarrow>
    ResumeInvocationPolicy \<Rightarrow> PersistedScheduleSnapshot \<Rightarrow> TransitionTimestamp \<Rightarrow> ResumePolicyPlan result" where
  "build_plan fresh ctx bundle v schedule timestamp =
     and_then (raise_unless (is_live timestamp)
       (ResumePolicyIntegrityError ''resume policy planning requires a live clock timestamp'')) (\<lambda>_.
     and_then (pending_schedule schedule) (\<lambda>pending.
     let ambiguous = unresolved_ambiguous_attempts (recovery_plan ctx) in
     and_then (policy_item_limit ambiguous pending) (\<lambda>_.
     if cancel_requested v then
       (if ambiguous \<noteq> [] then stop_plan ctx (on_ambiguous v) ambiguous pending timestamp
          ''cancellation_preserved_unresolved_ambiguity''
        else cancelled_plan ctx v pending)
     else if ambiguous = [] then continue_without_ambiguity ctx v pending
     else case on_ambiguous v of
         None \<Rightarrow> stop_plan ctx None ambiguous pending timestamp ''default_stop''
       | Some AmbiguityPolicy.STOP \<Rightarrow> stop_plan ctx (Some AmbiguityPolicy.STOP) ambiguous pending timestamp ''explicit_stop''
       | Some AmbiguityPolicy.OBSERVE \<Rightarrow> observe_plan ctx bundle ambiguous pending timestamp
       | Some AmbiguityPolicy.OPERATOR_DECISION \<Rightarrow> operator_plan ctx v ambiguous pending timestamp
       | Some AmbiguityPolicy.REDELIVER \<Rightarrow> redelivery_plan ctx fresh bundle ambiguous pending schedule timestamp)))"

definition reconstruct_queue :: "ResumePolicyPlan \<Rightarrow> PersistentPriorityQueue result" where
  "reconstruct_queue p = (case reconstruct (runnable_schedule p) {} MAX_POLICY_ITEMS of
       Inl (ScheduleQueueError _ _) \<Rightarrow>
         Inl (ResumePolicyIntegrityError ''resume schedule reconstruction failed integrity checks'')
     | Inl e \<Rightarrow> Inl e
     | Inr queue \<Rightarrow> Inr queue)"

definition due_schedule :: "ResumePolicyPlan \<Rightarrow> int \<Rightarrow> int \<Rightarrow> ScheduleItem list result" where
  "due_schedule p logical_now_ns limit = and_then (reconstruct_queue p) (\<lambda>queue. due queue logical_now_ns limit)"

record PolicyApplication =
  applied_plan :: ResumePolicyPlan
  commit_attempted :: bool
  newly_committed :: bool

definition idempotent_replay :: "PolicyApplication \<Rightarrow> bool" where
  "idempotent_replay a = (commit_attempted a \<and> \<not> newly_committed a)"

text \<open>The journal adapter is a parameter: what its commit of the plan returns.\<close>

definition apply_policy :: "(ResumePolicyPlan \<Rightarrow> bool result) \<Rightarrow> ResumePolicyPlan \<Rightarrow> PolicyApplication result" where
  "apply_policy commit_policy p =
     (if \<not> requires_journal_commit p
      then Inr \<lparr>applied_plan = p, commit_attempted = False, newly_committed = False\<rparr>
      else and_then (commit_policy p) (\<lambda>committed.
        Inr \<lparr>applied_plan = p, commit_attempted = True, newly_committed = committed\<rparr>))"

section \<open>The fields of each plan\<close>

lemma stop_plan_fields:
  assumes "stop_plan ctx requested ambiguous pending timestamp reason = Inr p"
  shows "rp_disposition p = ResumeDisposition.STOP_AMBIGUOUS" "runnable_schedule p = []" "deferred_schedule p = pending"
    "rp_redeliveries p = []" "rp_observations p = []" "policy_plan_ok p"
  using assms by (auto simp: stop_plan_def and_then_eq_Inr policy_plan_eq_Inr)

lemma cancelled_plan_fields:
  assumes "cancelled_plan ctx v pending = Inr p"
  shows "rp_disposition p = ResumeDisposition.CANCELLED" "runnable_schedule p = []" "deferred_schedule p = pending"
    "rp_redeliveries p = []" "rp_observations p = []" "policy_plan_ok p"
  using assms by (auto simp: cancelled_plan_def policy_plan_eq_Inr)

lemma continue_fields:
  assumes "continue_without_ambiguity ctx v pending = Inr p"
  shows "rp_disposition p = ResumeDisposition.CONTINUE" "runnable_schedule p = pending" "deferred_schedule p = []"
    "rp_redeliveries p = []" "rp_observations p = []" "policy_plan_ok p"
  using assms by (auto simp: continue_without_ambiguity_def policy_plan_eq_Inr)

lemma observe_plan_fields:
  assumes "observe_plan ctx bundle ambiguous pending timestamp = Inr p"
  shows "rp_disposition p \<in> {ResumeDisposition.AWAIT_OBSERVATION, ResumeDisposition.STOP_AMBIGUOUS}"
    "runnable_schedule p = []" "deferred_schedule p = pending" "rp_redeliveries p = []" "policy_plan_ok p"
    "rp_observations p \<noteq> [] \<Longrightarrow> rp_disposition p = ResumeDisposition.AWAIT_OBSERVATION"
  using assms unfolding observe_plan_def
  by (auto simp: and_then_eq_Inr policy_plan_eq_Inr dest: stop_plan_fields split: option.splits)

text \<open>An operator's plan that continues has a settled, and where needed signed, directive for every ambiguous attempt.\<close>

definition operator_settled :: "ResumeInvocationPolicy \<Rightarrow> AttemptRecoveryItem \<Rightarrow> bool" where
  "operator_settled v i \<longleftrightarrow> (\<exists>d \<in> set (operator_decisions v). directive_attempt_id d = ai_attempt_id i \<and>
     verdict d \<noteq> OperatorVerdict.STILL_UNKNOWN \<and> (noninteractive v \<longrightarrow> signed_policy_verified d))"

lemma directive_member:
  assumes "a \<in> set (map directive_attempt_id ds)"
  shows "the (map_of (rev (map (\<lambda>d. (directive_attempt_id d, d)) ds)) a) \<in> set ds \<and>
    directive_attempt_id (the (map_of (rev (map (\<lambda>d. (directive_attempt_id d, d)) ds)) a)) = a"
proof -
  obtain d where d: "map_of (rev (map (\<lambda>d. (directive_attempt_id d, d)) ds)) a = Some d"
    using assms by (cases "map_of (rev (map (\<lambda>d. (directive_attempt_id d, d)) ds)) a") (auto simp: map_of_eq_None_iff image_iff)
  from map_of_SomeD[OF this] show ?thesis using d by auto
qed

lemma operator_plan_fields:
  assumes "operator_plan ctx v ambiguous pending timestamp = Inr p"
  shows "policy_plan_ok p" "rp_redeliveries p = []" "rp_observations p = []"
    "rp_disposition p = ResumeDisposition.STOP_AMBIGUOUS \<and> runnable_schedule p = [] \<and> deferred_schedule p = pending \<or>
     rp_disposition p = ResumeDisposition.CONTINUE \<and>
       (runnable_schedule p, deferred_schedule p) = partition_linked_schedule pending ambiguous \<and>
       (\<forall>i \<in> set ambiguous. operator_settled v i)"
proof -
  let ?find = "\<lambda>a. the (map_of (rev (map (\<lambda>d. (directive_attempt_id d, d)) (operator_decisions v))) a)"
  have settled: "operator_settled v i"
    if "set (map directive_attempt_id (operator_decisions v)) = set (map ai_attempt_id ambiguous)" "i \<in> set ambiguous"
      "\<not> (noninteractive v \<and> list_ex (\<lambda>d. \<not> signed_policy_verified d) (map (\<lambda>i. ?find (ai_attempt_id i)) ambiguous))"
      "\<not> list_ex (\<lambda>d. verdict d = OperatorVerdict.STILL_UNKNOWN) (map (\<lambda>i. ?find (ai_attempt_id i)) ambiguous)" for i
    using that directive_member[of "ai_attempt_id i" "operator_decisions v"] unfolding operator_settled_def
    by (intro bexI[of _ "?find (ai_attempt_id i)"]) (auto simp: list_ex_iff)
  consider (stop) reason where "stop_plan ctx (Some AmbiguityPolicy.OPERATOR_DECISION) ambiguous pending timestamp reason = Inr p"
    | (go) "set (map directive_attempt_id (operator_decisions v)) = set (map ai_attempt_id ambiguous)"
      "\<not> (noninteractive v \<and> list_ex (\<lambda>d. \<not> signed_policy_verified d) (map (\<lambda>i. ?find (ai_attempt_id i)) ambiguous))"
    using assms unfolding operator_plan_def Let_def by (metis (no_types, lifting))
  then have "policy_plan_ok p \<and> rp_redeliveries p = [] \<and> rp_observations p = [] \<and>
    (rp_disposition p = ResumeDisposition.STOP_AMBIGUOUS \<and> runnable_schedule p = [] \<and> deferred_schedule p = pending \<or>
     rp_disposition p = ResumeDisposition.CONTINUE \<and>
       (runnable_schedule p, deferred_schedule p) = partition_linked_schedule pending ambiguous \<and>
       (\<forall>i \<in> set ambiguous. operator_settled v i))"
  proof cases
    case stop
    from stop_plan_fields[OF this] show ?thesis by simp
  next
    case go
    show ?thesis
      using assms go settled[OF go(1) _ go(2)]
      unfolding operator_plan_def Let_def
      by (auto simp: and_then_eq_Inr policy_plan_eq_Inr partition_linked_schedule_def split: if_splits)
  qed
  then show "policy_plan_ok p" "rp_redeliveries p = []" "rp_observations p = []"
    "rp_disposition p = ResumeDisposition.STOP_AMBIGUOUS \<and> runnable_schedule p = [] \<and> deferred_schedule p = pending \<or>
     rp_disposition p = ResumeDisposition.CONTINUE \<and>
       (runnable_schedule p, deferred_schedule p) = partition_linked_schedule pending ambiguous \<and>
       (\<forall>i \<in> set ambiguous. operator_settled v i)"
    by blast+
qed

section \<open>Redeliveries\<close>

definition template_authorizes :: "BundleRecoveryPolicy \<Rightarrow> AttemptRecoveryItem \<Rightarrow> bool" where
  "template_authorizes bundle i \<longleftrightarrow> is_redeliverable i \<and> (\<exists>t \<in> set (redelivery_templates bundle).
     template_scope t = item_scope i \<and> tpl_event_id t = ai_event_id i)"

lemma scope_map_SomeD: "scope_map scope items k = Some x \<Longrightarrow> x \<in> set items \<and> scope x = k"
  by (auto simp: scope_map_def dest: map_of_SomeD)

lemma template_block_reason_None:
  "template_block_reason templates items = None \<longleftrightarrow> (\<forall>i \<in> set items. is_redeliverable i \<and>
     (\<exists>t. templates (item_scope i) = Some t \<and> tpl_scenario_id t = ai_scenario_id i \<and> tpl_event_id t = ai_event_id i \<and>
       tpl_delivery_id t = ai_delivery_id i))"
  by (induction items) (auto split: option.splits)

lemma redelivery_authorized:
  assumes "redelivery_block_reason ambiguous (scope_map template_scope (redelivery_templates bundle)) = None"
  shows "distinct (map item_scope ambiguous)" "i \<in> set ambiguous \<Longrightarrow> template_authorizes bundle i"
proof -
  show "distinct (map item_scope ambiguous)"
    using assms distinct_remdups_length(1)[of "map item_scope ambiguous"]
    by (auto simp: redelivery_block_reason_def split: if_splits)
  show "template_authorizes bundle i" if "i \<in> set ambiguous"
  proof -
    have "template_block_reason (scope_map template_scope (redelivery_templates bundle)) ambiguous = None"
      using assms by (auto simp: redelivery_block_reason_def split: if_splits)
    from bspec[OF this[unfolded template_block_reason_None] that]
    obtain t where t: "is_redeliverable i"
      "scope_map template_scope (redelivery_templates bundle) (item_scope i) = Some t" "tpl_event_id t = ai_event_id i"
      by (elim conjE exE)
    from t(1,3) scope_map_SomeD[OF t(2)] show ?thesis unfolding template_authorizes_def by blast
  qed
qed

text \<open>The redelivery of an item: a new attempt of the same delivery, directly after the item.\<close>

definition redelivers :: "AttemptRecoveryItem \<Rightarrow> RedeliveryAttemptPlan \<Rightarrow> bool" where
  "redelivers i r \<longleftrightarrow> rd_predecessor_attempt_id r = ai_attempt_id i \<and> rd_attempt_ordinal r = ai_attempt_ordinal i + 1 \<and>
     rd_scenario_id r = ai_scenario_id i \<and> rd_event_id r = ai_event_id i \<and> rd_delivery_id r = ai_delivery_id i \<and>
     schedule_scope (rd_schedule_item r) = (ai_scenario_ordinal i, ai_step_ordinal i, ai_delivery_ordinal i) \<and>
     ScheduleItem.schedule_entry_id (rd_schedule_item r) = ''resume.redelivery.'' @ rd_attempt_id r \<and>
     ScheduleItem.attempt_ordinal (rd_schedule_item r) = rd_attempt_ordinal r"

lemma schedule_item_same: "ScheduleItem_post_init x = Inr y \<Longrightarrow> y = x"
  by (auto simp: ScheduleItem_post_init_def and_then_eq_Inr)

lemma redelivery_plan_same: "RedeliveryAttemptPlan_post_init x = Inr y \<Longrightarrow> y = x"
  by (auto simp: RedeliveryAttemptPlan_post_init_def and_then_eq_Inr)

lemma redelivery_from_redelivers:
  assumes "redelivery_from ctx i template attempt_id = Inr r"
  shows "redelivers i r" "rd_attempt_id r = attempt_id"
  using assms unfolding redelivery_from_def Let_def redelivers_def
  by (auto simp: and_then_eq_Inr schedule_scope_def dest!: schedule_item_same redelivery_plan_same)

lemma fresh_redelivery_eq_Inr:
  "fresh_redelivery_id produced existing = Inr a \<longleftrightarrow>
     produced = Inr a \<and> returns (validate_fresh_id a (Some FreshIdKind.ATTEMPT)) \<and> a \<notin> existing"
proof (cases produced)
  case (Inr b)
  note b = this
  show ?thesis
  proof (cases "validate_fresh_id b (Some FreshIdKind.ATTEMPT)")
    case (Inl e)
    then show ?thesis using b by (auto simp: fresh_redelivery_id_def returns_def)
  next
    case (Inr c)
    then have "c = b" by (simp add: validate_fresh_eq_Inr)
    then show ?thesis using Inr b by (auto simp: fresh_redelivery_id_def returns_def and_then_eq_Inr)
  qed
qed (simp add: fresh_redelivery_id_def)

lemma redeliver_loop_redelivers:
  assumes "redeliver_loop ctx templates fresh k existing schedule_ids items = Inr rs"
  shows "list_all2 redelivers items rs" "distinct (map rd_attempt_id rs)" "set (map rd_attempt_id rs) \<inter> existing = {}"
    "set (map (\<lambda>r. ScheduleItem.schedule_entry_id (rd_schedule_item r)) rs) \<inter> schedule_ids = {}"
proof -
  have "list_all2 redelivers items rs \<and> distinct (map rd_attempt_id rs) \<and> set (map rd_attempt_id rs) \<inter> existing = {} \<and>
    set (map (\<lambda>r. ScheduleItem.schedule_entry_id (rd_schedule_item r)) rs) \<inter> schedule_ids = {}"
    using assms
  proof (induction items arbitrary: k existing schedule_ids rs)
    case (Cons i items)
    then obtain a r rest where step: "fresh_redelivery_id (fresh k) existing = Inr a"
      "redelivery_from ctx i (the (templates (item_scope i))) a = Inr r"
      "ScheduleItem.schedule_entry_id (rd_schedule_item r) \<notin> schedule_ids" "rs = r # rest"
      and rest: "redeliver_loop ctx templates fresh (Suc k) (insert a existing)
        (insert (ScheduleItem.schedule_entry_id (rd_schedule_item r)) schedule_ids) items = Inr rest"
      by (auto simp: and_then_eq_Inr Let_def)
    from Cons.IH[OF rest] step redelivery_from_redelivers[OF step(2)] show ?case
      by (auto simp: fresh_redelivery_eq_Inr)
  qed simp
  then show "list_all2 redelivers items rs" "distinct (map rd_attempt_id rs)" "set (map rd_attempt_id rs) \<inter> existing = {}"
    "set (map (\<lambda>r. ScheduleItem.schedule_entry_id (rd_schedule_item r)) rs) \<inter> schedule_ids = {}" by blast+
qed

section \<open>What a plan may be\<close>

text \<open>The specification of the engine: a plan either holds everything back, or continues because nothing is
  ambiguous, because an operator settled every ambiguity, or because every ambiguity is redelivered.\<close>

inductive plan_allowed :: "ResumePolicyContext \<Rightarrow> BundleRecoveryPolicy \<Rightarrow> ResumeInvocationPolicy \<Rightarrow> ScheduleItem list \<Rightarrow>
    ResumePolicyPlan \<Rightarrow> bool"
  for ctx :: ResumePolicyContext and trusted :: BundleRecoveryPolicy and v :: ResumeInvocationPolicy
    and pending :: "ScheduleItem list" where
  held: "\<lbrakk>rp_disposition p \<noteq> ResumeDisposition.CONTINUE; runnable_schedule p = []; deferred_schedule p = pending;
    rp_redeliveries p = []; rp_observations p \<noteq> [] \<longrightarrow> \<not> cancel_requested v \<and> on_ambiguous v = Some AmbiguityPolicy.OBSERVE\<rbrakk>
    \<Longrightarrow> plan_allowed ctx trusted v pending p"
| clear: "\<lbrakk>rp_disposition p = ResumeDisposition.CONTINUE; \<not> cancel_requested v;
    unresolved_ambiguous_attempts (recovery_plan ctx) = []; rp_redeliveries p = []; rp_observations p = [];
    runnable_schedule p = pending; deferred_schedule p = []\<rbrakk> \<Longrightarrow> plan_allowed ctx trusted v pending p"
| operator: "\<lbrakk>rp_disposition p = ResumeDisposition.CONTINUE; \<not> cancel_requested v;
    on_ambiguous v = Some AmbiguityPolicy.OPERATOR_DECISION; rp_redeliveries p = []; rp_observations p = [];
    (runnable_schedule p, deferred_schedule p) =
      partition_linked_schedule pending (unresolved_ambiguous_attempts (recovery_plan ctx));
    \<forall>i \<in> set (unresolved_ambiguous_attempts (recovery_plan ctx)). operator_settled v i\<rbrakk>
    \<Longrightarrow> plan_allowed ctx trusted v pending p"
| redelivery: "\<lbrakk>rp_disposition p = ResumeDisposition.CONTINUE; \<not> cancel_requested v;
    on_ambiguous v = Some AmbiguityPolicy.REDELIVER; rp_observations p = [];
    \<forall>i \<in> set (unresolved_ambiguous_attempts (recovery_plan ctx)). template_authorizes trusted i;
    distinct (map item_scope (unresolved_ambiguous_attempts (recovery_plan ctx)));
    list_all2 redelivers (unresolved_ambiguous_attempts (recovery_plan ctx)) (rp_redeliveries p);
    distinct (map rd_attempt_id (rp_redeliveries p));
    set (map rd_attempt_id (rp_redeliveries p)) \<inter> set (map ai_attempt_id (plan_attempts (recovery_plan ctx))) = {};
    runnable_schedule p = sort_key order_key
      (fst (partition_linked_schedule pending (unresolved_ambiguous_attempts (recovery_plan ctx))) @
       map rd_schedule_item (rp_redeliveries p));
    deferred_schedule p = snd (partition_linked_schedule pending (unresolved_ambiguous_attempts (recovery_plan ctx)))\<rbrakk>
    \<Longrightarrow> plan_allowed ctx trusted v pending p"

lemma stop_allowed: "stop_plan ctx requested ambiguous pending timestamp reason = Inr p \<Longrightarrow>
    plan_allowed ctx bundle v pending p \<and> policy_plan_ok p"
  by (rule conjI, rule held) (simp_all add: stop_plan_fields[where p = p])

lemma redelivery_allowed:
  assumes "redelivery_plan ctx fresh bundle (unresolved_ambiguous_attempts (recovery_plan ctx)) pending snapshot timestamp = Inr p"
    and "\<not> cancel_requested v" "on_ambiguous v = Some AmbiguityPolicy.REDELIVER"
  shows "plan_allowed ctx bundle v pending p \<and> policy_plan_ok p"
proof -
  let ?items = "unresolved_ambiguous_attempts (recovery_plan ctx)"
  let ?templates = "scope_map template_scope (redelivery_templates bundle)"
  show ?thesis
  proof (cases "redelivery_block_reason ?items ?templates")
    case (Some reason)
    then show ?thesis using assms(1) stop_allowed by (simp add: redelivery_plan_def Let_def)
  next
    case None
    then have "authorized_redelivery_plan ctx fresh ?items pending snapshot timestamp ?templates = Inr p"
      using assms(1) by (simp add: redelivery_plan_def Let_def)
    then obtain rs decisions where rs: "redeliver_loop ctx ?templates fresh 0 (set (map ai_attempt_id (plan_attempts (recovery_plan ctx))))
        (set (map ScheduleItem.schedule_entry_id (snapshot_entries snapshot)) \<union> consumed_entry_ids snapshot) ?items = Inr rs"
      and p: "ResumePolicyPlan_post_init
       \<lparr>rp_run_id = plan_run_id (recovery_plan ctx), rp_owner_epoch = plan_owner_epoch (recovery_plan ctx),
        requested_policy = Some AmbiguityPolicy.REDELIVER, effective_policy = AmbiguityPolicy.REDELIVER,
        rp_disposition = ResumeDisposition.CONTINUE, rp_result_category = None, rp_exit_code = None,
        ambiguous_attempt_ids = map ai_attempt_id ?items, rp_decisions = decisions,
        rp_redeliveries = rs, rp_observations = [],
        runnable_schedule = sort_key order_key (fst (partition_linked_schedule pending ?items) @ map rd_schedule_item rs),
        deferred_schedule = snd (partition_linked_schedule pending ?items)\<rparr> = Inr p"
      unfolding authorized_redelivery_plan_def Let_def case_prod_beta and_then_eq_Inr by blast
    have ok: "policy_plan_ok p" using p by (simp only: policy_plan_eq_Inr)
    have fields: "rp_disposition p = ResumeDisposition.CONTINUE" "rp_redeliveries p = rs" "rp_observations p = []"
      "runnable_schedule p = sort_key order_key (fst (partition_linked_schedule pending ?items) @ map rd_schedule_item rs)"
      "deferred_schedule p = snd (partition_linked_schedule pending ?items)"
      using p by (simp_all add: policy_plan_eq_Inr)
    have authorized: "\<forall>i \<in> set ?items. template_authorizes bundle i" using redelivery_authorized(2)[OF None] by blast
    have "plan_allowed ctx bundle v pending p"
      by (rule redelivery[OF fields(1) assms(2,3) fields(3) authorized])
        (simp_all only: fields redelivery_authorized(1)[OF None] redeliver_loop_redelivers[OF rs])
    with ok show ?thesis by simp
  qed
qed

lemma build_plan_allowed:
  assumes "build_plan fresh ctx bundle v schedule timestamp = Inr p"
  obtains pending where "pending_schedule schedule = Inr pending" "plan_allowed ctx bundle v pending p" "policy_plan_ok p"
proof -
  let ?items = "unresolved_ambiguous_attempts (recovery_plan ctx)"
  obtain pending where pending: "pending_schedule schedule = Inr pending" and rest:
    "(if cancel_requested v then
       (if ?items \<noteq> [] then stop_plan ctx (on_ambiguous v) ?items pending timestamp
          ''cancellation_preserved_unresolved_ambiguity''
        else cancelled_plan ctx v pending)
     else if ?items = [] then continue_without_ambiguity ctx v pending
     else case on_ambiguous v of
         None \<Rightarrow> stop_plan ctx None ?items pending timestamp ''default_stop''
       | Some AmbiguityPolicy.STOP \<Rightarrow> stop_plan ctx (Some AmbiguityPolicy.STOP) ?items pending timestamp ''explicit_stop''
       | Some AmbiguityPolicy.OBSERVE \<Rightarrow> observe_plan ctx bundle ?items pending timestamp
       | Some AmbiguityPolicy.OPERATOR_DECISION \<Rightarrow> operator_plan ctx v ?items pending timestamp
       | Some AmbiguityPolicy.REDELIVER \<Rightarrow> redelivery_plan ctx fresh bundle ?items pending schedule timestamp) = Inr p"
    using assms unfolding build_plan_def Let_def and_then_eq_Inr by blast
  have "plan_allowed ctx bundle v pending p \<and> policy_plan_ok p"
  proof (cases "cancel_requested v")
    case True
    show ?thesis
    proof (cases "?items = []")
      case True
      then have "cancelled_plan ctx v pending = Inr p" using rest \<open>cancel_requested v\<close> by simp
      from cancelled_plan_fields[OF this] show ?thesis by (auto intro: held)
    next
      case False
      then show ?thesis using rest \<open>cancel_requested v\<close> stop_allowed by simp
    qed
  next
    case False
    note active = this
    show ?thesis
    proof (cases "?items = []")
      case True
      then have "continue_without_ambiguity ctx v pending = Inr p" using rest active by simp
      from continue_fields[OF this] True active show ?thesis by (auto intro: clear)
    next
      case False
      note nonempty = this
      consider "on_ambiguous v = None" | "on_ambiguous v = Some AmbiguityPolicy.STOP"
        | "on_ambiguous v = Some AmbiguityPolicy.OBSERVE" | "on_ambiguous v = Some AmbiguityPolicy.OPERATOR_DECISION"
        | "on_ambiguous v = Some AmbiguityPolicy.REDELIVER"
        by (cases "on_ambiguous v") (auto intro: AmbiguityPolicy.exhaust)
      then show ?thesis
      proof cases
        case 3
        then have "observe_plan ctx bundle ?items pending timestamp = Inr p" using rest active nonempty by simp
        from observe_plan_fields[OF this] 3 active show ?thesis by (auto intro: held)
      next
        case 4
        then have "operator_plan ctx v ?items pending timestamp = Inr p" using rest active nonempty by simp
        from operator_plan_fields[OF this] 4 active show ?thesis by (auto intro: held operator)
      next
        case 5
        then show ?thesis using rest active nonempty redelivery_allowed by simp
      qed (use rest active nonempty stop_allowed in simp_all)
    qed
  qed
  with pending show thesis using that by blast
qed

section \<open>The schedule of a plan\<close>

lemma pending_schedule_facts:
  assumes "pending_schedule schedule = Inr pending"
  shows "set pending = {e \<in> set (snapshot_entries schedule). ScheduleItem.schedule_entry_id e \<notin> consumed_entry_ids schedule}"
    "sorted (map order_key pending)"
proof -
  obtain q where q: "reconstruct (snapshot_entries schedule) (consumed_entry_ids schedule) MAX_POLICY_ITEMS = Inr q"
    "pending = queue_snapshot q"
    using assms by (auto simp: pending_schedule_def split: sum.splits exn.splits)
  then show "set pending = {e \<in> set (snapshot_entries schedule). ScheduleItem.schedule_entry_id e \<notin> consumed_entry_ids schedule}"
    "sorted (map order_key pending)"
    using reconstruct_eq_Inr(3)[OF q(1)] by simp_all
qed

lemma reconstruct_returns:
  assumes "distinct (map ScheduleItem.schedule_entry_id entries)" "int (length entries) \<le> MAX_POLICY_ITEMS"
  obtains q where "reconstruct entries consumed MAX_POLICY_ITEMS = Inr q"
proof -
  obtain q0 where q0: "PersistentPriorityQueue_init MAX_POLICY_ITEMS = Inr q0"
    by (simp add: PersistentPriorityQueue_init_def MAX_POLICY_ITEMS_def MAX_SCHEDULE_ITEMS_def)
  let ?rows = "{x \<in> set entries. ScheduleItem.schedule_entry_id x \<notin> consumed}"
  have "inj_on ScheduleItem.schedule_entry_id ?rows"
    using assms(1) by (auto simp: distinct_map intro: inj_on_subset)
  moreover have "int (card ?rows) \<le> MAX_POLICY_ITEMS"
    using card_mono[of "set entries" ?rows] card_length[of entries] assms(2) by auto
  ultimately have "\<exists>q'. reconstruct_from entries consumed q0 = Inr q'"
    using init_pending[OF q0] init_maximum[OF q0] by (intro reconstruct_from_returns[OF queue_init_inv[OF q0]]) simp_all
  then show thesis using q0 that by (auto simp: reconstruct_def)
qed

lemma partition_schedule:
  "set (fst (partition_linked_schedule pending items)) \<union> set (snd (partition_linked_schedule pending items)) = set pending"
  "sorted (map order_key pending) \<Longrightarrow> sorted (map order_key (fst (partition_linked_schedule pending items)))"
  by (auto simp: partition_linked_schedule_def intro: sorted_filter)

lemma allowed_schedule:
  assumes "plan_allowed ctx bundle v pending p" "sorted (map order_key pending)"
  shows "set (runnable_schedule p) \<union> set (deferred_schedule p) = set pending \<union> rd_schedule_item ` set (rp_redeliveries p) \<and>
    sorted (map order_key (runnable_schedule p)) \<and>
    (\<forall>e \<in> set (runnable_schedule p). schedule_scope e \<notin> linked_scopes (unresolved_ambiguous_attempts (recovery_plan ctx)) \<or>
       e \<in> rd_schedule_item ` set (rp_redeliveries p))"
  using assms(1)
proof (cases rule: plan_allowed.cases)
  case operator
  then show ?thesis using assms(2) by (auto simp: partition_linked_schedule_def intro: sorted_filter)
next
  case redelivery
  then show ?thesis by (auto simp: partition_linked_schedule_def)
qed (use assms(2) in \<open>simp_all add: linked_scopes_def\<close>)

lemma snapshot_of_sorted:
  assumes "queue_inv q" "pending_items q = set xs" "sorted (map order_key xs)"
    and "distinct (map ScheduleItem.schedule_entry_id xs)"
  shows "queue_snapshot q = xs"
proof -
  have inj: "inj_on order_key (set xs)"
    using assms(4) by (auto simp: distinct_map inj_on_def order_key_def)
  have "sort_key order_key (queue_snapshot q) = sort_key order_key xs"
    using assms(2,4) inj snapshot_distinct[OF assms(1)] snapshot_set[of q]
    by (intro sort_key_perm_eq) (simp_all add: distinct_map)
  moreover have "sort_key order_key (queue_snapshot q) = queue_snapshot q" "sort_key order_key xs = xs"
    using assms(3) by (simp_all add: sort_key_id_if_sorted)
  ultimately show ?thesis by simp
qed

end
