(* ===== verification/Resume_Guarantees.thy ===== *)
theory Resume_Guarantees
  imports Resume_Policy Recovery_Scanner
begin

text \<open>
  What the resume-policy engine guarantees: no delivery without consent, a conserved schedule, a history that the
  next scan accepts after a redelivery, and a plan for every valid input of the policies that do not redeliver.
\<close>

section \<open>Properties\<close>

text \<open>C1. Nothing is delivered without consent. A plan that does not continue exposes no runnable work and
  creates no attempt; a cancelled invocation never continues; with an unresolved ambiguity a plan continues
  only under the explicit redelivery policy, with a bundle template for the very event and delivery of every
  ambiguous attempt, each a terminal unknown outcome, or under the operator policy, with a settled directive for
  every ambiguous attempt, signed when nobody is at the console; and new attempts are only ever created under
  the explicit redelivery policy.\<close>

theorem no_delivery_without_consent:
  assumes "build_plan fresh ctx bundle v schedule timestamp = Inr p"
  shows "(\<not> delivery_execution_allowed p \<longrightarrow> runnable_schedule p = [] \<and> rp_redeliveries p = []) \<and>
    (cancel_requested v \<longrightarrow> \<not> delivery_execution_allowed p) \<and>
    (contains_ambiguity (recovery_plan ctx) \<and> delivery_execution_allowed p \<longrightarrow>
       on_ambiguous v = Some AmbiguityPolicy.REDELIVER \<and>
         (\<forall>i \<in> set (unresolved_ambiguous_attempts (recovery_plan ctx)). template_authorizes bundle i) \<or>
       on_ambiguous v = Some AmbiguityPolicy.OPERATOR_DECISION \<and>
         (\<forall>i \<in> set (unresolved_ambiguous_attempts (recovery_plan ctx)). operator_settled v i)) \<and>
    (rp_redeliveries p \<noteq> [] \<longrightarrow> on_ambiguous v = Some AmbiguityPolicy.REDELIVER) \<and>
    (observer_contact_allowed p \<longrightarrow> on_ambiguous v = Some AmbiguityPolicy.OBSERVE)"
proof -
  obtain pending where "plan_allowed ctx bundle v pending p" using build_plan_allowed[OF assms] by blast
  then show ?thesis
    unfolding delivery_execution_allowed_def contains_ambiguity_def observer_contact_allowed_def
    by (cases rule: plan_allowed.cases) simp_all
qed

text \<open>C6. The schedule is conserved. The runnable and the deferred work of a plan are disjoint and together they are
  exactly the unconsumed rows of the persisted schedule and the entries of the new attempts; no work that belongs to
  the delivery of an ambiguous attempt is runnable, except the new attempts themselves; and rebuilding the
  scheduler's queue from the plan succeeds and lists the runnable work in its order.\<close>

theorem resume_schedule_conserved:
  assumes "build_plan fresh ctx bundle v schedule timestamp = Inr p"
  shows "set (runnable_schedule p) \<union> set (deferred_schedule p) =
      {e \<in> set (snapshot_entries schedule). ScheduleItem.schedule_entry_id e \<notin> consumed_entry_ids schedule} \<union>
      rd_schedule_item ` set (rp_redeliveries p) \<and>
    set (runnable_schedule p) \<inter> set (deferred_schedule p) = {} \<and>
    (\<forall>e \<in> set (runnable_schedule p).
       schedule_scope e \<notin> linked_scopes (unresolved_ambiguous_attempts (recovery_plan ctx)) \<or>
       e \<in> rd_schedule_item ` set (rp_redeliveries p)) \<and>
    (\<exists>q. reconstruct_queue p = Inr q \<and> queue_snapshot q = runnable_schedule p)"
proof -
  obtain pending where pending: "pending_schedule schedule = Inr pending"
    and allowed: "plan_allowed ctx bundle v pending p" and ok: "policy_plan_ok p"
    using build_plan_allowed[OF assms] .
  note schedule = pending_schedule_facts[OF pending]
  note facts = allowed_schedule[OF allowed schedule(2)]
  have distinct: "distinct (map ScheduleItem.schedule_entry_id (runnable_schedule p @ deferred_schedule p))"
    using ok by (simp add: policy_plan_ok_def)
  then have runnable: "distinct (map ScheduleItem.schedule_entry_id (runnable_schedule p))" by simp
  have "int (length (runnable_schedule p)) \<le> MAX_POLICY_ITEMS"
    using ok by (simp add: policy_plan_ok_def policy_limit_def)
  from reconstruct_returns[OF runnable this, where consumed = "{}"]
  obtain q where q: "reconstruct (runnable_schedule p) {} MAX_POLICY_ITEMS = Inr q" .
  have "queue_snapshot q = runnable_schedule p"
    using reconstruct_eq_Inr[OF q] facts runnable by (intro snapshot_of_sorted) simp_all
  moreover have "reconstruct_queue p = Inr q" using q by (simp add: reconstruct_queue_def)
  moreover have "set (runnable_schedule p) \<inter> set (deferred_schedule p) = {}"
    using distinct by (auto simp: distinct_map)
  ultimately show ?thesis using facts schedule(1) by blast
qed

section \<open>Redelivery extends the history\<close>

text \<open>The item of a new attempt as the next scan sees it, before anything was sent.\<close>

definition attempt_after :: "AttemptRecoveryItem \<Rightarrow> RedeliveryAttemptPlan \<Rightarrow> AttemptRecoveryItem" where
  "attempt_after i r = i\<lparr>ai_attempt_id := rd_attempt_id r, ai_attempt_ordinal := rd_attempt_ordinal r,
     ai_prior_state := AttemptState.SCHEDULED, durable_no_send_proof := DurableNoSendProof.NONE,
     ai_action := AttemptRecoveryAction.RESUME_SCHEDULED, ambiguity := RecoveryAmbiguity.NONE, ai_target_state := None,
     ai_predecessor_attempt_id := Some (rd_predecessor_attempt_id r), response_staging := None\<rparr>"

definition attempts_after :: "RecoveryPlan \<Rightarrow> RedeliveryAttemptPlan list \<Rightarrow> AttemptRecoveryItem list" where
  "attempts_after plan rs = plan_attempts plan @ map2 attempt_after (unresolved_ambiguous_attempts plan) rs"

lemma attempts_after_new:
  assumes "list_all2 redelivers items rs"
  shows "map ai_attempt_id (map2 attempt_after items rs) = map rd_attempt_id rs"
    "List.map_filter ai_predecessor_attempt_id (map2 attempt_after items rs) = map ai_attempt_id items"
    "n \<in> set (map2 attempt_after items rs) \<Longrightarrow> \<exists>i \<in> set items. ai_predecessor_attempt_id n = Some (ai_attempt_id i) \<and> coordinates_follow n i"
  using assms
  by (induction rule: list_all2_induct)
    (auto simp: attempt_after_def redelivers_def List.map_filter_def coordinates_follow_def)

lemma map_filter_append [simp]: "List.map_filter f (xs @ ys) = List.map_filter f xs @ List.map_filter f ys"
  by (simp add: List.map_filter_def)

lemma history_extends:
  assumes ok: "recovery_plan_ok plan" and new: "list_all2 redelivers (unresolved_ambiguous_attempts plan) rs"
    and ids: "distinct (map rd_attempt_id rs)" "set (map rd_attempt_id rs) \<inter> set (map ai_attempt_id (plan_attempts plan)) = {}"
  shows "distinct (map ai_attempt_id (attempts_after plan rs))" "validate_attempt_predecessors (attempts_after plan rs) = Inr ()"
proof -
  let ?items = "unresolved_ambiguous_attempts plan"
  let ?new = "map2 attempt_after ?items rs"
  note facts = attempts_after_new[OF new]
  show distinct: "distinct (map ai_attempt_id (attempts_after plan rs))"
    using ok ids unfolding attempts_after_def map_append facts(1) recovery_plan_ok_def by auto
  have members: "?items = filter (\<lambda>i. i \<in> set ?items) (plan_attempts plan)"
    by (auto simp: unresolved_ambiguous_attempts_def Let_def intro: filter_cong)
  have "distinct (map ai_attempt_id ?items)"
    using ok unfolding recovery_plan_ok_def by (metis distinct_map_filter members)
  moreover have "set (map ai_attempt_id ?items) \<inter> set (List.map_filter ai_predecessor_attempt_id (plan_attempts plan)) = {}"
    by (auto simp: unresolved_ambiguous_attempts_def Let_def)
  ultimately have preds: "distinct (List.map_filter ai_predecessor_attempt_id (attempts_after plan rs))"
    using ok unfolding attempts_after_def map_filter_append facts(2) recovery_plan_ok_def by auto
  have "\<exists>p \<in> set (attempts_after plan rs). ai_attempt_id p = q \<and> coordinates_follow n p"
    if member: "n \<in> set (attempts_after plan rs)" and pred: "ai_predecessor_attempt_id n = Some q" for n q
  proof (cases "n \<in> set (plan_attempts plan)")
    case True
    then obtain j where "j \<in> set (plan_attempts plan)" "ai_attempt_id j = q" "coordinates_follow n j"
      using ok pred unfolding recovery_plan_ok_def by blast
    then show ?thesis unfolding attempts_after_def by auto
  next
    case False
    then have "n \<in> set ?new" using member by (simp add: attempts_after_def)
    from facts(3)[OF this] pred obtain i where "i \<in> set ?items" "q = ai_attempt_id i" "coordinates_follow n i" by auto
    then show ?thesis by (auto simp: attempts_after_def unresolved_iff)
  qed
  then have "predecessors_ok (attempts_by_id (attempts_after plan rs)) (attempts_after plan rs)"
    unfolding predecessors_ok_def attempts_by_id_iff[OF distinct] by blast
  with preds show "validate_attempt_predecessors (attempts_after plan rs) = Inr ()"
    by (simp add: validate_attempt_predecessors_def predecessor_loop_eq_Inr)
qed

lemma resolved_after:
  assumes "list_all2 redelivers (unresolved_ambiguous_attempts plan) rs"
  shows "i \<in> set (attempts_after plan rs) \<Longrightarrow> ambiguity i \<noteq> RecoveryAmbiguity.NONE \<Longrightarrow>
    ai_attempt_id i \<in> set (List.map_filter ai_predecessor_attempt_id (attempts_after plan rs))"
proof -
  assume i: "i \<in> set (attempts_after plan rs)" "ambiguity i \<noteq> RecoveryAmbiguity.NONE"
  have "ambiguity n = RecoveryAmbiguity.NONE" if "n \<in> set (map2 attempt_after (unresolved_ambiguous_attempts plan) rs)" for n
    using that by (auto simp: attempt_after_def)
  with i have "i \<in> set (plan_attempts plan)" by (auto simp: attempts_after_def)
  then show "ai_attempt_id i \<in> set (List.map_filter ai_predecessor_attempt_id (attempts_after plan rs))"
    using i(2) unfolding attempts_after_def map_filter_append attempts_after_new(2)[OF assms]
    by (auto simp: unresolved_ambiguous_attempts_def Let_def)
qed

text \<open>C5. A redelivery extends the history without rewriting it. If a plan for a valid recovery plan creates
  attempts, there is exactly one per unresolved ambiguous attempt, in order, each a new attempt of the same
  delivery with the next ordinal and an identifier never used before; with them appended the recovery inventory
  still passes the predecessor checks, and no attempt of it is left unresolved, so the next resume asks for
  nothing again.\<close>

theorem redelivery_extends_history:
  assumes "build_plan fresh ctx bundle v schedule timestamp = Inr p"
    and "RecoveryPlan_post_init (recovery_plan ctx) = Inr (recovery_plan ctx)" "rp_redeliveries p \<noteq> []"
  shows "list_all2 redelivers (unresolved_ambiguous_attempts (recovery_plan ctx)) (rp_redeliveries p) \<and>
    distinct (map ai_attempt_id (attempts_after (recovery_plan ctx) (rp_redeliveries p))) \<and>
    validate_attempt_predecessors (attempts_after (recovery_plan ctx) (rp_redeliveries p)) = Inr () \<and>
    unresolved_ambiguous_attempts ((recovery_plan ctx)\<lparr>plan_attempts := attempts_after (recovery_plan ctx) (rp_redeliveries p)\<rparr>) = []"
proof -
  obtain pending where "plan_allowed ctx bundle v pending p" using build_plan_allowed[OF assms(1)] by blast
  then have new: "list_all2 redelivers (unresolved_ambiguous_attempts (recovery_plan ctx)) (rp_redeliveries p)"
    and ids: "distinct (map rd_attempt_id (rp_redeliveries p))"
      "set (map rd_attempt_id (rp_redeliveries p)) \<inter> set (map ai_attempt_id (plan_attempts (recovery_plan ctx))) = {}"
    using assms(3) by (cases rule: plan_allowed.cases; simp)+
  have ok: "recovery_plan_ok (recovery_plan ctx)" using assms(2) by (simp add: recovery_plan_eq_Inr)
  have "unresolved_ambiguous_attempts ((recovery_plan ctx)\<lparr>plan_attempts := attempts_after (recovery_plan ctx) (rp_redeliveries p)\<rparr>) = []"
    using resolved_after[OF new] by (auto simp: unresolved_ambiguous_attempts_def Let_def filter_empty_conv)
  with history_extends[OF ok new ids] new show ?thesis by simp
qed

section \<open>Planning always returns\<close>

lemma decision_id_token:
  assumes "returns (validate_fresh_id a (Some FreshIdKind.ATTEMPT))" "0 \<le> epoch" "epoch \<le> MAX_OWNER_EPOCH"
  shows "bounded_token 96 (''resume.'' @ int_str epoch @ ''.'' @ ambiguity_policy_value pol @ ''.'' @ a)"
proof -
  have "nat epoch < 10 ^ 19" using assms(2,3) by (simp add: MAX_OWNER_EPOCH_def nat_less_iff)
  then have "length (int_str epoch) \<le> 19" using assms(2) nat_str_length[of "nat epoch" 19] by (simp add: int_str_def)
  moreover have "list_all token_char (int_str epoch)"
    using assms(2) nat_str_digits[of "nat epoch"]
    by (auto simp: int_str_def list_all_iff decimal_char_def token_char_def in_char_range_def)
  moreover have "list_all (\<lambda>pol. list_all token_char (''resume.'' @ ''.'' @ ambiguity_policy_value pol) \<and>
      length (ambiguity_policy_value pol) \<le> 17)
    [AmbiguityPolicy.STOP, AmbiguityPolicy.OBSERVE, AmbiguityPolicy.REDELIVER, AmbiguityPolicy.OPERATOR_DECISION]"
    by code_simp
  then have "list_all token_char (''resume.'' @ ''.'' @ ambiguity_policy_value pol) \<and> length (ambiguity_policy_value pol) \<le> 17"
    by (cases pol) auto
  ultimately show ?thesis using fresh_id_text[OF assms(1)] by (simp add: bounded_token_def)
qed

lemma bounded_text_literal:
  assumes "list_all (\<lambda>c. 32 \<le> (of_char c :: nat) \<and> (of_char c :: nat) < 127) s" "s \<noteq> []" "length s \<le> maximum"
  shows "bounded_text (text_of s) name maximum = Inr ()"
proof -
  have "ascii s" using assms(1) by (auto simp: ascii_def list_all_iff)
  moreover have "\<not> list_ex (\<lambda>c. c < 32 \<or> c = 127) (text_of s)"
    using assms(1) by (auto simp: text_of_def list_ex_iff list_all_iff)
  ultimately show ?thesis
    using assms(2,3) by (simp add: bounded_text_def utf8_encode_ascii) (simp add: text_of_def)
qed

lemma bounded_text_name: "bounded_text t name maximum = Inr u \<Longrightarrow> bounded_text t name' maximum = Inr u"
  by (auto simp: bounded_text_def and_then_eq_Inr split: sum.splits)

definition policy_reasons :: "string list" where
  "policy_reasons = [''cancellation_preserved_unresolved_ambiguity'', ''default_stop'', ''explicit_stop'',
     ''observe_requires_read_only_idempotent_decisive_rule'', ''operator_decision_set_is_incomplete'',
     ''noninteractive_operator_policy_is_unsigned'', ''configured_read_only_observer_and_decisive_assertions'',
     ''multiple_unresolved_attempts_share_one_delivery'', ''ambiguity_is_not_a_terminal_unknown_outcome'',
     ''scenario_redelivery_authorization_is_missing'', ''scenario_redelivery_authorization_identity_mismatch'',
     ''explicit_bundle_and_invocation_redelivery'']"

lemma reasons_bounded: "reason \<in> set policy_reasons \<Longrightarrow> bounded_text (text_of reason) name MAX_REASON_BYTES = Inr ()"
proof -
  assume "reason \<in> set policy_reasons"
  moreover have "list_all (\<lambda>s. list_all (\<lambda>c. 32 \<le> (of_char c :: nat) \<and> (of_char c :: nat) < 127) s \<and> s \<noteq> [] \<and> length s \<le> 100)
      policy_reasons"
    by code_simp
  ultimately show ?thesis by (intro bounded_text_literal) (auto simp: list_all_iff MAX_REASON_BYTES_def)
qed

text \<open>Valid inputs: validated objects, a live timestamp, and no more ambiguous attempts than the engine's bound.\<close>

definition resume_inputs_ok :: "ResumePolicyContext \<Rightarrow> BundleRecoveryPolicy \<Rightarrow> ResumeInvocationPolicy \<Rightarrow>
    PersistedScheduleSnapshot \<Rightarrow> TransitionTimestamp \<Rightarrow> bool" where
  "resume_inputs_ok ctx bundle v schedule timestamp \<longleftrightarrow> recovery_plan_ok (recovery_plan ctx) \<and>
     (\<forall>i \<in> set (plan_attempts (recovery_plan ctx)). attempt_coordinates_ok i) \<and>
     policy_limit (unresolved_ambiguous_attempts (recovery_plan ctx)) \<and>
     (\<forall>r \<in> set (observation_rules bundle). ObservationReconciliationRule_post_init r = Inr r) \<and>
     (\<forall>d \<in> set (operator_decisions v). OperatorDecisionDirective_post_init d = Inr d) \<and>
     PersistedScheduleSnapshot_post_init schedule = Inr schedule \<and> is_live timestamp"

definition decision_context_ok :: "ResumePolicyContext \<Rightarrow> AttemptRecoveryItem list \<Rightarrow> TransitionTimestamp \<Rightarrow> bool" where
  "decision_context_ok ctx items timestamp \<longleftrightarrow> returns (validate_run_id (plan_run_id (recovery_plan ctx))) \<and>
     0 \<le> plan_owner_epoch (recovery_plan ctx) \<and> plan_owner_epoch (recovery_plan ctx) \<le> MAX_OWNER_EPOCH \<and>
     (\<forall>i \<in> set items. attempt_coordinates_ok i) \<and> distinct (map ai_attempt_id items) \<and> policy_limit items \<and> is_live timestamp"

lemma decision_returns:
  assumes "decision_context_ok ctx items timestamp" "i \<in> set items"
    and "bounded_text reason ''decision reason'' MAX_REASON_BYTES = Inr ()"
    and "length evidence \<le> MAX_EVIDENCE_REFERENCES" "distinct evidence"
    and "case (fingerprint, digest) of (Some f, Some d) \<Rightarrow> pol = AmbiguityPolicy.OPERATOR_DECISION \<and>
        returns (validate_sha256_digest f) \<and> returns (validate_sha256_digest d)
      | _ \<Rightarrow> pol \<noteq> AmbiguityPolicy.OPERATOR_DECISION"
  shows "\<exists>d. decision_for ctx i pol kind reason timestamp evidence fingerprint digest = Inr d \<and>
    dec_run_id d = plan_run_id (recovery_plan ctx)"
proof -
  have coords: "attempt_coordinates_ok i" using assms(1,2) by (simp add: decision_context_ok_def)
  then have ids: "returns (validate_planned_id (ai_scenario_id i) (Some PlannedIdKind.SCENARIO))"
    "returns (validate_fresh_id (ai_attempt_id i) (Some FreshIdKind.ATTEMPT))"
    by (simp_all add: attempt_coordinates_ok_def)
  have "bounded_token 96 (''resume.'' @ int_str (plan_owner_epoch (recovery_plan ctx)) @ ''.'' @
      ambiguity_policy_value pol @ ''.'' @ ai_attempt_id i)"
    using assms(1) by (intro decision_id_token ids(2)) (simp_all add: decision_context_ok_def)
  moreover have "\<not> length evidence > MAX_EVIDENCE_REFERENCES" "length (remdups evidence) = length evidence"
    using assms(4,5) by (simp_all add: distinct_remdups_id)
  ultimately show ?thesis
    using assms(1,3,6) ids unfolding decision_for_def RecoveryDecisionPlan_post_init_def decision_context_ok_def
    by (auto simp: policy_token_def returns_iff validate_operator_fields_def split: option.splits)
qed

lemma for_each_decisions:
  assumes "\<And>x. x \<in> set xs \<Longrightarrow> \<exists>d. f x = Inr d \<and> dec_run_id d = run_id"
  shows "\<exists>ds. for_each f xs = Inr ds \<and> (\<forall>d \<in> set ds. dec_run_id d = run_id) \<and> length ds = length xs"
  using assms
proof (induction xs)
  case (Cons x xs)
  obtain d where "f x = Inr d" "dec_run_id d = run_id" using Cons.prems[of x] by auto
  moreover obtain ds where "for_each f xs = Inr ds" "\<forall>d \<in> set ds. dec_run_id d = run_id" "length ds = length xs"
    using Cons by auto
  ultimately show ?case by simp
qed simp

lemma plan_accepted:
  assumes "decision_context_ok ctx items timestamp" "rp_run_id p = plan_run_id (recovery_plan ctx)"
    "rp_owner_epoch p = plan_owner_epoch (recovery_plan ctx)"
    and "rp_exit_code p = map_option (\<lambda>c. snd (exit_for_result c)) (rp_result_category p)"
    "rp_disposition p \<in> {ResumeDisposition.STOP_AMBIGUOUS, ResumeDisposition.CANCELLED} \<longrightarrow> rp_result_category p \<noteq> None"
    and "ambiguous_attempt_ids p = map ai_attempt_id items \<or> ambiguous_attempt_ids p = []"
    and "\<forall>d \<in> set (rp_decisions p). dec_run_id d = plan_run_id (recovery_plan ctx)"
    "length (rp_decisions p) \<le> length items" "length (rp_observations p) \<le> length items" "length (rp_redeliveries p) \<le> length items"
    and "\<forall>r \<in> set (rp_redeliveries p). rd_run_id r = plan_run_id (recovery_plan ctx)"
    and "distinct (map ScheduleItem.schedule_entry_id (runnable_schedule p @ deferred_schedule p))"
    "policy_limit (runnable_schedule p @ deferred_schedule p)"
  shows "ResumePolicyPlan_post_init p = Inr p"
proof -
  have "\<forall>i \<in> set items. returns (validate_fresh_id (ai_attempt_id i) (Some FreshIdKind.ATTEMPT))"
    using assms(1) by (simp add: decision_context_ok_def attempt_coordinates_ok_def)
  moreover have "policy_limit (rp_decisions p)" "policy_limit (rp_observations p)" "policy_limit (rp_redeliveries p)"
    using assms(1,8,9,10) by (simp_all add: decision_context_ok_def policy_limit_def MAX_POLICY_ITEMS_def MAX_SCHEDULE_ITEMS_def)
  ultimately show ?thesis
    using assms unfolding policy_plan_eq_Inr policy_plan_ok_def decision_context_ok_def
    by (auto simp: MAX_OWNER_EPOCH_def)
qed

lemma stop_plan_returns:
  assumes "decision_context_ok ctx items timestamp" "reason \<in> set policy_reasons"
    and "distinct (map ScheduleItem.schedule_entry_id pending)" "policy_limit pending"
  shows "\<exists>p. stop_plan ctx requested items pending timestamp reason = Inr p"
proof -
  have "\<exists>d. decision_for ctx i AmbiguityPolicy.STOP RecoveryDecisionKind.STOPPED_AMBIGUOUS (text_of reason) timestamp [] None None = Inr d \<and>
      dec_run_id d = plan_run_id (recovery_plan ctx)" if "i \<in> set items" for i
    using that assms(1) reasons_bounded[OF assms(2)] by (intro decision_returns) simp_all
  from for_each_decisions[where f = "\<lambda>i. decision_for ctx i AmbiguityPolicy.STOP RecoveryDecisionKind.STOPPED_AMBIGUOUS
      (text_of reason) timestamp [] None None" and xs = items, OF this]
  obtain ds where ds: "for_each (\<lambda>i. decision_for ctx i AmbiguityPolicy.STOP RecoveryDecisionKind.STOPPED_AMBIGUOUS
      (text_of reason) timestamp [] None None) items = Inr ds" "\<forall>d \<in> set ds. dec_run_id d = plan_run_id (recovery_plan ctx)"
    "length ds = length items" by blast
  show ?thesis
    unfolding stop_plan_def ds(1) and_then_Inr
    by (rule exI, rule plan_accepted[OF assms(1)]) (use ds assms(3,4) in simp_all)
qed

lemma for_each_all: "(\<And>x. x \<in> set xs \<Longrightarrow> f x = Inr (g x)) \<Longrightarrow> for_each f xs = Inr (map g xs)"
  by (induction xs) auto

lemma select_rules_Some:
  "select_rules rules items = Some selected \<Longrightarrow> list_all2 (\<lambda>i r. rules (item_scope i) = Some r) items selected"
  by (induction items arbitrary: selected) (auto split: option.splits if_splits)

lemma zip_map_zip: "length xs = length ys \<Longrightarrow> zip xs (map g (zip xs ys)) = map (\<lambda>p. (fst p, g p)) (zip xs ys)"
  by (induction xs ys rule: list_induct2) auto

lemma reference_token:
  assumes "lower_identifier 64 kind" "bounded_token 96 a"
  shows "reference kind a = Inr \<lparr>evidence_kind = kind, evidence_id = a\<rparr>"
  using assms by (simp add: reference_def RecoveryEvidenceReference_post_init_def policy_identifier_def policy_token_def)

lemma reference_returns:
  assumes "lower_identifier 64 kind" "returns (validate_planned_id a (Some k))"
  shows "reference kind a = Inr \<lparr>evidence_kind = kind, evidence_id = a\<rparr>"
  using planned_id_text[OF assms(2)] by (intro reference_token[OF assms(1)]) (simp add: bounded_token_def)

lemma observation_decision_returns:
  assumes "decision_context_ok ctx items timestamp" "i \<in> set items" "ObservationReconciliationRule_post_init r = Inr r"
    and "op_observation_id o' = rule_observation_id r" "op_assertion_ids o' = rule_assertion_ids r"
  shows "\<exists>d. observation_decision ctx timestamp (i, o') = Inr d \<and> dec_run_id d = plan_run_id (recovery_plan ctx)"
proof -
  let ?ref = "\<lambda>kind a. \<lparr>evidence_kind = kind, evidence_id = a\<rparr>"
  have rule: "returns (validate_planned_id (rule_observation_id r) (Some PlannedIdKind.OBSERVATION))"
    "\<forall>a \<in> set (rule_assertion_ids r). returns (validate_planned_id a (Some PlannedIdKind.ASSERTION))"
    "length (rule_assertion_ids r) < MAX_EVIDENCE_REFERENCES" "distinct (rule_assertion_ids r)"
    using assms(3) for_each_unit_ok[of "\<lambda>a. validate_planned_id a (Some PlannedIdKind.ASSERTION)" "rule_assertion_ids r"]
    by (auto simp: ObservationReconciliationRule_post_init_def and_then_eq_Inr distinct_remdups_length returns_iff)
  have kinds: "lower_identifier 64 ''observation''" "lower_identifier 64 ''assertion''" by code_simp+
  have refs: "reference ''observation'' (rule_observation_id r) = Inr (?ref ''observation'' (rule_observation_id r))"
    "for_each (reference ''assertion'') (rule_assertion_ids r) = Inr (map (?ref ''assertion'') (rule_assertion_ids r))"
    using rule(1,2) by (auto intro!: reference_returns[OF kinds(1)] for_each_all reference_returns[OF kinds(2)])
  have "distinct (map (?ref ''assertion'') (rule_assertion_ids r))" using rule(4) by (simp add: distinct_map inj_on_def)
  then have evidence: "distinct (?ref ''observation'' (rule_observation_id r) # map (?ref ''assertion'') (rule_assertion_ids r))"
    "length (?ref ''observation'' (rule_observation_id r) # map (?ref ''assertion'') (rule_assertion_ids r)) \<le> MAX_EVIDENCE_REFERENCES"
    using rule(3) by auto
  have "''configured_read_only_observer_and_decisive_assertions'' \<in> set policy_reasons" by (simp add: policy_reasons_def)
  from decision_returns[OF assms(1,2) reasons_bounded[OF this] evidence(2,1), where fingerprint = None and digest = None
      and pol = AmbiguityPolicy.OBSERVE and kind = RecoveryDecisionKind.OBSERVATION_REQUESTED]
  show ?thesis unfolding observation_decision_def prod.case assms(4,5) refs and_then_Inr by simp
qed

lemma observation_plan_returns:
  assumes "attempt_coordinates_ok i" "ObservationReconciliationRule_post_init r = Inr r"
  shows "observation_plan (i, r) = Inr \<lparr>op_attempt_id = ai_attempt_id i, op_scenario_id = ai_scenario_id i,
    op_delivery_id = ai_delivery_id i, op_observation_id = rule_observation_id r, op_assertion_ids = rule_assertion_ids r\<rparr>"
proof -
  have "returns (validate_planned_id (rule_observation_id r) (Some PlannedIdKind.OBSERVATION))" "rule_assertion_ids r \<noteq> []"
    using assms(2) by (auto simp: ObservationReconciliationRule_post_init_def and_then_eq_Inr returns_iff)
  then show ?thesis
    using assms(1) by (auto simp: observation_plan_def ObservationReconciliationPlan_post_init_def attempt_coordinates_ok_def returns_iff)
qed

lemma observe_plan_returns:
  assumes "decision_context_ok ctx items timestamp"
    and "\<forall>r \<in> set (observation_rules bundle). ObservationReconciliationRule_post_init r = Inr r"
    and "distinct (map ScheduleItem.schedule_entry_id pending)" "policy_limit pending"
  shows "\<exists>p. observe_plan ctx bundle items pending timestamp = Inr p"
proof (cases "select_rules (scope_map rule_scope (observation_rules bundle)) items")
  case None
  have "''observe_requires_read_only_idempotent_decisive_rule'' \<in> set policy_reasons" by (simp add: policy_reasons_def)
  from stop_plan_returns[OF assms(1) this assms(3,4)] None show ?thesis by (simp add: observe_plan_def)
next
  case (Some selected)
  let ?mk = "\<lambda>(i, r). \<lparr>op_attempt_id = ai_attempt_id i, op_scenario_id = ai_scenario_id i, op_delivery_id = ai_delivery_id i,
      op_observation_id = rule_observation_id r, op_assertion_ids = rule_assertion_ids r\<rparr>"
  have l: "list_all2 (\<lambda>i r. scope_map rule_scope (observation_rules bundle) (item_scope i) = Some r) items selected"
    using select_rules_Some[OF Some] .
  have len: "length items = length selected" using l by (rule list_all2_lengthD)
  have pairs: "i \<in> set items \<and> ObservationReconciliationRule_post_init r = Inr r" if "(i, r) \<in> set (zip items selected)" for i r
  proof -
    have "scope_map rule_scope (observation_rules bundle) (item_scope i) = Some r"
      using l that unfolding list_all2_iff by blast
    from scope_map_SomeD[OF this] that assms(2) show ?thesis by (auto dest: set_zip_leftD)
  qed
  have "observation_plan x = Inr (?mk x)" if "x \<in> set (zip items selected)" for x
    using pairs[of "fst x" "snd x"] that assms(1)
    by (cases x) (auto simp: decision_context_ok_def intro!: observation_plan_returns)
  then have plans: "for_each observation_plan (zip items selected) = Inr (map ?mk (zip items selected))" by (rule for_each_all)
  have "\<exists>d. observation_decision ctx timestamp x = Inr d \<and> dec_run_id d = plan_run_id (recovery_plan ctx)"
    if "x \<in> set (zip items (map ?mk (zip items selected)))" for x
    using that pairs unfolding zip_map_zip[OF len]
    by (auto intro!: observation_decision_returns[OF assms(1)])
  from for_each_decisions[where f = "observation_decision ctx timestamp", OF this]
  obtain ds where ds: "for_each (observation_decision ctx timestamp) (zip items (map ?mk (zip items selected))) = Inr ds"
    "\<forall>d \<in> set ds. dec_run_id d = plan_run_id (recovery_plan ctx)" "length ds = length (zip items (map ?mk (zip items selected)))"
    by blast
  show ?thesis
    unfolding observe_plan_def Some option.case plans and_then_Inr ds(1)
    by (rule exI, rule plan_accepted[OF assms(1)]) (use ds len assms(3,4) in simp_all)
qed

lemma partition_accepted:
  assumes "distinct (map ScheduleItem.schedule_entry_id pending)" "policy_limit pending"
  shows "distinct (map ScheduleItem.schedule_entry_id
      (fst (partition_linked_schedule pending items) @ snd (partition_linked_schedule pending items)))"
    "policy_limit (fst (partition_linked_schedule pending items) @ snd (partition_linked_schedule pending items))"
proof -
  have "inj_on ScheduleItem.schedule_entry_id (set pending)" "distinct pending" using assms(1) by (simp_all add: distinct_map)
  then show "distinct (map ScheduleItem.schedule_entry_id
      (fst (partition_linked_schedule pending items) @ snd (partition_linked_schedule pending items)))"
    by (auto simp: partition_linked_schedule_def distinct_map intro: inj_on_subset dest: inj_onD)
  show "policy_limit (fst (partition_linked_schedule pending items) @ snd (partition_linked_schedule pending items))"
    using assms(2) sum_length_filter_compl[of "\<lambda>i. schedule_scope i \<in> linked_scopes items" pending]
    by (simp add: partition_linked_schedule_def policy_limit_def)
qed

lemma operator_plan_returns:
  assumes "decision_context_ok ctx items timestamp"
    and "\<forall>d \<in> set (operator_decisions v). OperatorDecisionDirective_post_init d = Inr d"
    and "distinct (map ScheduleItem.schedule_entry_id pending)" "policy_limit pending"
  shows "\<exists>p. operator_plan ctx v items pending timestamp = Inr p"
proof -
  let ?find = "\<lambda>a. the (map_of (rev (map (\<lambda>d. (directive_attempt_id d, d)) (operator_decisions v))) a)"
  let ?selected = "map (\<lambda>i. ?find (ai_attempt_id i)) items"
  have reasons: "''operator_decision_set_is_incomplete'' \<in> set policy_reasons"
    "''noninteractive_operator_policy_is_unsigned'' \<in> set policy_reasons"
    by (simp_all add: policy_reasons_def)
  note stops = stop_plan_returns[OF assms(1) reasons(1) assms(3,4)] stop_plan_returns[OF assms(1) reasons(2) assms(3,4)]
  show ?thesis
  proof (cases "set (map directive_attempt_id (operator_decisions v)) = set (map ai_attempt_id items) \<and>
      \<not> (noninteractive v \<and> list_ex (\<lambda>d. \<not> signed_policy_verified d) ?selected)")
    case False
    then show ?thesis using stops by (auto simp: operator_plan_def Let_def)
  next
    case True
    have "\<exists>d. operator_decision_for ctx timestamp x = Inr d \<and> dec_run_id d = plan_run_id (recovery_plan ctx)"
      if member: "x \<in> set (zip items ?selected)" for x
    proof -
      obtain i where x: "x = (i, ?find (ai_attempt_id i))" "i \<in> set items"
        using member by (auto simp: zip_map2 zip_same_conv_map)
      have "?find (ai_attempt_id i) \<in> set (operator_decisions v)"
        using True x(2) directive_member[of "ai_attempt_id i" "operator_decisions v"] by auto
      then have d: "OperatorDecisionDirective_post_init (?find (ai_attempt_id i)) = Inr (?find (ai_attempt_id i))"
        using assms(2) by blast
      have reason: "bounded_text (directive_reason (?find (ai_attempt_id i))) ''decision reason'' MAX_REASON_BYTES = Inr ()"
      proof (rule bounded_text_name)
        show "bounded_text (directive_reason (?find (ai_attempt_id i))) ''operator reason'' MAX_REASON_BYTES = Inr ()"
          using d by (auto simp: OperatorDecisionDirective_post_init_def and_then_eq_Inr)
      qed
      show ?thesis
        unfolding x(1) operator_decision_for_def prod.case
        using d by (intro decision_returns[OF assms(1) x(2) reason])
          (auto simp: OperatorDecisionDirective_post_init_def and_then_eq_Inr distinct_remdups_length returns_iff)
    qed
    from for_each_decisions[where f = "operator_decision_for ctx timestamp", OF this]
    obtain ds where ds: "for_each (operator_decision_for ctx timestamp) (zip items ?selected) = Inr ds"
      "\<forall>d \<in> set ds. dec_run_id d = plan_run_id (recovery_plan ctx)" "length ds = length (zip items ?selected)"
      by blast
    have parts: "partition_linked_schedule pending items =
        (fst (partition_linked_schedule pending items), snd (partition_linked_schedule pending items))" by simp
    have cond: "(set (map directive_attempt_id (operator_decisions v)) \<noteq> set (map ai_attempt_id items)) = False"
      "(noninteractive v \<and> list_ex (\<lambda>d. \<not> signed_policy_verified d) ?selected) = False"
      using True by blast+
    show ?thesis
      unfolding operator_plan_def Let_def cond if_False ds(1) and_then_Inr
      by (subst parts, unfold prod.case, rule exI, rule plan_accepted[OF assms(1)])
        (use ds assms(3,4) partition_accepted[OF assms(3,4), of items] in simp_all)
  qed
qed

lemma snapshot_pending:
  assumes "PersistedScheduleSnapshot_post_init schedule = Inr schedule"
  obtains pending where "pending_schedule schedule = Inr pending"
    "distinct (map ScheduleItem.schedule_entry_id pending)" "policy_limit pending"
    "length pending \<le> length (snapshot_entries schedule)"
proof -
  have rows: "distinct (map ScheduleItem.schedule_entry_id (snapshot_entries schedule))"
    "int (length (snapshot_entries schedule)) \<le> MAX_POLICY_ITEMS"
    using assms by (auto simp: PersistedScheduleSnapshot_post_init_def and_then_eq_Inr Let_def unique_values_def
        distinct_remdups_length policy_limit_def)
  obtain q where q: "reconstruct (snapshot_entries schedule) (consumed_entry_ids schedule) MAX_POLICY_ITEMS = Inr q"
    using reconstruct_returns[OF rows] .
  have "int (length (queue_snapshot q)) \<le> MAX_POLICY_ITEMS"
    using queue_invD(3)[OF reconstruct_eq_Inr(1)[OF q]] reconstruct_eq_Inr(2)[OF q] by (simp add: queue_snapshot_def)
  moreover have found: "pending_schedule schedule = Inr (queue_snapshot q)" using q by (simp add: pending_schedule_def)
  moreover note unique = snapshot_distinct[OF reconstruct_eq_Inr(1)[OF q]]
  moreover have "length (queue_snapshot q) \<le> length (snapshot_entries schedule)"
  proof -
    have "set (queue_snapshot q) \<subseteq> set (snapshot_entries schedule)" using pending_schedule_facts(1)[OF found] by auto
    moreover have "distinct (queue_snapshot q)" using unique by (simp add: distinct_map)
    ultimately show ?thesis by (metis card_length card_mono distinct_card finite_set order_trans)
  qed
  ultimately show thesis using that[of "queue_snapshot q"] by (simp add: policy_limit_def)
qed

section \<open>Redelivery returns when identifiers are fresh\<close>

lemma json_text_length: "length (json_dumps_text s) \<le> 6 * length s + 2"
proof -
  have "length (json_escape_char c) \<le> 6" for c by (simp add: json_escape_char_def Let_def)
  then have "length (concat (map json_escape_char s)) \<le> 6 * length s"
    by (induction s) (simp_all add: add_mono order_trans)
  then show ?thesis by (simp add: json_dumps_text_def)
qed

lemma condition_length:
  assumes "length a \<le> 47" "length b \<le> 47" "0 \<le> n" "n \<le> MAX_SAFE_INTEGER"
  shows "length (redelivery_condition a n b) \<le> MAX_CONDITION_BYTES"
proof -
  have "length (int_str n) \<le> 19"
    using assms(3,4) nat_str_length[of "nat n" 19] by (simp add: int_str_def MAX_SAFE_INTEGER_def nat_less_iff)
  then show ?thesis
    using assms(1,2) json_text_length[of a] json_text_length[of b] json_text_length[of "''attempt_id''"]
      json_text_length[of "''next_attempt_ordinal''"] json_text_length[of "''policy''"] json_text_length[of "''redeliver''"]
      json_text_length[of "''predecessor_attempt_id''"]
    by (simp add: redelivery_condition_def MAX_CONDITION_BYTES_def)
qed

lemma prefixed_token:
  assumes "returns (validate_fresh_id a (Some FreshIdKind.ATTEMPT))"
  shows "bounded_token 96 (''resume.redelivery.'' @ a)" "bounded_token 256 (''resume.redelivery.schedule.'' @ a)"
    "bounded_token 200 t \<Longrightarrow> bounded_token 256 (t @ ''.'' @ a)" "bounded_token 96 a"
proof -
  have "list_all token_char (''resume.redelivery.schedule.'' @ ''resume.redelivery.'')" by code_simp
  then show "bounded_token 96 (''resume.redelivery.'' @ a)" "bounded_token 256 (''resume.redelivery.schedule.'' @ a)"
    "bounded_token 200 t \<Longrightarrow> bounded_token 256 (t @ ''.'' @ a)" "bounded_token 96 a"
    using fresh_id_text[OF assms] by (auto simp: bounded_token_def)
qed

lemma schedule_item_accepted:
  assumes "bounded_token 96 (ScheduleItem.schedule_entry_id x)" "bounded_token 96 (ScheduleItem.entity_id x)"
    and "returns (validate_logical_nanoseconds (ScheduleItem.logical_due_ns x))"
    and "\<forall>n \<in> {ScheduleItem.scenario_ordinal x, ScheduleItem.step_ordinal x, ScheduleItem.delivery_ordinal x,
      ScheduleItem.attempt_ordinal x}. 0 \<le> n \<and> n \<le> MAX_SAFE_INTEGER"
    and "bounded_token 256 (ScheduleItem.deterministic_tie_key x)"
  shows "ScheduleItem_post_init x = Inr x"
  using assms
  by (auto simp: ScheduleItem_post_init_def queue_ordinal_def MAX_ORDINAL_def MAX_SAFE_INTEGER_def returns_iff and_then_eq_Inr)

lemma redelivery_accepted:
  assumes "returns (validate_run_id (rd_run_id r))"
    "returns (validate_planned_id (rd_scenario_id r) (Some PlannedIdKind.SCENARIO))"
    "returns (validate_planned_id (rd_event_id r) (Some PlannedIdKind.EVENT))"
    "returns (validate_planned_id (rd_delivery_id r) (Some PlannedIdKind.DELIVERY))"
    "returns (validate_fresh_id (rd_predecessor_attempt_id r) (Some FreshIdKind.ATTEMPT))"
    "returns (validate_fresh_id (rd_attempt_id r) (Some FreshIdKind.ATTEMPT))"
    "returns (validate_planned_id (rd_attempt_plan_id r) (Some PlannedIdKind.ATTEMPT_PLAN))"
    and "rd_attempt_id r \<noteq> rd_predecessor_attempt_id r" "0 \<le> rd_attempt_ordinal r" "rd_attempt_ordinal r \<le> MAX_SAFE_INTEGER"
    and "ScheduleItem.entity_id (rd_schedule_item r) = rd_attempt_plan_id r"
    "ScheduleItem.attempt_ordinal (rd_schedule_item r) = rd_attempt_ordinal r"
    and "bounded_token 256 (rd_schedule_idempotency_key r)" "length (rd_condition_json r) \<le> MAX_CONDITION_BYTES"
  shows "RedeliveryAttemptPlan_post_init r = Inr r"
  using assms by (auto simp: RedeliveryAttemptPlan_post_init_def returns_iff policy_token_def and_then_eq_Inr)

lemma redelivery_from_returns:
  assumes "attempt_coordinates_ok i" "RedeliveryTemplate_post_init t = Inr t"
    and "returns (validate_fresh_id a (Some FreshIdKind.ATTEMPT))" "a \<noteq> ai_attempt_id i"
    and "ai_attempt_ordinal i < MAX_SAFE_INTEGER" "returns (validate_run_id (plan_run_id (recovery_plan ctx)))"
  shows "\<exists>r. redelivery_from ctx i t a = Inr r \<and> rd_run_id r = plan_run_id (recovery_plan ctx) \<and> rd_attempt_id r = a"
proof -
  have t: "returns (validate_planned_id (tpl_attempt_plan_id t) (Some PlannedIdKind.ATTEMPT_PLAN))"
    "returns (validate_logical_nanoseconds (tpl_logical_due_ns t))" "bounded_token 200 (tpl_tie_key t)"
    using assms(2) by (auto simp: RedeliveryTemplate_post_init_def and_then_eq_Inr policy_token_def MAX_TIE_KEY_BYTES_def returns_iff)
  have ids: "returns (validate_fresh_id (ai_attempt_id i) (Some FreshIdKind.ATTEMPT))"
    and ordinals: "\<forall>n \<in> {ai_scenario_ordinal i, ai_step_ordinal i, ai_delivery_ordinal i, ai_attempt_ordinal i}. 0 \<le> n \<and> n \<le> MAX_SAFE_INTEGER"
    using assms(1) by (simp_all add: attempt_coordinates_ok_def)
  have entity: "bounded_token 96 (tpl_attempt_plan_id t)" using planned_id_text[OF t(1)] by (simp add: bounded_token_def)
  let ?item = "\<lparr>ScheduleItem.schedule_entry_id = ''resume.redelivery.'' @ a, entity_id = tpl_attempt_plan_id t,
      logical_due_ns = tpl_logical_due_ns t, scenario_ordinal = ai_scenario_ordinal i, step_ordinal = ai_step_ordinal i,
      delivery_ordinal = ai_delivery_ordinal i, attempt_ordinal = ai_attempt_ordinal i + 1,
      deterministic_tie_key = tpl_tie_key t @ ''.'' @ a\<rparr>"
  have item: "ScheduleItem_post_init ?item = Inr ?item"
    by (rule schedule_item_accepted, unfold ScheduleItem.select_convs, rule prefixed_token(1)[OF assms(3)], rule entity, rule t(2))
      (use ordinals assms(5) prefixed_token(3)[OF assms(3) t(3)] in auto)
  have condition: "length (redelivery_condition a (ai_attempt_ordinal i + 1) (ai_attempt_id i)) \<le> MAX_CONDITION_BYTES"
    using fresh_id_text(3)[OF assms(3)] fresh_id_text(3)[OF ids] ordinals assms(5) by (intro condition_length) auto
  let ?r = "\<lparr>rd_run_id = plan_run_id (recovery_plan ctx), rd_scenario_id = ai_scenario_id i, rd_event_id = ai_event_id i,
      rd_delivery_id = ai_delivery_id i, rd_predecessor_attempt_id = ai_attempt_id i, rd_attempt_id = a,
      rd_attempt_plan_id = tpl_attempt_plan_id t, rd_attempt_ordinal = ai_attempt_ordinal i + 1, rd_schedule_item = ?item,
      rd_schedule_idempotency_key = ''resume.redelivery.schedule.'' @ a,
      rd_condition_json = redelivery_condition a (ai_attempt_ordinal i + 1) (ai_attempt_id i)\<rparr>"
  have "RedeliveryAttemptPlan_post_init ?r = Inr ?r"
    by (rule redelivery_accepted, unfold RedeliveryAttemptPlan.select_convs ScheduleItem.select_convs)
      (use assms(1,3-6) t(1) condition prefixed_token(2)[OF assms(3)] ordinals in
        \<open>simp_all only: attempt_coordinates_ok_def ball_simps simp_thms insert_iff, auto\<close>)
  moreover have "\<not> ai_attempt_ordinal i + 1 > MAX_SAFE_INTEGER" using assms(5) by simp
  ultimately have "redelivery_from ctx i t a = Inr ?r"
    unfolding redelivery_from_def Let_def item and_then_Inr by (simp only: and_then_Inr raise_unless_True simp_thms)
  then show ?thesis by simp
qed

text \<open>The factory's identifiers from the \<open>k\<close>-th call on: valid, pairwise different and new to the history and the
  schedule.\<close>

definition fresh_ids :: "(nat \<Rightarrow> string result) \<Rightarrow> nat \<Rightarrow> nat \<Rightarrow> string set \<Rightarrow> string set \<Rightarrow> bool" where
  "fresh_ids fresh k n existing schedule_ids \<longleftrightarrow> inj_on fresh {k..<k + n} \<and> (\<forall>m \<in> {k..<k + n}. \<exists>a. fresh m = Inr a \<and>
     returns (validate_fresh_id a (Some FreshIdKind.ATTEMPT)) \<and> a \<notin> existing \<and> ''resume.redelivery.'' @ a \<notin> schedule_ids)"

lemma fresh_ids_step:
  assumes "fresh_ids fresh k (Suc n) existing schedule_ids" "fresh k = Inr a"
  shows "fresh_ids fresh (Suc k) n (insert a existing) (insert (''resume.redelivery.'' @ a) schedule_ids)"
proof -
  have inj: "inj_on fresh {k..<k + Suc n}" using assms(1) by (simp add: fresh_ids_def)
  have "\<exists>b. fresh m = Inr b \<and> returns (validate_fresh_id b (Some FreshIdKind.ATTEMPT)) \<and> b \<notin> insert a existing \<and>
      ''resume.redelivery.'' @ b \<notin> insert (''resume.redelivery.'' @ a) schedule_ids" if m: "m \<in> {Suc k..<Suc k + n}" for m
  proof -
    have range: "m \<in> {k..<k + Suc n}" "k \<in> {k..<k + Suc n}" "m \<noteq> k" using m by auto
    obtain b where b: "fresh m = Inr b" "returns (validate_fresh_id b (Some FreshIdKind.ATTEMPT))" "b \<notin> existing"
      "''resume.redelivery.'' @ b \<notin> schedule_ids"
      using assms(1) range(1) unfolding fresh_ids_def by blast
    have "b \<noteq> a" using inj_onD[OF inj _ range(1,2)] range(3) b(1) assms(2) by auto
    with b show ?thesis by simp
  qed
  moreover have "inj_on fresh {Suc k..<Suc k + n}" using inj by (rule inj_on_subset) auto
  ultimately show ?thesis unfolding fresh_ids_def by blast
qed

lemma redeliver_loop_returns:
  assumes "\<forall>i \<in> set items. attempt_coordinates_ok i \<and> ai_attempt_ordinal i < MAX_SAFE_INTEGER \<and> ai_attempt_id i \<in> existing \<and>
      (\<exists>t. templates (item_scope i) = Some t \<and> RedeliveryTemplate_post_init t = Inr t)"
    and "fresh_ids fresh k (length items) existing schedule_ids" "returns (validate_run_id (plan_run_id (recovery_plan ctx)))"
  shows "\<exists>rs. redeliver_loop ctx templates fresh k existing schedule_ids items = Inr rs \<and>
    (\<forall>r \<in> set rs. rd_run_id r = plan_run_id (recovery_plan ctx) \<and> returns (validate_fresh_id (rd_attempt_id r) (Some FreshIdKind.ATTEMPT)))"
  using assms
proof (induction items arbitrary: k existing schedule_ids)
  case (Cons i items)
  have first: "k \<in> {k..<k + length (i # items)}" by simp
  obtain a where a: "fresh k = Inr a" "returns (validate_fresh_id a (Some FreshIdKind.ATTEMPT))" "a \<notin> existing"
    "''resume.redelivery.'' @ a \<notin> schedule_ids"
    using Cons.prems(2) first unfolding fresh_ids_def by blast
  obtain t where t: "templates (item_scope i) = Some t" "RedeliveryTemplate_post_init t = Inr t"
    and i: "attempt_coordinates_ok i" "ai_attempt_ordinal i < MAX_SAFE_INTEGER" "ai_attempt_id i \<in> existing"
    using Cons.prems(1) by auto
  have "a \<noteq> ai_attempt_id i" using a(3) i(3) by blast
  from redelivery_from_returns[OF i(1) t(2) a(2) this i(2) Cons.prems(3)]
  obtain r where r: "redelivery_from ctx i t a = Inr r" "rd_run_id r = plan_run_id (recovery_plan ctx)" "rd_attempt_id r = a" by blast
  have entry: "ScheduleItem.schedule_entry_id (rd_schedule_item r) = ''resume.redelivery.'' @ a"
    using redelivery_from_redelivers[OF r(1)] by (simp add: redelivers_def)
  have "\<forall>i \<in> set items. attempt_coordinates_ok i \<and> ai_attempt_ordinal i < MAX_SAFE_INTEGER \<and> ai_attempt_id i \<in> insert a existing \<and>
      (\<exists>t. templates (item_scope i) = Some t \<and> RedeliveryTemplate_post_init t = Inr t)"
    using Cons.prems(1) by auto
  moreover have "fresh_ids fresh (Suc k) (length items) (insert a existing) (insert (''resume.redelivery.'' @ a) schedule_ids)"
    by (rule fresh_ids_step[where fresh = fresh and k = k, OF _ a(1)]) (use Cons.prems(2) in simp)
  ultimately obtain rs where "redeliver_loop ctx templates fresh (Suc k) (insert a existing) (insert (''resume.redelivery.'' @ a) schedule_ids) items = Inr rs"
    "\<forall>r \<in> set rs. rd_run_id r = plan_run_id (recovery_plan ctx) \<and> returns (validate_fresh_id (rd_attempt_id r) (Some FreshIdKind.ATTEMPT))"
    using Cons.IH[OF _ _ Cons.prems(3)] by blast
  moreover have "fresh_redelivery_id (fresh k) existing = Inr a" using a by (simp add: fresh_redelivery_eq_Inr)
  ultimately show ?case using t(1) r a(2,4) entry by simp
qed simp

text \<open>What a redelivery needs beyond valid inputs: valid templates, room for the next ordinal, a factory that produces new
  identifiers and room in the schedule.\<close>

definition redelivery_inputs_ok :: "(nat \<Rightarrow> string result) \<Rightarrow> ResumePolicyContext \<Rightarrow> BundleRecoveryPolicy \<Rightarrow>
    PersistedScheduleSnapshot \<Rightarrow> bool" where
  "redelivery_inputs_ok fresh ctx bundle schedule \<longleftrightarrow>
     (\<forall>t \<in> set (redelivery_templates bundle). RedeliveryTemplate_post_init t = Inr t) \<and>
     (\<forall>i \<in> set (unresolved_ambiguous_attempts (recovery_plan ctx)). ai_attempt_ordinal i < MAX_SAFE_INTEGER) \<and>
     fresh_ids fresh 0 (length (unresolved_ambiguous_attempts (recovery_plan ctx)))
       (set (map ai_attempt_id (plan_attempts (recovery_plan ctx))))
       (set (map ScheduleItem.schedule_entry_id (snapshot_entries schedule)) \<union> consumed_entry_ids schedule) \<and>
     int (length (snapshot_entries schedule) + length (unresolved_ambiguous_attempts (recovery_plan ctx))) \<le> MAX_POLICY_ITEMS"

lemma redelivery_decision_returns:
  assumes "decision_context_ok ctx items timestamp" "i \<in> set items"
    and "returns (validate_fresh_id (rd_attempt_id r) (Some FreshIdKind.ATTEMPT))"
  shows "\<exists>d. redelivery_decision ctx timestamp (i, r) = Inr d \<and> dec_run_id d = plan_run_id (recovery_plan ctx)"
proof -
  have kind: "lower_identifier 64 ''attempt''" by code_simp
  have "''explicit_bundle_and_invocation_redelivery'' \<in> set policy_reasons" by (simp add: policy_reasons_def)
  note reason = reasons_bounded[OF this]
  show ?thesis
    unfolding redelivery_decision_def prod.case reference_token[OF kind prefixed_token(4)[OF assms(3)]] and_then_Inr
    by (intro decision_returns[OF assms(1,2) reason]) (simp_all add: MAX_EVIDENCE_REFERENCES_def)
qed

lemma redelivery_schedule_accepted:
  assumes "list_all2 redelivers items rs" "distinct (map rd_attempt_id rs)"
    and "set (map (\<lambda>r. ScheduleItem.schedule_entry_id (rd_schedule_item r)) rs) \<inter> set (map ScheduleItem.schedule_entry_id pending) = {}"
    and "distinct (map ScheduleItem.schedule_entry_id pending)" "int (length pending + length rs) \<le> MAX_POLICY_ITEMS"
  defines "runnable \<equiv> sort_key order_key (fst (partition_linked_schedule pending items) @ map rd_schedule_item rs)"
    and "deferred \<equiv> snd (partition_linked_schedule pending items)"
  shows "distinct (map ScheduleItem.schedule_entry_id (runnable @ deferred))" "policy_limit (runnable @ deferred)"
proof -
  let ?parts = "fst (partition_linked_schedule pending items) @ deferred"
  have entries: "map (\<lambda>r. ScheduleItem.schedule_entry_id (rd_schedule_item r)) rs = map (\<lambda>r. ''resume.redelivery.'' @ rd_attempt_id r) rs"
    using assms(1) by (induction rule: list_all2_induct) (simp_all add: redelivers_def)
  have new: "distinct (map (\<lambda>r. ScheduleItem.schedule_entry_id (rd_schedule_item r)) rs)"
    unfolding entries using assms(2) by (simp add: distinct_map inj_on_def)
  have limit: "policy_limit pending" using assms(5) by (simp add: policy_limit_def)
  note parts = partition_accepted[OF assms(4) limit, of items, folded deferred_def]
  have "set ?parts = set pending" by (auto simp: deferred_def partition_linked_schedule_def)
  moreover have "mset (runnable @ deferred) = mset (?parts @ map rd_schedule_item rs)"
    by (simp add: runnable_def)
  then have same: "mset (map ScheduleItem.schedule_entry_id (runnable @ deferred)) =
      mset (map ScheduleItem.schedule_entry_id (?parts @ map rd_schedule_item rs))"
    by (simp only: mset_map)
  moreover have "distinct (map ScheduleItem.schedule_entry_id (?parts @ map rd_schedule_item rs))"
    using parts(1) new assms(3) calculation(1) by (simp only: map_append distinct_append set_append set_map map_map o_def) blast
  ultimately show "distinct (map ScheduleItem.schedule_entry_id (runnable @ deferred))"
    using mset_eq_imp_distinct_iff by blast
  have "length (runnable @ deferred) = length pending + length rs"
    using sum_length_filter_compl[of "\<lambda>i. schedule_scope i \<in> linked_scopes items" pending]
    by (simp add: runnable_def deferred_def partition_linked_schedule_def)
  then show "policy_limit (runnable @ deferred)" using assms(5) by (simp add: policy_limit_def)
qed

lemma block_reason_known: "redelivery_block_reason items templates = Some reason \<Longrightarrow> reason \<in> set policy_reasons"
proof -
  have "template_block_reason templates xs = Some reason \<Longrightarrow> reason \<in> set policy_reasons" for xs
    by (induction xs) (auto simp: policy_reasons_def split: if_splits option.splits)
  then show "redelivery_block_reason items templates = Some reason \<Longrightarrow> reason \<in> set policy_reasons"
    by (auto simp: redelivery_block_reason_def policy_reasons_def split: if_splits)
qed

lemma redelivery_plan_returns:
  assumes "decision_context_ok ctx items timestamp" "items = unresolved_ambiguous_attempts (recovery_plan ctx)"
    and "redelivery_inputs_ok fresh ctx bundle schedule" "pending_schedule schedule = Inr pending"
    and "distinct (map ScheduleItem.schedule_entry_id pending)" "policy_limit pending" "length pending \<le> length (snapshot_entries schedule)"
  shows "\<exists>p. redelivery_plan ctx fresh bundle items pending schedule timestamp = Inr p"
proof -
  let ?templates = "scope_map template_scope (redelivery_templates bundle)"
  let ?existing = "set (map ai_attempt_id (plan_attempts (recovery_plan ctx)))"
  let ?ids = "set (map ScheduleItem.schedule_entry_id (snapshot_entries schedule)) \<union> consumed_entry_ids schedule"
  show "\<exists>p. redelivery_plan ctx fresh bundle items pending schedule timestamp = Inr p"
  proof (cases "redelivery_block_reason items ?templates")
    case (Some reason)
    then show ?thesis
      using stop_plan_returns[OF assms(1) block_reason_known[OF Some] assms(5,6)] by (simp add: redelivery_plan_def Let_def)
  next
    case None
    then have "template_block_reason ?templates items = None" by (auto simp: redelivery_block_reason_def split: if_splits)
    then have "\<forall>i \<in> set items. \<exists>t. ?templates (item_scope i) = Some t" unfolding template_block_reason_None by blast
    then have "\<forall>i \<in> set items. \<exists>t. ?templates (item_scope i) = Some t \<and> RedeliveryTemplate_post_init t = Inr t"
      using assms(3) scope_map_SomeD unfolding redelivery_inputs_ok_def by metis
    moreover have "\<forall>i \<in> set items. attempt_coordinates_ok i \<and> ai_attempt_ordinal i < MAX_SAFE_INTEGER \<and> ai_attempt_id i \<in> ?existing"
      using assms(1-3) by (auto simp: decision_context_ok_def redelivery_inputs_ok_def unresolved_iff)
    ultimately have ready: "\<forall>i \<in> set items. attempt_coordinates_ok i \<and> ai_attempt_ordinal i < MAX_SAFE_INTEGER \<and>
        ai_attempt_id i \<in> ?existing \<and> (\<exists>t. ?templates (item_scope i) = Some t \<and> RedeliveryTemplate_post_init t = Inr t)"
      by blast
    have fresh: "fresh_ids fresh 0 (length items) ?existing ?ids" "returns (validate_run_id (plan_run_id (recovery_plan ctx)))"
      using assms(1-3) by (simp_all add: redelivery_inputs_ok_def decision_context_ok_def)
    from redeliver_loop_returns[OF ready fresh]
    obtain rs where rs: "redeliver_loop ctx ?templates fresh 0 ?existing ?ids items = Inr rs"
      and runs: "\<forall>r \<in> set rs. rd_run_id r = plan_run_id (recovery_plan ctx)"
        "\<forall>r \<in> set rs. returns (validate_fresh_id (rd_attempt_id r) (Some FreshIdKind.ATTEMPT))"
      by blast
    note new = redeliver_loop_redelivers[OF rs]
    have len: "length rs = length items" using new(1) by (simp add: list_all2_lengthD)
    have room: "int (length pending + length rs) \<le> MAX_POLICY_ITEMS"
      using assms(2,3,7) len by (simp add: redelivery_inputs_ok_def)
    have "set (map ScheduleItem.schedule_entry_id pending) \<subseteq> ?ids"
      using pending_schedule_facts(1)[OF assms(4)] by auto
    then have apart: "set (map (\<lambda>r. ScheduleItem.schedule_entry_id (rd_schedule_item r)) rs) \<inter>
        set (map ScheduleItem.schedule_entry_id pending) = {}"
      using new(4) by blast
    note schedule = redelivery_schedule_accepted[OF new(1,2) apart assms(5) room]
    have "\<exists>d. redelivery_decision ctx timestamp x = Inr d \<and> dec_run_id d = plan_run_id (recovery_plan ctx)"
      if member: "x \<in> set (zip items rs)" for x
    proof -
      obtain i r where x: "x = (i, r)" by (rule prod.exhaust)
      have "i \<in> set items" "r \<in> set rs" using member by (auto simp: x dest: set_zip_leftD set_zip_rightD)
      then show ?thesis using redelivery_decision_returns[OF assms(1)] runs(2) unfolding x by blast
    qed
    from for_each_decisions[where f = "redelivery_decision ctx timestamp", OF this]
    obtain ds where ds: "for_each (redelivery_decision ctx timestamp) (zip items rs) = Inr ds"
      "\<forall>d \<in> set ds. dec_run_id d = plan_run_id (recovery_plan ctx)" "length ds = length (zip items rs)"
      by blast
    have parts: "partition_linked_schedule pending items =
        (fst (partition_linked_schedule pending items), snd (partition_linked_schedule pending items))" by simp
    have limit: "raise_unless (\<not> int (length pending + length rs) > MAX_POLICY_ITEMS)
       (ResumePolicyResourceLimitError ''redelivery would exceed the scheduler item limit'') = Inr ()"
      using room by simp
    show ?thesis
      unfolding redelivery_plan_def Let_def None option.case authorized_redelivery_plan_def rs and_then_Inr limit
      by (subst parts, unfold prod.case ds(1) and_then_Inr, rule exI, rule plan_accepted[OF assms(1)])
        (use ds runs len schedule in simp_all)
  qed
qed

lemma planning_returns:
  assumes "resume_inputs_ok ctx bundle v schedule timestamp"
    and "cancel_requested v \<or> on_ambiguous v \<noteq> Some AmbiguityPolicy.REDELIVER \<or> redelivery_inputs_ok fresh ctx bundle schedule"
  shows "returns (build_plan fresh ctx bundle v schedule timestamp)"
proof -
  let ?items = "unresolved_ambiguous_attempts (recovery_plan ctx)"
  obtain pending where pending: "pending_schedule schedule = Inr pending"
    "distinct (map ScheduleItem.schedule_entry_id pending)" "policy_limit pending"
    and shorter: "length pending \<le> length (snapshot_entries schedule)"
    using assms(1) snapshot_pending unfolding resume_inputs_ok_def by metis
  have subset: "set ?items \<subseteq> set (plan_attempts (recovery_plan ctx))" by (auto simp: unresolved_iff)
  have ctx: "decision_context_ok ctx ?items timestamp"
    using assms(1) subset
    by (auto simp: resume_inputs_ok_def decision_context_ok_def recovery_plan_ok_def unresolved_ambiguous_attempts_def Let_def
        intro: distinct_map_filter)
  have limit: "policy_item_limit ?items pending = Inr ()" and live: "is_live timestamp"
    using assms(1) pending(3) by (simp_all add: resume_inputs_ok_def policy_item_limit_def)
  have reasons: "''cancellation_preserved_unresolved_ambiguity'' \<in> set policy_reasons" "''default_stop'' \<in> set policy_reasons"
    "''explicit_stop'' \<in> set policy_reasons" by (simp_all add: policy_reasons_def)
  note stops = reasons[THEN stop_plan_returns[OF ctx _ pending(2,3)]]
  have quiet: "\<exists>p. cancelled_plan ctx v pending = Inr p" "\<exists>p. continue_without_ambiguity ctx v pending = Inr p"
    unfolding cancelled_plan_def continue_without_ambiguity_def
    by (rule exI, rule plan_accepted[OF ctx], use pending(2,3) in simp_all)+
  have rules: "\<forall>r \<in> set (observation_rules bundle). ObservationReconciliationRule_post_init r = Inr r"
    "\<forall>d \<in> set (operator_decisions v). OperatorDecisionDirective_post_init d = Inr d"
    using assms(1) by (simp_all add: resume_inputs_ok_def)
  note redelivery = redelivery_plan_returns[OF ctx refl _ pending shorter]
  note others = observe_plan_returns[OF ctx rules(1) pending(2,3)] operator_plan_returns[OF ctx rules(2) pending(2,3)]
  show ?thesis
    unfolding build_plan_def Let_def pending(1) and_then_Inr limit returns_iff
    using assms(2) live stops quiet others redelivery
    by (auto split: option.splits AmbiguityPolicy.splits)
qed

text \<open>C29. Planning always returns. For valid inputs, a live timestamp and no more ambiguous attempts than the engine's
  bound, every invocation gets a plan, whatever policy it asks for: no check of the decisions, of the observation plans, of
  the new attempts or of the plan itself can fail. Only a redelivery needs more: valid templates, new identifiers from the
  factory, and room for the next ordinals and the new entries.\<close>

theorem policy_planning_total:
  assumes "resume_inputs_ok ctx bundle v schedule timestamp"
    and "cancel_requested v \<or> on_ambiguous v \<noteq> Some AmbiguityPolicy.REDELIVER \<or> redelivery_inputs_ok fresh ctx bundle schedule"
  shows "returns (build_plan fresh ctx bundle v schedule timestamp)"
  using assms by (rule planning_returns)

section \<open>Witnesses\<close>

text \<open>A resumed run with one attempt of unknown outcome, a schedule without pending rows, and a bundle that authorizes one more
  attempt of the delivery.\<close>

definition resume_context :: ResumePolicyContext where
  "resume_context = \<lparr>scan_context = sample_context, recovery_plan = sample_plan\<lparr>plan_attempts := [first_item]\<rparr>\<rparr>"

definition resume_template :: RedeliveryTemplate where
  "resume_template = \<lparr>tpl_scenario_id = ''scenario_'' @ zero_ulid, tpl_event_id = ''event_'' @ zero_ulid,
     tpl_delivery_id = ''delivery_'' @ zero_ulid, tpl_attempt_plan_id = ''attempt_plan_'' @ zero_ulid,
     tpl_logical_due_ns = 0, tpl_tie_key = ''tie''\<rparr>"

definition resume_bundle :: BundleRecoveryPolicy where
  "resume_bundle = \<lparr>redelivery_templates = [resume_template], observation_rules = []\<rparr>"

definition resume_request :: "AmbiguityPolicy option \<Rightarrow> ResumeInvocationPolicy" where
  "resume_request policy = \<lparr>on_ambiguous = policy, noninteractive = True, cancel_requested = False, operator_decisions = []\<rparr>"

definition empty_schedule :: PersistedScheduleSnapshot where
  "empty_schedule = \<lparr>snapshot_entries = [], consumed_entry_ids = {}\<rparr>"

definition live_timestamp :: TransitionTimestamp where
  "live_timestamp = \<lparr>wall_time = \<lparr>instant = 0, utcoffset = Some 0\<rparr>, monotonic_elapsed = Some 5\<rparr>"

lemma resume_items: "unresolved_ambiguous_attempts (recovery_plan resume_context) = [first_item]"
  "plan_attempts (recovery_plan resume_context) = [first_item]"
  by (simp_all add: unresolved_ambiguous_attempts_def resume_context_def List.map_filter_def sample_scan_defs)

lemma resume_plan_ok: "recovery_plan_ok (recovery_plan resume_context)"
  using sample_run_id_valid
  by (simp add: recovery_plan_ok_def resume_context_def sample_plan_def MAX_OWNER_EPOCH_def List.map_filter_def
      sample_observation_item_def) (simp add: sample_scan_defs)

lemma first_item_coordinates: "attempt_coordinates_ok first_item"
  using sample_items(1) by (auto simp: attempt_item_built)

text \<open>A bundle that authorizes one more attempt of the delivery and nothing else.\<close>

definition resume_authorizes :: "BundleRecoveryPolicy \<Rightarrow> bool" where
  "resume_authorizes b \<longleftrightarrow> observation_rules b = [] \<and> (\<exists>t. redelivery_templates b = [t] \<and> RedeliveryTemplate_post_init t = Inr t \<and>
     tpl_scenario_id t = ''scenario_'' @ zero_ulid \<and> tpl_event_id t = ''event_'' @ zero_ulid \<and> tpl_delivery_id t = ''delivery_'' @ zero_ulid)"

lemma resume_bundle_authorizes: "resume_authorizes resume_bundle"
proof -
  have tie: "bounded_token MAX_TIE_KEY_BYTES ''tie''" by code_simp
  have "RedeliveryTemplate_post_init resume_template = Inr resume_template"
    unfolding RedeliveryTemplate_post_init_def resume_template_def RedeliveryTemplate.select_convs
    using tie zero_planned[of PlannedIdKind.SCENARIO] zero_planned[of PlannedIdKind.EVENT] zero_planned[of PlannedIdKind.DELIVERY]
      zero_planned[of PlannedIdKind.ATTEMPT_PLAN]
    by (simp add: policy_token_def validate_logical_nanoseconds_def signed_int64_def SIGNED_INT64_MIN_def SIGNED_INT64_MAX_def)
  then show ?thesis by (simp add: resume_authorizes_def resume_bundle_def resume_template_def)
qed

lemma resume_inputs:
  assumes "operator_decisions v = []" "resume_authorizes b"
  shows "resume_inputs_ok resume_context b v empty_schedule live_timestamp"
  using resume_plan_ok first_item_coordinates assms
  by (auto simp: resume_inputs_ok_def resume_items policy_limit_def MAX_POLICY_ITEMS_def MAX_SCHEDULE_ITEMS_def resume_authorizes_def
      PersistedScheduleSnapshot_post_init_def empty_schedule_def unique_values_def live_timestamp_def is_live_def)

lemma resume_redelivery_inputs:
  assumes "resume_authorizes b"
  shows "redelivery_inputs_ok (\<lambda>_. Inr next_attempt_id) resume_context b empty_schedule"
proof -
  have "ai_attempt_id first_item = sample_attempt_id" "ai_attempt_ordinal first_item = 1"
    by (simp_all add: sample_scan_defs)
  moreover have "next_attempt_id \<noteq> sample_attempt_id"
    by (simp add: sample_attempt_id_def next_attempt_id_def zero_ulid_def numeral_nat)
  ultimately show ?thesis
    using assms next_attempt_valid
    by (auto simp: redelivery_inputs_ok_def resume_items resume_authorizes_def empty_schedule_def fresh_ids_def MAX_SAFE_INTEGER_def
        MAX_POLICY_ITEMS_def MAX_SCHEDULE_ITEMS_def returns_iff)
qed

lemma redelivery_plan_redelivers:
  assumes "redelivery_block_reason items (scope_map template_scope (redelivery_templates bundle)) = None"
    and "redelivery_plan ctx fresh bundle items pending schedule timestamp = Inr p"
  shows "list_all2 redelivers items (rp_redeliveries p)"
proof -
  obtain existing schedule_ids rs where
    "redeliver_loop ctx (scope_map template_scope (redelivery_templates bundle)) fresh 0 existing schedule_ids items = Inr rs"
    "rp_redeliveries p = rs"
    using assms(2) unfolding redelivery_plan_def Let_def assms(1) option.case authorized_redelivery_plan_def case_prod_beta
      and_then_eq_Inr policy_plan_eq_Inr by auto
  then show ?thesis using redeliver_loop_redelivers(1) by blast
qed

lemma resume_redelivers:
  assumes "resume_authorizes b"
  obtains p where "build_plan (\<lambda>_. Inr next_attempt_id) resume_context b
      (resume_request (Some AmbiguityPolicy.REDELIVER)) empty_schedule live_timestamp = Inr p"
    "length (rp_redeliveries p) = 1" "delivery_execution_allowed p"
proof -
  let ?v = "resume_request (Some AmbiguityPolicy.REDELIVER)"
  have "resume_inputs_ok resume_context b ?v empty_schedule live_timestamp"
    using assms by (intro resume_inputs) (simp_all add: resume_request_def)
  from planning_returns[OF this] resume_redelivery_inputs[OF assms]
  obtain p where p: "build_plan (\<lambda>_. Inr next_attempt_id) resume_context b ?v empty_schedule live_timestamp = Inr p"
    unfolding returns_iff by blast
  obtain pending where allowed: "plan_allowed resume_context b ?v pending p" using build_plan_allowed[OF p] by blast
  have item: "item_scope first_item = (''scenario_'' @ zero_ulid, ''delivery_'' @ zero_ulid)" "is_redeliverable first_item"
    "ai_event_id first_item = ''event_'' @ zero_ulid" "ai_scenario_id first_item = ''scenario_'' @ zero_ulid"
    "ai_delivery_id first_item = ''delivery_'' @ zero_ulid"
    by (simp_all add: item_scope_def is_redeliverable_def sample_scan_defs)
  have "redelivery_block_reason [first_item] (scope_map template_scope (redelivery_templates b)) = None"
    using assms by (auto simp: resume_authorizes_def redelivery_block_reason_def scope_map_def template_scope_def item)
  moreover obtain rest where "redelivery_plan resume_context (\<lambda>_. Inr next_attempt_id) b [first_item] rest
      empty_schedule live_timestamp = Inr p"
    using p unfolding build_plan_def Let_def resume_items and_then_eq_Inr by (auto simp: resume_request_def)
  ultimately have "list_all2 redelivers [first_item] (rp_redeliveries p)" by (rule redelivery_plan_redelivers)
  then have one: "length (rp_redeliveries p) = 1" by (simp add: list_all2_lengthD[symmetric])
  from allowed one have "delivery_execution_allowed p"
    by (cases rule: plan_allowed.cases) (auto simp: delivery_execution_allowed_def)
  with p one show thesis by (rule that)
qed

theorem no_delivery_without_consent_witness:
  "\<exists>p. build_plan (\<lambda>_. Inr next_attempt_id) resume_context resume_bundle (resume_request (Some AmbiguityPolicy.REDELIVER))
      empty_schedule live_timestamp = Inr p \<and> delivery_execution_allowed p \<and> template_authorizes resume_bundle first_item"
proof -
  obtain p where p: "build_plan (\<lambda>_. Inr next_attempt_id) resume_context resume_bundle
      (resume_request (Some AmbiguityPolicy.REDELIVER)) empty_schedule live_timestamp = Inr p" "delivery_execution_allowed p"
    using resume_redelivers[OF resume_bundle_authorizes] .
  have "contains_ambiguity (recovery_plan resume_context)" by (simp add: contains_ambiguity_def resume_items)
  with no_delivery_without_consent[OF p(1)] p show ?thesis by (auto simp: resume_items resume_request_def)
qed

theorem resume_schedule_conserved_witness:
  "\<exists>p q. build_plan (\<lambda>_. Inr next_attempt_id) resume_context resume_bundle (resume_request (Some AmbiguityPolicy.REDELIVER))
      empty_schedule live_timestamp = Inr p \<and> reconstruct_queue p = Inr q \<and> queue_snapshot q = runnable_schedule p \<and>
      set (runnable_schedule p) \<union> set (deferred_schedule p) \<noteq> {}"
proof -
  obtain p where p: "build_plan (\<lambda>_. Inr next_attempt_id) resume_context resume_bundle
      (resume_request (Some AmbiguityPolicy.REDELIVER)) empty_schedule live_timestamp = Inr p" "length (rp_redeliveries p) = 1"
    using resume_redelivers[OF resume_bundle_authorizes] .
  from resume_schedule_conserved[OF p(1)] p show ?thesis by (auto simp: empty_schedule_def length_Suc_conv)
qed

theorem redelivery_extends_history_witness:
  "\<exists>p. build_plan (\<lambda>_. Inr next_attempt_id) resume_context resume_bundle (resume_request (Some AmbiguityPolicy.REDELIVER))
      empty_schedule live_timestamp = Inr p \<and>
    validate_attempt_predecessors (attempts_after (recovery_plan resume_context) (rp_redeliveries p)) = Inr ()"
proof -
  obtain p where p: "build_plan (\<lambda>_. Inr next_attempt_id) resume_context resume_bundle
      (resume_request (Some AmbiguityPolicy.REDELIVER)) empty_schedule live_timestamp = Inr p" "length (rp_redeliveries p) = 1"
    using resume_redelivers[OF resume_bundle_authorizes] .
  then have "rp_redeliveries p \<noteq> []" by auto
  moreover have "RecoveryPlan_post_init (recovery_plan resume_context) = Inr (recovery_plan resume_context)"
    using resume_plan_ok by (simp add: recovery_plan_eq_Inr)
  ultimately show ?thesis using redelivery_extends_history[OF p(1)] p(1) by blast
qed

theorem policy_planning_total_witness:
  "returns (build_plan (\<lambda>_. Inr next_attempt_id) resume_context resume_bundle (resume_request (Some AmbiguityPolicy.REDELIVER))
      empty_schedule live_timestamp)"
proof -
  have "resume_inputs_ok resume_context resume_bundle (resume_request (Some AmbiguityPolicy.REDELIVER)) empty_schedule live_timestamp"
    by (intro resume_inputs resume_bundle_authorizes) (simp add: resume_request_def)
  then show ?thesis by (rule policy_planning_total) (simp add: resume_redelivery_inputs[OF resume_bundle_authorizes])
qed

end
