(* ===== verification/Bundle_Policy.thy ===== *)
theory Bundle_Policy
  imports Resume_Guarantees
begin

text \<open>
  The recovery authorization of a run bundle, \<open>recovery/bundle_policy.py\<close>: from the immutable manifest and the
  recovery plan, the one redelivery template per ambiguous delivery that the manifest itself planned as its next,
  still unused, attempt after a timeout. A manifest is represented by the fields this code reads; whether its content
  still matches its identifier, \<open>manifest.verify_id()\<close>, is the argument \<open>id_check\<close>.
\<close>

section \<open>The manifest\<close>

record ScenarioPlan =
  plan_scenario_id :: string
  scenario_deliveries :: "DeliveryPlan list"

record RunManifest =
  manifest_seed_fingerprint :: string
  normalized_seed_hash_hex :: string
  manifest_scenarios :: "ScenarioPlan list"

definition manifest_generator :: "RunManifest \<Rightarrow> ContextGenerator result" where
  "manifest_generator m =
     and_then (from_normalized_seed_hash (fromhex (normalized_seed_hash_hex m))) (\<lambda>generator.
     and_then (seed_fingerprint (normalized_seed_hash generator)) (\<lambda>fingerprint.
     and_then (raise_unless (''sha256:'' @ fingerprint = manifest_seed_fingerprint m)
       (ValueError ''manifest generator seed and fingerprint disagree'')) (\<lambda>_. Inr generator)))"

definition retry_predicates :: "AttemptTemplate \<Rightarrow> RetryPredicate set option" where
  "retry_predicates t = (case conditional_on t of
       None \<Rightarrow> None
     | Some raw \<Rightarrow>
         let pieces = split_on CHR ''|'' raw in
         if pieces = [] \<or> list_ex (\<lambda>piece. piece = []) pieces \<or> length (remdups pieces) \<noteq> length pieces then None
         else if list_ex (\<lambda>piece. RetryPredicate_of piece = None) pieces then None
         else Some (set (map (\<lambda>piece. the (RetryPredicate_of piece)) pieces)))"

fun validate_retry_templates :: "int \<Rightarrow> AttemptTemplate list \<Rightarrow> unit result" where
  "validate_retry_templates previous_due [] = Inr ()"
| "validate_retry_templates previous_due (t # ts) =
     and_then (raise_unless (retry_predicates t \<noteq> None) (ValueError ''manifest retry predicate is malformed'')) (\<lambda>_.
     and_then (raise_unless (\<not> not_before_logical_ns t < previous_due)
       (ValueError ''manifest retry due times are not monotonic'')) (\<lambda>_.
       validate_retry_templates (not_before_logical_ns t) ts))"

definition validate_bundle_attempt_plan :: "DeliveryPlan \<Rightarrow> unit result" where
  "validate_bundle_attempt_plan d =
     and_then (raise_unless (attempt_plan d \<noteq> [] \<and>
         map template_ordinal (attempt_plan d) = map int [1..<length (attempt_plan d) + 1])
       (ValueError ''manifest attempt ordinals are not contiguous'')) (\<lambda>_.
     and_then (raise_unless (conditional_on (hd (attempt_plan d)) = None)
       (ValueError ''manifest initial attempt cannot be conditional'')) (\<lambda>_.
     and_then (raise_unless (not_before_logical_ns (hd (attempt_plan d)) = delivery_logical_time_ns d)
       (ValueError ''manifest initial attempt due time differs from its delivery'')) (\<lambda>_.
       validate_retry_templates (not_before_logical_ns (hd (attempt_plan d))) (tl (attempt_plan d)))))"

type_synonym scenario_entry = "nat \<times> ScenarioPlan \<times> (string \<rightharpoonup> DeliveryPlan)"

fun index_scenarios :: "nat \<Rightarrow> (string \<rightharpoonup> scenario_entry) \<Rightarrow> ScenarioPlan list \<Rightarrow> (string \<rightharpoonup> scenario_entry) result" where
  "index_scenarios n index [] = Inr index"
| "index_scenarios n index (s # ss) =
     and_then (raise_unless (index (plan_scenario_id s) = None) (ValueError ''manifest scenario identities are not unique'')) (\<lambda>_.
     and_then (raise_unless (map delivery_plan_ordinal (scenario_deliveries s) = map int [0..<length (scenario_deliveries s)])
       (ValueError ''manifest delivery ordinals are not contiguous'')) (\<lambda>_.
     let deliveries = map_of (rev (map (\<lambda>d. (delivery_id d, d)) (scenario_deliveries s))) in
     and_then (raise_unless (length (remdups (map delivery_id (scenario_deliveries s))) = length (scenario_deliveries s))
       (ValueError ''manifest delivery identities are not unique'')) (\<lambda>_.
     and_then (for_each validate_bundle_attempt_plan (scenario_deliveries s)) (\<lambda>_.
       index_scenarios (Suc n) (index(plan_scenario_id s \<mapsto> (n, s, deliveries))) ss))))"

definition scenario_index :: "RunManifest \<Rightarrow> (string \<rightharpoonup> scenario_entry) result" where
  "scenario_index m = index_scenarios 0 Map.empty (manifest_scenarios m)"

definition verify_bundle_recovery_manifest :: "unit result \<Rightarrow> RunManifest \<Rightarrow> unit result" where
  "verify_bundle_recovery_manifest id_check m =
     (case and_then id_check (\<lambda>_. and_then (manifest_generator m) (\<lambda>_. and_then (scenario_index m) (\<lambda>_. Inr ()))) of
        Inl e \<Rightarrow> if is_type_or_value_error e
          then Inl (ResumePolicyIntegrityError ''recovery policy requires a verified, internally consistent manifest'') else Inl e
      | Inr u \<Rightarrow> Inr u)"

section \<open>Deriving the templates\<close>

definition matching_delivery :: "AttemptRecoveryItem \<Rightarrow> (string \<rightharpoonup> scenario_entry) \<Rightarrow> (ScenarioPlan \<times> DeliveryPlan) result" where
  "matching_delivery i scenarios = (case scenarios (ai_scenario_id i) of
       None \<Rightarrow> Inl (ResumePolicyIntegrityError ''recovery attempt references a scenario absent from the manifest'')
     | Some (n, scenario, deliveries) \<Rightarrow> (case deliveries (ai_delivery_id i) of
           None \<Rightarrow> Inl (ResumePolicyIntegrityError ''recovery attempt coordinates differ from the verified manifest'')
         | Some d \<Rightarrow>
             and_then (raise_unless (\<not> (ai_scenario_ordinal i \<noteq> int n \<or> ai_delivery_ordinal i \<noteq> delivery_plan_ordinal d \<or>
                 ai_step_ordinal i \<noteq> delivery_plan_ordinal d \<or> ai_event_id i \<noteq> delivery_event_id d))
               (ResumePolicyIntegrityError ''recovery attempt coordinates differ from the verified manifest'')) (\<lambda>_.
               Inr (scenario, d))))"

definition used_attempt_ordinals :: "RecoveryPlan \<Rightarrow> string \<times> string \<Rightarrow> int set" where
  "used_attempt_ordinals plan scope = ai_attempt_ordinal ` {i \<in> set (plan_attempts plan). item_scope i = scope}"

definition authorized_unused_next_attempt :: "AttemptRecoveryItem \<Rightarrow> DeliveryPlan \<Rightarrow> int set \<Rightarrow> AttemptTemplate option" where
  "authorized_unused_next_attempt i d used =
     (let next_ordinal = ai_attempt_ordinal i + 1 in
      if next_ordinal > int (length (attempt_plan d)) \<or> next_ordinal \<in> used then None
      else let candidate = attempt_plan d ! nat (next_ordinal - 1) in
      if template_ordinal candidate \<noteq> next_ordinal then None
      else case retry_predicates candidate of
          None \<Rightarrow> None
        | Some predicates \<Rightarrow> if RetryPredicate.TIMED_OUT \<notin> predicates then None else Some candidate)"

definition possible_effect :: "AttemptRecoveryItem \<Rightarrow> bool" where
  "possible_effect i = (ambiguity i = RecoveryAmbiguity.POSSIBLE_RECEIVER_EFFECT \<and> is_redeliverable i)"

definition template_for :: "ContextGenerator \<Rightarrow> (string \<rightharpoonup> scenario_entry) \<Rightarrow> RecoveryPlan \<Rightarrow> (string \<times> string) list \<Rightarrow>
    AttemptRecoveryItem \<Rightarrow> RedeliveryTemplate option result" where
  "template_for generator scenarios plan scopes i =
     (if count_list scopes (item_scope i) \<noteq> 1 then Inr None
      else and_then (matching_delivery i scenarios) (\<lambda>(scenario, d).
        case authorized_unused_next_attempt i d (used_attempt_ordinals plan (item_scope i)) of
          None \<Rightarrow> Inr None
        | Some candidate \<Rightarrow>
            and_then (planned_id generator PlannedIdKind.ATTEMPT_PLAN
              [text_of (plan_scenario_id scenario), text_of (delivery_id d), text_of (int_str (template_ordinal candidate))])
              (\<lambda>attempt_plan_id.
            and_then (RedeliveryTemplate_post_init
              \<lparr>tpl_scenario_id = plan_scenario_id scenario, tpl_event_id = delivery_event_id d, tpl_delivery_id = delivery_id d,
               tpl_attempt_plan_id = attempt_plan_id, tpl_logical_due_ns = not_before_logical_ns candidate,
               tpl_tie_key = ''retry.'' @ attempt_plan_id\<rparr>) (\<lambda>t. Inr (Some t)))))"

definition derive_bundle_recovery_policy :: "unit result \<Rightarrow> RunManifest \<Rightarrow> RecoveryPlan \<Rightarrow> BundleRecoveryPolicy result" where
  "derive_bundle_recovery_policy id_check m plan =
     and_then (verify_bundle_recovery_manifest id_check m) (\<lambda>_.
     and_then (manifest_generator m) (\<lambda>generator.
     and_then (scenario_index m) (\<lambda>scenarios.
     let ambiguous = filter possible_effect (unresolved_ambiguous_attempts plan);
         scopes = map item_scope ambiguous in
     and_then (for_each (template_for generator scenarios plan scopes) ambiguous) (\<lambda>templates.
       BundleRecoveryPolicy_post_init
         \<lparr>redelivery_templates = List.map_filter (\<lambda>t. t) templates, observation_rules = []\<rparr>))))"

section \<open>The two predicate parsers agree\<close>

lemma retry_predicates_eq: "retry_predicates t = Some P \<longleftrightarrow> template_predicates t = Inr P"
proof -
  have "length (remdups pieces) \<noteq> length pieces \<longleftrightarrow> \<not> distinct pieces" for pieces :: "string list"
    using length_remdups_eq[of pieces] remdups_id_iff_distinct[of pieces] by simp
  moreover have "list_ex (\<lambda>piece. piece = []) pieces \<longleftrightarrow> [] \<in> set pieces" for pieces :: "string list" by (auto simp: list_ex_iff)
  ultimately show ?thesis
    by (auto simp: retry_predicates_def template_predicates_def Let_def comp_def split: option.splits)
qed

section \<open>The scenario index\<close>

definition indexes :: "ScenarioPlan list \<Rightarrow> (string \<rightharpoonup> scenario_entry) \<Rightarrow> bool" where
  "indexes ss index \<longleftrightarrow> (\<forall>k n s deliveries. index k = Some (n, s, deliveries) \<longrightarrow>
     n < length ss \<and> ss ! n = s \<and> plan_scenario_id s = k \<and>
     deliveries = map_of (rev (map (\<lambda>d. (delivery_id d, d)) (scenario_deliveries s))) \<and>
     (\<forall>d \<in> set (scenario_deliveries s). validate_bundle_attempt_plan d = Inr ()))"

lemma index_scenarios_indexes:
  assumes "index_scenarios (length front) index ss = Inr index'" "indexes front index"
  shows "indexes (front @ ss) index'"
  using assms
proof (induction ss arbitrary: front index)
  case (Cons s ss)
  let ?deliveries = "map_of (rev (map (\<lambda>d. (delivery_id d, d)) (scenario_deliveries s)))"
  let ?index = "index(plan_scenario_id s \<mapsto> (length front, s, ?deliveries))"
  have rest: "index_scenarios (length (front @ [s])) ?index ss = Inr index'"
    and plans: "returns (for_each validate_bundle_attempt_plan (scenario_deliveries s))"
    using Cons.prems(1) by (auto simp: and_then_eq_Inr Let_def returns_iff)
  have "\<forall>d \<in> set (scenario_deliveries s). validate_bundle_attempt_plan d = Inr ()"
    using plans unfolding for_each_unit_ok by (auto simp: returns_iff)
  then have "indexes (front @ [s]) ?index"
    using Cons.prems(2) by (auto simp: indexes_def nth_append intro: less_SucI)
  from Cons.IH[OF rest this] show ?case by simp
qed simp

lemma scenario_index_indexes: "scenario_index m = Inr index \<Longrightarrow> indexes (manifest_scenarios m) index"
  using index_scenarios_indexes[of "[]" Map.empty] by (simp add: scenario_index_def indexes_def)

section \<open>What the bundle authorizes\<close>

text \<open>The attempt that the manifest plans directly after an item, for the case that the item timed out.\<close>

definition plans_next :: "RunManifest \<Rightarrow> AttemptRecoveryItem \<Rightarrow> AttemptTemplate \<Rightarrow> bool" where
  "plans_next m i c \<longleftrightarrow> (\<exists>n d. n < length (manifest_scenarios m) \<and> ai_scenario_ordinal i = int n \<and>
     plan_scenario_id (manifest_scenarios m ! n) = ai_scenario_id i \<and> d \<in> set (scenario_deliveries (manifest_scenarios m ! n)) \<and>
     delivery_id d = ai_delivery_id i \<and> delivery_event_id d = ai_event_id i \<and> delivery_plan_ordinal d = ai_delivery_ordinal i \<and>
     c \<in> set (attempt_plan d) \<and> template_ordinal c = ai_attempt_ordinal i + 1 \<and>
     (\<exists>P. template_predicates c = Inr P \<and> RetryPredicate.TIMED_OUT \<in> P))"

definition unused_next :: "RecoveryPlan \<Rightarrow> AttemptRecoveryItem \<Rightarrow> bool" where
  "unused_next plan i \<longleftrightarrow> (\<forall>j \<in> set (plan_attempts plan). item_scope j = item_scope i \<longrightarrow> ai_attempt_ordinal j \<noteq> ai_attempt_ordinal i + 1)"

definition bundle_authorizes :: "RunManifest \<Rightarrow> RecoveryPlan \<Rightarrow> AttemptRecoveryItem \<Rightarrow> RedeliveryTemplate \<Rightarrow> bool" where
  "bundle_authorizes m plan i t \<longleftrightarrow> possible_effect i \<and> unused_next plan i \<and>
     tpl_scenario_id t = ai_scenario_id i \<and> tpl_event_id t = ai_event_id i \<and> tpl_delivery_id t = ai_delivery_id i \<and>
     (\<exists>c g. plans_next m i c \<and> manifest_generator m = Inr g \<and> tpl_logical_due_ns t = not_before_logical_ns c \<and>
       planned_id g PlannedIdKind.ATTEMPT_PLAN [text_of (ai_scenario_id i), text_of (ai_delivery_id i),
         text_of (int_str (ai_attempt_ordinal i + 1))] = Inr (tpl_attempt_plan_id t))"

lemma next_attempt_planned:
  assumes "validate_bundle_attempt_plan d = Inr ()" "authorized_unused_next_attempt i d used = Some c"
  shows "c \<in> set (attempt_plan d)" "template_ordinal c = ai_attempt_ordinal i + 1" "ai_attempt_ordinal i + 1 \<notin> used"
    "\<exists>P. template_predicates c = Inr P \<and> RetryPredicate.TIMED_OUT \<in> P"
proof -
  have "attempt_plan d \<noteq> []" using assms(1) by (auto simp: validate_bundle_attempt_plan_def and_then_eq_Inr)
  moreover have c: "ai_attempt_ordinal i + 1 \<le> int (length (attempt_plan d))" "c = attempt_plan d ! nat (ai_attempt_ordinal i)"
    "template_ordinal c = ai_attempt_ordinal i + 1" "ai_attempt_ordinal i + 1 \<notin> used"
    "\<exists>P. retry_predicates c = Some P \<and> RetryPredicate.TIMED_OUT \<in> P"
    using assms(2) by (auto simp: authorized_unused_next_attempt_def Let_def split: if_splits option.splits)
  ultimately have "nat (ai_attempt_ordinal i) < length (attempt_plan d)" by (cases "ai_attempt_ordinal i < 0") auto
  with c show "c \<in> set (attempt_plan d)" "template_ordinal c = ai_attempt_ordinal i + 1" "ai_attempt_ordinal i + 1 \<notin> used"
    "\<exists>P. template_predicates c = Inr P \<and> RetryPredicate.TIMED_OUT \<in> P"
    by (simp_all add: retry_predicates_eq)
qed

lemma matching_delivery_planned:
  assumes "matching_delivery i index = Inr (s, d)" "indexes ss index"
  shows "\<exists>n. n < length ss \<and> ss ! n = s \<and> ai_scenario_ordinal i = int n \<and> plan_scenario_id s = ai_scenario_id i \<and>
    d \<in> set (scenario_deliveries s) \<and> delivery_id d = ai_delivery_id i \<and> delivery_event_id d = ai_event_id i \<and>
    delivery_plan_ordinal d = ai_delivery_ordinal i \<and> validate_bundle_attempt_plan d = Inr ()"
proof -
  obtain n deliveries where entry: "index (ai_scenario_id i) = Some (n, s, deliveries)" "deliveries (ai_delivery_id i) = Some d"
    and same: "ai_scenario_ordinal i = int n" "ai_delivery_ordinal i = delivery_plan_ordinal d" "ai_event_id i = delivery_event_id d"
    using assms(1) by (auto simp: matching_delivery_def and_then_eq_Inr split: option.splits)
  have index: "n < length ss" "ss ! n = s" "plan_scenario_id s = ai_scenario_id i"
    "deliveries = map_of (rev (map (\<lambda>d. (delivery_id d, d)) (scenario_deliveries s)))"
    "\<forall>d \<in> set (scenario_deliveries s). validate_bundle_attempt_plan d = Inr ()"
    using assms(2) entry(1) unfolding indexes_def by blast+
  have "d \<in> set (scenario_deliveries s)" "delivery_id d = ai_delivery_id i"
    using entry(2) unfolding index(4) by (auto dest!: map_of_SomeD)
  with index same show ?thesis by auto
qed

lemma template_for_authorizes:
  assumes "template_for g index plan scopes i = Inr (Some t)" "indexes (manifest_scenarios m) index"
    and "manifest_generator m = Inr g" "possible_effect i"
  shows "bundle_authorizes m plan i t" "RedeliveryTemplate_post_init t = Inr t"
proof -
  obtain s d c aid where parts: "matching_delivery i index = Inr (s, d)"
    "authorized_unused_next_attempt i d (used_attempt_ordinals plan (item_scope i)) = Some c"
    "planned_id g PlannedIdKind.ATTEMPT_PLAN [text_of (plan_scenario_id s), text_of (delivery_id d), text_of (int_str (template_ordinal c))] = Inr aid"
    and made: "RedeliveryTemplate_post_init \<lparr>tpl_scenario_id = plan_scenario_id s, tpl_event_id = delivery_event_id d, tpl_delivery_id = delivery_id d,
       tpl_attempt_plan_id = aid, tpl_logical_due_ns = not_before_logical_ns c, tpl_tie_key = ''retry.'' @ aid\<rparr> = Inr t"
    using assms(1) unfolding template_for_def by (auto simp: and_then_eq_Inr split: if_splits option.splits)
  have t: "t = \<lparr>tpl_scenario_id = plan_scenario_id s, tpl_event_id = delivery_event_id d, tpl_delivery_id = delivery_id d,
       tpl_attempt_plan_id = aid, tpl_logical_due_ns = not_before_logical_ns c, tpl_tie_key = ''retry.'' @ aid\<rparr>"
    using made by (auto simp: RedeliveryTemplate_post_init_def and_then_eq_Inr)
  show "RedeliveryTemplate_post_init t = Inr t" using made t by simp
  from matching_delivery_planned[OF parts(1) assms(2)] obtain n where place: "n < length (manifest_scenarios m)" "manifest_scenarios m ! n = s"
    "ai_scenario_ordinal i = int n" "plan_scenario_id s = ai_scenario_id i" "d \<in> set (scenario_deliveries s)" "delivery_id d = ai_delivery_id i"
    "delivery_event_id d = ai_event_id i" "delivery_plan_ordinal d = ai_delivery_ordinal i" "validate_bundle_attempt_plan d = Inr ()" by blast
  note c = next_attempt_planned[OF place(9) parts(2)]
  have "unused_next plan i" using c(3) unfolding unused_next_def used_attempt_ordinals_def by (metis (mono_tags, lifting) imageI mem_Collect_eq)
  moreover have "plans_next m i c" unfolding plans_next_def using place c by blast
  ultimately show "bundle_authorizes m plan i t"
    using assms(3,4) parts(3) place(4,6,7) c(2) by (auto simp: bundle_authorizes_def t)
qed

lemma derived_templates:
  assumes "derive_bundle_recovery_policy id_check m plan = Inr b" "t \<in> set (redelivery_templates b)"
  shows "\<exists>i \<in> set (unresolved_ambiguous_attempts plan). bundle_authorizes m plan i t" "RedeliveryTemplate_post_init t = Inr t"
proof -
  let ?ambiguous = "filter possible_effect (unresolved_ambiguous_attempts plan)"
  obtain g index ts where g: "manifest_generator m = Inr g" and index: "scenario_index m = Inr index"
    and ts: "for_each (template_for g index plan (map item_scope ?ambiguous)) ?ambiguous = Inr ts"
    and b: "redelivery_templates b = List.map_filter (\<lambda>t. t) ts"
    using assms(1) by (auto simp: derive_bundle_recovery_policy_def and_then_eq_Inr Let_def BundleRecoveryPolicy_post_init_def)
  have "Some t \<in> set ts" using assms(2) b by (auto simp: List.map_filter_def)
  from for_each_member[OF ts this] obtain i where i: "i \<in> set ?ambiguous"
    "template_for g index plan (map item_scope ?ambiguous) i = Inr (Some t)" by blast
  from template_for_authorizes[OF i(2) scenario_index_indexes[OF index] g] i(1)
  show "\<exists>i \<in> set (unresolved_ambiguous_attempts plan). bundle_authorizes m plan i t" "RedeliveryTemplate_post_init t = Inr t"
    by auto
qed

text \<open>The bundle authorizes only what its manifest planned. Every redelivery template derived from a manifest belongs
  to an unresolved ambiguous attempt that may have had an effect on the receiver, in the very scenario, delivery and event of
  the manifest; it stands for the manifest's next attempt of that delivery, which the manifest makes conditional on a
  timeout and which no recorded attempt has used; its identifier and its due time are the planned ones. Observation rules are
  never inferred.\<close>

lemma bundle_authorizes_planned_attempts:
  assumes "derive_bundle_recovery_policy id_check m plan = Inr b"
  shows "observation_rules b = [] \<and>
    (\<forall>t \<in> set (redelivery_templates b). \<exists>i \<in> set (unresolved_ambiguous_attempts plan). bundle_authorizes m plan i t)"
  using derived_templates(1)[OF assms] assms
  by (auto simp: derive_bundle_recovery_policy_def and_then_eq_Inr Let_def BundleRecoveryPolicy_post_init_def)

section \<open>Redelivery under a derived bundle\<close>

lemma build_plan_redelivers:
  assumes "build_plan fresh ctx bundle v schedule timestamp = Inr p" "rp_redeliveries p \<noteq> []"
  obtains pending where "redelivery_plan ctx fresh bundle (unresolved_ambiguous_attempts (recovery_plan ctx)) pending schedule timestamp = Inr p"
    "on_ambiguous v = Some AmbiguityPolicy.REDELIVER"
proof -
  obtain pending where allowed: "plan_allowed ctx bundle v pending p" using build_plan_allowed[OF assms(1)] by blast
  then have "\<not> cancel_requested v" "on_ambiguous v = Some AmbiguityPolicy.REDELIVER"
    "unresolved_ambiguous_attempts (recovery_plan ctx) \<noteq> []"
    using assms(2) by (cases rule: plan_allowed.cases; auto)+
  with assms(1) that show thesis by (auto simp: build_plan_def Let_def and_then_eq_Inr)
qed

text \<open>A redelivery takes its planned attempt and its due time from the template of the item's delivery.\<close>

definition follows_template :: "(string \<times> string \<rightharpoonup> RedeliveryTemplate) \<Rightarrow> AttemptRecoveryItem \<Rightarrow> RedeliveryAttemptPlan \<Rightarrow> bool" where
  "follows_template templates i r \<longleftrightarrow> rd_attempt_plan_id r = tpl_attempt_plan_id (the (templates (item_scope i))) \<and>
     ScheduleItem.logical_due_ns (rd_schedule_item r) = tpl_logical_due_ns (the (templates (item_scope i))) \<and>
     ScheduleItem.entity_id (rd_schedule_item r) = tpl_attempt_plan_id (the (templates (item_scope i)))"

lemma redelivery_from_template:
  assumes "redelivery_from ctx i t a = Inr r"
  shows "rd_attempt_plan_id r = tpl_attempt_plan_id t" "ScheduleItem.logical_due_ns (rd_schedule_item r) = tpl_logical_due_ns t"
    "ScheduleItem.entity_id (rd_schedule_item r) = tpl_attempt_plan_id t"
  using assms by (auto simp: redelivery_from_def Let_def and_then_eq_Inr dest!: redelivery_plan_same schedule_item_same)

lemma redeliver_loop_templates:
  "redeliver_loop ctx templates fresh k existing ids items = Inr rs \<Longrightarrow> list_all2 (follows_template templates) items rs"
proof (induction items arbitrary: k existing ids rs)
  case (Cons i items)
  then show ?case
    by (auto simp: and_then_eq_Inr Let_def follows_template_def redelivery_from_template)
qed simp

lemma redelivery_plan_templates:
  assumes "redelivery_plan ctx fresh bundle items pending schedule timestamp = Inr p" "rp_redeliveries p \<noteq> []"
  shows "list_all2 (\<lambda>i r. redelivers i r \<and> follows_template (scope_map template_scope (redelivery_templates bundle)) i r) items (rp_redeliveries p)"
    "\<forall>i \<in> set items. \<exists>t. scope_map template_scope (redelivery_templates bundle) (item_scope i) = Some t \<and> tpl_scenario_id t = ai_scenario_id i \<and>
      tpl_event_id t = ai_event_id i \<and> tpl_delivery_id t = ai_delivery_id i"
    "distinct (map item_scope items)"
proof -
  let ?templates = "scope_map template_scope (redelivery_templates bundle)"
  have none: "redelivery_block_reason items ?templates = None"
  proof (rule ccontr)
    assume "redelivery_block_reason items ?templates \<noteq> None"
    then obtain why where "stop_plan ctx (Some AmbiguityPolicy.REDELIVER) items pending timestamp why = Inr p"
      using assms(1) by (auto simp: redelivery_plan_def Let_def)
    then show False using assms(2) by (auto simp: stop_plan_def and_then_eq_Inr policy_plan_eq_Inr)
  qed
  then show "\<forall>i \<in> set items. \<exists>t. ?templates (item_scope i) = Some t \<and> tpl_scenario_id t = ai_scenario_id i \<and>
      tpl_event_id t = ai_event_id i \<and> tpl_delivery_id t = ai_delivery_id i"
    by (auto simp: redelivery_block_reason_def template_block_reason_None split: if_splits)
  show "distinct (map item_scope items)" by (rule redelivery_authorized(1)[OF none])
  obtain existing ids rs where loop: "redeliver_loop ctx ?templates fresh 0 existing ids items = Inr rs" and rs: "rp_redeliveries p = rs"
    using assms(1) unfolding redelivery_plan_def Let_def none option.case authorized_redelivery_plan_def case_prod_beta
      and_then_eq_Inr policy_plan_eq_Inr by auto
  show "list_all2 (\<lambda>i r. redelivers i r \<and> follows_template ?templates i r) items (rp_redeliveries p)"
    using redeliver_loop_redelivers(1)[OF loop] redeliver_loop_templates[OF loop] unfolding rs list_all2_conv_all_nth by blast
qed

text \<open>C2. A redelivery carries out the manifest. When the engine redelivers under a policy derived from a manifest, every new
  attempt follows an ambiguous attempt of the same delivery that may have had an effect, with the next ordinal; the
  manifest plans an attempt with exactly this ordinal for this delivery, conditional on a timeout; no recorded attempt of the
  delivery has this ordinal; and the new attempt is scheduled under the planned identifier at the planned time.\<close>

theorem redelivery_executes_manifest:
  assumes "derive_bundle_recovery_policy id_check m (recovery_plan ctx) = Inr bundle"
    and "build_plan fresh ctx bundle v schedule timestamp = Inr p" "r \<in> set (rp_redeliveries p)"
  shows "\<exists>i c g. i \<in> set (unresolved_ambiguous_attempts (recovery_plan ctx)) \<and> redelivers i r \<and>
    plans_next m i c \<and> unused_next (recovery_plan ctx) i \<and> template_ordinal c = rd_attempt_ordinal r \<and>
    ScheduleItem.logical_due_ns (rd_schedule_item r) = not_before_logical_ns c \<and> manifest_generator m = Inr g \<and>
    planned_id g PlannedIdKind.ATTEMPT_PLAN [text_of (rd_scenario_id r), text_of (rd_delivery_id r),
      text_of (int_str (rd_attempt_ordinal r))] = Inr (ScheduleItem.entity_id (rd_schedule_item r))"
proof -
  let ?items = "unresolved_ambiguous_attempts (recovery_plan ctx)"
  let ?templates = "scope_map template_scope (redelivery_templates bundle)"
  have "rp_redeliveries p \<noteq> []" using assms(3) by auto
  from build_plan_redelivers[OF assms(2) this]
  obtain pending where "redelivery_plan ctx fresh bundle ?items pending schedule timestamp = Inr p" by blast
  note facts = redelivery_plan_templates[OF this \<open>rp_redeliveries p \<noteq> []\<close>]
  obtain i where i: "i \<in> set ?items" "redelivers i r" "follows_template ?templates i r"
  proof -
    obtain k where "k < length (rp_redeliveries p)" "r = rp_redeliveries p ! k" using assms(3) by (auto simp: in_set_conv_nth)
    then show thesis using facts(1) that[of "?items ! k"] by (auto simp: list_all2_conv_all_nth)
  qed
  obtain t where t: "?templates (item_scope i) = Some t" using facts(2) i(1) by blast
  have scope: "t \<in> set (redelivery_templates bundle)" "template_scope t = item_scope i" using scope_map_SomeD[OF t] by auto
  obtain j where j: "j \<in> set ?items" "bundle_authorizes m (recovery_plan ctx) j t"
    using derived_templates(1)[OF assms(1) scope(1)] by blast
  have "item_scope j = item_scope i" using j(2) scope(2) by (simp add: bundle_authorizes_def template_scope_def item_scope_def)
  then have "j = i" using facts(3) i(1) j(1) by (meson distinct_map inj_onD)
  with j(2) obtain c g where "plans_next m i c" "unused_next (recovery_plan ctx) i" "manifest_generator m = Inr g"
    "tpl_logical_due_ns t = not_before_logical_ns c"
    "planned_id g PlannedIdKind.ATTEMPT_PLAN [text_of (ai_scenario_id i), text_of (ai_delivery_id i),
       text_of (int_str (ai_attempt_ordinal i + 1))] = Inr (tpl_attempt_plan_id t)"
    unfolding bundle_authorizes_def by blast
  moreover from this(1) have "template_ordinal c = ai_attempt_ordinal i + 1" by (auto simp: plans_next_def)
  moreover have "ScheduleItem.logical_due_ns (rd_schedule_item r) = tpl_logical_due_ns t"
    "ScheduleItem.entity_id (rd_schedule_item r) = tpl_attempt_plan_id t"
    using i(3) t by (simp_all add: follows_template_def)
  moreover have "rd_scenario_id r = ai_scenario_id i" "rd_delivery_id r = ai_delivery_id i" "rd_attempt_ordinal r = ai_attempt_ordinal i + 1"
    using i(2) by (simp_all add: redelivers_def)
  ultimately show ?thesis using i(1,2) by metis
qed

section \<open>Witnesses\<close>

definition sample_delivery :: DeliveryPlan where
  "sample_delivery = \<lparr>delivery_id = ''delivery_'' @ zero_ulid, delivery_event_id = ''event_'' @ zero_ulid, delivery_logical_time_ns = 0,
     delivery_plan_ordinal = 0, delivery_concurrency_group = None, attempt_plan =
       [\<lparr>template_ordinal = 1, not_before_logical_ns = 0, request_blob = [], headers_sha256 = [], conditional_on = None\<rparr>,
        \<lparr>template_ordinal = 2, not_before_logical_ns = 7, request_blob = [], headers_sha256 = [], conditional_on = Some ''timed_out''\<rparr>]\<rparr>"

definition sample_manifest :: RunManifest where
  "sample_manifest = \<lparr>manifest_seed_fingerprint = ''sha256:'' @ hexdigest (sha256 (SEED_FINGERPRINT_DOMAIN_SEPARATOR @ replicate 32 0)),
     normalized_seed_hash_hex = hexdigest (replicate 32 0),
     manifest_scenarios = [\<lparr>plan_scenario_id = ''scenario_'' @ zero_ulid, scenario_deliveries = [sample_delivery]\<rparr>]\<rparr>"

lemma sample_manifest_generator: "manifest_generator sample_manifest = Inr \<lparr>normalized_seed_hash = replicate 32 0\<rparr>"
  by (simp add: manifest_generator_def sample_manifest_def fromhex_hexdigest from_normalized_seed_hash_def ContextGenerator_init_def
      validate_normalized_seed_hash_def DIGEST_SIZE_def seed_fingerprint_def)

lemma sample_predicates: "retry_predicates \<lparr>template_ordinal = 2, not_before_logical_ns = 7, request_blob = [], headers_sha256 = [],
    conditional_on = Some ''timed_out''\<rparr> = Some {RetryPredicate.TIMED_OUT}"
  by code_simp

lemma sample_attempt_plan: "validate_bundle_attempt_plan sample_delivery = Inr ()"
  using sample_predicates by (simp add: validate_bundle_attempt_plan_def sample_delivery_def)

lemma derived_bundle:
  obtains b where "derive_bundle_recovery_policy (Inr ()) sample_manifest (recovery_plan resume_context) = Inr b" "resume_authorizes b"
proof -
  let ?g = "\<lparr>normalized_seed_hash = replicate 32 0\<rparr>" and ?s = "\<lparr>plan_scenario_id = ''scenario_'' @ zero_ulid, scenario_deliveries = [sample_delivery]\<rparr>"
  let ?index = "[''scenario_'' @ zero_ulid \<mapsto> (0, ?s, [delivery_id sample_delivery \<mapsto> sample_delivery])]"
  let ?key = "[text_of (''scenario_'' @ zero_ulid), text_of (''delivery_'' @ zero_ulid), text_of (int_str 2)]"
  have index: "scenario_index sample_manifest = Inr ?index"
    using sample_attempt_plan by (simp add: scenario_index_def sample_manifest_def) (simp add: sample_delivery_def)
  have two: "int_str 2 = ''2''" by code_simp
  have "validate_natural_component (text_of x) = Inr (text_of x)" if "x \<in> {''scenario_'' @ zero_ulid, ''delivery_'' @ zero_ulid, int_str 2}" for x
    using that unfolding two by (intro natural_component_ascii) (auto simp: ascii_def zero_ulid_def list_all_iff)
  then have "validate_natural_key ?key = Inr ?key" by (simp add: validate_natural_key_def)
  from planned_id_returns[OF this] obtain aid where aid: "planned_id ?g PlannedIdKind.ATTEMPT_PLAN ?key = Inr aid" by blast
  then have valid: "validate_planned_id aid (Some PlannedIdKind.ATTEMPT_PLAN) = Inr aid" using planned_id_parses by blast
  have tie: "bounded_token MAX_TIE_KEY_BYTES (''retry.'' @ aid)"
  proof -
    have "list_all token_char ''retry.''" by code_simp
    then show ?thesis using planned_id_text[of aid PlannedIdKind.ATTEMPT_PLAN] valid by (simp add: bounded_token_def MAX_TIE_KEY_BYTES_def returns_iff)
  qed
  let ?t = "\<lparr>tpl_scenario_id = ''scenario_'' @ zero_ulid, tpl_event_id = ''event_'' @ zero_ulid, tpl_delivery_id = ''delivery_'' @ zero_ulid,
     tpl_attempt_plan_id = aid, tpl_logical_due_ns = 7, tpl_tie_key = ''retry.'' @ aid\<rparr>"
  have t: "RedeliveryTemplate_post_init ?t = Inr ?t"
    using tie valid zero_planned[of PlannedIdKind.SCENARIO] zero_planned[of PlannedIdKind.EVENT] zero_planned[of PlannedIdKind.DELIVERY]
    unfolding RedeliveryTemplate_post_init_def RedeliveryTemplate.select_convs
    by (simp add: policy_token_def validate_logical_nanoseconds_def signed_int64_def SIGNED_INT64_MIN_def SIGNED_INT64_MAX_def)
  have item: "item_scope first_item = (''scenario_'' @ zero_ulid, ''delivery_'' @ zero_ulid)" "possible_effect first_item"
    "ai_scenario_ordinal first_item = 0" "ai_delivery_ordinal first_item = 0" "ai_step_ordinal first_item = 0"
    "ai_event_id first_item = ''event_'' @ zero_ulid" "ai_attempt_ordinal first_item = 1"
    by (simp_all add: item_scope_def possible_effect_def is_redeliverable_def sample_scan_defs)
  have ids: "ai_scenario_id first_item = ''scenario_'' @ zero_ulid" "ai_delivery_id first_item = ''delivery_'' @ zero_ulid"
    using item(1) by (simp_all add: item_scope_def)
  have matching: "matching_delivery first_item ?index = Inr (?s, sample_delivery)"
    unfolding matching_delivery_def ids by (simp add: item sample_delivery_def)
  have candidate: "authorized_unused_next_attempt first_item sample_delivery {1} = Some \<lparr>template_ordinal = 2, not_before_logical_ns = 7,
      request_blob = [], headers_sha256 = [], conditional_on = Some ''timed_out''\<rparr>"
    using sample_predicates by (simp add: authorized_unused_next_attempt_def item sample_delivery_def)
  have used: "used_attempt_ordinals (recovery_plan resume_context) (item_scope first_item) = {1}"
    by (auto simp: used_attempt_ordinals_def resume_items item(7))
  have "template_for ?g ?index (recovery_plan resume_context) [item_scope first_item] first_item = Inr (Some ?t)"
    using aid t unfolding template_for_def matching and_then_Inr prod.case used candidate option.case by (simp add: sample_delivery_def)
  then have "for_each (template_for ?g ?index (recovery_plan resume_context) [item_scope first_item]) [first_item] = Inr [Some ?t]" by simp
  then have "derive_bundle_recovery_policy (Inr ()) sample_manifest (recovery_plan resume_context) =
      BundleRecoveryPolicy_post_init \<lparr>redelivery_templates = [?t], observation_rules = []\<rparr>"
    unfolding derive_bundle_recovery_policy_def verify_bundle_recovery_manifest_def sample_manifest_generator index and_then_Inr resume_items
    by (simp add: item List.map_filter_def)
  moreover have "BundleRecoveryPolicy_post_init \<lparr>redelivery_templates = [?t], observation_rules = []\<rparr> =
      Inr \<lparr>redelivery_templates = [?t], observation_rules = []\<rparr>"
    by (simp add: BundleRecoveryPolicy_post_init_def policy_limit_def MAX_POLICY_ITEMS_def MAX_SCHEDULE_ITEMS_def unique_scope_def)
  moreover have "resume_authorizes \<lparr>redelivery_templates = [?t], observation_rules = []\<rparr>" using t by (simp add: resume_authorizes_def)
  ultimately show thesis using that by simp
qed

lemma bundle_authorizes_planned_attempts_witness:
  "\<exists>b t. derive_bundle_recovery_policy (Inr ()) sample_manifest (recovery_plan resume_context) = Inr b \<and>
    redelivery_templates b = [t] \<and> bundle_authorizes sample_manifest (recovery_plan resume_context) first_item t"
proof -
  obtain b where b: "derive_bundle_recovery_policy (Inr ()) sample_manifest (recovery_plan resume_context) = Inr b" "resume_authorizes b"
    by (rule derived_bundle)
  from b(2) obtain t where "redelivery_templates b = [t]" by (auto simp: resume_authorizes_def)
  with bundle_authorizes_planned_attempts[OF b(1)] b(1) show ?thesis by (auto simp: resume_items)
qed

theorem redelivery_executes_manifest_witness:
  "\<exists>b p r c. derive_bundle_recovery_policy (Inr ()) sample_manifest (recovery_plan resume_context) = Inr b \<and>
    build_plan (\<lambda>_. Inr next_attempt_id) resume_context b (resume_request (Some AmbiguityPolicy.REDELIVER)) empty_schedule live_timestamp = Inr p \<and>
    rp_redeliveries p = [r] \<and> plans_next sample_manifest first_item c \<and> template_ordinal c = rd_attempt_ordinal r"
proof -
  obtain b where b: "derive_bundle_recovery_policy (Inr ()) sample_manifest (recovery_plan resume_context) = Inr b" "resume_authorizes b"
    by (rule derived_bundle)
  obtain p where p: "build_plan (\<lambda>_. Inr next_attempt_id) resume_context b (resume_request (Some AmbiguityPolicy.REDELIVER)) empty_schedule
      live_timestamp = Inr p" "length (rp_redeliveries p) = 1"
    using resume_redelivers[OF b(2)] .
  then obtain r where r: "rp_redeliveries p = [r]" by (auto simp: length_Suc_conv)
  from redelivery_executes_manifest[OF b(1) p(1), of r] r
  obtain c where "plans_next sample_manifest first_item c" "template_ordinal c = rd_attempt_ordinal r" by (auto simp: resume_items)
  with b p r show ?thesis by blast
qed

end
