(* ===== verification/Observer_Json.thy ===== *)
theory Observer_Json
  imports Byte_Text
begin

text \<open>
  The bounded JSON values of \<open>observers/protocol.py\<close>: \<open>_validate_bounded_text\<close>, \<open>FrozenJsonObject\<close>,
  \<open>_freeze_json\<close> with its shared node counter, and \<open>_thaw_json\<close>. A JSON object is the list of its items in
  insertion order. Values are trees, so that the code's reference-cycle check, which keeps the containers on the
  current path, never fires. The theorem is exact: what is frozen is what the limits allow, and nothing is lost.
\<close>

section \<open>Limits\<close>

definition MAX_JSON_ARRAY_ITEMS :: nat where "MAX_JSON_ARRAY_ITEMS = 1000"
definition MAX_JSON_OBJECT_PROPERTIES :: nat where "MAX_JSON_OBJECT_PROPERTIES = 1000"
definition MAX_JSON_DEPTH :: nat where "MAX_JSON_DEPTH = 32"
definition MAX_JSON_NODES :: nat where "MAX_JSON_NODES = 10000"
definition MAX_JSON_STRING_LENGTH :: nat where "MAX_JSON_STRING_LENGTH = 4096"
definition MAX_JSON_OBJECT_KEY_LENGTH :: nat where "MAX_JSON_OBJECT_KEY_LENGTH = 256"
definition MIN_IJSON_INTEGER :: int where "MIN_IJSON_INTEGER = -9007199254740991"
definition MAX_IJSON_INTEGER :: int where "MAX_IJSON_INTEGER = 9007199254740991"

definition validate_bounded_text :: "ustring \<Rightarrow> string \<Rightarrow> nat \<Rightarrow> bool \<Rightarrow> ustring result" where
  "validate_bounded_text v field_name maximum allow_empty =
     and_then (raise_unless (\<not> ((\<not> allow_empty \<and> v = []) \<or> length v > maximum))
       (ValueError (field_name @ '' exceeds its bounded length contract''))) (\<lambda>_.
     case utf8_encode v of
       Inl _ \<Rightarrow> Inl (ValueError (field_name @ '' must contain Unicode scalar values''))
     | Inr _ \<Rightarrow>
         and_then (raise_unless (\<not> list_ex (\<lambda>c. c < 32 \<or> c = 127) v)
           (ValueError (field_name @ '' must not contain control characters''))) (\<lambda>_. Inr v))"

section \<open>Values\<close>

datatype json_value =
    JNull | JBool bool | JInt int | JFloat | JString ustring | JArray "json_value list" |
    JObject "(ustring \<times> json_value) list" | JOther

datatype frozen_json =
    FNull | FBool bool | FInt int | FString ustring | FTuple "frozen_json list" |
    FrozenJsonObject "(ustring \<times> frozen_json) list"

definition FrozenJsonObject_init :: "(ustring \<times> frozen_json) list \<Rightarrow> frozen_json result" where
  "FrozenJsonObject_init items =
     and_then (raise_unless (distinct (map fst items)) (ValueError ''frozen JSON object keys must be unique''))
       (\<lambda>_. Inr (FrozenJsonObject items))"

text \<open>One more node at a depth: the counter after it.\<close>

definition count_node :: "nat \<Rightarrow> nat \<Rightarrow> nat result" where
  "count_node depth nodes =
     and_then (raise_unless (\<not> nodes + 1 > MAX_JSON_NODES)
       (ObserverJsonResourceLimitError ''OBS_PROTOCOL_JSON_NODE_LIMIT'')) (\<lambda>_.
     and_then (raise_unless (\<not> depth > MAX_JSON_DEPTH)
       (ObserverJsonResourceLimitError ''OBS_PROTOCOL_JSON_DEPTH_LIMIT'')) (\<lambda>_. Inr (nodes + 1)))"

definition freeze_key :: "ustring \<Rightarrow> ustring result" where
  "freeze_key key =
     and_then (raise_unless (\<not> length key > MAX_JSON_OBJECT_KEY_LENGTH)
       (ObserverJsonResourceLimitError ''OBS_PROTOCOL_JSON_KEY_LIMIT'')) (\<lambda>_.
     validate_bounded_text key ''observer JSON object key'' MAX_JSON_OBJECT_KEY_LENGTH False)"

text \<open>\<open>_freeze_json_node\<close>, which threads the node counter; the result carries the counter.\<close>

fun freeze_json_node :: "nat \<Rightarrow> json_value \<Rightarrow> nat \<Rightarrow> (nat \<times> frozen_json) result"
and freeze_items :: "nat \<Rightarrow> json_value list \<Rightarrow> nat \<Rightarrow> (nat \<times> frozen_json list) result"
and freeze_properties :: "nat \<Rightarrow> (ustring \<times> json_value) list \<Rightarrow> nat \<Rightarrow> (nat \<times> (ustring \<times> frozen_json) list) result"
where
  "freeze_json_node depth JNull nodes = and_then (count_node depth nodes) (\<lambda>n. Inr (n, FNull))"
| "freeze_json_node depth (JBool b) nodes = and_then (count_node depth nodes) (\<lambda>n. Inr (n, FBool b))"
| "freeze_json_node depth (JInt i) nodes = and_then (count_node depth nodes) (\<lambda>n.
     and_then (raise_unless (MIN_IJSON_INTEGER \<le> i \<and> i \<le> MAX_IJSON_INTEGER)
       (ValueError ''observer JSON integer exceeds the I-JSON-safe range'')) (\<lambda>_. Inr (n, FInt i)))"
| "freeze_json_node depth JFloat nodes = and_then (count_node depth nodes) (\<lambda>_.
     Inl (TypeError ''observer JSON does not permit floating-point values''))"
| "freeze_json_node depth (JString s) nodes = and_then (count_node depth nodes) (\<lambda>n.
     and_then (raise_unless (\<not> length s > MAX_JSON_STRING_LENGTH)
       (ObserverJsonResourceLimitError ''OBS_PROTOCOL_JSON_STRING_LIMIT'')) (\<lambda>_.
     and_then (validate_bounded_text s ''observer JSON string'' MAX_JSON_STRING_LENGTH True) (\<lambda>s. Inr (n, FString s))))"
| "freeze_json_node depth (JArray vs) nodes = and_then (count_node depth nodes) (\<lambda>n.
     and_then (raise_unless (\<not> length vs > MAX_JSON_ARRAY_ITEMS)
       (ObserverJsonResourceLimitError ''OBS_PROTOCOL_JSON_ARRAY_LIMIT'')) (\<lambda>_.
     and_then (freeze_items (depth + 1) vs n) (\<lambda>(n, fs). Inr (n, FTuple fs))))"
| "freeze_json_node depth (JObject ps) nodes = and_then (count_node depth nodes) (\<lambda>n.
     and_then (raise_unless (\<not> length ps > MAX_JSON_OBJECT_PROPERTIES)
       (ObserverJsonResourceLimitError ''OBS_PROTOCOL_JSON_OBJECT_LIMIT'')) (\<lambda>_.
     and_then (freeze_properties (depth + 1) ps n) (\<lambda>(n, fs).
     and_then (FrozenJsonObject_init fs) (\<lambda>f. Inr (n, f)))))"
| "freeze_json_node depth JOther nodes = and_then (count_node depth nodes) (\<lambda>_.
     Inl (TypeError ''observer values must contain only JSON-compatible types''))"
| "freeze_items depth [] nodes = Inr (nodes, [])"
| "freeze_items depth (v # vs) nodes = and_then (freeze_json_node depth v nodes) (\<lambda>(n, f).
     and_then (freeze_items depth vs n) (\<lambda>(n, fs). Inr (n, f # fs)))"
| "freeze_properties depth [] nodes = Inr (nodes, [])"
| "freeze_properties depth ((key, v) # ps) nodes = and_then (freeze_key key) (\<lambda>normalized_key.
     and_then (freeze_json_node depth v nodes) (\<lambda>(n, f).
     and_then (freeze_properties depth ps n) (\<lambda>(n, fs). Inr (n, (normalized_key, f) # fs))))"

definition freeze_json :: "json_value \<Rightarrow> frozen_json result" where
  "freeze_json v = and_then (freeze_json_node 1 v 0) (\<lambda>(_, f). Inr f)"

fun thaw_json :: "frozen_json \<Rightarrow> json_value" where
  "thaw_json FNull = JNull"
| "thaw_json (FBool b) = JBool b"
| "thaw_json (FInt i) = JInt i"
| "thaw_json (FString s) = JString s"
| "thaw_json (FTuple fs) = JArray (map thaw_json fs)"
| "thaw_json (FrozenJsonObject ps) = JObject (map (\<lambda>(k, f). (k, thaw_json f)) ps)"

section \<open>What the limits allow\<close>

fun json_nodes :: "json_value \<Rightarrow> nat" where
  "json_nodes (JArray vs) = 1 + sum_list (map json_nodes vs)"
| "json_nodes (JObject ps) = 1 + sum_list (map (\<lambda>(_, v). json_nodes v) ps)"
| "json_nodes _ = 1"

fun json_depth :: "json_value \<Rightarrow> nat" where
  "json_depth (JArray vs) = 1 + Max (insert 0 (set (map json_depth vs)))"
| "json_depth (JObject ps) = 1 + Max (insert 0 (set (map (\<lambda>(_, v). json_depth v) ps)))"
| "json_depth _ = 1"

definition safe_text :: "nat \<Rightarrow> ustring \<Rightarrow> bool" where
  "safe_text maximum s = (length s \<le> maximum \<and> list_all (\<lambda>c. scalar_value c \<and> 32 \<le> c \<and> c \<noteq> 127) s)"

fun json_bounded :: "json_value \<Rightarrow> bool" where
  "json_bounded (JInt i) = (MIN_IJSON_INTEGER \<le> i \<and> i \<le> MAX_IJSON_INTEGER)"
| "json_bounded (JString s) = safe_text MAX_JSON_STRING_LENGTH s"
| "json_bounded (JArray vs) = (length vs \<le> MAX_JSON_ARRAY_ITEMS \<and> list_all json_bounded vs)"
| "json_bounded (JObject ps) = (length ps \<le> MAX_JSON_OBJECT_PROPERTIES \<and> distinct (map fst ps) \<and>
     list_all (\<lambda>(k, v). k \<noteq> [] \<and> safe_text MAX_JSON_OBJECT_KEY_LENGTH k \<and> json_bounded v) ps)"
| "json_bounded JFloat = False"
| "json_bounded JOther = False"
| "json_bounded _ = True"

lemma validate_bounded_text_eq_Inr:
  "validate_bounded_text v name maximum allow_empty = Inr w \<longleftrightarrow>
     w = v \<and> safe_text maximum v \<and> (v = [] \<longrightarrow> allow_empty)"
  by (auto simp: validate_bounded_text_def safe_text_def and_then_eq_Inr utf8_encode_def list_all_iff list_ex_iff
      not_less split: sum.splits if_splits)

lemma count_node_eq_Inr: "count_node depth nodes = Inr n \<longleftrightarrow> n = nodes + 1 \<and> n \<le> MAX_JSON_NODES \<and> depth \<le> MAX_JSON_DEPTH"
  by (auto simp: count_node_def and_then_eq_Inr not_less)

lemma freeze_key_eq_Inr: "freeze_key k = Inr k' \<longleftrightarrow> k' = k \<and> k \<noteq> [] \<and> safe_text MAX_JSON_OBJECT_KEY_LENGTH k"
  by (auto simp: freeze_key_def and_then_eq_Inr validate_bounded_text_eq_Inr safe_text_def not_less)

lemma thaw_json_inj: "thaw_json f = thaw_json g \<Longrightarrow> f = g"
proof (induction f arbitrary: g)
  case (FTuple fs)
  then obtain gs where "g = FTuple gs" "map thaw_json fs = map thaw_json gs" by (cases g) auto
  with list.inj_map_strong[of fs gs thaw_json thaw_json] FTuple.IH show ?case by blast
next
  case (FrozenJsonObject ps)
  then obtain qs where g: "g = FrozenJsonObject qs"
    and same: "map (\<lambda>(k, f). (k, thaw_json f)) ps = map (\<lambda>(k, f). (k, thaw_json f)) qs" by (cases g) auto
  have "ps = qs"
    by (rule list.inj_map_strong[OF _ same]) (auto intro: FrozenJsonObject.IH split: prod.splits)
  with g show ?case by simp
qed (case_tac [!] g, auto)

lemma nested_depth:
  fixes f :: "'a \<Rightarrow> nat"
  assumes "finite A"
  shows "d + (1 + Max (insert 0 (f ` A))) \<le> Suc m \<longleftrightarrow> d \<le> m \<and> (\<forall>a \<in> A. d + 1 + f a \<le> Suc m)"
proof -
  have "d + (1 + Max (insert 0 (f ` A))) \<le> Suc m \<longleftrightarrow> d \<le> m \<and> Max (insert 0 (f ` A)) \<le> m - d" by linarith
  also have "\<dots> \<longleftrightarrow> d \<le> m \<and> (\<forall>a \<in> A. f a \<le> m - d)" using assms by simp
  also have "\<dots> \<longleftrightarrow> d \<le> m \<and> (\<forall>a \<in> A. d + 1 + f a \<le> Suc m)" by auto
  finally show ?thesis .
qed

lemma thaw_json_eq:
  "thaw_json f = JNull \<longleftrightarrow> f = FNull" "thaw_json f = JBool b \<longleftrightarrow> f = FBool b" "thaw_json f = JInt i \<longleftrightarrow> f = FInt i"
  "thaw_json f = JString s \<longleftrightarrow> f = FString s" "thaw_json f = JArray vs \<longleftrightarrow> (\<exists>fs. f = FTuple fs \<and> map thaw_json fs = vs)"
  "thaw_json f = JObject ps \<longleftrightarrow> (\<exists>gs. f = FrozenJsonObject gs \<and> map (\<lambda>(k, f). (k, thaw_json f)) gs = ps)"
  "thaw_json f \<noteq> JFloat" "thaw_json f \<noteq> JOther"
  by (cases f; auto)+

lemmas freeze_simps = and_then_eq_Inr count_node_eq_Inr not_less validate_bounded_text_eq_Inr freeze_key_eq_Inr thaw_json_eq

lemma freeze_exact:
  "freeze_json_node depth v nodes = Inr (n, f) \<longleftrightarrow> n = nodes + json_nodes v \<and> n \<le> MAX_JSON_NODES \<and>
     depth + json_depth v \<le> Suc MAX_JSON_DEPTH \<and> json_bounded v \<and> thaw_json f = v"
  "nodes \<le> MAX_JSON_NODES \<Longrightarrow> freeze_items depth vs nodes = Inr (n, fs) \<longleftrightarrow>
     n = nodes + sum_list (map json_nodes vs) \<and> n \<le> MAX_JSON_NODES \<and>
     (\<forall>v \<in> set vs. depth + json_depth v \<le> Suc MAX_JSON_DEPTH \<and> json_bounded v) \<and> map thaw_json fs = vs"
  "nodes \<le> MAX_JSON_NODES \<Longrightarrow> freeze_properties depth ps nodes = Inr (n, gs) \<longleftrightarrow>
     n = nodes + sum_list (map (\<lambda>(_, v). json_nodes v) ps) \<and> n \<le> MAX_JSON_NODES \<and>
     (\<forall>(k, v) \<in> set ps. k \<noteq> [] \<and> safe_text MAX_JSON_OBJECT_KEY_LENGTH k \<and> depth + json_depth v \<le> Suc MAX_JSON_DEPTH \<and>
       json_bounded v) \<and> map (\<lambda>(k, f). (k, thaw_json f)) gs = ps"
proof (induction depth v nodes and depth vs nodes and depth ps nodes arbitrary: n f and n fs and n gs
    rule: freeze_json_node_freeze_items_freeze_properties.induct)
  case (6 depth vs nodes)
  have depth: "depth + json_depth (JArray vs) \<le> Suc MAX_JSON_DEPTH \<longleftrightarrow>
      depth \<le> MAX_JSON_DEPTH \<and> (\<forall>v \<in> set vs. depth + 1 + json_depth v \<le> Suc MAX_JSON_DEPTH)"
    using nested_depth[of "set vs" depth json_depth MAX_JSON_DEPTH] by simp
  note items = 6[of "nodes + 1", simplified]
  show ?case
    by (cases "Suc nodes \<le> MAX_JSON_NODES") (auto simp: freeze_simps items depth list_all_iff simp del: json_depth.simps)
next
  case (7 depth ps nodes)
  have depth: "depth + json_depth (JObject ps) \<le> Suc MAX_JSON_DEPTH \<longleftrightarrow>
      depth \<le> MAX_JSON_DEPTH \<and> (\<forall>(k, v) \<in> set ps. depth + 1 + json_depth v \<le> Suc MAX_JSON_DEPTH)"
    using nested_depth[of "set ps" depth "\<lambda>(_, v). json_depth v" MAX_JSON_DEPTH] by (simp add: case_prod_unfold)
  have keys: "fst \<circ> (\<lambda>(k, f). (k, thaw_json f)) = fst" by auto
  note properties = 7[of "nodes + 1", simplified]
  show ?case
    by (cases "Suc nodes \<le> MAX_JSON_NODES")
      (auto simp: freeze_simps properties depth list_all_iff FrozenJsonObject_init_def keys simp del: json_depth.simps)
next
  case (10 depth v vs nodes)
  then show ?case by (auto simp: freeze_simps)
next
  case (12 depth key v ps nodes)
  then show ?case by (auto simp: freeze_simps)
qed (auto simp: freeze_simps safe_text_def)

lemma bounded_thaws: "json_bounded v \<Longrightarrow> \<exists>f. thaw_json f = v"
proof (induction v)
  case (JArray vs)
  then have "\<forall>v \<in> set vs. \<exists>f. v = thaw_json f" by (metis json_bounded.simps(3) list.pred_set)
  then show ?case unfolding thaw_json_eq by (metis ex_map_conv)
next
  case (JObject ps)
  have "\<exists>g. p = (\<lambda>(k, f). (k, thaw_json f)) g" if member: "p \<in> set ps" for p
  proof -
    obtain k v where p: "p = (k, v)" by (rule prod.exhaust)
    have "json_bounded v" using JObject.prems member by (auto simp: p list_all_iff)
    then obtain f where "thaw_json f = v" using JObject.IH[OF member, of v] by (auto simp: p)
    then show ?thesis by (intro exI[of _ "(k, f)"]) (simp add: p)
  qed
  then show ?case unfolding thaw_json_eq by (metis ex_map_conv)
qed (auto simp: thaw_json_eq)

lemma freeze_json_eq_Inr:
  "freeze_json v = Inr f \<longleftrightarrow> json_nodes v \<le> MAX_JSON_NODES \<and> json_depth v \<le> MAX_JSON_DEPTH \<and> json_bounded v \<and> thaw_json f = v"
  by (auto simp: freeze_json_def and_then_eq_Inr freeze_exact(1))

text \<open>C34. Freezing is exact. An observer's JSON value is accepted exactly when it has at most 10000 nodes, at most 32
  levels, only safe integers, strings and keys of bounded safe text, bounded arrays and objects, distinct keys and no
  float; the immutable copy then thaws to the very value, so that no evidence is changed on the way.\<close>

theorem freeze_json_exact:
  "(returns (freeze_json v) \<longleftrightarrow> json_nodes v \<le> MAX_JSON_NODES \<and> json_depth v \<le> MAX_JSON_DEPTH \<and> json_bounded v) \<and>
   (freeze_json v = Inr f \<longleftrightarrow> returns (freeze_json v) \<and> thaw_json f = v)"
  unfolding returns_iff freeze_json_eq_Inr using bounded_thaws by blast

end
