(* ===== verification/Observer_Protocol.thy ===== *)
theory Observer_Protocol
  imports Observer_Json Identifiers Verdicts Signing_Base "HOL-Library.Multiset"
begin

text \<open>
  The observer protocol of \<open>observers/protocol.py\<close>: evidence values and their declared types, queries,
  capabilities, requests, responses and observation records with their validators, capability negotiation, the
  correlation of a response with its request and the snapshot ledger. A validator of a pydantic model is a function
  that returns the model or \<open>ValidationError\<close>; the value it takes already has the declared field types. Which
  non-ASCII characters \<open>\d\<close> and \<open>int\<close> read as decimal digits depends on the Unicode version of the interpreter, so
  the reading of one character is the parameter \<open>decimal\<close>. The HTTP and command transports are not modelled here.
\<close>

section \<open>Enumerations and limits\<close>

datatype EvidenceValueType = NULL | BOOLEAN | INTEGER | DECIMAL_STRING | STRING | BYTES_DIGEST | TIMESTAMP | ARRAY | OBJECT
datatype ObservationStatus = OK | PENDING | UNSUPPORTED | ERROR | TIMEOUT
datatype ObserverOperation = CAPABILITIES | OBSERVE
datatype ObserverResponseStatus = OK | PENDING | UNSUPPORTED | ERROR
datatype UnsupportedPolicy = UNSUPPORTED | SKIP
datatype AssertionUnsupportedDisposition = UNSUPPORTED | SKIPPED

definition MAX_OBSERVER_QUERIES :: nat where "MAX_OBSERVER_QUERIES = 64"
definition MAX_CAPABILITY_EVIDENCE_KEYS :: nat where "MAX_CAPABILITY_EVIDENCE_KEYS = 256"
definition MAX_EVIDENCE_VALUES :: nat where "MAX_EVIDENCE_VALUES = 64"
definition MAX_QUERY_PARAMETERS :: nat where "MAX_QUERY_PARAMETERS = 128"
definition MAX_SNAPSHOT_ID_LENGTH :: nat where "MAX_SNAPSHOT_ID_LENGTH = 512"
definition MAX_CHECKPOINT_LENGTH :: nat where "MAX_CHECKPOINT_LENGTH = 128"
definition MAX_OBSERVER_ID_LENGTH :: nat where "MAX_OBSERVER_ID_LENGTH = 256"
definition MAX_ERROR_MESSAGE_LENGTH :: nat where "MAX_ERROR_MESSAGE_LENGTH = 4096"
definition MAX_DECIMAL_STRING_LENGTH :: nat where "MAX_DECIMAL_STRING_LENGTH = 256"
definition MAX_MEDIA_TYPE_LENGTH :: nat where "MAX_MEDIA_TYPE_LENGTH = 255"

section \<open>Text\<close>

type_synonym decimal_reader = "nat \<Rightarrow> nat option"

text \<open>The digits of ASCII, the class \<open>[0-9]\<close>.\<close>

definition ascii_decimal :: decimal_reader where
  "ascii_decimal c = (if 48 \<le> c \<and> c \<le> 57 then Some (c - 48) else None)"

definition is_digit :: "decimal_reader \<Rightarrow> nat \<Rightarrow> bool" where
  "is_digit decimal c = (decimal c \<noteq> None)"

definition digits_value :: "decimal_reader \<Rightarrow> ustring \<Rightarrow> nat" where
  "digits_value decimal s = foldl (\<lambda>n c. n * 10 + the (decimal c)) 0 s"

definition is_digits :: "decimal_reader \<Rightarrow> ustring \<Rightarrow> bool" where
  "is_digits decimal s = (s \<noteq> [] \<and> list_all (is_digit decimal) s)"

text \<open>\<open>_DECIMAL_STRING\<close>: after the integer part an optional fraction and an optional exponent.\<close>

definition exponent_match :: "decimal_reader \<Rightarrow> ustring \<Rightarrow> bool" where
  "exponent_match decimal s = (case s of
       [] \<Rightarrow> True
     | e # rest \<Rightarrow> (e = 101 \<or> e = 69) \<and> is_digits decimal (case rest of
           [] \<Rightarrow> []
         | c # digits \<Rightarrow> if c = 43 \<or> c = 45 then digits else rest))"

definition fraction_match :: "decimal_reader \<Rightarrow> ustring \<Rightarrow> bool" where
  "fraction_match decimal s = (case s of
       [] \<Rightarrow> True
     | c # rest \<Rightarrow> if c = 46 then takeWhile (is_digit decimal) rest \<noteq> [] \<and>
           exponent_match decimal (dropWhile (is_digit decimal) rest)
         else exponent_match decimal s)"

definition decimal_string_match :: "decimal_reader \<Rightarrow> ustring \<Rightarrow> bool" where
  "decimal_string_match decimal s =
     (let unsigned = (case s of c # rest \<Rightarrow> if c = 45 then rest else s | [] \<Rightarrow> []) in
      case unsigned of
        [] \<Rightarrow> False
      | c # rest \<Rightarrow> if c = 48 then fraction_match decimal rest
          else 49 \<le> c \<and> c \<le> 57 \<and> fraction_match decimal (dropWhile (is_digit decimal) rest))"

definition slice :: "nat \<Rightarrow> nat \<Rightarrow> ustring \<Rightarrow> ustring" where
  "slice start len s = take len (drop start s)"

text \<open>\<open>_UTC_TIMESTAMP\<close> and the fields that \<open>datetime\<close> accepts.\<close>

definition timestamp_match :: "decimal_reader \<Rightarrow> ustring \<Rightarrow> bool" where
  "timestamp_match decimal s = (length s \<ge> 20 \<and>
     list_all (is_digit decimal) (slice 0 4 s @ slice 5 2 s @ slice 8 2 s @ slice 11 2 s @ slice 14 2 s @ slice 17 2 s) \<and>
     s ! 4 = 45 \<and> s ! 7 = 45 \<and> s ! 10 = 84 \<and> s ! 13 = 58 \<and> s ! 16 = 58 \<and>
     (drop 19 s = [90] \<or>
      s ! 19 = 46 \<and> 22 \<le> length s \<and> length s \<le> 30 \<and> last s = 90 \<and> list_all (is_digit decimal) (slice 20 (length s - 21) s)))"

definition is_leap :: "nat \<Rightarrow> bool" where
  "is_leap y = (y mod 4 = 0 \<and> (y mod 100 \<noteq> 0 \<or> y mod 400 = 0))"

definition days_in_month :: "nat \<Rightarrow> nat \<Rightarrow> nat" where
  "days_in_month y m = (if m = 2 then (if is_leap y then 29 else 28) else if m \<in> {4, 6, 9, 11} then 30 else 31)"

definition datetime_ok :: "nat \<Rightarrow> nat \<Rightarrow> nat \<Rightarrow> nat \<Rightarrow> nat \<Rightarrow> nat \<Rightarrow> bool" where
  "datetime_ok y m d hour minute sec = (1 \<le> y \<and> y \<le> 9999 \<and> 1 \<le> m \<and> m \<le> 12 \<and> 1 \<le> d \<and> d \<le> days_in_month y m \<and>
     hour \<le> 23 \<and> minute \<le> 59 \<and> sec \<le> 59)"

definition validate_utc_timestamp :: "decimal_reader \<Rightarrow> ustring \<Rightarrow> ustring result" where
  "validate_utc_timestamp decimal s =
     and_then (raise_unless (timestamp_match decimal s)
       (ValueError ''timestamp must be a UTC RFC 3339 value ending in Z'')) (\<lambda>_.
     let field = (\<lambda>start len. digits_value decimal (slice start len s)) in
     and_then (raise_unless (datetime_ok (field 0 4) (field 5 2) (field 8 2) (field 11 2) (field 14 2) (field 17 2))
       (ValueError ''timestamp must contain a valid UTC date and time'')) (\<lambda>_. Inr s))"

definition validate_snapshot_id :: "ustring \<Rightarrow> ustring result" where
  "validate_snapshot_id s = validate_bounded_text s ''snapshot_id'' MAX_SNAPSHOT_ID_LENGTH False"

definition require_unique :: "'a list \<Rightarrow> string \<Rightarrow> unit result" where
  "require_unique xs field_name = raise_unless (length (remdups xs) = length xs) (ValueError (field_name @ '' must be unique''))"

definition error_category_match :: "string \<Rightarrow> bool" where
  "error_category_match s = lower_identifier 128 s"

definition crockford_char :: "char \<Rightarrow> bool" where
  "crockford_char c = (c \<in> set CROCKFORD_ALPHABET)"

definition request_id_match :: "string \<Rightarrow> bool" where
  "request_id_match s = (length s = 34 \<and> take 8 s = ''request_'' \<and> s ! 8 \<in> set ''01234567'' \<and> list_all crockford_char (drop 9 s))"

definition validate_request_id :: "string \<Rightarrow> string result" where
  "validate_request_id s =
     and_then (raise_unless (request_id_match s) (ValueError ''request_id must use the request_<ULID> encoding'')) (\<lambda>_.
     and_then (decode_crockford_ulid (drop 8 s)) (\<lambda>_. Inr s))"

text \<open>A pydantic model reports the failures of its validators as one \<open>ValidationError\<close>.\<close>

fun as_validation :: "string \<Rightarrow> 'a result \<Rightarrow> 'a result" where
  "as_validation model (Inl (TypeError m)) = Inl (TypeError m)"
| "as_validation model (Inl e) = Inl (ValidationError model)"
| "as_validation model (Inr x) = Inr x"

definition if_present :: "('a \<Rightarrow> 'b result) \<Rightarrow> 'a option \<Rightarrow> unit result" where
  "if_present f x = (case x of None \<Rightarrow> Inr () | Some y \<Rightarrow> and_then (f y) (\<lambda>_. Inr ()))"

section \<open>Evidence\<close>

record BytesDigestMetadata =
  md_sha256 :: string
  md_byte_length :: int
  md_media_type :: "ustring option"

definition BytesDigestMetadata_validate :: "BytesDigestMetadata \<Rightarrow> BytesDigestMetadata result" where
  "BytesDigestMetadata_validate m = as_validation ''BytesDigestMetadata'' (
     and_then (validate_sha256_digest (md_sha256 m)) (\<lambda>_.
     and_then (raise_unless (0 \<le> md_byte_length m \<and> md_byte_length m \<le> MAX_IJSON_INTEGER) (ValueError ''byte_length'')) (\<lambda>_.
     and_then (if_present (\<lambda>t. validate_bounded_text t ''media_type'' MAX_MEDIA_TYPE_LENGTH False) (md_media_type m)) (\<lambda>_.
       Inr m))))"

datatype evidence_value = JsonEvidence frozen_json | DigestEvidence BytesDigestMetadata

fun matches_evidence_type :: "decimal_reader \<Rightarrow> EvidenceValueType \<Rightarrow> evidence_value \<Rightarrow> bool" where
  "matches_evidence_type decimal NULL v = (v = JsonEvidence FNull)"
| "matches_evidence_type decimal BOOLEAN v = (case v of JsonEvidence (FBool _) \<Rightarrow> True | _ \<Rightarrow> False)"
| "matches_evidence_type decimal INTEGER v = (case v of
     JsonEvidence (FInt i) \<Rightarrow> MIN_IJSON_INTEGER \<le> i \<and> i \<le> MAX_IJSON_INTEGER | _ \<Rightarrow> False)"
| "matches_evidence_type decimal DECIMAL_STRING v = (case v of
     JsonEvidence (FString s) \<Rightarrow> length s \<le> MAX_DECIMAL_STRING_LENGTH \<and> decimal_string_match decimal s | _ \<Rightarrow> False)"
| "matches_evidence_type decimal STRING v = (case v of JsonEvidence (FString _) \<Rightarrow> True | _ \<Rightarrow> False)"
| "matches_evidence_type decimal BYTES_DIGEST v = (case v of DigestEvidence _ \<Rightarrow> True | _ \<Rightarrow> False)"
| "matches_evidence_type decimal TIMESTAMP v = (case v of
     JsonEvidence (FString s) \<Rightarrow> returns (validate_utc_timestamp decimal s) | _ \<Rightarrow> False)"
| "matches_evidence_type decimal ARRAY v = (case v of JsonEvidence (FTuple _) \<Rightarrow> True | _ \<Rightarrow> False)"
| "matches_evidence_type decimal OBJECT v = (case v of JsonEvidence (FrozenJsonObject _) \<Rightarrow> True | _ \<Rightarrow> False)"

record ObserverEvidence =
  ev_key :: ustring
  ev_value_type :: EvidenceValueType
  ev_value :: evidence_value
  sensitive :: bool

text \<open>The raw value of an evidence item: a JSON value, or digest metadata that is already a model.\<close>

datatype raw_evidence = RawJson json_value | RawDigest BytesDigestMetadata

text \<open>\<open>BytesDigestMetadata.model_validate\<close> of a JSON value: an object with no other fields, strictly typed. The code
  points of a digest outside ASCII never match the digest pattern, so that the text is read as ASCII.\<close>

definition ascii_text :: "ustring \<Rightarrow> string" where
  "ascii_text s = map (\<lambda>c. if c < 128 then char_of c else CHR 127) s"

definition digest_of_json :: "json_value \<Rightarrow> BytesDigestMetadata result" where
  "digest_of_json v = (case v of
     JObject ps \<Rightarrow>
       (let field = (\<lambda>name. map_of ps (text_of name)) in
        if fst ` set ps \<subseteq> {text_of ''sha256'', text_of ''byte_length'', text_of ''media_type''} then
          (case (field ''sha256'', field ''byte_length'') of
             (Some (JString h), Some (JInt n)) \<Rightarrow>
               (case field ''media_type'' of
                  Some (JString t) \<Rightarrow> BytesDigestMetadata_validate \<lparr>md_sha256 = ascii_text h, md_byte_length = n, md_media_type = Some t\<rparr>
                | Some JNull \<Rightarrow> BytesDigestMetadata_validate \<lparr>md_sha256 = ascii_text h, md_byte_length = n, md_media_type = None\<rparr>
                | None \<Rightarrow> BytesDigestMetadata_validate \<lparr>md_sha256 = ascii_text h, md_byte_length = n, md_media_type = None\<rparr>
                | _ \<Rightarrow> Inl (ValidationError ''BytesDigestMetadata''))
           | _ \<Rightarrow> Inl (ValidationError ''BytesDigestMetadata''))
        else Inl (ValidationError ''BytesDigestMetadata''))
   | _ \<Rightarrow> Inl (ValidationError ''BytesDigestMetadata''))"

definition freeze_and_classify_value :: "EvidenceValueType \<Rightarrow> raw_evidence \<Rightarrow> evidence_value result" where
  "freeze_and_classify_value value_type raw = (case raw of
       RawDigest m \<Rightarrow> if value_type = BYTES_DIGEST then Inr (DigestEvidence m)
         else Inl (ValueError ''observer values must contain only JSON-compatible types'')
     | RawJson v \<Rightarrow>
         if value_type = BYTES_DIGEST then and_then (digest_of_json v) (\<lambda>m. Inr (DigestEvidence m))
         else (case freeze_json v of
             Inl (TypeError m) \<Rightarrow> Inl (ValueError m)
           | Inl e \<Rightarrow> Inl e
           | Inr f \<Rightarrow> Inr (JsonEvidence f)))"

definition ObserverEvidence_validate :: "decimal_reader \<Rightarrow> ustring \<Rightarrow> EvidenceValueType \<Rightarrow> raw_evidence \<Rightarrow> bool \<Rightarrow>
    ObserverEvidence result" where
  "ObserverEvidence_validate decimal key value_type raw is_sensitive = as_validation ''ObserverEvidence'' (
     and_then (freeze_and_classify_value value_type raw) (\<lambda>v.
     and_then (validate_bounded_text key ''evidence key'' MAX_JSON_OBJECT_KEY_LENGTH False) (\<lambda>key.
     and_then (raise_unless (matches_evidence_type decimal value_type v)
       (ValueError ''value does not conform to value_type'')) (\<lambda>_.
       Inr \<lparr>ev_key = key, ev_value_type = value_type, ev_value = v, sensitive = is_sensitive\<rparr>))))"

section \<open>Queries and capabilities\<close>

record ObserverQuery =
  query_key :: ustring
  query_type :: EvidenceValueType
  query_parameters :: frozen_json

definition freeze_parameters :: "json_value \<Rightarrow> frozen_json result" where
  "freeze_parameters v = (case freeze_json v of
       Inl (TypeError m) \<Rightarrow> Inl (ValueError m)
     | Inl e \<Rightarrow> Inl e
     | Inr (FrozenJsonObject ps) \<Rightarrow>
         and_then (raise_unless (\<not> length ps > MAX_QUERY_PARAMETERS)
           (ValueError ''query parameters cannot contain more than 128 properties'')) (\<lambda>_. Inr (FrozenJsonObject ps))
     | Inr _ \<Rightarrow> Inl (ValueError ''query parameters must be a JSON object''))"

definition ObserverQuery_validate :: "ustring \<Rightarrow> EvidenceValueType \<Rightarrow> json_value \<Rightarrow> ObserverQuery result" where
  "ObserverQuery_validate key t raw_parameters = as_validation ''ObserverQuery'' (
     and_then (validate_bounded_text key ''query key'' MAX_JSON_OBJECT_KEY_LENGTH False) (\<lambda>key.
     and_then (freeze_parameters raw_parameters) (\<lambda>parameters.
       Inr \<lparr>query_key = key, query_type = t, query_parameters = parameters\<rparr>)))"

record ObserverCapabilities =
  evidence_types :: "EvidenceValueType list"
  evidence_keys :: "ustring list"
  read_only :: bool
  idempotent :: bool
  max_queries :: int
  supports_pending :: bool
  stable_snapshot_ids :: bool

definition ObserverCapabilities_validate :: "ObserverCapabilities \<Rightarrow> ObserverCapabilities result" where
  "ObserverCapabilities_validate c = as_validation ''ObserverCapabilities'' (
     and_then (raise_unless (1 \<le> length (evidence_types c) \<and> length (evidence_types c) \<le> 9) (ValueError ''evidence_types'')) (\<lambda>_.
     and_then (raise_unless (length (evidence_keys c) \<le> MAX_CAPABILITY_EVIDENCE_KEYS) (ValueError ''evidence_keys'')) (\<lambda>_.
     and_then (raise_unless (1 \<le> max_queries c \<and> max_queries c \<le> int MAX_OBSERVER_QUERIES) (ValueError ''max_queries'')) (\<lambda>_.
     and_then (for_each (\<lambda>k. validate_bounded_text k ''capability evidence key'' MAX_JSON_OBJECT_KEY_LENGTH False)
       (evidence_keys c)) (\<lambda>_.
     and_then (require_unique (evidence_keys c) ''capability evidence keys'') (\<lambda>_.
     and_then (require_unique (evidence_types c) ''capability evidence types'') (\<lambda>_. Inr c)))))))"

definition automatic_reinvocation_safe :: "ObserverCapabilities \<Rightarrow> bool" where
  "automatic_reinvocation_safe c = (read_only c \<and> idempotent c)"

definition explicit_invocation_limit :: "ObserverCapabilities \<Rightarrow> nat option" where
  "explicit_invocation_limit c = (if read_only c then None else Some 1)"

section \<open>Requests and responses\<close>

record ObserverRequest =
  rq_request_id :: string
  rq_operation :: ObserverOperation
  rq_sample_id :: "string option"
  rq_run_id :: "string option"
  rq_scenario_id :: "string option"
  rq_event_id :: "string option"
  rq_checkpoint :: "ustring option"
  rq_prior_snapshot_id :: "ustring option"
  rq_queries :: "ObserverQuery list"

definition validate_sample_id :: "string \<Rightarrow> string result" where
  "validate_sample_id v = validate_fresh_id v (Some FreshIdKind.SAMPLE)"

definition validate_operation_shape :: "ObserverRequest \<Rightarrow> ObserverRequest result" where
  "validate_operation_shape r =
     (if rq_operation r = CAPABILITIES then
        and_then (raise_unless (\<not> (rq_sample_id r \<noteq> None \<or> rq_run_id r \<noteq> None \<or> rq_scenario_id r \<noteq> None \<or>
            rq_event_id r \<noteq> None \<or> rq_checkpoint r \<noteq> None \<or> rq_prior_snapshot_id r \<noteq> None \<or> rq_queries r \<noteq> []))
          (ValueError ''capabilities requests cannot contain observe-only fields'')) (\<lambda>_. Inr r)
      else
        and_then (raise_unless (\<not> (rq_sample_id r = None \<or> rq_run_id r = None \<or> rq_queries r = []))
          (ValueError ''observe requests require sample_id, run_id, and at least one query'')) (\<lambda>_.
        and_then (raise_unless (\<not> (rq_event_id r \<noteq> None \<and> rq_scenario_id r = None))
          (ValueError ''event-scoped observe requests require scenario_id'')) (\<lambda>_.
        and_then (require_unique (map query_key (rq_queries r)) ''observe query keys'') (\<lambda>_. Inr r))))"

definition ObserverRequest_validate :: "ObserverRequest \<Rightarrow> ObserverRequest result" where
  "ObserverRequest_validate r = as_validation ''ObserverRequest'' (
     and_then (validate_request_id (rq_request_id r)) (\<lambda>_.
     and_then (if_present validate_sample_id (rq_sample_id r)) (\<lambda>_.
     and_then (if_present validate_run_id (rq_run_id r)) (\<lambda>_.
     and_then (if_present (\<lambda>v. validate_planned_id v (Some PlannedIdKind.SCENARIO)) (rq_scenario_id r)) (\<lambda>_.
     and_then (if_present (\<lambda>v. validate_planned_id v (Some PlannedIdKind.EVENT)) (rq_event_id r)) (\<lambda>_.
     and_then (if_present (\<lambda>v. validate_bounded_text v ''checkpoint'' MAX_CHECKPOINT_LENGTH False) (rq_checkpoint r)) (\<lambda>_.
     and_then (if_present validate_snapshot_id (rq_prior_snapshot_id r)) (\<lambda>_.
     and_then (raise_unless (length (rq_queries r) \<le> MAX_OBSERVER_QUERIES) (ValueError ''queries'')) (\<lambda>_.
       validate_operation_shape r)))))))))"

record ObserverWireError =
  we_category :: string
  we_message :: "ustring option"
  retryable :: bool

definition ObserverWireError_validate :: "ObserverWireError \<Rightarrow> ObserverWireError result" where
  "ObserverWireError_validate e = as_validation ''ObserverWireError'' (
     and_then (raise_unless (error_category_match (we_category e))
       (ValueError ''observer error category must be a bounded lowercase token'')) (\<lambda>_.
     and_then (if_present (\<lambda>t. validate_bounded_text t ''observer error message'' MAX_ERROR_MESSAGE_LENGTH False)
       (we_message e)) (\<lambda>_. Inr e)))"

record ObserverResponse =
  rs_request_id :: string
  rs_status :: ObserverResponseStatus
  rs_capabilities :: ObserverCapabilities
  rs_snapshot_id :: "ustring option"
  rs_evidence :: "ObserverEvidence list"
  rs_error :: "ObserverWireError option"

definition validate_response_shape :: "ObserverResponse \<Rightarrow> ObserverResponse result" where
  "validate_response_shape r =
     and_then (require_unique (map ev_key (rs_evidence r)) ''response evidence keys'') (\<lambda>_.
     if rs_status r = ObserverResponseStatus.OK then
       and_then (raise_unless (rs_snapshot_id r \<noteq> None) (ValueError ''ok responses require a nonempty snapshot_id'')) (\<lambda>_.
       and_then (raise_unless (rs_error r = None) (ValueError ''ok responses cannot include an error'')) (\<lambda>_. Inr r))
     else
       and_then (raise_unless (\<not> (rs_snapshot_id r \<noteq> None \<or> rs_evidence r \<noteq> []))
         (ValueError ''non-ok responses cannot include a snapshot or evidence'')) (\<lambda>_.
       if rs_status r = ObserverResponseStatus.ERROR
       then and_then (raise_unless (rs_error r \<noteq> None) (ValueError ''error responses require an error object'')) (\<lambda>_. Inr r)
       else and_then (raise_unless (rs_error r = None)
         (ValueError ''pending and unsupported responses cannot include an error'')) (\<lambda>_. Inr r)))"

definition ObserverResponse_validate :: "ObserverResponse \<Rightarrow> ObserverResponse result" where
  "ObserverResponse_validate r = as_validation ''ObserverResponse'' (
     and_then (validate_request_id (rs_request_id r)) (\<lambda>_.
     and_then (ObserverCapabilities_validate (rs_capabilities r)) (\<lambda>_.
     and_then (if_present validate_snapshot_id (rs_snapshot_id r)) (\<lambda>_.
     and_then (raise_unless (length (rs_evidence r) \<le> MAX_EVIDENCE_VALUES) (ValueError ''evidence'')) (\<lambda>_.
     and_then (if_present ObserverWireError_validate (rs_error r)) (\<lambda>_.
       validate_response_shape r))))))"

section \<open>Observation records\<close>

record ObservationRecordError =
  re_category :: string
  message_redacted :: ustring

definition ObservationRecordError_validate :: "ObservationRecordError \<Rightarrow> ObservationRecordError result" where
  "ObservationRecordError_validate e = as_validation ''ObservationRecordError'' (
     and_then (raise_unless (error_category_match (re_category e))
       (ValueError ''observation error category must be a bounded lowercase token'')) (\<lambda>_.
     and_then (validate_bounded_text (message_redacted e) ''redacted observation error message'' MAX_ERROR_MESSAGE_LENGTH False)
       (\<lambda>_. Inr e)))"

record ObservationRecord =
  rec_record_id :: string
  rec_run_id :: string
  rec_scenario_id :: string
  rec_observation_id :: string
  rec_sample_id :: string
  rec_observer_id :: ustring
  rec_sample_sequence :: int
  rec_recorded_at :: ustring
  rec_status :: ObservationStatus
  rec_event_id :: "string option"
  rec_snapshot_id :: "ustring option"
  rec_evidence :: "ObserverEvidence list"
  rec_error :: "ObservationRecordError option"

definition validate_record_shape :: "ObservationRecord \<Rightarrow> ObservationRecord result" where
  "validate_record_shape r =
     and_then (require_unique (map ev_key (rec_evidence r)) ''observation record evidence keys'') (\<lambda>_.
     if rec_status r = ObservationStatus.OK then
       and_then (raise_unless (rec_snapshot_id r \<noteq> None)
         (ValueError ''ok observation records require a nonempty snapshot_id'')) (\<lambda>_.
       and_then (raise_unless (rec_error r = None) (ValueError ''ok observation records cannot include an error'')) (\<lambda>_. Inr r))
     else
       and_then (raise_unless (\<not> (rec_snapshot_id r \<noteq> None \<or> rec_evidence r \<noteq> []))
         (ValueError ''non-ok observation records cannot include a snapshot or evidence'')) (\<lambda>_.
       and_then (raise_unless (\<not> (rec_status r \<in> {ObservationStatus.ERROR, ObservationStatus.TIMEOUT} \<and> rec_error r = None))
         (ValueError ''error and timeout observation records require redacted error metadata'')) (\<lambda>_. Inr r)))"

definition ObservationRecord_validate :: "decimal_reader \<Rightarrow> ObservationRecord \<Rightarrow> ObservationRecord result" where
  "ObservationRecord_validate decimal r = as_validation ''ObservationRecord'' (
     and_then (validate_fresh_id (rec_record_id r) (Some FreshIdKind.RECORD)) (\<lambda>_.
     and_then (validate_run_id (rec_run_id r)) (\<lambda>_.
     and_then (validate_planned_id (rec_scenario_id r) (Some PlannedIdKind.SCENARIO)) (\<lambda>_.
     and_then (validate_planned_id (rec_observation_id r) (Some PlannedIdKind.OBSERVATION)) (\<lambda>_.
     and_then (validate_sample_id (rec_sample_id r)) (\<lambda>_.
     and_then (validate_bounded_text (rec_observer_id r) ''observer_id'' MAX_OBSERVER_ID_LENGTH False) (\<lambda>_.
     and_then (raise_unless (1 \<le> rec_sample_sequence r \<and> rec_sample_sequence r \<le> MAX_IJSON_INTEGER)
       (ValueError ''sample_sequence'')) (\<lambda>_.
     and_then (validate_utc_timestamp decimal (rec_recorded_at r)) (\<lambda>_.
     and_then (if_present (\<lambda>v. validate_planned_id v (Some PlannedIdKind.EVENT)) (rec_event_id r)) (\<lambda>_.
     and_then (if_present validate_snapshot_id (rec_snapshot_id r)) (\<lambda>_.
     and_then (raise_unless (length (rec_evidence r) \<le> MAX_EVIDENCE_VALUES) (ValueError ''evidence'')) (\<lambda>_.
     and_then (if_present ObservationRecordError_validate (rec_error r)) (\<lambda>_.
       validate_record_shape r)))))))))))))"

section \<open>Negotiation\<close>

record CapabilityNegotiation =
  missing_evidence_keys :: "ustring list"
  unsupported_evidence_types :: "EvidenceValueType list"
  query_limit_exceeded :: bool
  stable_snapshot_unavailable :: bool

definition CapabilityNegotiation_post_init :: "CapabilityNegotiation \<Rightarrow> CapabilityNegotiation result" where
  "CapabilityNegotiation_post_init n =
     and_then (require_unique (missing_evidence_keys n) ''missing evidence keys'') (\<lambda>_.
     and_then (require_unique (unsupported_evidence_types n) ''unsupported evidence types'') (\<lambda>_. Inr n))"

definition supported :: "CapabilityNegotiation \<Rightarrow> bool" where
  "supported n = (\<not> (missing_evidence_keys n \<noteq> [] \<or> unsupported_evidence_types n \<noteq> [] \<or> query_limit_exceeded n \<or>
     stable_snapshot_unavailable n))"

definition negotiation_response_status :: "CapabilityNegotiation \<Rightarrow> ObserverResponseStatus option" where
  "negotiation_response_status n = (if supported n then None else Some ObserverResponseStatus.UNSUPPORTED)"

definition negotiation_error_category :: "CapabilityNegotiation \<Rightarrow> ErrorCategory option" where
  "negotiation_error_category n = (if supported n then None else Some ErrorCategory.UNSUPPORTED_CAPABILITY)"

text \<open>The loop over the queries, which appends the first occurrence of what is missing.\<close>

definition note_missing :: "'a set \<Rightarrow> 'a \<Rightarrow> 'a list \<Rightarrow> 'a list" where
  "note_missing have_it x missing = (if x \<notin> have_it \<and> x \<notin> set missing then missing @ [x] else missing)"

definition negotiate_capabilities :: "ObserverCapabilities \<Rightarrow> ObserverQuery list \<Rightarrow> bool \<Rightarrow> CapabilityNegotiation result" where
  "negotiate_capabilities c queries requires_stable_snapshot =
     (let supported_keys = set (evidence_keys c);
          supported_types = set (evidence_types c);
          (missing_keys, missing_types) = foldl (\<lambda>(ks, ts) q.
            (note_missing supported_keys (query_key q) ks, note_missing supported_types (query_type q) ts)) ([], []) queries
      in CapabilityNegotiation_post_init
        \<lparr>missing_evidence_keys = missing_keys, unsupported_evidence_types = missing_types,
         query_limit_exceeded = int (length queries) > max_queries c,
         stable_snapshot_unavailable = (requires_stable_snapshot \<and> \<not> stable_snapshot_ids c)\<rparr>)"

definition automatic_polling_allowed :: "ObserverCapabilities \<Rightarrow> CapabilityNegotiation \<Rightarrow> bool" where
  "automatic_polling_allowed c n = (supported n \<and> automatic_reinvocation_safe c \<and> supports_pending c)"

definition resume_reconciliation_allowed :: "ObserverCapabilities \<Rightarrow> bool" where
  "resume_reconciliation_allowed c = (automatic_reinvocation_safe c \<and> stable_snapshot_ids c)"

definition automatic_retry_allowed :: "ObserverCapabilities \<Rightarrow> ObserverResponse \<Rightarrow> bool" where
  "automatic_retry_allowed c r = (automatic_reinvocation_safe c \<and> rs_status r = ObserverResponseStatus.ERROR \<and>
     (case rs_error r of None \<Rightarrow> False | Some e \<Rightarrow> retryable e))"

fun map_response_status :: "ObserverResponseStatus \<Rightarrow> ObservationStatus" where
  "map_response_status ObserverResponseStatus.OK = ObservationStatus.OK"
| "map_response_status ObserverResponseStatus.PENDING = ObservationStatus.PENDING"
| "map_response_status ObserverResponseStatus.UNSUPPORTED = ObservationStatus.UNSUPPORTED"
| "map_response_status ObserverResponseStatus.ERROR = ObservationStatus.ERROR"

record UnsupportedMapping =
  um_policy :: UnsupportedPolicy
  um_observation_status :: ObserverResponseStatus
  um_assertion_disposition :: AssertionUnsupportedDisposition
  um_error_category :: ErrorCategory
  um_result_category :: ResultCategory
  um_polling_allowed :: bool

definition map_unsupported_policy :: "UnsupportedPolicy \<Rightarrow> UnsupportedMapping" where
  "map_unsupported_policy policy = \<lparr>um_policy = policy, um_observation_status = ObserverResponseStatus.UNSUPPORTED,
     um_assertion_disposition = (if policy = SKIP then AssertionUnsupportedDisposition.SKIPPED
       else AssertionUnsupportedDisposition.UNSUPPORTED),
     um_error_category = ErrorCategory.UNSUPPORTED_CAPABILITY, um_result_category = ResultCategory.UNSUPPORTED, um_polling_allowed = False\<rparr>"

definition retry_observe_request :: "ObserverRequest \<Rightarrow> string \<Rightarrow> ObserverRequest result" where
  "retry_observe_request r fresh_sample_id =
     and_then (raise_unless (\<not> (rq_operation r \<noteq> OBSERVE \<or> rq_sample_id r = None))
       (ValueError ''only observe requests can be retried'')) (\<lambda>_.
     and_then (validate_sample_id fresh_sample_id) (\<lambda>sample_id.
     and_then (raise_unless (rq_sample_id r \<noteq> Some sample_id)
       (ValueError ''an observe retry requires a fresh sample_id'')) (\<lambda>_.
       ObserverRequest_validate (r\<lparr>rq_sample_id := Some sample_id\<rparr>))))"

section \<open>Correlation\<close>

definition requested_types :: "ObserverRequest \<Rightarrow> ustring \<rightharpoonup> EvidenceValueType" where
  "requested_types r = map_of (rev (map (\<lambda>q. (query_key q, query_type q)) (rq_queries r)))"

definition actual_types :: "ObserverResponse \<Rightarrow> ustring \<rightharpoonup> EvidenceValueType" where
  "actual_types r = map_of (rev (map (\<lambda>e. (ev_key e, ev_value_type e)) (rs_evidence r)))"

definition validate_evidence :: "ObserverRequest \<Rightarrow> ObserverResponse \<Rightarrow> ObserverResponse result" where
  "validate_evidence request response =
     (let requested = requested_types request; actual = actual_types response;
          requested_keys = set (map query_key (rq_queries request)); actual_keys = set (map ev_key (rs_evidence response)) in
     and_then (raise_unless (actual_keys - requested_keys = {}) (ObserverProtocolError ''OBS_UNREQUESTED_EVIDENCE'')) (\<lambda>_.
     and_then (raise_unless (requested_keys - actual_keys = {}) (ObserverProtocolError ''OBS_EVIDENCE_MISSING'')) (\<lambda>_.
     and_then (raise_unless (\<not> (\<exists>key \<in> requested_keys. actual key \<noteq> requested key))
       (ObserverProtocolError ''OBS_EVIDENCE_TYPE_MISMATCH'')) (\<lambda>_. Inr response))))"

definition validate_response_for_request :: "ObserverRequest \<Rightarrow> ObserverResponse \<Rightarrow> ObserverResponse result" where
  "validate_response_for_request request response =
     and_then (raise_unless (rs_request_id response = rq_request_id request)
       (ObserverProtocolError ''OBS_RESPONSE_REQUEST_ID_MISMATCH'')) (\<lambda>_.
     if rq_operation request = CAPABILITIES then
       and_then (raise_unless (\<not> (rs_status response \<noteq> ObserverResponseStatus.OK \<or> rs_evidence response \<noteq> []))
         (ObserverProtocolError ''OBS_CAPABILITIES_RESPONSE_INVALID'')) (\<lambda>_. Inr response)
     else
       and_then (negotiate_capabilities (rs_capabilities response) (rq_queries request) (rq_prior_snapshot_id request \<noteq> None))
         (\<lambda>negotiation.
       and_then (raise_unless (\<not> (\<not> supported negotiation \<and> rs_status response \<noteq> ObserverResponseStatus.UNSUPPORTED))
         (ObserverProtocolError ''OBS_CAPABILITY_MISMATCH'')) (\<lambda>_.
       and_then (raise_unless (\<not> (rs_status response = ObserverResponseStatus.PENDING \<and>
           \<not> supports_pending (rs_capabilities response))) (ObserverProtocolError ''OBS_PENDING_NOT_DECLARED'')) (\<lambda>_.
       if rs_status response \<noteq> ObserverResponseStatus.OK then Inr response
       else validate_evidence request response))))"

section \<open>Snapshot identities\<close>

record SnapshotBinding =
  sb_snapshot_id :: ustring
  sb_state_sha256 :: string

definition SnapshotBinding_post_init :: "SnapshotBinding \<Rightarrow> SnapshotBinding result" where
  "SnapshotBinding_post_init b =
     and_then (validate_snapshot_id (sb_snapshot_id b)) (\<lambda>_.
     and_then (validate_sha256_digest (sb_state_sha256 b)) (\<lambda>_. Inr b))"

record SnapshotIdentityLedger =
  bindings :: "SnapshotBinding list"

definition SnapshotIdentityLedger_post_init :: "SnapshotIdentityLedger \<Rightarrow> SnapshotIdentityLedger result" where
  "SnapshotIdentityLedger_post_init l =
     and_then (require_unique (map sb_snapshot_id (bindings l)) ''snapshot binding identifiers'') (\<lambda>_. Inr l)"

fun bind_loop :: "SnapshotBinding list \<Rightarrow> SnapshotBinding \<Rightarrow> bool result" where
  "bind_loop [] candidate = Inr False"
| "bind_loop (existing # rest) candidate =
     (if sb_snapshot_id existing \<noteq> sb_snapshot_id candidate then bind_loop rest candidate
      else and_then (raise_unless (sb_state_sha256 existing = sb_state_sha256 candidate)
        (ObserverProtocolError ''OBS_SNAPSHOT_ID_CONFLICT'')) (\<lambda>_. Inr True))"

definition bind_snapshot :: "SnapshotIdentityLedger \<Rightarrow> ustring \<Rightarrow> string \<Rightarrow> SnapshotIdentityLedger result" where
  "bind_snapshot l snapshot_id state_sha256 =
     and_then (SnapshotBinding_post_init \<lparr>sb_snapshot_id = snapshot_id, sb_state_sha256 = state_sha256\<rparr>) (\<lambda>candidate.
     and_then (bind_loop (bindings l) candidate) (\<lambda>found.
       if found then Inr l else SnapshotIdentityLedger_post_init \<lparr>bindings = bindings l @ [candidate]\<rparr>))"

section \<open>When validation accepts\<close>

lemma as_validation_eq_Inr [simp]: "as_validation model m = Inr x \<longleftrightarrow> m = Inr x"
  by (cases "(model, m)" rule: as_validation.cases) auto

lemma require_unique_eq_Inr [simp]: "require_unique xs name = Inr () \<longleftrightarrow> distinct xs"
  using length_remdups_eq[of xs] remdups_id_iff_distinct[of xs] by (simp add: require_unique_def)

lemma request_shape:
  assumes "ObserverRequest_validate r = Inr r'"
  shows "r' = r" "rq_operation r = OBSERVE \<Longrightarrow> distinct (map query_key (rq_queries r))"
    "rq_operation r = OBSERVE \<Longrightarrow> rq_sample_id r \<noteq> None"
  using assms
  by (auto simp: ObserverRequest_validate_def validate_operation_shape_def and_then_eq_Inr split: if_splits)

lemma response_shape:
  assumes "ObserverResponse_validate r = Inr r'"
  shows "r' = r" "distinct (map ev_key (rs_evidence r))" "rs_status r = ObserverResponseStatus.OK \<longleftrightarrow> rs_snapshot_id r \<noteq> None"
    "rs_status r = ObserverResponseStatus.ERROR \<longleftrightarrow> rs_error r \<noteq> None" "rs_evidence r \<noteq> [] \<Longrightarrow> rs_status r = ObserverResponseStatus.OK"
  using assms
  by (auto simp: ObserverResponse_validate_def validate_response_shape_def and_then_eq_Inr split: if_splits)

section \<open>Negotiation is exact\<close>

lemma note_missing_facts:
  "set (note_missing A x xs) = set xs \<union> ({x} - A)" "distinct xs \<Longrightarrow> distinct (note_missing A x xs)"
  by (auto simp: note_missing_def)

lemma missing_facts:
  assumes "foldl (\<lambda>(ks, ts) q. (note_missing A (f q) ks, note_missing B (g q) ts)) (ks0, ts0) qs = (ks, ts)"
    and "distinct ks0" "distinct ts0"
  shows "distinct ks" "distinct ts" "set ks = set ks0 \<union> (f ` set qs - A)" "set ts = set ts0 \<union> (g ` set qs - B)"
proof -
  have "distinct ks \<and> distinct ts \<and> set ks = set ks0 \<union> (f ` set qs - A) \<and> set ts = set ts0 \<union> (g ` set qs - B)"
    using assms
  proof (induction qs arbitrary: ks0 ts0)
    case (Cons q qs)
    have "foldl (\<lambda>(ks, ts) q. (note_missing A (f q) ks, note_missing B (g q) ts)) (note_missing A (f q) ks0, note_missing B (g q) ts0) qs = (ks, ts)"
      using Cons.prems(1) by simp
    from Cons.IH[OF this note_missing_facts(2)[OF Cons.prems(2)] note_missing_facts(2)[OF Cons.prems(3)]]
    show ?case by (auto simp: note_missing_facts(1))
  qed simp
  then show "distinct ks" "distinct ts" "set ks = set ks0 \<union> (f ` set qs - A)" "set ts = set ts0 \<union> (g ` set qs - B)" by blast+
qed

text \<open>What a request needs of an observer.\<close>

definition serves :: "ObserverCapabilities \<Rightarrow> ObserverQuery list \<Rightarrow> bool \<Rightarrow> bool" where
  "serves c queries needs_snapshots \<longleftrightarrow> query_key ` set queries \<subseteq> set (evidence_keys c) \<and>
     query_type ` set queries \<subseteq> set (evidence_types c) \<and> int (length queries) \<le> max_queries c \<and>
     (needs_snapshots \<longrightarrow> stable_snapshot_ids c)"

lemma negotiate_exact:
  "\<exists>n. negotiate_capabilities c queries needs_snapshots = Inr n \<and> (supported n \<longleftrightarrow> serves c queries needs_snapshots) \<and>
     set (missing_evidence_keys n) = query_key ` set queries - set (evidence_keys c)"
proof -
  obtain ks ts where loop: "foldl (\<lambda>(ks, ts) q. (note_missing (set (evidence_keys c)) (query_key q) ks,
      note_missing (set (evidence_types c)) (query_type q) ts)) ([], []) queries = (ks, ts)" by (rule prod.exhaust)
  from missing_facts[OF loop]
  have facts: "distinct ks" "distinct ts" "set ks = query_key ` set queries - set (evidence_keys c)"
    "set ts = query_type ` set queries - set (evidence_types c)" by simp_all
  let ?n = "\<lparr>missing_evidence_keys = ks, unsupported_evidence_types = ts, query_limit_exceeded = int (length queries) > max_queries c,
         stable_snapshot_unavailable = (needs_snapshots \<and> \<not> stable_snapshot_ids c)\<rparr>"
  have "negotiate_capabilities c queries needs_snapshots = Inr ?n"
    unfolding negotiate_capabilities_def Let_def loop using facts(1,2)
    by (simp add: CapabilityNegotiation_post_init_def and_then_eq_Inr)
  moreover have "ks = [] \<longleftrightarrow> query_key ` set queries \<subseteq> set (evidence_keys c)" using facts(3) by (metis Diff_eq_empty_iff set_empty)
  moreover have "ts = [] \<longleftrightarrow> query_type ` set queries \<subseteq> set (evidence_types c)" using facts(4) by (metis Diff_eq_empty_iff set_empty)
  ultimately show ?thesis using facts(3) by (auto simp: supported_def serves_def)
qed

section \<open>Correlation is exact\<close>

text \<open>The evidence answers the queries: the same keys with the same types, each once.\<close>

definition answers :: "ObserverRequest \<Rightarrow> ObserverResponse \<Rightarrow> bool" where
  "answers request response \<longleftrightarrow> mset (map (\<lambda>e. (ev_key e, ev_value_type e)) (rs_evidence response)) =
     mset (map (\<lambda>q. (query_key q, query_type q)) (rq_queries request))"

lemma map_of_rev_distinct: "distinct (map fst xs) \<Longrightarrow> map_of (rev xs) = map_of xs"
  by (metis distinct_rev map_of_inject_set rev_map set_rev)

lemma evidence_exact:
  assumes "distinct (map query_key (rq_queries request))" "distinct (map ev_key (rs_evidence response))"
  shows "validate_evidence request response = Inr r \<longleftrightarrow> r = response \<and> answers request response"
proof -
  let ?q = "map (\<lambda>q. (query_key q, query_type q)) (rq_queries request)"
  let ?e = "map (\<lambda>e. (ev_key e, ev_value_type e)) (rs_evidence response)"
  have d: "distinct (map fst ?q)" "distinct (map fst ?e)" using assms by (simp_all add: o_def)
  have keys: "set (map query_key (rq_queries request)) = dom (map_of ?q)" "set (map ev_key (rs_evidence response)) = dom (map_of ?e)"
    by (simp_all add: dom_map_of_conv_image_fst image_image)
  have "answers request response \<longleftrightarrow> set ?e = set ?q"
    unfolding answers_def using d distinct_map set_eq_iff_mset_eq_distinct by blast
  also have "\<dots> \<longleftrightarrow> map_of ?e = map_of ?q" using d map_of_inject_set by blast
  also have "\<dots> \<longleftrightarrow> dom (map_of ?e) = dom (map_of ?q) \<and> (\<forall>k \<in> dom (map_of ?q). map_of ?e k = map_of ?q k)"
    by (auto intro!: map_le_antisym simp: map_le_def)
  finally show ?thesis
    unfolding validate_evidence_def Let_def requested_types_def actual_types_def keys map_of_rev_distinct[OF d(1)] map_of_rev_distinct[OF d(2)]
    by (auto simp: and_then_eq_Inr)
qed

text \<open>C32. A response is accepted exactly when it answers its request. For a valid request and a valid response, the
  correlation accepts the response unchanged if and only if it carries the request's identifier and either confirms
  capabilities without evidence, or, for an observation, the declared capabilities serve the request or the
  response says they do not, a pending answer was announced, and an ok answer has exactly one item of the declared
  type for every query and nothing else.\<close>

theorem response_accepted_exactly:
  assumes "ObserverRequest_validate request = Inr request" "ObserverResponse_validate response = Inr response"
  shows "validate_response_for_request request response = Inr r \<longleftrightarrow> r = response \<and>
    rs_request_id response = rq_request_id request \<and>
    (if rq_operation request = CAPABILITIES then rs_status response = ObserverResponseStatus.OK \<and> rs_evidence response = []
     else (serves (rs_capabilities response) (rq_queries request) (rq_prior_snapshot_id request \<noteq> None) \<or>
         rs_status response = ObserverResponseStatus.UNSUPPORTED) \<and>
       (rs_status response = ObserverResponseStatus.PENDING \<longrightarrow> supports_pending (rs_capabilities response)) \<and>
       (rs_status response = ObserverResponseStatus.OK \<longrightarrow> answers request response))"
proof (cases "rq_operation request")
  case CAPABILITIES
  then show ?thesis by (auto simp: validate_response_for_request_def and_then_eq_Inr)
next
  case OBSERVE
  obtain n where n: "negotiate_capabilities (rs_capabilities response) (rq_queries request) (rq_prior_snapshot_id request \<noteq> None) = Inr n"
    "supported n \<longleftrightarrow> serves (rs_capabilities response) (rq_queries request) (rq_prior_snapshot_id request \<noteq> None)"
    using negotiate_exact by blast
  note evidence = evidence_exact[OF request_shape(2)[OF assms(1) OBSERVE] response_shape(2)[OF assms(2)]]
  show ?thesis
    unfolding validate_response_for_request_def n(1) and_then_Inr n(2) using OBSERVE
    by (auto simp: and_then_eq_Inr evidence)
qed

section \<open>The snapshot ledger\<close>

definition ledger_map :: "SnapshotIdentityLedger \<Rightarrow> ustring \<rightharpoonup> string" where
  "ledger_map l = map_of (map (\<lambda>b. (sb_snapshot_id b, sb_state_sha256 b)) (bindings l))"

text \<open>The specification: a map from snapshot identifiers to state digests in which an identifier keeps its digest.\<close>

definition record_state :: "(ustring \<rightharpoonup> string) \<Rightarrow> ustring \<Rightarrow> string \<Rightarrow> (ustring \<rightharpoonup> string) result" where
  "record_state m snapshot_id digest =
     and_then (SnapshotBinding_post_init \<lparr>sb_snapshot_id = snapshot_id, sb_state_sha256 = digest\<rparr>) (\<lambda>_.
       if m snapshot_id \<in> {None, Some digest} then Inr (m(snapshot_id \<mapsto> digest))
       else Inl (ObserverProtocolError ''OBS_SNAPSHOT_ID_CONFLICT''))"

lemma bind_loop_exact:
  "bind_loop bs c = (case map_of (map (\<lambda>b. (sb_snapshot_id b, sb_state_sha256 b)) bs) (sb_snapshot_id c) of
     None \<Rightarrow> Inr False
   | Some d \<Rightarrow> if d = sb_state_sha256 c then Inr True else Inl (ObserverProtocolError ''OBS_SNAPSHOT_ID_CONFLICT''))"
  by (induction bs) auto

lemma map_of_snoc: "map_of xs k = None \<Longrightarrow> map_of (xs @ [(k, v)]) = (map_of xs)(k \<mapsto> v)"
  by (auto simp: fun_eq_iff map_add_def split: option.splits)

text \<open>C33. The snapshot ledger refines a map. On a ledger without duplicate identifiers, binding an identifier behaves
  exactly as recording its state digest in the map the ledger represents: the same inputs are refused, a second state
  for one identifier is refused as a conflict, and otherwise the new ledger represents the updated map.\<close>

theorem snapshot_ledger_refines:
  assumes "SnapshotIdentityLedger_post_init l = Inr l"
  shows "map_sum id ledger_map (bind_snapshot l snapshot_id digest) = record_state (ledger_map l) snapshot_id digest"
proof (cases "SnapshotBinding_post_init \<lparr>sb_snapshot_id = snapshot_id, sb_state_sha256 = digest\<rparr>")
  case (Inl e)
  then show ?thesis by (simp add: bind_snapshot_def record_state_def)
next
  case (Inr b)
  then have b: "b = \<lparr>sb_snapshot_id = snapshot_id, sb_state_sha256 = digest\<rparr>"
    by (auto simp: SnapshotBinding_post_init_def and_then_eq_Inr)
  have distinct: "distinct (map sb_snapshot_id (bindings l))"
    using assms by (simp add: SnapshotIdentityLedger_post_init_def and_then_eq_Inr)
  show ?thesis
  proof (cases "ledger_map l snapshot_id")
    case None
    then have "snapshot_id \<notin> set (map sb_snapshot_id (bindings l))" by (auto simp: ledger_map_def map_of_eq_None_iff image_image)
    then have "SnapshotIdentityLedger_post_init \<lparr>bindings = bindings l @ [b]\<rparr> = Inr \<lparr>bindings = bindings l @ [b]\<rparr>"
      using distinct b by (simp add: SnapshotIdentityLedger_post_init_def and_then_eq_Inr)
    moreover have "ledger_map \<lparr>bindings = bindings l @ [b]\<rparr> = (ledger_map l)(snapshot_id \<mapsto> digest)"
      using None by (simp add: ledger_map_def b map_of_snoc del: map_of_append)
    ultimately show ?thesis
      using None Inr by (simp add: bind_snapshot_def record_state_def bind_loop_exact b ledger_map_def)
  next
    case (Some d)
    then have "d = digest \<Longrightarrow> (ledger_map l)(snapshot_id \<mapsto> digest) = ledger_map l" by (auto simp: map_upd_triv)
    with Some Inr show ?thesis
      by (auto simp: bind_snapshot_def record_state_def bind_loop_exact b ledger_map_def)
  qed
qed

section \<open>Evidence keeps its value\<close>

text \<open>Accepted evidence has its declared type and thaws to the very value the observer sent.\<close>

lemma evidence_preserved:
  assumes "ObserverEvidence_validate decimal key t (RawJson v) is_sensitive = Inr e" "t \<noteq> BYTES_DIGEST"
  shows "ev_value_type e = t" "ev_key e = key" "\<exists>f. ev_value e = JsonEvidence f \<and> thaw_json f = v" "matches_evidence_type decimal t (ev_value e)"
  using assms
  by (auto simp: ObserverEvidence_validate_def freeze_and_classify_value_def and_then_eq_Inr validate_bounded_text_eq_Inr
      freeze_json_eq_Inr split: sum.splits exn.splits)

text \<open>A decimal string may use any decimal digit of Unicode after its first one, here ARABIC-INDIC DIGIT THREE.\<close>

lemma unicode_decimal_accepted:
  assumes "decimal 0x663 = Some 3"
  shows "matches_evidence_type decimal DECIMAL_STRING (JsonEvidence (FString [49, 0x663]))"
  using assms by (simp add: MAX_DECIMAL_STRING_LENGTH_def decimal_string_match_def is_digit_def fraction_match_def)

theorem snapshot_ledger_refines_witness:
  "bind_snapshot \<lparr>bindings = [\<lparr>sb_snapshot_id = text_of ''s1'', sb_state_sha256 = ''sha256:'' @ replicate 64 CHR ''0''\<rparr>]\<rparr>
     (text_of ''s1'') (''sha256:'' @ replicate 64 CHR ''1'') = Inl (ObserverProtocolError ''OBS_SNAPSHOT_ID_CONFLICT'') \<and>
   map_sum id ledger_map (bind_snapshot \<lparr>bindings = [\<lparr>sb_snapshot_id = text_of ''s1'', sb_state_sha256 = ''sha256:'' @ replicate 64 CHR ''0''\<rparr>]\<rparr>
     (text_of ''s2'') (''sha256:'' @ replicate 64 CHR ''1'')) =
     Inr [text_of ''s1'' \<mapsto> ''sha256:'' @ replicate 64 CHR ''0'', text_of ''s2'' \<mapsto> ''sha256:'' @ replicate 64 CHR ''1'']"
proof -
  define old where "old = ''sha256:'' @ replicate 64 CHR ''0''"
  define new where "new = ''sha256:'' @ replicate 64 CHR ''1''"
  let ?l = "\<lparr>bindings = [\<lparr>sb_snapshot_id = text_of ''s1'', sb_state_sha256 = old\<rparr>]\<rparr>"
  have valid: "SnapshotIdentityLedger_post_init ?l = Inr ?l"
    by (simp add: SnapshotIdentityLedger_post_init_def and_then_eq_Inr require_unique_def)
  have digest: "validate_sha256_digest new = Inr new" unfolding new_def by code_simp
  have names: "validate_snapshot_id (text_of ''s1'') = Inr (text_of ''s1'')" "validate_snapshot_id (text_of ''s2'') = Inr (text_of ''s2'')"
    by (simp_all add: validate_snapshot_id_def validate_bounded_text_eq_Inr safe_text_def text_of_def MAX_SNAPSHOT_ID_LENGTH_def scalar_value_def)
  have different: "text_of ''s1'' \<noteq> text_of ''s2''" "new \<noteq> old" unfolding new_def old_def by code_simp+
  show ?thesis
    unfolding old_def[symmetric] new_def[symmetric]
    using snapshot_ledger_refines[OF valid, of "text_of ''s1''" new] snapshot_ledger_refines[OF valid, of "text_of ''s2''" new] different
    by (cases "bind_snapshot ?l (text_of ''s1'') new")
      (simp_all add: record_state_def ledger_map_def SnapshotBinding_post_init_def digest names)
qed

end
