(* ===== verification/Reconciliation.thy ===== *)
theory Reconciliation
  imports Observer_Protocol Resume_Models
begin

text \<open>
  Observer-assisted reconciliation of \<open>recovery/reconcile.py\<close>: an ambiguous delivery is resolved only by evidence of
  a safe observer that leaves no doubt. The supplier that collects the evidence is a parameter of \<open>reconcile\<close>: what
  awaiting it returns or raises, with cancellation kept apart because the code re-raises it.
\<close>

definition MAX_RECONCILIATION_RECORDS :: nat where "MAX_RECONCILIATION_RECORDS = 1000"
definition MAX_RECONCILIATION_ASSERTIONS :: nat where "MAX_RECONCILIATION_ASSERTIONS = 1000"

datatype ReconciliationOutcome = RECONCILED | AMBIGUOUS

datatype ReconciliationReason =
    DECISIVE_ASSERTIONS_PASSED | OBSERVER_INELIGIBLE | OBSERVER_ERROR | OBSERVATION_MISSING |
    OBSERVATION_INCONCLUSIVE | EVIDENCE_SCOPE_MISMATCH | SNAPSHOT_MISMATCH | ASSERTION_SET_INCOMPLETE |
    ASSERTION_SET_CONTRADICTORY | ASSERTION_PENDING | ASSERTION_UNSUPPORTED | ASSERTION_ERROR | ASSERTION_CONTRARY

record ReconciliationAssertionFact =
  fact_assertion_id :: string
  fact_evaluation_id :: string
  fact_state :: AssertionState
  fact_result :: AssertionResult
  fact_observation_id :: string
  fact_sample_id :: string
  fact_snapshot_id :: ustring

definition ReconciliationAssertionFact_post_init :: "ReconciliationAssertionFact \<Rightarrow> ReconciliationAssertionFact result" where
  "ReconciliationAssertionFact_post_init f =
     and_then (validate_planned_id (fact_assertion_id f) (Some PlannedIdKind.ASSERTION)) (\<lambda>_.
     and_then (validate_fresh_id (fact_evaluation_id f) (Some FreshIdKind.EVALUATION)) (\<lambda>_.
     and_then (validate_planned_id (fact_observation_id f) (Some PlannedIdKind.OBSERVATION)) (\<lambda>_.
     and_then (validate_fresh_id (fact_sample_id f) (Some FreshIdKind.SAMPLE)) (\<lambda>_.
     and_then (raise_unless (\<not> (fact_snapshot_id f = [] \<or> length (fact_snapshot_id f) > MAX_SNAPSHOT_ID_LENGTH \<or>
         list_ex (\<lambda>c. c \<in> {13, 10, 0}) (fact_snapshot_id f)))
       (ValueError ''snapshot_id must be bounded and line-safe'')) (\<lambda>_. Inr f)))))"

record ReconciliationEvidence =
  observations :: "ObservationRecord list"
  assertions :: "ReconciliationAssertionFact list"

definition ReconciliationEvidence_post_init :: "ReconciliationEvidence \<Rightarrow> ReconciliationEvidence result" where
  "ReconciliationEvidence_post_init e =
     and_then (raise_unless (\<not> length (observations e) > MAX_RECONCILIATION_RECORDS)
       (ValueError ''observation evidence exceeds the reconciliation limit'')) (\<lambda>_.
     and_then (raise_unless (\<not> length (assertions e) > MAX_RECONCILIATION_ASSERTIONS)
       (ValueError ''assertion evidence exceeds the reconciliation limit'')) (\<lambda>_. Inr e))"

record ReconciliationDecision =
  rd_attempt :: string
  outcome :: ReconciliationOutcome
  reason :: ReconciliationReason
  rd_result_category :: ResultCategory
  rd_exit_code :: ExitCode
  observation_record_ids :: "string list"
  evaluation_ids :: "string list"

definition fresh_id_tuple :: "string list \<Rightarrow> FreshIdKind \<Rightarrow> string \<Rightarrow> unit result" where
  "fresh_id_tuple ids kind name =
     and_then (for_each (\<lambda>v. validate_fresh_id v (Some kind)) ids) (\<lambda>_.
     raise_unless (length (remdups ids) = length ids) (ValueError (name @ '' IDs must be unique'')))"

definition ReconciliationDecision_post_init :: "ReconciliationDecision \<Rightarrow> ReconciliationDecision result" where
  "ReconciliationDecision_post_init d =
     and_then (validate_fresh_id (rd_attempt d) (Some FreshIdKind.ATTEMPT)) (\<lambda>_.
     and_then (raise_unless (rd_result_category d =
         (if outcome d = RECONCILED then ResultCategory.PASS else ResultCategory.AMBIGUOUS))
       (ValueError ''reconciliation outcome and result category disagree'')) (\<lambda>_.
     and_then (raise_unless (snd (exit_for_result (rd_result_category d)) = rd_exit_code d)
       (ValueError ''reconciliation category and exit code disagree'')) (\<lambda>_.
     and_then (fresh_id_tuple (observation_record_ids d) FreshIdKind.RECORD ''observation record'') (\<lambda>_.
     and_then (fresh_id_tuple (evaluation_ids d) FreshIdKind.EVALUATION ''evaluation'') (\<lambda>_. Inr d)))))"

definition reconciled :: "ReconciliationDecision \<Rightarrow> bool" where
  "reconciled d = (outcome d = RECONCILED)"

text \<open>\<open>dict.fromkeys\<close> keeps the first occurrence of each key.\<close>

fun unique_ordered :: "'a list \<Rightarrow> 'a list" where
  "unique_ordered [] = []"
| "unique_ordered (x # xs) = x # unique_ordered [y \<leftarrow> xs. y \<noteq> x]"

definition decision :: "ObservationReconciliationPlan \<Rightarrow> ReconciliationReason \<Rightarrow> ObservationRecord list \<Rightarrow>
    ReconciliationAssertionFact list \<Rightarrow> bool \<Rightarrow> ReconciliationDecision result" where
  "decision plan why observed facts is_reconciled =
     (let category = (if is_reconciled then ResultCategory.PASS else ResultCategory.AMBIGUOUS) in
      ReconciliationDecision_post_init
        \<lparr>rd_attempt = op_attempt_id plan, outcome = (if is_reconciled then RECONCILED else AMBIGUOUS), reason = why,
         rd_result_category = category, rd_exit_code = snd (exit_for_result category),
         observation_record_ids = unique_ordered (map rec_record_id observed),
         evaluation_ids = unique_ordered (map fact_evaluation_id facts)\<rparr>)"

definition observation_identities_conflict :: "ObservationRecord list \<Rightarrow> bool" where
  "observation_identities_conflict rs =
     (length (remdups (map rec_sample_id rs)) \<noteq> length rs \<or> length (remdups (map rec_sample_sequence rs)) \<noteq> length rs \<or>
      length (remdups (map rec_record_id rs)) \<noteq> length rs)"

text \<open>\<open>max\<close> with a key: the first element whose key is largest.\<close>

fun latest_sample :: "ObservationRecord \<Rightarrow> ObservationRecord list \<Rightarrow> ObservationRecord" where
  "latest_sample best [] = best"
| "latest_sample best (r # rs) = latest_sample (if rec_sample_sequence r > rec_sample_sequence best then r else best) rs"

definition nonpassing_reason :: "ReconciliationAssertionFact \<Rightarrow> ReconciliationReason" where
  "nonpassing_reason f =
     (if fact_state f \<in> {AssertionState.PENDING, AssertionState.RUNNING} \<or> fact_result f = AssertionResult.PENDING
      then ASSERTION_PENDING
      else if fact_state f = AssertionState.UNSUPPORTED \<or> fact_result f = AssertionResult.SKIPPED then ASSERTION_UNSUPPORTED
      else if fact_state f \<in> {AssertionState.ERROR, AssertionState.CANCELLED} then ASSERTION_ERROR
      else ASSERTION_CONTRARY)"

definition nonpassing :: "ReconciliationAssertionFact \<Rightarrow> bool" where
  "nonpassing f = (fact_state f \<noteq> AssertionState.PASSED \<or> fact_result f \<noteq> AssertionResult.PASS)"

definition assess_assertions :: "ObservationReconciliationPlan \<Rightarrow> ObservationRecord list \<Rightarrow>
    ReconciliationAssertionFact list \<Rightarrow> ReconciliationDecision result" where
  "assess_assertions plan scoped selected =
     (let names = map fact_assertion_id selected in
      if set names \<noteq> set (op_assertion_ids plan) then decision plan ASSERTION_SET_INCOMPLETE scoped selected False
      else if list_ex (\<lambda>n. count_list names n \<noteq> 1) names then decision plan ASSERTION_SET_CONTRADICTORY scoped selected False
      else
      let ordered = map (\<lambda>a. the (find (\<lambda>f. fact_assertion_id f = a) selected)) (op_assertion_ids plan) in
      case find nonpassing ordered of
        Some f \<Rightarrow> decision plan (nonpassing_reason f) scoped ordered False
      | None \<Rightarrow> decision plan DECISIVE_ASSERTIONS_PASSED scoped ordered True)"

definition assess :: "ObservationReconciliationPlan \<Rightarrow> ObserverCapabilities \<Rightarrow> ReconciliationEvidence \<Rightarrow>
    ReconciliationDecision result" where
  "assess plan capabilities evidence =
     (if \<not> resume_reconciliation_allowed capabilities then decision plan OBSERVER_INELIGIBLE [] [] False
      else if observations evidence = [] then decision plan OBSERVATION_MISSING [] [] False
      else
      let scoped = [r \<leftarrow> observations evidence. rec_observation_id r = op_observation_id plan \<and>
            rec_scenario_id r = op_scenario_id plan] in
      if length scoped \<noteq> length (observations evidence)
      then decision plan EVIDENCE_SCOPE_MISMATCH (observations evidence) [] False
      else if observation_identities_conflict scoped then decision plan EVIDENCE_SCOPE_MISMATCH scoped [] False
      else
      let terminal = latest_sample (hd scoped) (tl scoped) in
      if rec_status terminal \<noteq> ObservationStatus.OK \<or> rec_snapshot_id terminal = None
      then decision plan OBSERVATION_INCONCLUSIVE scoped [] False
      else
      let selected = [f \<leftarrow> assertions evidence. fact_sample_id f = rec_sample_id terminal] in
      if list_ex (\<lambda>f. fact_assertion_id f \<notin> set (op_assertion_ids plan) \<or> fact_observation_id f \<noteq> op_observation_id plan)
        (assertions evidence)
      then decision plan EVIDENCE_SCOPE_MISMATCH scoped (assertions evidence) False
      else if list_ex (\<lambda>f. fact_observation_id f \<noteq> rec_observation_id terminal \<or>
          Some (fact_snapshot_id f) \<noteq> rec_snapshot_id terminal) selected
      then decision plan SNAPSHOT_MISMATCH scoped selected False
      else assess_assertions plan scoped selected)"

datatype supplier_outcome = Supplied ReconciliationEvidence | NotEvidence | SupplierFailed | SupplierCancelled

definition reconcile :: "ObservationReconciliationPlan \<Rightarrow> ObserverCapabilities \<Rightarrow> supplier_outcome \<Rightarrow>
    ReconciliationDecision result option" where
  "reconcile plan capabilities supplied =
     (if \<not> resume_reconciliation_allowed capabilities then Some (decision plan OBSERVER_INELIGIBLE [] [] False)
      else case supplied of
          SupplierCancelled \<Rightarrow> None
        | SupplierFailed \<Rightarrow> Some (decision plan OBSERVER_ERROR [] [] False)
        | NotEvidence \<Rightarrow> Some (decision plan OBSERVER_ERROR [] [] False)
        | Supplied evidence \<Rightarrow> Some (assess plan capabilities evidence))"

section \<open>Decisions are always valid\<close>

lemma unique_ordered_set [simp]: "set (unique_ordered xs) = set xs"
  by (induction xs rule: unique_ordered.induct) auto

lemma unique_ordered_distinct [simp]: "distinct (unique_ordered xs)"
  by (induction xs rule: unique_ordered.induct) auto

lemma fresh_id_tuple_unique_ordered:
  assumes "\<forall>x \<in> set xs. returns (validate_fresh_id x (Some kind))"
  shows "fresh_id_tuple (unique_ordered xs) kind name = Inr ()"
proof -
  have "returns (for_each (\<lambda>v. validate_fresh_id v (Some kind)) (unique_ordered xs))"
    using assms by (simp add: for_each_unit_ok)
  then show ?thesis by (auto simp: fresh_id_tuple_def returns_iff distinct_remdups_id)
qed

text \<open>A decision for the plan's attempt, reconciled or not as stated, with the exit code that goes with it.\<close>

definition settles :: "ObservationReconciliationPlan \<Rightarrow> bool \<Rightarrow> ReconciliationDecision result \<Rightarrow> bool" where
  "settles plan b x \<longleftrightarrow> (\<exists>d. x = Inr d \<and> rd_attempt d = op_attempt_id plan \<and> (reconciled d \<longleftrightarrow> b) \<and>
     rd_exit_code d = (if b then ExitCode.PASS else ExitCode.AMBIGUOUS))"

lemma decision_settles:
  assumes "returns (validate_fresh_id (op_attempt_id plan) (Some FreshIdKind.ATTEMPT))"
    and "\<forall>r \<in> set rs. returns (validate_fresh_id (rec_record_id r) (Some FreshIdKind.RECORD))"
    and "\<forall>f \<in> set fs. returns (validate_fresh_id (fact_evaluation_id f) (Some FreshIdKind.EVALUATION))"
  shows "settles plan b (decision plan why rs fs b)"
proof -
  have ids: "fresh_id_tuple (unique_ordered (map rec_record_id rs)) FreshIdKind.RECORD ''observation record'' = Inr ()"
    "fresh_id_tuple (unique_ordered (map fact_evaluation_id fs)) FreshIdKind.EVALUATION ''evaluation'' = Inr ()"
    using assms(2,3) by (auto intro!: fresh_id_tuple_unique_ordered)
  show ?thesis
    using assms(1) ids
    by (auto simp: settles_def decision_def ReconciliationDecision_post_init_def Let_def returns_iff reconciled_def exit_for_result_def)
qed

section \<open>The latest sample\<close>

lemma latest_sample_in: "latest_sample best rs \<in> insert best (set rs)"
proof (induction rs arbitrary: best)
  case (Cons r rs)
  from Cons.IH[of "if rec_sample_sequence r > rec_sample_sequence best then r else best"] show ?case by (auto split: if_splits)
qed simp

lemma latest_sample_max: "r \<in> insert best (set rs) \<Longrightarrow> rec_sample_sequence r \<le> rec_sample_sequence (latest_sample best rs)"
proof (induction rs arbitrary: best r)
  case (Cons x rs)
  let ?b = "if rec_sample_sequence x > rec_sample_sequence best then x else best"
  have "rec_sample_sequence r \<le> rec_sample_sequence ?b \<or> r \<in> set rs" using Cons.prems by auto
  moreover have "rec_sample_sequence ?b \<le> rec_sample_sequence (latest_sample ?b rs)" using Cons.IH[of ?b ?b] by simp
  ultimately show ?case using Cons.IH[of r ?b] by force
qed simp

section \<open>What establishes the result\<close>

text \<open>The sample that decides: an ok sample with the largest sequence number.\<close>

definition decides :: "ReconciliationEvidence \<Rightarrow> ObservationRecord \<Rightarrow> ustring \<Rightarrow> bool" where
  "decides e t snapshot \<longleftrightarrow> t \<in> set (observations e) \<and>
     (\<forall>r \<in> set (observations e). rec_sample_sequence r \<le> rec_sample_sequence t) \<and>
     rec_status t = ObservationStatus.OK \<and> rec_snapshot_id t = Some snapshot"

text \<open>The facts evaluated on a sample.\<close>

definition facts_on :: "ReconciliationEvidence \<Rightarrow> ObservationRecord \<Rightarrow> ReconciliationAssertionFact list" where
  "facts_on e t = [f \<leftarrow> assertions e. fact_sample_id f = rec_sample_id t]"

definition conclusive :: "ObservationReconciliationPlan \<Rightarrow> ObserverCapabilities \<Rightarrow> ReconciliationEvidence \<Rightarrow> bool" where
  "conclusive plan c e \<longleftrightarrow> ObserverCapabilities.read_only c \<and> ObserverCapabilities.idempotent c \<and> stable_snapshot_ids c \<and>
     (\<forall>r \<in> set (observations e). rec_observation_id r = op_observation_id plan \<and> rec_scenario_id r = op_scenario_id plan) \<and>
     distinct (map rec_sample_id (observations e)) \<and> distinct (map rec_sample_sequence (observations e)) \<and>
     distinct (map rec_record_id (observations e)) \<and>
     (\<forall>f \<in> set (assertions e). fact_assertion_id f \<in> set (op_assertion_ids plan) \<and> fact_observation_id f = op_observation_id plan) \<and>
     (\<exists>t snapshot. decides e t snapshot \<and>
       (\<forall>f \<in> set (facts_on e t). fact_snapshot_id f = snapshot) \<and>
       (\<forall>a \<in> set (op_assertion_ids plan). \<exists>f. [f \<leftarrow> facts_on e t. fact_assertion_id f = a] = [f] \<and>
          fact_state f = AssertionState.PASSED \<and> fact_result f = AssertionResult.PASS))"

lemma count_filter: "count_list (map g xs) a = length [x \<leftarrow> xs. g x = a]"
  by (induction xs) auto

lemma find_filter: "filter P xs = x # ys \<Longrightarrow> find P xs = Some x"
  by (induction xs) (auto split: if_splits)

lemma filter_single: "filter P xs = [y] \<Longrightarrow> y \<in> set xs \<and> P y"
proof -
  assume "filter P xs = [y]"
  then have "y \<in> set (filter P xs)" by simp
  then show "y \<in> set xs \<and> P y" by simp
qed

lemma filter_length_all: "length (filter P xs) = length xs \<longleftrightarrow> (\<forall>x \<in> set xs. P x)"
  using sum_length_filter_compl[of P xs] by (auto simp: filter_empty_conv)

lemma assess_assertions_exact:
  assumes ids: "returns (validate_fresh_id (op_attempt_id plan) (Some FreshIdKind.ATTEMPT))"
      "\<forall>r \<in> set rs. returns (validate_fresh_id (rec_record_id r) (Some FreshIdKind.RECORD))"
      "\<forall>f \<in> set selected. returns (validate_fresh_id (fact_evaluation_id f) (Some FreshIdKind.EVALUATION))"
    and planned: "\<forall>f \<in> set selected. fact_assertion_id f \<in> set (op_assertion_ids plan)"
  shows "settles plan (\<forall>a \<in> set (op_assertion_ids plan). \<exists>f. [f \<leftarrow> selected. fact_assertion_id f = a] = [f] \<and> \<not> nonpassing f)
    (assess_assertions plan rs selected)" (is "settles plan ?all _")
proof -
  let ?names = "map fact_assertion_id selected"
  let ?one = "\<lambda>a. [f \<leftarrow> selected. fact_assertion_id f = a]"
  let ?ordered = "map (\<lambda>a. the (find (\<lambda>f. fact_assertion_id f = a) selected)) (op_assertion_ids plan)"
  note returns = decision_settles[OF ids(1,2)]
  show ?thesis
  proof (cases "set ?names = set (op_assertion_ids plan) \<and> \<not> list_ex (\<lambda>n. count_list ?names n \<noteq> 1) ?names")
    case False
    have "\<not> ?all"
    proof
      assume all: ?all
      have "a \<in> set ?names" if "a \<in> set (op_assertion_ids plan)" for a
      proof -
        obtain f where "?one a = [f]" using all \<open>a \<in> _\<close> by blast
        from filter_single[OF this] show ?thesis by auto
      qed
      then have "set ?names = set (op_assertion_ids plan)" using planned by auto
      moreover have "count_list ?names n = 1" if "n \<in> set ?names" for n
      proof -
        have "n \<in> set (op_assertion_ids plan)" using planned \<open>n \<in> _\<close> by auto
        then obtain f where "?one n = [f]" using all by blast
        then show ?thesis unfolding count_filter by simp
      qed
      ultimately show False using False by (auto simp: list_ex_iff)
    qed
    then have none: "?all = False" by simp
    have "assess_assertions plan rs selected \<in> {decision plan ASSERTION_SET_INCOMPLETE rs selected False,
        decision plan ASSERTION_SET_CONTRADICTORY rs selected False}"
      using False unfolding assess_assertions_def Let_def by (simp only: insert_iff if_splits) argo
    then show ?thesis unfolding none using returns[OF ids(3), where b = False] by fastforce
  next
    case True
    have each: "\<exists>f. ?one a = [f] \<and> find (\<lambda>f. fact_assertion_id f = a) selected = Some f" if "a \<in> set (op_assertion_ids plan)" for a
    proof -
      have "count_list ?names a = 1" using True that unfolding list_ex_iff by blast
      then obtain f where f: "?one a = [f]" unfolding count_filter by (auto simp: length_Suc_conv)
      from f find_filter[OF f] show ?thesis by blast
    qed
    have "set ?ordered \<subseteq> set selected"
    proof
      fix x assume "x \<in> set ?ordered"
      then obtain a where a: "a \<in> set (op_assertion_ids plan)" "x = the (find (\<lambda>f. fact_assertion_id f = a) selected)" by auto
      from each[OF a(1)] obtain f where "find (\<lambda>f. fact_assertion_id f = a) selected = Some f" by blast
      then show "x \<in> set selected" using a(2) by (metis find_Some_iff nth_mem option.sel)
    qed
    then have valid: "\<forall>f \<in> set ?ordered. returns (validate_fresh_id (fact_evaluation_id f) (Some FreshIdKind.EVALUATION))"
      using ids(3) by blast
    have "find nonpassing ?ordered = None \<longleftrightarrow> ?all"
      unfolding find_None_iff using each by (auto simp: Bex_def) (metis list.inject option.sel)+
    then have all: "?all \<longleftrightarrow> find nonpassing ?ordered = None" by simp
    have "assess_assertions plan rs selected = (case find nonpassing ?ordered of
        Some f \<Rightarrow> decision plan (nonpassing_reason f) rs ?ordered False
      | None \<Rightarrow> decision plan DECISIVE_ASSERTIONS_PASSED rs ?ordered True)"
      using True unfolding assess_assertions_def Let_def by (simp only: if_False simp_thms)
    then show ?thesis unfolding all using returns[OF valid] by (cases "find nonpassing ?ordered") simp_all
  qed
qed

lemma distinct_length: "length (remdups xs) = length xs \<longleftrightarrow> distinct xs"
  using length_remdups_eq[of xs] remdups_id_iff_distinct[of xs] by simp

lemma latest_decides:
  assumes "observations e \<noteq> []" "distinct (map rec_sample_sequence (observations e))"
  shows "decides e t snapshot \<longleftrightarrow> t = latest_sample (hd (observations e)) (tl (observations e)) \<and>
    rec_status t = ObservationStatus.OK \<and> rec_snapshot_id t = Some snapshot"
proof -
  let ?l = "latest_sample (hd (observations e)) (tl (observations e))"
  have all: "insert (hd (observations e)) (set (tl (observations e))) = set (observations e)"
    using assms(1) by (cases "observations e") auto
  have "?l \<in> set (observations e)" using latest_sample_in all by metis
  moreover have max: "\<forall>r \<in> set (observations e). rec_sample_sequence r \<le> rec_sample_sequence ?l" using latest_sample_max all by metis
  moreover have "t = ?l" if "t \<in> set (observations e)" "\<forall>r \<in> set (observations e). rec_sample_sequence r \<le> rec_sample_sequence t"
  proof -
    have "rec_sample_sequence t = rec_sample_sequence ?l" using that max \<open>?l \<in> _\<close> by (meson order_antisym)
    then show ?thesis using assms(2) that(1) \<open>?l \<in> _\<close> by (metis distinct_map inj_onD)
  qed
  ultimately show ?thesis unfolding decides_def by blast
qed

text \<open>C3. Reconciliation is exact. For a valid plan and valid evidence every assessment returns a valid decision for the
  plan's attempt, and it declares the delivery reconciled if and only if the evidence is conclusive: a read-only,
  idempotent observer with stable snapshots; only records of this observation, with distinct samples, sequence numbers
  and records; only facts about the planned assertions; and a latest sample that is ok, on whose snapshot every planned
  assertion was evaluated exactly once and passed. In every other case the delivery stays ambiguous, with the
  ambiguous exit code.\<close>

theorem reconciliation_exact:
  assumes "ObservationReconciliationPlan_post_init plan = Inr plan"
    and "\<forall>r \<in> set (observations evidence). ObservationRecord_validate decimal r = Inr r"
    and "\<forall>f \<in> set (assertions evidence). ReconciliationAssertionFact_post_init f = Inr f"
  shows "\<exists>d. assess plan capabilities evidence = Inr d \<and> rd_attempt d = op_attempt_id plan \<and>
    (reconciled d \<longleftrightarrow> conclusive plan capabilities evidence) \<and>
    rd_exit_code d = (if reconciled d then ExitCode.PASS else ExitCode.AMBIGUOUS)"
proof -
  let ?rs = "observations evidence" and ?fs = "assertions evidence"
  have attempt: "returns (validate_fresh_id (op_attempt_id plan) (Some FreshIdKind.ATTEMPT))"
    using assms(1) by (auto simp: ObservationReconciliationPlan_post_init_def and_then_eq_Inr returns_iff)
  have records: "\<forall>r \<in> set ?rs. returns (validate_fresh_id (rec_record_id r) (Some FreshIdKind.RECORD))"
    using assms(2) by (auto simp: ObservationRecord_validate_def and_then_eq_Inr returns_iff)
  have facts: "\<forall>f \<in> set ?fs. returns (validate_fresh_id (fact_evaluation_id f) (Some FreshIdKind.EVALUATION))"
    using assms(3) by (auto simp: ReconciliationAssertionFact_post_init_def and_then_eq_Inr returns_iff)
  have plain: "settles plan False (decision plan why rs fs False)" if "set rs \<subseteq> set ?rs" "set fs \<subseteq> set ?fs" for why rs fs
    using that records facts by (intro decision_settles attempt) blast+
  have conflict: "observation_identities_conflict ?rs \<longleftrightarrow> \<not> (distinct (map rec_sample_id ?rs) \<and>
      distinct (map rec_sample_sequence ?rs) \<and> distinct (map rec_record_id ?rs))"
    using distinct_length[of "map rec_sample_id ?rs"] distinct_length[of "map rec_sample_sequence ?rs"]
      distinct_length[of "map rec_record_id ?rs"] by (simp add: observation_identities_conflict_def)
  have "settles plan (conclusive plan capabilities evidence) (assess plan capabilities evidence)"
  proof (cases "resume_reconciliation_allowed capabilities \<and> ?rs \<noteq> [] \<and>
      (\<forall>r \<in> set ?rs. rec_observation_id r = op_observation_id plan \<and> rec_scenario_id r = op_scenario_id plan) \<and>
      distinct (map rec_sample_id ?rs) \<and> distinct (map rec_sample_sequence ?rs) \<and> distinct (map rec_record_id ?rs)")
    case False
    then have "\<not> conclusive plan capabilities evidence"
      by (auto simp: conclusive_def decides_def resume_reconciliation_allowed_def automatic_reinvocation_safe_def)
    moreover have "assess plan capabilities evidence \<in> {decision plan OBSERVER_INELIGIBLE [] [] False,
        decision plan OBSERVATION_MISSING [] [] False, decision plan EVIDENCE_SCOPE_MISMATCH ?rs [] False}"
    proof -
      let ?scope = "\<lambda>r. rec_observation_id r = op_observation_id plan \<and> rec_scenario_id r = op_scenario_id plan"
      consider "\<not> resume_reconciliation_allowed capabilities" | "resume_reconciliation_allowed capabilities" "?rs = []"
        | "resume_reconciliation_allowed capabilities" "?rs \<noteq> []" "\<not> (\<forall>r \<in> set ?rs. ?scope r)"
        | "resume_reconciliation_allowed capabilities" "?rs \<noteq> []" "\<forall>r \<in> set ?rs. ?scope r" "observation_identities_conflict ?rs"
        using False conflict by blast
      then show ?thesis
      proof cases
        case 3
        then have "length (filter ?scope ?rs) \<noteq> length ?rs" unfolding filter_length_all by blast
        with 3 show ?thesis by (simp add: assess_def)
      next
        case 4
        then have "filter ?scope ?rs = ?rs" by (simp add: filter_id_conv)
        with 4 show ?thesis by (simp add: assess_def)
      qed (simp_all add: assess_def)
    qed
    ultimately show ?thesis using plain by auto
  next
    case True
    let ?t = "latest_sample (hd ?rs) (tl ?rs)"
    let ?selected = "facts_on evidence ?t"
    have scoped: "[r \<leftarrow> ?rs. rec_observation_id r = op_observation_id plan \<and> rec_scenario_id r = op_scenario_id plan] = ?rs"
      using True by (simp add: filter_id_conv)
    have "?t \<in> set ?rs" using latest_sample_in[of "hd ?rs" "tl ?rs"] True by (cases ?rs) auto
    then have scope: "rec_observation_id ?t = op_observation_id plan" using True by blast
    have start: "assess plan capabilities evidence =
        (if rec_status ?t \<noteq> ObservationStatus.OK \<or> rec_snapshot_id ?t = None then decision plan OBSERVATION_INCONCLUSIVE ?rs [] False
         else if list_ex (\<lambda>f. fact_assertion_id f \<notin> set (op_assertion_ids plan) \<or> fact_observation_id f \<noteq> op_observation_id plan) ?fs
         then decision plan EVIDENCE_SCOPE_MISMATCH ?rs ?fs False
         else if list_ex (\<lambda>f. fact_observation_id f \<noteq> rec_observation_id ?t \<or> Some (fact_snapshot_id f) \<noteq> rec_snapshot_id ?t) ?selected
         then decision plan SNAPSHOT_MISMATCH ?rs ?selected False
         else assess_assertions plan ?rs ?selected)"
      using True unfolding assess_def Let_def scoped facts_on_def conflict by (simp only: simp_thms if_False)
    have decided: "decides evidence t snap \<longleftrightarrow> t = ?t \<and> rec_status t = ObservationStatus.OK \<and> rec_snapshot_id t = Some snap" for t snap
      using True by (intro latest_decides) simp_all
    have allowed: "ObserverCapabilities.read_only capabilities" "ObserverCapabilities.idempotent capabilities"
      "stable_snapshot_ids capabilities"
      using True by (simp_all add: resume_reconciliation_allowed_def automatic_reinvocation_safe_def)
    have passing: "\<not> nonpassing f \<longleftrightarrow> fact_state f = AssertionState.PASSED \<and> fact_result f = AssertionResult.PASS" for f
      by (simp add: nonpassing_def)
    let ?facts = "\<forall>f \<in> set ?fs. fact_assertion_id f \<in> set (op_assertion_ids plan) \<and> fact_observation_id f = op_observation_id plan"
    let ?same = "\<lambda>t snap. \<forall>f \<in> set (facts_on evidence t). fact_snapshot_id f = snap"
    let ?passed = "\<lambda>t. \<forall>a \<in> set (op_assertion_ids plan). \<exists>f. [f \<leftarrow> facts_on evidence t. fact_assertion_id f = a] = [f] \<and> \<not> nonpassing f"
    have "conclusive plan capabilities evidence \<longleftrightarrow> ?facts \<and> (\<exists>t snap. decides evidence t snap \<and> ?same t snap \<and> ?passed t)"
      unfolding conclusive_def passing using True allowed by (simp only: simp_thms) blast
    also have "\<dots> \<longleftrightarrow> ?facts \<and> rec_status ?t = ObservationStatus.OK \<and> (\<exists>snap. rec_snapshot_id ?t = Some snap \<and> ?same ?t snap) \<and> ?passed ?t"
      unfolding decided by blast
    finally have spec: "conclusive plan capabilities evidence \<longleftrightarrow> ?facts \<and> rec_status ?t = ObservationStatus.OK \<and>
        (\<exists>snap. rec_snapshot_id ?t = Some snap \<and> ?same ?t snap) \<and> ?passed ?t" .
    show ?thesis
    proof (cases "rec_status ?t = ObservationStatus.OK \<and> rec_snapshot_id ?t \<noteq> None \<and>
        (\<forall>f \<in> set ?fs. fact_assertion_id f \<in> set (op_assertion_ids plan) \<and> fact_observation_id f = op_observation_id plan) \<and>
        (\<forall>f \<in> set ?selected. Some (fact_snapshot_id f) = rec_snapshot_id ?t)")
      case False
      then have "\<not> conclusive plan capabilities evidence" unfolding spec by auto
      moreover have "assess plan capabilities evidence \<in> {decision plan OBSERVATION_INCONCLUSIVE ?rs [] False,
          decision plan EVIDENCE_SCOPE_MISMATCH ?rs ?fs False, decision plan SNAPSHOT_MISMATCH ?rs ?selected False}"
        unfolding start using False scope by (auto simp: list_ex_iff)
      ultimately show ?thesis using plain[of ?rs] by (auto simp: facts_on_def)
    next
      case good: True
      then have "assess plan capabilities evidence = assess_assertions plan ?rs ?selected"
        unfolding start using scope by (auto simp: list_ex_iff facts_on_def)
      moreover have "conclusive plan capabilities evidence \<longleftrightarrow>
          (\<forall>a \<in> set (op_assertion_ids plan). \<exists>f. [f \<leftarrow> ?selected. fact_assertion_id f = a] = [f] \<and> \<not> nonpassing f)"
        unfolding spec using good by auto
      ultimately show ?thesis
        using assess_assertions_exact[OF attempt records, of ?selected] facts good by (simp add: facts_on_def)
    qed
  qed
  then obtain d where d: "assess plan capabilities evidence = Inr d" "rd_attempt d = op_attempt_id plan"
    "reconciled d \<longleftrightarrow> conclusive plan capabilities evidence"
    "rd_exit_code d = (if conclusive plan capabilities evidence then ExitCode.PASS else ExitCode.AMBIGUOUS)"
    unfolding settles_def by blast
  then show ?thesis by (intro exI[of _ d]) simp
qed

section \<open>Witnesses\<close>

definition sample_query :: ObserverQuery where
  "sample_query = \<lparr>query_key = text_of ''total'', query_type = INTEGER, query_parameters = FrozenJsonObject []\<rparr>"

definition sample_observe :: ObserverRequest where
  "sample_observe = \<lparr>rq_request_id = ''request_'' @ zero_ulid, rq_operation = ObserverOperation.OBSERVE,
     rq_sample_id = Some (''sample_'' @ zero_ulid), rq_run_id = Some sample_run_id,
     rq_scenario_id = None, rq_event_id = None, rq_checkpoint = None, rq_prior_snapshot_id = None, rq_queries = [sample_query]\<rparr>"

definition sample_answer :: ObserverResponse where
  "sample_answer = \<lparr>rs_request_id = ''request_'' @ zero_ulid, rs_status = ObserverResponseStatus.OK,
     rs_capabilities = \<lparr>evidence_types = [INTEGER], evidence_keys = [text_of ''total''], read_only = True, idempotent = True,
       max_queries = 1, supports_pending = False, stable_snapshot_ids = True\<rparr>,
     rs_snapshot_id = Some (text_of ''s1''),
     rs_evidence = [\<lparr>ev_key = text_of ''total'', ev_value_type = EvidenceValueType.INTEGER, ev_value = JsonEvidence (FInt 3), sensitive = False\<rparr>],
     rs_error = None\<rparr>"

lemmas safe_literal = safe_text_def text_of_def scalar_value_def

lemma sample_request_id: "validate_request_id (''request_'' @ zero_ulid) = Inr (''request_'' @ zero_ulid)"
proof -
  have "request_id_match (''request_'' @ zero_ulid)" by code_simp
  moreover have "drop 8 (''request_'' @ zero_ulid) = zero_ulid" by simp
  moreover have "returns (decode_crockford_ulid zero_ulid)"
    using zero_payload unfolding returns_iff decode_iff_encode zero_ulid_def by blast
  ultimately show ?thesis unfolding validate_request_id_def by (auto simp: returns_iff)
qed

lemma sample_exchange_valid:
  "ObserverRequest_validate sample_observe = Inr sample_observe" "ObserverResponse_validate sample_answer = Inr sample_answer"
proof -
  show "ObserverRequest_validate sample_observe = Inr sample_observe"
    using sample_request_id zero_fresh[of FreshIdKind.SAMPLE] sample_run_id_valid
    by (simp add: ObserverRequest_validate_def sample_observe_def if_present_def validate_sample_id_def
        validate_operation_shape_def MAX_OBSERVER_QUERIES_def and_then_eq_Inr)
  have "ObserverCapabilities_validate (rs_capabilities sample_answer) = Inr (rs_capabilities sample_answer)"
    by (simp add: ObserverCapabilities_validate_def sample_answer_def MAX_CAPABILITY_EVIDENCE_KEYS_def MAX_OBSERVER_QUERIES_def
        and_then_eq_Inr validate_bounded_text_eq_Inr safe_literal MAX_JSON_OBJECT_KEY_LENGTH_def)
  moreover have "validate_snapshot_id (text_of ''s1'') = Inr (text_of ''s1'')"
    by (simp add: validate_snapshot_id_def validate_bounded_text_eq_Inr safe_literal MAX_SNAPSHOT_ID_LENGTH_def)
  ultimately show "ObserverResponse_validate sample_answer = Inr sample_answer"
    using sample_request_id
    by (simp add: ObserverResponse_validate_def sample_answer_def if_present_def validate_response_shape_def
        MAX_EVIDENCE_VALUES_def and_then_eq_Inr)
qed

theorem response_accepted_exactly_witness:
  "validate_response_for_request sample_observe sample_answer = Inr sample_answer"
  unfolding response_accepted_exactly[OF sample_exchange_valid]
  by (simp add: sample_observe_def sample_answer_def serves_def answers_def sample_query_def)

text \<open>A conclusive case: one ok sample, on which the one planned assertion passed.\<close>

definition sample_reconciliation :: ObservationReconciliationPlan where
  "sample_reconciliation = \<lparr>op_attempt_id = sample_attempt_id, op_scenario_id = ''scenario_'' @ zero_ulid,
     op_delivery_id = ''delivery_'' @ zero_ulid, op_observation_id = ''observation_'' @ zero_ulid,
     op_assertion_ids = [''assertion_'' @ zero_ulid]\<rparr>"

definition sample_record :: ObservationRecord where
  "sample_record = \<lparr>rec_record_id = ''record_'' @ zero_ulid, rec_run_id = sample_run_id, rec_scenario_id = ''scenario_'' @ zero_ulid,
     rec_observation_id = ''observation_'' @ zero_ulid, rec_sample_id = ''sample_'' @ zero_ulid, rec_observer_id = text_of ''db'',
     rec_sample_sequence = 1, rec_recorded_at = text_of ''2026-01-31T23:59:59.5Z'', rec_status = ObservationStatus.OK,
     rec_event_id = None, rec_snapshot_id = Some (text_of ''s1''), rec_evidence = [], rec_error = None\<rparr>"

definition sample_fact :: ReconciliationAssertionFact where
  "sample_fact = \<lparr>fact_assertion_id = ''assertion_'' @ zero_ulid, fact_evaluation_id = ''evaluation_'' @ zero_ulid,
     fact_state = AssertionState.PASSED, fact_result = AssertionResult.PASS, fact_observation_id = ''observation_'' @ zero_ulid,
     fact_sample_id = ''sample_'' @ zero_ulid, fact_snapshot_id = text_of ''s1''\<rparr>"

lemma sample_observation_valid:
  "ObservationReconciliationPlan_post_init sample_reconciliation = Inr sample_reconciliation"
  "ObservationRecord_validate ascii_decimal sample_record = Inr sample_record"
  "ReconciliationAssertionFact_post_init sample_fact = Inr sample_fact"
proof -
  note ids = zero_ids zero_planned[of PlannedIdKind.OBSERVATION, simplified] zero_planned[of PlannedIdKind.ASSERTION, simplified]
    zero_fresh[of FreshIdKind.SAMPLE, simplified] zero_fresh[of FreshIdKind.EVALUATION, simplified]
  show "ObservationReconciliationPlan_post_init sample_reconciliation = Inr sample_reconciliation"
    using ids by (simp add: ObservationReconciliationPlan_post_init_def sample_reconciliation_def sample_attempt_id_def)
  have "returns (validate_utc_timestamp ascii_decimal (text_of ''2026-01-31T23:59:59.5Z''))"
    by (simp add: validate_utc_timestamp_def timestamp_match_def slice_def is_digit_def ascii_decimal_def digits_value_def
        datetime_ok_def days_in_month_def text_of_def returns_iff numeral_nat)
  moreover have "returns (validate_bounded_text (text_of ''db'') ''observer_id'' MAX_OBSERVER_ID_LENGTH False)"
    "returns (validate_snapshot_id (text_of ''s1''))"
    by (simp_all add: returns_iff validate_snapshot_id_def validate_bounded_text_eq_Inr safe_literal MAX_SNAPSHOT_ID_LENGTH_def
        MAX_OBSERVER_ID_LENGTH_def)
  ultimately show "ObservationRecord_validate ascii_decimal sample_record = Inr sample_record"
    using ids sample_run_id_valid
    by (auto simp: ObservationRecord_validate_def sample_record_def validate_sample_id_def if_present_def validate_record_shape_def
        MAX_IJSON_INTEGER_def MAX_EVIDENCE_VALUES_def and_then_eq_Inr returns_iff)
  show "ReconciliationAssertionFact_post_init sample_fact = Inr sample_fact"
    using ids by (simp add: ReconciliationAssertionFact_post_init_def sample_fact_def MAX_SNAPSHOT_ID_LENGTH_def text_of_def)
qed

theorem reconciliation_exact_witness:
  "\<exists>d. assess sample_reconciliation (rs_capabilities sample_answer) \<lparr>observations = [sample_record], assertions = [sample_fact]\<rparr> = Inr d \<and>
    reconciled d \<and> rd_exit_code d = ExitCode.PASS"
proof -
  let ?e = "\<lparr>observations = [sample_record], assertions = [sample_fact]\<rparr>"
  have "decides ?e sample_record (text_of ''s1'')" by (simp add: decides_def sample_record_def)
  moreover have "facts_on ?e sample_record = [sample_fact]" by (simp add: facts_on_def sample_record_def sample_fact_def)
  moreover have "fact_assertion_id sample_fact = ''assertion_'' @ zero_ulid" by (simp add: sample_fact_def)
  ultimately have "\<exists>t snapshot. decides ?e t snapshot \<and> (\<forall>f \<in> set (facts_on ?e t). fact_snapshot_id f = snapshot) \<and>
      (\<forall>a \<in> set (op_assertion_ids sample_reconciliation). \<exists>f. [f \<leftarrow> facts_on ?e t. fact_assertion_id f = a] = [f] \<and>
        fact_state f = AssertionState.PASSED \<and> fact_result f = AssertionResult.PASS)"
    by (intro exI[of _ sample_record] exI[of _ "text_of ''s1''"]) (simp add: sample_reconciliation_def, simp add: sample_fact_def)
  then have "conclusive sample_reconciliation (rs_capabilities sample_answer) ?e"
    unfolding conclusive_def by (simp add: sample_answer_def sample_record_def sample_fact_def sample_reconciliation_def)
  then show ?thesis
    using reconciliation_exact[OF sample_observation_valid(1), of ?e ascii_decimal "rs_capabilities sample_answer"]
      sample_observation_valid(2,3) by auto
qed

end
