(* ===== verification/Assertions_State.thy ===== *)
theory Assertions_State
  imports Observer_Protocol Text_Codecs Domain_Enums Complex_Main
begin

text \<open>
  Receiver-state assertions: \<open>assertions/state.py\<close> with the configuration models it reads (\<open>Comparator\<close>,
  \<open>MissingPointer\<close>, the typed values and the state assertions of \<open>config/models.py\<close>). A Python
  \<open>Decimal\<close> is a coefficient with a decimal exponent, as the standard library keeps it, in a 64-bit build.
  The specification at the end judges evidence by rational numbers, by the meaning of JSON values as finite maps
  and by reference tokens; the code is shown to return exactly that judgement.
\<close>

section \<open>Configuration\<close>

datatype Comparator = EQ | NE | LT | LTE | GT | GTE
datatype MissingPointer = FAIL | ERROR
datatype OnUnsupported = UNSUPPORTED | SKIP

record BytesDigestValue =
  dv_sha256 :: string
  dv_byte_length :: int
  dv_media_type :: "ustring option"

text \<open>A typed value; arrays and objects hold canonical JSON, in the form \<open>to_wire\<close> thaws it to.\<close>

datatype TypedValue =
    NullTypedValue | BooleanTypedValue bool | IntegerTypedValue int | DecimalStringTypedValue ustring |
    StringTypedValue ustring | BytesDigestTypedValue BytesDigestValue | TimestampTypedValue ustring |
    ArrayTypedValue "json_value list" | ObjectTypedValue "(ustring \<times> json_value) list"

definition digest_wire :: "BytesDigestValue \<Rightarrow> json_value" where
  "digest_wire d = JObject ([(text_of ''sha256'', JString (text_of (dv_sha256 d))), (text_of ''byte_length'', JInt (dv_byte_length d))] @
     (case dv_media_type d of None \<Rightarrow> [] | Some t \<Rightarrow> [(text_of ''media_type'', JString t)]))"

fun typed_value_to_wire :: "TypedValue \<Rightarrow> EvidenceValueType \<times> json_value" where
  "typed_value_to_wire NullTypedValue = (EvidenceValueType.NULL, JNull)"
| "typed_value_to_wire (BooleanTypedValue b) = (BOOLEAN, JBool b)"
| "typed_value_to_wire (IntegerTypedValue i) = (INTEGER, JInt i)"
| "typed_value_to_wire (DecimalStringTypedValue s) = (DECIMAL_STRING, JString s)"
| "typed_value_to_wire (StringTypedValue s) = (STRING, JString s)"
| "typed_value_to_wire (BytesDigestTypedValue d) = (BYTES_DIGEST, digest_wire d)"
| "typed_value_to_wire (TimestampTypedValue s) = (TIMESTAMP, JString s)"
| "typed_value_to_wire (ArrayTypedValue vs) = (ARRAY, JArray vs)"
| "typed_value_to_wire (ObjectTypedValue ps) = (OBJECT, JObject ps)"

text \<open>The configured \<open>ObserverQuery\<close>.\<close>

record ConfigQuery =
  cq_observer :: string
  cq_key :: ustring
  cq_parameters :: json_value

record CountAssertion =
  ca_id :: string
  ca_query :: ConfigQuery
  ca_comparator :: Comparator
  ca_expected :: int

record ExistenceAssertion =
  xa_id :: string
  xa_query :: ConfigQuery

record FieldAssertion =
  fa_id :: string
  fa_query :: ConfigQuery
  fa_path :: ustring
  fa_comparator :: Comparator
  fa_expected :: TypedValue
  fa_missing_pointer :: MissingPointer

datatype StateAssertion =
    ProcessingCountAssertion CountAssertion | CallbackCountAssertion CountAssertion | JournalCountAssertion CountAssertion |
    ResourceExistsAssertion ExistenceAssertion | ResourceAbsentAssertion ExistenceAssertion |
    ResourceFieldAssertion FieldAssertion

fun state_assertion_id :: "StateAssertion \<Rightarrow> string" where
  "state_assertion_id (ProcessingCountAssertion a) = ca_id a"
| "state_assertion_id (CallbackCountAssertion a) = ca_id a"
| "state_assertion_id (JournalCountAssertion a) = ca_id a"
| "state_assertion_id (ResourceExistsAssertion a) = xa_id a"
| "state_assertion_id (ResourceAbsentAssertion a) = xa_id a"
| "state_assertion_id (ResourceFieldAssertion a) = fa_id a"

fun state_query :: "StateAssertion \<Rightarrow> ConfigQuery" where
  "state_query (ProcessingCountAssertion a) = ca_query a"
| "state_query (CallbackCountAssertion a) = ca_query a"
| "state_query (JournalCountAssertion a) = ca_query a"
| "state_query (ResourceExistsAssertion a) = xa_query a"
| "state_query (ResourceAbsentAssertion a) = xa_query a"
| "state_query (ResourceFieldAssertion a) = fa_query a"

section \<open>Facts and evaluations\<close>

datatype StateAssertionCode =
    COMPARISON_MATCH | COMPARISON_MISMATCH | EVIDENCE_MISSING | EVIDENCE_DUPLICATE | EVIDENCE_TYPE_MISMATCH |
    POINTER_MISSING | COMPARATOR_UNSUPPORTED

record StateAssertionFact =
  sf_value_type :: EvidenceValueType
  sf_value :: evidence_value
  sf_sensitive :: bool

definition require_fact_shape :: "EvidenceValueType \<Rightarrow> evidence_value \<Rightarrow> unit result" where
  "require_fact_shape t v =
     (if t = EvidenceValueType.NULL \<and> v = JsonEvidence FNull then Inr ()
      else if t = BOOLEAN \<and> (case v of JsonEvidence (FBool _) \<Rightarrow> True | _ \<Rightarrow> False) then Inr ()
      else if t = INTEGER \<and> (case v of JsonEvidence (FInt _) \<Rightarrow> True | _ \<Rightarrow> False) then Inr ()
      else if t \<in> {DECIMAL_STRING, STRING, TIMESTAMP} \<and> (case v of JsonEvidence (FString _) \<Rightarrow> True | _ \<Rightarrow> False) then Inr ()
      else if t = BYTES_DIGEST \<and> (case v of DigestEvidence _ \<Rightarrow> True | _ \<Rightarrow> False) then Inr ()
      else if t = ARRAY \<and> (case v of JsonEvidence (FTuple _) \<Rightarrow> True | _ \<Rightarrow> False) then Inr ()
      else if t = OBJECT \<and> (case v of JsonEvidence (FrozenJsonObject _) \<Rightarrow> True | _ \<Rightarrow> False) then Inr ()
      else Inl (TypeError ''fact value does not match its declared evidence type''))"

definition StateAssertionFact_init :: "EvidenceValueType \<Rightarrow> evidence_value \<Rightarrow> bool \<Rightarrow> StateAssertionFact result" where
  "StateAssertionFact_init t v s =
     and_then (require_fact_shape t v) (\<lambda>_. Inr \<lparr>sf_value_type = t, sf_value = v, sf_sensitive = s\<rparr>)"

record StateAssertionEvaluation =
  se_assertion_id :: string
  se_result :: AssertionResult
  se_code :: StateAssertionCode
  se_evidence_key :: ustring
  se_expected :: "StateAssertionFact option"
  se_actual :: "StateAssertionFact option"
  se_source_evidence :: "ObserverEvidence option"

definition StateAssertionEvaluation_post_init :: "StateAssertionEvaluation \<Rightarrow> StateAssertionEvaluation result" where
  "StateAssertionEvaluation_post_init e =
     and_then (raise_unless (se_assertion_id e \<noteq> []) (ValueError ''assertion_id must be a nonempty string'')) (\<lambda>_.
     and_then (raise_unless (se_result e \<in> {AssertionResult.PASS, AssertionResult.FAIL, AssertionResult.ERROR})
       (ValueError ''state assertion result must be pass, fail, or error'')) (\<lambda>_.
     and_then (raise_unless (se_evidence_key e \<noteq> []) (ValueError ''evidence_key must be a nonempty string'')) (\<lambda>_. Inr e)))"

definition state_evaluation :: "StateAssertion \<Rightarrow> AssertionResult \<Rightarrow> StateAssertionCode \<Rightarrow> StateAssertionFact option \<Rightarrow>
    StateAssertionFact option \<Rightarrow> ObserverEvidence option \<Rightarrow> StateAssertionEvaluation result" where
  "state_evaluation a r c expected actual source = StateAssertionEvaluation_post_init
     \<lparr>se_assertion_id = state_assertion_id a, se_result = r, se_code = c, se_evidence_key = cq_key (state_query a),
      se_expected = expected, se_actual = actual, se_source_evidence = source\<rparr>"

definition comparison_evaluation :: "StateAssertion \<Rightarrow> ObserverEvidence \<Rightarrow> StateAssertionFact \<Rightarrow> StateAssertionFact \<Rightarrow> bool \<Rightarrow>
    StateAssertionEvaluation result" where
  "comparison_evaluation a e expected actual matched = state_evaluation a
     (if matched then AssertionResult.PASS else AssertionResult.FAIL)
     (if matched then COMPARISON_MATCH else COMPARISON_MISMATCH) (Some expected) (Some actual) (Some e)"

section \<open>Numbers\<close>

text \<open>\<open>Decimal(str)\<close> on a string of the decimal pattern. The exact constructor raises \<open>InvalidOperation\<close>, here
  \<open>None\<close>, when the number does not fit the exponent range of the implementation.\<close>

type_synonym Decimal = "int \<times> int"

definition MAX_EMAX :: int where "MAX_EMAX = 999999999999999999"
definition MIN_ETINY :: int where "MIN_ETINY = -1999999999999999997"

definition Decimal_of_int :: "int \<Rightarrow> Decimal" where
  "Decimal_of_int n = (n, 0)"

definition exponent_value :: "decimal_reader \<Rightarrow> ustring \<Rightarrow> int" where
  "exponent_value decimal s = (case s of
       e # c # digits \<Rightarrow> if c = 45 then - int (Observer_Protocol.digits_value decimal digits)
         else if c = 43 then int (Observer_Protocol.digits_value decimal digits) else int (Observer_Protocol.digits_value decimal (c # digits))
     | _ \<Rightarrow> 0)"

definition decimal_parts :: "decimal_reader \<Rightarrow> ustring \<Rightarrow> Decimal" where
  "decimal_parts decimal s =
     (let negative = (s \<noteq> [] \<and> hd s = 45);
          unsigned = (if negative then tl s else s);
          whole = takeWhile (is_digit decimal) unsigned;
          rest = dropWhile (is_digit decimal) unsigned;
          fraction = (if rest \<noteq> [] \<and> hd rest = 46 then takeWhile (is_digit decimal) (tl rest) else []);
          suffix = (if rest \<noteq> [] \<and> hd rest = 46 then dropWhile (is_digit decimal) (tl rest) else rest);
          magnitude = int (Observer_Protocol.digits_value decimal (whole @ fraction))
      in (if negative then - magnitude else magnitude, exponent_value decimal suffix - int (length fraction)))"

definition representable :: "Decimal \<Rightarrow> bool" where
  "representable d = (case d of (c, e) \<Rightarrow> MIN_ETINY \<le> e \<and> e + int (length (nat_str (nat \<bar>c\<bar>))) - 1 \<le> MAX_EMAX)"

definition Decimal_new :: "decimal_reader \<Rightarrow> ustring \<Rightarrow> Decimal option" where
  "Decimal_new decimal s = (let d = decimal_parts decimal s in if representable d then Some d else None)"

text \<open>Comparison brings both numbers to the smaller exponent.\<close>

definition scaled :: "int \<Rightarrow> Decimal \<Rightarrow> int" where
  "scaled m d = (case d of (c, e) \<Rightarrow> c * 10 ^ nat (e - m))"

definition compare_numeric :: "Decimal \<Rightarrow> Decimal \<Rightarrow> Comparator \<Rightarrow> bool" where
  "compare_numeric left right comparator =
     (let m = min (snd left) (snd right); l = scaled m left; r = scaled m right in
      case comparator of EQ \<Rightarrow> l = r | NE \<Rightarrow> l \<noteq> r | LT \<Rightarrow> l < r | LTE \<Rightarrow> l \<le> r | GT \<Rightarrow> l > r | GTE \<Rightarrow> l \<ge> r)"

section \<open>Equality\<close>

function (sequential) json_exact_equal :: "frozen_json \<Rightarrow> frozen_json \<Rightarrow> bool" where
  "json_exact_equal (FBool a) (FBool b) = (a = b)"
| "json_exact_equal (FInt i) (FInt j) = (i = j)"
| "json_exact_equal (FrozenJsonObject ps) (FrozenJsonObject qs) =
     (set (map fst ps) = set (map fst qs) \<and>
      list_all (\<lambda>(k, v). case map_of qs k of Some w \<Rightarrow> json_exact_equal v w | None \<Rightarrow> False) ps)"
| "json_exact_equal (FTuple xs) (FTuple ys) =
     (length xs = length ys \<and> list_all (\<lambda>(x, y). json_exact_equal x y) (zip xs ys))"
| "json_exact_equal FNull FNull = True"
| "json_exact_equal (FString s) (FString t) = (s = t)"
| "json_exact_equal _ _ = False"
  by pat_completeness auto

termination
  by (relation "measure (\<lambda>(l, _). size l)")
    (auto simp: less_Suc_eq_le intro: size_list_estimation' dest: set_zip_leftD)

fun deep_exact_equal :: "evidence_value \<Rightarrow> evidence_value \<Rightarrow> bool" where
  "deep_exact_equal (DigestEvidence m) (DigestEvidence n) = (m = n)"
| "deep_exact_equal (JsonEvidence v) (JsonEvidence w) = json_exact_equal v w"
| "deep_exact_equal _ _ = False"

definition text_value :: "evidence_value \<Rightarrow> ustring" where
  "text_value v = (case v of JsonEvidence (FString s) \<Rightarrow> s | _ \<Rightarrow> [])"

definition int_value :: "evidence_value \<Rightarrow> int" where
  "int_value v = (case v of JsonEvidence (FInt i) \<Rightarrow> i | _ \<Rightarrow> 0)"

definition compare_facts :: "decimal_reader \<Rightarrow> StateAssertionFact \<Rightarrow> StateAssertionFact \<Rightarrow> Comparator \<Rightarrow> bool option" where
  "compare_facts decimal actual expected comparator =
     (if sf_value_type actual \<noteq> sf_value_type expected then
        (if comparator = EQ then Some False else if comparator = NE then Some True else None)
      else if sf_value_type actual = INTEGER then
        Some (compare_numeric (Decimal_of_int (int_value (sf_value actual))) (Decimal_of_int (int_value (sf_value expected))) comparator)
      else if sf_value_type actual = DECIMAL_STRING then
        (case (Decimal_new decimal (text_value (sf_value actual)), Decimal_new decimal (text_value (sf_value expected))) of
           (Some left, Some right) \<Rightarrow> Some (compare_numeric left right comparator)
         | _ \<Rightarrow> None)
      else if comparator \<notin> {EQ, NE} then None
      else let equal = deep_exact_equal (sf_value actual) (sf_value expected) in
        Some (if comparator = EQ then equal else \<not> equal))"

section \<open>JSON pointers\<close>

text \<open>\<open>str.split\<close> on code points.\<close>

fun split_text :: "nat \<Rightarrow> ustring \<Rightarrow> ustring list" where
  "split_text sep [] = [[]]"
| "split_text sep (c # cs) =
     (if c = sep then [] # split_text sep cs
      else case split_text sep cs of [] \<Rightarrow> [[c]] | piece # pieces \<Rightarrow> (c # piece) # pieces)"

text \<open>\<open>str.replace\<close> of two characters by one.\<close>

fun replace2 :: "nat \<Rightarrow> nat \<Rightarrow> nat \<Rightarrow> ustring \<Rightarrow> ustring" where
  "replace2 a b c (x # y # rest) = (if x = a \<and> y = b then c # replace2 a b c rest else x # replace2 a b c (y # rest))"
| "replace2 a b c rest = rest"

definition unescape :: "ustring \<Rightarrow> ustring" where
  "unescape raw_token = replace2 126 48 126 (replace2 126 49 47 raw_token)"

definition array_index_match :: "ustring \<Rightarrow> bool" where
  "array_index_match t = (t = [48] \<or> (t \<noteq> [] \<and> 49 \<le> hd t \<and> hd t \<le> 57 \<and> list_all (is_digit ascii_decimal) (tl t)))"

fun follow :: "frozen_json \<Rightarrow> ustring list \<Rightarrow> frozen_json option" where
  "follow current [] = Some current"
| "follow current (raw_token # raw_tokens) =
     (let token = unescape raw_token in
      case current of
        FrozenJsonObject ps \<Rightarrow> (case map_of ps token of None \<Rightarrow> None | Some v \<Rightarrow> follow v raw_tokens)
      | FTuple vs \<Rightarrow>
          (if \<not> array_index_match token then None
           else let index = Observer_Protocol.digits_value ascii_decimal token in
             if index \<ge> length vs then None else follow (vs ! index) raw_tokens)
      | _ \<Rightarrow> None)"

definition resolve_json_pointer :: "frozen_json \<Rightarrow> ustring \<Rightarrow> frozen_json option" where
  "resolve_json_pointer start pointer =
     (if pointer = [] then Some start else follow start (split_text 47 (tl pointer)))"

section \<open>Evaluation\<close>

definition validated_fact :: "decimal_reader \<Rightarrow> EvidenceValueType \<Rightarrow> json_value \<Rightarrow> bool \<Rightarrow> StateAssertionFact result" where
  "validated_fact decimal t v s =
     and_then (ObserverEvidence_validate decimal (text_of ''assertion_value'') t (RawJson v) s) (\<lambda>probe.
       StateAssertionFact_init (ev_value_type probe) (ev_value probe) s)"

definition expected_fact :: "decimal_reader \<Rightarrow> TypedValue \<Rightarrow> StateAssertionFact result" where
  "expected_fact decimal expected = (case typed_value_to_wire expected of (t, v) \<Rightarrow> validated_fact decimal t v False)"

fun infer_value_type :: "frozen_json \<Rightarrow> EvidenceValueType" where
  "infer_value_type FNull = EvidenceValueType.NULL"
| "infer_value_type (FBool _) = BOOLEAN"
| "infer_value_type (FInt _) = INTEGER"
| "infer_value_type (FString _) = STRING"
| "infer_value_type (FTuple _) = ARRAY"
| "infer_value_type (FrozenJsonObject _) = OBJECT"

definition actual_fact :: "decimal_reader \<Rightarrow> frozen_json \<Rightarrow> EvidenceValueType \<Rightarrow> bool \<Rightarrow> StateAssertionFact result" where
  "actual_fact decimal v expected_type s =
     (let inferred = infer_value_type v;
          otherwise = (\<lambda>t. validated_fact decimal t (thaw_json v) s);
          attempt = (case validated_fact decimal expected_type (thaw_json v) s of
              Inl e \<Rightarrow> if is_type_or_value_error e then otherwise inferred else Inl e
            | Inr f \<Rightarrow> Inr f)
      in if inferred = STRING \<and> expected_type = DECIMAL_STRING \<and> decimal_string_match ascii_decimal (text_value (JsonEvidence v))
         then otherwise DECIMAL_STRING
         else if inferred = STRING \<and> expected_type = TIMESTAMP then attempt
         else if inferred = OBJECT \<and> expected_type = BYTES_DIGEST then attempt
         else otherwise inferred)"

definition evaluate_count :: "StateAssertion \<Rightarrow> CountAssertion \<Rightarrow> ObserverEvidence \<Rightarrow> StateAssertionEvaluation result" where
  "evaluate_count assertion a e =
     and_then (StateAssertionFact_init INTEGER (JsonEvidence (FInt (ca_expected a))) False) (\<lambda>expected.
     case ev_value e of
       JsonEvidence (FInt v) \<Rightarrow>
         (if ev_value_type e \<noteq> INTEGER then
            state_evaluation assertion AssertionResult.ERROR EVIDENCE_TYPE_MISMATCH (Some expected) None (Some e)
          else and_then (StateAssertionFact_init INTEGER (JsonEvidence (FInt v)) (sensitive e)) (\<lambda>actual.
            comparison_evaluation assertion e expected actual
              (compare_numeric (Decimal_of_int v) (Decimal_of_int (ca_expected a)) (ca_comparator a))))
     | _ \<Rightarrow> state_evaluation assertion AssertionResult.ERROR EVIDENCE_TYPE_MISMATCH (Some expected) None (Some e))"

definition observed_existence :: "ObserverEvidence \<Rightarrow> bool option" where
  "observed_existence e = (case ev_value e of
       JsonEvidence (FBool b) \<Rightarrow> if ev_value_type e = BOOLEAN then Some b else None
     | JsonEvidence (FrozenJsonObject _) \<Rightarrow> if ev_value_type e = OBJECT then Some True else None
     | _ \<Rightarrow> None)"

definition evaluate_existence :: "StateAssertion \<Rightarrow> bool \<Rightarrow> ObserverEvidence \<Rightarrow> StateAssertionEvaluation result" where
  "evaluate_existence assertion expected_exists e =
     and_then (StateAssertionFact_init BOOLEAN (JsonEvidence (FBool expected_exists)) False) (\<lambda>expected.
     case observed_existence e of
       None \<Rightarrow> state_evaluation assertion AssertionResult.ERROR EVIDENCE_TYPE_MISMATCH (Some expected) None (Some e)
     | Some present \<Rightarrow>
         and_then (StateAssertionFact_init BOOLEAN (JsonEvidence (FBool present)) (sensitive e)) (\<lambda>actual.
           comparison_evaluation assertion e expected actual (present = expected_exists)))"

definition evaluate_resource_field :: "decimal_reader \<Rightarrow> StateAssertion \<Rightarrow> FieldAssertion \<Rightarrow> ObserverEvidence \<Rightarrow>
    StateAssertionEvaluation result" where
  "evaluate_resource_field decimal assertion a e =
     and_then (expected_fact decimal (fa_expected a)) (\<lambda>expected.
     let mismatch = state_evaluation assertion AssertionResult.ERROR EVIDENCE_TYPE_MISMATCH (Some expected) None (Some e) in
     case ev_value e of
       JsonEvidence (FrozenJsonObject ps) \<Rightarrow>
         (if ev_value_type e \<noteq> OBJECT then mismatch
          else case resolve_json_pointer (FrozenJsonObject ps) (fa_path a) of
              None \<Rightarrow> state_evaluation assertion
                (if fa_missing_pointer a = MissingPointer.FAIL then AssertionResult.FAIL else AssertionResult.ERROR)
                POINTER_MISSING (Some expected) None (Some e)
            | Some raw_actual \<Rightarrow>
                and_then (actual_fact decimal raw_actual (sf_value_type expected) (sensitive e)) (\<lambda>actual.
                case compare_facts decimal actual expected (fa_comparator a) of
                  None \<Rightarrow> state_evaluation assertion AssertionResult.ERROR COMPARATOR_UNSUPPORTED (Some expected) (Some actual) (Some e)
                | Some matched \<Rightarrow> comparison_evaluation assertion e expected actual matched))
     | _ \<Rightarrow> mismatch)"

fun evaluate_selected :: "decimal_reader \<Rightarrow> StateAssertion \<Rightarrow> ObserverEvidence \<Rightarrow> StateAssertionEvaluation result" where
  "evaluate_selected decimal (ProcessingCountAssertion a) e = evaluate_count (ProcessingCountAssertion a) a e"
| "evaluate_selected decimal (CallbackCountAssertion a) e = evaluate_count (CallbackCountAssertion a) a e"
| "evaluate_selected decimal (JournalCountAssertion a) e = evaluate_count (JournalCountAssertion a) a e"
| "evaluate_selected decimal (ResourceExistsAssertion a) e = evaluate_existence (ResourceExistsAssertion a) True e"
| "evaluate_selected decimal (ResourceAbsentAssertion a) e = evaluate_existence (ResourceAbsentAssertion a) False e"
| "evaluate_selected decimal (ResourceFieldAssertion a) e = evaluate_resource_field decimal (ResourceFieldAssertion a) a e"

definition evaluate_state_assertion :: "decimal_reader \<Rightarrow> StateAssertion \<Rightarrow> ObserverEvidence list \<Rightarrow>
    StateAssertionEvaluation result" where
  "evaluate_state_assertion decimal assertion evidence =
     (case filter (\<lambda>item. ev_key item = cq_key (state_query assertion)) evidence of
        [] \<Rightarrow> state_evaluation assertion AssertionResult.ERROR EVIDENCE_MISSING None None None
      | [observed] \<Rightarrow> evaluate_selected decimal assertion observed
      | _ \<Rightarrow> state_evaluation assertion AssertionResult.ERROR EVIDENCE_DUPLICATE None None None)"

section \<open>The meaning of values\<close>

datatype json_meaning =
    MNull | MBool bool | MInt int | MString ustring | MArray "json_meaning list" | MObject "ustring \<rightharpoonup> json_meaning"

fun meaning :: "frozen_json \<Rightarrow> json_meaning" where
  "meaning FNull = MNull"
| "meaning (FBool b) = MBool b"
| "meaning (FInt i) = MInt i"
| "meaning (FString s) = MString s"
| "meaning (FTuple vs) = MArray (map meaning vs)"
| "meaning (FrozenJsonObject ps) = MObject (map_of (map (\<lambda>(k, v). (k, meaning v)) ps))"

fun keys_distinct :: "frozen_json \<Rightarrow> bool" where
  "keys_distinct (FTuple vs) = list_all keys_distinct vs"
| "keys_distinct (FrozenJsonObject ps) = (distinct (map fst ps) \<and> list_all (\<lambda>(k, v). keys_distinct v) ps)"
| "keys_distinct _ = True"

lemma same_meaning:
  "dom m = dom n \<and> (\<forall>k v. m k = Some v \<longrightarrow> (case n k of Some w \<Rightarrow> f v = f w | None \<Rightarrow> False)) \<longleftrightarrow>
     (\<forall>k. map_option f (m k) = map_option f (n k))" (is "?l \<longleftrightarrow> ?r")
proof
  assume l: ?l
  show ?r
  proof
    fix k
    have none: "m k = None \<longleftrightarrow> n k = None" using l by (metis domIff)
    show "map_option f (m k) = map_option f (n k)"
    proof (cases "m k")
      case None
      then show ?thesis using none by simp
    next
      case (Some v)
      then obtain w where w: "n k = Some w" using none by (cases "n k") auto
      then have "f v = f w" using l[THEN conjunct2, rule_format, OF Some] by simp
      then show ?thesis using Some w by simp
    qed
  qed
next
  assume r: ?r
  then have "m k = None \<longleftrightarrow> n k = None" for k by (metis option.map_disc_iff)
  then have "dom m = dom n" by (auto simp: dom_def)
  moreover have "case n k of Some w \<Rightarrow> f v = f w | None \<Rightarrow> False" if "m k = Some v" for k v
  proof -
    have same: "map_option f (m k) = map_option f (n k)" using r by (rule spec)
    then show ?thesis using that by (cases "n k") simp_all
  qed
  ultimately show ?l by blast
qed

lemma json_exact_equal_meaning:
  "keys_distinct l \<Longrightarrow> keys_distinct r \<Longrightarrow> json_exact_equal l r \<longleftrightarrow> meaning l = meaning r"
proof (induction l r rule: json_exact_equal.induct)
  case (3 ps qs)
  have ps: "map_of ps k = Some v" if "(k, v) \<in> set ps" for k v using that "3.prems" by simp
  have step: "json_exact_equal v w \<longleftrightarrow> meaning v = meaning w" if "(k, v) \<in> set ps" "map_of qs k = Some w" for k v w
    using "3.IH"[OF that(1) refl that(2)] "3.prems" that map_of_SomeD[OF that(2)] by (auto simp: list_all_iff)
  have member: "(k, v) \<in> set ps \<longleftrightarrow> map_of ps k = Some v" for k v using ps map_of_SomeD by metis
  have "json_exact_equal (FrozenJsonObject ps) (FrozenJsonObject qs) \<longleftrightarrow> dom (map_of ps) = dom (map_of qs) \<and>
      (\<forall>k v. map_of ps k = Some v \<longrightarrow> (case map_of qs k of Some w \<Rightarrow> json_exact_equal v w | None \<Rightarrow> False))"
    by (simp add: list_all_iff dom_map_of_conv_image_fst Ball_def member[symmetric])
  also have "\<dots> \<longleftrightarrow> dom (map_of ps) = dom (map_of qs) \<and>
      (\<forall>k v. map_of ps k = Some v \<longrightarrow> (case map_of qs k of Some w \<Rightarrow> meaning v = meaning w | None \<Rightarrow> False))"
    using step by (simp add: member cong: option.case_cong)
  also have "\<dots> \<longleftrightarrow> (\<forall>k. map_option meaning (map_of ps k) = map_option meaning (map_of qs k))"
    by (rule same_meaning)
  finally show ?case by (simp add: map_of_map fun_eq_iff)
next
  case (4 xs ys)
  have step: "json_exact_equal x y \<longleftrightarrow> meaning x = meaning y" if "(x, y) \<in> set (zip xs ys)" for x y
    using "4.IH"[OF that refl] "4.prems" that by (auto simp: list_all_iff dest: set_zip_leftD set_zip_rightD)
  show ?case using step by (auto simp: list_all_iff list_eq_iff_nth_eq in_set_conv_nth split: prod.splits) force+
qed auto

section \<open>Numbers as rationals\<close>

definition number :: "Decimal \<Rightarrow> rat" where
  "number d = of_int (fst d) * 10 powi snd d"

fun related :: "Comparator \<Rightarrow> rat \<Rightarrow> rat \<Rightarrow> bool" where
  "related EQ x y \<longleftrightarrow> x = y"
| "related NE x y \<longleftrightarrow> x \<noteq> y"
| "related LT x y \<longleftrightarrow> x < y"
| "related LTE x y \<longleftrightarrow> x \<le> y"
| "related GT x y \<longleftrightarrow> x > y"
| "related GTE x y \<longleftrightarrow> x \<ge> y"

lemma number_scaled:
  assumes "m \<le> snd d"
  shows "number d = of_int (scaled m d) * 10 powi m"
proof -
  have "(10::rat) ^ nat (snd d - m) * 10 powi m = 10 powi snd d"
    using assms by (simp add: power_int_add[symmetric] power_int_def[of _ "snd d - m", symmetric] flip: power_int_of_nat)
  then show ?thesis by (simp add: number_def scaled_def case_prod_unfold mult.assoc)
qed

lemma compare_numeric_exact: "compare_numeric left right comparator \<longleftrightarrow> related comparator (number left) (number right)"
proof -
  let ?m = "min (snd left) (snd right)"
  have "number left = of_int (scaled ?m left) * 10 powi ?m" "number right = of_int (scaled ?m right) * 10 powi ?m"
    by (simp_all add: number_scaled)
  moreover have "(0::rat) < 10 powi ?m" by simp
  ultimately show ?thesis by (cases comparator) (simp_all add: compare_numeric_def Let_def)
qed

section \<open>Pointers as paths\<close>

text \<open>RFC 6901: a pointer is the sequence of its reference tokens, each escaped and preceded by a slash. A path names a
  member of an object or an element of an array at each step; the token of an element is its decimal index.\<close>

definition escape :: "ustring \<Rightarrow> ustring" where
  "escape t = concat (map (\<lambda>c. if c = 126 then [126, 48] else if c = 47 then [126, 49] else [c]) t)"

definition pointer_of :: "ustring list \<Rightarrow> ustring" where
  "pointer_of tokens = concat (map (\<lambda>t. 47 # escape t) tokens)"

datatype path_step = Member ustring | Element nat

fun token_of :: "path_step \<Rightarrow> ustring" where
  "token_of (Member k) = k"
| "token_of (Element i) = text_of (nat_str i)"

inductive reaches :: "frozen_json \<Rightarrow> path_step list \<Rightarrow> frozen_json \<Rightarrow> bool" where
  here: "reaches v [] v"
| member: "map_of ps k = Some v \<Longrightarrow> reaches v path w \<Longrightarrow> reaches (FrozenJsonObject ps) (Member k # path) w"
| element: "i < length vs \<Longrightarrow> reaches (vs ! i) path w \<Longrightarrow> reaches (FTuple vs) (Element i # path) w"

inductive_simps reaches_simps: "reaches v [] w" "reaches v (Member k # path) w" "reaches v (Element i # path) w"

lemma replace2_other: "x \<noteq> a \<Longrightarrow> replace2 a b c (x # s) = x # replace2 a b c s"
  by (cases s) simp_all

lemma unescape_escape: "unescape (escape t) = t"
proof -
  have "replace2 126 49 47 (escape t) = concat (map (\<lambda>c. if c = 126 then [126, 48] else [c]) t)"
    by (induction t) (simp_all add: escape_def replace2_other)
  moreover have "replace2 126 48 126 (concat (map (\<lambda>c. if c = 126 then [126, 48] else [c]) t)) = t"
    by (induction t) (simp_all add: replace2_other)
  ultimately show ?thesis by (simp add: unescape_def)
qed

lemma escape_no_slash: "47 \<notin> set (escape t)"
  by (auto simp: escape_def split: if_splits)

lemma split_text_no_sep: "sep \<notin> set x \<Longrightarrow> split_text sep x = [x]"
  by (induction x) auto

lemma split_text_append: "sep \<notin> set x \<Longrightarrow> split_text sep (x @ sep # rest) = x # split_text sep rest"
  by (induction x) auto

lemma split_pointer: "split_text 47 (escape t @ pointer_of ts) = map escape (t # ts)"
proof (induction ts arbitrary: t)
  case Nil
  then show ?case by (simp add: pointer_of_def split_text_no_sep escape_no_slash)
next
  case (Cons u ts)
  have "pointer_of (u # ts) = 47 # escape u @ pointer_of ts" by (simp add: pointer_of_def)
  then show ?case using Cons[of u] by (simp add: split_text_append escape_no_slash)
qed

lemma resolve_pointer_of: "resolve_json_pointer start (pointer_of ts) = follow start (map escape ts)"
proof (cases ts)
  case (Cons t us)
  then have "pointer_of ts = 47 # escape t @ pointer_of us" by (simp add: pointer_of_def)
  then show ?thesis by (simp add: resolve_json_pointer_def split_pointer Cons)
qed (simp add: resolve_json_pointer_def pointer_of_def)

lemma ascii_value_snoc: "Observer_Protocol.digits_value decimal (s @ [c]) = Observer_Protocol.digits_value decimal s * 10 + the (decimal c)"
  by (simp add: Observer_Protocol.digits_value_def)

lemma digit_code: "d < 10 \<Longrightarrow> text_of [digit_char d] = [48 + d]"
proof -
  assume d: "d < 10"
  have "list_all (\<lambda>d. text_of [digit_char d] = [48 + d]) [0..<10]" by code_simp
  from below_all[OF this d] show ?thesis .
qed

lemma nat_text: "text_of (nat_str n) = (if n < 10 then [48 + n] else text_of (nat_str (n div 10)) @ [48 + n mod 10])"
  by (subst nat_str.simps) (simp add: digit_code[of n] digit_code[of "n mod 10"] text_of_def digit_code[unfolded text_of_def, simplified])

lemma array_index_nat: "array_index_match (text_of (nat_str n)) \<and> Observer_Protocol.digits_value ascii_decimal (text_of (nat_str n)) = n \<and>
    (0 < n \<longrightarrow> hd (text_of (nat_str n)) \<noteq> 48) \<and> text_of (nat_str n) \<noteq> []"
proof (induction n rule: nat_str.induct)
  case (1 n)
  show ?case
  proof (cases "n < 10")
    case True
    then show ?thesis
      by (subst (1 2 3 4) nat_text) (auto simp: array_index_match_def Observer_Protocol.digits_value_def ascii_decimal_def)
  next
    case False
    let ?t = "text_of (nat_str (n div 10))"
    have IH: "array_index_match ?t" "Observer_Protocol.digits_value ascii_decimal ?t = n div 10" "hd ?t \<noteq> 48" "?t \<noteq> []"
      using 1[OF False] False by auto
    have "array_index_match (?t @ [48 + n mod 10])"
      using IH(1,3,4) by (auto simp: array_index_match_def is_digit_def ascii_decimal_def)
    moreover have "Observer_Protocol.digits_value ascii_decimal (?t @ [48 + n mod 10]) = n"
    proof -
      have "n mod 10 \<le> 9" using pos_mod_bound[of 10 "int n"] by presburger
      then show ?thesis by (simp add: ascii_value_snoc IH(2) ascii_decimal_def)
    qed
    ultimately show ?thesis using IH(3,4) False by (subst (1 2 3 4) nat_text) simp
  qed
qed

lemma index_text: "array_index_match t \<Longrightarrow> text_of (nat_str (Observer_Protocol.digits_value ascii_decimal t)) = t"
proof (induction t rule: rev_induct)
  case (snoc c t)
  have c: "48 \<le> c" "c \<le> 57"
    using snoc.prems by (cases t; auto simp: array_index_match_def is_digit_def ascii_decimal_def split: if_splits)+
  show ?case
  proof (cases t)
    case Nil
    with c show ?thesis by (subst nat_text) (auto simp: Observer_Protocol.digits_value_def ascii_decimal_def)
  next
    case Cons
    then have t: "array_index_match t" "49 \<le> hd t"
      using snoc.prems by (auto simp: array_index_match_def)
    let ?v = "Observer_Protocol.digits_value ascii_decimal t"
    have "?v \<noteq> 0"
    proof
      assume "?v = 0"
      then have "t = [48]" using snoc.IH[OF t(1)] nat_text[of 0] by simp
      with t(2) show False by simp
    qed
    obtain d where d: "c = 48 + d" "d < 10" using c that[of "c - 48"] by simp
    have total: "Observer_Protocol.digits_value ascii_decimal (t @ [c]) = ?v * 10 + d"
      using d by (simp add: ascii_value_snoc ascii_decimal_def)
    show ?thesis unfolding total using d \<open>?v \<noteq> 0\<close> snoc.IH[OF t(1)] by (subst nat_text) simp
  qed
qed (simp add: array_index_match_def)

lemma follow_exact:
  "follow start (map escape ts) = Some w \<longleftrightarrow> (\<exists>path. map token_of path = ts \<and> reaches start path w)"
proof (induction ts arbitrary: start)
  case Nil
  then show ?case by (auto simp: reaches_simps)
next
  case (Cons t ts)
  have split: "(\<exists>path. map token_of path = t # ts \<and> reaches start path w) \<longleftrightarrow>
      (\<exists>s path. token_of s = t \<and> map token_of path = ts \<and> reaches start (s # path) w)"
    by (auto simp: map_eq_Cons_conv)
  show ?case
  proof (cases start)
    case (FTuple vs)
    have element: "token_of s = t \<and> reaches start (s # path) w \<longleftrightarrow>
        (\<exists>i. s = Element i \<and> text_of (nat_str i) = t \<and> i < length vs \<and> reaches (vs ! i) path w)" for s path
      by (cases s) (auto simp: FTuple reaches_simps)
    have "text_of (nat_str i) = t \<longleftrightarrow> array_index_match t \<and> i = Observer_Protocol.digits_value ascii_decimal t" for i
      using array_index_nat index_text by metis
    then show ?thesis unfolding split
      using element Cons.IH by (auto simp: FTuple unescape_escape Let_def not_le) metis+
  next
    case (FrozenJsonObject ps)
    have member: "token_of s = t \<and> reaches start (s # path) w \<longleftrightarrow>
        s = Member t \<and> (\<exists>v. map_of ps t = Some v \<and> reaches v path w)" for s path
      by (cases s) (auto simp: FrozenJsonObject reaches_simps)
    show ?thesis unfolding split
      using member Cons.IH by (auto simp: FrozenJsonObject unescape_escape split: option.splits) metis+
  next
  qed (auto simp: split reaches_simps elim: reaches.cases)
qed

text \<open>C40. JSON pointers are resolved exactly. A pointer, written with the escapes of RFC 6901, finds a value in a
  receiver's object precisely when its reference tokens spell a path of members and array elements to that value:
  tokens with slashes and tildes are found, and an index has no sign and no leading zero.\<close>

theorem json_pointer_exact:
  "resolve_json_pointer start (pointer_of tokens) = Some v \<longleftrightarrow> (\<exists>path. map token_of path = tokens \<and> reaches start path v)"
  unfolding resolve_pointer_of by (rule follow_exact)

section \<open>What evidence says\<close>

definition same_value :: "evidence_value \<Rightarrow> evidence_value \<Rightarrow> bool" where
  "same_value v w = (case (v, w) of
       (DigestEvidence m, DigestEvidence n) \<Rightarrow> m = n
     | (JsonEvidence a, JsonEvidence b) \<Rightarrow> meaning a = meaning b
     | _ \<Rightarrow> False)"

definition fact_relation :: "decimal_reader \<Rightarrow> EvidenceValueType \<times> evidence_value \<Rightarrow> EvidenceValueType \<times> evidence_value \<Rightarrow>
    Comparator \<Rightarrow> bool option" where
  "fact_relation decimal actual expected comparator =
     (if fst actual = fst expected \<and> fst actual = INTEGER then
        Some (related comparator (of_int (int_value (snd actual))) (of_int (int_value (snd expected))))
      else if fst actual = fst expected \<and> fst actual = DECIMAL_STRING then
        (let left = decimal_parts decimal (text_value (snd actual)); right = decimal_parts decimal (text_value (snd expected)) in
         if representable left \<and> representable right then Some (related comparator (number left) (number right)) else None)
      else if comparator \<in> {EQ, NE} then
        Some ((comparator = EQ) = (fst actual = fst expected \<and> same_value (snd actual) (snd expected)))
      else None)"

definition value_distinct :: "evidence_value \<Rightarrow> bool" where
  "value_distinct v = (case v of JsonEvidence f \<Rightarrow> keys_distinct f | DigestEvidence _ \<Rightarrow> True)"

lemma deep_exact_equal_same:
  "value_distinct v \<Longrightarrow> value_distinct w \<Longrightarrow> deep_exact_equal v w \<longleftrightarrow> same_value v w"
  by (cases v; cases w) (simp_all add: same_value_def value_distinct_def json_exact_equal_meaning)

lemma compare_facts_exact:
  assumes "value_distinct (sf_value actual)" "value_distinct (sf_value expected)"
  shows "compare_facts decimal actual expected comparator =
    fact_relation decimal (sf_value_type actual, sf_value actual) (sf_value_type expected, sf_value expected) comparator"
proof -
  have int: "number (Decimal_of_int i) = of_int i" for i by (simp add: number_def Decimal_of_int_def)
  show ?thesis
    using deep_exact_equal_same[OF assms]
    by (cases comparator) (auto simp: compare_facts_def fact_relation_def compare_numeric_exact int Decimal_new_def Let_def)
qed

text \<open>How a value of the receiver's object is read against the expected type; \<open>None\<close> is a decimal string that is
  longer than a decimal evidence value may be.\<close>

definition reading :: "decimal_reader \<Rightarrow> frozen_json \<Rightarrow> EvidenceValueType \<Rightarrow> (EvidenceValueType \<times> evidence_value) option" where
  "reading decimal v t = (case v of
       FString s \<Rightarrow>
         (if t = DECIMAL_STRING \<and> decimal_string_match ascii_decimal s then
            (if length s \<le> MAX_DECIMAL_STRING_LENGTH then Some (DECIMAL_STRING, JsonEvidence v) else None)
          else if t = TIMESTAMP \<and> returns (validate_utc_timestamp decimal s) then Some (TIMESTAMP, JsonEvidence v)
          else Some (STRING, JsonEvidence v))
     | FrozenJsonObject ps \<Rightarrow>
         (case (t, digest_of_json (thaw_json v)) of
            (BYTES_DIGEST, Inr m) \<Rightarrow> Some (BYTES_DIGEST, DigestEvidence m)
          | _ \<Rightarrow> Some (OBJECT, JsonEvidence v))
     | _ \<Rightarrow> Some (infer_value_type v, JsonEvidence v))"

definition within_limits :: "frozen_json \<Rightarrow> bool" where
  "within_limits f = (freeze_json (thaw_json f) = Inr f)"

lemma within_limits_iff:
  "within_limits f \<longleftrightarrow> json_nodes (thaw_json f) \<le> MAX_JSON_NODES \<and> json_depth (thaw_json f) \<le> MAX_JSON_DEPTH \<and>
     json_bounded (thaw_json f)"
  by (simp add: within_limits_def freeze_json_eq_Inr)

lemma within_element: "within_limits (FTuple vs) \<Longrightarrow> v \<in> set vs \<Longrightarrow> within_limits v"
proof -
  assume within: "within_limits (FTuple vs)" and v: "v \<in> set vs"
  have "json_nodes (thaw_json v) \<le> sum_list (map (json_nodes \<circ> thaw_json) vs)"
    using v by (intro member_le_sum_list) auto
  moreover have "json_depth (thaw_json v) < MAX_JSON_DEPTH"
  proof -
    have "json_depth (thaw_json v) \<le> Max (insert 0 ((\<lambda>x. json_depth (thaw_json x)) ` set vs))" using v by (intro Max_ge) auto
    also have "\<dots> < MAX_JSON_DEPTH" using within by (simp add: within_limits_iff image_image Suc_le_eq)
    finally show ?thesis .
  qed
  ultimately show ?thesis using within v by (auto simp: within_limits_iff list_all_iff)
qed

lemma within_member: "within_limits (FrozenJsonObject ps) \<Longrightarrow> map_of ps k = Some v \<Longrightarrow> within_limits v"
proof -
  assume within: "within_limits (FrozenJsonObject ps)" and "map_of ps k = Some v"
  then have v: "(k, v) \<in> set ps" by (simp add: map_of_SomeD)
  let ?qs = "map (\<lambda>(k, f). (k, thaw_json f)) ps"
  have q: "(k, thaw_json v) \<in> set ?qs" using v by force
  have "json_nodes (thaw_json v) \<le> sum_list (map (\<lambda>(_, v). json_nodes v) ?qs)"
    using q by (intro member_le_sum_list) force+
  moreover have "json_depth (thaw_json v) < MAX_JSON_DEPTH"
  proof -
    have "json_depth (thaw_json v) \<le> Max (insert 0 (set (map (\<lambda>(_, v). json_depth v) ?qs)))" using q by (intro Max_ge) force+
    also have "\<dots> < MAX_JSON_DEPTH" using within by (simp add: within_limits_iff Suc_le_eq del: map_map)
    finally show ?thesis .
  qed
  moreover have "json_bounded (thaw_json v)" using within q by (fastforce simp: within_limits_iff list_all_iff)
  ultimately show ?thesis using within by (simp add: within_limits_iff del: map_map)
qed

lemma within_follow: "follow v ts = Some w \<Longrightarrow> within_limits v \<Longrightarrow> within_limits w"
proof (induction ts arbitrary: v)
  case (Cons t ts)
  then show ?case
    by (cases v) (auto simp: Let_def not_le intro: within_element[OF _ nth_mem] within_member split: option.splits if_splits)
qed simp

lemma within_resolve: "resolve_json_pointer v p = Some w \<Longrightarrow> within_limits v \<Longrightarrow> within_limits w"
  by (auto simp: resolve_json_pointer_def intro: within_follow split: if_splits)

lemma within_distinct: "within_limits f \<Longrightarrow> keys_distinct f"
proof -
  have "json_bounded (thaw_json f) \<Longrightarrow> keys_distinct f"
  proof (induction f)
    case (FrozenJsonObject ps)
    have keys: "fst \<circ> (\<lambda>(k, f). (k, thaw_json f)) = fst" by auto
    have "keys_distinct v" if "(k, v) \<in> set ps" for k v
      using FrozenJsonObject.IH[OF that, of v] FrozenJsonObject.prems that by (force simp: list_all_iff)
    then show ?case using FrozenJsonObject.prems by (auto simp: list_all_iff keys)
  qed (auto simp: list_all_iff)
  then show "within_limits f \<Longrightarrow> keys_distinct f" by (simp add: within_limits_iff)
qed

section \<open>Facts of accepted values\<close>

text \<open>Unicode's decimal digits among the ASCII characters are the ten ASCII digits.\<close>

definition reads_ascii :: "decimal_reader \<Rightarrow> bool" where
  "reads_ascii decimal = (\<forall>c < 128. decimal c = ascii_decimal c)"

lemma ascii_digit_below: "is_digit ascii_decimal c \<Longrightarrow> c < 128"
  by (simp add: is_digit_def ascii_decimal_def split: if_splits)

lemma exponent_ascii: "exponent_match ascii_decimal s \<Longrightarrow> \<forall>c \<in> set s. c < 128"
  by (auto simp: exponent_match_def is_digits_def list_all_iff dest: ascii_digit_below split: list.splits if_splits)

lemma digits_ascii: "c \<in> set (takeWhile (is_digit ascii_decimal) s) \<Longrightarrow> c < 128"
  by (auto simp: is_digit_def ascii_decimal_def dest!: set_takeWhileD split: if_splits)

lemma fraction_ascii: "fraction_match ascii_decimal s \<Longrightarrow> \<forall>c \<in> set s. c < 128"
proof (cases s)
  case (Cons c rest)
  assume "fraction_match ascii_decimal s"
  then show ?thesis
    using exponent_ascii[of s] exponent_ascii[of "dropWhile (is_digit ascii_decimal) rest"] digits_ascii[of _ rest]
    by (auto simp: Cons fraction_match_def split: if_splits) (metis Un_iff set_append takeWhile_dropWhile_id)
qed simp

lemma decimal_ascii: "decimal_string_match ascii_decimal s \<Longrightarrow> \<forall>c \<in> set s. c < 128"
proof -
  assume match: "decimal_string_match ascii_decimal s"
  have unsigned: "\<forall>c \<in> set t. c < 128"
    if "case t of [] \<Rightarrow> False | c # rest \<Rightarrow> if c = 48 then fraction_match ascii_decimal rest
       else 49 \<le> c \<and> c \<le> 57 \<and> fraction_match ascii_decimal (dropWhile (is_digit ascii_decimal) rest)" for t
  proof (cases t)
    case (Cons c rest)
    with that show ?thesis
      using fraction_ascii[of rest] fraction_ascii[of "dropWhile (is_digit ascii_decimal) rest"] digits_ascii[of _ rest]
      by (auto split: if_splits) (metis Un_iff set_append takeWhile_dropWhile_id)
  qed (use that in simp)
  show ?thesis
    using unsigned[of "case s of c # rest \<Rightarrow> if c = 45 then rest else s | [] \<Rightarrow> []"] match
    by (cases s) (auto simp: decimal_string_match_def Let_def split: if_splits)
qed

lemma decimal_match_cong:
  assumes "\<forall>c \<in> set s. decimal c = reader c"
  shows "decimal_string_match decimal s = decimal_string_match reader s"
proof -
  have same: "takeWhile (is_digit decimal) t = takeWhile (is_digit reader) t" "dropWhile (is_digit decimal) t = dropWhile (is_digit reader) t"
    if "\<forall>c \<in> set t. decimal c = reader c" for t
    using that by (auto intro!: takeWhile_cong dropWhile_cong simp: is_digit_def)
  have exponent: "exponent_match decimal t = exponent_match reader t" if "\<forall>c \<in> set t. decimal c = reader c" for t
  proof -
    have digits: "is_digits decimal u = is_digits reader u" if "\<forall>c \<in> set u. decimal c = reader c" for u
      using that by (auto simp: is_digits_def is_digit_def list_all_iff)
    show ?thesis using that digits by (simp add: exponent_match_def split: list.split)
  qed
  have dropped: "\<forall>c \<in> set (dropWhile P t). decimal c = reader c" if "\<forall>c \<in> set t. decimal c = reader c" for P t
    using that by (auto dest: set_dropWhileD)
  have fraction: "fraction_match decimal t = fraction_match reader t" if "\<forall>c \<in> set t. decimal c = reader c" for t
  proof (cases t)
    case (Cons c rest)
    with that show ?thesis using exponent[OF that] exponent[OF dropped, of rest "is_digit reader"] same[of rest]
      by (simp add: fraction_match_def)
  qed (simp add: fraction_match_def)
  have rest: "fraction_match decimal (dropWhile (is_digit decimal) t) = fraction_match reader (dropWhile (is_digit reader) t)"
    if "\<forall>c \<in> set t. decimal c = reader c" for t
    using fraction[OF dropped[OF that]] same(2)[OF that] by simp
  show ?thesis
    using assms fraction rest by (simp add: decimal_string_match_def Let_def split: list.split)
qed

lemma ascii_match:
  assumes "reads_ascii decimal" "decimal_string_match ascii_decimal s"
  shows "decimal_string_match decimal s"
  using decimal_match_cong[of s decimal ascii_decimal] decimal_ascii[OF assms(2)] assms by (simp add: reads_ascii_def)

lemma probe_key: "validate_bounded_text (text_of ''assertion_value'') ''evidence key'' MAX_JSON_OBJECT_KEY_LENGTH False =
    Inr (text_of ''assertion_value'')"
  by (simp add: validate_bounded_text_eq_Inr safe_text_def text_of_def scalar_value_def MAX_JSON_OBJECT_KEY_LENGTH_def)

lemma shape_of_match: "matches_evidence_type decimal t v \<Longrightarrow> require_fact_shape t v = Inr ()"
  by (cases t) (auto simp: require_fact_shape_def split: evidence_value.splits frozen_json.splits)

lemma validated_json:
  assumes "within_limits f" "t \<noteq> BYTES_DIGEST"
  shows "validated_fact decimal t (thaw_json f) s =
    (if matches_evidence_type decimal t (JsonEvidence f) then Inr \<lparr>sf_value_type = t, sf_value = JsonEvidence f, sf_sensitive = s\<rparr>
     else Inl (ValidationError ''ObserverEvidence''))"
  using assms
  by (simp add: validated_fact_def ObserverEvidence_validate_def freeze_and_classify_value_def within_limits_def probe_key
      StateAssertionFact_init_def shape_of_match)

lemma validated_digest:
  "digest_of_json v = Inr m \<Longrightarrow> validated_fact decimal BYTES_DIGEST v s =
     Inr \<lparr>sf_value_type = BYTES_DIGEST, sf_value = DigestEvidence m, sf_sensitive = s\<rparr>"
  "digest_of_json v = Inl e \<Longrightarrow> \<exists>e'. validated_fact decimal BYTES_DIGEST v s = Inl e' \<and> is_type_or_value_error e'"
  by (simp_all add: validated_fact_def ObserverEvidence_validate_def freeze_and_classify_value_def probe_key
      StateAssertionFact_init_def shape_of_match) (cases e; simp)

lemma actual_fact_exact:
  assumes "within_limits v" "reads_ascii decimal"
  shows "actual_fact decimal v t s = (case reading decimal v t of
      None \<Rightarrow> Inl (ValidationError ''ObserverEvidence'')
    | Some (t', w) \<Rightarrow> Inr \<lparr>sf_value_type = t', sf_value = w, sf_sensitive = s\<rparr>)"
proof -
  note fact = validated_json[OF assms(1)]
  have inferred: "validated_fact decimal (infer_value_type v) (thaw_json v) s =
      Inr \<lparr>sf_value_type = infer_value_type v, sf_value = JsonEvidence v, sf_sensitive = s\<rparr>"
  proof -
    have "infer_value_type v \<noteq> BYTES_DIGEST" by (cases v) simp_all
    moreover have "matches_evidence_type decimal (infer_value_type v) (JsonEvidence v)"
      using assms(1) by (cases v) (simp_all add: within_limits_iff)
    ultimately show ?thesis by (simp add: fact)
  qed
  show ?thesis
  proof (cases v)
    case (FString x)
    then show ?thesis using inferred ascii_match[OF assms(2), of x] fact[of DECIMAL_STRING] fact[of TIMESTAMP]
      by (auto simp: actual_fact_def reading_def text_value_def Let_def)
  next
    case (FrozenJsonObject ps)
    show ?thesis
    proof (cases "t = BYTES_DIGEST")
      case True
      show ?thesis
      proof (cases "digest_of_json (thaw_json v)")
        case (Inl e)
        then obtain e' where "validated_fact decimal BYTES_DIGEST (thaw_json v) s = Inl e'" "is_type_or_value_error e'"
          using validated_digest(2) by blast
        then show ?thesis using inferred Inl True FrozenJsonObject by (simp add: actual_fact_def reading_def)
      next
        case (Inr m)
        then show ?thesis using validated_digest(1)[OF Inr, of decimal s] True FrozenJsonObject
          by (simp add: actual_fact_def reading_def)
      qed
    next
      case False
      then show ?thesis using inferred FrozenJsonObject
        by (cases t) (auto simp: actual_fact_def reading_def Let_def split: sum.splits)
    qed
  qed (use inferred in \<open>simp_all add: actual_fact_def reading_def Let_def\<close>)
qed

section \<open>The judgement\<close>

definition evidence_accepted :: "decimal_reader \<Rightarrow> ObserverEvidence \<Rightarrow> bool" where
  "evidence_accepted decimal e =
     (\<exists>raw. ObserverEvidence_validate decimal (ev_key e) (ev_value_type e) (RawJson raw) (sensitive e) = Inr e)"

definition verdict_of :: "bool option \<Rightarrow> AssertionResult" where
  "verdict_of judged = (case judged of
     Some True \<Rightarrow> AssertionResult.PASS | Some False \<Rightarrow> AssertionResult.FAIL | None \<Rightarrow> AssertionResult.ERROR)"

definition count_judgement :: "CountAssertion \<Rightarrow> ObserverEvidence \<Rightarrow> AssertionResult" where
  "count_judgement a e = verdict_of (case ev_value e of
     JsonEvidence (FInt v) \<Rightarrow> Some (related (ca_comparator a) (of_int v) (of_int (ca_expected a))) | _ \<Rightarrow> None)"

definition existence_judgement :: "bool \<Rightarrow> ObserverEvidence \<Rightarrow> AssertionResult" where
  "existence_judgement wanted e = verdict_of (case ev_value e of
     JsonEvidence (FBool b) \<Rightarrow> Some (b = wanted) | JsonEvidence (FrozenJsonObject _) \<Rightarrow> Some wanted | _ \<Rightarrow> None)"

definition field_judgement :: "decimal_reader \<Rightarrow> FieldAssertion \<Rightarrow> StateAssertionFact \<Rightarrow> ObserverEvidence \<Rightarrow> AssertionResult option" where
  "field_judgement decimal a expected e = (case ev_value e of
     JsonEvidence (FrozenJsonObject ps) \<Rightarrow>
       (case resolve_json_pointer (FrozenJsonObject ps) (fa_path a) of
          None \<Rightarrow> Some (verdict_of (if fa_missing_pointer a = MissingPointer.FAIL then Some False else None))
        | Some v \<Rightarrow> map_option (\<lambda>actual. verdict_of (fact_relation decimal actual
            (sf_value_type expected, sf_value expected) (fa_comparator a))) (reading decimal v (sf_value_type expected)))
   | _ \<Rightarrow> Some AssertionResult.ERROR)"

fun state_judgement :: "decimal_reader \<Rightarrow> StateAssertion \<Rightarrow> ObserverEvidence \<Rightarrow> AssertionResult option" where
  "state_judgement decimal (ProcessingCountAssertion a) e = Some (count_judgement a e)"
| "state_judgement decimal (CallbackCountAssertion a) e = Some (count_judgement a e)"
| "state_judgement decimal (JournalCountAssertion a) e = Some (count_judgement a e)"
| "state_judgement decimal (ResourceExistsAssertion a) e = Some (existence_judgement True e)"
| "state_judgement decimal (ResourceAbsentAssertion a) e = Some (existence_judgement False e)"
| "state_judgement decimal (ResourceFieldAssertion a) e = (case expected_fact decimal (fa_expected a) of
     Inr expected \<Rightarrow> field_judgement decimal a expected e | Inl _ \<Rightarrow> None)"

definition reports :: "'a result \<Rightarrow> ('a \<Rightarrow> AssertionResult) \<Rightarrow> AssertionResult \<Rightarrow> bool" where
  "reports m result r = (\<exists>ev. m = Inr ev \<and> result ev = r)"

lemma accepted_facts:
  assumes "evidence_accepted decimal e"
  shows "matches_evidence_type decimal (ev_value_type e) (ev_value e)" "ev_value e = JsonEvidence f \<Longrightarrow> within_limits f"
proof -
  obtain raw where raw: "ObserverEvidence_validate decimal (ev_key e) (ev_value_type e) (RawJson raw) (sensitive e) = Inr e"
    using assms by (auto simp: evidence_accepted_def)
  then have frozen: "freeze_and_classify_value (ev_value_type e) (RawJson raw) = Inr (ev_value e)"
    and matches: "matches_evidence_type decimal (ev_value_type e) (ev_value e)"
    by (auto simp: ObserverEvidence_validate_def and_then_eq_Inr) (metis ObserverEvidence.select_convs(3))+
  from matches show "matches_evidence_type decimal (ev_value_type e) (ev_value e)" .
  show "within_limits f" if f: "ev_value e = JsonEvidence f"
  proof -
    have "ev_value_type e \<noteq> BYTES_DIGEST" using matches f by auto
    then have "freeze_json raw = Inr f" using frozen f
      by (cases "freeze_json raw") (auto simp: freeze_and_classify_value_def split: exn.splits)
    then show ?thesis by (simp add: within_limits_def freeze_json_eq_Inr)
  qed
qed

lemma accepted_type:
  assumes "evidence_accepted decimal e"
  shows "ev_value e = JsonEvidence (FInt v) \<Longrightarrow> ev_value_type e = INTEGER"
    "ev_value e = JsonEvidence (FBool b) \<Longrightarrow> ev_value_type e = BOOLEAN"
    "ev_value e = JsonEvidence (FrozenJsonObject ps) \<Longrightarrow> ev_value_type e = OBJECT"
  using accepted_facts(1)[OF assms] by (cases "ev_value_type e"; simp)+

lemma validated_distinct:
  assumes "validated_fact decimal t v s = Inr f"
  shows "value_distinct (sf_value f)"
proof -
  obtain e where e: "ObserverEvidence_validate decimal (text_of ''assertion_value'') t (RawJson v) s = Inr e"
    and f: "sf_value f = ev_value e"
    using assms by (auto simp: validated_fact_def and_then_eq_Inr StateAssertionFact_init_def)
  have "evidence_accepted decimal e"
    using e unfolding evidence_accepted_def
    by (intro exI[of _ v]) (auto simp: ObserverEvidence_validate_def and_then_eq_Inr validate_bounded_text_eq_Inr)
  then show ?thesis using accepted_facts(2) within_distinct f by (auto simp: value_distinct_def split: evidence_value.split)
qed

lemma digest_fact_distinct: "reading decimal v t = Some (t', w) \<Longrightarrow> within_limits v \<Longrightarrow> value_distinct w"
  using within_distinct[of v]
  by (auto simp: reading_def value_distinct_def
      split: frozen_json.splits if_splits sum.splits EvidenceValueType.splits)

lemma state_evaluation_reports:
  assumes "state_assertion_id a \<noteq> []" "cq_key (state_query a) \<noteq> []" "r \<in> {AssertionResult.PASS, AssertionResult.FAIL, AssertionResult.ERROR}"
  shows "reports (state_evaluation a r c x y z) se_result r"
  using assms by (simp add: reports_def state_evaluation_def StateAssertionEvaluation_post_init_def)

lemma comparison_reports:
  assumes "state_assertion_id a \<noteq> []" "cq_key (state_query a) \<noteq> []"
  shows "reports (comparison_evaluation a e x y b) se_result (verdict_of (Some b))"
  using state_evaluation_reports[OF assms] by (simp add: comparison_evaluation_def verdict_of_def)

lemma related_ints: "compare_numeric (Decimal_of_int i) (Decimal_of_int j) c = related c (of_int i) (of_int j)"
  by (simp add: compare_numeric_exact number_def Decimal_of_int_def)

lemma count_exact:
  assumes "state_assertion_id s \<noteq> []" "cq_key (state_query s) \<noteq> []" "evidence_accepted decimal e"
  shows "reports (evaluate_count s a e) se_result (count_judgement a e)"
  using accepted_type(1)[OF assms(3)] state_evaluation_reports[OF assms(1,2)] comparison_reports[OF assms(1,2)]
  by (auto simp: evaluate_count_def count_judgement_def StateAssertionFact_init_def require_fact_shape_def related_ints verdict_of_def
      split: evidence_value.split frozen_json.split)

lemma existence_exact:
  assumes "state_assertion_id s \<noteq> []" "cq_key (state_query s) \<noteq> []" "evidence_accepted decimal e"
  shows "reports (evaluate_existence s wanted e) se_result (existence_judgement wanted e)"
proof -
  have "observed_existence e = (case ev_value e of JsonEvidence (FBool b) \<Rightarrow> Some b | JsonEvidence (FrozenJsonObject _) \<Rightarrow> Some True
      | _ \<Rightarrow> None)"
    using accepted_type(2,3)[OF assms(3)] by (simp add: observed_existence_def split: evidence_value.split frozen_json.split)
  then show ?thesis
    using state_evaluation_reports[OF assms(1,2)] comparison_reports[OF assms(1,2)]
    by (auto simp: evaluate_existence_def existence_judgement_def StateAssertionFact_init_def require_fact_shape_def verdict_of_def
        split: evidence_value.split frozen_json.split)
qed

lemma field_exact:
  assumes "state_assertion_id s \<noteq> []" "cq_key (state_query s) \<noteq> []" "evidence_accepted decimal e" "reads_ascii decimal"
    "expected_fact decimal (fa_expected a) = Inr expected"
  shows "case field_judgement decimal a expected e of
      Some r \<Rightarrow> reports (evaluate_resource_field decimal s a e) se_result r
    | None \<Rightarrow> evaluate_resource_field decimal s a e = Inl (ValidationError ''ObserverEvidence'')"
proof -
  note error = state_evaluation_reports[OF assms(1,2), of AssertionResult.ERROR]
    and failure = state_evaluation_reports[OF assms(1,2), of AssertionResult.FAIL] and compared = comparison_reports[OF assms(1,2)]
  consider (object) ps where "ev_value e = JsonEvidence (FrozenJsonObject ps)" |
    (other) "\<nexists>ps. ev_value e = JsonEvidence (FrozenJsonObject ps)" by blast
  then show ?thesis
  proof cases
    case other
    then show ?thesis using error
      by (auto simp: evaluate_resource_field_def field_judgement_def assms(5) Let_def split: evidence_value.split frozen_json.split)
  next
    case object
    have typed: "ev_value_type e = OBJECT" using accepted_type(3)[OF assms(3) object] .
    show ?thesis
    proof (cases "resolve_json_pointer (FrozenJsonObject ps) (fa_path a)")
      case None
      then show ?thesis using error failure
        by (simp add: evaluate_resource_field_def field_judgement_def assms(5) object typed verdict_of_def)
    next
      case (Some v)
      have within: "within_limits v" using within_resolve[OF Some accepted_facts(2)[OF assms(3) object]] .
      show ?thesis
      proof (cases "reading decimal v (sf_value_type expected)")
        case None
        then show ?thesis
          by (simp add: evaluate_resource_field_def field_judgement_def assms(5) object typed Some
              actual_fact_exact[OF within assms(4)])
      next
        case (Some p)
        then obtain t w where p: "reading decimal v (sf_value_type expected) = Some (t, w)" by (cases p) auto
        have distinct: "value_distinct w" "value_distinct (sf_value expected)"
          using digest_fact_distinct[OF p within] validated_distinct assms(5) by (auto simp: expected_fact_def split: prod.splits)
        show ?thesis using error compared
          by (auto simp: evaluate_resource_field_def field_judgement_def assms(5) object typed \<open>resolve_json_pointer _ _ = Some v\<close> p
              actual_fact_exact[OF within assms(4)] compare_facts_exact distinct verdict_of_def split: option.split)
      qed
    qed
  qed
qed


section \<open>Witnesses\<close>

definition sample_field :: FieldAssertion where
  "sample_field = \<lparr>fa_id = ''total'', fa_query = \<lparr>cq_observer = ''orders'', cq_key = [110], cq_parameters = JObject []\<rparr>,
     fa_path = [47, 97, 47, 48], fa_comparator = GTE, fa_expected = IntegerTypedValue 2, fa_missing_pointer = MissingPointer.FAIL\<rparr>"

definition sample_total :: ObserverEvidence where
  "sample_total = \<lparr>ev_key = [110], ev_value_type = OBJECT,
     ev_value = JsonEvidence (FrozenJsonObject [([97], FTuple [FInt 3])]), sensitive = False\<rparr>"

lemma sample_total_accepted: "evidence_accepted decimal sample_total"
proof -
  have "freeze_json (JObject [([97], JArray [JInt 3])]) = Inr (FrozenJsonObject [([97], FTuple [FInt 3])])"
    by (simp add: freeze_json_eq_Inr safe_text_def scalar_value_def MAX_JSON_NODES_def MAX_JSON_DEPTH_def
        MAX_JSON_OBJECT_KEY_LENGTH_def MAX_JSON_ARRAY_ITEMS_def MAX_JSON_OBJECT_PROPERTIES_def MIN_IJSON_INTEGER_def MAX_IJSON_INTEGER_def)
  then show ?thesis unfolding evidence_accepted_def
    by (intro exI[of _ "JObject [([97], JArray [JInt 3])]"])
      (simp add: ObserverEvidence_validate_def freeze_and_classify_value_def sample_total_def validate_bounded_text_eq_Inr
        and_then_eq_Inr safe_text_def scalar_value_def MAX_JSON_OBJECT_KEY_LENGTH_def)
qed

lemma sample_expected: "expected_fact decimal (IntegerTypedValue 2) =
    Inr \<lparr>sf_value_type = INTEGER, sf_value = JsonEvidence (FInt 2), sf_sensitive = False\<rparr>"
  using validated_json[of "FInt 2" INTEGER decimal False]
  by (simp add: expected_fact_def within_limits_iff MAX_JSON_NODES_def MAX_JSON_DEPTH_def MIN_IJSON_INTEGER_def MAX_IJSON_INTEGER_def)


end
