(* ===== verification/Assertions_Composite.thy ===== *)
theory Assertions_Composite
  imports Assertions_State
begin

text \<open>
  Typed evidence predicates and the all-or-none assertion of \<open>assertions/composite.py\<close>. The module repeats the
  private helpers of \<open>assertions/state.py\<close> line by line, from \<open>_expected_fact\<close> to
  \<open>_resolve_json_pointer\<close>; the definitions of \<open>Assertions_State\<close> model both. Unlike the state
  assertions, a predicate turns a field that cannot be read into an error result.
\<close>

section \<open>Configuration\<close>

record Predicate =
  pr_name :: string
  pr_query :: ConfigQuery
  pr_path :: "ustring option"
  pr_comparator :: Comparator
  pr_expected :: TypedValue
  pr_missing_pointer :: MissingPointer

record NoPartialSideEffectAssertion =
  np_id :: string
  np_on_unsupported :: OnUnsupported
  np_predicates :: "Predicate list"

definition MIN_COMPOSITE_ASSERTION_ITEMS :: nat where "MIN_COMPOSITE_ASSERTION_ITEMS = 2"
definition MAX_PARTIAL_PREDICATES :: nat where "MAX_PARTIAL_PREDICATES = 64"

definition validate_predicates :: "Predicate list \<Rightarrow> Predicate list result" where
  "validate_predicates value =
     and_then (raise_unless (MIN_COMPOSITE_ASSERTION_ITEMS \<le> length value \<and> length value \<le> MAX_PARTIAL_PREDICATES)
       (ValueError ''predicates must contain between 2 and 64 values'')) (\<lambda>_.
     and_then (raise_unless (length (map pr_name value) = length (remdups (map pr_name value)))
       (ValueError ''predicate names values must be unique'')) (\<lambda>_. Inr value))"

section \<open>Evaluations\<close>

datatype EvidencePredicateCode =
    MATCH | MISMATCH | EVIDENCE_MISSING | EVIDENCE_DUPLICATE | EVIDENCE_TYPE_MISMATCH | POINTER_MISSING | COMPARATOR_UNSUPPORTED

datatype CompositeAssertionCode =
    ALL_PRESENT | NONE_PRESENT | PARTIAL_SIDE_EFFECT | PREDICATE_ERROR | SNAPSHOT_SCOPE_MISMATCH | OBSERVER_PENDING |
    OBSERVER_UNSUPPORTED | OBSERVER_ERROR

record PredicateFacts =
  pf_expected :: "StateAssertionFact option"
  pf_actual :: "StateAssertionFact option"
  pf_source :: "ObserverEvidence option"

record EvidencePredicateEvaluation =
  pe_predicate_name :: string
  pe_evidence_key :: ustring
  pe_result :: AssertionResult
  pe_code :: EvidencePredicateCode
  pe_truth_value :: "bool option"
  pe_facts :: PredicateFacts

text \<open>The table from results to truth values; other results have no entry.\<close>

fun truth_of :: "AssertionResult \<Rightarrow> bool option option" where
  "truth_of AssertionResult.PASS = Some (Some True)"
| "truth_of AssertionResult.FAIL = Some (Some False)"
| "truth_of AssertionResult.ERROR = Some None"
| "truth_of _ = None"

definition EvidencePredicateEvaluation_post_init :: "EvidencePredicateEvaluation \<Rightarrow> EvidencePredicateEvaluation result" where
  "EvidencePredicateEvaluation_post_init e =
     and_then (raise_unless (pe_predicate_name e \<noteq> []) (ValueError ''predicate_name must be a nonempty string'')) (\<lambda>_.
     and_then (raise_unless (pe_evidence_key e \<noteq> []) (ValueError ''evidence_key must be a nonempty string'')) (\<lambda>_.
     and_then (raise_unless (pe_result e \<in> {AssertionResult.PASS, AssertionResult.FAIL, AssertionResult.ERROR})
       (ValueError ''predicate result must be pass, fail, or error'')) (\<lambda>_.
     and_then (raise_unless (truth_of (pe_result e) = Some (pe_truth_value e))
       (ValueError ''truth_value must agree with the predicate result'')) (\<lambda>_. Inr e))))"

definition predicate_result :: "Predicate \<Rightarrow> AssertionResult \<Rightarrow> EvidencePredicateCode \<Rightarrow> PredicateFacts \<Rightarrow>
    EvidencePredicateEvaluation result" where
  "predicate_result p r c facts = EvidencePredicateEvaluation_post_init
     \<lparr>pe_predicate_name = pr_name p, pe_evidence_key = cq_key (pr_query p), pe_result = r, pe_code = c,
      pe_truth_value = (case truth_of r of Some t \<Rightarrow> t | None \<Rightarrow> None), pe_facts = facts\<rparr>"

definition facts :: "StateAssertionFact \<Rightarrow> StateAssertionFact option \<Rightarrow> ObserverEvidence option \<Rightarrow> PredicateFacts" where
  "facts expected actual source = \<lparr>pf_expected = Some expected, pf_actual = actual, pf_source = source\<rparr>"

record NoPartialSideEffectEvaluation =
  ne_assertion_id :: string
  ne_result :: AssertionResult
  ne_code :: CompositeAssertionCode
  ne_predicates :: "EvidencePredicateEvaluation list"
  ne_snapshot_id :: "ustring option"

definition NoPartialSideEffectEvaluation_post_init :: "NoPartialSideEffectEvaluation \<Rightarrow> NoPartialSideEffectEvaluation result" where
  "NoPartialSideEffectEvaluation_post_init e =
     and_then (raise_unless (ne_assertion_id e \<noteq> []) (ValueError ''assertion_id must be a nonempty string'')) (\<lambda>_.
     and_then (raise_unless (ne_result e \<in> {AssertionResult.PASS, AssertionResult.FAIL, AssertionResult.ERROR, AssertionResult.SKIPPED})
       (ValueError ''composite result must be pass, fail, error, or skipped'')) (\<lambda>_.
     and_then (raise_unless (\<not> length (ne_predicates e) < 2)
       (TypeError ''predicates must contain at least two predicate evaluations'')) (\<lambda>_.
     and_then (raise_unless (length (remdups (map pe_predicate_name (ne_predicates e))) = length (map pe_predicate_name (ne_predicates e)))
       (ValueError ''predicate evaluation names must be unique'')) (\<lambda>_.
     and_then (raise_unless (ne_snapshot_id e \<noteq> Some []) (ValueError ''snapshot_id must be a nonempty string or None'')) (\<lambda>_.
       Inr e)))))"

definition predicate_values :: "NoPartialSideEffectEvaluation \<Rightarrow> (string \<times> bool option) list" where
  "predicate_values e = map (\<lambda>item. (pe_predicate_name item, pe_truth_value item)) (ne_predicates e)"

definition composite_result :: "NoPartialSideEffectAssertion \<Rightarrow> AssertionResult \<Rightarrow> CompositeAssertionCode \<Rightarrow>
    EvidencePredicateEvaluation list \<Rightarrow> ustring option \<Rightarrow> NoPartialSideEffectEvaluation result" where
  "composite_result a r c predicates snapshot = NoPartialSideEffectEvaluation_post_init
     \<lparr>ne_assertion_id = np_id a, ne_result = r, ne_code = c, ne_predicates = predicates, ne_snapshot_id = snapshot\<rparr>"

section \<open>Predicates\<close>

text \<open>\<open>_predicate_actual\<close>: the fact to compare, or the evaluation that ends the predicate.\<close>

definition predicate_actual :: "decimal_reader \<Rightarrow> Predicate \<Rightarrow> ObserverEvidence \<Rightarrow> StateAssertionFact \<Rightarrow>
    (EvidencePredicateEvaluation + StateAssertionFact) result" where
  "predicate_actual decimal p observed expected =
     (let stop = (\<lambda>r c. and_then (predicate_result p r c (facts expected None (Some observed))) (\<lambda>ev. Inr (Inl ev)));
          mismatch = stop AssertionResult.ERROR EVIDENCE_TYPE_MISMATCH
      in case pr_path p of
        None \<Rightarrow> and_then (StateAssertionFact_init (ev_value_type observed) (ev_value observed) (sensitive observed)) (\<lambda>f. Inr (Inr f))
      | Some path \<Rightarrow>
          (case ev_value observed of
             JsonEvidence (FrozenJsonObject ps) \<Rightarrow>
               (if ev_value_type observed \<noteq> OBJECT then mismatch
                else case resolve_json_pointer (FrozenJsonObject ps) path of
                    None \<Rightarrow> stop (if pr_missing_pointer p = MissingPointer.FAIL then AssertionResult.FAIL else AssertionResult.ERROR)
                      POINTER_MISSING
                  | Some raw_actual \<Rightarrow>
                      (case actual_fact decimal raw_actual (sf_value_type expected) (sensitive observed) of
                         Inl e \<Rightarrow> if is_type_or_value_error e then mismatch else Inl e
                       | Inr f \<Rightarrow> Inr (Inr f)))
           | _ \<Rightarrow> mismatch))"

definition evaluate_evidence_predicate :: "decimal_reader \<Rightarrow> Predicate \<Rightarrow> ObserverEvidence list \<Rightarrow>
    EvidencePredicateEvaluation result" where
  "evaluate_evidence_predicate decimal p evidence =
     and_then (expected_fact decimal (pr_expected p)) (\<lambda>expected.
     case filter (\<lambda>item. ev_key item = cq_key (pr_query p)) evidence of
       [] \<Rightarrow> predicate_result p AssertionResult.ERROR EVIDENCE_MISSING (facts expected None None)
     | [observed] \<Rightarrow>
         and_then (predicate_actual decimal p observed expected) (\<lambda>actual.
         case actual of
           Inl evaluation \<Rightarrow> Inr evaluation
         | Inr actual \<Rightarrow>
             (case compare_facts decimal actual expected (pr_comparator p) of
                None \<Rightarrow> predicate_result p AssertionResult.ERROR COMPARATOR_UNSUPPORTED (facts expected (Some actual) (Some observed))
              | Some matched \<Rightarrow> predicate_result p (if matched then AssertionResult.PASS else AssertionResult.FAIL)
                  (if matched then MATCH else MISMATCH) (facts expected (Some actual) (Some observed))))
     | _ \<Rightarrow> predicate_result p AssertionResult.ERROR EVIDENCE_DUPLICATE (facts expected None None))"

section \<open>All or none\<close>

fun observer_failure_code :: "ObserverResponseStatus \<Rightarrow> CompositeAssertionCode option" where
  "observer_failure_code ObserverResponseStatus.PENDING = Some OBSERVER_PENDING"
| "observer_failure_code ObserverResponseStatus.UNSUPPORTED = Some OBSERVER_UNSUPPORTED"
| "observer_failure_code ObserverResponseStatus.ERROR = Some OBSERVER_ERROR"
| "observer_failure_code ObserverResponseStatus.OK = None"

definition evaluate_no_partial_side_effect_assertion :: "decimal_reader \<Rightarrow> NoPartialSideEffectAssertion \<Rightarrow> ObserverResponse \<Rightarrow>
    NoPartialSideEffectEvaluation result" where
  "evaluate_no_partial_side_effect_assertion decimal a response =
     and_then (for_each (\<lambda>p. evaluate_evidence_predicate decimal p (rs_evidence response)) (np_predicates a)) (\<lambda>evaluations.
     if card (set (map (\<lambda>p. cq_observer (pr_query p)) (np_predicates a))) \<noteq> 1 then
       composite_result a AssertionResult.ERROR SNAPSHOT_SCOPE_MISMATCH evaluations (rs_snapshot_id response)
     else case observer_failure_code (rs_status response) of
       Some code \<Rightarrow> composite_result a
         (if rs_status response = ObserverResponseStatus.UNSUPPORTED \<and> np_on_unsupported a = OnUnsupported.SKIP
          then AssertionResult.SKIPPED else AssertionResult.ERROR) code evaluations None
     | None \<Rightarrow>
         (let truths = map pe_truth_value evaluations; snapshot = rs_snapshot_id response in
          if list_ex (\<lambda>item. pe_result item = AssertionResult.ERROR) evaluations then
            composite_result a AssertionResult.ERROR PREDICATE_ERROR evaluations snapshot
          else if list_all (\<lambda>t. t = Some True) truths then composite_result a AssertionResult.PASS ALL_PRESENT evaluations snapshot
          else if list_all (\<lambda>t. t = Some False) truths then composite_result a AssertionResult.PASS NONE_PRESENT evaluations snapshot
          else composite_result a AssertionResult.FAIL PARTIAL_SIDE_EFFECT evaluations snapshot))"

definition evaluate_composite_assertion :: "decimal_reader \<Rightarrow> NoPartialSideEffectAssertion \<Rightarrow> ObserverResponse \<Rightarrow>
    NoPartialSideEffectEvaluation result" where
  "evaluate_composite_assertion decimal a response = evaluate_no_partial_side_effect_assertion decimal a response"

section \<open>What a predicate says\<close>

text \<open>The truth of a predicate on a snapshot, \<open>None\<close> where the evidence cannot decide it.\<close>

definition predicate_reading :: "decimal_reader \<Rightarrow> Predicate \<Rightarrow> EvidenceValueType \<Rightarrow> ObserverEvidence \<Rightarrow>
    (EvidenceValueType \<times> evidence_value) option" where
  "predicate_reading decimal p t e = (case pr_path p of
       None \<Rightarrow> Some (ev_value_type e, ev_value e)
     | Some path \<Rightarrow> (case ev_value e of
         JsonEvidence (FrozenJsonObject ps) \<Rightarrow>
           (case resolve_json_pointer (FrozenJsonObject ps) path of None \<Rightarrow> None | Some v \<Rightarrow> reading decimal v t)
       | _ \<Rightarrow> None))"

definition pointer_fails :: "Predicate \<Rightarrow> ObserverEvidence \<Rightarrow> bool" where
  "pointer_fails p e = (pr_missing_pointer p = MissingPointer.FAIL \<and> (case pr_path p of
       None \<Rightarrow> False
     | Some path \<Rightarrow> (case ev_value e of
         JsonEvidence (FrozenJsonObject ps) \<Rightarrow> resolve_json_pointer (FrozenJsonObject ps) path = None | _ \<Rightarrow> False)))"

definition predicate_truth :: "decimal_reader \<Rightarrow> Predicate \<Rightarrow> ObserverEvidence list \<Rightarrow> bool option" where
  "predicate_truth decimal p evidence = (case expected_fact decimal (pr_expected p) of
       Inl _ \<Rightarrow> None
     | Inr expected \<Rightarrow>
         (case filter (\<lambda>item. ev_key item = cq_key (pr_query p)) evidence of
            [e] \<Rightarrow> if pointer_fails p e then Some False
              else (case predicate_reading decimal p (sf_value_type expected) e of
                  None \<Rightarrow> None
                | Some actual \<Rightarrow> fact_relation decimal actual (sf_value_type expected, sf_value expected) (pr_comparator p))
          | _ \<Rightarrow> None))"

definition configured :: "decimal_reader \<Rightarrow> Predicate \<Rightarrow> bool" where
  "configured decimal p = (pr_name p \<noteq> [] \<and> cq_key (pr_query p) \<noteq> [] \<and> returns (expected_fact decimal (pr_expected p)))"

definition settled_as :: "EvidencePredicateEvaluation result \<Rightarrow> string \<Rightarrow> bool option \<Rightarrow> bool" where
  "settled_as m name t = (\<exists>ev. m = Inr ev \<and> pe_predicate_name ev = name \<and> pe_truth_value ev = t \<and> pe_result ev = verdict_of t)"

lemma predicate_result_settled:
  assumes "pr_name p \<noteq> []" "cq_key (pr_query p) \<noteq> []"
  shows "settled_as (predicate_result p (verdict_of t) c fs) (pr_name p) t"
    "settled_as (predicate_result p AssertionResult.ERROR c fs) (pr_name p) None"
    "settled_as (predicate_result p AssertionResult.FAIL c fs) (pr_name p) (Some False)"
    "settled_as (predicate_result p (if b then AssertionResult.PASS else AssertionResult.FAIL) c fs) (pr_name p) (Some b)"
  using assms
  by (auto simp: settled_as_def predicate_result_def EvidencePredicateEvaluation_post_init_def verdict_of_def split: option.split bool.split)

lemma accepted_fact:
  assumes "evidence_accepted decimal e"
  shows "StateAssertionFact_init (ev_value_type e) (ev_value e) s =
      Inr \<lparr>sf_value_type = ev_value_type e, sf_value = ev_value e, sf_sensitive = s\<rparr>" "value_distinct (ev_value e)"
proof -
  show "StateAssertionFact_init (ev_value_type e) (ev_value e) s =
      Inr \<lparr>sf_value_type = ev_value_type e, sf_value = ev_value e, sf_sensitive = s\<rparr>"
    using shape_of_match[OF accepted_facts(1)[OF assms]] by (simp add: StateAssertionFact_init_def)
  show "value_distinct (ev_value e)"
    using accepted_facts(2)[OF assms] within_distinct by (auto simp: value_distinct_def split: evidence_value.split)
qed

lemma predicate_exact:
  assumes p: "configured decimal p" and accepted: "\<forall>e \<in> set evidence. evidence_accepted decimal e" and ascii: "reads_ascii decimal"
  shows "settled_as (evaluate_evidence_predicate decimal p evidence) (pr_name p) (predicate_truth decimal p evidence)"
proof -
  let ?found = "filter (\<lambda>item. ev_key item = cq_key (pr_query p)) evidence"
  obtain expected where x: "expected_fact decimal (pr_expected p) = Inr expected"
    using p by (auto simp: configured_def returns_iff)
  have named: "pr_name p \<noteq> []" "cq_key (pr_query p) \<noteq> []" using p by (simp_all add: configured_def)
  note stated = predicate_result_settled[OF named]
  show ?thesis
  proof (cases "\<exists>e. ?found = [e]")
    case False
    then show ?thesis using stated(2)
      by (auto simp: evaluate_evidence_predicate_def predicate_truth_def x split: list.split)
  next
    case True
    then obtain e where e: "?found = [e]" by blast
    then have "e \<in> set evidence" using filter_is_subset[of "\<lambda>item. ev_key item = cq_key (pr_query p)" evidence] by simp
    then have e_ok: "evidence_accepted decimal e" using accepted by blast
    have x_ok: "value_distinct (sf_value expected)"
      using validated_distinct x by (auto simp: expected_fact_def split: prod.splits)
    have compared: "settled_as (case compare_facts decimal \<lparr>sf_value_type = t, sf_value = w, sf_sensitive = s\<rparr> expected (pr_comparator p) of
          None \<Rightarrow> predicate_result p AssertionResult.ERROR COMPARATOR_UNSUPPORTED (f1 t w s)
        | Some matched \<Rightarrow> predicate_result p (if matched then AssertionResult.PASS else AssertionResult.FAIL)
            (if matched then MATCH else MISMATCH) (f1 t w s)) (pr_name p)
        (fact_relation decimal (t, w) (sf_value_type expected, sf_value expected) (pr_comparator p))"
      if "value_distinct w" for t w s f1
      using stated(2,4) compare_facts_exact[OF _ x_ok, of "\<lparr>sf_value_type = t, sf_value = w, sf_sensitive = s\<rparr>" decimal "pr_comparator p"] that
      by (simp split: option.split)
    show ?thesis
    proof (cases "pr_path p")
      case None
      then show ?thesis
        using compared[OF accepted_fact(2)[OF e_ok]]
        by (simp add: evaluate_evidence_predicate_def predicate_truth_def x e predicate_actual_def accepted_fact(1)[OF e_ok]
            pointer_fails_def predicate_reading_def)
    next
      case (Some path)
      show ?thesis
      proof (cases "\<exists>ps. ev_value e = JsonEvidence (FrozenJsonObject ps)")
        case False
        then show ?thesis using stated(2)[of EVIDENCE_TYPE_MISMATCH "facts expected None (Some e)"]
          by (auto simp: evaluate_evidence_predicate_def predicate_truth_def x e predicate_actual_def Some Let_def and_then_assoc
              pointer_fails_def predicate_reading_def settled_as_def split: evidence_value.split frozen_json.split)
      next
        case True
        then obtain ps where object: "ev_value e = JsonEvidence (FrozenJsonObject ps)" by blast
        have typed: "ev_value_type e = OBJECT" using accepted_type(3)[OF e_ok object] .
        note unfolded = evaluate_evidence_predicate_def predicate_truth_def x e predicate_actual_def Some object typed
          pointer_fails_def predicate_reading_def
        show ?thesis
        proof (cases "resolve_json_pointer (FrozenJsonObject ps) path")
          case None
          then show ?thesis
            using stated(2,3)[of POINTER_MISSING "facts expected None (Some e)"] by (auto simp: unfolded settled_as_def)
        next
          case found: (Some v)
          have within: "within_limits v" using within_resolve[OF found accepted_facts(2)[OF e_ok object]] .
          show ?thesis
          proof (cases "reading decimal v (sf_value_type expected)")
            case None
            then show ?thesis using stated(2)[of EVIDENCE_TYPE_MISMATCH "facts expected None (Some e)"]
              by (auto simp: unfolded found actual_fact_exact[OF within ascii] settled_as_def)
          next
            case read: (Some q)
            obtain t w where q: "q = (t, w)" by (cases q)
            show ?thesis using compared[OF digest_fact_distinct[OF read[unfolded q] within]]
              by (simp add: unfolded found actual_fact_exact[OF within ascii] read q)
          qed
        qed
      qed
    qed
  qed
qed

section \<open>The all-or-none assertion\<close>

definition all_or_none :: "decimal_reader \<Rightarrow> NoPartialSideEffectAssertion \<Rightarrow> ObserverResponse \<Rightarrow> AssertionResult" where
  "all_or_none decimal a response =
     (let observers = (\<lambda>p. cq_observer (pr_query p)) ` set (np_predicates a);
          truths = (\<lambda>p. predicate_truth decimal p (rs_evidence response)) ` set (np_predicates a)
      in if card observers \<noteq> 1 then AssertionResult.ERROR
         else if rs_status response \<noteq> ObserverResponseStatus.OK then
           (if rs_status response = ObserverResponseStatus.UNSUPPORTED \<and> np_on_unsupported a = OnUnsupported.SKIP
            then AssertionResult.SKIPPED else AssertionResult.ERROR)
         else if None \<in> truths then AssertionResult.ERROR
         else if truths = {Some True} \<or> truths = {Some False} then AssertionResult.PASS
         else AssertionResult.FAIL)"

lemma evaluations_exact:
  assumes "\<forall>p \<in> set ps. configured decimal p" "\<forall>e \<in> set evidence. evidence_accepted decimal e" "reads_ascii decimal"
  shows "\<exists>evs. for_each (\<lambda>p. evaluate_evidence_predicate decimal p evidence) ps = Inr evs \<and>
    map pe_predicate_name evs = map pr_name ps \<and> map pe_truth_value evs = map (\<lambda>p. predicate_truth decimal p evidence) ps \<and>
    map pe_result evs = map (\<lambda>p. verdict_of (predicate_truth decimal p evidence)) ps"
  using assms(1)
proof (induction ps)
  case (Cons p ps)
  obtain ev where "evaluate_evidence_predicate decimal p evidence = Inr ev" "pe_predicate_name ev = pr_name p"
    "pe_truth_value ev = predicate_truth decimal p evidence" "pe_result ev = verdict_of (predicate_truth decimal p evidence)"
    using predicate_exact[OF _ assms(2,3), of p] Cons.prems by (auto simp: settled_as_def)
  with Cons show ?case by auto
qed simp

lemma verdict_error [simp]: "verdict_of t = AssertionResult.ERROR \<longleftrightarrow> t = None"
  by (simp add: verdict_of_def split: option.split bool.split)

text \<open>C36. All or none. For a configured no-partial-side-effect assertion and an accepted response, the evaluation returns
  and lists the truth of every named predicate in order. It passes exactly when one observer's snapshot decides every
  predicate and they are all true or all false; a mixture is the failure that is reported; a predicate that the evidence
  cannot decide, predicates of different observers and an observer that did not answer are errors, or a skip where the
  observer does not support the query and the assertion says so.\<close>

theorem all_or_none_exact:
  assumes "np_id a \<noteq> []" "validate_predicates (np_predicates a) = Inr ps" "\<forall>p \<in> set (np_predicates a). configured decimal p"
    and "\<forall>e \<in> set (rs_evidence response). evidence_accepted decimal e" "rs_snapshot_id response \<noteq> Some []" "reads_ascii decimal"
  shows "\<exists>ev. evaluate_no_partial_side_effect_assertion decimal a response = Inr ev \<and> ne_result ev = all_or_none decimal a response \<and>
    predicate_values ev = map (\<lambda>p. (pr_name p, predicate_truth decimal p (rs_evidence response))) (np_predicates a)"
proof -
  let ?ps = "np_predicates a" let ?truth = "\<lambda>p. predicate_truth decimal p (rs_evidence response)"
  obtain evs where evs: "for_each (\<lambda>p. evaluate_evidence_predicate decimal p (rs_evidence response)) ?ps = Inr evs"
    and names: "map pe_predicate_name evs = map pr_name ?ps" and truths: "map pe_truth_value evs = map ?truth ?ps"
    and results: "map pe_result evs = map (\<lambda>p. verdict_of (?truth p)) ?ps"
    using evaluations_exact[OF assms(3,4,6)] by blast
  have two: "2 \<le> length ?ps" "distinct (map pr_name ?ps)"
    using assms(2) by (auto simp: validate_predicates_def and_then_eq_Inr MIN_COMPOSITE_ASSERTION_ITEMS_def distinct_length_set[symmetric])
  have listed: "length evs = length ?ps" using names by (metis length_map)
  have built: "composite_result a r c evs snapshot =
      Inr \<lparr>ne_assertion_id = np_id a, ne_result = r, ne_code = c, ne_predicates = evs, ne_snapshot_id = snapshot\<rparr>"
    if "r \<noteq> AssertionResult.PENDING" "snapshot \<noteq> Some []" for r c snapshot
    using that assms(1) two listed names
    by (cases r) (simp_all add: composite_result_def NoPartialSideEffectEvaluation_post_init_def distinct_remdups_id)
  have paired: "map (\<lambda>item. (pe_predicate_name item, pe_truth_value item)) evs = map (\<lambda>p. (pr_name p, ?truth p)) ?ps"
    using names truths by (simp add: list_eq_iff_nth_eq)
  have undecided: "list_ex (\<lambda>item. pe_result item = AssertionResult.ERROR) evs \<longleftrightarrow> None \<in> ?truth ` set ?ps"
  proof -
    have "list_ex (\<lambda>item. pe_result item = AssertionResult.ERROR) evs \<longleftrightarrow> AssertionResult.ERROR \<in> set (map pe_result evs)"
      by (force simp: list_ex_iff image_iff)
    also have "\<dots> \<longleftrightarrow> None \<in> ?truth ` set ?ps" unfolding results by (auto simp: image_iff) (metis verdict_error)+
    finally show ?thesis .
  qed
  have all: "list_all (\<lambda>t. t = Some b) (map pe_truth_value evs) \<longleftrightarrow> ?truth ` set ?ps = {Some b}" for b
    unfolding truths using two(1) by (cases ?ps) (auto simp: list_all_iff)
  show ?thesis
    using assms(5) evs undecided all paired
    by (cases "rs_status response")
      (simp_all add: evaluate_no_partial_side_effect_assertion_def all_or_none_def built predicate_values_def Let_def image_set[symmetric])
qed

section \<open>Witnesses\<close>

definition sample_predicate :: "string \<Rightarrow> nat \<Rightarrow> Predicate" where
  "sample_predicate name index = \<lparr>pr_name = name, pr_query = \<lparr>cq_observer = ''orders'', cq_key = [110], cq_parameters = JObject []\<rparr>,
     pr_path = Some [47, 97, 47, 48 + index], pr_comparator = GTE, pr_expected = IntegerTypedValue 2, pr_missing_pointer = MissingPointer.FAIL\<rparr>"

definition sample_pair :: NoPartialSideEffectAssertion where
  "sample_pair = \<lparr>np_id = ''both'', np_on_unsupported = OnUnsupported.SKIP,
     np_predicates = [sample_predicate ''first'' 0, sample_predicate ''second'' 2]\<rparr>"

definition sample_snapshot :: ObserverResponse where
  "sample_snapshot = \<lparr>rs_request_id = [], rs_status = ObserverResponseStatus.OK,
     rs_capabilities = \<lparr>evidence_types = [OBJECT], evidence_keys = [], read_only = True, idempotent = True, max_queries = 1,
       supports_pending = False, stable_snapshot_ids = True\<rparr>,
     rs_snapshot_id = Some [115], rs_evidence = [sample_total], rs_error = None\<rparr>"

text \<open>The first side effect is there and the second is not: a partial side effect.\<close>

theorem all_or_none_exact_witness:
  "\<exists>ev. evaluate_no_partial_side_effect_assertion ascii_decimal sample_pair sample_snapshot = Inr ev \<and>
     ne_result ev = AssertionResult.FAIL \<and> predicate_values ev = [(''first'', Some True), (''second'', Some False)]"
proof -
  have truth: "predicate_truth ascii_decimal (sample_predicate ''first'' 0) [sample_total] = Some True"
    "predicate_truth ascii_decimal (sample_predicate ''second'' 2) [sample_total] = Some False"
    by (simp_all add: predicate_truth_def sample_predicate_def sample_total_def sample_expected resolve_json_pointer_def unescape_def
        array_index_match_def Observer_Protocol.digits_value_def ascii_decimal_def reading_def fact_relation_def int_value_def
        pointer_fails_def predicate_reading_def)
  have configured: "configured decimal (sample_predicate name i)" if "name \<noteq> []" for decimal name i
    using that by (simp add: configured_def sample_predicate_def sample_expected)
  have names: "pr_name (sample_predicate name i) = name" "cq_observer (pr_query (sample_predicate name i)) = ''orders''" for name i
    by (simp_all add: sample_predicate_def)
  have valid: "validate_predicates (np_predicates sample_pair) = Inr (np_predicates sample_pair)"
    by (simp add: validate_predicates_def sample_pair_def names MIN_COMPOSITE_ASSERTION_ITEMS_def MAX_PARTIAL_PREDICATES_def)
  have evidence: "rs_evidence sample_snapshot = [sample_total]" "rs_snapshot_id sample_snapshot \<noteq> Some []" "rs_status sample_snapshot = ObserverResponseStatus.OK"
    by (simp_all add: sample_snapshot_def)
  have judged: "all_or_none ascii_decimal sample_pair sample_snapshot = AssertionResult.FAIL"
    by (simp add: all_or_none_def evidence sample_pair_def truth names)
  show ?thesis
    using all_or_none_exact[OF _ valid, of ascii_decimal sample_snapshot] judged
    by (simp add: evidence sample_total_accepted reads_ascii_def sample_pair_def configured truth names)
qed

end
