(* ===== verification/Observer_Polling.thy ===== *)
theory Observer_Polling
  imports Observer_Protocol Clocks Domain_Enums Transition_Commands
begin

text \<open>
  Bounded observer polling: \<open>observers/polling.py\<close>. The poller is modelled with its effects: the runtime clock it
  reads, the invocations it makes and the samples it appends to the journal are a world that every step threads, and
  that survives an exception or a cancellation. What happens outside the poller is an input of each round: the
  readings of the clock, what the invocation of the observer does, the fresh identifiers, and where the task is
  cancelled. A series is a list of rounds; the loop itself has no bound of its own, so that its end is a theorem.
\<close>

section \<open>Plans, commits and results\<close>

definition MINIMUM_POLL_INTERVAL_NS :: int where "MINIMUM_POLL_INTERVAL_NS = 10000000"

datatype ObservationPollOutcome = MATCHED | MISMATCH | PENDING | UNSUPPORTED | ERROR | TIMED_OUT

definition positive_safe_integer :: "int \<Rightarrow> string \<Rightarrow> int result" where
  "positive_safe_integer v field_name =
     and_then (raise_unless (1 \<le> v \<and> v \<le> MAX_SAFE_INTEGER) (ValueError (field_name @ '' must be a positive I-JSON integer'')))
       (\<lambda>_. Inr v)"

record ObservationPollPlan =
  pp_observation_id :: string
  pp_observer_id :: ustring
  pp_request :: ObserverRequest
  pp_capabilities :: ObserverCapabilities
  within_ns :: int
  poll_interval_ns :: int
  invocation_timeout_ns :: int
  requires_stable_snapshot :: bool

definition ObservationPollPlan_post_init :: "ObservationPollPlan \<Rightarrow> ObservationPollPlan result" where
  "ObservationPollPlan_post_init p =
     and_then (validate_planned_id (pp_observation_id p) (Some PlannedIdKind.OBSERVATION)) (\<lambda>_.
     and_then (raise_unless (1 \<le> length (pp_observer_id p) \<and> length (pp_observer_id p) \<le> 256 \<and>
         \<not> list_ex (\<lambda>c. c \<in> {13, 10, 0}) (pp_observer_id p))
       (ValueError ''observer_id must be bounded and line-safe'')) (\<lambda>_.
     and_then (raise_unless (\<not> (rq_operation (pp_request p) \<noteq> ObserverOperation.OBSERVE \<or> rq_sample_id (pp_request p) = None \<or>
         rq_scenario_id (pp_request p) = None \<or> rq_checkpoint (pp_request p) = None))
       (ValueError ''polling requires a scenario-scoped observe request with a checkpoint'')) (\<lambda>_.
     and_then (positive_safe_integer (within_ns p) ''polling deadline'') (\<lambda>_.
     and_then (positive_safe_integer (invocation_timeout_ns p) ''observer invocation timeout'') (\<lambda>_.
     and_then (positive_safe_integer (poll_interval_ns p) ''polling interval'') (\<lambda>interval.
     and_then (raise_unless (\<not> interval < MINIMUM_POLL_INTERVAL_NS)
       (ValueError ''polling interval must be at least 10 milliseconds'')) (\<lambda>_.
     and_then (raise_unless (\<not> interval > within_ns p) (ValueError ''polling interval cannot exceed its deadline'')) (\<lambda>_.
       Inr p))))))))"

definition plan_negotiation :: "ObservationPollPlan \<Rightarrow> CapabilityNegotiation result" where
  "plan_negotiation p = negotiate_capabilities (pp_capabilities p) (rq_queries (pp_request p)) (requires_stable_snapshot p)"

record ObservationSampleCommit =
  oc_record :: ObservationRecord
  oc_timestamp :: TransitionTimestamp
  oc_terminal_state :: "ObservationState option"

definition ObservationSampleCommit_post_init :: "ObservationSampleCommit \<Rightarrow> ObservationSampleCommit result" where
  "ObservationSampleCommit_post_init c =
     and_then (raise_unless (\<not> (oc_terminal_state c \<noteq> None \<and> oc_terminal_state c \<notin> Some `
         {ObservationState.OK, ObservationState.PENDING, ObservationState.UNSUPPORTED, ObservationState.ERROR,
          ObservationState.TIMED_OUT, ObservationState.CANCELLED}))
       (ValueError ''sample terminal state is not an observation terminal'')) (\<lambda>_. Inr c)"

record ObservationPollResult =
  por_outcome :: ObservationPollOutcome
  por_final_state :: ObservationState
  por_sample_ids :: "string list"
  predicate_matched :: bool
  valid_evidence_seen :: bool
  deadline_elapsed :: bool
  last_response :: "ObserverResponse option"

definition ObservationPollResult_post_init :: "ObservationPollResult \<Rightarrow> ObservationPollResult result" where
  "ObservationPollResult_post_init r =
     and_then (raise_unless (por_sample_ids r \<noteq> []) (ValueError ''a polling result requires at least one sample ID''))
       (\<lambda>_. Inr r)"

section \<open>The world of a poller\<close>

record PollWorld =
  clock :: RuntimeClock
  begun :: "TransitionTimestamp list"
  invoked :: "ObserverRequest list"
  samples :: "ObservationSampleCommit list"

datatype stop = Cancelled | Raised exn

type_synonym 'a poll = "PollWorld \<Rightarrow> (stop + 'a) \<times> PollWorld"

definition bind_poll :: "'a poll \<Rightarrow> ('a \<Rightarrow> 'b poll) \<Rightarrow> 'b poll" where
  "bind_poll m k w = (case m w of (Inl s, w') \<Rightarrow> (Inl s, w') | (Inr x, w') \<Rightarrow> k x w')"

definition return_poll :: "'a \<Rightarrow> 'a poll" where
  "return_poll x w = (Inr x, w)"

definition lift_poll :: "'a result \<Rightarrow> 'a poll" where
  "lift_poll m w = (case m of Inl e \<Rightarrow> (Inl (Raised e), w) | Inr x \<Rightarrow> (Inr x, w))"

definition timed :: "(RuntimeClock \<Rightarrow> ('a \<times> RuntimeClock) result) \<Rightarrow> 'a poll" where
  "timed f w = (case f (clock w) of Inl e \<Rightarrow> (Inl (Raised e), w) | Inr (x, c) \<Rightarrow> (Inr x, w\<lparr>clock := c\<rparr>))"

text \<open>What one append takes from outside: the record's identifier and wall time, the timestamp of the transition, and
  whether the task is cancelled at the checkpoint that follows a terminal append.\<close>

record CommitInput =
  ci_record_id :: string
  ci_recorded_at :: ustring
  ci_wall :: datetime
  ci_reading :: int
  ci_cancelled :: bool

definition append_record :: "decimal_reader \<Rightarrow> CommitInput \<Rightarrow> ObservationRecord \<Rightarrow> ObservationState option \<Rightarrow> string poll" where
  "append_record decimal ci r terminal =
     bind_poll (lift_poll (ObservationRecord_validate decimal r)) (\<lambda>record.
     bind_poll (timed (\<lambda>c. transition_timestamp c (ci_wall ci) (ci_reading ci))) (\<lambda>ts.
     bind_poll (lift_poll (ObservationSampleCommit_post_init \<lparr>oc_record = record, oc_timestamp = ts, oc_terminal_state = terminal\<rparr>)) (\<lambda>commit w.
       (if terminal \<noteq> None \<and> ci_cancelled ci then Inl Cancelled else Inr (rec_sample_id record),
        w\<lparr>samples := samples w @ [commit]\<rparr>))))"

section \<open>Records\<close>

definition base_record :: "ObservationPollPlan \<Rightarrow> CommitInput \<Rightarrow> ObserverRequest \<Rightarrow> int \<Rightarrow> ObservationStatus \<Rightarrow>
    ObservationRecordError option \<Rightarrow> ObservationRecord" where
  "base_record plan ci request sample_sequence status error =
     \<lparr>rec_record_id = ci_record_id ci, rec_run_id = the (rq_run_id request), rec_scenario_id = the (rq_scenario_id request),
      rec_observation_id = pp_observation_id plan, rec_sample_id = the (rq_sample_id request), rec_observer_id = pp_observer_id plan,
      rec_sample_sequence = sample_sequence, rec_recorded_at = ci_recorded_at ci, rec_status = status, rec_event_id = rq_event_id request,
      rec_snapshot_id = None, rec_evidence = [], rec_error = error\<rparr>"

definition response_record :: "ObservationPollPlan \<Rightarrow> CommitInput \<Rightarrow> ObserverRequest \<Rightarrow> int \<Rightarrow> ObserverResponse \<Rightarrow> ObservationRecord" where
  "response_record plan ci request sample_sequence response =
     (let status = map_response_status (rs_status response);
          error = (if status = ObservationStatus.ERROR
            then Some \<lparr>re_category = (case rs_error response of Some e \<Rightarrow> we_category e | None \<Rightarrow> ''observer_error''),
              message_redacted = text_of ''Observer returned a classified error.''\<rparr>
            else None)
      in (base_record plan ci request sample_sequence status error)
        \<lparr>rec_snapshot_id := rs_snapshot_id response, rec_evidence := filter (\<lambda>item. \<not> sensitive item) (rs_evidence response)\<rparr>)"

definition unsupported_record :: "ObservationPollPlan \<Rightarrow> CommitInput \<Rightarrow> ObserverRequest \<Rightarrow> int \<Rightarrow> ObservationRecord" where
  "unsupported_record plan ci request sample_sequence = base_record plan ci request sample_sequence ObservationStatus.UNSUPPORTED None"

definition error_record :: "ObservationPollPlan \<Rightarrow> CommitInput \<Rightarrow> ObserverRequest \<Rightarrow> int \<Rightarrow> string \<Rightarrow> string \<Rightarrow> ObservationRecord" where
  "error_record plan ci request sample_sequence error_kind message =
     base_record plan ci request sample_sequence ObservationStatus.ERROR
       (Some \<lparr>re_category = error_kind, message_redacted = text_of message\<rparr>)"

definition timeout_record :: "ObservationPollPlan \<Rightarrow> CommitInput \<Rightarrow> ObserverRequest \<Rightarrow> int \<Rightarrow> string \<Rightarrow> ObservationRecord" where
  "timeout_record plan ci request sample_sequence error_kind =
     base_record plan ci request sample_sequence ObservationStatus.TIMEOUT
       (Some \<lparr>re_category = error_kind, message_redacted = text_of ''The physical observer deadline elapsed.''\<rparr>)"

definition cancel_poll :: "decimal_reader \<Rightarrow> ObservationPollPlan \<Rightarrow> CommitInput \<Rightarrow> ObserverRequest \<Rightarrow> int \<Rightarrow> 'a poll" where
  "cancel_poll decimal plan ci request sample_sequence =
     bind_poll (append_record decimal ci (error_record plan ci request sample_sequence ''cancelled'' ''Observer invocation was cancelled.'')
       (Some ObservationState.CANCELLED)) (\<lambda>_ w. (Inl Cancelled, w))"

section \<open>One round\<close>

text \<open>What the invocation of the observer does. A diagnostic is its category and whether it is retryable.\<close>

datatype invocation = Responds ObserverResponse | RunsOut | Fails "(string \<times> bool) option" | IsCancelled

record PollRound =
  rd_head_reading :: int
  rd_invoke_reading :: int
  rd_invocation :: invocation
  rd_after_reading :: int
  rd_commit :: CommitInput
  rd_fresh_sample :: string
  rd_wait_reading :: int
  rd_wait_cancelled :: bool
  rd_cancel_commit :: CommitInput

record PollState =
  ps_request :: ObserverRequest
  ps_sequence :: int
  ps_sample_ids :: "string list"
  ps_last_response :: "ObserverResponse option"
  ps_seen :: bool

definition poll_result :: "ObservationPollOutcome \<Rightarrow> ObservationState \<Rightarrow> string list \<Rightarrow> bool \<Rightarrow> bool \<Rightarrow> bool \<Rightarrow> ObserverResponse option \<Rightarrow>
    ObservationPollResult result" where
  "poll_result outcome final_state ids matched seen elapsed last_answer = ObservationPollResult_post_init
     \<lparr>por_outcome = outcome, por_final_state = final_state, por_sample_ids = ids, predicate_matched = matched,
      valid_evidence_seen = seen, deadline_elapsed = elapsed, last_response = last_answer\<rparr>"

definition invoke_with_deadline :: "MonotonicDeadline \<Rightarrow> PollRound \<Rightarrow> ObserverRequest \<Rightarrow> invocation poll" where
  "invoke_with_deadline deadline rd request =
     bind_poll (timed (\<lambda>c. remaining_ns deadline c (rd_invoke_reading rd))) (\<lambda>remaining w.
       if remaining = 0 then (Inr RunsOut, w)
       else (Inr (rd_invocation rd), w\<lparr>invoked := invoked w @ [request]\<rparr>))"

definition next_request :: "decimal_reader \<Rightarrow> ObservationPollPlan \<Rightarrow> MonotonicDeadline \<Rightarrow> PollRound \<Rightarrow> PollState \<Rightarrow> PollState poll" where
  "next_request decimal plan deadline rd st =
     bind_poll (lift_poll (retry_observe_request (ps_request st) (rd_fresh_sample rd))) (\<lambda>request.
     let next_sequence = ps_sequence st + 1 in
     bind_poll (timed (\<lambda>c. remaining_ns deadline c (rd_wait_reading rd))) (\<lambda>_.
     if rd_wait_cancelled rd then cancel_poll decimal plan (rd_cancel_commit rd) request next_sequence
     else return_poll (st\<lparr>ps_request := request, ps_sequence := next_sequence\<rparr>)))"

text \<open>The two ways a sample ends a round: it is terminal and the series returns, or the series goes on.\<close>

definition settle :: "decimal_reader \<Rightarrow> CommitInput \<Rightarrow> ObservationRecord \<Rightarrow> ObservationState \<Rightarrow> PollState \<Rightarrow>
    ObservationPollOutcome \<Rightarrow> bool \<Rightarrow> bool \<Rightarrow> bool \<Rightarrow> ObserverResponse option \<Rightarrow> (ObservationPollResult + PollState) poll" where
  "settle decimal ci r terminal st outcome matched seen elapsed last_answer =
     bind_poll (append_record decimal ci r (Some terminal)) (\<lambda>sample_id.
     bind_poll (lift_poll (poll_result outcome terminal (ps_sample_ids st @ [sample_id]) matched seen elapsed last_answer)) (\<lambda>result.
       return_poll (Inl result)))"

definition proceed :: "decimal_reader \<Rightarrow> ObservationPollPlan \<Rightarrow> MonotonicDeadline \<Rightarrow> PollRound \<Rightarrow> ObservationRecord \<Rightarrow> PollState \<Rightarrow>
    (ObservationPollResult + PollState) poll" where
  "proceed decimal plan deadline rd r st =
     bind_poll (append_record decimal (rd_commit rd) r None) (\<lambda>sample_id.
     bind_poll (next_request decimal plan deadline rd (st\<lparr>ps_sample_ids := ps_sample_ids st @ [sample_id]\<rparr>)) (\<lambda>st.
       return_poll (Inr st)))"

definition on_response :: "decimal_reader \<Rightarrow> ObservationPollPlan \<Rightarrow> (ObserverResponse \<Rightarrow> bool result) \<Rightarrow> CapabilityNegotiation \<Rightarrow>
    MonotonicDeadline \<Rightarrow> PollRound \<Rightarrow> PollState \<Rightarrow> ObserverResponse \<Rightarrow> (ObservationPollResult + PollState) poll" where
  "on_response decimal plan predicate negotiation deadline rd st response =
     (let ci = rd_commit rd;
          errored = (\<lambda>error_kind message. error_record plan ci (ps_request st) (ps_sequence st) error_kind message);
          answered = response_record plan ci (ps_request st) (ps_sequence st) response;
          heard = st\<lparr>ps_last_response := Some response\<rparr>;
          seen = st\<lparr>ps_last_response := Some response, ps_seen := True\<rparr>
      in if rs_capabilities response \<noteq> pp_capabilities plan then
           settle decimal ci (errored ''observer_protocol_error'' ''Observer capabilities changed during one polling series.'')
             ObservationState.ERROR st ObservationPollOutcome.ERROR False (ps_seen st) False (ps_last_response st)
         else case rs_status response of
           ObserverResponseStatus.OK \<Rightarrow>
             (case predicate response of
                Inl _ \<Rightarrow> settle decimal ci (errored ''predicate_error'' ''The typed polling predicate could not evaluate valid evidence.'')
                  ObservationState.ERROR seen ObservationPollOutcome.ERROR False True False (Some response)
              | Inr True \<Rightarrow> settle decimal ci answered ObservationState.OK seen MATCHED True True False (Some response)
              | Inr False \<Rightarrow>
                  (if \<not> automatic_reinvocation_safe (pp_capabilities plan) then
                     settle decimal ci answered ObservationState.OK seen MISMATCH False True False (Some response)
                   else proceed decimal plan deadline rd answered seen))
         | ObserverResponseStatus.PENDING \<Rightarrow>
             (if automatic_polling_allowed (pp_capabilities plan) negotiation then proceed decimal plan deadline rd answered heard
              else settle decimal ci answered ObservationState.PENDING heard ObservationPollOutcome.PENDING False (ps_seen st) False (Some response))
         | ObserverResponseStatus.UNSUPPORTED \<Rightarrow>
             settle decimal ci answered ObservationState.UNSUPPORTED heard ObservationPollOutcome.UNSUPPORTED False (ps_seen st) False (Some response)
         | ObserverResponseStatus.ERROR \<Rightarrow>
             (if automatic_retry_allowed (pp_capabilities plan) response then proceed decimal plan deadline rd answered heard
              else settle decimal ci answered ObservationState.ERROR heard ObservationPollOutcome.ERROR False (ps_seen st) False (Some response)))"

definition on_failure :: "decimal_reader \<Rightarrow> ObservationPollPlan \<Rightarrow> MonotonicDeadline \<Rightarrow> PollRound \<Rightarrow> PollState \<Rightarrow> (string \<times> bool) option \<Rightarrow>
    (ObservationPollResult + PollState) poll" where
  "on_failure decimal plan deadline rd st diagnostic =
     bind_poll (if (case diagnostic of Some (_, is_retryable) \<Rightarrow> is_retryable | None \<Rightarrow> False) \<and> automatic_reinvocation_safe (pp_capabilities plan)
         then bind_poll (timed (\<lambda>c. expired deadline c (rd_after_reading rd))) (\<lambda>late. return_poll (\<not> late))
         else return_poll False) (\<lambda>can_retry.
     let r = error_record plan (rd_commit rd) (ps_request st) (ps_sequence st)
           (case diagnostic of Some (error_kind, _) \<Rightarrow> error_kind | None \<Rightarrow> ''observer_protocol_error'')
           ''Observer invocation failed with a classified error.''
     in if can_retry then proceed decimal plan deadline rd r st
        else settle decimal (rd_commit rd) r ObservationState.ERROR st ObservationPollOutcome.ERROR False (ps_seen st) False (ps_last_response st))"

definition on_timeout :: "decimal_reader \<Rightarrow> ObservationPollPlan \<Rightarrow> MonotonicDeadline \<Rightarrow> PollRound \<Rightarrow> PollState \<Rightarrow>
    (ObservationPollResult + PollState) poll" where
  "on_timeout decimal plan deadline rd st =
     bind_poll (append_record decimal (rd_commit rd) (timeout_record plan (rd_commit rd) (ps_request st) (ps_sequence st) ''observer_timeout'')
       (Some ObservationState.TIMED_OUT)) (\<lambda>sample_id.
     bind_poll (timed (\<lambda>c. expired deadline c (rd_after_reading rd))) (\<lambda>elapsed.
     bind_poll (lift_poll (poll_result TIMED_OUT ObservationState.TIMED_OUT (ps_sample_ids st @ [sample_id]) False (ps_seen st) elapsed
       (ps_last_response st))) (\<lambda>result. return_poll (Inl result))))"

definition poll_round :: "decimal_reader \<Rightarrow> ObservationPollPlan \<Rightarrow> (ObserverResponse \<Rightarrow> bool result) \<Rightarrow> CapabilityNegotiation \<Rightarrow>
    MonotonicDeadline \<Rightarrow> PollRound \<Rightarrow> PollState \<Rightarrow> (ObservationPollResult + PollState) poll" where
  "poll_round decimal plan predicate negotiation deadline rd st =
     bind_poll (timed (\<lambda>c. expired deadline c (rd_head_reading rd))) (\<lambda>late.
     if late then
       settle decimal (rd_commit rd) (timeout_record plan (rd_commit rd) (ps_request st) (ps_sequence st) ''observer_deadline'')
         ObservationState.TIMED_OUT st TIMED_OUT False (ps_seen st) True (ps_last_response st)
     else
       bind_poll (invoke_with_deadline deadline rd (ps_request st)) (\<lambda>outcome.
       case outcome of
         IsCancelled \<Rightarrow> cancel_poll decimal plan (rd_commit rd) (ps_request st) (ps_sequence st)
       | RunsOut \<Rightarrow> on_timeout decimal plan deadline rd st
       | Fails diagnostic \<Rightarrow> on_failure decimal plan deadline rd st diagnostic
       | Responds response \<Rightarrow> on_response decimal plan predicate negotiation deadline rd st response))"

section \<open>The series\<close>

text \<open>The loop over the rounds that take place; \<open>None\<close> when they are used up and the series is still polling.\<close>

fun poll_loop :: "decimal_reader \<Rightarrow> ObservationPollPlan \<Rightarrow> (ObserverResponse \<Rightarrow> bool result) \<Rightarrow> CapabilityNegotiation \<Rightarrow>
    MonotonicDeadline \<Rightarrow> PollRound list \<Rightarrow> PollState \<Rightarrow> ObservationPollResult option poll" where
  "poll_loop decimal plan predicate negotiation deadline [] st = return_poll None"
| "poll_loop decimal plan predicate negotiation deadline (rd # rds) st =
     bind_poll (poll_round decimal plan predicate negotiation deadline rd st) (\<lambda>step.
     case step of Inl result \<Rightarrow> return_poll (Some result)
     | Inr st \<Rightarrow> poll_loop decimal plan predicate negotiation deadline rds st)"

record PollInput =
  pi_wall :: datetime
  pi_begin_reading :: int
  pi_begin_cancelled :: bool
  pi_deadline_reading :: int
  pi_commit :: CommitInput
  pi_rounds :: "PollRound list"

definition initial_state :: "ObservationPollPlan \<Rightarrow> PollState" where
  "initial_state plan = \<lparr>ps_request = pp_request plan, ps_sequence = 1, ps_sample_ids = [], ps_last_response = None, ps_seen = False\<rparr>"

text \<open>The series once its deadline is set: what the observer cannot serve is never asked.\<close>

definition poll_negotiated :: "decimal_reader \<Rightarrow> ObservationPollPlan \<Rightarrow> (ObserverResponse \<Rightarrow> bool result) \<Rightarrow> PollInput \<Rightarrow> MonotonicDeadline \<Rightarrow>
    ObservationPollResult option poll" where
  "poll_negotiated decimal plan predicate inp deadline =
     bind_poll (lift_poll (plan_negotiation plan)) (\<lambda>negotiation.
     if \<not> supported negotiation then
       bind_poll (settle decimal (pi_commit inp) (unsupported_record plan (pi_commit inp) (pp_request plan) 1)
         ObservationState.UNSUPPORTED (initial_state plan) ObservationPollOutcome.UNSUPPORTED False False False None) (\<lambda>step.
       return_poll (case step of Inl result \<Rightarrow> Some result | Inr _ \<Rightarrow> None))
     else poll_loop decimal plan predicate negotiation deadline (pi_rounds inp) (initial_state plan))"

definition poll :: "decimal_reader \<Rightarrow> ObservationPollPlan \<Rightarrow> (ObserverResponse \<Rightarrow> bool result) \<Rightarrow> PollInput \<Rightarrow>
    ObservationPollResult option poll" where
  "poll decimal plan predicate inp =
     bind_poll (timed (\<lambda>c. transition_timestamp c (pi_wall inp) (pi_begin_reading inp))) (\<lambda>ts.
     bind_poll (\<lambda>w. (Inr (), w\<lparr>begun := begun w @ [ts]\<rparr>)) (\<lambda>_.
     if pi_begin_cancelled inp then cancel_poll decimal plan (pi_commit inp) (pp_request plan) 1
     else bind_poll (timed (\<lambda>c. deadline_after c (within_ns plan) (pi_deadline_reading inp)))
       (poll_negotiated decimal plan predicate inp)))"

section \<open>Reasoning about the poller\<close>

text \<open>A step from a world ends in another world, with a value or a stop.\<close>

lemma bind_poll_cases:
  assumes "bind_poll m k w = (out, w')"
  obtains (stop) s where "m w = (Inl s, w')" "out = Inl s" | (go) x v where "m w = (Inr x, v)" "k x v = (out, w')"
  using assms by (cases "m w"; cases "fst (m w)") (auto simp: bind_poll_def)

lemma bind_poll_Inr: "bind_poll m k w = (Inr y, w') \<longleftrightarrow> (\<exists>x v. m w = (Inr x, v) \<and> k x v = (Inr y, w'))"
  by (auto simp: bind_poll_def split: prod.splits sum.splits)

lemma lift_poll_eq: "lift_poll m w = (out, w') \<longleftrightarrow> w' = w \<and> (case m of Inl e \<Rightarrow> out = Inl (Raised e) | Inr x \<Rightarrow> out = Inr x)"
  by (auto simp: lift_poll_def split: sum.splits)

definition untouched :: "PollWorld \<Rightarrow> PollWorld \<Rightarrow> bool" where
  "untouched w w' = (samples w' = samples w \<and> invoked w' = invoked w)"

lemma timed_untouched: "timed f w = (out, w') \<Longrightarrow> untouched w w' \<and> (\<forall>s. out = Inl s \<longrightarrow> (\<exists>e. s = Raised e))"
  by (auto simp: timed_def untouched_def split: sum.splits)

lemma timed_raises: "timed f w = (Inl s, w') \<Longrightarrow> \<exists>e. s = Raised e"
  using timed_untouched by blast

definition appended :: "PollWorld \<Rightarrow> ObservationRecord \<Rightarrow> ObservationState option \<Rightarrow> PollWorld \<Rightarrow> bool" where
  "appended w r terminal w' = (\<exists>c. samples w' = samples w @ [c] \<and> oc_record c = r \<and> oc_terminal_state c = terminal \<and> invoked w' = invoked w)"

lemma append_record_cases:
  assumes "append_record decimal ci r terminal w = (out, w')"
  shows "(\<exists>e. out = Inl (Raised e)) \<and> untouched w w' \<or>
    appended w r terminal w' \<and> (out = Inr (rec_sample_id r) \<or> out = Inl Cancelled \<and> terminal \<noteq> None)"
proof -
  have kept: "ObservationRecord_validate decimal r = Inr x \<Longrightarrow> x = r" for x
    by (auto simp: ObservationRecord_validate_def validate_record_shape_def and_then_eq_Inr split: if_splits)
  show ?thesis
    using assms unfolding append_record_def
  proof (cases rule: bind_poll_cases)
    case (stop s)
    then show ?thesis by (auto simp: lift_poll_eq untouched_def split: sum.splits)
  next
    case recorded: (go x v)
    then have x: "x = r" "v = w" using kept by (auto simp: lift_poll_eq split: sum.splits)
    from recorded(2) show ?thesis
    proof (cases rule: bind_poll_cases)
      case (stop s)
      then show ?thesis using timed_untouched[OF stop(1)] x by auto
    next
      case stamp: (go ts u)
      have same: "untouched w u" using timed_untouched[OF stamp(1)] x by simp
      from stamp(2) show ?thesis
      proof (cases rule: bind_poll_cases)
        case (stop s)
        then show ?thesis using same by (auto simp: lift_poll_eq split: sum.splits)
      next
        case (go c u')
        then have "u' = u" "c = \<lparr>oc_record = x, oc_timestamp = ts, oc_terminal_state = terminal\<rparr>"
          by (auto simp: lift_poll_eq ObservationSampleCommit_post_init_def and_then_eq_Inr split: sum.splits)
        then show ?thesis using go(2) x same by (auto simp: appended_def untouched_def split: if_splits)
      qed
    qed
  qed
qed

section \<open>The account of a series\<close>

definition numbered :: "PollWorld \<Rightarrow> bool" where
  "numbered w = (map (\<lambda>c. rec_sample_sequence (oc_record c)) (samples w) = map int [1..<Suc (length (samples w))])"

definition public :: "PollWorld \<Rightarrow> bool" where
  "public w = (\<forall>c \<in> set (samples w). \<forall>e \<in> set (rec_evidence (oc_record c)). \<not> sensitive e)"

definition cautious :: "ObservationPollPlan \<Rightarrow> PollWorld \<Rightarrow> bool" where
  "cautious plan w = (length (invoked w) \<le> 1 \<or> automatic_reinvocation_safe (pp_capabilities plan))"

definition sample_ids :: "PollWorld \<Rightarrow> string list" where
  "sample_ids w = map (\<lambda>c. rec_sample_id (oc_record c)) (samples w)"

definition running :: "ObservationPollPlan \<Rightarrow> PollState \<Rightarrow> PollWorld \<Rightarrow> bool" where
  "running plan st w = (numbered w \<and> public w \<and> (\<forall>c \<in> set (samples w). oc_terminal_state c = None) \<and>
     ps_sample_ids st = sample_ids w \<and> ps_sequence st = int (length (samples w)) + 1 \<and>
     (invoked w = [] \<or> automatic_reinvocation_safe (pp_capabilities plan)))"

definition sound :: "ObservationPollPlan \<Rightarrow> PollWorld \<Rightarrow> bool" where
  "sound plan w = (numbered w \<and> public w \<and> cautious plan w \<and> (\<forall>c \<in> set (butlast (samples w)). oc_terminal_state c = None))"

definition accounted :: "PollWorld \<Rightarrow> ObservationState \<Rightarrow> string list \<Rightarrow> bool" where
  "accounted w final ids = (samples w \<noteq> [] \<and> oc_terminal_state (last (samples w)) = Some final \<and> ids = sample_ids w)"

text \<open>What a round may leave: a stop after a sound world, a result that accounts for every sample, or a running series.\<close>

definition left_by :: "ObservationPollPlan \<Rightarrow> stop + (ObservationPollResult + PollState) \<Rightarrow> PollWorld \<Rightarrow> bool" where
  "left_by plan out w = (sound plan w \<and> (case out of
       Inl _ \<Rightarrow> True
     | Inr (Inl r) \<Rightarrow> accounted w (por_final_state r) (por_sample_ids r)
     | Inr (Inr st) \<Rightarrow> running plan st w))"

text \<open>In the middle of a round the observer may have been invoked once more.\<close>

definition amid :: "ObservationPollPlan \<Rightarrow> PollState \<Rightarrow> PollWorld \<Rightarrow> bool" where
  "amid plan st w = (numbered w \<and> public w \<and> (\<forall>c \<in> set (samples w). oc_terminal_state c = None) \<and>
     ps_sample_ids st = sample_ids w \<and> ps_sequence st = int (length (samples w)) + 1 \<and> cautious plan w)"

lemma running_amid: "running plan st w \<Longrightarrow> amid plan st w"
  by (auto simp: running_def amid_def cautious_def)

lemma amid_untouched: "amid plan st w \<Longrightarrow> untouched w w' \<Longrightarrow> amid plan st w'"
  by (simp add: amid_def untouched_def numbered_def public_def cautious_def sample_ids_def)

lemma running_untouched: "running plan st w \<Longrightarrow> untouched w w' \<Longrightarrow> running plan st w'"
  by (simp add: running_def untouched_def numbered_def public_def sample_ids_def)

lemma amid_sound: "amid plan st w \<Longrightarrow> sound plan w"
  by (auto simp: amid_def sound_def dest: in_set_butlastD)

lemma amid_keep:
  "amid plan st w \<Longrightarrow> ps_sample_ids st' = ps_sample_ids st \<Longrightarrow> ps_sequence st' = ps_sequence st \<Longrightarrow> amid plan st' w"
  by (simp add: amid_def)

lemma appended_sound:
  assumes "amid plan st w" "appended w r terminal w'" "rec_sample_sequence r = ps_sequence st" "\<forall>e \<in> set (rec_evidence r). \<not> sensitive e"
  shows "sound plan w'" "terminal = Some s \<Longrightarrow> accounted w' s (ps_sample_ids st @ [rec_sample_id r])"
    "terminal = None \<Longrightarrow> automatic_reinvocation_safe (pp_capabilities plan) \<Longrightarrow>
      running plan (st\<lparr>ps_sample_ids := ps_sample_ids st @ [rec_sample_id r], ps_sequence := ps_sequence st + 1\<rparr>) w'"
    "terminal = None \<Longrightarrow> numbered w' \<and> public w' \<and> (\<forall>c \<in> set (samples w'). oc_terminal_state c = None) \<and> cautious plan w' \<and>
      sample_ids w' = ps_sample_ids st @ [rec_sample_id r] \<and> int (length (samples w')) = ps_sequence st"
proof -
  obtain c where c: "samples w' = samples w @ [c]" "oc_record c = r" "oc_terminal_state c = terminal" "invoked w' = invoked w"
    using assms(2) by (auto simp: appended_def)
  have facts: "numbered w'" "public w'" "cautious plan w'" "sample_ids w' = ps_sample_ids st @ [rec_sample_id r]"
    "int (length (samples w')) = ps_sequence st"
    using assms(1,3,4) by (auto simp: amid_def numbered_def public_def cautious_def sample_ids_def c)
  show "sound plan w'" using facts assms(1) by (simp add: sound_def c amid_def)
  show "accounted w' s (ps_sample_ids st @ [rec_sample_id r])" if "terminal = Some s" using facts(4) by (simp add: accounted_def c that)
  show "numbered w' \<and> public w' \<and> (\<forall>c \<in> set (samples w'). oc_terminal_state c = None) \<and> cautious plan w' \<and>
      sample_ids w' = ps_sample_ids st @ [rec_sample_id r] \<and> int (length (samples w')) = ps_sequence st" if "terminal = None"
    using facts assms(1) that by (auto simp: c amid_def)
  then show "running plan (st\<lparr>ps_sample_ids := ps_sample_ids st @ [rec_sample_id r], ps_sequence := ps_sequence st + 1\<rparr>) w'"
    if "terminal = None" "automatic_reinvocation_safe (pp_capabilities plan)"
    using that by (auto simp: running_def)
qed

section \<open>Every round keeps the account\<close>

lemma record_facts:
  "rec_sample_sequence (response_record plan ci q n resp) = n" "\<forall>e \<in> set (rec_evidence (response_record plan ci q n resp)). \<not> sensitive e"
  "rec_sample_sequence (unsupported_record plan ci q n) = n" "rec_evidence (unsupported_record plan ci q n) = []"
  "rec_sample_sequence (error_record plan ci q n k m) = n" "rec_evidence (error_record plan ci q n k m) = []"
  "rec_sample_sequence (timeout_record plan ci q n k) = n" "rec_evidence (timeout_record plan ci q n k) = []"
  by (simp_all add: response_record_def unsupported_record_def error_record_def timeout_record_def base_record_def Let_def)

lemma cancel_left:
  assumes "cancel_poll decimal plan ci q n w = (out, w')" "amid plan st w" "n = ps_sequence st"
  shows "sound plan w' \<and> (\<exists>s. out = Inl s)"
  using assms(1) unfolding cancel_poll_def
proof (cases rule: bind_poll_cases)
  case (stop s)
  then show ?thesis
    using append_record_cases[OF stop(1)] amid_sound amid_untouched[OF assms(2)] appended_sound(1)[OF assms(2)] assms(3)
    by (auto simp: record_facts)
next
  case (go x v)
  then show ?thesis
    using append_record_cases[OF go(1)] appended_sound(1)[OF assms(2)] assms(3) by (auto simp: record_facts)
qed

lemma settle_left:
  assumes "settle decimal ci r terminal st outcome matched seen elapsed answer w = (out, w')" "amid plan st w"
    "rec_sample_sequence r = ps_sequence st" "\<forall>e \<in> set (rec_evidence r). \<not> sensitive e"
  shows "left_by plan out w'"
  using assms(1) unfolding settle_def
proof (cases rule: bind_poll_cases)
  case (stop s)
  then show ?thesis
    using append_record_cases[OF stop(1)] amid_sound amid_untouched[OF assms(2)] appended_sound(1)[OF assms(2) _ assms(3,4)]
    by (auto simp: left_by_def)
next
  case (go x v)
  then have v: "appended w r (Some terminal) v" "x = rec_sample_id r" using append_record_cases[OF go(1)] by auto
  note account = appended_sound(1,2)[OF assms(2) v(1) assms(3,4)]
  from go(2) show ?thesis
  proof (cases rule: bind_poll_cases)
    case stop
    then show ?thesis using account by (auto simp: lift_poll_eq left_by_def split: sum.splits)
  next
    case (go y u)
    then show ?thesis using account v(2)
      by (auto simp: lift_poll_eq left_by_def return_poll_def poll_result_def ObservationPollResult_post_init_def and_then_eq_Inr
          split: sum.splits)
  qed
qed

lemma next_request_left:
  assumes "next_request decimal plan deadline rd st w = (out, w')"
    and "numbered w" "public w" "\<forall>c \<in> set (samples w). oc_terminal_state c = None" "cautious plan w"
    and "ps_sample_ids st = sample_ids w" "ps_sequence st = int (length (samples w))"
    and safe: "automatic_reinvocation_safe (pp_capabilities plan)"
  shows "left_by plan (map_sum id Inr out) w' \<and> (\<forall>st'. out = Inr st' \<longrightarrow> ps_seen st' = ps_seen st \<and>
    ps_last_response st' = ps_last_response st)"
proof -
  have amid: "amid plan (st\<lparr>ps_request := q, ps_sequence := ps_sequence st + 1\<rparr>) w" for q using assms(2-7) by (simp add: amid_def)
  have running: "running plan (st\<lparr>ps_request := q, ps_sequence := ps_sequence st + 1\<rparr>) w" for q using assms(2-8) by (simp add: running_def)
  show ?thesis
    using assms(1) unfolding next_request_def
  proof (cases rule: bind_poll_cases)
    case (stop s)
    then show ?thesis using amid_sound[OF amid] by (auto simp: lift_poll_eq left_by_def split: sum.splits)
  next
    case request: (go q v)
    then have "v = w" by (simp add: lift_poll_eq)
    with request(2) have "bind_poll (timed (\<lambda>c. remaining_ns deadline c (rd_wait_reading rd))) (\<lambda>_.
       if rd_wait_cancelled rd then cancel_poll decimal plan (rd_cancel_commit rd) q (ps_sequence st + 1)
       else return_poll (st\<lparr>ps_request := q, ps_sequence := ps_sequence st + 1\<rparr>)) w = (out, w')"
      by (simp add: Let_def)
    then show ?thesis
    proof (cases rule: bind_poll_cases)
      case (stop s)
      then show ?thesis
        using amid_sound[OF amid_untouched[OF amid]] timed_untouched[OF stop(1)] by (auto simp: left_by_def)
    next
      case (go x u)
      have u: "untouched w u" using timed_untouched[OF go(1)] by simp
      show ?thesis
      proof (cases "rd_wait_cancelled rd")
        case True
        then have "cancel_poll decimal plan (rd_cancel_commit rd) q (ps_sequence st + 1) u = (out, w')" using go(2) by simp
        from cancel_left[OF this amid_untouched[OF amid u]] show ?thesis by (auto simp: left_by_def)
      next
        case False
        then show ?thesis
          using go(2) running_untouched[OF running u] amid_sound[OF running_amid[OF running_untouched[OF running u]]]
          by (auto simp: return_poll_def left_by_def)
      qed
    qed
  qed
qed

lemma proceed_left:
  assumes "proceed decimal plan deadline rd r st w = (out, w')" "amid plan st w"
    "rec_sample_sequence r = ps_sequence st" "\<forall>e \<in> set (rec_evidence r). \<not> sensitive e"
    "automatic_reinvocation_safe (pp_capabilities plan)"
  shows "left_by plan out w' \<and> (\<forall>st'. out = Inr (Inr st') \<longrightarrow> ps_seen st' = ps_seen st \<and> ps_last_response st' = ps_last_response st) \<and>
    (\<forall>result. out \<noteq> Inr (Inl result))"
  using assms(1) unfolding proceed_def
proof (cases rule: bind_poll_cases)
  case (stop s)
  then show ?thesis
    using append_record_cases[OF stop(1)] amid_sound amid_untouched[OF assms(2)] appended_sound(1)[OF assms(2) _ assms(3,4)]
    by (auto simp: left_by_def)
next
  case (go x v)
  then have v: "appended w r None v" "x = rec_sample_id r" using append_record_cases[OF go(1)] by auto
  have account: "numbered v" "public v" "\<forall>c \<in> set (samples v). oc_terminal_state c = None" "cautious plan v"
    "sample_ids v = ps_sample_ids st @ [rec_sample_id r]" "int (length (samples v)) = ps_sequence st"
    using appended_sound(4)[OF assms(2) v(1) assms(3,4)] by simp_all
  from go(2) show ?thesis
  proof (cases rule: bind_poll_cases)
    case (stop s)
    then show ?thesis using next_request_left[OF stop(1)] account v(2) assms(5) by auto
  next
    case next_state: (go st' u)
    show ?thesis using next_request_left[OF next_state(1)] next_state(2) account v(2) assms(5) by (auto simp: return_poll_def)
  qed
qed

section \<open>Results are honest\<close>

definition remembers :: "(ObserverResponse \<Rightarrow> bool result) \<Rightarrow> ObserverResponse option \<Rightarrow> bool" where
  "remembers predicate answer = (\<forall>resp. answer = Some resp \<longrightarrow> rs_status resp = ObserverResponseStatus.OK \<longrightarrow> predicate resp = Inr False)"

definition decided :: "(ObserverResponse \<Rightarrow> bool result) \<Rightarrow> bool \<Rightarrow> ObserverResponse option \<Rightarrow> bool" where
  "decided predicate b answer = (\<exists>resp. answer = Some resp \<and> rs_status resp = ObserverResponseStatus.OK \<and> predicate resp = Inr b)"

definition honest :: "(ObserverResponse \<Rightarrow> bool result) \<Rightarrow> ObservationPollResult \<Rightarrow> bool" where
  "honest predicate r = (case por_outcome r of
       MATCHED \<Rightarrow> por_final_state r = ObservationState.OK \<and> predicate_matched r \<and> valid_evidence_seen r \<and> decided predicate True (last_response r)
     | MISMATCH \<Rightarrow> por_final_state r = ObservationState.OK \<and> \<not> predicate_matched r \<and> valid_evidence_seen r \<and> decided predicate False (last_response r)
     | ObservationPollOutcome.PENDING \<Rightarrow> por_final_state r = ObservationState.PENDING \<and> \<not> predicate_matched r
     | ObservationPollOutcome.UNSUPPORTED \<Rightarrow> por_final_state r = ObservationState.UNSUPPORTED \<and> \<not> predicate_matched r
     | ObservationPollOutcome.ERROR \<Rightarrow> por_final_state r = ObservationState.ERROR \<and> \<not> predicate_matched r \<and> \<not> decided predicate True (last_response r)
     | TIMED_OUT \<Rightarrow> por_final_state r = ObservationState.TIMED_OUT \<and> \<not> predicate_matched r \<and> remembers predicate (last_response r))"

lemma remembers_decided: "remembers predicate answer \<Longrightarrow> \<not> decided predicate True answer"
  by (auto simp: remembers_def decided_def)

definition concludes :: "(ObserverResponse \<Rightarrow> bool result) \<Rightarrow> stop + (ObservationPollResult + PollState) \<Rightarrow> bool" where
  "concludes predicate out = (case out of
       Inl _ \<Rightarrow> True | Inr (Inl r) \<Rightarrow> honest predicate r | Inr (Inr st) \<Rightarrow> remembers predicate (ps_last_response st))"

lemma settle_concludes:
  assumes "settle decimal ci r terminal st outcome matched seen elapsed answer w = (out, w')"
    and "\<And>ids. honest predicate \<lparr>por_outcome = outcome, por_final_state = terminal, por_sample_ids = ids, predicate_matched = matched,
      valid_evidence_seen = seen, deadline_elapsed = elapsed, last_response = answer\<rparr>"
  shows "concludes predicate out"
  using assms
  by (auto simp: settle_def bind_poll_def return_poll_def lift_poll_def poll_result_def ObservationPollResult_post_init_def concludes_def
      and_then_eq_Inr raise_unless_def split: prod.splits sum.splits if_splits)

lemma settle_ends:
  assumes "settle decimal ci r terminal st outcome matched seen elapsed answer w = (out, w')" "amid plan st w"
    "rec_sample_sequence r = ps_sequence st" "\<forall>e \<in> set (rec_evidence r). \<not> sensitive e"
    and "\<And>ids. honest predicate \<lparr>por_outcome = outcome, por_final_state = terminal, por_sample_ids = ids, predicate_matched = matched,
      valid_evidence_seen = seen, deadline_elapsed = elapsed, last_response = answer\<rparr>"
  shows "left_by plan out w' \<and> concludes predicate out"
  using settle_left[OF assms(1-4)] settle_concludes[OF assms(1,5)] by blast

lemma proceed_concludes:
  assumes "left_by plan out w' \<and> (\<forall>st'. out = Inr (Inr st') \<longrightarrow> ps_seen st' = ps_seen st \<and> ps_last_response st' = ps_last_response st) \<and>
    (\<forall>result. out \<noteq> Inr (Inl result))" "remembers predicate (ps_last_response st)"
  shows "left_by plan out w' \<and> concludes predicate out"
  using assms by (auto simp: concludes_def split: sum.splits)

lemma on_response_left:
  assumes "on_response decimal plan predicate negotiation deadline rd st response w = (out, w')" "amid plan st w"
    "remembers predicate (ps_last_response st)"
  shows "left_by plan out w' \<and> concludes predicate out"
proof -
  let ?heard = "st\<lparr>ps_last_response := Some response\<rparr>" let ?seen = "st\<lparr>ps_last_response := Some response, ps_seen := True\<rparr>"
  have heard: "amid plan ?heard w" "amid plan ?seen w" using assms(2) by (simp_all add: amid_def)
  have sequences: "ps_sequence ?heard = ps_sequence st" "ps_sequence ?seen = ps_sequence st" by simp_all
  note facts = record_facts[of plan "rd_commit rd" "ps_request st" "ps_sequence st"]
  consider (changed) "rs_capabilities response \<noteq> pp_capabilities plan" |
    (ok) "rs_capabilities response = pp_capabilities plan" "rs_status response = ObserverResponseStatus.OK" |
    (pending) "rs_capabilities response = pp_capabilities plan" "rs_status response = ObserverResponseStatus.PENDING" |
    (unsupported) "rs_capabilities response = pp_capabilities plan" "rs_status response = ObserverResponseStatus.UNSUPPORTED" |
    (failed) "rs_capabilities response = pp_capabilities plan" "rs_status response = ObserverResponseStatus.ERROR"
    by (cases "rs_status response") auto
  then show ?thesis
  proof cases
    case changed
    then show ?thesis
      using assms(1) settle_ends[OF _ assms(2), where predicate = predicate] remembers_decided[OF assms(3)]
      unfolding on_response_def Let_def by (auto simp: facts honest_def)
  next
    case ok
    show ?thesis
    proof (cases "predicate response")
      case (Inl e)
      then show ?thesis
        using ok assms(1) settle_ends[OF _ heard(2), where predicate = predicate]
        unfolding on_response_def Let_def by (auto simp: facts honest_def decided_def)
    next
      case (Inr b)
      show ?thesis
      proof (cases b)
        case True
        then show ?thesis
          using ok Inr assms(1) settle_ends[OF _ heard(2), where predicate = predicate]
          unfolding on_response_def Let_def by (auto simp: facts honest_def decided_def)
      next
        case False
        have kept: "remembers predicate (ps_last_response ?seen)" using Inr False by (simp add: remembers_def)
        show ?thesis
        proof (cases "automatic_reinvocation_safe (pp_capabilities plan)")
          case safe: True
          then have "proceed decimal plan deadline rd (response_record plan (rd_commit rd) (ps_request st) (ps_sequence st) response) ?seen w = (out, w')"
            using assms(1) ok Inr False by (simp add: on_response_def Let_def)
          from proceed_left[OF this heard(2)] safe show ?thesis using proceed_concludes[OF _ kept] by (auto simp: facts)
        next
          case unsafe: False
          then show ?thesis
            using ok Inr False assms(1) settle_ends[OF _ heard(2), where predicate = predicate]
            unfolding on_response_def Let_def by (auto simp: facts honest_def decided_def)
        qed
      qed
    qed
  next
    case pending
    have kept: "remembers predicate (ps_last_response ?heard)" using pending by (simp add: remembers_def)
    show ?thesis
    proof (cases "automatic_polling_allowed (pp_capabilities plan) negotiation")
      case True
      then have "proceed decimal plan deadline rd (response_record plan (rd_commit rd) (ps_request st) (ps_sequence st) response) ?heard w = (out, w')"
        using assms(1) pending by (simp add: on_response_def Let_def)
      from proceed_left[OF this heard(1)] True show ?thesis
        using proceed_concludes[OF _ kept] by (auto simp: facts automatic_polling_allowed_def)
    next
      case False
      then show ?thesis
        using pending assms(1) settle_ends[OF _ heard(1), where predicate = predicate]
        unfolding on_response_def Let_def by (auto simp: facts honest_def)
    qed
  next
    case unsupported
    then show ?thesis
      using assms(1) settle_ends[OF _ heard(1), where predicate = predicate]
      unfolding on_response_def Let_def by (auto simp: facts honest_def)
  next
    case failed
    have kept: "remembers predicate (ps_last_response ?heard)" using failed by (simp add: remembers_def)
    show ?thesis
    proof (cases "automatic_retry_allowed (pp_capabilities plan) response")
      case True
      then have "proceed decimal plan deadline rd (response_record plan (rd_commit rd) (ps_request st) (ps_sequence st) response) ?heard w = (out, w')"
        using assms(1) failed by (simp add: on_response_def Let_def)
      from proceed_left[OF this heard(1)] True show ?thesis
        using proceed_concludes[OF _ kept] by (auto simp: facts automatic_retry_allowed_def)
    next
      case False
      then show ?thesis
        using failed assms(1) settle_ends[OF _ heard(1), where predicate = predicate]
        unfolding on_response_def Let_def by (auto simp: facts honest_def decided_def)
    qed
  qed
qed

lemma on_failure_left:
  assumes "on_failure decimal plan deadline rd st diagnostic w = (out, w')" "amid plan st w" "remembers predicate (ps_last_response st)"
  shows "left_by plan out w' \<and> concludes predicate out"
proof -
  let ?r = "error_record plan (rd_commit rd) (ps_request st) (ps_sequence st)
      (case diagnostic of Some (error_kind, _) \<Rightarrow> error_kind | None \<Rightarrow> ''observer_protocol_error'')
      ''Observer invocation failed with a classified error.''"
  note facts = record_facts(5,6)[of plan "rd_commit rd" "ps_request st" "ps_sequence st"]
  have rest: "left_by plan out w' \<and> concludes predicate out"
    if step: "(if can_retry then proceed decimal plan deadline rd ?r st
        else settle decimal (rd_commit rd) ?r ObservationState.ERROR st ObservationPollOutcome.ERROR False (ps_seen st) False (ps_last_response st)) v = (out, w')"
      and v: "amid plan st v" and safe: "can_retry \<Longrightarrow> automatic_reinvocation_safe (pp_capabilities plan)" for v can_retry
  proof (cases can_retry)
    case True
    then show ?thesis using step safe proceed_left[OF _ v, of decimal deadline rd ?r out w'] proceed_concludes[OF _ assms(3)] by (simp add: facts)
  next
    case False
    then show ?thesis
      using step settle_ends[OF _ v, where predicate = predicate] remembers_decided[OF assms(3)]
      by (auto simp: facts honest_def)
  qed
  show ?thesis
    using assms(1) unfolding on_failure_def
  proof (cases rule: bind_poll_cases)
    case (stop s)
    then have "untouched w w'"
      by (auto simp: return_poll_def dest: timed_untouched elim!: bind_poll_cases split: if_splits)
    then show ?thesis using stop amid_sound[OF amid_untouched[OF assms(2)]] by (simp add: left_by_def concludes_def)
  next
    case (go can_retry v)
    have "untouched w v" "can_retry \<Longrightarrow> automatic_reinvocation_safe (pp_capabilities plan)"
      using go(1) by (auto simp: return_poll_def untouched_def dest!: timed_untouched elim!: bind_poll_cases split: if_splits)
    then show ?thesis using rest[OF go(2)[unfolded Let_def] amid_untouched[OF assms(2)]] by blast
  qed
qed

lemma on_timeout_left:
  assumes "on_timeout decimal plan deadline rd st w = (out, w')" "amid plan st w" "remembers predicate (ps_last_response st)"
  shows "left_by plan out w' \<and> concludes predicate out"
  using assms(1) unfolding on_timeout_def
proof (cases rule: bind_poll_cases)
  case (stop s)
  then show ?thesis
    using append_record_cases[OF stop(1)] amid_sound amid_untouched[OF assms(2)] appended_sound(1)[OF assms(2)]
    by (auto simp: left_by_def concludes_def record_facts)
next
  case appending: (go x v)
  let ?r = "timeout_record plan (rd_commit rd) (ps_request st) (ps_sequence st) ''observer_timeout''"
  have v: "appended w ?r (Some ObservationState.TIMED_OUT) v" "x = rec_sample_id ?r" using append_record_cases[OF appending(1)] by auto
  have account: "sound plan u" "accounted u ObservationState.TIMED_OUT (ps_sample_ids st @ [x])" if "untouched v u" for u
    using appended_sound(1,2)[OF assms(2) v(1)] v(2) that
    by (simp_all add: record_facts untouched_def sound_def accounted_def numbered_def public_def cautious_def sample_ids_def)
  from appending(2) show ?thesis
  proof (cases rule: bind_poll_cases)
    case (stop s)
    then show ?thesis using account timed_untouched[OF stop(1)] by (simp add: left_by_def concludes_def)
  next
    case (go elapsed u)
    then show ?thesis
      using account[of u] timed_untouched[OF go(1)] assms(3)
      by (auto simp: bind_poll_def lift_poll_def poll_result_def ObservationPollResult_post_init_def return_poll_def left_by_def concludes_def
          honest_def raise_unless_def split: sum.splits)
  qed
qed

lemma poll_round_left:
  assumes "poll_round decimal plan predicate negotiation deadline rd st w = (out, w')" "running plan st w"
    "remembers predicate (ps_last_response st)"
  shows "left_by plan out w' \<and> concludes predicate out"
  using assms(1) unfolding poll_round_def
proof (cases rule: bind_poll_cases)
  case (stop s)
  then show ?thesis
    using amid_sound[OF amid_untouched[OF running_amid[OF assms(2)]]] timed_untouched[OF stop(1)] by (simp add: left_by_def concludes_def)
next
  case heading: (go late v)
  have v: "running plan st v" using running_untouched[OF assms(2)] timed_untouched[OF heading(1)] by simp
  show ?thesis
  proof (cases late)
    case True
    then show ?thesis
      using heading(2) settle_ends[OF _ running_amid[OF v], where predicate = predicate] assms(3)
      by (auto simp: record_facts honest_def)
  next
    case False
    with heading(2) have step: "bind_poll (invoke_with_deadline deadline rd (ps_request st)) (\<lambda>outcome.
       case outcome of
         IsCancelled \<Rightarrow> cancel_poll decimal plan (rd_commit rd) (ps_request st) (ps_sequence st)
       | RunsOut \<Rightarrow> on_timeout decimal plan deadline rd st
       | Fails diagnostic \<Rightarrow> on_failure decimal plan deadline rd st diagnostic
       | Responds response \<Rightarrow> on_response decimal plan predicate negotiation deadline rd st response) v = (out, w')" by simp
    have invoked: "amid plan st u" if "invoke_with_deadline deadline rd (ps_request st) v = (o', u)" for o' u
      using that unfolding invoke_with_deadline_def
    proof (cases rule: bind_poll_cases)
      case (stop s)
      then show ?thesis using amid_untouched[OF running_amid[OF v]] timed_untouched[OF stop(1)] by simp
    next
      case (go remaining t)
      then have "running plan st t" using running_untouched[OF v] timed_untouched[OF go(1)] by simp
      then show ?thesis using go(2)
        by (auto simp: running_def amid_def cautious_def numbered_def public_def sample_ids_def split: if_splits)
    qed
    from step show ?thesis
    proof (cases rule: bind_poll_cases)
      case (stop s)
      then show ?thesis using amid_sound[OF invoked[OF stop(1)]] by (simp add: left_by_def concludes_def)
    next
      case (go o' u)
      note u = invoked[OF go(1)]
      show ?thesis
      proof (cases o')
        case IsCancelled
        then have "cancel_poll decimal plan (rd_commit rd) (ps_request st) (ps_sequence st) u = (out, w')" using go(2) by simp
        from cancel_left[OF this u] show ?thesis by (auto simp: left_by_def concludes_def)
      qed (use go(2) on_response_left[OF _ u assms(3)] on_failure_left[OF _ u assms(3)] on_timeout_left[OF _ u assms(3)] in auto)
    qed
  qed
qed

text \<open>What a whole series leaves: every sample in the journal is numbered in order from one, only the last may be terminal,
  none has sensitive evidence, and an observer that is not read-only and idempotent has been invoked at most once; a
  result names every sample and its last one carries the result's state.\<close>

definition series :: "ObservationPollPlan \<Rightarrow> (ObserverResponse \<Rightarrow> bool result) \<Rightarrow> stop + ObservationPollResult option \<Rightarrow> PollWorld \<Rightarrow> bool" where
  "series plan predicate out w = (sound plan w \<and> (case out of
       Inr (Some r) \<Rightarrow> accounted w (por_final_state r) (por_sample_ids r) \<and> honest predicate r
     | _ \<Rightarrow> True))"

lemma poll_loop_left:
  "poll_loop decimal plan predicate negotiation deadline rds st w = (out, w') \<Longrightarrow> running plan st w \<Longrightarrow>
     remembers predicate (ps_last_response st) \<Longrightarrow> series plan predicate out w'"
proof (induction rds arbitrary: st w)
  case Nil
  then show ?case by (auto simp: return_poll_def series_def intro: amid_sound running_amid)
next
  case (Cons rd rds)
  from Cons.prems(1)[unfolded poll_loop.simps] show ?case
  proof (cases rule: bind_poll_cases)
    case (stop s)
    then show ?thesis using poll_round_left[OF stop(1) Cons.prems(2,3)] by (simp add: left_by_def series_def)
  next
    case (go step v)
    note left = poll_round_left[OF go(1) Cons.prems(2,3)]
    show ?thesis
    proof (cases step)
      case (Inl r)
      then show ?thesis using go(2) left by (auto simp: left_by_def concludes_def series_def return_poll_def)
    next
      case (Inr st')
      then show ?thesis using Cons.IH[of st' v] go(2) left by (simp add: left_by_def concludes_def)
    qed
  qed
qed

lemma untouched_trans: "untouched u v \<Longrightarrow> untouched v w \<Longrightarrow> untouched u w"
  by (simp add: untouched_def)

lemma initial_facts:
  assumes "samples w = []" "invoked w = []"
  shows "running plan (initial_state plan) w" "amid plan (initial_state plan) w" "sound plan w"
    "remembers predicate (ps_last_response (initial_state plan))" "ps_sequence (initial_state plan) = 1"
proof -
  show "running plan (initial_state plan) w"
    using assms by (simp add: running_def initial_state_def numbered_def public_def sample_ids_def)
  then show "amid plan (initial_state plan) w" by (rule running_amid)
  then show "sound plan w" by (rule amid_sound)
qed (simp_all add: initial_state_def remembers_def)

lemma poll_negotiated_left:
  assumes "samples w = []" "invoked w = []" "poll_negotiated decimal plan predicate inp deadline w = (out, w')"
  shows "series plan predicate out w'"
proof -
  note start = initial_facts[OF assms(1,2)]
  from assms(3)[unfolded poll_negotiated_def] show ?thesis
  proof (cases rule: bind_poll_cases)
    case (stop s)
    then show ?thesis using start(3) by (auto simp: series_def lift_poll_eq)
  next
    case (go negotiation t)
    then have t: "t = w" by (simp add: lift_poll_eq)
    show ?thesis
    proof (cases "supported negotiation")
      case True
      then show ?thesis using go(2) t poll_loop_left[OF _ start(1,4)] by simp
    next
      case False
      from go(2)[unfolded if_P[OF False] t] show ?thesis
      proof (cases rule: bind_poll_cases)
        case (stop s)
        then show ?thesis using settle_left[OF stop(1) start(2)] start(5) by (simp add: record_facts left_by_def series_def)
      next
        case settling: (go step u)
        have "left_by plan (Inr step) u" "concludes predicate (Inr step)"
          using settle_left[OF settling(1) start(2)] settle_concludes[OF settling(1), of predicate] start(5)
          by (simp_all add: record_facts honest_def)
        then show ?thesis using settling(2) by (auto simp: return_poll_def series_def left_by_def concludes_def split: sum.splits)
      qed
    qed
  qed
qed

lemma poll_series:
  assumes "samples w = []" "invoked w = []" "poll decimal plan predicate inp w = (out, w')"
  shows "series plan predicate out w'"
proof -
  have kept: "samples u = []" "invoked u = []" if "untouched w u" for u using that assms(1,2) by (simp_all add: untouched_def)
  from assms(3)[unfolded poll_def] show ?thesis
  proof (cases rule: bind_poll_cases)
    case (stop s)
    then show ?thesis using initial_facts(3)[OF kept] timed_untouched[OF stop(1)] by (simp add: series_def)
  next
    case stamped: (go ts v)
    from stamped(2) show ?thesis
    proof (cases rule: bind_poll_cases)
      case began: (go x u)
      have u: "untouched w u" using began(1) timed_untouched[OF stamped(1)] by (auto simp: untouched_def)
      show ?thesis
      proof (cases "pi_begin_cancelled inp")
        case True
        then have "cancel_poll decimal plan (pi_commit inp) (pp_request plan) 1 u = (out, w')" using began(2) by simp
        from cancel_left[OF this initial_facts(2)[OF kept[OF u]]] show ?thesis by (auto simp: series_def initial_state_def)
      next
        case False
        from began(2)[unfolded if_not_P[OF False]] show ?thesis
        proof (cases rule: bind_poll_cases)
          case (stop s)
          then show ?thesis
            using initial_facts(3)[OF kept[OF untouched_trans[OF u]]] timed_untouched[OF stop(1)] by (simp add: series_def)
        next
          case (go deadline t)
          then show ?thesis
            using poll_negotiated_left[OF kept[OF untouched_trans[OF u]] go(2)] timed_untouched[OF go(1)] by simp
        qed
      qed
    qed simp
  qed
qed


section \<open>A series ends\<close>

text \<open>The clock never runs backwards in a series.\<close>

definition advances :: "'a poll \<Rightarrow> bool" where
  "advances m = (\<forall>w out w'. m w = (out, w') \<longrightarrow> last_monotonic_ns (clock w) \<le> last_monotonic_ns (clock w'))"

lemma advances_bind: "advances m \<Longrightarrow> (\<And>x. advances (k x)) \<Longrightarrow> advances (bind_poll m k)"
proof -
  assume m: "advances m" and k: "\<And>x. advances (k x)"
  show ?thesis
    unfolding advances_def
  proof (intro allI impI)
    fix w out w' assume "bind_poll m k w = (out, w')"
    then show "last_monotonic_ns (clock w) \<le> last_monotonic_ns (clock w')"
    proof (cases rule: bind_poll_cases)
      case stop
      then show ?thesis using m by (auto simp: advances_def)
    next
      case (go x v)
      then have "last_monotonic_ns (clock w) \<le> last_monotonic_ns (clock v)" "last_monotonic_ns (clock v) \<le> last_monotonic_ns (clock w')"
        using m k[of x] by (auto simp: advances_def)
      then show ?thesis by simp
    qed
  qed
qed

lemma advances_lift: "advances (lift_poll m)" "advances (return_poll x)"
  by (auto simp: advances_def lift_poll_eq return_poll_def)

lemma advances_timed:
  "advances (timed (\<lambda>c. expired d c r))" "advances (timed (\<lambda>c. remaining_ns d c r))" "advances (timed (\<lambda>c. transition_timestamp c wall r))"
  by (auto simp: advances_def timed_def expired_def remaining_ns_def transition_timestamp_def monotonic_elapsed_ns_def and_then_eq_Inr
      monotonic_now_eq_Inr split: sum.splits)

lemma advances_append: "advances (append_record decimal ci r terminal)"
  unfolding append_record_def
  by (intro advances_bind advances_lift advances_timed) (simp add: advances_def)

lemma proceed_waits:
  assumes "proceed decimal plan deadline rd r st w = (Inr x, w')"
  shows "last_monotonic_ns (clock w) \<le> rd_wait_reading rd"
proof -
  obtain sample v st' u where v: "append_record decimal (rd_commit rd) r None w = (Inr sample, v)"
    and "next_request decimal plan deadline rd (st\<lparr>ps_sample_ids := ps_sample_ids st @ [sample]\<rparr>) v = (Inr st', u)"
    using assms by (auto simp: proceed_def bind_poll_Inr)
  then have "last_monotonic_ns (clock v) \<le> rd_wait_reading rd"
    by (auto simp: next_request_def Let_def bind_poll_Inr lift_poll_eq timed_def remaining_ns_def and_then_eq_Inr monotonic_now_eq_Inr
        split: sum.splits)
  then show ?thesis using advances_append v unfolding advances_def by (meson order_trans)
qed

lemma settle_returns: "settle decimal ci r terminal st outcome matched seen elapsed answer w \<noteq> (Inr (Inr st'), w')"
  by (auto simp: settle_def bind_poll_def return_poll_def split: prod.splits sum.splits)

lemma on_response_waits:
  assumes "on_response decimal plan predicate negotiation deadline rd st response w = (Inr (Inr st'), w')"
  shows "last_monotonic_ns (clock w) \<le> rd_wait_reading rd"
  using assms unfolding on_response_def Let_def
  by (auto simp: settle_returns dest: proceed_waits split: if_splits ObserverResponseStatus.splits sum.splits bool.splits)

lemma on_failure_waits:
  assumes "on_failure decimal plan deadline rd st diagnostic w = (Inr (Inr st'), w')"
  shows "last_monotonic_ns (clock w) \<le> rd_wait_reading rd"
proof -
  let ?retry = "if (case diagnostic of Some (_, is_retryable) \<Rightarrow> is_retryable | None \<Rightarrow> False) \<and> automatic_reinvocation_safe (pp_capabilities plan)
         then bind_poll (timed (\<lambda>c. expired deadline c (rd_after_reading rd))) (\<lambda>late. return_poll (\<not> late)) else return_poll False"
  have "advances ?retry" by (simp add: advances_bind advances_timed advances_lift)
  then show ?thesis
    using assms unfolding on_failure_def Let_def advances_def
    by (elim bind_poll_cases) (auto simp: settle_returns dest!: proceed_waits split: if_splits intro: order_trans)
qed

lemma poll_round_waits:
  assumes "poll_round decimal plan predicate negotiation deadline rd st w = (Inr (Inr st'), w')"
  shows "rd_head_reading rd < deadline_ns deadline" "rd_head_reading rd \<le> rd_wait_reading rd"
proof -
  obtain late v where head: "timed (\<lambda>c. expired deadline c (rd_head_reading rd)) w = (Inr late, v)"
    and step: "(if late then
       settle decimal (rd_commit rd) (timeout_record plan (rd_commit rd) (ps_request st) (ps_sequence st) ''observer_deadline'')
         ObservationState.TIMED_OUT st TIMED_OUT False (ps_seen st) True (ps_last_response st)
     else
       bind_poll (invoke_with_deadline deadline rd (ps_request st)) (\<lambda>outcome.
       case outcome of
         IsCancelled \<Rightarrow> cancel_poll decimal plan (rd_commit rd) (ps_request st) (ps_sequence st)
       | RunsOut \<Rightarrow> on_timeout decimal plan deadline rd st
       | Fails diagnostic \<Rightarrow> on_failure decimal plan deadline rd st diagnostic
       | Responds response \<Rightarrow> on_response decimal plan predicate negotiation deadline rd st response)) v = (Inr (Inr st'), w')"
    using assms unfolding poll_round_def bind_poll_Inr by blast
  have v: "last_monotonic_ns (clock v) = rd_head_reading rd" "late \<longleftrightarrow> deadline_ns deadline \<le> rd_head_reading rd"
    using head by (auto simp: timed_def expired_def and_then_eq_Inr monotonic_now_eq_Inr split: sum.splits)
  have early: "\<not> late" using step settle_returns by (auto split: if_splits)
  then show "rd_head_reading rd < deadline_ns deadline" using v(2) by simp
  obtain o' u where invoked: "invoke_with_deadline deadline rd (ps_request st) v = (Inr o', u)"
    and rest: "(case o' of
         IsCancelled \<Rightarrow> cancel_poll decimal plan (rd_commit rd) (ps_request st) (ps_sequence st)
       | RunsOut \<Rightarrow> on_timeout decimal plan deadline rd st
       | Fails diagnostic \<Rightarrow> on_failure decimal plan deadline rd st diagnostic
       | Responds response \<Rightarrow> on_response decimal plan predicate negotiation deadline rd st response) u = (Inr (Inr st'), w')"
    using step unfolding if_not_P[OF early] bind_poll_Inr by blast
  have "advances (invoke_with_deadline deadline rd (ps_request st))"
    unfolding invoke_with_deadline_def by (intro advances_bind advances_timed) (simp add: advances_def)
  then have "rd_head_reading rd \<le> last_monotonic_ns (clock u)" using invoked v(1) unfolding advances_def by metis
  moreover have "last_monotonic_ns (clock u) \<le> rd_wait_reading rd"
  proof (cases o')
    case RunsOut
    then show ?thesis using rest by (auto simp: on_timeout_def return_poll_def elim!: bind_poll_cases)
  next
    case IsCancelled
    then show ?thesis using rest by (auto simp: cancel_poll_def elim!: bind_poll_cases)
  qed (use rest in \<open>auto dest: on_response_waits on_failure_waits\<close>)
  ultimately show "rd_head_reading rd \<le> rd_wait_reading rd" by simp
qed

text \<open>A wait lasts at least as long as the poller asks for: the interval, or what remains to the deadline.\<close>

definition waits_out :: "int \<Rightarrow> int \<Rightarrow> PollRound list \<Rightarrow> bool" where
  "waits_out deadline interval rds = successively (\<lambda>rd rd'.
     rd_wait_reading rd + min interval (max 0 (deadline - rd_wait_reading rd)) \<le> rd_head_reading rd') rds"

lemma poll_loop_bound:
  assumes "poll_loop decimal plan predicate negotiation deadline (rd # rds) st w = (Inr None, w')"
    "waits_out (deadline_ns deadline) interval (rd # rds)" "0 < interval"
  shows "rd_head_reading rd + int (length rds) * interval < deadline_ns deadline"
  using assms
proof (induction rds arbitrary: rd st w)
  case Nil
  then obtain st' v where "poll_round decimal plan predicate negotiation deadline rd st w = (Inr (Inr st'), v)"
    by (auto simp: return_poll_def elim!: bind_poll_cases split: sum.splits)
  then show ?case using poll_round_waits(1) by simp
next
  case (Cons rd' rds)
  obtain st' v where first: "poll_round decimal plan predicate negotiation deadline rd st w = (Inr (Inr st'), v)"
    and rest: "poll_loop decimal plan predicate negotiation deadline (rd' # rds) st' v = (Inr None, w')"
    using Cons.prems(1)[unfolded poll_loop.simps(2)[of _ _ _ _ _ rd]] by (auto simp: return_poll_def elim!: bind_poll_cases split: sum.splits)
  have IH: "rd_head_reading rd' + int (length rds) * interval < deadline_ns deadline"
    using Cons.IH[OF rest] Cons.prems(2,3) by (simp add: waits_out_def)
  have "rd_wait_reading rd + min interval (max 0 (deadline_ns deadline - rd_wait_reading rd)) \<le> rd_head_reading rd'"
    using Cons.prems(2) by (simp add: waits_out_def)
  moreover have "rd_head_reading rd' < deadline_ns deadline"
    using IH Cons.prems(3) by (smt (verit) mult_nonneg_nonneg of_nat_0_le_iff)
  ultimately have "rd_head_reading rd + interval \<le> rd_head_reading rd'"
    using poll_round_waits(2)[OF first] by linarith
  then show ?case using IH by (simp add: algebra_simps)
qed

lemma poll_negotiated_on:
  assumes "poll_negotiated decimal plan predicate inp deadline t = (Inr None, w')"
  shows "\<exists>negotiation. poll_loop decimal plan predicate negotiation deadline (pi_rounds inp) (initial_state plan) t = (Inr None, w')"
proof -
  have refused: "bind_poll (settle decimal ci r terminal st outcome matched seen elapsed answer) (\<lambda>step.
      return_poll (case step of Inl result \<Rightarrow> Some result | Inr _ \<Rightarrow> None)) t \<noteq> (Inr None, w')" for ci r terminal st outcome matched seen elapsed answer t
    by (auto simp: bind_poll_Inr return_poll_def settle_returns split: sum.splits)
  show ?thesis
    using assms refused unfolding poll_negotiated_def
    by (auto simp: lift_poll_eq elim!: bind_poll_cases split: if_split_asm sum.splits)
qed


section \<open>Witnesses\<close>

definition sample_series :: ObservationPollPlan where
  "sample_series = \<lparr>pp_observation_id = ''observation_'' @ zero_ulid, pp_observer_id = [111],
     pp_request = \<lparr>rq_request_id = [], rq_operation = ObserverOperation.OBSERVE, rq_sample_id = Some [], rq_run_id = None,
       rq_scenario_id = Some [], rq_event_id = None, rq_checkpoint = Some [99], rq_prior_snapshot_id = None, rq_queries = []\<rparr>,
     pp_capabilities = \<lparr>evidence_types = [OBJECT], evidence_keys = [], read_only = True, idempotent = True, max_queries = 1,
       supports_pending = False, stable_snapshot_ids = True\<rparr>,
     within_ns = 10000000, poll_interval_ns = 10000000, invocation_timeout_ns = 5, requires_stable_snapshot = False\<rparr>"

definition sample_commit :: "int \<Rightarrow> CommitInput" where
  "sample_commit reading = \<lparr>ci_record_id = [], ci_recorded_at = [], ci_wall = \<lparr>instant = 0, utcoffset = Some 0\<rparr>, ci_reading = reading,
     ci_cancelled = False\<rparr>"

definition sample_round :: "int \<Rightarrow> PollRound" where
  "sample_round reading = \<lparr>rd_head_reading = reading, rd_invoke_reading = reading, rd_invocation = Fails None, rd_after_reading = reading,
     rd_commit = sample_commit reading, rd_fresh_sample = [], rd_wait_reading = reading, rd_wait_cancelled = False,
     rd_cancel_commit = sample_commit reading\<rparr>"

definition sample_input :: PollInput where
  "sample_input = \<lparr>pi_wall = \<lparr>instant = 0, utcoffset = Some 0\<rparr>, pi_begin_reading = 0, pi_begin_cancelled = False, pi_deadline_reading = 0,
     pi_commit = sample_commit 0, pi_rounds = map sample_round [0, 10000000, 10000000]\<rparr>"

definition sample_world :: PollWorld where
  "sample_world = \<lparr>clock = \<lparr>clock_policy = \<lparr>policy_mode = REAL, scale_numerator = 1, scale_denominator = 1, minimum_physical_wait_ns = 0\<rparr>,
     origin_monotonic_ns = 0, last_monotonic_ns = 0\<rparr>, begun = [], invoked = [], samples = []\<rparr>"



end
