(* ===== verification/Assertions_Temporal.thy ===== *)
theory Assertions_Temporal
  imports Assertions_Composite Observer_Polling "HOL-Library.Sublist"
begin

text \<open>
  Ordered transitions and eventual states: \<open>assertions/temporal.py\<close>. The ordered assertion is related to the
  sublists and subsequences of the library; the eventual assertion is composed with the poller that feeds it.
\<close>

section \<open>Configuration and evaluations\<close>

datatype TemporalAssertionCode =
    ORDER_MATCH | ORDER_MISMATCH | EVIDENCE_MISSING | EVIDENCE_DUPLICATE | EVIDENCE_TYPE_MISMATCH | EVENTUAL_MATCH | EVENTUAL_MISMATCH |
    EVENTUAL_DEADLINE_MISMATCH | EVENTUAL_TIMEOUT_ERROR | PREDICATE_ERROR | OBSERVER_PENDING | OBSERVER_UNSUPPORTED | OBSERVER_ERROR |
    POLL_RESULT_INCONSISTENT

record OrderedTransitionAssertion =
  ot_id :: string
  ot_query :: ConfigQuery
  ot_states :: "ustring list"
  allow_intermediate :: bool

definition MAX_ASSERTION_STATES :: nat where "MAX_ASSERTION_STATES = 64"

definition validate_states :: "ustring list \<Rightarrow> ustring list result" where
  "validate_states v =
     and_then (raise_unless (MIN_COMPOSITE_ASSERTION_ITEMS \<le> length v \<and> length v \<le> MAX_ASSERTION_STATES)
       (ValueError ''states must contain between 2 and 64 values'')) (\<lambda>_. Inr v)"

record EventualStateAssertion =
  es_id :: string
  es_on_unsupported :: OnUnsupported
  es_within :: int
  es_poll_interval :: int
  es_query :: ConfigQuery
  es_path :: "ustring option"
  es_comparator :: Comparator
  es_expected :: TypedValue
  es_missing_pointer :: MissingPointer

definition validate_polling :: "int \<Rightarrow> int \<Rightarrow> unit result" where
  "validate_polling limit interval = raise_unless (\<not> interval > limit) (ValueError ''poll_interval cannot exceed within'')"

record OrderedTransitionEvaluation =
  oe_assertion_id :: string
  oe_result :: AssertionResult
  oe_code :: TemporalAssertionCode
  oe_evidence_key :: ustring
  oe_expected :: "StateAssertionFact option"
  oe_actual :: "StateAssertionFact option"
  oe_source_evidence :: "ObserverEvidence option"

definition OrderedTransitionEvaluation_post_init :: "OrderedTransitionEvaluation \<Rightarrow> OrderedTransitionEvaluation result" where
  "OrderedTransitionEvaluation_post_init e =
     and_then (raise_unless (oe_assertion_id e \<noteq> []) (ValueError ''assertion_id must be a nonempty string'')) (\<lambda>_.
     and_then (raise_unless (oe_evidence_key e \<noteq> []) (ValueError ''evidence_key must be a nonempty string'')) (\<lambda>_.
     and_then (raise_unless (oe_result e \<in> {AssertionResult.PASS, AssertionResult.FAIL, AssertionResult.ERROR})
       (ValueError ''ordered transition result must be pass, fail, or error'')) (\<lambda>_. Inr e)))"

definition ordered_result :: "OrderedTransitionAssertion \<Rightarrow> AssertionResult \<Rightarrow> TemporalAssertionCode \<Rightarrow> StateAssertionFact \<Rightarrow>
    StateAssertionFact option \<Rightarrow> ObserverEvidence option \<Rightarrow> OrderedTransitionEvaluation result" where
  "ordered_result a r c expected actual source = OrderedTransitionEvaluation_post_init
     \<lparr>oe_assertion_id = ot_id a, oe_result = r, oe_code = c, oe_evidence_key = cq_key (ot_query a), oe_expected = Some expected,
      oe_actual = actual, oe_source_evidence = source\<rparr>"

record EventualStateEvaluation =
  ee_assertion_id :: string
  ee_result :: AssertionResult
  ee_code :: TemporalAssertionCode
  ee_poll_outcome :: ObservationPollOutcome
  ee_sample_ids :: "string list"
  ee_expected :: StateAssertionFact
  ee_actual :: "StateAssertionFact option"
  ee_source_evidence :: "ObserverEvidence option"

definition EventualStateEvaluation_post_init :: "EventualStateEvaluation \<Rightarrow> EventualStateEvaluation result" where
  "EventualStateEvaluation_post_init e =
     and_then (raise_unless (ee_assertion_id e \<noteq> []) (ValueError ''assertion_id must be a nonempty string'')) (\<lambda>_.
     and_then (raise_unless (ee_result e \<in> {AssertionResult.PASS, AssertionResult.FAIL, AssertionResult.ERROR, AssertionResult.SKIPPED})
       (ValueError ''eventual result must be pass, fail, error, or skipped'')) (\<lambda>_.
     and_then (raise_unless (\<not> (ee_sample_ids e = [] \<or> list_ex (\<lambda>i. i = []) (ee_sample_ids e)))
       (ValueError ''sample_ids must contain every nonempty sample ID'')) (\<lambda>_.
     and_then (raise_unless (length (remdups (ee_sample_ids e)) = length (ee_sample_ids e)) (ValueError ''sample_ids must be unique'')) (\<lambda>_.
       Inr e))))"

definition terminal_label :: "EventualStateEvaluation \<Rightarrow> string" where
  "terminal_label e = (if ee_poll_outcome e = TIMED_OUT then ''timeout'' else assertion_result_value (ee_result e))"

section \<open>Ordered transitions\<close>

text \<open>One item of the observed array: a nonempty state, or an object with a state and at most a valid timestamp.\<close>

definition transition_state :: "decimal_reader \<Rightarrow> frozen_json \<Rightarrow> ustring option" where
  "transition_state decimal v = (case v of
       FString s \<Rightarrow> if s = [] then None else Some s
     | FrozenJsonObject ps \<Rightarrow>
         (if \<not> set (map fst ps) \<subseteq> {text_of ''state'', text_of ''timestamp''} then None
          else case map_of ps (text_of ''state'') of
              Some (FString s) \<Rightarrow>
                (if s = [] then None
                 else case map_of ps (text_of ''timestamp'') of
                     None \<Rightarrow> Some s
                   | Some timestamp \<Rightarrow>
                       (case ObserverEvidence_validate decimal (text_of ''transition_timestamp'') TIMESTAMP (RawJson (thaw_json timestamp)) False of
                          Inl _ \<Rightarrow> None | Inr _ \<Rightarrow> Some s))
            | _ \<Rightarrow> None)
     | _ \<Rightarrow> None)"

fun transition_states :: "decimal_reader \<Rightarrow> frozen_json list \<Rightarrow> ustring list \<Rightarrow> ustring list option" where
  "transition_states decimal [] states = Some states"
| "transition_states decimal (v # vs) states = (case transition_state decimal v of
     None \<Rightarrow> None | Some s \<Rightarrow> transition_states decimal vs (states @ [s]))"

definition contains_contiguous_sequence :: "'a list \<Rightarrow> 'a list \<Rightarrow> bool" where
  "contains_contiguous_sequence actual expected =
     (if length expected > length actual then False
      else list_ex (\<lambda>index. take (length expected) (drop index actual) = expected) [0..<length actual - length expected + 1])"

text \<open>The loop of \<open>_is_ordered_subsequence\<close>; the configured states are at least two, so that the index is in range.\<close>

fun ordered_from :: "'a list \<Rightarrow> 'a list \<Rightarrow> nat \<Rightarrow> bool" where
  "ordered_from [] expected index = False"
| "ordered_from (state # rest) expected index =
     (if state = expected ! index then (if index + 1 = length expected then True else ordered_from rest expected (index + 1))
      else ordered_from rest expected index)"

definition is_ordered_subsequence :: "'a list \<Rightarrow> 'a list \<Rightarrow> bool" where
  "is_ordered_subsequence actual expected = ordered_from actual expected 0"

definition evaluate_ordered_transition_assertion :: "decimal_reader \<Rightarrow> OrderedTransitionAssertion \<Rightarrow> ObserverEvidence list \<Rightarrow>
    OrderedTransitionEvaluation result" where
  "evaluate_ordered_transition_assertion decimal a evidence =
     and_then (StateAssertionFact_init ARRAY (JsonEvidence (FTuple (map FString (ot_states a)))) False) (\<lambda>expected.
     case filter (\<lambda>item. ev_key item = cq_key (ot_query a)) evidence of
       [] \<Rightarrow> ordered_result a AssertionResult.ERROR EVIDENCE_MISSING expected None None
     | [observed] \<Rightarrow>
         (let mismatch = ordered_result a AssertionResult.ERROR EVIDENCE_TYPE_MISMATCH expected None (Some observed) in
          case ev_value observed of
            JsonEvidence (FTuple raw_values) \<Rightarrow>
              (if ev_value_type observed \<noteq> ARRAY then mismatch
               else and_then (StateAssertionFact_init ARRAY (JsonEvidence (FTuple raw_values)) (sensitive observed)) (\<lambda>actual.
                 case transition_states decimal raw_values [] of
                   None \<Rightarrow> ordered_result a AssertionResult.ERROR EVIDENCE_TYPE_MISMATCH expected (Some actual) (Some observed)
                 | Some states \<Rightarrow>
                     (let matched = (if allow_intermediate a then is_ordered_subsequence states (ot_states a)
                          else contains_contiguous_sequence states (ot_states a))
                      in ordered_result a (if matched then AssertionResult.PASS else AssertionResult.FAIL)
                        (if matched then ORDER_MATCH else ORDER_MISMATCH) expected (Some actual) (Some observed))))
          | _ \<Rightarrow> mismatch)
     | _ \<Rightarrow> ordered_result a AssertionResult.ERROR EVIDENCE_DUPLICATE expected None None)"

section \<open>Eventual states\<close>

definition eventual_predicate :: "EventualStateAssertion \<Rightarrow> Predicate" where
  "eventual_predicate a = \<lparr>pr_name = es_id a, pr_query = es_query a, pr_path = es_path a, pr_comparator = es_comparator a,
     pr_expected = es_expected a, pr_missing_pointer = (if es_path a = None then MissingPointer.ERROR else es_missing_pointer a)\<rparr>"

definition temporal_predicate_error :: exn where
  "temporal_predicate_error = RuntimeError ''The temporal predicate could not evaluate normalized evidence.''"

text \<open>The callable adapters of the poller.\<close>

definition ordered_transition_predicate :: "decimal_reader \<Rightarrow> OrderedTransitionAssertion \<Rightarrow> ObserverResponse \<Rightarrow> bool result" where
  "ordered_transition_predicate decimal a response =
     and_then (raise_unless (rs_status response = ObserverResponseStatus.OK) temporal_predicate_error) (\<lambda>_.
     and_then (evaluate_ordered_transition_assertion decimal a (rs_evidence response)) (\<lambda>evaluation.
     and_then (raise_unless (oe_result evaluation \<noteq> AssertionResult.ERROR) temporal_predicate_error) (\<lambda>_.
       Inr (oe_result evaluation = AssertionResult.PASS))))"

definition eventual_state_predicate :: "decimal_reader \<Rightarrow> EventualStateAssertion \<Rightarrow> ObserverResponse \<Rightarrow> bool result" where
  "eventual_state_predicate decimal a response =
     and_then (raise_unless (rs_status response = ObserverResponseStatus.OK) temporal_predicate_error) (\<lambda>_.
     and_then (evaluate_evidence_predicate decimal (eventual_predicate a) (rs_evidence response)) (\<lambda>evaluation.
     and_then (raise_unless (pe_result evaluation \<noteq> AssertionResult.ERROR) temporal_predicate_error) (\<lambda>_.
       Inr (pe_result evaluation = AssertionResult.PASS))))"

definition eventual_detail :: "decimal_reader \<Rightarrow> EventualStateAssertion \<Rightarrow> ObserverResponse option \<Rightarrow>
    EvidencePredicateEvaluation option result" where
  "eventual_detail decimal a response = (case response of
       None \<Rightarrow> Inr None
     | Some r \<Rightarrow> if rs_status r \<noteq> ObserverResponseStatus.OK then Inr None
         else and_then (evaluate_evidence_predicate decimal (eventual_predicate a) (rs_evidence r)) (\<lambda>d. Inr (Some d)))"

fun expected_state :: "ObservationPollOutcome \<Rightarrow> ObservationState" where
  "expected_state MATCHED = ObservationState.OK"
| "expected_state MISMATCH = ObservationState.OK"
| "expected_state ObservationPollOutcome.PENDING = ObservationState.PENDING"
| "expected_state ObservationPollOutcome.UNSUPPORTED = ObservationState.UNSUPPORTED"
| "expected_state ObservationPollOutcome.ERROR = ObservationState.ERROR"
| "expected_state TIMED_OUT = ObservationState.TIMED_OUT"

definition poll_result_consistent :: "ObservationPollResult \<Rightarrow> bool" where
  "poll_result_consistent r =
     (if por_final_state r \<noteq> expected_state (por_outcome r) then False
      else if por_outcome r = MATCHED then predicate_matched r \<and> valid_evidence_seen r \<and> last_response r \<noteq> None
      else if por_outcome r = MISMATCH then \<not> predicate_matched r \<and> valid_evidence_seen r \<and> last_response r \<noteq> None
      else \<not> predicate_matched r)"

definition eventual_result :: "EventualStateAssertion \<Rightarrow> ObservationPollResult \<Rightarrow> StateAssertionFact \<Rightarrow> EvidencePredicateEvaluation option \<Rightarrow>
    AssertionResult \<Rightarrow> TemporalAssertionCode \<Rightarrow> EventualStateEvaluation result" where
  "eventual_result a polled expected detail r c = EventualStateEvaluation_post_init
     \<lparr>ee_assertion_id = es_id a, ee_result = r, ee_code = c, ee_poll_outcome = por_outcome polled, ee_sample_ids = por_sample_ids polled,
      ee_expected = expected, ee_actual = (case detail of Some d \<Rightarrow> pf_actual (pe_facts d) | None \<Rightarrow> None),
      ee_source_evidence = (case detail of Some d \<Rightarrow> pf_source (pe_facts d) | None \<Rightarrow> None)\<rparr>"

text \<open>The decision of \<open>evaluate_eventual_state_assertion\<close> on a polling result and the detail of its last answer.\<close>

definition eventual_decision :: "EventualStateAssertion \<Rightarrow> ObservationPollResult \<Rightarrow> AssertionResult option \<Rightarrow>
    AssertionResult \<times> TemporalAssertionCode" where
  "eventual_decision a polled detail =
     (if \<not> poll_result_consistent polled then (AssertionResult.ERROR, POLL_RESULT_INCONSISTENT)
      else case por_outcome polled of
        MATCHED \<Rightarrow>
          (if detail \<noteq> Some AssertionResult.PASS then (AssertionResult.ERROR, POLL_RESULT_INCONSISTENT)
           else (AssertionResult.PASS, EVENTUAL_MATCH))
      | MISMATCH \<Rightarrow>
          (if detail = None then (AssertionResult.ERROR, POLL_RESULT_INCONSISTENT)
           else if detail = Some AssertionResult.ERROR then (AssertionResult.ERROR, PREDICATE_ERROR)
           else if detail = Some AssertionResult.PASS then (AssertionResult.ERROR, POLL_RESULT_INCONSISTENT)
           else (AssertionResult.FAIL, EVENTUAL_MISMATCH))
      | TIMED_OUT \<Rightarrow>
          (if detail = Some AssertionResult.PASS then (AssertionResult.ERROR, POLL_RESULT_INCONSISTENT)
           else if detail = Some AssertionResult.ERROR then (AssertionResult.ERROR, PREDICATE_ERROR)
           else if valid_evidence_seen polled \<and> deadline_elapsed polled then (AssertionResult.FAIL, EVENTUAL_DEADLINE_MISMATCH)
           else (AssertionResult.ERROR, EVENTUAL_TIMEOUT_ERROR))
      | ObservationPollOutcome.UNSUPPORTED \<Rightarrow>
          (if es_on_unsupported a = OnUnsupported.SKIP then AssertionResult.SKIPPED else AssertionResult.ERROR, OBSERVER_UNSUPPORTED)
      | ObservationPollOutcome.ERROR \<Rightarrow>
          (AssertionResult.ERROR, if detail = Some AssertionResult.ERROR then PREDICATE_ERROR else OBSERVER_ERROR)
      | ObservationPollOutcome.PENDING \<Rightarrow> (AssertionResult.ERROR, OBSERVER_PENDING))"

definition evaluate_eventual_state_assertion :: "decimal_reader \<Rightarrow> EventualStateAssertion \<Rightarrow> ObservationPollResult \<Rightarrow>
    EventualStateEvaluation result" where
  "evaluate_eventual_state_assertion decimal a polled =
     and_then (expected_fact decimal (es_expected a)) (\<lambda>expected.
     and_then (eventual_detail decimal a (last_response polled)) (\<lambda>detail.
       case eventual_decision a polled (map_option pe_result detail) of (r, c) \<Rightarrow> eventual_result a polled expected detail r c))"

datatype TemporalAssertion = OrderedTransition OrderedTransitionAssertion | EventualState EventualStateAssertion
datatype temporal_evidence = EvidenceTuple "ObserverEvidence list" | PollEvidence ObservationPollResult

fun evaluate_temporal_assertion :: "decimal_reader \<Rightarrow> TemporalAssertion \<Rightarrow> temporal_evidence \<Rightarrow>
    (OrderedTransitionEvaluation + EventualStateEvaluation) result" where
  "evaluate_temporal_assertion decimal (OrderedTransition a) (EvidenceTuple es) =
     and_then (evaluate_ordered_transition_assertion decimal a es) (\<lambda>ev. Inr (Inl ev))"
| "evaluate_temporal_assertion decimal (OrderedTransition a) (PollEvidence _) =
     Inl (TypeError ''ordered transition evidence must be an evidence tuple'')"
| "evaluate_temporal_assertion decimal (EventualState a) (PollEvidence p) =
     and_then (evaluate_eventual_state_assertion decimal a p) (\<lambda>ev. Inr (Inr ev))"
| "evaluate_temporal_assertion decimal (EventualState a) (EvidenceTuple _) =
     Inl (TypeError ''eventual state evidence must be an ObservationPollResult'')"

section \<open>Order\<close>

lemma contiguous_exact: "contains_contiguous_sequence actual expected \<longleftrightarrow> sublist expected actual"
proof
  assume "contains_contiguous_sequence actual expected"
  then obtain i where "take (length expected) (drop i actual) = expected"
    by (auto simp only: contains_contiguous_sequence_def list_ex_iff split: if_splits)
  then show "sublist expected actual" by (metis sublist_order.order_trans sublist_drop sublist_take)
next
  assume "sublist expected actual"
  then obtain ps ss where actual: "actual = ps @ expected @ ss" by (auto simp: sublist_def)
  then have "length ps \<in> set [0..<length actual - length expected + 1]" "take (length expected) (drop (length ps) actual) = expected"
    by auto
  then have "\<exists>i \<in> set [0..<length actual - length expected + 1]. take (length expected) (drop i actual) = expected" by blast
  moreover have "\<not> length actual < length expected" using actual by simp
  ultimately show "contains_contiguous_sequence actual expected"
    unfolding contains_contiguous_sequence_def list_ex_iff by (simp only: if_False)
qed

lemma ordered_from_exact: "index < length expected \<Longrightarrow> ordered_from actual expected index \<longleftrightarrow> subseq (drop index expected) actual"
proof (induction actual arbitrary: index)
  case (Cons s actual)
  have rest: "drop index expected = expected ! index # drop (Suc index) expected" using Cons.prems by (simp add: Cons_nth_drop_Suc)
  show ?case
  proof (cases "s = expected ! index")
    case True
    then show ?thesis using Cons.IH[of "Suc index"] Cons.prems rest
      by (cases "Suc index = length expected") (auto simp: rest)
  next
    case False
    then show ?thesis using Cons.IH[of index] Cons.prems by (simp add: rest)
  qed
qed simp

lemma transition_states_map: "transition_states decimal vs acc = map_option (\<lambda>ss. acc @ ss) (those (map (transition_state decimal) vs))"
proof (induction vs arbitrary: acc)
  case (Cons v vs)
  then show ?case by (cases "those (map (transition_state decimal) vs)") (auto split: option.splits)
qed simp

text \<open>What an ordered assertion says of a snapshot: \<open>None\<close> where the evidence does not hold one list of states.\<close>

definition observed_states :: "decimal_reader \<Rightarrow> OrderedTransitionAssertion \<Rightarrow> ObserverEvidence list \<Rightarrow> ustring list option" where
  "observed_states decimal a evidence = (case filter (\<lambda>e. ev_key e = cq_key (ot_query a)) evidence of
       [e] \<Rightarrow> (case ev_value e of JsonEvidence (FTuple vs) \<Rightarrow> those (map (transition_state decimal) vs) | _ \<Rightarrow> None)
     | _ \<Rightarrow> None)"

lemma ordered_result_reports:
  assumes "ot_id a \<noteq> []" "cq_key (ot_query a) \<noteq> []" "r \<in> {AssertionResult.PASS, AssertionResult.FAIL, AssertionResult.ERROR}"
  shows "reports (ordered_result a r c x y z) oe_result r"
  using assms by (simp add: reports_def ordered_result_def OrderedTransitionEvaluation_post_init_def)

lemma accepted_array:
  assumes "evidence_accepted decimal e" "ev_value e = JsonEvidence (FTuple vs)"
  shows "ev_value_type e = ARRAY"
  using accepted_facts(1)[OF assms(1)] assms(2) by (cases "ev_value_type e") simp_all

text \<open>Ordered transitions are judged exactly. On accepted evidence, an ordered-transition assertion passes exactly when
  the configured states occur in the observed ones as a contiguous block, or as a subsequence where intermediate states
  are allowed, and fails when they do not; evidence that is missing, repeated or not a list of states is an error.\<close>

lemma ordered_transition_exact:
  assumes "ot_id a \<noteq> []" "cq_key (ot_query a) \<noteq> []" "validate_states (ot_states a) = Inr ss"
    and "\<forall>e \<in> set evidence. evidence_accepted decimal e"
  shows "reports (evaluate_ordered_transition_assertion decimal a evidence) oe_result (verdict_of (map_option
    (\<lambda>observed. (if allow_intermediate a then subseq else sublist) (ot_states a) observed) (observed_states decimal a evidence)))"
proof -
  let ?found = "filter (\<lambda>e. ev_key e = cq_key (ot_query a)) evidence"
  note reported = ordered_result_reports[OF assms(1,2)]
  have expected: "StateAssertionFact_init ARRAY (JsonEvidence (FTuple vs)) s =
      Inr \<lparr>sf_value_type = ARRAY, sf_value = JsonEvidence (FTuple vs), sf_sensitive = s\<rparr>" for vs s
    by (simp add: StateAssertionFact_init_def require_fact_shape_def)
  have nonempty: "ot_states a \<noteq> []"
    using assms(3) by (auto simp: validate_states_def and_then_eq_Inr MIN_COMPOSITE_ASSERTION_ITEMS_def)
  then have order: "is_ordered_subsequence states (ot_states a) \<longleftrightarrow> subseq (ot_states a) states" for states
    using ordered_from_exact[of 0 "ot_states a" states] by (simp add: is_ordered_subsequence_def)
  have undecided: "reports (ordered_result a AssertionResult.ERROR c x y z) oe_result (verdict_of None)" for c x y z
    using reported by (simp add: verdict_of_def)
  show ?thesis
  proof (cases "\<exists>e vs. ?found = [e] \<and> ev_value e = JsonEvidence (FTuple vs)")
    case True
    then obtain e vs where e: "?found = [e]" "ev_value e = JsonEvidence (FTuple vs)" by blast
    then have "e \<in> set evidence" using filter_is_subset[of "\<lambda>e. ev_key e = cq_key (ot_query a)" evidence] by simp
    then have typed: "ev_value_type e = ARRAY" using accepted_array assms(4) e(2) by blast
    show ?thesis
    proof (cases "those (map (transition_state decimal) vs)")
      case None
      then show ?thesis using undecided
        by (simp add: evaluate_ordered_transition_assertion_def observed_states_def expected e typed transition_states_map)
    next
      case (Some states)
      then show ?thesis using reported
        by (simp add: verdict_of_def evaluate_ordered_transition_assertion_def observed_states_def expected e typed transition_states_map order contiguous_exact Let_def)
    qed
  next
    case False
    then show ?thesis using undecided
      by (auto simp: evaluate_ordered_transition_assertion_def observed_states_def expected Let_def
          split: list.split evidence_value.split frozen_json.split)
  qed
qed

section \<open>Polling and judging agree\<close>

definition eventual_verdict :: "EventualStateAssertion \<Rightarrow> ObservationPollResult \<Rightarrow> AssertionResult" where
  "eventual_verdict a polled = (case por_outcome polled of
       MATCHED \<Rightarrow> AssertionResult.PASS
     | MISMATCH \<Rightarrow> AssertionResult.FAIL
     | TIMED_OUT \<Rightarrow> if valid_evidence_seen polled \<and> deadline_elapsed polled then AssertionResult.FAIL else AssertionResult.ERROR
     | ObservationPollOutcome.UNSUPPORTED \<Rightarrow> if es_on_unsupported a = OnUnsupported.SKIP then AssertionResult.SKIPPED else AssertionResult.ERROR
     | _ \<Rightarrow> AssertionResult.ERROR)"

lemma honest_consistent:
  assumes "honest predicate polled"
  shows "poll_result_consistent polled"
  using assms
  by (cases "por_outcome polled") (auto simp: honest_def poll_result_consistent_def decided_def)

lemma detail_exact:
  assumes "configured decimal (eventual_predicate a)" "reads_ascii decimal"
    and "\<And>resp. answer = Some resp \<Longrightarrow> \<forall>e \<in> set (rs_evidence resp). evidence_accepted decimal e"
  shows "\<exists>detail. eventual_detail decimal a answer = Inr detail \<and>
    (decided (eventual_state_predicate decimal a) True answer \<longleftrightarrow> map_option pe_result detail = Some AssertionResult.PASS) \<and>
    (decided (eventual_state_predicate decimal a) False answer \<longleftrightarrow> map_option pe_result detail = Some AssertionResult.FAIL) \<and>
    (remembers (eventual_state_predicate decimal a) answer \<longleftrightarrow> map_option pe_result detail \<in> {None, Some AssertionResult.FAIL})"
proof (cases "\<exists>resp. answer = Some resp \<and> rs_status resp = ObserverResponseStatus.OK")
  case True
  then obtain resp where r: "answer = Some resp" "rs_status resp = ObserverResponseStatus.OK" by blast
  obtain ev where ev: "evaluate_evidence_predicate decimal (eventual_predicate a) (rs_evidence resp) = Inr ev"
    and result: "pe_result ev = verdict_of (pe_truth_value ev)"
    using predicate_exact[OF assms(1) assms(3)[OF r(1)] assms(2)] by (auto simp: settled_as_def)
  have "pe_result ev \<in> {AssertionResult.PASS, AssertionResult.FAIL, AssertionResult.ERROR}"
    using result by (auto simp: verdict_of_def split: option.splits bool.splits)
  then show ?thesis using r ev
    by (auto simp: eventual_detail_def decided_def remembers_def eventual_state_predicate_def)
next
  case False
  then show ?thesis by (auto simp: eventual_detail_def decided_def remembers_def split: option.splits)
qed


section \<open>Witnesses\<close>

definition sample_order :: OrderedTransitionAssertion where
  "sample_order = \<lparr>ot_id = ''order'', ot_query = \<lparr>cq_observer = ''orders'', cq_key = [110], cq_parameters = JObject []\<rparr>,
     ot_states = [[97], [99]], allow_intermediate = True\<rparr>"

definition sample_history :: ObserverEvidence where
  "sample_history = \<lparr>ev_key = [110], ev_value_type = ARRAY, ev_value = JsonEvidence (FTuple [FString [97], FString [98], FString [99]]),
     sensitive = False\<rparr>"

lemma sample_history_accepted: "evidence_accepted decimal sample_history"
proof -
  have "freeze_json (JArray [JString [97], JString [98], JString [99]]) = Inr (FTuple [FString [97], FString [98], FString [99]])"
    by (simp add: freeze_json_eq_Inr safe_text_def scalar_value_def MAX_JSON_NODES_def MAX_JSON_DEPTH_def MAX_JSON_STRING_LENGTH_def
        MAX_JSON_ARRAY_ITEMS_def)
  then show ?thesis unfolding evidence_accepted_def
    by (intro exI[of _ "JArray [JString [97], JString [98], JString [99]]"])
      (simp add: ObserverEvidence_validate_def freeze_and_classify_value_def sample_history_def validate_bounded_text_eq_Inr
        and_then_eq_Inr safe_text_def scalar_value_def MAX_JSON_OBJECT_KEY_LENGTH_def)
qed

lemma ordered_transition_exact_witness:
  "reports (evaluate_ordered_transition_assertion ascii_decimal sample_order [sample_history]) oe_result AssertionResult.PASS"
  using ordered_transition_exact[of sample_order "[[97], [99]]" "[sample_history]" ascii_decimal] sample_history_accepted
  by (simp add: sample_order_def sample_history_def validate_states_def MIN_COMPOSITE_ASSERTION_ITEMS_def MAX_ASSERTION_STATES_def
      observed_states_def transition_state_def verdict_of_def)

text \<open>A series whose observer has no stable snapshots although the plan requires them.\<close>

definition sample_eventual :: EventualStateAssertion where
  "sample_eventual = \<lparr>es_id = ''eventually'', es_on_unsupported = OnUnsupported.SKIP, es_within = 10000000, es_poll_interval = 10000000,
     es_query = \<lparr>cq_observer = ''orders'', cq_key = [110], cq_parameters = JObject []\<rparr>, es_path = None, es_comparator = EQ,
     es_expected = IntegerTypedValue 2, es_missing_pointer = MissingPointer.ERROR\<rparr>"

definition sample_unstable :: ObservationPollPlan where
  "sample_unstable = sample_series\<lparr>requires_stable_snapshot := True,
     pp_capabilities := (pp_capabilities sample_series)\<lparr>stable_snapshot_ids := False\<rparr>,
     pp_request := (pp_request sample_series)\<lparr>rq_sample_id := Some (''sample_'' @ zero_ulid), rq_run_id := Some sample_run_id,
       rq_scenario_id := Some (''scenario_'' @ zero_ulid)\<rparr>\<rparr>"

definition sample_begin :: PollInput where
  "sample_begin = sample_input\<lparr>pi_commit := (sample_commit 0)\<lparr>ci_record_id := ''record_'' @ zero_ulid,
     ci_recorded_at := text_of ''2026-01-31T23:59:59Z''\<rparr>\<rparr>"

definition sample_refusal :: ObservationPollResult where
  "sample_refusal = \<lparr>por_outcome = ObservationPollOutcome.UNSUPPORTED, por_final_state = ObservationState.UNSUPPORTED,
     por_sample_ids = [''sample_'' @ zero_ulid], predicate_matched = False, valid_evidence_seen = False, deadline_elapsed = False,
     last_response = None\<rparr>"

lemma sample_refusal_record:
  "ObservationRecord_validate ascii_decimal (unsupported_record sample_unstable (pi_commit sample_begin) (pp_request sample_unstable) 1) =
    Inr (unsupported_record sample_unstable (pi_commit sample_begin) (pp_request sample_unstable) 1)"
proof -
  have "returns (validate_utc_timestamp ascii_decimal (text_of ''2026-01-31T23:59:59Z''))"
    by (simp add: validate_utc_timestamp_def timestamp_match_def slice_def is_digit_def ascii_decimal_def Observer_Protocol.digits_value_def
        datetime_ok_def days_in_month_def text_of_def returns_iff numeral_nat)
  moreover have "returns (validate_bounded_text [111] ''observer_id'' MAX_OBSERVER_ID_LENGTH False)"
    by (simp add: returns_iff validate_bounded_text_eq_Inr safe_text_def scalar_value_def MAX_OBSERVER_ID_LENGTH_def)
  ultimately show ?thesis
    using zero_ids zero_planned[of PlannedIdKind.OBSERVATION, simplified] zero_fresh[of FreshIdKind.SAMPLE, simplified] sample_run_id_valid
    by (auto simp: ObservationRecord_validate_def unsupported_record_def base_record_def sample_unstable_def sample_series_def sample_begin_def
        validate_sample_id_def if_present_def validate_record_shape_def MAX_IJSON_INTEGER_def MAX_EVIDENCE_VALUES_def and_then_eq_Inr returns_iff)
qed

lemma sample_refused:
  "\<exists>w'. poll ascii_decimal sample_unstable predicate sample_begin sample_world = (Inr (Some sample_refusal), w')"
proof -
  have negotiation: "\<exists>n. plan_negotiation sample_unstable = Inr n \<and> \<not> supported n"
    by (simp add: plan_negotiation_def negotiate_capabilities_def sample_unstable_def sample_series_def CapabilityNegotiation_post_init_def
        supported_def require_unique_def)
  have readings: "pi_wall sample_begin = \<lparr>instant = 0, utcoffset = Some 0\<rparr>" "pi_begin_reading sample_begin = 0" "\<not> pi_begin_cancelled sample_begin"
    "pi_deadline_reading sample_begin = 0" "ci_wall (pi_commit sample_begin) = \<lparr>instant = 0, utcoffset = Some 0\<rparr>"
    "ci_reading (pi_commit sample_begin) = 0" "\<not> ci_cancelled (pi_commit sample_begin)" "within_ns sample_unstable = 10000000"
    by (simp_all add: sample_begin_def sample_input_def sample_commit_def sample_unstable_def sample_series_def)
  have sample: "rec_sample_id (unsupported_record sample_unstable (pi_commit sample_begin) (pp_request sample_unstable) 1) = ''sample_'' @ zero_ulid"
    by (simp add: unsupported_record_def base_record_def sample_unstable_def)
  have now: "monotonic_now_ns c 0 = Inr (0, c\<lparr>last_monotonic_ns := 0\<rparr>)" if "last_monotonic_ns c = 0" for c
    using that by (simp add: monotonic_now_eq_Inr SIGNED_INT64_MAX_def)
  have stamp: "transition_timestamp c \<lparr>instant = 0, utcoffset = Some 0\<rparr> 0 =
      Inr (\<lparr>wall_time = \<lparr>instant = 0, utcoffset = Some 0\<rparr>, monotonic_elapsed = Some 0\<rparr>, c\<lparr>last_monotonic_ns := 0\<rparr>)"
    if "last_monotonic_ns c = 0" "origin_monotonic_ns c = 0" for c
    using that now[OF that(1)]
    by (simp add: transition_timestamp_def monotonic_elapsed_ns_def validate_utc_wall_time_def TransitionTimestamp_init_def and_then_eq_Inr
        nonnegative_int64_def signed_int64_def SIGNED_INT64_MAX_def SIGNED_INT64_MIN_def)
  have deadline: "deadline_after c 10000000 0 = Inr (\<lparr>deadline_ns = 10000000\<rparr>, c\<lparr>last_monotonic_ns := 0\<rparr>)" if "last_monotonic_ns c = 0" for c
    using now[OF that] by (simp add: deadline_after_def physical_timeout_ns_def MonotonicDeadline_init_def nonnegative_int64_def signed_int64_def
        SIGNED_INT64_MAX_def SIGNED_INT64_MIN_def)
  obtain n where "plan_negotiation sample_unstable = Inr n" "\<not> supported n" using negotiation by blast
  then show ?thesis
    by (simp add: poll_def poll_negotiated_def bind_poll_def timed_def lift_poll_def return_poll_def readings stamp deadline settle_def
        append_record_def sample_refusal_record ObservationSampleCommit_post_init_def poll_result_def ObservationPollResult_post_init_def
        initial_state_def sample_refusal_def sample sample_world_def)
qed


end
