(* ===== verification/Config_Values.thy ===== *)
theory Config_Values
  imports Assertions_State Clocks
begin

text \<open>
  The constrained value types of \<open>config/models.py\<close>: exact durations, clock scales, JSON pointers, header names,
  \<open>FrozenDict\<close> and the canonical JSON profile with its explicit work stack. Text is a list of code points. The
  theorems are exact: which texts and which values the configuration accepts.
\<close>

section \<open>Durations\<close>

definition MAX_DURATION_NANOSECONDS :: int where "MAX_DURATION_NANOSECONDS = 2 ^ 63 - 1"
definition MINIMUM_POLL_NANOSECONDS :: int where "MINIMUM_POLL_NANOSECONDS = 10000000"

datatype duration_kind = Duration | PositiveDuration | PollDuration

fun minimum_nanoseconds :: "duration_kind \<Rightarrow> int" where
  "minimum_nanoseconds Duration = 0"
| "minimum_nanoseconds PositiveDuration = 1"
| "minimum_nanoseconds PollDuration = MINIMUM_POLL_NANOSECONDS"

definition DURATION_MULTIPLIERS :: "(ustring \<times> int) list" where
  "DURATION_MULTIPLIERS = [(text_of ''ns'', 1), (text_of ''us'', 1000), (text_of ''ms'', 1000000), (text_of ''s'', 1000000000),
     (text_of ''m'', 60000000000), (text_of ''h'', 3600000000000)]"

text \<open>The two groups of the duration pattern: the canonical digits and the unit.\<close>

definition duration_match :: "ustring \<Rightarrow> (ustring \<times> ustring) option" where
  "duration_match s =
     (let digits = takeWhile (is_digit ascii_decimal) s; unit_text = dropWhile (is_digit ascii_decimal) s in
      if array_index_match digits \<and> map_of DURATION_MULTIPLIERS unit_text \<noteq> None then Some (digits, unit_text) else None)"

text \<open>\<open>int\<close> refuses more than 4300 digits.\<close>

definition int_of_digits :: "ustring \<Rightarrow> int result" where
  "int_of_digits s = and_then (raise_unless (length s \<le> 4300) (ValueError ''Exceeds the limit (4300 digits) for integer string conversion''))
     (\<lambda>_. Inr (int (Observer_Protocol.digits_value ascii_decimal s)))"

definition Duration_new :: "duration_kind \<Rightarrow> ustring \<Rightarrow> ustring result" where
  "Duration_new kind s = (case duration_match s of
       None \<Rightarrow> Inl (ValueError ''duration must be a canonical integer with an explicit unit'')
     | Some (digits, unit_text) \<Rightarrow>
         and_then (int_of_digits digits) (\<lambda>n.
         let nanoseconds = n * the (map_of DURATION_MULTIPLIERS unit_text) in
         and_then (raise_unless (\<not> nanoseconds > MAX_DURATION_NANOSECONDS) (ValueError ''duration exceeds signed 64-bit nanoseconds'')) (\<lambda>_.
         and_then (raise_unless (\<not> nanoseconds < minimum_nanoseconds kind) (ValueError ''duration is below the permitted minimum'')) (\<lambda>_.
           Inr s))))"

definition nanoseconds :: "ustring \<Rightarrow> int" where
  "nanoseconds s = (case duration_match s of
     Some (digits, unit_text) \<Rightarrow> int (Observer_Protocol.digits_value ascii_decimal digits) * the (map_of DURATION_MULTIPLIERS unit_text) | None \<Rightarrow> 0)"

lemma takeWhile_digits:
  assumes "list_all (is_digit ascii_decimal) s" "t = [] \<or> \<not> is_digit ascii_decimal (hd t)"
  shows "takeWhile (is_digit ascii_decimal) (s @ t) = s" "dropWhile (is_digit ascii_decimal) (s @ t) = t"
  using assms by (cases t; auto simp: list_all_iff takeWhile_append dropWhile_append)+

lemma index_digits: "array_index_match s \<Longrightarrow> list_all (is_digit ascii_decimal) s"
  by (cases s) (auto simp: array_index_match_def is_digit_def ascii_decimal_def)

lemma unit_not_digit: "map_of DURATION_MULTIPLIERS u = Some m \<Longrightarrow> u \<noteq> [] \<and> \<not> is_digit ascii_decimal (hd u) \<and> 1 \<le> m"
  by (auto simp: DURATION_MULTIPLIERS_def text_of_def is_digit_def ascii_decimal_def split: if_splits)

lemma duration_match_eq:
  "duration_match s = Some (d, u) \<longleftrightarrow> s = d @ u \<and> array_index_match d \<and> map_of DURATION_MULTIPLIERS u \<noteq> None"
proof
  assume "duration_match s = Some (d, u)"
  then show "s = d @ u \<and> array_index_match d \<and> map_of DURATION_MULTIPLIERS u \<noteq> None"
    by (auto simp: duration_match_def Let_def split: if_splits)
next
  assume r: "s = d @ u \<and> array_index_match d \<and> map_of DURATION_MULTIPLIERS u \<noteq> None"
  then show "duration_match s = Some (d, u)"
    using takeWhile_digits[OF index_digits, of d u] unit_not_digit by (auto simp: duration_match_def Let_def)
qed

lemma digits_value_lower: "array_index_match d \<Longrightarrow> d \<noteq> [48] \<Longrightarrow> 10 ^ (length d - 1) \<le> Observer_Protocol.digits_value ascii_decimal d"
proof (induction d rule: rev_induct)
  case (snoc c d)
  show ?case
  proof (cases "d = []")
    case True
    with snoc.prems show ?thesis by (auto simp: array_index_match_def Observer_Protocol.digits_value_def ascii_decimal_def)
  next
    case False
    then have d: "array_index_match d" "d \<noteq> [48]" using snoc.prems by (auto simp: array_index_match_def)
    have "(10::nat) ^ (length (d @ [c]) - 1) = 10 ^ (length d - 1) * 10" using False by (cases d) simp_all
    then show ?thesis unfolding ascii_value_snoc using snoc.IH[OF d] by linarith
  qed
qed (simp add: array_index_match_def)

text \<open>Durations are canonical and bounded. A duration text is accepted exactly when it is a decimal number, written as
  Python prints it, followed by a unit, and denotes a number of nanoseconds that is at least the minimum of its kind and
  fits a signed 64-bit integer; the accepted text is kept and means that number.\<close>

lemma duration_exact:
  "Duration_new kind s = Inr d \<longleftrightarrow> d = s \<and> minimum_nanoseconds kind \<le> nanoseconds s \<and> nanoseconds s \<le> 2 ^ 63 - 1 \<and>
     (\<exists>n u m. s = text_of (nat_str n) @ u \<and> map_of DURATION_MULTIPLIERS u = Some m \<and> nanoseconds s = int n * m)"
proof (cases "duration_match s")
  case None
  have "\<not> (\<exists>n u m. s = text_of (nat_str n) @ u \<and> map_of DURATION_MULTIPLIERS u = Some m)"
    using None duration_match_eq[of s] array_index_nat by (metis not_None_eq option.distinct(1))
  then show ?thesis using None by (auto simp: Duration_new_def)
next
  case (Some p)
  obtain g u where p: "p = (g, u)" by (cases p)
  then have parts: "s = g @ u" "array_index_match g" and "map_of DURATION_MULTIPLIERS u \<noteq> None"
    using Some duration_match_eq[of s g u] by auto
  then obtain m where m: "map_of DURATION_MULTIPLIERS u = Some m" by blast
  let ?v = "Observer_Protocol.digits_value ascii_decimal g"
  have ns: "nanoseconds s = int ?v * m" using Some p m by (simp add: nanoseconds_def)
  have printed: "text_of (nat_str ?v) = g" using index_text[OF parts(2)] .
  have short: "length g \<le> 4300" if "int ?v * m \<le> 2 ^ 63 - 1"
  proof (rule ccontr)
    assume long: "\<not> length g \<le> 4300"
    then have "g \<noteq> [48]" by (intro notI) simp
    then have "10 ^ (length g - 1) \<le> ?v" by (rule digits_value_lower[OF parts(2)])
    moreover have "(2::nat) ^ 63 \<le> 10 ^ (length g - 1)"
    proof -
      have "(2::nat) ^ 63 \<le> 10 ^ 63" by (rule power_mono) simp_all
      also have "(10::nat) ^ 63 \<le> 10 ^ (length g - 1)" using long by (intro power_increasing) simp_all
      finally show ?thesis .
    qed
    ultimately have "(2::int) ^ 63 \<le> int ?v" by (metis of_nat_le_iff of_nat_numeral of_nat_power order_trans)
    also have "\<dots> \<le> int ?v * m" using unit_not_digit[OF m] by (simp add: mult_le_cancel_left1)
    finally show False using that by simp
  qed
  have "Duration_new kind s = Inr d \<longleftrightarrow> d = s \<and> minimum_nanoseconds kind \<le> nanoseconds s \<and> nanoseconds s \<le> 2 ^ 63 - 1"
    using short by (auto simp: Duration_new_def Some p m ns int_of_digits_def and_then_eq_Inr not_less MAX_DURATION_NANOSECONDS_def Let_def)
  then show ?thesis using parts printed m ns by metis
qed

section \<open>Scales, pointers and header names\<close>

definition MAX_SCALE_LENGTH :: nat where "MAX_SCALE_LENGTH = 32"
definition MAX_PATH_LENGTH :: nat where "MAX_PATH_LENGTH = 4096"

definition scale_match :: "ustring \<Rightarrow> bool" where
  "scale_match s =
     (let whole = takeWhile (is_digit ascii_decimal) s; rest = dropWhile (is_digit ascii_decimal) s in
      array_index_match whole \<and> (rest = [] \<or> hd rest = 46 \<and> is_digits ascii_decimal (tl rest)))"

definition scale_fraction :: "ustring \<Rightarrow> rat" where
  "scale_fraction s = (case decimal_parts ascii_decimal s of (c, e) \<Rightarrow> of_int c / 10 ^ nat (- e))"

definition Scale_new :: "ustring \<Rightarrow> ustring result" where
  "Scale_new s =
     and_then (raise_unless (\<not> length s > MAX_SCALE_LENGTH) (ValueError ''scale cannot exceed 32 characters'')) (\<lambda>_.
     and_then (raise_unless (scale_match s) (ValueError ''scale must be a canonical decimal string'')) (\<lambda>_.
     and_then (raise_unless (MINIMUM_SCALE \<le> scale_fraction s \<and> scale_fraction s \<le> MAXIMUM_SCALE)
       (ValueError ''scale must be in the inclusive range 0.001 through 100'')) (\<lambda>_. Inr s)))"

text \<open>The pattern \<open>(?:/(?:[^~/]|~0|~1)*)*\<close>, read from the left.\<close>

fun reference_tokens_match :: "ustring \<Rightarrow> bool" where
  "reference_tokens_match [] = True"
| "reference_tokens_match [c] = (c \<noteq> 126)"
| "reference_tokens_match (c # d # rest) = (if c = 126 then (d = 48 \<or> d = 49) \<and> reference_tokens_match rest
     else reference_tokens_match (d # rest))"

definition json_pointer_match :: "ustring \<Rightarrow> bool" where
  "json_pointer_match s = (s = [] \<or> hd s = 47 \<and> reference_tokens_match s)"

definition JsonPointer_new :: "ustring \<Rightarrow> ustring result" where
  "JsonPointer_new s = and_then (raise_unless (\<not> (length s > MAX_PATH_LENGTH \<or> \<not> json_pointer_match s))
     (ValueError ''value must be a bounded RFC 6901 JSON pointer'')) (\<lambda>_. Inr s)"

definition header_name_char :: "char \<Rightarrow> bool" where
  "header_name_char c = (c \<in> set ''!#$%&*+.^_`|~-'' \<or> c = CHR 39 \<or> in_char_range CHR ''0'' CHR ''9'' c \<or>
     in_char_range CHR ''A'' CHR ''Z'' c \<or> in_char_range CHR ''a'' CHR ''z'' c)"

definition lower_char :: "char \<Rightarrow> char" where
  "lower_char c = (if in_char_range CHR ''A'' CHR ''Z'' c then char_of (of_char c + 32 :: nat) else c)"

definition FORBIDDEN_HEADER_NAMES :: "string list" where
  "FORBIDDEN_HEADER_NAMES = [''host'', ''content-length'', ''transfer-encoding'', ''connection'', ''proxy-authorization'']"

text \<open>A name of the token pattern is ASCII, so that \<open>casefold\<close> lowers its letters.\<close>

definition ConfiguredHeaderName_new :: "string \<Rightarrow> string result" where
  "ConfiguredHeaderName_new s =
     and_then (raise_unless (\<not> (\<not> (1 \<le> length s \<and> length s \<le> 128) \<or> \<not> list_all header_name_char s))
       (ValueError ''configured header name must use HTTP token syntax'')) (\<lambda>_.
     and_then (raise_unless (map lower_char s \<notin> set FORBIDDEN_HEADER_NAMES)
       (ValueError ''configured header name is reserved by the transport'')) (\<lambda>_. Inr s))"

lemma reference_tokens_append: "reference_tokens_match (escape t @ rest) = reference_tokens_match rest"
  if "rest = [] \<or> hd rest = 47" for rest
  using that
proof (induction t)
  case (Cons c t)
  have step: "reference_tokens_match (x # s) = reference_tokens_match s" if "x \<noteq> 126" for x s
    using that by (cases s) auto
  show ?case using Cons by (auto simp: escape_def step)
qed (simp add: escape_def)

lemma tokens_of_pointer: "reference_tokens_match (pointer_of ts)"
proof (induction ts)
  case (Cons t ts)
  have "reference_tokens_match (47 # escape t @ pointer_of ts) = reference_tokens_match (escape t @ pointer_of ts)"
    by (cases "escape t @ pointer_of ts") auto
  moreover have "pointer_of ts = [] \<or> hd (pointer_of ts) = 47" by (cases ts) (simp_all add: pointer_of_def)
  ultimately show ?case using Cons reference_tokens_append by (simp add: pointer_of_def)
qed (simp add: pointer_of_def)

text \<open>A text of the token pattern is one escaped token followed by a pointer.\<close>

lemma tokens_decompose: "reference_tokens_match s \<Longrightarrow> \<exists>t ts. s = escape t @ pointer_of ts"
proof (induction s rule: reference_tokens_match.induct)
  case 1
  show ?case by (intro exI[of _ "[]"]) (simp add: escape_def pointer_of_def)
next
  case (2 c)
  show ?case
  proof (cases "c = 47")
    case True
    then show ?thesis by (intro exI[of _ "[]"] exI[of _ "[[]]"]) (simp add: escape_def pointer_of_def)
  next
    case False
    then show ?thesis using 2 by (intro exI[of _ "[c]"] exI[of _ "[]"]) (simp add: escape_def pointer_of_def)
  qed
next
  case (3 c d rest)
  show ?case
  proof (cases "c = 126")
    case True
    then obtain t ts where "rest = escape t @ pointer_of ts" "d = 48 \<or> d = 49" using 3 by auto
    then show ?thesis
      using True by (intro exI[of _ "(if d = 48 then 126 else 47) # t"] exI[of _ ts]) (auto simp: escape_def)
  next
    case False
    then obtain t ts where rest: "d # rest = escape t @ pointer_of ts" using 3 by auto
    show ?thesis
    proof (cases "c = 47")
      case True
      then show ?thesis using rest by (intro exI[of _ "[]"] exI[of _ "t # ts"]) (simp add: escape_def pointer_of_def)
    next
      case other: False
      then show ?thesis using rest False by (intro exI[of _ "c # t"] exI[of _ ts]) (simp add: escape_def)
    qed
  qed
qed

text \<open>A configured JSON pointer is accepted exactly when it is bounded and is the escaped form of a list of reference
  tokens, the form whose resolution finds exactly the values its tokens lead to.\<close>

lemma json_pointer_accepted_exactly:
  "JsonPointer_new s = Inr p \<longleftrightarrow> p = s \<and> length s \<le> MAX_PATH_LENGTH \<and> (\<exists>tokens. s = pointer_of tokens)"
proof -
  have "json_pointer_match s \<longleftrightarrow> (\<exists>tokens. s = pointer_of tokens)"
  proof
    assume match: "json_pointer_match s"
    show "\<exists>tokens. s = pointer_of tokens"
    proof (cases s)
      case Nil
      then show ?thesis by (intro exI[of _ "[]"]) (simp add: pointer_of_def)
    next
      case (Cons c r)
      then have slash: "hd s = 47" and "reference_tokens_match s" using match by (auto simp: json_pointer_match_def)
      then obtain t ts where s: "s = escape t @ pointer_of ts" using tokens_decompose by blast
      have "t = []"
      proof (cases t)
        case (Cons x xs)
        then have "hd s \<noteq> 47" by (auto simp: s escape_def)
        then show ?thesis using slash by simp
      qed
      then show ?thesis using s by (auto simp: escape_def)
    qed
  next
    assume "\<exists>tokens. s = pointer_of tokens"
    then obtain ts where "s = pointer_of ts" by blast
    then show "json_pointer_match s" using tokens_of_pointer[of ts] by (cases ts) (simp_all add: json_pointer_match_def pointer_of_def)
  qed
  then show ?thesis by (auto simp: JsonPointer_new_def and_then_eq_Inr not_less)
qed

section \<open>Canonical JSON\<close>

definition MAX_CANONICAL_STRING_LENGTH :: nat where "MAX_CANONICAL_STRING_LENGTH = 4096"
definition MAX_CANONICAL_COLLECTION_ITEMS :: nat where "MAX_CANONICAL_COLLECTION_ITEMS = 1000"
definition MAX_CANONICAL_OBJECT_KEY_LENGTH :: nat where "MAX_CANONICAL_OBJECT_KEY_LENGTH = 256"
definition MAX_CANONICAL_DEPTH :: nat where "MAX_CANONICAL_DEPTH = 64"
definition MAX_CANONICAL_NODES :: nat where "MAX_CANONICAL_NODES = 100000"

text \<open>A Python object the loader may pass: the JSON types, the frozen forms of an earlier validation, and what is refused,
  plain tuples, other mappings and every other type. A key that is not a string is \<open>None\<close>.\<close>

datatype config_object =
    PyNone | PyBool bool | PyInt int | PyStr ustring | PyList "config_object list" | PyFrozenArray "config_object list" | PyTuple |
    PyFrozenDict "(ustring option \<times> config_object) list" | PyDict "(ustring option \<times> config_object) list" | PyMapping | PyOther

datatype FrozenJsonValue =
    CNone | CBool bool | CInt int | CStr ustring | CArray "FrozenJsonValue list" | CDict "(ustring \<times> FrozenJsonValue) list"

definition FrozenDict_init :: "(ustring \<times> FrozenJsonValue) list \<Rightarrow> FrozenJsonValue result" where
  "FrozenDict_init items = and_then (raise_unless (distinct (map fst items)) (ValueError ''FrozenDict keys must be unique'')) (\<lambda>_. Inr (CDict items))"

definition canonical_key :: "ustring option \<Rightarrow> unit result" where
  "canonical_key key = (case key of
       None \<Rightarrow> Inl (TypeError ''canonical JSON object keys must be strings'')
     | Some k \<Rightarrow> raise_unless (\<not> length k > MAX_CANONICAL_OBJECT_KEY_LENGTH)
         (ValueError ''canonical JSON object key exceeds the length limit''))"

text \<open>What one node of the work stack pushes; the keys of an object are checked from the last to the first.\<close>

definition push_properties :: "(ustring option \<times> config_object) list \<Rightarrow> config_object list result" where
  "push_properties ps =
     and_then (raise_unless (\<not> length ps > MAX_CANONICAL_COLLECTION_ITEMS) (ValueError ''canonical JSON object exceeds the property limit'')) (\<lambda>_.
     and_then (for_each (\<lambda>(k, _). canonical_key k) (rev ps)) (\<lambda>_. Inr (map snd ps)))"

fun visit :: "config_object \<Rightarrow> config_object list result" where
  "visit PyNone = Inr []"
| "visit (PyBool _) = Inr []"
| "visit (PyInt i) = and_then (raise_unless (- MAX_SAFE_INTEGER \<le> i \<and> i \<le> MAX_SAFE_INTEGER)
     (ValueError ''canonical JSON integer is outside the safe range'')) (\<lambda>_. Inr [])"
| "visit (PyStr s) = and_then (raise_unless (\<not> length s > MAX_CANONICAL_STRING_LENGTH)
     (ValueError ''canonical JSON string exceeds the length limit'')) (\<lambda>_. Inr [])"
| "visit (PyList vs) = and_then (raise_unless (\<not> length vs > MAX_CANONICAL_COLLECTION_ITEMS)
     (ValueError ''canonical JSON array exceeds the item limit'')) (\<lambda>_. Inr vs)"
| "visit (PyFrozenArray vs) = Inr vs"
| "visit PyTuple = Inl (TypeError ''canonical JSON arrays must be provided as lists'')"
| "visit (PyFrozenDict ps) = push_properties ps"
| "visit (PyDict ps) = push_properties ps"
| "visit PyMapping = Inl (TypeError ''canonical JSON objects must be provided as dictionaries'')"
| "visit PyOther = Inl (TypeError ''canonical JSON permits only null, booleans, integers, strings, arrays, and objects'')"

lemma push_properties_eq: "push_properties ps = Inr vs \<longleftrightarrow> vs = map snd ps \<and> length ps \<le> MAX_CANONICAL_COLLECTION_ITEMS \<and>
    (\<forall>(k, v) \<in> set ps. \<exists>t. k = Some t \<and> length t \<le> MAX_CANONICAL_OBJECT_KEY_LENGTH)"
proof -
  have key: "returns (canonical_key k) \<longleftrightarrow> (\<exists>t. k = Some t \<and> length t \<le> MAX_CANONICAL_OBJECT_KEY_LENGTH)" for k
    by (auto simp: canonical_key_def returns_iff not_less split: option.splits)
  have "returns (for_each (\<lambda>(k, _). canonical_key k) (rev ps)) \<longleftrightarrow>
      (\<forall>(k, v) \<in> set ps. \<exists>t. k = Some t \<and> length t \<le> MAX_CANONICAL_OBJECT_KEY_LENGTH)"
    by (simp add: for_each_unit_ok case_prod_unfold key)
  then show ?thesis by (auto simp: push_properties_def and_then_eq_Inr not_less returns_iff)
qed

lemma visit_smaller: "visit v = Inr vs \<Longrightarrow> sum_list (map (\<lambda>u. size u + 1) vs) < size v + 1"
proof -
  have items: "sum_list (map (\<lambda>u. size u + 1) us) = size_list size us" for us :: "config_object list"
    by (induction us) simp_all
  have properties: "sum_list (map (\<lambda>u. size u + 1) (map snd ps)) \<le> size_list (size_prod (\<lambda>_. 0) size) ps" for ps :: "(ustring option \<times> config_object) list"
    by (induction ps) auto
  assume visited: "visit v = Inr vs"
  show ?thesis
  proof (cases v)
    case (PyFrozenDict ps)
    then have "vs = map snd ps" using visited by (simp add: push_properties_eq)
    then show ?thesis using properties[of ps] by (simp add: PyFrozenDict)
  next
    case (PyDict ps)
    then have "vs = map snd ps" using visited by (simp add: push_properties_eq)
    then show ?thesis using properties[of ps] by (simp add: PyDict)
  qed (use visited items in \<open>auto simp: and_then_eq_Inr\<close>)
qed

text \<open>The loop of \<open>freeze_canonical_json\<close>: the head of the list is the top of the stack.\<close>

function check_stack :: "(config_object \<times> nat) list \<Rightarrow> nat \<Rightarrow> unit result" where
  "check_stack [] nodes = Inr ()"
| "check_stack ((current, depth) # stack) nodes =
     and_then (raise_unless (\<not> nodes + 1 > MAX_CANONICAL_NODES) (ValueError ''canonical JSON exceeds the node limit'')) (\<lambda>_.
     and_then (raise_unless (\<not> depth > MAX_CANONICAL_DEPTH) (ValueError ''canonical JSON exceeds the depth limit'')) (\<lambda>_.
     case visit current of Inl e \<Rightarrow> Inl e | Inr items \<Rightarrow> check_stack (map (\<lambda>item. (item, depth + 1)) items @ stack) (nodes + 1)))"
  by pat_completeness auto

termination
proof (relation "measure (\<lambda>(stack, _). sum_list (map (\<lambda>(v, _). size v + 1) stack))")
  fix current depth stack nodes u u' items
  assume "visit current = Inr items"
  from visit_smaller[OF this] show "((map (\<lambda>item. (item, depth + 1)) items @ stack, nodes + 1), (current, depth) # stack, nodes) \<in>
      measure (\<lambda>(stack, _). sum_list (map (\<lambda>(v, _). size v + 1) stack))"
    by (simp add: comp_def case_prod_unfold)
qed simp

lemma for_each_cong [fundef_cong]: "xs = ys \<Longrightarrow> (\<And>x. x \<in> set ys \<Longrightarrow> f x = g x) \<Longrightarrow> for_each f xs = for_each g ys"
proof -
  assume "xs = ys" "\<And>x. x \<in> set ys \<Longrightarrow> f x = g x"
  moreover have "(\<And>x. x \<in> set ys \<Longrightarrow> f x = g x) \<Longrightarrow> for_each f ys = for_each g ys" by (induction ys) auto
  ultimately show ?thesis by simp
qed

fun freeze_validated_json :: "config_object \<Rightarrow> FrozenJsonValue result" where
  "freeze_validated_json PyNone = Inr CNone"
| "freeze_validated_json (PyBool b) = Inr (CBool b)"
| "freeze_validated_json (PyInt i) = Inr (CInt i)"
| "freeze_validated_json (PyStr s) = Inr (CStr s)"
| "freeze_validated_json (PyList vs) = and_then (for_each freeze_validated_json vs) (\<lambda>fs. Inr (CArray fs))"
| "freeze_validated_json (PyFrozenArray vs) = and_then (for_each freeze_validated_json vs) (\<lambda>fs. Inr (CArray fs))"
| "freeze_validated_json (PyFrozenDict ps) = and_then (for_each (\<lambda>(k, v). and_then (freeze_validated_json v) (\<lambda>f. Inr (the k, f))) ps) FrozenDict_init"
| "freeze_validated_json (PyDict ps) = and_then (for_each (\<lambda>(k, v). and_then (freeze_validated_json v) (\<lambda>f. Inr (the k, f))) ps) FrozenDict_init"
| "freeze_validated_json _ = Inl (RuntimeError ''canonical JSON was not validated'')"

definition freeze_canonical_json :: "config_object \<Rightarrow> FrozenJsonValue result" where
  "freeze_canonical_json v = and_then (check_stack [(v, 1)] 0) (\<lambda>_. freeze_validated_json v)"

fun thaw_canonical_json :: "FrozenJsonValue \<Rightarrow> json_value" where
  "thaw_canonical_json CNone = JNull"
| "thaw_canonical_json (CBool b) = JBool b"
| "thaw_canonical_json (CInt i) = JInt i"
| "thaw_canonical_json (CStr s) = JString s"
| "thaw_canonical_json (CArray vs) = JArray (map thaw_canonical_json vs)"
| "thaw_canonical_json (CDict ps) = JObject (map (\<lambda>(k, v). (k, thaw_canonical_json v)) ps)"

section \<open>What the profile allows\<close>

fun wire :: "config_object \<Rightarrow> json_value" where
  "wire PyNone = JNull"
| "wire (PyBool b) = JBool b"
| "wire (PyInt i) = JInt i"
| "wire (PyStr s) = JString s"
| "wire (PyList vs) = JArray (map wire vs)"
| "wire (PyFrozenArray vs) = JArray (map wire vs)"
| "wire (PyFrozenDict ps) = JObject (map (\<lambda>(k, v). (the k, wire v)) ps)"
| "wire (PyDict ps) = JObject (map (\<lambda>(k, v). (the k, wire v)) ps)"
| "wire _ = JOther"

definition properties_ok :: "(ustring option \<times> config_object) list \<Rightarrow> bool" where
  "properties_ok ps = (length ps \<le> MAX_CANONICAL_COLLECTION_ITEMS \<and>
     (\<forall>(k, v) \<in> set ps. \<exists>t. k = Some t \<and> length t \<le> MAX_CANONICAL_OBJECT_KEY_LENGTH))"

fun acceptable :: "config_object \<Rightarrow> bool" where
  "acceptable PyNone = True"
| "acceptable (PyBool b) = True"
| "acceptable (PyInt i) = (- MAX_SAFE_INTEGER \<le> i \<and> i \<le> MAX_SAFE_INTEGER)"
| "acceptable (PyStr s) = (length s \<le> MAX_CANONICAL_STRING_LENGTH)"
| "acceptable (PyList vs) = (length vs \<le> MAX_CANONICAL_COLLECTION_ITEMS \<and> list_all acceptable vs)"
| "acceptable (PyFrozenArray vs) = list_all acceptable vs"
| "acceptable (PyFrozenDict ps) = (properties_ok ps \<and> list_all (\<lambda>(k, v). acceptable v) ps)"
| "acceptable (PyDict ps) = (properties_ok ps \<and> list_all (\<lambda>(k, v). acceptable v) ps)"
| "acceptable _ = False"

fun unique_keys :: "config_object \<Rightarrow> bool" where
  "unique_keys (PyList vs) = list_all unique_keys vs"
| "unique_keys (PyFrozenArray vs) = list_all unique_keys vs"
| "unique_keys (PyFrozenDict ps) = (distinct (map (the \<circ> fst) ps) \<and> list_all (\<lambda>(k, v). unique_keys v) ps)"
| "unique_keys (PyDict ps) = (distinct (map (the \<circ> fst) ps) \<and> list_all (\<lambda>(k, v). unique_keys v) ps)"
| "unique_keys _ = True"

lemma visit_failed: "visit v = Inl e \<Longrightarrow> \<not> acceptable v"
proof -
  assume failed: "visit v = Inl e"
  have "\<not> properties_ok ps" if "push_properties ps = Inl e" for ps
    using that push_properties_eq[of ps "map snd ps"] by (auto simp: properties_ok_def)
  then show ?thesis using failed by (cases v) (auto simp: and_then_eq_Inl)
qed

lemma pairs_snd: "set (map snd ps) = snd ` set ps" "list_all (\<lambda>(k, v). P v) ps \<longleftrightarrow> (\<forall>v \<in> snd ` set ps. P v)"
  by (auto simp: list_all_iff)

lemma visit_parts:
  assumes "visit v = Inr items"
  shows "json_nodes (wire v) = 1 + sum_list (map (json_nodes \<circ> wire) items)"
    "d + json_depth (wire v) \<le> Suc m \<longleftrightarrow> d \<le> m \<and> (\<forall>i \<in> set items. d + 1 + json_depth (wire i) \<le> Suc m)"
    "acceptable v \<longleftrightarrow> (\<forall>i \<in> set items. acceptable i)"
proof -
  have object: "json_nodes (JObject (map (\<lambda>(k, v). (the k, wire v)) ps)) = 1 + sum_list (map (json_nodes \<circ> wire) (map snd ps))"
    "d + json_depth (JObject (map (\<lambda>(k, v). (the k, wire v)) ps)) \<le> Suc m \<longleftrightarrow>
      d \<le> m \<and> (\<forall>i \<in> set (map snd ps). d + 1 + json_depth (wire i) \<le> Suc m)" for ps
  proof -
    show "json_nodes (JObject (map (\<lambda>(k, v). (the k, wire v)) ps)) = 1 + sum_list (map (json_nodes \<circ> wire) (map snd ps))"
      by (simp add: comp_def case_prod_unfold)
    show "d + json_depth (JObject (map (\<lambda>(k, v). (the k, wire v)) ps)) \<le> Suc m \<longleftrightarrow>
        d \<le> m \<and> (\<forall>i \<in> set (map snd ps). d + 1 + json_depth (wire i) \<le> Suc m)"
      using nested_depth[of "set ps" d "\<lambda>(k, v). json_depth (wire v)" m] by (simp add: case_prod_unfold image_image)
  qed
  have array: "d + json_depth (JArray (map wire vs)) \<le> Suc m \<longleftrightarrow> d \<le> m \<and> (\<forall>i \<in> set vs. d + 1 + json_depth (wire i) \<le> Suc m)" for vs
    using nested_depth[of "set vs" d "\<lambda>v. json_depth (wire v)" m] by (simp add: image_image)
  show "json_nodes (wire v) = 1 + sum_list (map (json_nodes \<circ> wire) items)"
    using assms object(1) by (cases v) (auto simp: and_then_eq_Inr push_properties_eq comp_def)
  show "d + json_depth (wire v) \<le> Suc m \<longleftrightarrow> d \<le> m \<and> (\<forall>i \<in> set items. d + 1 + json_depth (wire i) \<le> Suc m)"
    using assms object(2) array by (cases v) (auto simp: and_then_eq_Inr push_properties_eq simp del: json_depth.simps(1,2))
  show "acceptable v \<longleftrightarrow> (\<forall>i \<in> set items. acceptable i)"
    using assms by (cases v) (auto simp: and_then_eq_Inr push_properties_eq properties_ok_def list_all_iff)
qed

lemma check_stack_exact:
  "nodes \<le> MAX_CANONICAL_NODES \<Longrightarrow> check_stack stack nodes = Inr () \<longleftrightarrow>
     nodes + sum_list (map (\<lambda>(v, _). json_nodes (wire v)) stack) \<le> MAX_CANONICAL_NODES \<and>
     (\<forall>(v, d) \<in> set stack. d + json_depth (wire v) \<le> Suc MAX_CANONICAL_DEPTH \<and> acceptable v)"
proof (induction stack nodes rule: check_stack.induct)
  case (2 current depth stack nodes)
  have one: "1 \<le> json_nodes (wire current)" by (cases "wire current") simp_all
  have deep: "1 \<le> json_depth (wire current)" by (cases "wire current") simp_all
  consider (full) "MAX_CANONICAL_NODES < nodes + 1" | (low) "nodes + 1 \<le> MAX_CANONICAL_NODES" "MAX_CANONICAL_DEPTH < depth" |
    (visited) "nodes + 1 \<le> MAX_CANONICAL_NODES" "depth \<le> MAX_CANONICAL_DEPTH" by linarith
  then show ?case
  proof cases
    case full
    then show ?thesis using one by simp
  next
    case low
    then show ?thesis using deep by simp
  next
    case visited
    show ?thesis
    proof (cases "visit current")
      case (Inl e)
      then show ?thesis using visited visit_failed[OF Inl] by simp
    next
      case (Inr items)
      note parts = visit_parts[OF Inr]
      have IH: "check_stack (map (\<lambda>item. (item, depth + 1)) items @ stack) (nodes + 1) = Inr () \<longleftrightarrow>
          nodes + 1 + sum_list (map (\<lambda>(v, _). json_nodes (wire v)) (map (\<lambda>item. (item, depth + 1)) items @ stack)) \<le> MAX_CANONICAL_NODES \<and>
          (\<forall>(v, d) \<in> set (map (\<lambda>item. (item, depth + 1)) items @ stack). d + json_depth (wire v) \<le> Suc MAX_CANONICAL_DEPTH \<and> acceptable v)"
        using "2.IH" visited Inr by simp
      have step: "check_stack ((current, depth) # stack) nodes = check_stack (map (\<lambda>item. (item, depth + 1)) items @ stack) (nodes + 1)"
        using visited Inr by simp
      have total: "sum_list (map (\<lambda>(v, _). json_nodes (wire v)) (map (\<lambda>item. (item, depth + 1)) items @ stack)) =
          sum_list (map (json_nodes \<circ> wire) items) + sum_list (map (\<lambda>(v, _). json_nodes (wire v)) stack)"
        by (simp add: comp_def)
      have every: "(\<forall>(v, d) \<in> set (map (\<lambda>item. (item, depth + 1)) items @ stack). d + json_depth (wire v) \<le> Suc MAX_CANONICAL_DEPTH \<and> acceptable v) \<longleftrightarrow>
          (\<forall>i \<in> set items. depth + 1 + json_depth (wire i) \<le> Suc MAX_CANONICAL_DEPTH \<and> acceptable i) \<and>
          (\<forall>(v, d) \<in> set stack. d + json_depth (wire v) \<le> Suc MAX_CANONICAL_DEPTH \<and> acceptable v)"
        by (simp add: ball_Un)
      show ?thesis
        unfolding step IH total every using visited parts(1) parts(2)[of depth MAX_CANONICAL_DEPTH] parts(3)
        by (auto simp: ball_conj_distrib)
    qed
  qed
qed simp

lemma frozen_items:
  assumes "\<And>v f. v \<in> set vs \<Longrightarrow> freeze_validated_json v = Inr f \<longleftrightarrow> unique_keys v \<and> thaw_canonical_json f = wire v"
  shows "for_each freeze_validated_json vs = Inr fs \<longleftrightarrow> list_all unique_keys vs \<and> map thaw_canonical_json fs = map wire vs"
  using assms by (induction vs arbitrary: fs) (auto simp: and_then_eq_Inr Cons_eq_map_conv map_eq_Cons_conv)

lemma frozen_properties:
  assumes "\<And>k v f. (k, v) \<in> set ps \<Longrightarrow> freeze_validated_json v = Inr f \<longleftrightarrow> unique_keys v \<and> thaw_canonical_json f = wire v"
  shows "for_each (\<lambda>(k, v). and_then (freeze_validated_json v) (\<lambda>f. Inr (the k, f))) ps = Inr fs \<longleftrightarrow>
    list_all (\<lambda>(k, v). unique_keys v) ps \<and> map (\<lambda>(k, f). (k, thaw_canonical_json f)) fs = map (\<lambda>(k, v). (the k, wire v)) ps"
  using assms
proof (induction ps arbitrary: fs)
  case (Cons p ps)
  obtain k v where p: "p = (k, v)" by (cases p)
  have head: "freeze_validated_json v = Inr f \<longleftrightarrow> unique_keys v \<and> thaw_canonical_json f = wire v" for f using Cons.prems[of k v f] p by simp
  have tail: "for_each (\<lambda>(k, v). and_then (freeze_validated_json v) (\<lambda>f. Inr (the k, f))) ps = Inr gs \<longleftrightarrow>
    list_all (\<lambda>(k, v). unique_keys v) ps \<and> map (\<lambda>(k, f). (k, thaw_canonical_json f)) gs = map (\<lambda>(k, v). (the k, wire v)) ps" for gs
    using Cons.prems by (intro Cons.IH) (meson list.set_intros(2))
  show ?case by (auto simp: p and_then_eq_Inr head tail map_eq_Cons_conv)
qed auto

lemma thaw_canonical_eq:
  "thaw_canonical_json f = JNull \<longleftrightarrow> f = CNone" "thaw_canonical_json f = JBool b \<longleftrightarrow> f = CBool b" "thaw_canonical_json f = JInt i \<longleftrightarrow> f = CInt i"
  "thaw_canonical_json f = JString s \<longleftrightarrow> f = CStr s" "thaw_canonical_json f = JArray vs \<longleftrightarrow> (\<exists>fs. f = CArray fs \<and> map thaw_canonical_json fs = vs)"
  "thaw_canonical_json f = JObject ps \<longleftrightarrow> (\<exists>gs. f = CDict gs \<and> map (\<lambda>(k, f). (k, thaw_canonical_json f)) gs = ps)"
  by (cases f; auto)+

lemma keys_of_frozen:
  assumes "map (\<lambda>(k, f). (k, thaw_canonical_json f)) gs = map (\<lambda>(k, v). (the k, wire v)) ps"
  shows "map fst gs = map (the \<circ> fst) ps"
proof -
  have "map fst (map (\<lambda>(k, f). (k, thaw_canonical_json f)) gs) = map fst (map (\<lambda>(k, v). (the k, wire v)) ps)" using assms by simp
  then show ?thesis by (simp add: comp_def case_prod_unfold)
qed

lemma freeze_validated_exact:
  "acceptable v \<Longrightarrow> freeze_validated_json v = Inr f \<longleftrightarrow> unique_keys v \<and> thaw_canonical_json f = wire v"
proof (induction v arbitrary: f rule: freeze_validated_json.induct)
  case (5 vs)
  then have "\<And>v f. v \<in> set vs \<Longrightarrow> freeze_validated_json v = Inr f \<longleftrightarrow> unique_keys v \<and> thaw_canonical_json f = wire v"
    by (auto simp: list_all_iff)
  then show ?case by (auto simp: and_then_eq_Inr frozen_items thaw_canonical_eq)
next
  case (6 vs)
  then have "\<And>v f. v \<in> set vs \<Longrightarrow> freeze_validated_json v = Inr f \<longleftrightarrow> unique_keys v \<and> thaw_canonical_json f = wire v"
    by (auto simp: list_all_iff)
  then show ?case by (auto simp: and_then_eq_Inr frozen_items thaw_canonical_eq)
next
  case (7 ps)
  then have "\<And>k v f. (k, v) \<in> set ps \<Longrightarrow> freeze_validated_json v = Inr f \<longleftrightarrow> unique_keys v \<and> thaw_canonical_json f = wire v"
    by (fastforce simp: list_all_iff)
  then show ?case by (auto simp: and_then_eq_Inr frozen_properties thaw_canonical_eq FrozenDict_init_def keys_of_frozen dest: keys_of_frozen)
next
  case (8 ps)
  then have "\<And>k v f. (k, v) \<in> set ps \<Longrightarrow> freeze_validated_json v = Inr f \<longleftrightarrow> unique_keys v \<and> thaw_canonical_json f = wire v"
    by (fastforce simp: list_all_iff)
  then show ?case by (auto simp: and_then_eq_Inr frozen_properties thaw_canonical_eq FrozenDict_init_def keys_of_frozen dest: keys_of_frozen)
qed (auto simp: thaw_canonical_eq)

text \<open>The canonical JSON profile is checked exactly. The iterative walk with its work stack accepts a value of the
  loader exactly when it has at most 100000 nodes and 64 levels, only safe integers, bounded strings, arrays, objects and
  keys and no foreign type; the frozen value, made when every object's keys are distinct, thaws to the value given.\<close>

lemma canonical_json_exact:
  "freeze_canonical_json v = Inr f \<longleftrightarrow> json_nodes (wire v) \<le> MAX_CANONICAL_NODES \<and> json_depth (wire v) \<le> MAX_CANONICAL_DEPTH \<and>
     acceptable v \<and> unique_keys v \<and> thaw_canonical_json f = wire v"
  using check_stack_exact[of 0 "[(v, 1)]"] freeze_validated_exact[of v f] by (auto simp: freeze_canonical_json_def and_then_eq_Inr)

end
