(* ===== verification/Assertions_Transport.thy ===== *)
theory Assertions_Transport
  imports Config_Values Transition_Commands
begin

text \<open>
  The transport assertions of \<open>assertions/transport.py\<close> with their configuration, the expected HTTP statuses and
  the acknowledgement deadline. They read only the durable evidence of one attempt; the theorem says that the
  verdict is the one the configured expectation asks for and that missing evidence is never a verdict on the receiver.
\<close>

section \<open>Configuration\<close>

datatype HttpStatusClass = SUCCESS | REDIRECTION | CLIENT_ERROR | SERVER_ERROR

definition MAX_STATUS_CODES :: nat where "MAX_STATUS_CODES = 64"
definition MAX_STATUS_CLASSES :: nat where "MAX_STATUS_CLASSES = 4"

record StatusExpectation =
  se_codes :: "int list option"
  se_classes :: "HttpStatusClass list option"

definition require_unique_values :: "'a list \<Rightarrow> string \<Rightarrow> 'a list result" where
  "require_unique_values xs field_name =
     and_then (raise_unless (length xs = length (remdups xs)) (ValueError (field_name @ '' values must be unique''))) (\<lambda>_. Inr xs)"

definition validate_codes :: "int list option \<Rightarrow> int list option result" where
  "validate_codes codes = (case codes of None \<Rightarrow> Inr None
     | Some xs \<Rightarrow>
         and_then (raise_unless (list_all (\<lambda>s. 100 \<le> s \<and> s \<le> 599) xs) (ValueError ''codes must be HTTP statuses'')) (\<lambda>_.
         and_then (raise_unless (1 \<le> length xs \<and> length xs \<le> MAX_STATUS_CODES) (ValueError ''codes must contain between 1 and 64 values'')) (\<lambda>_.
         and_then (require_unique_values xs ''codes'') (\<lambda>ys. Inr (Some ys)))))"

definition validate_classes :: "HttpStatusClass list option \<Rightarrow> HttpStatusClass list option result" where
  "validate_classes classes = (case classes of None \<Rightarrow> Inr None
     | Some xs \<Rightarrow>
         and_then (raise_unless (1 \<le> length xs \<and> length xs \<le> MAX_STATUS_CLASSES) (ValueError ''classes must contain between 1 and 4 values'')) (\<lambda>_.
         and_then (require_unique_values xs ''classes'') (\<lambda>ys. Inr (Some ys))))"

definition StatusExpectation_validate :: "StatusExpectation \<Rightarrow> StatusExpectation result" where
  "StatusExpectation_validate e =
     and_then (validate_codes (se_codes e)) (\<lambda>codes.
     and_then (validate_classes (se_classes e)) (\<lambda>classes.
     and_then (raise_unless (codes \<noteq> None \<or> classes \<noteq> None) (ValueError ''status expectation requires codes, classes, or both'')) (\<lambda>_.
       Inr \<lparr>se_codes = codes, se_classes = classes\<rparr>)))"

text \<open>The two configured transport assertions; the deadline is a positive duration.\<close>

datatype TransportAssertion =
    HttpStatusAssertion string StatusExpectation
  | AcknowledgementDeadlineAssertion string ustring

section \<open>Evidence and evaluations\<close>

record AttemptEvidence =
  ae_record_id :: string
  ae_run_id :: string
  ae_scenario_id :: string
  ae_event_id :: string
  ae_delivery_id :: string
  ae_attempt_id :: string
  ae_sequence :: int
  ae_recorded_at :: ustring
  ae_logical_time_ns :: "int option"
  ae_monotonic_elapsed_ns :: "int option"
  ae_state :: AttemptEvidenceState
  ae_classification :: AttemptClassification
  ae_request :: "RequestMetadata option"
  ae_response :: "ResponseMetadata option"
  ae_error :: "TransportError option"

definition ResponseMetadata_validate :: "ResponseMetadata \<Rightarrow> ResponseMetadata result" where
  "ResponseMetadata_validate r =
     and_then (raise_unless (100 \<le> response_status r \<and> response_status r \<le> 599) (ValueError ''status must be an HTTP status'')) (\<lambda>_.
     and_then (when_some (response_body_sha256 r) (\<lambda>d. and_then (validate_sha256_digest d) (\<lambda>_. Inr ()))) (\<lambda>_.
     and_then (raise_unless (0 \<le> captured_bytes r \<and> captured_bytes r \<le> 2 ^ 63 - 1) (ValueError ''captured_bytes must be nonnegative'')) (\<lambda>_.
       Inr r)))"

datatype TransportAssertionCode =
    STATUS_MATCH | STATUS_MISMATCH | RESPONSE_MISSING | HEADER_TIMING_MISSING |
    ACKNOWLEDGEMENT_WITHIN_DEADLINE | ACKNOWLEDGEMENT_DEADLINE_EXCEEDED

record TransportAssertionInput =
  ti_attempt :: AttemptEvidence
  ti_response_headers_elapsed_ns :: "int option"

definition nonnegative_int64 :: "int option \<Rightarrow> bool" where
  "nonnegative_int64 v = (case v of None \<Rightarrow> True | Some n \<Rightarrow> 0 \<le> n \<and> n \<le> 2 ^ 63 - 1)"

definition TransportAssertionInput_post_init :: "TransportAssertionInput \<Rightarrow> TransportAssertionInput result" where
  "TransportAssertionInput_post_init i =
     and_then (raise_unless (nonnegative_int64 (ti_response_headers_elapsed_ns i))
       (ValueError ''response_headers_elapsed_ns must be a nonnegative integer or None'')) (\<lambda>_. Inr i)"

record TransportAssertionEvaluation =
  te_assertion_id :: string
  te_attempt_id :: string
  te_result :: AssertionResult
  te_code :: TransportAssertionCode
  te_expected_statuses :: "int list"
  te_expected_classes :: "HttpStatusClass list"
  te_actual_status :: "int option"
  te_deadline_ns :: "int option"
  te_response_headers_elapsed_ns :: "int option"

definition TransportAssertionEvaluation_post_init :: "TransportAssertionEvaluation \<Rightarrow> TransportAssertionEvaluation result" where
  "TransportAssertionEvaluation_post_init e =
     and_then (raise_unless (te_assertion_id e \<noteq> []) (ValueError ''assertion_id must be a nonempty string'')) (\<lambda>_.
     and_then (raise_unless (te_attempt_id e \<noteq> []) (ValueError ''attempt_id must be a nonempty string'')) (\<lambda>_.
     and_then (raise_unless (te_result e \<in> {AssertionResult.PASS, AssertionResult.FAIL, AssertionResult.ERROR})
       (ValueError ''transport assertion result must be pass, fail, or error'')) (\<lambda>_.
     and_then (raise_unless (list_all (\<lambda>s. 100 \<le> s \<and> s \<le> 599) (te_expected_statuses e))
       (TypeError ''expected_statuses must contain HTTP status integers'')) (\<lambda>_.
     and_then (raise_unless (case te_actual_status e of None \<Rightarrow> True | Some s \<Rightarrow> 100 \<le> s \<and> s \<le> 599)
       (ValueError ''actual_status must be an HTTP status or None'')) (\<lambda>_.
     and_then (raise_unless (nonnegative_int64 (te_deadline_ns e))
       (ValueError ''deadline_ns must be a nonnegative signed-int64 integer or None'')) (\<lambda>_.
     and_then (raise_unless (nonnegative_int64 (te_response_headers_elapsed_ns e))
       (ValueError ''response_headers_elapsed_ns must be a nonnegative signed-int64 integer or None'')) (\<lambda>_. Inr e)))))))"

section \<open>Evaluation\<close>

definition status_class :: "int \<Rightarrow> HttpStatusClass option" where
  "status_class status =
     (if 200 \<le> status \<and> status \<le> 299 then Some SUCCESS
      else if 300 \<le> status \<and> status \<le> 399 then Some REDIRECTION
      else if 400 \<le> status \<and> status \<le> 499 then Some CLIENT_ERROR
      else if 500 \<le> status \<and> status \<le> 599 then Some SERVER_ERROR
      else None)"

text \<open>\<open>xs or ()\<close> for an optional tuple.\<close>

definition listed :: "'a list option \<Rightarrow> 'a list" where
  "listed xs = (case xs of None \<Rightarrow> [] | Some ys \<Rightarrow> ys)"

definition evaluate_status :: "string \<Rightarrow> StatusExpectation \<Rightarrow> AttemptEvidence \<Rightarrow> TransportAssertionEvaluation result" where
  "evaluate_status assertion_id expected attempt =
     (let codes = listed (se_codes expected);
          classes = listed (se_classes expected);
          evaluation = (\<lambda>result code status. TransportAssertionEvaluation_post_init
            \<lparr>te_assertion_id = assertion_id, te_attempt_id = ae_attempt_id attempt, te_result = result, te_code = code,
             te_expected_statuses = codes, te_expected_classes = classes, te_actual_status = status, te_deadline_ns = None,
             te_response_headers_elapsed_ns = None\<rparr>) in
      case ae_response attempt of
        None \<Rightarrow> evaluation AssertionResult.ERROR RESPONSE_MISSING None
      | Some response \<Rightarrow>
          let status = response_status response;
              matched = status \<in> set codes \<or> (\<exists>c \<in> set classes. status_class status = Some c) in
          evaluation (if matched then AssertionResult.PASS else AssertionResult.FAIL) (if matched then STATUS_MATCH else STATUS_MISMATCH)
            (Some status))"

definition evaluate_acknowledgement :: "string \<Rightarrow> ustring \<Rightarrow> TransportAssertionInput \<Rightarrow> TransportAssertionEvaluation result" where
  "evaluate_acknowledgement assertion_id deadline_text supplied =
     (let attempt = ti_attempt supplied; deadline = nanoseconds deadline_text;
          evaluation = (\<lambda>result code status elapsed. TransportAssertionEvaluation_post_init
            \<lparr>te_assertion_id = assertion_id, te_attempt_id = ae_attempt_id attempt, te_result = result, te_code = code,
             te_expected_statuses = [], te_expected_classes = [], te_actual_status = status, te_deadline_ns = Some deadline,
             te_response_headers_elapsed_ns = elapsed\<rparr>) in
      case ae_response attempt of
        None \<Rightarrow> evaluation AssertionResult.ERROR RESPONSE_MISSING None None
      | Some response \<Rightarrow>
          (case ti_response_headers_elapsed_ns supplied of
             None \<Rightarrow> evaluation AssertionResult.ERROR HEADER_TIMING_MISSING (Some (response_status response)) None
           | Some elapsed \<Rightarrow>
               let inside = elapsed \<le> deadline in
               evaluation (if inside then AssertionResult.PASS else AssertionResult.FAIL)
                 (if inside then ACKNOWLEDGEMENT_WITHIN_DEADLINE else ACKNOWLEDGEMENT_DEADLINE_EXCEEDED)
                 (Some (response_status response)) (Some elapsed)))"

text \<open>Bare attempt evidence is wrapped without a header latency.\<close>

definition evaluate_transport_assertion :: "TransportAssertion \<Rightarrow> AttemptEvidence + TransportAssertionInput \<Rightarrow>
    TransportAssertionEvaluation result" where
  "evaluate_transport_assertion assertion evidence =
     and_then (case evidence of
         Inl attempt \<Rightarrow> TransportAssertionInput_post_init \<lparr>ti_attempt = attempt, ti_response_headers_elapsed_ns = None\<rparr>
       | Inr supplied \<Rightarrow> Inr supplied) (\<lambda>supplied.
     case assertion of
       HttpStatusAssertion i expected \<Rightarrow> evaluate_status i expected (ti_attempt supplied)
     | AcknowledgementDeadlineAssertion i deadline \<Rightarrow> evaluate_acknowledgement i deadline supplied)"

section \<open>Meaning\<close>

text \<open>The hundreds digit that a class stands for, and the verdict that an expectation asks for: without the evidence it
  needs, an assertion is an error and never a verdict.\<close>

fun class_digit :: "HttpStatusClass \<Rightarrow> int" where
  "class_digit SUCCESS = 2" | "class_digit REDIRECTION = 3" | "class_digit CLIENT_ERROR = 4" | "class_digit SERVER_ERROR = 5"

definition expected_status :: "StatusExpectation \<Rightarrow> int \<Rightarrow> bool" where
  "expected_status e status \<longleftrightarrow> (\<exists>xs. se_codes e = Some xs \<and> status \<in> set xs) \<or>
     (\<exists>cs c. se_classes e = Some cs \<and> c \<in> set cs \<and> status div 100 = class_digit c)"

fun transport_verdict :: "TransportAssertion \<Rightarrow> ResponseMetadata option \<Rightarrow> int option \<Rightarrow> AssertionResult" where
  "transport_verdict (HttpStatusAssertion _ e) (Some r) _ =
     (if expected_status e (response_status r) then AssertionResult.PASS else AssertionResult.FAIL)"
| "transport_verdict (AcknowledgementDeadlineAssertion _ d) (Some _) (Some elapsed) =
     (if elapsed \<le> nanoseconds d then AssertionResult.PASS else AssertionResult.FAIL)"
| "transport_verdict _ _ _ = AssertionResult.ERROR"

fun transport_configured :: "TransportAssertion \<Rightarrow> bool" where
  "transport_configured (HttpStatusAssertion i e) \<longleftrightarrow> i \<noteq> [] \<and> returns (StatusExpectation_validate e)"
| "transport_configured (AcknowledgementDeadlineAssertion i d) \<longleftrightarrow> i \<noteq> [] \<and> Duration_new PositiveDuration d = Inr d"

definition elapsed_of :: "AttemptEvidence + TransportAssertionInput \<Rightarrow> int option" where
  "elapsed_of evidence = (case evidence of Inl _ \<Rightarrow> None | Inr i \<Rightarrow> ti_response_headers_elapsed_ns i)"

definition attempt_of :: "AttemptEvidence + TransportAssertionInput \<Rightarrow> AttemptEvidence" where
  "attempt_of evidence = (case evidence of Inl a \<Rightarrow> a | Inr i \<Rightarrow> ti_attempt i)"

lemma status_class_digit: "100 \<le> s \<Longrightarrow> s \<le> 599 \<Longrightarrow> status_class s = Some c \<longleftrightarrow> s div 100 = class_digit c"
  by (cases c) (auto simp: status_class_def)

lemma matched_exact:
  "100 \<le> s \<Longrightarrow> s \<le> 599 \<Longrightarrow>
     s \<in> set (listed (se_codes e)) \<or> (\<exists>c \<in> set (listed (se_classes e)). status_class s = Some c) \<longleftrightarrow> expected_status e s"
  by (cases "se_codes e"; cases "se_classes e") (auto simp: expected_status_def listed_def status_class_digit)

lemma codes_in_range:
  "returns (StatusExpectation_validate e) \<Longrightarrow> list_all (\<lambda>s. 100 \<le> s \<and> s \<le> 599) (listed (se_codes e))"
  by (cases "se_codes e") (auto simp: StatusExpectation_validate_def validate_codes_def listed_def returns_iff and_then_eq_Inr)

lemma positive_duration: "Duration_new PositiveDuration d = Inr d \<Longrightarrow> 1 \<le> nanoseconds d \<and> nanoseconds d \<le> 2 ^ 63 - 1"
  by (auto simp: Duration_new_def nanoseconds_def int_of_digits_def and_then_eq_Inr MAX_DURATION_NANOSECONDS_def Let_def split: option.splits prod.splits)

text \<open>Transport assertions are exact. For a configured assertion and validated evidence the evaluation always succeeds. A status
  assertion passes exactly when the observed status is one of the configured codes or its hundreds digit is that of a
  configured class; a deadline assertion passes exactly when the response headers arrived within the configured
  nanoseconds. Without a response, or without header timing, the result is an error and not a failure of the
  receiver.\<close>

lemma transport_assertion_exact:
  assumes "transport_configured assertion" "ae_attempt_id (attempt_of evidence) \<noteq> []" "nonnegative_int64 (elapsed_of evidence)"
    and response: "case ae_response (attempt_of evidence) of None \<Rightarrow> True | Some r \<Rightarrow> ResponseMetadata_validate r = Inr r"
  shows "\<exists>e. evaluate_transport_assertion assertion evidence = Inr e \<and>
    te_result e = transport_verdict assertion (ae_response (attempt_of evidence)) (elapsed_of evidence)"
proof -
  have status: "100 \<le> response_status r \<and> response_status r \<le> 599" if "ae_response (attempt_of evidence) = Some r" for r
    using response that by (auto simp: ResponseMetadata_validate_def and_then_eq_Inr)
  obtain i where i: "evaluate_transport_assertion assertion evidence = (case assertion of
      HttpStatusAssertion n expected \<Rightarrow> evaluate_status n expected (ti_attempt i)
    | AcknowledgementDeadlineAssertion n deadline \<Rightarrow> evaluate_acknowledgement n deadline i)"
    "ti_attempt i = attempt_of evidence" "ti_response_headers_elapsed_ns i = elapsed_of evidence"
    by (cases evidence)
      (auto simp: evaluate_transport_assertion_def TransportAssertionInput_post_init_def attempt_of_def elapsed_of_def nonnegative_int64_def)
  show ?thesis
  proof (cases assertion)
    case (HttpStatusAssertion n e)
    then show ?thesis
      using assms(1,2) status codes_in_range[of e] unfolding i(1)
      by (cases "ae_response (attempt_of evidence)")
        (simp_all add: i evaluate_status_def TransportAssertionEvaluation_post_init_def nonnegative_int64_def Let_def
          matched_exact)
  next
    case (AcknowledgementDeadlineAssertion n d)
    then show ?thesis
      using assms(1,2,3) status positive_duration[of d] unfolding i(1)
      by (auto simp: i evaluate_acknowledgement_def TransportAssertionEvaluation_post_init_def nonnegative_int64_def Let_def split: option.splits)
  qed
qed

definition sample_attempt :: AttemptEvidence where
  "sample_attempt = \<lparr>ae_record_id = ''record-1'', ae_run_id = ''run-1'', ae_scenario_id = ''scenario-1'', ae_event_id = ''event-1'',
     ae_delivery_id = ''delivery-1'', ae_attempt_id = ''attempt-1'', ae_sequence = 1, ae_recorded_at = text_of ''2026-01-01T00:00:00Z'',
     ae_logical_time_ns = None, ae_monotonic_elapsed_ns = Some 5, ae_state = AttemptEvidenceState.ACKNOWLEDGED,
     ae_classification = AttemptClassification.RECEIVER_ACCEPTED, ae_request = None,
     ae_response = Some \<lparr>response_status = 204, response_body_sha256 = None, captured_bytes = 0, truncated = False\<rparr>, ae_error = None\<rparr>"

lemma transport_assertion_exact_witness:
  "(\<exists>e. evaluate_transport_assertion (HttpStatusAssertion ''accepted'' \<lparr>se_codes = Some [200], se_classes = Some [SUCCESS]\<rparr>) (Inl sample_attempt) = Inr e \<and>
     te_result e = AssertionResult.PASS) \<and>
   (\<exists>e. evaluate_transport_assertion (AcknowledgementDeadlineAssertion ''quick'' (text_of ''2s''))
      (Inr \<lparr>ti_attempt = sample_attempt, ti_response_headers_elapsed_ns = Some 2000000001\<rparr>) = Inr e \<and> te_result e = AssertionResult.FAIL)"
proof -
  have "Duration_new PositiveDuration (text_of ''2s'') = Inr (text_of ''2s'')" "nanoseconds (text_of ''2s'') = 2000000000" by code_simp+
  then show ?thesis
    using transport_assertion_exact[of "HttpStatusAssertion ''accepted'' \<lparr>se_codes = Some [200], se_classes = Some [SUCCESS]\<rparr>" "Inl sample_attempt"]
      transport_assertion_exact[of "AcknowledgementDeadlineAssertion ''quick'' (text_of ''2s'')"
        "Inr \<lparr>ti_attempt = sample_attempt, ti_response_headers_elapsed_ns = Some 2000000001\<rparr>"]
    by (simp add: sample_attempt_def attempt_of_def elapsed_of_def nonnegative_int64_def ResponseMetadata_validate_def when_some_def
        StatusExpectation_validate_def validate_codes_def validate_classes_def require_unique_values_def MAX_STATUS_CODES_def
        MAX_STATUS_CLASSES_def expected_status_def returns_def)
qed

end
