(* ===== verification/Spec2Isabelle.thy ===== *)
theory Spec2Isabelle
  imports Schedule_Engine Identifiers Barriers Retries Verdicts Transition_Commands Stripe_Signer
    Standard_Webhooks_Signer Generic_Hmac_Signer Destination_Policy Recovery_Application Bundle_Policy Reconciliation
    Assertions_Temporal Assertions_Transport
begin

text \<open>
  A verification development for the webhook receiver conformance harness
  (\<open>src/src/webhook_receiver_conformance\<close>), a command line program that delivers signed, possibly repeated or reordered
  webhooks to a receiver, records everything it does in a journal, observes the receiver's state, and judges it.

  \<^bold>\<open>How the program works.\<close> A run executes an immutable manifest. The \<^emph>\<open>deterministic generator\<close> derives every planned
  identifier, jitter and choice from the manifest's seed. Planned attempts are entries of a \<^emph>\<open>persistent schedule\<close>: a
  bounded priority queue over clock domains, from which an engine leases due work journal-first; \<^emph>\<open>concurrency barriers\<close>
  release groups of deliveries. Before a delivery leaves, the \<^emph>\<open>destination policy\<close> checks the receiver's URL and every
  resolved address, and a \<^emph>\<open>signer\<close> signs the exact body. Every change of an entity is a typed \<^emph>\<open>transition command\<close>; the
  ledger of transitions can be replayed. \<^emph>\<open>Retries\<close> follow the manifest's attempt templates. \<^emph>\<open>Observers\<close> report the
  receiver's state under a wire protocol; a \<^emph>\<open>poller\<close> repeats safe observations until a deadline, and \<^emph>\<open>assertions\<close> judge
  the evidence. After a crash a fresh process \<^emph>\<open>scans\<close> the journal, moves interrupted attempts to conservative states and
  plans what a \<^emph>\<open>resume\<close> may do about ambiguous deliveries: stop, observe and \<^emph>\<open>reconcile\<close>, ask the operator, or
  redeliver with the consent of the invocation and of the bundle. At last the \<^emph>\<open>verdict\<close> reduces all facts to one
  category and exit code.

  \<^bold>\<open>Conventions.\<close> A Python function that may raise returns \<open>exn + 'a\<close> (\<open>'a result\<close> of \<^verbatim>\<open>Conformance_Prelude\<close>), \<open>Inl\<close> the
  exception with its class and, where the code fixes it, its message; \<open>and_then\<close> and \<open>raise_unless\<close> are the sequence of
  statements and the guarded raise. A frozen dataclass is a record, and its \<open>__post_init__\<close> is the definition
  \<open><Class>_post_init\<close> or \<open><Class>_init\<close> that returns the record or the exception; a pydantic model is a record with
  \<open><Class>_validate\<close>, applied to arguments of the declared field types. Enumerations are datatypes with the source's
  constructors. Dynamic type checks have no counterpart, because an argument has its type. Text of ASCII tokens is a
  \<open>string\<close>, text that may hold any character a list of code points (\<open>ustring\<close>), bytes are \<open>8 word\<close> lists. Python's
  integers are \<open>int\<close>, and the bounds of the code are written out; SHA-256 and the address tables work on machine words.
  Weak-reference registries that mint objects have no counterpart for immutable values.

  \<^bold>\<open>Theories.\<close>
  \<^item> \<^verbatim>\<open>Conformance_Prelude\<close>, \<^verbatim>\<open>Byte_Text\<close>, \<^verbatim>\<open>Text_Codecs\<close>, \<^verbatim>\<open>Sha256\<close>, \<^verbatim>\<open>Ip_Text\<close>: results and boundary checks; what the code
    uses of Python's bytes, text, base64, hex, hashing and \<open>ipaddress\<close>, with round trips. \<^verbatim>\<open>Domain_Enums\<close>: \<open>domain/enums.py\<close>.
  \<^item> \<^verbatim>\<open>Generator\<close>, \<^verbatim>\<open>Identifiers\<close>: \<open>determinism/generator.py\<close> and \<open>domain/identifiers.py\<close>. Draws are slices of one
    HMAC stream per context, contexts are injective, bounded integers are unbiased, identifiers are unambiguous codes.
  \<^item> \<^verbatim>\<open>Clocks\<close>, \<^verbatim>\<open>Heapq\<close>, \<^verbatim>\<open>Schedule_Queue\<close>, \<^verbatim>\<open>Schedule_Engine\<close>, \<^verbatim>\<open>Barriers\<close>, \<^verbatim>\<open>Retries\<close>: \<open>scheduler/\<close>. The heap of
    \<open>heapq\<close> interprets the locale \<open>min_queue\<close>; the queue interprets \<open>pending_projection\<close> and refines a set of items; the
    engine is a step relation over concurrent, failing and cancelled calls in which no identity is leased twice; the
    worker pool of the barriers is a step relation that is bounded, gated, finite and never stuck.
  \<^item> \<^verbatim>\<open>Lifecycle\<close>, \<^verbatim>\<open>Ledger_Replay\<close>, \<^verbatim>\<open>Transition_Commands\<close>: \<open>journal/transitions.py\<close> and the records of \<open>domain/models.py\<close> it
    uses. Replay accepts exactly the ledgers whose histories are legal, and a staged response is accepted exactly with
    the outcome it entails.
  \<^item> \<^verbatim>\<open>Signing_Base\<close>, \<^verbatim>\<open>Signing_Framing\<close>, \<^verbatim>\<open>Signer_Protocol\<close>, \<^verbatim>\<open>Stripe_Signer\<close>, \<^verbatim>\<open>Standard_Webhooks_Signer\<close>,
    \<^verbatim>\<open>Generic_Hmac_Signer\<close>: \<open>signatures/\<close> and the secret handles of \<open>secrets.py\<close>. The contract is the locale
    \<open>hmac_signer\<close>, interpreted by the three signers: what they sign they verify, and they accept nothing else.
  \<^item> \<^verbatim>\<open>Network_Addresses\<close>, \<^verbatim>\<open>Address_Stability\<close>, \<^verbatim>\<open>Destination_Policy\<close>: \<open>network/addresses.py\<close> and \<open>network/policy.py\<close>. The
    netmask checks agree with an explicit map of the address space; nothing is authorized that the profile forbids.
  \<^item> \<^verbatim>\<open>Recovery_Models\<close>, \<^verbatim>\<open>Recovery_Scanner\<close>, \<^verbatim>\<open>Recovery_Application\<close>, \<^verbatim>\<open>Resume_Models\<close>, \<^verbatim>\<open>Resume_Policy\<close>,
    \<^verbatim>\<open>Resume_Guarantees\<close>, \<^verbatim>\<open>Bundle_Policy\<close>, \<^verbatim>\<open>Reconciliation\<close>: \<open>recovery/\<close> and \<open>manifest/models.py\<close>. Scanning is
    conservative and yields linear histories, a scanned plan can be applied, no ambiguous delivery is redelivered
    without consent, a redelivery is the next attempt of the manifest, the schedule is conserved, and reconciliation
    needs conclusive evidence.
  \<^item> \<^verbatim>\<open>Observer_Json\<close>, \<^verbatim>\<open>Observer_Protocol\<close>, \<^verbatim>\<open>Observer_Polling\<close>: \<open>observers/protocol.py\<close> and \<open>observers/polling.py\<close>. JSON is
    accepted exactly within its limits, a response exactly when it answers its request; a series of polls accounts for
    every sample and ends.
  \<^item> \<^verbatim>\<open>Config_Values\<close>, \<^verbatim>\<open>Assertions_State\<close>, \<^verbatim>\<open>Assertions_Composite\<close>, \<^verbatim>\<open>Assertions_Temporal\<close>, \<^verbatim>\<open>Assertions_Transport\<close>:
    \<open>assertions/\<close> and the value types and assertion models of \<open>config/models.py\<close>. Every assertion gives the verdict of
    a specification over rational numbers, JSON meanings, sublists and hundreds digits, and evidence that is missing is
    never a failure of the receiver.
  \<^item> \<^verbatim>\<open>Verdicts\<close>: \<open>errors.py\<close> and \<open>runtime/verdicts.py\<close>; the reduction is the documented precedence.

  \<^bold>\<open>Loops and bounds.\<close> Loops over data are structural recursion. The sampling loop of the generator ends because the
  counter space of \<open>32 * 2 ^ 64\<close> bytes is finite, and raises past it; the canonical JSON walk ends because its work
  stack shrinks in size. The poller takes one record of inputs per round and answers \<open>None\<close> when they are used up; when
  every wait lasts as long as asked, \<open>within div interval + 2\<close> rounds are enough for an answer. No other fuel is used.

  \<^bold>\<open>Parameters.\<close> What is not code of the repository is an argument: the answers and failures of the schedule journal,
  the wall clock and monotonic readings, fresh identifiers, the rows a scan reads and the reader of ISO timestamps, the
  supplier of reconciliation evidence, the verification of a manifest's identifier, the observer's answers and the
  cancellation points of a polling series, IDNA encoding, and which characters outside ASCII \<open>\d\<close> and \<open>int\<close> read as decimal
  digits, which depends on the interpreter's Unicode version. Python values are trees, so that the checks against
  reference cycles in JSON cannot fire.

  \<^bold>\<open>Not modelled.\<close> The journal's storage (\<open>journal/repositories.py\<close>, \<open>service.py\<close>, \<open>schema.py\<close>, \<open>connection.py\<close>,
  \<open>bootstrap.py\<close>, \<open>run_lock.py\<close>, \<open>artifacts.py\<close> and their readers) is SQL whose meaning is the database engine's, and
  file locks. \<open>runtime/\<close> other than the verdicts orchestrates sockets, child processes, the journal and observers;
  \<open>http/\<close>, \<open>network/dialer.py\<close>, \<open>transport.py\<close> and \<open>preflight.py\<close> are network input and output, as are the observer
  transports \<open>observers/http_probe.py\<close> and \<open>command.py\<close>. \<open>config/loader.py\<close> drives a YAML parser; the project and
  scenario schemas of \<open>config/models.py\<close> and \<open>scenario/\<close>, the manifest compiler and loader, the mutations of
  \<open>mutations/\<close>, the fixtures and the report writers are outside the development. Of \<open>observers/protocol.py\<close> the reader of
  JSON text, the wire serialization and the registry of built-in observers are left out, of \<open>secrets.py\<close> the
  resolution of references, of \<open>signatures/base.py\<close> the registry of external signers.
\<close>

end
